(* ===== verification/Prelude.thy ===== *)
theory Prelude
  imports Main "HOL-Library.Word" "HOL-Library.Code_Target_Nat"
begin

text \<open>
  What every component of the development shares: the outcome of a Rust function (a value,
  an error value, or a panic), the state-passing combinators the evaluator and the parser
  are written with, the target the code is compiled for, two's complement \<open>i64\<close>
  arithmetic, and the pieces of \<open>core::str\<close> the source relies on (UTF-8 validity,
  characters, slicing, trimming, integer parsing and printing).

  A Rust \<open>str\<close> and a Rust \<open>[u8]\<close> are both the list of their bytes: an Isabelle
  \<open>char\<close> is one byte, so \<^typ>\<open>string\<close> is a byte list and a literal is its UTF-8
  encoding.
\<close>

section \<open>Collections of rewrite rules\<close>

named_theorems monad_simps \<open>unfolding rules of the state-passing combinators\<close>
named_theorems bytes_simps \<open>facts on byte strings and their encodings\<close>

section \<open>Outcomes\<close>

text \<open>
  A call returns \<open>Ok v\<close>, returns \<open>Err e\<close>, or panics (an out-of-range index, a checked
  overflow, a slice off a character boundary, \<open>unreachable!\<close>).
\<close>

datatype ('a, 'e) outcome = Ok 'a | Err 'e | Panic

definition bindR :: "('a, 'e) outcome \<Rightarrow> ('a \<Rightarrow> ('b, 'e) outcome) \<Rightarrow> ('b, 'e) outcome" where
  "bindR r k = (case r of Ok v \<Rightarrow> k v | Err e \<Rightarrow> Err e | Panic \<Rightarrow> Panic)"

lemma bindR_simps [simp]:
  "bindR (Ok v) k = k v"
  "bindR (Err e) k = Err e"
  "bindR Panic k = Panic"
  by (simp_all add: bindR_def)

lemma bindR_eq_Ok: "bindR r k = Ok w \<longleftrightarrow> (\<exists>v. r = Ok v \<and> k v = Ok w)"
  by (cases r) auto

lemma bindR_eq_Panic: "bindR r k = Panic \<longleftrightarrow> r = Panic \<or> (\<exists>v. r = Ok v \<and> k v = Panic)"
  by (cases r) auto

lemma bindR_eq_Err: "bindR r k = Err e \<longleftrightarrow> r = Err e \<or> (\<exists>v. r = Ok v \<and> k v = Err e)"
  by (cases r) auto

lemma bindR_cong [fundef_cong]:
  "r = r' \<Longrightarrow> (\<And>v. r' = Ok v \<Longrightarrow> k v = k' v) \<Longrightarrow> bindR r k = bindR r' k'"
  by (cases r') auto

text \<open>\<open>?\<close> on an \<open>Option\<close>: \<open>ok_or\<close> turns the missing value into the given error.\<close>

definition ok_or :: "'a option \<Rightarrow> 'e \<Rightarrow> ('a, 'e) outcome" where
  "ok_or x e = (case x of None \<Rightarrow> Err e | Some v \<Rightarrow> Ok v)"

lemma ok_or_simps [simp]: "ok_or None e = Err e" "ok_or (Some v) e = Ok v"
  by (simp_all add: ok_or_def)

definition of_result :: "'e + 'a \<Rightarrow> ('a, 'e) outcome" where
  "of_result r = (case r of Inl e \<Rightarrow> Err e | Inr v \<Rightarrow> Ok v)"

lemma of_result_simps [simp]: "of_result (Inl e) = Err e" "of_result (Inr v) = Ok v"
  by (simp_all add: of_result_def)

lemma of_result_not_Panic [simp]: "of_result r \<noteq> Panic"
  by (cases r) simp_all

section \<open>State-passing combinators\<close>

text \<open>
  A method on \<open>&mut self\<close> that may fail takes the state and returns its outcome with the
  new state; the state is returned on every path, since effects made before an error stay.
\<close>

type_synonym ('s, 'a, 'e) comp = "'s \<Rightarrow> ('a, 'e) outcome \<times> 's"

definition returnM :: "'a \<Rightarrow> ('s, 'a, 'e) comp" where
  "returnM v = (\<lambda>s. (Ok v, s))"

definition failM :: "'e \<Rightarrow> ('s, 'a, 'e) comp" where
  "failM e = (\<lambda>s. (Err e, s))"

definition liftR :: "('a, 'e) outcome \<Rightarrow> ('s, 'a, 'e) comp" where
  "liftR r = (\<lambda>s. (r, s))"

definition bindM :: "('s, 'a, 'e) comp \<Rightarrow> ('a \<Rightarrow> ('s, 'b, 'e) comp) \<Rightarrow> ('s, 'b, 'e) comp" where
  "bindM m k = (\<lambda>s. case m s of
     (Ok v, s') \<Rightarrow> k v s' | (Err e, s') \<Rightarrow> (Err e, s') | (Panic, s') \<Rightarrow> (Panic, s'))"

lemma returnM_apply [simp, monad_simps]: "returnM v s = (Ok v, s)"
  by (simp add: returnM_def)

lemma failM_apply [simp, monad_simps]: "failM e s = (Err e, s)"
  by (simp add: failM_def)

lemma liftR_apply [simp, monad_simps]: "liftR r s = (r, s)"
  by (simp add: liftR_def)

lemma bindM_apply [monad_simps]:
  "bindM m k s = (case m s of
     (Ok v, s') \<Rightarrow> k v s' | (Err e, s') \<Rightarrow> (Err e, s') | (Panic, s') \<Rightarrow> (Panic, s'))"
  by (simp add: bindM_def)

lemma bindM_simps:
  "m s = (Ok v, s') \<Longrightarrow> bindM m k s = k v s'"
  "m s = (Err e, s') \<Longrightarrow> bindM m k s = (Err e, s')"
  "m s = (Panic, s') \<Longrightarrow> bindM m k s = (Panic, s')"
  by (simp_all add: bindM_def)

lemma bindM_eq_Ok: "bindM m k f = (Ok v, h) \<longleftrightarrow> (\<exists>u g. m f = (Ok u, g) \<and> k u g = (Ok v, h))"
  by (auto simp: bindM_apply split: prod.split outcome.split)

lemma bindM_assoc: "bindM (bindM m k) l = bindM m (\<lambda>v. bindM (k v) l)"
  by (rule ext) (simp add: bindM_apply split: prod.split outcome.split)

lemma bindM_return: "bindM (returnM v) k = k v"
  by (rule ext) (simp add: bindM_apply)

lemma bindM_right: "bindM m returnM = m"
  by (rule ext) (simp add: bindM_apply split: prod.split outcome.split)

text \<open>
  A small Hoare logic over these computations. \<open>triple P m Q E\<close> says that from a state in
  \<open>P\<close> an \<open>Ok\<close> result satisfies \<open>Q\<close>, an error \<open>e\<close> satisfies \<open>E (Some e)\<close> and a panic
  \<open>E None\<close>.
\<close>

definition triple ::
  "('s \<Rightarrow> bool) \<Rightarrow> ('s, 'a, 'e) comp \<Rightarrow> ('a \<Rightarrow> 's \<Rightarrow> bool) \<Rightarrow> ('e option \<Rightarrow> 's \<Rightarrow> bool) \<Rightarrow> bool"
where
  "triple P m Q E \<longleftrightarrow> (\<forall>s. P s \<longrightarrow>
     (case m s of (Ok v, s') \<Rightarrow> Q v s' | (Err e, s') \<Rightarrow> E (Some e) s' | (Panic, s') \<Rightarrow> E None s'))"

lemma tripleI:
  "(\<And>s. P s \<Longrightarrow> case m s of (Ok v, s') \<Rightarrow> Q v s' | (Err e, s') \<Rightarrow> E (Some e) s' | (Panic, s') \<Rightarrow> E None s')
    \<Longrightarrow> triple P m Q E"
  by (simp add: triple_def)

lemma tripleD_Ok: "triple P m Q E \<Longrightarrow> P s \<Longrightarrow> m s = (Ok v, s') \<Longrightarrow> Q v s'"
  by (auto simp: triple_def dest!: spec [of _ s])

lemma tripleD_Err: "triple P m Q E \<Longrightarrow> P s \<Longrightarrow> m s = (Err e, s') \<Longrightarrow> E (Some e) s'"
  by (auto simp: triple_def dest!: spec [of _ s])

lemma tripleD_Panic: "triple P m Q E \<Longrightarrow> P s \<Longrightarrow> m s = (Panic, s') \<Longrightarrow> E None s'"
  by (auto simp: triple_def dest!: spec [of _ s])

lemma triple_return: "(\<And>s. P s \<Longrightarrow> Q v s) \<Longrightarrow> triple P (returnM v) Q E"
  by (simp add: triple_def)

lemma triple_fail: "(\<And>s. P s \<Longrightarrow> E (Some e) s) \<Longrightarrow> triple P (failM e) Q E"
  by (simp add: triple_def)

lemma triple_lift:
  "(\<And>s v. P s \<Longrightarrow> r = Ok v \<Longrightarrow> Q v s) \<Longrightarrow> (\<And>s e. P s \<Longrightarrow> r = Err e \<Longrightarrow> E (Some e) s) \<Longrightarrow>
   (\<And>s. P s \<Longrightarrow> r = Panic \<Longrightarrow> E None s) \<Longrightarrow> triple P (liftR r) Q E"
  by (cases r) (simp_all add: triple_def)

lemma triple_bind:
  assumes "triple P m R E" and "\<And>v. triple (R v) (k v) Q E"
  shows "triple P (bindM m k) Q E"
proof (rule tripleI)
  fix s assume "P s"
  show "case bindM m k s of (Ok v, s') \<Rightarrow> Q v s' | (Err e, s') \<Rightarrow> E (Some e) s' | (Panic, s') \<Rightarrow> E None s'"
  proof (cases "m s")
    case (Pair r s')
    show ?thesis
    proof (cases r)
      case (Ok v)
      with assms(1) \<open>P s\<close> Pair have "R v s'" by (auto dest: tripleD_Ok)
      with assms(2) [of v] Pair Ok show ?thesis by (simp add: bindM_apply triple_def)
    next
      case (Err e)
      with assms(1) \<open>P s\<close> Pair show ?thesis by (auto simp: bindM_apply dest: tripleD_Err)
    next
      case Panic
      with assms(1) \<open>P s\<close> Pair show ?thesis by (auto simp: bindM_apply dest: tripleD_Panic)
    qed
  qed
qed

lemma triple_conseq:
  assumes "triple P m Q E" and "\<And>s. P' s \<Longrightarrow> P s" and "\<And>v s. Q v s \<Longrightarrow> Q' v s"
    and "\<And>e s. E e s \<Longrightarrow> E' e s"
  shows "triple P' m Q' E'"
  using assms by (fastforce simp: triple_def split: prod.splits outcome.splits)

section \<open>Computations that agree\<close>

text \<open>
  \<open>agrees S l m m'\<close>: from related states the two computations have the same outcome and end
  in related states, unless the first one fails with \<open>l\<close>.
\<close>

definition agrees ::
  "('s \<Rightarrow> 't \<Rightarrow> bool) \<Rightarrow> 'e \<Rightarrow> ('s, 'a, 'e) comp \<Rightarrow> ('t, 'a, 'e) comp \<Rightarrow> bool"
where
  "agrees S l m m' \<longleftrightarrow> (\<forall>f f'. S f f' \<longrightarrow>
     fst (m f) = Err l \<or> (fst (m f) = fst (m' f') \<and> S (snd (m f)) (snd (m' f'))))"

lemma agreesD: "agrees S l m m' \<Longrightarrow> S f f' \<Longrightarrow>
    fst (m f) = Err l \<or> (fst (m f) = fst (m' f') \<and> S (snd (m f)) (snd (m' f')))"
  by (simp add: agrees_def)

lemma agrees_bind:
  assumes m: "agrees S l m m'" and k: "\<And>v. agrees S l (k v) (k' v)"
  shows "agrees S l (bindM m k) (bindM m' k')"
  unfolding agrees_def
proof (intro allI impI)
  fix f f' assume S: "S f f'"
  obtain r g where mf: "m f = (r, g)" by (cases "m f")
  obtain r' g' where mf': "m' f' = (r', g')" by (cases "m' f'")
  from m S mf mf' have h: "r = Err l \<or> (r = r' \<and> S g g')"
    by (auto dest: agreesD [OF m])
  show "fst (bindM m k f) = Err l \<or> (fst (bindM m k f) = fst (bindM m' k' f')
      \<and> S (snd (bindM m k f)) (snd (bindM m' k' f')))"
  proof (cases r)
    case (Ok v)
    with h agreesD [OF k, of g g' v] mf mf' show ?thesis by (auto simp: bindM_apply)
  qed (use h mf mf' in \<open>auto simp: bindM_apply\<close>)
qed

lemma agrees_return: "agrees S l (returnM v) (returnM v)"
  by (simp add: agrees_def)

lemma agrees_lift: "agrees S l (liftR r) (liftR r)"
  by (simp add: agrees_def)

lemma agrees_run:
  "agrees S l m m' \<Longrightarrow> S f f' \<Longrightarrow> fst (m f) \<noteq> Err l \<Longrightarrow> fst (m' f') = fst (m f) \<and> S (snd (m f)) (snd (m' f'))"
  by (auto dest: agreesD)

section \<open>The compilation target\<close>

text \<open>
  What differs between the builds of the workspace: \<open>overflow-checks\<close> (on in the dev
  profile, off in release, where arithmetic wraps), the width of \<open>usize\<close> (64 on the host,
  32 on the ESP32-S3 and in WebAssembly), \<open>size_of::<Value>()\<close>, and the part of the Unicode
  case tables outside ASCII, which \<open>str::to_uppercase\<close> and \<open>to_lowercase\<close> consult.
\<close>

record target =
  overflow_checks :: bool
  usize_bits :: nat
  size_of_value :: nat
  unicode_upper :: "string \<Rightarrow> string"
  unicode_lower :: "string \<Rightarrow> string"

definition host_target :: target where
  "host_target = \<lparr>overflow_checks = False, usize_bits = 64, size_of_value = 24,
     unicode_upper = (\<lambda>s. s), unicode_lower = (\<lambda>s. s)\<rparr>"

definition usize_max :: "target \<Rightarrow> nat" where
  "usize_max t = 2 ^ usize_bits t - 1"

lemma host_target_sel [simp]:
  "overflow_checks host_target = False" "usize_bits host_target = 64"
  "size_of_value host_target = 24"
  by (simp_all add: host_target_def)

section \<open>Two's complement integers\<close>

type_synonym u8 = "8 word"
type_synonym u16 = "16 word"
type_synonym u32 = "32 word"
type_synonym u64 = "64 word"
type_synonym i64 = "64 word"

abbreviation i64_min :: i64 where
  "i64_min \<equiv> word_of_int (- (2 ^ 63))"

text \<open>
  Unary minus, \<open>abs\<close> and \<open>+=\<close> panic on overflow when overflow checks are on and wrap
  otherwise. Division and remainder overflow (\<open>i64::MIN / -1\<close>) panics in every build.
\<close>

definition neg_i64 :: "target \<Rightarrow> i64 \<Rightarrow> (i64, 'e) outcome" where
  "neg_i64 t n = (if overflow_checks t \<and> n = i64_min then Panic else Ok (- n))"

definition abs_i64 :: "target \<Rightarrow> i64 \<Rightarrow> (i64, 'e) outcome" where
  "abs_i64 t n = (if sint n < 0 then neg_i64 t n else Ok n)"

definition add_i64 :: "target \<Rightarrow> i64 \<Rightarrow> i64 \<Rightarrow> (i64, 'e) outcome" where
  "add_i64 t a b =
     (if overflow_checks t \<and> (sint a + sint b < - (2 ^ 63) \<or> 2 ^ 63 \<le> sint a + sint b)
      then Panic else Ok (a + b))"

definition trunc_div :: "int \<Rightarrow> int \<Rightarrow> int" where
  "trunc_div a b = sgn a * sgn b * (\<bar>a\<bar> div \<bar>b\<bar>)"

definition trunc_rem :: "int \<Rightarrow> int \<Rightarrow> int" where
  "trunc_rem a b = a - trunc_div a b * b"

definition div_i64 :: "i64 \<Rightarrow> i64 \<Rightarrow> (i64, 'e) outcome" where
  "div_i64 a b = (if b = 0 \<or> (a = i64_min \<and> b = -1) then Panic
     else Ok (word_of_int (trunc_div (sint a) (sint b))))"

definition rem_i64 :: "i64 \<Rightarrow> i64 \<Rightarrow> (i64, 'e) outcome" where
  "rem_i64 a b = (if b = 0 \<or> (a = i64_min \<and> b = -1) then Panic
     else Ok (word_of_int (trunc_rem (sint a) (sint b))))"

end
