(* ===== verification/Utf8.thy ===== *)
theory Utf8
  imports Prelude
begin

text \<open>
  The parts of \<open>core::str\<close> and \<open>core::num\<close> the source relies on: byte classes, UTF-8
  validation and splitting into characters, slicing at character boundaries, \<open>trim\<close>,
  \<open>split\<close>, decimal parsing and decimal printing of integers.
\<close>

section \<open>Bytes\<close>

definition byte :: "char \<Rightarrow> nat" where
  "byte c = of_char c"

lemma byte_less [simp]: "byte c < 256"
  by (simp add: byte_def)

lemma byte_inject [simp]: "byte c = byte d \<longleftrightarrow> c = d"
  by (simp add: byte_def)

definition is_digit :: "char \<Rightarrow> bool" where
  "is_digit c \<longleftrightarrow> 48 \<le> byte c \<and> byte c \<le> 57"

definition is_alpha :: "char \<Rightarrow> bool" where
  "is_alpha c \<longleftrightarrow> (97 \<le> byte c \<and> byte c \<le> 122) \<or> (65 \<le> byte c \<and> byte c \<le> 90)"

definition is_ascii :: "char \<Rightarrow> bool" where
  "is_ascii c \<longleftrightarrow> byte c < 128"

definition ascii_lower :: "char \<Rightarrow> char" where
  "ascii_lower c = (if 65 \<le> byte c \<and> byte c \<le> 90 then char_of (byte c + 32) else c)"

definition ascii_upper :: "char \<Rightarrow> char" where
  "ascii_upper c = (if 97 \<le> byte c \<and> byte c \<le> 122 then char_of (byte c - 32) else c)"

definition to_ascii_lowercase :: "string \<Rightarrow> string" where
  "to_ascii_lowercase = map ascii_lower"

definition to_uppercase :: "target \<Rightarrow> string \<Rightarrow> string" where
  "to_uppercase t s = (if list_all is_ascii s then map ascii_upper s else unicode_upper t s)"

definition to_lowercase :: "target \<Rightarrow> string \<Rightarrow> string" where
  "to_lowercase t s = (if list_all is_ascii s then map ascii_lower s else unicode_lower t s)"

section \<open>UTF-8\<close>

text \<open>
  \<open>utf8_step s\<close> is the width of the character \<open>s\<close> starts with, if its first bytes are a
  well-formed UTF-8 sequence (no overlong form, no surrogate, nothing past U+10FFFF).
\<close>

definition is_cont :: "char \<Rightarrow> bool" where
  "is_cont c \<longleftrightarrow> 128 \<le> byte c \<and> byte c < 192"

definition in_range :: "nat \<Rightarrow> nat \<Rightarrow> char \<Rightarrow> bool" where
  "in_range lo hi c \<longleftrightarrow> lo \<le> byte c \<and> byte c \<le> hi"

definition snd_range :: "nat \<Rightarrow> nat \<times> nat" where
  "snd_range b = (if b = 224 then (160, 191) else if b = 237 then (128, 159)
     else if b = 240 then (144, 191) else if b = 244 then (128, 143) else (128, 191))"

fun utf8_step :: "string \<Rightarrow> nat option" where
  "utf8_step [] = None"
| "utf8_step (c # cs) =
     (let b = byte c; (lo, hi) = snd_range b in
      if b < 128 then Some 1
      else if 194 \<le> b \<and> b \<le> 223 then
        (case cs of c1 # _ \<Rightarrow> if is_cont c1 then Some 2 else None | _ \<Rightarrow> None)
      else if 224 \<le> b \<and> b \<le> 239 then
        (case cs of c1 # c2 # _ \<Rightarrow> if in_range lo hi c1 \<and> is_cont c2 then Some 3 else None | _ \<Rightarrow> None)
      else if 240 \<le> b \<and> b \<le> 244 then
        (case cs of c1 # c2 # c3 # _ \<Rightarrow>
           if in_range lo hi c1 \<and> is_cont c2 \<and> is_cont c3 then Some 4 else None
         | _ \<Rightarrow> None)
      else None)"

lemma utf8_step_bounds: "utf8_step s = Some n \<Longrightarrow> 1 \<le> n \<and> n \<le> length s"
  by (cases s rule: utf8_step.cases)
     (auto simp: Let_def split: if_splits prod.splits list.splits)

text \<open>\<open>Utf8Error::valid_up_to\<close>: the length of the longest well-formed prefix.\<close>

function valid_up_to :: "string \<Rightarrow> nat" where
  "valid_up_to s = (case utf8_step s of None \<Rightarrow> 0 | Some n \<Rightarrow> n + valid_up_to (drop n s))"
  by pat_completeness auto
termination
  by (relation "measure length") (auto dest: utf8_step_bounds)

declare valid_up_to.simps [simp del]

definition valid_utf8 :: "string \<Rightarrow> bool" where
  "valid_utf8 s \<longleftrightarrow> valid_up_to s = length s"

text \<open>The bytes of the character a lead byte announces, and the characters of a string.\<close>

definition char_width :: "char \<Rightarrow> nat" where
  "char_width c = (if byte c < 192 then 1 else if byte c < 224 then 2 else if byte c < 240 then 3 else 4)"

function utf8_chars :: "string \<Rightarrow> string list" where
  "utf8_chars [] = []"
| "utf8_chars (c # cs) =
     (c # take (char_width c - 1) cs) # utf8_chars (drop (char_width c - 1) cs)"
  by pat_completeness auto
termination
  by (relation "measure length") auto

definition encode_utf8 :: "nat \<Rightarrow> string" where
  "encode_utf8 cp =
     (if cp < 128 then [char_of cp]
      else if cp < 2048 then [char_of (192 + cp div 64), char_of (128 + cp mod 64)]
      else if cp < 65536 then
        [char_of (224 + cp div 4096), char_of (128 + cp div 64 mod 64), char_of (128 + cp mod 64)]
      else [char_of (240 + cp div 262144), char_of (128 + cp div 4096 mod 64),
            char_of (128 + cp div 64 mod 64), char_of (128 + cp mod 64)])"

text \<open>\<open>char::from_u32\<close>: \<open>None\<close> for surrogates and past U+10FFFF.\<close>

definition char_from_u32 :: "nat \<Rightarrow> string option" where
  "char_from_u32 cp = (if cp < 55296 \<or> (57344 \<le> cp \<and> cp < 1114112) then Some (encode_utf8 cp) else None)"

text \<open>
  \<open>&s[i..j]\<close>: a panic unless both ends are in range and on a character boundary.
\<close>

definition is_char_boundary :: "string \<Rightarrow> nat \<Rightarrow> bool" where
  "is_char_boundary s i \<longleftrightarrow> i = 0 \<or> i = length s \<or> (i < length s \<and> \<not> is_cont (s ! i))"

definition str_slice :: "string \<Rightarrow> nat \<Rightarrow> nat \<Rightarrow> (string, 'e) outcome" where
  "str_slice s i j =
     (if i \<le> j \<and> is_char_boundary s i \<and> is_char_boundary s j then Ok (take (j - i) (drop i s)) else Panic)"

section \<open>Splitting and trimming\<close>

fun split_on :: "char \<Rightarrow> string \<Rightarrow> string list" where
  "split_on d [] = [[]]"
| "split_on d (c # cs) =
     (if c = d then [] # split_on d cs
      else (case split_on d cs of [] \<Rightarrow> [[c]] | p # ps \<Rightarrow> (c # p) # ps))"

fun split_once :: "char \<Rightarrow> string \<Rightarrow> (string \<times> string) option" where
  "split_once d [] = None"
| "split_once d (c # cs) =
     (if c = d then Some ([], cs)
      else map_option (\<lambda>(p, q). (c # p, q)) (split_once d cs))"

text \<open>
  The characters with the Unicode property \<open>White_Space\<close>, by their encodings: U+0009 to
  U+000D, U+0020, U+0085, U+00A0, U+1680, U+2000 to U+200A, U+2028, U+2029, U+202F, U+205F
  and U+3000.
\<close>

definition is_white :: "string \<Rightarrow> bool" where
  "is_white c = (case map byte c of
       [a] \<Rightarrow> (9 \<le> a \<and> a \<le> 13) \<or> a = 32
     | [a, b] \<Rightarrow> a = 194 \<and> (b = 133 \<or> b = 160)
     | [a, b, d] \<Rightarrow>
         (a = 225 \<and> b = 154 \<and> d = 128)
       \<or> (a = 226 \<and> b = 128 \<and> ((128 \<le> d \<and> d \<le> 138) \<or> d = 168 \<or> d = 169 \<or> d = 175))
       \<or> (a = 226 \<and> b = 129 \<and> d = 159)
       \<or> (a = 227 \<and> b = 128 \<and> d = 128)
     | _ \<Rightarrow> False)"

definition trim :: "string \<Rightarrow> string" where
  "trim s = concat (rev (dropWhile is_white (rev (dropWhile is_white (utf8_chars s)))))"

section \<open>Decimal integers\<close>

definition digit_char :: "nat \<Rightarrow> char" where
  "digit_char d = char_of (48 + d)"

fun show_nat :: "nat \<Rightarrow> string" where
  "show_nat n = (if n < 10 then [digit_char n] else show_nat (n div 10) @ [digit_char (n mod 10)])"

declare show_nat.simps [simp del]

definition show_int :: "int \<Rightarrow> string" where
  "show_int i = (if i < 0 then CHR ''-'' # show_nat (nat (- i)) else show_nat (nat i))"

definition show_i64 :: "i64 \<Rightarrow> string" where
  "show_i64 n = show_int (sint n)"

fun digits_val :: "int \<Rightarrow> string \<Rightarrow> int option" where
  "digits_val acc [] = Some acc"
| "digits_val acc (c # cs) =
     (if is_digit c then digits_val (acc * 10 + int (byte c - 48)) cs else None)"

text \<open>
  \<open>str::parse\<close> for a signed and an unsigned integer type with values in \<open>[lo, hi]\<close>: one
  optional sign (\<open>+\<close>, and \<open>-\<close> for a signed type), then at least one digit and nothing
  else.
\<close>

definition parse_digits :: "string \<Rightarrow> int option" where
  "parse_digits s = (if s = [] then None else digits_val 0 s)"

definition bounded :: "int \<Rightarrow> int \<Rightarrow> int option \<Rightarrow> int option" where
  "bounded lo hi v = (case v of None \<Rightarrow> None | Some i \<Rightarrow> if lo \<le> i \<and> i \<le> hi then Some i else None)"

definition parse_signed :: "int \<Rightarrow> int \<Rightarrow> string \<Rightarrow> int option" where
  "parse_signed lo hi s = bounded lo hi
     (case s of [] \<Rightarrow> None
      | c # cs \<Rightarrow> if c = CHR ''-'' then map_option uminus (parse_digits cs)
                 else if c = CHR ''+'' then parse_digits cs else parse_digits s)"

definition parse_unsigned :: "int \<Rightarrow> string \<Rightarrow> int option" where
  "parse_unsigned hi s = bounded 0 hi
     (case s of [] \<Rightarrow> None | c # cs \<Rightarrow> if c = CHR ''+'' then parse_digits cs else parse_digits s)"

definition parse_i64 :: "string \<Rightarrow> i64 option" where
  "parse_i64 s = map_option word_of_int (parse_signed (- (2 ^ 63)) (2 ^ 63 - 1) s)"

definition parse_usize :: "target \<Rightarrow> string \<Rightarrow> nat option" where
  "parse_usize t s = map_option nat (parse_unsigned (int (usize_max t)) s)"

end
