(* ===== verification/Floats.thy ===== *)
theory Floats
  imports Utf8
begin

text \<open>
  IEEE 754 binary floating point, as far as the source uses it: a finite value is a sign, a
  mantissa and an exponent, every operation computes the exact rational result and rounds
  it to nearest, ties to even. The payload and the sign of a NaN are not represented. The
  conversions are those of Rust: \<open>as f64\<close> and \<open>as f32\<close> from integers, the saturating
  \<open>as i64\<close>, \<open>str::parse::<f64>\<close> (correctly rounded) and \<open>Display\<close> (the shortest decimal
  that parses back, in positional notation).
\<close>

section \<open>Formats and values\<close>

record ffmt =
  prec :: nat  \<comment> \<open>bits of the mantissa, the hidden one included\<close>
  emin :: int  \<comment> \<open>exponent of the last bit of a subnormal\<close>
  emax :: int  \<comment> \<open>exponent of the last bit of the largest finite value\<close>

definition binary64 :: ffmt where
  "binary64 = \<lparr>prec = 53, emin = -1074, emax = 971\<rparr>"

definition binary32 :: ffmt where
  "binary32 = \<lparr>prec = 24, emin = -149, emax = 104\<rparr>"

lemma binary64_sel [simp]: "prec binary64 = 53" "emin binary64 = -1074" "emax binary64 = 971"
  by (simp_all add: binary64_def)

lemma binary32_sel [simp]: "prec binary32 = 24" "emin binary32 = -149" "emax binary32 = 104"
  by (simp_all add: binary32_def)

text \<open>\<open>FFin s m e\<close> stands for \<open>(-1)^s * m * 2^e\<close>, with \<open>s\<close> true for a negative sign.\<close>

datatype fl = FNaN | FInf bool | FFin bool int int

definition canonical :: "ffmt \<Rightarrow> fl \<Rightarrow> bool" where
  "canonical f x = (case x of FNaN \<Rightarrow> True | FInf s \<Rightarrow> True
     | FFin s m e \<Rightarrow> 0 \<le> m \<and> m < 2 ^ prec f \<and> emin f \<le> e \<and> e \<le> emax f
                     \<and> (m < 2 ^ (prec f - 1) \<longrightarrow> e = emin f))"

section \<open>Rounding\<close>

fun bits :: "int \<Rightarrow> int" where
  "bits n = (if n \<le> 0 then 0 else 1 + bits (n div 2))"

declare bits.simps [simp del]

definition pow2 :: "int \<Rightarrow> int" where
  "pow2 e = 2 ^ nat e"

text \<open>Round half to even: \<open>num / den\<close> to an integer, for \<open>0 \<le> num\<close> and \<open>0 < den\<close>.\<close>

definition div_even :: "int \<Rightarrow> int \<Rightarrow> int" where
  "div_even num den =
     (let q = num div den; r = num mod den in
      if 2 * r > den \<or> (2 * r = den \<and> odd q) then q + 1 else q)"

text \<open>
  The value of \<open>num / den\<close> in the format: \<open>e\<close> is the exponent at which the quotient has
  \<open>prec\<close> bits (or \<open>emin\<close> for a subnormal result).
\<close>

definition quo_exp :: "ffmt \<Rightarrow> int \<Rightarrow> int \<Rightarrow> int" where
  "quo_exp f num den =
     (let e0 = bits num - bits den - int (prec f);
          e1 = (if num * pow2 (- e0) \<ge> den * pow2 e0 * pow2 (int (prec f)) then e0 + 1 else e0)
      in max (emin f) e1)"

definition rnd :: "ffmt \<Rightarrow> bool \<Rightarrow> int \<Rightarrow> int \<Rightarrow> fl" where
  "rnd f s num den =
     (if num = 0 then FFin s 0 (emin f)
      else let e = quo_exp f num den;
               q = div_even (num * pow2 (- e)) (den * pow2 e);
               (m, e') = (if q = pow2 (int (prec f)) then (pow2 (int (prec f) - 1), e + 1) else (q, e))
           in if e' > emax f then FInf s else FFin s m e')"

section \<open>Arithmetic\<close>

fun fneg :: "fl \<Rightarrow> fl" where
  "fneg FNaN = FNaN"
| "fneg (FInf s) = FInf (\<not> s)"
| "fneg (FFin s m e) = FFin (\<not> s) m e"

definition signed :: "bool \<Rightarrow> int \<Rightarrow> int" where
  "signed s m = (if s then - m else m)"

text \<open>\<open>dyadic v e\<close> rounds the exact value \<open>v * 2^e\<close>; an exact zero takes the sign \<open>z\<close>.\<close>

definition dyadic :: "ffmt \<Rightarrow> bool \<Rightarrow> int \<Rightarrow> int \<Rightarrow> fl" where
  "dyadic f z v e = (if v = 0 then FFin z 0 (emin f) else rnd f (v < 0) (\<bar>v\<bar> * pow2 e) (pow2 (- e)))"

fun fadd :: "ffmt \<Rightarrow> fl \<Rightarrow> fl \<Rightarrow> fl" where
  "fadd f FNaN y = FNaN"
| "fadd f x FNaN = FNaN"
| "fadd f (FInf s) (FInf s') = (if s = s' then FInf s else FNaN)"
| "fadd f (FInf s) y = FInf s"
| "fadd f x (FInf s) = FInf s"
| "fadd f (FFin s m e) (FFin s' m' e') =
     (let d = min e e' in
      dyadic f (s \<and> s') (signed s m * pow2 (e - d) + signed s' m' * pow2 (e' - d)) d)"

definition fsub :: "ffmt \<Rightarrow> fl \<Rightarrow> fl \<Rightarrow> fl" where
  "fsub f x y = fadd f x (fneg y)"

fun fmul :: "ffmt \<Rightarrow> fl \<Rightarrow> fl \<Rightarrow> fl" where
  "fmul f FNaN y = FNaN"
| "fmul f x FNaN = FNaN"
| "fmul f (FInf s) (FInf s') = FInf (s \<noteq> s')"
| "fmul f (FInf s) (FFin s' m' e') = (if m' = 0 then FNaN else FInf (s \<noteq> s'))"
| "fmul f (FFin s m e) (FInf s') = (if m = 0 then FNaN else FInf (s \<noteq> s'))"
| "fmul f (FFin s m e) (FFin s' m' e') =
     rnd f (s \<noteq> s') (m * m' * pow2 (e + e')) (pow2 (- (e + e')))"

fun fdiv :: "ffmt \<Rightarrow> fl \<Rightarrow> fl \<Rightarrow> fl" where
  "fdiv f FNaN y = FNaN"
| "fdiv f x FNaN = FNaN"
| "fdiv f (FInf s) (FInf s') = FNaN"
| "fdiv f (FInf s) (FFin s' m' e') = FInf (s \<noteq> s')"
| "fdiv f (FFin s m e) (FInf s') = FFin (s \<noteq> s') 0 (emin f)"
| "fdiv f (FFin s m e) (FFin s' m' e') =
     (if m' = 0 then (if m = 0 then FNaN else FInf (s \<noteq> s'))
      else rnd f (s \<noteq> s') (m * pow2 (e - e')) (m' * pow2 (e' - e)))"

text \<open>\<open>%\<close> is \<open>fmod\<close>: exact, with the sign of the dividend.\<close>

fun frem :: "ffmt \<Rightarrow> fl \<Rightarrow> fl \<Rightarrow> fl" where
  "frem f FNaN y = FNaN"
| "frem f x FNaN = FNaN"
| "frem f (FInf s) y = FNaN"
| "frem f (FFin s m e) (FInf s') = FFin s m e"
| "frem f (FFin s m e) (FFin s' m' e') =
     (if m' = 0 then FNaN
      else let d = min e e' in
        dyadic f s (signed s ((m * pow2 (e - d)) mod (m' * pow2 (e' - d)))) d)"

section \<open>Comparison\<close>

text \<open>Every comparison with a NaN is false, but for \<open>!=\<close>; the two zeros are equal.\<close>

fun feq :: "fl \<Rightarrow> fl \<Rightarrow> bool" where
  "feq (FInf s) (FInf s') = (s = s')"
| "feq (FFin s m e) (FFin s' m' e') =
     (let d = min e e' in signed s m * pow2 (e - d) = signed s' m' * pow2 (e' - d))"
| "feq _ _ = False"

fun flt :: "fl \<Rightarrow> fl \<Rightarrow> bool" where
  "flt FNaN y = False"
| "flt x FNaN = False"
| "flt (FInf s) (FInf s') = (s \<and> \<not> s')"
| "flt (FInf s) (FFin s' m' e') = s"
| "flt (FFin s m e) (FInf s') = (\<not> s')"
| "flt (FFin s m e) (FFin s' m' e') =
     (let d = min e e' in signed s m * pow2 (e - d) < signed s' m' * pow2 (e' - d))"

definition fle :: "fl \<Rightarrow> fl \<Rightarrow> bool" where
  "fle x y \<longleftrightarrow> flt x y \<or> feq x y"

definition fzero :: "ffmt \<Rightarrow> fl" where
  "fzero f = FFin False 0 (emin f)"

section \<open>Conversions\<close>

definition f_of_int :: "ffmt \<Rightarrow> int \<Rightarrow> fl" where
  "f_of_int f n = rnd f (n < 0) \<bar>n\<bar> 1"

text \<open>\<open>as i64\<close>: truncation, saturating, with 0 for a NaN.\<close>

definition saturate :: "int \<Rightarrow> int \<Rightarrow> int \<Rightarrow> int" where
  "saturate lo hi i = (if i < lo then lo else if hi < i then hi else i)"

fun f_trunc :: "int \<Rightarrow> int \<Rightarrow> fl \<Rightarrow> int" where
  "f_trunc lo hi FNaN = 0"
| "f_trunc lo hi (FInf s) = (if s then lo else hi)"
| "f_trunc lo hi (FFin s m e) = saturate lo hi (signed s ((m * pow2 e) div pow2 (- e)))"

definition f64_to_i64 :: "fl \<Rightarrow> i64" where
  "f64_to_i64 x = word_of_int (f_trunc (- (2 ^ 63)) (2 ^ 63 - 1) x)"

definition f64_of_i64 :: "i64 \<Rightarrow> fl" where
  "f64_of_i64 n = f_of_int binary64 (sint n)"

subsection \<open>Parsing\<close>

text \<open>
  \<open>f64::from_str\<close>: an optional sign, then \<open>inf\<close>, \<open>infinity\<close> or \<open>nan\<close> in any case, or
  digits with an optional point (at least one digit in all) and an optional exponent.
\<close>

fun take_digits :: "string \<Rightarrow> string \<times> string" where
  "take_digits [] = ([], [])"
| "take_digits (c # cs) = (if is_digit c then (let (d, r) = take_digits cs in (c # d, r)) else ([], c # cs))"

definition parse_exp :: "string \<Rightarrow> int option" where
  "parse_exp s = (case s of
       [] \<Rightarrow> Some 0
     | c # cs \<Rightarrow>
         if c = CHR ''e'' \<or> c = CHR ''E'' then
           (case cs of [] \<Rightarrow> None
            | d # ds \<Rightarrow> if d = CHR ''-'' then map_option uminus (parse_digits ds)
                       else if d = CHR ''+'' then parse_digits ds else parse_digits cs)
         else None)"

definition of_decimal :: "ffmt \<Rightarrow> bool \<Rightarrow> int \<Rightarrow> int \<Rightarrow> fl" where
  "of_decimal f s d x = rnd f s (d * 10 ^ nat x) (10 ^ nat (- x))"

definition parse_number :: "ffmt \<Rightarrow> bool \<Rightarrow> string \<Rightarrow> fl option" where
  "parse_number f s u =
     (let (ip, r) = take_digits u;
          (fp, r') = (case r of c # cs \<Rightarrow> if c = CHR ''.'' then take_digits cs else ([], r) | [] \<Rightarrow> ([], []))
      in if ip = [] \<and> fp = [] then None
         else (case (digits_val 0 (ip @ fp), parse_exp r') of
                 (Some d, Some x) \<Rightarrow> Some (of_decimal f s d (x - int (length fp)))
               | _ \<Rightarrow> None))"

definition parse_unsigned_float :: "ffmt \<Rightarrow> bool \<Rightarrow> string \<Rightarrow> fl option" where
  "parse_unsigned_float f s u =
     (let l = to_ascii_lowercase u in
      if l = ''inf'' \<or> l = ''infinity'' then Some (FInf s)
      else if l = ''nan'' then Some FNaN else parse_number f s u)"

definition parse_float :: "ffmt \<Rightarrow> string \<Rightarrow> fl option" where
  "parse_float f u = (case u of
       [] \<Rightarrow> None
     | c # cs \<Rightarrow> if c = CHR ''-'' then parse_unsigned_float f True cs
                else if c = CHR ''+'' then parse_unsigned_float f False cs
                else parse_unsigned_float f False u)"

definition parse_f64 :: "string \<Rightarrow> fl option" where
  "parse_f64 = parse_float binary64"

subsection \<open>Display\<close>

text \<open>\<open>dec_exp num den\<close> is the \<open>E\<close> with \<open>10^(E-1) \<le> num/den < 10^E\<close>, for a positive value.\<close>

function neg_exp :: "int \<Rightarrow> int \<Rightarrow> int" where
  "neg_exp num den = (if 0 < num \<and> num * 10 < den then neg_exp (num * 10) den - 1 else 0)"
  by pat_completeness auto
termination
  by (relation "measure (\<lambda>(num, den). nat (den - num))") auto

declare neg_exp.simps [simp del]

definition dec_exp :: "int \<Rightarrow> int \<Rightarrow> int" where
  "dec_exp num den = (if den \<le> num then int (length (show_int (num div den))) else neg_exp num den)"

function strip_zeros :: "int \<Rightarrow> int \<Rightarrow> int \<times> int" where
  "strip_zeros d x = (if 0 < d \<and> d mod 10 = 0 then strip_zeros (d div 10) (x + 1) else (d, x))"
  by pat_completeness auto
termination
  by (relation "measure (\<lambda>(d, x). nat d)") auto

declare strip_zeros.simps [simp del]

text \<open>
  With \<open>n\<close> digits the two decimals around the value are \<open>q * 10^x\<close> and \<open>(q + 1) * 10^x\<close>.
  The shortest representation is the first \<open>n\<close> at which one of them parses back; of two
  that do, the closer one (the upper on a tie).
\<close>

definition pick_digit :: "ffmt \<Rightarrow> fl \<Rightarrow> int \<Rightarrow> int \<Rightarrow> int \<Rightarrow> int option" where
  "pick_digit f v num den x =
     (let a = num * 10 ^ nat (- x); b = den * 10 ^ nat x; q = a div b; r = a mod b;
          down = (of_decimal f False q x = v); up = (of_decimal f False (q + 1) x = v)
      in if up \<and> (\<not> down \<or> 2 * r \<ge> b) then Some (q + 1) else if down then Some q else None)"

fun shortest :: "ffmt \<Rightarrow> fl \<Rightarrow> int \<Rightarrow> int \<Rightarrow> int \<Rightarrow> nat \<Rightarrow> int \<times> int" where
  "shortest f v num den x 0 = ((num * 10 ^ nat (- x)) div (den * 10 ^ nat x), x)"
| "shortest f v num den x (Suc k) =
     (case pick_digit f v num den x of
        Some d \<Rightarrow> strip_zeros d x
      | None \<Rightarrow> shortest f v num den (x - 1) k)"

definition render_decimal :: "int \<Rightarrow> int \<Rightarrow> string" where
  "render_decimal d x =
     (let ds = show_int d; n = int (length ds) in
      if 0 \<le> x then ds @ replicate (nat x) CHR ''0''
      else if 0 < n + x then take (nat (n + x)) ds @ ''.'' @ drop (nat (n + x)) ds
      else ''0.'' @ replicate (nat (- (n + x))) CHR ''0'' @ ds)"

definition show_float :: "ffmt \<Rightarrow> fl \<Rightarrow> string" where
  "show_float f v = (case v of
       FNaN \<Rightarrow> ''NaN''
     | FInf s \<Rightarrow> (if s then ''-inf'' else ''inf'')
     | FFin s m e \<Rightarrow> (if s then ''-'' else []) @
         (if m = 0 then ''0''
          else let num = m * pow2 e; den = pow2 (- e);
                   (d, x) = shortest f (FFin False m e) num den (dec_exp num den - 1) 17
               in render_decimal d x))"

definition show_f64 :: "fl \<Rightarrow> string" where
  "show_f64 = show_float binary64"

end
