(* ===== verification/Ir.thy ===== *)
theory Ir
  imports Floats
begin

text \<open>
  The data model of \<open>pyspell-core\<close>: errors (\<open>error.rs\<close>), runtime values (\<open>value.rs\<close>), the
  IR a program compiles to (\<open>ir.rs\<close>) and the host environment (\<open>env.rs\<close>).
\<close>

section \<open>Errors\<close>

datatype dsl_error =
    ParseErr string
  | ForbiddenErr string
  | UnknownNameErr string
  | ArityErr string nat
  | TypeErr string
  | BudgetErr
  | MemoryLimitErr
  | TimeoutErr
  | WireErr string
  | NetErr string
  | DisplayErr string

fun show_error :: "dsl_error \<Rightarrow> string" where
  "show_error (ParseErr m) = ''parse error: '' @ m"
| "show_error (ForbiddenErr m) = ''not allowed: '' @ m"
| "show_error (UnknownNameErr n) = ''unknown name `'' @ n @ ''`''"
| "show_error (ArityErr b got) = ''builtin `'' @ b @ ''` called with '' @ show_nat got @ '' argument(s)''"
| "show_error (TypeErr m) = ''type error: '' @ m"
| "show_error BudgetErr = ''program exceeded its evaluation step budget''"
| "show_error MemoryLimitErr = ''program exceeded its memory budget''"
| "show_error TimeoutErr = ''program exceeded its time limit''"
| "show_error (WireErr m) = ''wire error: '' @ m"
| "show_error (NetErr m) = ''network error: '' @ m"
| "show_error (DisplayErr m) = ''display error: '' @ m"

type_synonym 'a res = "('a, dsl_error) outcome"

section \<open>Values\<close>

datatype val =
    VInt i64
  | VFloat fl
  | VBool bool
  | VStr string
  | VList "val list"

text \<open>\<open>PartialEq for Value\<close>: equal constructors only, and IEEE equality on floats.\<close>

fun value_eq :: "val \<Rightarrow> val \<Rightarrow> bool"
  and values_eq :: "val list \<Rightarrow> val list \<Rightarrow> bool" where
  "value_eq (VInt a) (VInt b) = (a = b)"
| "value_eq (VFloat a) (VFloat b) = feq a b"
| "value_eq (VBool a) (VBool b) = (a = b)"
| "value_eq (VStr a) (VStr b) = (a = b)"
| "value_eq (VList a) (VList b) = values_eq a b"
| "value_eq _ _ = False"
| "values_eq [] [] = True"
| "values_eq (x # xs) (y # ys) = (value_eq x y \<and> values_eq xs ys)"
| "values_eq _ _ = False"

section \<open>The IR\<close>

datatype bin_op = AddOp | SubOp | MulOp | DivOp | RemOp

datatype cmp_op = CEq | CNe | CLt | CLe | CGt | CGe

datatype bool_op = AndOp | OrOp

datatype un_op = NegOp | NotOp

datatype builtin =
    BLen | BAbs | BMin | BMax | BSum | BAny | BAll | BRound | BInt | BFloat | BBool
  | BContains | BIndexOf | BBefore | BFirst | BLast | BStr | BJsonGet | BFetch | BFetchJson
  | BShow | BPrint | BLed | BFlash | BUpper | BLower | BReverse

datatype expr =
    EConst val
  | EVar string
  | ELocal u16
  | EBin bin_op expr expr
  | ECmp cmp_op expr expr
  | EBool bool_op expr expr
  | EUnary un_op expr
  | EIndex expr expr
  | EIf expr expr expr
  | ECall builtin "expr list"
  | EList "expr list"

record let_binding =
  slot :: u16
  bound :: expr

record program =
  body :: "let_binding list"
  ret :: expr
  n_locals :: u16
  max_steps :: u32

definition DEFAULT_MAX_STEPS :: u32 where
  "DEFAULT_MAX_STEPS = 4096"

text \<open>
  Verified IR: every local a program reads or binds has a slot below \<open>n_locals\<close>. Nothing in
  the wire format enforces it.
\<close>

fun locals_below :: "nat \<Rightarrow> expr \<Rightarrow> bool" where
  "locals_below n (EConst v) = True"
| "locals_below n (EVar x) = True"
| "locals_below n (ELocal i) = (unat i < n)"
| "locals_below n (EBin op a b) = (locals_below n a \<and> locals_below n b)"
| "locals_below n (ECmp op a b) = (locals_below n a \<and> locals_below n b)"
| "locals_below n (EBool op a b) = (locals_below n a \<and> locals_below n b)"
| "locals_below n (EUnary op a) = locals_below n a"
| "locals_below n (EIndex a b) = (locals_below n a \<and> locals_below n b)"
| "locals_below n (EIf a b c) = (locals_below n a \<and> locals_below n b \<and> locals_below n c)"
| "locals_below n (ECall f as) = list_all (locals_below n) as"
| "locals_below n (EList as) = list_all (locals_below n) as"

definition wf_program :: "program \<Rightarrow> bool" where
  "wf_program p \<longleftrightarrow>
     list_all (\<lambda>b. unat (slot b) < unat (n_locals p) \<and> locals_below (unat (n_locals p)) (bound b)) (body p)
     \<and> locals_below (unat (n_locals p)) (ret p)"

lemma locals_below_mono: "locals_below n e \<Longrightarrow> n \<le> m \<Longrightarrow> locals_below m e"
  by (induction n e rule: locals_below.induct) (auto simp: list_all_iff)

text \<open>The number of IR nodes of an expression, which bounds the steps it takes.\<close>

fun nodes :: "expr \<Rightarrow> nat" where
  "nodes (EConst v) = 1"
| "nodes (EVar x) = 1"
| "nodes (ELocal i) = 1"
| "nodes (EBin op a b) = Suc (nodes a + nodes b)"
| "nodes (ECmp op a b) = Suc (nodes a + nodes b)"
| "nodes (EBool op a b) = Suc (nodes a + nodes b)"
| "nodes (EUnary op a) = Suc (nodes a)"
| "nodes (EIndex a b) = Suc (nodes a + nodes b)"
| "nodes (EIf a b c) = Suc (nodes a + nodes b + nodes c)"
| "nodes (ECall f as) = Suc (sum_list (map nodes as))"
| "nodes (EList as) = Suc (sum_list (map nodes as))"

section \<open>Errors a value operation can give\<close>

text \<open>
  A value operation never reports an exhausted budget, and panics at most where \<open>c\<close> says
  so.
\<close>

definition limit_error :: "dsl_error \<Rightarrow> bool" where
  "limit_error e \<longleftrightarrow> e = BudgetErr \<or> e = MemoryLimitErr \<or> e = TimeoutErr"

definition mild :: "bool \<Rightarrow> 'a res \<Rightarrow> bool" where
  "mild c r \<longleftrightarrow> (case r of Ok v \<Rightarrow> True | Err e \<Rightarrow> \<not> limit_error e | Panic \<Rightarrow> c)"

named_theorems mild_intros \<open>value operations give ordinary errors\<close>

lemma mild_simps [simp]:
  "mild c (Ok v)" "mild c Panic = c"
  "mild c (Err e) = (\<not> limit_error e)"
  by (simp_all add: mild_def limit_error_def)

lemma mild_bind [mild_intros]: "mild c r \<Longrightarrow> (\<And>v. r = Ok v \<Longrightarrow> mild c (k v)) \<Longrightarrow> mild c (bindR r k)"
  by (cases r) (simp_all add: mild_def)

lemma mild_mono: "mild c r \<Longrightarrow> (c \<Longrightarrow> d) \<Longrightarrow> mild d r"
  by (simp add: mild_def split: outcome.splits)

lemma mild_ok_or [simp]: "\<not> limit_error e \<Longrightarrow> mild c (ok_or x e)"
  by (cases x) (simp_all add: mild_def)

lemma limit_error_simps [simp]:
  "\<not> limit_error (TypeErr m)" "\<not> limit_error (NetErr m)" "\<not> limit_error (UnknownNameErr m)"
  "\<not> limit_error (ArityErr b n)" "\<not> limit_error (DisplayErr m)"
  "\<not> limit_error (ParseErr m)" "\<not> limit_error (ForbiddenErr m)" "\<not> limit_error (WireErr m)"
  "limit_error BudgetErr" "limit_error MemoryLimitErr" "limit_error TimeoutErr"
  by (simp_all add: limit_error_def)

lemma mild_not_Panic: "mild False r \<Longrightarrow> r \<noteq> Panic"
  by auto

section \<open>Environments\<close>

text \<open>
  \<open>VecEnv\<close> is a vector of named values; \<open>set\<close> (builder style) and \<open>insert\<close> (in place)
  overwrite the first entry with the name, or push a new one. \<open>EmptyEnv\<close> knows no name.
\<close>

record vec_env =
  vars :: "(string \<times> val) list"

definition vec_env_new :: vec_env where
  "vec_env_new = \<lparr>vars = []\<rparr>"

fun upsert :: "string \<Rightarrow> val \<Rightarrow> (string \<times> val) list \<Rightarrow> (string \<times> val) list" where
  "upsert n v [] = [(n, v)]"
| "upsert n v ((m, w) # xs) = (if m = n then (m, v) # xs else (m, w) # upsert n v xs)"

definition vec_env_set :: "vec_env \<Rightarrow> string \<Rightarrow> val \<Rightarrow> vec_env" where
  "vec_env_set e n v = e\<lparr>vars := upsert n v (vars e)\<rparr>"

definition vec_env_insert :: "vec_env \<Rightarrow> string \<Rightarrow> val \<Rightarrow> vec_env" where
  "vec_env_insert e n v = e\<lparr>vars := upsert n v (vars e)\<rparr>"

definition vec_env_get :: "vec_env \<Rightarrow> string \<Rightarrow> val option" where
  "vec_env_get e n = map_option snd (find (\<lambda>(m, w). m = n) (vars e))"

definition empty_env_get :: "string \<Rightarrow> val option" where
  "empty_env_get n = None"

text \<open>
  The interface a program's free variables are read through: a store of bindings in which
  the last value given to a name wins and other names keep theirs.
\<close>

locale binding_store =
  fixes empty :: "'m"
    and bind :: "'m \<Rightarrow> string \<Rightarrow> val \<Rightarrow> 'm"
    and get :: "'m \<Rightarrow> string \<Rightarrow> val option"
  assumes get_empty: "get empty n = None"
    and get_bind: "get (bind m n v) k = (if k = n then Some v else get m k)"
begin

lemma get_bind_same [simp]: "get (bind m n v) n = Some v"
  by (simp add: get_bind)

lemma get_rebind: "get (bind (bind m n v) n w) k = get (bind m n w) k"
  by (simp add: get_bind)

lemma get_bind_all:
  "get (foldl (\<lambda>m (n, v). bind m n v) m xs) k =
     (case map_of (rev xs) k of None \<Rightarrow> get m k | Some v \<Rightarrow> Some v)"
  by (induction xs arbitrary: m) (auto simp: get_bind map_add_def split: option.splits)

end

lemma find_upsert:
  "map_option snd (find (\<lambda>(m, w). m = k) (upsert n v xs)) =
     (if k = n then Some v else map_option snd (find (\<lambda>(m, w). m = k) xs))"
  by (induction n v xs rule: upsert.induct) auto

interpretation vec_store: binding_store vec_env_new vec_env_set vec_env_get
  by unfold_locales (auto simp: vec_env_get_def vec_env_set_def vec_env_new_def find_upsert)

interpretation vec_store_mut: binding_store vec_env_new vec_env_insert vec_env_get
  by unfold_locales (auto simp: vec_env_get_def vec_env_insert_def vec_env_new_def find_upsert)

end
