(* ===== verification/Lexer.thy ===== *)
theory Lexer
  imports Ir
begin

text \<open>
  The lexer of \<open>parse.rs\<close>: \<open>lex\<close> with its scanning loops, one per kind of token, by byte
  position as in the source. Slicing the source off a character boundary panics.
\<close>

section \<open>Tokens\<close>

datatype tok =
    TInt i64
  | TFloat fl
  | TBool bool
  | TStr string
  | TIdent string
  | KLet | KIf | KElse | KIn | KAnd | KOr | KNot
  | TPlus | TMinus | TStar | TSlash | TPercent
  | TEqEq | TNe | TLt | TLe | TGt | TGe | TAndAnd | TOrOr | TBang
  | TLParen | TRParen | TLBracket | TRBracket | TLBrace | TRBrace
  | TComma | TDot | TAssign | TSemi

section \<open>String literals\<close>

text \<open>\<open>unescape\<close> works on the characters of the literal.\<close>

definition escape_value :: "string \<Rightarrow> string" where
  "escape_value c = (if c = ''n'' then [char_of (10::nat)] else if c = ''t'' then [char_of (9::nat)]
     else if c = ''r'' then [char_of (13::nat)] else c)"

fun unescape_chars :: "string list \<Rightarrow> string" where
  "unescape_chars [] = []"
| "unescape_chars [c] = (if c = [CHR 0x5C] then [] else c)"
| "unescape_chars (c # d # cs) =
     (if c = [CHR 0x5C] then escape_value d @ unescape_chars cs else c @ unescape_chars (d # cs))"

definition unescape :: "string \<Rightarrow> string" where
  "unescape raw = unescape_chars (utf8_chars raw)"

function str_end :: "string \<Rightarrow> char \<Rightarrow> nat \<Rightarrow> nat" where
  "str_end b quote j =
     (if j < length b then
        (if b ! j = CHR 0x5C then str_end b quote (j + 2)
         else if b ! j = quote then j else str_end b quote (j + 1))
      else j)"
  by pat_completeness auto
termination
  by (relation "measure (\<lambda>(b, q, j). length b - j)") auto

declare str_end.simps [simp del]

section \<open>Numbers and words\<close>

function num_scan :: "string \<Rightarrow> nat \<Rightarrow> bool \<Rightarrow> (nat \<times> bool) res" where
  "num_scan b i is_float =
     (if i < length b \<and> (is_digit (b ! i) \<or> b ! i = CHR ''.'') then
        (if b ! i = CHR ''.'' then
           (if is_float then Err (ParseErr ''malformed number'') else num_scan b (i + 1) True)
         else num_scan b (i + 1) is_float)
      else Ok (i, is_float))"
  by pat_completeness auto
termination
  by (relation "measure (\<lambda>(b, i, f). length b - i)") auto

definition is_word_char :: "char \<Rightarrow> bool" where
  "is_word_char c \<longleftrightarrow> is_alpha c \<or> is_digit c \<or> c = CHR ''_''"

function word_end :: "string \<Rightarrow> nat \<Rightarrow> nat" where
  "word_end b i = (if i < length b \<and> is_word_char (b ! i) then word_end b (i + 1) else i)"
  by pat_completeness auto
termination
  by (relation "measure (\<lambda>(b, i). length b - i)") auto

declare num_scan.simps [simp del] word_end.simps [simp del]

definition word_tok :: "string \<Rightarrow> tok" where
  "word_tok w =
     (if w = ''let'' then KLet else if w = ''if'' then KIf else if w = ''else'' then KElse
      else if w = ''in'' then KIn else if w = ''and'' then KAnd else if w = ''or'' then KOr
      else if w = ''not'' then KNot
      else if w = ''true'' \<or> w = ''True'' then TBool True
      else if w = ''false'' \<or> w = ''False'' then TBool False
      else TIdent w)"

definition number_tok :: "bool \<Rightarrow> string \<Rightarrow> tok res" where
  "number_tok is_float text =
     (if is_float then ok_or (map_option TFloat (parse_f64 text)) (ParseErr ''bad float'')
      else ok_or (map_option TInt (parse_i64 text)) (ParseErr ''bad integer''))"

section \<open>Operators\<close>

definition two_tok :: "string \<Rightarrow> tok option" where
  "two_tok two =
     (if two = ''=='' then Some TEqEq else if two = ''!='' then Some TNe
      else if two = ''<='' then Some TLe else if two = ''>='' then Some TGe
      else if two = ''&&'' then Some TAndAnd else if two = ''||'' then Some TOrOr
      else if two = ''//'' then Some TSlash else None)"

definition one_tok :: "char \<Rightarrow> tok option" where
  "one_tok c =
     (if c = CHR ''+'' then Some TPlus else if c = CHR ''-'' then Some TMinus
      else if c = CHR ''*'' then Some TStar else if c = CHR ''/'' then Some TSlash
      else if c = CHR ''%'' then Some TPercent else if c = CHR ''<'' then Some TLt
      else if c = CHR ''>'' then Some TGt else if c = CHR ''!'' then Some TBang
      else if c = CHR ''('' then Some TLParen else if c = CHR '')'' then Some TRParen
      else if c = CHR ''['' then Some TLBracket else if c = CHR '']'' then Some TRBracket
      else if c = CHR ''{'' then Some TLBrace else if c = CHR ''}'' then Some TRBrace
      else if c = CHR '','' then Some TComma else if c = CHR ''.'' then Some TDot
      else if c = CHR ''='' then Some TAssign else if c = CHR '';'' then Some TSemi
      else None)"

section \<open>The lexer\<close>

definition lex_number :: "string \<Rightarrow> nat \<Rightarrow> (tok \<times> nat) res" where
  "lex_number b i = bindR (num_scan b i False) (\<lambda>(j, is_float).
     bindR (str_slice b i j) (\<lambda>text. bindR (number_tok is_float text) (\<lambda>t. Ok (t, j))))"

definition lex_word :: "string \<Rightarrow> nat \<Rightarrow> (tok \<times> nat) res" where
  "lex_word b i = (let j = word_end b i in bindR (str_slice b i j) (\<lambda>word. Ok (word_tok word, j)))"

definition lex_string :: "string \<Rightarrow> nat \<Rightarrow> (tok \<times> nat) res" where
  "lex_string b i = (let j = str_end b (b ! i) (i + 1) in
     if length b \<le> j then Err (ParseErr ''unterminated string'')
     else bindR (str_slice b (i + 1) j) (\<lambda>raw. Ok (TStr (unescape raw), j + 1)))"

definition lex_operator :: "string \<Rightarrow> nat \<Rightarrow> (tok \<times> nat) res" where
  "lex_operator b i = bindR (if i + 1 < length b then str_slice b i (i + 2) else Ok []) (\<lambda>two.
     case two_tok two of
       Some t \<Rightarrow> Ok (t, i + 2)
     | None \<Rightarrow> (case one_tok (b ! i) of
           Some t \<Rightarrow> Ok (t, i + 1)
         | None \<Rightarrow> Err (ParseErr (''unexpected character `'' @ encode_utf8 (byte (b ! i)) @ ''`''))))"

definition is_space :: "char \<Rightarrow> bool" where
  "is_space c \<longleftrightarrow> byte c = 32 \<or> byte c = 9 \<or> byte c = 13 \<or> byte c = 10"

text \<open>One token at a position that is not white space, and the position after it.\<close>

definition lex_tok :: "string \<Rightarrow> nat \<Rightarrow> (tok \<times> nat) res" where
  "lex_tok b i = (let c = b ! i in
     if is_digit c then lex_number b i
     else if is_alpha c \<or> c = CHR ''_'' then lex_word b i
     else if c = CHR 0x22 \<or> c = CHR 0x27 then lex_string b i
     else lex_operator b i)"

lemma num_scan_bounds: "num_scan b i f = Ok (j, g) \<Longrightarrow> i \<le> j"
proof (induction b i f rule: num_scan.induct)
  case (1 b i f)
  show ?case
  proof (cases "i < length b \<and> (is_digit (b ! i) \<or> b ! i = CHR ''.'')")
    case False
    with "1.prems" show ?thesis by (subst (asm) num_scan.simps) simp
  next
    case True
    with "1.prems" have "num_scan b (i + 1) True = Ok (j, g) \<and> b ! i = CHR ''.'' \<and> \<not> f
        \<or> num_scan b (i + 1) f = Ok (j, g) \<and> b ! i \<noteq> CHR ''.''"
      by (subst (asm) num_scan.simps) (simp split: if_splits)
    with True "1.IH" show ?thesis by fastforce
  qed
qed

lemma num_scan_gt: "num_scan b i f = Ok (j, g) \<Longrightarrow> i < length b \<Longrightarrow> is_digit (b ! i) \<Longrightarrow> i < j"
  by (subst (asm) num_scan.simps) (auto split: if_splits dest: num_scan_bounds)

lemma word_end_ge: "i \<le> word_end b i"
  by (induction b i rule: word_end.induct) (subst word_end.simps, auto)

lemma word_end_gt: "i < length b \<Longrightarrow> is_word_char (b ! i) \<Longrightarrow> i < word_end b i"
  using word_end_ge [of "i + 1" b] by (subst word_end.simps) auto

lemma str_end_ge: "j \<le> str_end b q j"
  by (induction b q j rule: str_end.induct) (subst str_end.simps, auto)

lemma lex_tok_progress: "lex_tok b i = Ok (t, j) \<Longrightarrow> i < length b \<Longrightarrow> i < j"
  using str_end_ge [of "i + 1" b "b ! i"]
  by (auto simp: lex_tok_def lex_number_def lex_word_def lex_string_def lex_operator_def Let_def
      bindR_eq_Ok is_word_char_def split: if_splits option.splits dest: num_scan_gt intro: word_end_gt)

function lex_loop :: "string \<Rightarrow> nat \<Rightarrow> tok list \<Rightarrow> tok list res" where
  "lex_loop b i out =
     (if i < length b then
        (if is_space (b ! i) then lex_loop b (i + 1) out
         else bindR (lex_tok b i) (\<lambda>(t, j). lex_loop b j (out @ [t])))
      else Ok out)"
  by pat_completeness auto
termination
  by (relation "measure (\<lambda>(b, i, out). length b - i)") (auto dest: lex_tok_progress)

declare lex_loop.simps [simp del]

definition lex :: "string \<Rightarrow> tok list res" where
  "lex src = lex_loop src 0 []"

section \<open>Facts on the lexer\<close>

lemma ascii_not_cont: "is_ascii c \<Longrightarrow> \<not> is_cont c"
  by (simp add: is_ascii_def is_cont_def)

lemma ascii_boundary: "list_all is_ascii b \<Longrightarrow> i \<le> length b \<Longrightarrow> is_char_boundary b i"
  by (auto simp: is_char_boundary_def list_all_length ascii_not_cont le_less)

lemma mild_str_slice: "list_all is_ascii b \<Longrightarrow> i \<le> j \<Longrightarrow> j \<le> length b \<Longrightarrow> mild c (str_slice b i j)"
  by (simp add: str_slice_def ascii_boundary)

lemma num_scan_le: "num_scan b i f = Ok (j, g) \<Longrightarrow> i \<le> length b \<Longrightarrow> j \<le> length b"
proof (induction b i f rule: num_scan.induct)
  case (1 b i f)
  show ?case
  proof (cases "i < length b \<and> (is_digit (b ! i) \<or> b ! i = CHR ''.'')")
    case False
    with "1.prems" show ?thesis by (subst (asm) num_scan.simps) simp
  next
    case True
    with "1.prems" have "num_scan b (i + 1) True = Ok (j, g) \<and> b ! i = CHR ''.'' \<and> \<not> f
        \<or> num_scan b (i + 1) f = Ok (j, g) \<and> b ! i \<noteq> CHR ''.''"
      by (subst (asm) num_scan.simps) (simp split: if_splits)
    with True "1.IH" show ?thesis by fastforce
  qed
qed

lemma word_end_le: "i \<le> length b \<Longrightarrow> word_end b i \<le> length b"
  by (induction b i rule: word_end.induct) (subst word_end.simps, auto)

lemma mild_num_scan: "mild c (num_scan b i f)"
proof (induction b i f rule: num_scan.induct)
  case (1 b i f)
  then show ?case by (subst num_scan.simps) (cases "b ! i = CHR ''.''", auto)
qed

lemma mild_number_tok: "mild c (number_tok f text)"
  by (simp add: number_tok_def)

lemma mild_lex_number: "list_all is_ascii b \<Longrightarrow> i < length b \<Longrightarrow> mild c (lex_number b i)"
  using num_scan_bounds [of b i False] num_scan_le [of b i False]
  by (auto simp: lex_number_def mild_num_scan mild_number_tok intro!: mild_intros mild_str_slice)

lemma mild_lex_word: "list_all is_ascii b \<Longrightarrow> i < length b \<Longrightarrow> mild c (lex_word b i)"
  by (auto simp: lex_word_def Let_def word_end_ge word_end_le intro!: mild_intros mild_str_slice)

lemma mild_lex_string: "list_all is_ascii b \<Longrightarrow> i < length b \<Longrightarrow> mild c (lex_string b i)"
  using str_end_ge [of "i + 1" b "b ! i"]
  by (auto simp: lex_string_def Let_def intro!: mild_intros mild_str_slice)

lemma mild_lex_operator: "list_all is_ascii b \<Longrightarrow> i < length b \<Longrightarrow> mild c (lex_operator b i)"
  by (auto simp: lex_operator_def intro!: mild_intros mild_str_slice split: option.split)

lemma mild_lex_tok: "list_all is_ascii b \<Longrightarrow> i < length b \<Longrightarrow> mild c (lex_tok b i)"
  by (simp add: lex_tok_def Let_def mild_lex_number mild_lex_word mild_lex_string mild_lex_operator)

lemma mild_lex_loop: "list_all is_ascii b \<Longrightarrow> mild c (lex_loop b i out)"
proof (induction b i out rule: lex_loop.induct)
  case (1 b i out)
  then show ?case
    by (subst lex_loop.simps) (auto simp: mild_lex_tok intro!: mild_intros)
qed

lemma mild_lex: "list_all is_ascii src \<Longrightarrow> mild c (lex src)"
  by (simp add: lex_def mild_lex_loop)

text \<open>A source has no more tokens than bytes.\<close>

lemma lex_loop_length:
  "lex_loop b i out = Ok ts \<Longrightarrow> length ts \<le> length out + (length b - i)"
proof (induction b i out rule: lex_loop.induct)
  case (1 b i out)
  show ?case
  proof (cases "i < length b")
    case False
    with "1.prems" show ?thesis by (subst (asm) lex_loop.simps) simp
  next
    case inside: True
    show ?thesis
    proof (cases "is_space (b ! i)")
      case True
      with "1.prems" inside have "lex_loop b (i + 1) out = Ok ts" by (subst (asm) lex_loop.simps) simp
      with "1.IH"(1) [OF inside True] show ?thesis by simp
    next
      case False
      with "1.prems" inside obtain t j where t: "lex_tok b i = Ok (t, j)"
        and l: "lex_loop b j (out @ [t]) = Ok ts"
        by (subst (asm) lex_loop.simps) (auto simp: bindR_eq_Ok)
      from "1.IH"(2) [OF inside False t refl l] lex_tok_progress [OF t inside] inside
      show ?thesis by simp
    qed
  qed
qed

lemma lex_length: "lex src = Ok ts \<Longrightarrow> length ts \<le> length src"
  using lex_loop_length [of src 0 "[]" ts] by (simp add: lex_def)

end
