(* ===== verification/Parser.thy ===== *)
theory Parser
  imports Lexer
begin

text \<open>
  The recursive-descent parser of \<open>parse.rs\<close>. Every method of the source is a definition
  over a parameter \<open>call\<close>, which stands for its recursive calls and for the next round of its
  loop; \<open>run_nt\<close> ties the knot with fuel, one unit per call. Running out of fuel is an
  error value of its own.
\<close>

section \<open>The state\<close>

datatype lang = Python | Rust

record parser =
  p_toks :: "tok list"
  p_pos :: nat
  p_lang :: lang
  p_locals :: "(string \<times> u16) list"
  p_next_slot :: u16
  p_body :: "let_binding list"

datatype perr = Dsl dsl_error | OutOfFuel

type_synonym 'a pm = "(parser, 'a, perr) comp"

definition parse_fail :: "string \<Rightarrow> 'a pm" where
  "parse_fail m = failM (Dsl (ParseErr m))"

definition forbid :: "string \<Rightarrow> 'a pm" where
  "forbid m = failM (Dsl (ForbiddenErr m))"

definition tok_at :: "parser \<Rightarrow> nat \<Rightarrow> tok option" where
  "tok_at p i = (if i < length (p_toks p) then Some (p_toks p ! i) else None)"

definition peek :: "parser \<Rightarrow> tok option" where
  "peek p = tok_at p (p_pos p)"

text \<open>A step that looks at the next token.\<close>

definition peeking :: "(tok option \<Rightarrow> 'a pm) \<Rightarrow> 'a pm" where
  "peeking k p = k (peek p) p"

definition advance :: "tok option pm" where
  "advance p = (Ok (peek p), if peek p = None then p else p\<lparr>p_pos := p_pos p + 1\<rparr>)"

text \<open>\<open>Tok: PartialEq\<close>; the tokens the parser compares with carry no data.\<close>

definition eat :: "tok \<Rightarrow> bool pm" where
  "eat t p = (if peek p = Some t then (Ok True, p\<lparr>p_pos := p_pos p + 1\<rparr>) else (Ok False, p))"

definition expect :: "tok \<Rightarrow> string \<Rightarrow> unit pm" where
  "expect t what = bindM (eat t) (\<lambda>b. if b then returnM () else parse_fail (''expected '' @ what))"

definition in_lang :: "(lang \<Rightarrow> 'a pm) \<Rightarrow> 'a pm" where
  "in_lang k p = k (p_lang p) p"

definition declare_local :: "target \<Rightarrow> string \<Rightarrow> u16 pm" where
  "declare_local t name p =
     (let slot = p_next_slot p in
      if overflow_checks t \<and> slot = -1 then (Panic, p)
      else (Ok slot, p\<lparr>p_next_slot := slot + 1, p_locals := p_locals p @ [(name, slot)]\<rparr>))"

definition resolve :: "string \<Rightarrow> expr pm" where
  "resolve name p = (Ok (case find (\<lambda>(n, s). n = name) (rev (p_locals p)) of
     Some (n, s) \<Rightarrow> ELocal s | None \<Rightarrow> EVar name), p)"

definition push_binding :: "u16 \<Rightarrow> expr \<Rightarrow> unit pm" where
  "push_binding s e p = (Ok (), p\<lparr>p_body := p_body p @ [\<lparr>slot = s, bound = e\<rparr>]\<rparr>)"

section \<open>Names\<close>

definition builtin_table :: "(string \<times> builtin) list" where
  "builtin_table = [(''len'', BLen), (''abs'', BAbs), (''min'', BMin), (''max'', BMax), (''sum'', BSum),
     (''any'', BAny), (''all'', BAll), (''round'', BRound), (''int'', BInt), (''float'', BFloat),
     (''bool'', BBool), (''index'', BIndexOf), (''before'', BBefore), (''first'', BFirst),
     (''last'', BLast), (''str'', BStr), (''json_get'', BJsonGet), (''fetch'', BFetch),
     (''fetch_json'', BFetchJson), (''show'', BShow), (''print'', BPrint), (''led'', BLed),
     (''flash'', BFlash), (''upper'', BUpper), (''lower'', BLower), (''reverse'', BReverse)]"

definition builtin_from :: "string \<Rightarrow> builtin pm" where
  "builtin_from name = (case map_of builtin_table name of
     Some b \<Rightarrow> returnM b | None \<Rightarrow> forbid (''function `'' @ name @ ''()`''))"

text \<open>The derived \<open>Debug\<close> of the tokens no expression starts with; none of them has data.\<close>

definition debug_tok :: "tok \<Rightarrow> string" where
  "debug_tok t = (case t of
       KLet \<Rightarrow> ''Let'' | KIf \<Rightarrow> ''If'' | KElse \<Rightarrow> ''Else'' | KIn \<Rightarrow> ''In'' | KAnd \<Rightarrow> ''And'' | KOr \<Rightarrow> ''Or''
     | KNot \<Rightarrow> ''Not'' | TPlus \<Rightarrow> ''Plus'' | TMinus \<Rightarrow> ''Minus'' | TStar \<Rightarrow> ''Star'' | TSlash \<Rightarrow> ''Slash''
     | TPercent \<Rightarrow> ''Percent'' | TEqEq \<Rightarrow> ''EqEq'' | TNe \<Rightarrow> ''Ne'' | TLt \<Rightarrow> ''Lt'' | TLe \<Rightarrow> ''Le''
     | TGt \<Rightarrow> ''Gt'' | TGe \<Rightarrow> ''Ge'' | TAndAnd \<Rightarrow> ''AndAnd'' | TOrOr \<Rightarrow> ''OrOr'' | TBang \<Rightarrow> ''Bang''
     | TRParen \<Rightarrow> ''RParen'' | TRBracket \<Rightarrow> ''RBracket'' | TLBrace \<Rightarrow> ''LBrace'' | TRBrace \<Rightarrow> ''RBrace''
     | TComma \<Rightarrow> ''Comma'' | TDot \<Rightarrow> ''Dot'' | TAssign \<Rightarrow> ''Assign'' | TSemi \<Rightarrow> ''Semi''
     | TLParen \<Rightarrow> ''LParen'' | TLBracket \<Rightarrow> ''LBracket'' | TInt n \<Rightarrow> ''Int'' | TFloat x \<Rightarrow> ''Float''
     | TBool b \<Rightarrow> ''Bool'' | TStr s \<Rightarrow> ''Str'' | TIdent s \<Rightarrow> ''Ident'')"

section \<open>The grammar\<close>

datatype cmp_kind = CmpK cmp_op | InK | NotInK

text \<open>
  A call of a method, or the head of one of its loops with the values the loop carries.
  \<open>NItems\<close> and \<open>NArgs\<close> are the element loops of \<open>primary\<close>.
\<close>

datatype nt =
    NConditional
  | NOr | NOrLoop expr
  | NAnd | NAndLoop expr
  | NNot
  | NCmp | NCmpLoop "expr list" "cmp_kind list"
  | NAdd | NAddLoop expr
  | NMul | NMulLoop expr
  | NUnary
  | NPostfix | NPostfixLoop expr
  | NPrimary | NItems "expr list" | NArgs string "expr list"
  | NRustIf

type_synonym calls = "nt \<Rightarrow> expr pm"

definition conditional :: "calls \<Rightarrow> expr pm" where
  "conditional call = bindM (call NOr) (\<lambda>e. in_lang (\<lambda>l. peeking (\<lambda>t.
     if l = Python \<and> t = Some KIf then
       bindM advance (\<lambda>x. bindM (call NOr) (\<lambda>test.
       bindM (expect KElse ''`else` in conditional expression'') (\<lambda>u.
       bindM (call NConditional) (\<lambda>orelse. returnM (EIf test e orelse)))))
     else returnM e)))"

definition or_expr :: "calls \<Rightarrow> expr pm" where
  "or_expr call = bindM (call NAnd) (\<lambda>left. call (NOrLoop left))"

definition or_loop :: "calls \<Rightarrow> expr \<Rightarrow> expr pm" where
  "or_loop call left = peeking (\<lambda>t.
     if t = Some KOr \<or> t = Some TOrOr then
       bindM advance (\<lambda>x. bindM (call NAnd) (\<lambda>right. call (NOrLoop (EBool OrOp left right))))
     else returnM left)"

definition and_expr :: "calls \<Rightarrow> expr pm" where
  "and_expr call = bindM (call NNot) (\<lambda>left. call (NAndLoop left))"

definition and_loop :: "calls \<Rightarrow> expr \<Rightarrow> expr pm" where
  "and_loop call left = peeking (\<lambda>t.
     if t = Some KAnd \<or> t = Some TAndAnd then
       bindM advance (\<lambda>x. bindM (call NNot) (\<lambda>right. call (NAndLoop (EBool AndOp left right))))
     else returnM left)"

definition not_expr :: "calls \<Rightarrow> expr pm" where
  "not_expr call = peeking (\<lambda>t.
     if t = Some KNot \<or> t = Some TBang then
       bindM advance (\<lambda>x. bindM (call NNot) (\<lambda>e. returnM (EUnary NotOp e)))
     else call NCmp)"

text \<open>The comparison the next token starts; the \<open>not\<close> of \<open>not in\<close> is consumed.\<close>

definition cmp_kind_of :: "tok option \<Rightarrow> tok option \<Rightarrow> cmp_kind option" where
  "cmp_kind_of t t' = (case t of
       Some TEqEq \<Rightarrow> Some (CmpK CEq) | Some TNe \<Rightarrow> Some (CmpK CNe) | Some TLt \<Rightarrow> Some (CmpK CLt)
     | Some TLe \<Rightarrow> Some (CmpK CLe) | Some TGt \<Rightarrow> Some (CmpK CGt) | Some TGe \<Rightarrow> Some (CmpK CGe)
     | Some KIn \<Rightarrow> Some InK
     | Some KNot \<Rightarrow> (if t' = Some KIn then Some NotInK else None)
     | _ \<Rightarrow> None)"

definition next_cmp :: "cmp_kind option pm" where
  "next_cmp p = (case cmp_kind_of (peek p) (tok_at p (p_pos p + 1)) of
       Some NotInK \<Rightarrow> (Ok (Some NotInK), snd (advance p))
     | k \<Rightarrow> (Ok k, p))"

definition cmp_term :: "cmp_kind \<Rightarrow> expr \<Rightarrow> expr \<Rightarrow> expr" where
  "cmp_term k lhs rhs = (case k of
       CmpK op \<Rightarrow> ECmp op lhs rhs
     | InK \<Rightarrow> ECall BContains [rhs, lhs]
     | NotInK \<Rightarrow> EUnary NotOp (ECall BContains [rhs, lhs]))"

fun cmp_terms :: "expr list \<Rightarrow> cmp_kind list \<Rightarrow> expr list" where
  "cmp_terms (a # b # es) (k # ks) = cmp_term k a b # cmp_terms (b # es) ks"
| "cmp_terms _ _ = []"

text \<open>The conjunction of the comparisons of neighbouring operands.\<close>

definition chain :: "expr list \<Rightarrow> cmp_kind list \<Rightarrow> expr" where
  "chain operands ops = (case cmp_terms operands ops of
       [] \<Rightarrow> last operands
     | acc # terms \<Rightarrow> foldl (EBool AndOp) acc terms)"

definition cmp_expr :: "calls \<Rightarrow> expr pm" where
  "cmp_expr call = bindM (call NAdd) (\<lambda>first. call (NCmpLoop [first] []))"

definition cmp_loop :: "calls \<Rightarrow> expr list \<Rightarrow> cmp_kind list \<Rightarrow> expr pm" where
  "cmp_loop call operands ops = bindM next_cmp (\<lambda>kind. case kind of
       Some k \<Rightarrow> bindM advance (\<lambda>x. bindM (call NAdd) (\<lambda>e. call (NCmpLoop (operands @ [e]) (ops @ [k]))))
     | None \<Rightarrow> returnM (chain operands ops))"

definition add_expr :: "calls \<Rightarrow> expr pm" where
  "add_expr call = bindM (call NMul) (\<lambda>left. call (NAddLoop left))"

definition add_op :: "tok option \<Rightarrow> bin_op option" where
  "add_op t = (case t of Some TPlus \<Rightarrow> Some AddOp | Some TMinus \<Rightarrow> Some SubOp | _ \<Rightarrow> None)"

definition add_loop :: "calls \<Rightarrow> expr \<Rightarrow> expr pm" where
  "add_loop call left = peeking (\<lambda>t. case add_op t of
       Some op \<Rightarrow> bindM advance (\<lambda>x. bindM (call NMul) (\<lambda>right. call (NAddLoop (EBin op left right))))
     | None \<Rightarrow> returnM left)"

definition mul_expr :: "calls \<Rightarrow> expr pm" where
  "mul_expr call = bindM (call NUnary) (\<lambda>left. call (NMulLoop left))"

definition mul_op :: "tok option \<Rightarrow> bin_op option" where
  "mul_op t = (case t of Some TStar \<Rightarrow> Some MulOp | Some TSlash \<Rightarrow> Some DivOp | Some TPercent \<Rightarrow> Some RemOp
     | _ \<Rightarrow> None)"

definition mul_loop :: "calls \<Rightarrow> expr \<Rightarrow> expr pm" where
  "mul_loop call left = peeking (\<lambda>t. case mul_op t of
       Some op \<Rightarrow> bindM advance (\<lambda>x. bindM (call NUnary) (\<lambda>right. call (NMulLoop (EBin op left right))))
     | None \<Rightarrow> returnM left)"

definition unary_expr :: "calls \<Rightarrow> expr pm" where
  "unary_expr call = peeking (\<lambda>t.
     if t = Some TMinus then bindM advance (\<lambda>x. bindM (call NUnary) (\<lambda>e. returnM (EUnary NegOp e)))
     else call NPostfix)"

definition postfix_expr :: "calls \<Rightarrow> expr pm" where
  "postfix_expr call = bindM (call NPrimary) (\<lambda>e. call (NPostfixLoop e))"

definition method_name :: "tok option \<Rightarrow> string pm" where
  "method_name t = (case t of Some (TIdent n) \<Rightarrow> returnM n | _ \<Rightarrow> forbid ''method call'')"

text \<open>What follows a dot: only \<open>contains\<close> with one argument.\<close>

definition method_call :: "calls \<Rightarrow> expr \<Rightarrow> expr pm" where
  "method_call call e = bindM advance (\<lambda>m. bindM (method_name m) (\<lambda>method.
     if method \<noteq> ''contains'' then forbid ''only `.contains()` is allowed''
     else bindM (expect TLParen ''`(`'') (\<lambda>u. bindM (call NConditional) (\<lambda>arg.
       bindM (expect TRParen ''`)`'') (\<lambda>u. call (NPostfixLoop (ECall BContains [e, arg])))))))"

definition postfix_loop :: "calls \<Rightarrow> expr \<Rightarrow> expr pm" where
  "postfix_loop call e = peeking (\<lambda>t.
     if t = Some TLBracket then
       bindM advance (\<lambda>x. bindM (call NConditional) (\<lambda>idx. bindM (expect TRBracket ''`]`'') (\<lambda>u.
       call (NPostfixLoop (EIndex e idx)))))
     else if t = Some TDot then
       bindM advance (\<lambda>x. method_call call e)
     else returnM e)"

definition close_list :: "expr list \<Rightarrow> expr pm" where
  "close_list items = bindM (expect TRBracket ''`]`'') (\<lambda>u. returnM (EList items))"

definition items_loop :: "calls \<Rightarrow> expr list \<Rightarrow> expr pm" where
  "items_loop call items = bindM (call NConditional) (\<lambda>e. bindM (eat TComma) (\<lambda>more.
     if \<not> more then close_list (items @ [e])
     else peeking (\<lambda>t. if t = Some TRBracket then close_list (items @ [e])
       else call (NItems (items @ [e])))))"

definition close_call :: "string \<Rightarrow> expr list \<Rightarrow> expr pm" where
  "close_call name args = bindM (expect TRParen ''`)`'') (\<lambda>u. bindM (builtin_from name) (\<lambda>b.
     returnM (ECall b args)))"

definition args_loop :: "calls \<Rightarrow> string \<Rightarrow> expr list \<Rightarrow> expr pm" where
  "args_loop call name args = bindM (call NConditional) (\<lambda>e. bindM (eat TComma) (\<lambda>more.
     if \<not> more then close_call name (args @ [e]) else call (NArgs name (args @ [e]))))"

definition primary :: "calls \<Rightarrow> expr pm" where
  "primary call = bindM advance (\<lambda>t. in_lang (\<lambda>l. case t of
       Some (TInt n) \<Rightarrow> returnM (EConst (VInt n))
     | Some (TFloat x) \<Rightarrow> returnM (EConst (VFloat x))
     | Some (TBool b) \<Rightarrow> returnM (EConst (VBool b))
     | Some (TStr s) \<Rightarrow> returnM (EConst (VStr s))
     | Some TLParen \<Rightarrow> bindM (call NConditional) (\<lambda>e. bindM (expect TRParen ''`)`'') (\<lambda>u. returnM e))
     | Some TLBracket \<Rightarrow> peeking (\<lambda>t. if t = Some TRBracket then close_list [] else call (NItems []))
     | Some (TIdent name) \<Rightarrow> peeking (\<lambda>t. if t = Some TLParen then
           bindM advance (\<lambda>x. peeking (\<lambda>t. if t = Some TRParen then close_call name [] else call (NArgs name [])))
         else resolve name)
     | Some t \<Rightarrow> if t = KIf \<and> l = Rust then call NRustIf
         else parse_fail (''unexpected token '' @ debug_tok t)
     | None \<Rightarrow> parse_fail ''unexpected end of input''))"

definition rust_if :: "calls \<Rightarrow> expr pm" where
  "rust_if call = bindM (call NOr) (\<lambda>cond. bindM (expect TLBrace ''`{` after `if`'') (\<lambda>u.
     bindM (call NConditional) (\<lambda>th. bindM (expect TRBrace ''`}`'') (\<lambda>u.
     bindM (expect KElse ''`else` (if without else is not allowed)'') (\<lambda>u. peeking (\<lambda>t.
     bindM (if t = Some KIf then bindM advance (\<lambda>x. call NRustIf)
            else bindM (expect TLBrace ''`{` after `else`'') (\<lambda>u. bindM (call NConditional) (\<lambda>e.
              bindM (expect TRBrace ''`}`'') (\<lambda>u. returnM e))))
       (\<lambda>els. returnM (EIf cond th els))))))))"

definition nt_step :: "calls \<Rightarrow> nt \<Rightarrow> expr pm" where
  "nt_step call n = (case n of
       NConditional \<Rightarrow> conditional call
     | NOr \<Rightarrow> or_expr call | NOrLoop e \<Rightarrow> or_loop call e
     | NAnd \<Rightarrow> and_expr call | NAndLoop e \<Rightarrow> and_loop call e
     | NNot \<Rightarrow> not_expr call
     | NCmp \<Rightarrow> cmp_expr call | NCmpLoop es ks \<Rightarrow> cmp_loop call es ks
     | NAdd \<Rightarrow> add_expr call | NAddLoop e \<Rightarrow> add_loop call e
     | NMul \<Rightarrow> mul_expr call | NMulLoop e \<Rightarrow> mul_loop call e
     | NUnary \<Rightarrow> unary_expr call
     | NPostfix \<Rightarrow> postfix_expr call | NPostfixLoop e \<Rightarrow> postfix_loop call e
     | NPrimary \<Rightarrow> primary call | NItems es \<Rightarrow> items_loop call es | NArgs f es \<Rightarrow> args_loop call f es
     | NRustIf \<Rightarrow> rust_if call)"

primrec run_nt :: "nat \<Rightarrow> nt \<Rightarrow> expr pm" where
  "run_nt 0 n = failM OutOfFuel"
| "run_nt (Suc k) n = nt_step (run_nt k) n"

section \<open>Programs\<close>

definition binding_name :: "tok option \<Rightarrow> string pm" where
  "binding_name t = (case t of Some (TIdent n) \<Rightarrow> returnM n | _ \<Rightarrow> parse_fail ''expected name after `let`'')"

text \<open>The \<open>let\<close> loop of \<open>program\<close>; it has at most as many rounds as there are tokens.\<close>

fun let_loop :: "target \<Rightarrow> nat \<Rightarrow> nat \<Rightarrow> unit pm" where
  "let_loop t k 0 = failM OutOfFuel"
| "let_loop t k (Suc n) = peeking (\<lambda>tk. if tk = Some KLet then
     bindM advance (\<lambda>x. bindM advance (\<lambda>nm. bindM (binding_name nm) (\<lambda>name.
     bindM (expect TAssign ''`=`'') (\<lambda>u. bindM (run_nt k NConditional) (\<lambda>e.
     bindM (expect TSemi ''`;`'') (\<lambda>u. bindM (declare_local t name) (\<lambda>s.
     bindM (push_binding s e) (\<lambda>u. let_loop t k n))))))))
     else returnM ())"

definition at_end :: "bool pm" where
  "at_end p = (Ok (p_pos p = length (p_toks p)), p)"

definition program_p :: "target \<Rightarrow> nat \<Rightarrow> expr pm" where
  "program_p t k = in_lang (\<lambda>l.
     bindM (if l = Rust then let_loop t k k else returnM ()) (\<lambda>u.
     bindM (run_nt k NConditional) (\<lambda>e. bindM (eat TSemi) (\<lambda>b. bindM at_end (\<lambda>done.
       if done then returnM e else parse_fail ''trailing tokens after expression'')))))"

definition parser_new :: "tok list \<Rightarrow> lang \<Rightarrow> parser" where
  "parser_new ts l = \<lparr>p_toks = ts, p_pos = 0, p_lang = l, p_locals = [], p_next_slot = 0, p_body = []\<rparr>"

text \<open>Fuel for a token list: more than the deepest chain of calls it can cause.\<close>

definition parse_fuel :: "tok list \<Rightarrow> nat" where
  "parse_fuel ts = 24 * length ts + 37"

definition parse_toks :: "target \<Rightarrow> tok list \<Rightarrow> lang \<Rightarrow> (program, perr) outcome" where
  "parse_toks t ts l = (case program_p t (parse_fuel ts) (parser_new ts l) of
       (r, p) \<Rightarrow> bindR r (\<lambda>e. Ok \<lparr>body = p_body p, ret = e, n_locals = p_next_slot p,
         max_steps = DEFAULT_MAX_STEPS\<rparr>))"

definition parse :: "target \<Rightarrow> string \<Rightarrow> lang \<Rightarrow> (program, perr) outcome" where
  "parse t src l = (case lex src of
       Ok ts \<Rightarrow> parse_toks t ts l
     | Err e \<Rightarrow> Err (Dsl e)
     | Panic \<Rightarrow> Panic)"

end
