(* ===== verification/ParserFacts.thy ===== *)
theory ParserFacts
  imports Parser
begin

text \<open>
  Facts on the parser: the fuel is enough for every token list, and what it builds is
  verified IR.
\<close>

section \<open>Enough fuel\<close>

text \<open>
  \<open>fuelled b c m\<close>: with fewer than \<open>b\<close> tokens left the step does not run out of fuel, and
  leaves fewer than \<open>c\<close> tokens when it succeeds.
\<close>

definition left_p :: "parser \<Rightarrow> nat" where
  "left_p p = length (p_toks p) - p_pos p"

definition fuelled_if :: "(parser \<Rightarrow> bool) \<Rightarrow> nat \<Rightarrow> nat \<Rightarrow> 'a pm \<Rightarrow> bool" where
  "fuelled_if P b c m \<longleftrightarrow> triple (\<lambda>p. left_p p < b \<and> P p) m (\<lambda>v p. left_p p < c) (\<lambda>e p. e \<noteq> Some OutOfFuel)"

abbreviation fuelled :: "nat \<Rightarrow> nat \<Rightarrow> 'a pm \<Rightarrow> bool" where
  "fuelled \<equiv> fuelled_if (\<lambda>p. True)"

definition rank :: "nt \<Rightarrow> nat" where
  "rank n = (case n of NItems es \<Rightarrow> 13 | NArgs f es \<Rightarrow> 13 | NConditional \<Rightarrow> 12 | NRustIf \<Rightarrow> 12 | NOr \<Rightarrow> 11
     | NAnd \<Rightarrow> 10 | NNot \<Rightarrow> 9 | NCmp \<Rightarrow> 8 | NAdd \<Rightarrow> 7 | NMul \<Rightarrow> 6 | NUnary \<Rightarrow> 5 | NPostfix \<Rightarrow> 4
     | NPrimary \<Rightarrow> 3 | _ \<Rightarrow> 0)"

text \<open>The methods consume at least one token; a loop may consume none.\<close>

definition consumes :: "nt \<Rightarrow> nat" where
  "consumes n = (case n of NOrLoop e \<Rightarrow> 0 | NAndLoop e \<Rightarrow> 0 | NCmpLoop es ks \<Rightarrow> 0 | NAddLoop e \<Rightarrow> 0
     | NMulLoop e \<Rightarrow> 0 | NPostfixLoop e \<Rightarrow> 0 | _ \<Rightarrow> 1)"

definition good_calls :: "nat \<Rightarrow> calls \<Rightarrow> bool" where
  "good_calls k call \<longleftrightarrow> (\<forall>n b. 24 * b + rank n < k \<longrightarrow> fuelled b (b - consumes n) (call n))"

lemma rank_simps [simp]:
  "rank (NItems es) = 13" "rank (NArgs f es) = 13" "rank NConditional = 12" "rank NRustIf = 12"
  "rank NOr = 11" "rank NAnd = 10" "rank NNot = 9" "rank NCmp = 8" "rank NAdd = 7" "rank NMul = 6"
  "rank NUnary = 5" "rank NPostfix = 4" "rank NPrimary = 3" "rank (NOrLoop e) = 0"
  "rank (NAndLoop e) = 0" "rank (NCmpLoop es ks) = 0" "rank (NAddLoop e) = 0" "rank (NMulLoop e) = 0"
  "rank (NPostfixLoop e) = 0"
  by (simp_all add: rank_def)

lemma consumes_simps [simp]:
  "consumes (NItems es) = 1" "consumes (NArgs f es) = 1" "consumes NConditional = 1" "consumes NRustIf = 1"
  "consumes NOr = 1" "consumes NAnd = 1" "consumes NNot = 1" "consumes NCmp = 1" "consumes NAdd = 1"
  "consumes NMul = 1" "consumes NUnary = 1" "consumes NPostfix = 1" "consumes NPrimary = 1"
  "consumes (NOrLoop e) = 0" "consumes (NAndLoop e) = 0" "consumes (NCmpLoop es ks) = 0"
  "consumes (NAddLoop e) = 0" "consumes (NMulLoop e) = 0" "consumes (NPostfixLoop e) = 0"
  by (simp_all add: consumes_def)

named_theorems fuel_intros \<open>rules for steps that have enough fuel\<close>

lemma fuelled_bind:
  "fuelled_if P b c m \<Longrightarrow> (\<And>v. fuelled c d (k v)) \<Longrightarrow> fuelled_if P b d (bindM m k)"
  unfolding fuelled_if_def by (rule triple_bind) auto

lemma fuelled_more: "c \<le> d \<Longrightarrow> fuelled_if P b c m \<Longrightarrow> fuelled_if P b d m"
  unfolding fuelled_if_def by (erule triple_conseq) auto

lemma fuelled_forget: "fuelled b c m \<Longrightarrow> fuelled_if P b c m"
  unfolding fuelled_if_def by (erule triple_conseq) auto

lemma fuelled_call:
  "good_calls k call \<Longrightarrow> 24 * b + rank n < k \<Longrightarrow> b - consumes n \<le> c \<Longrightarrow> fuelled_if P b c (call n)"
  by (rule fuelled_forget, rule fuelled_more) (auto simp: good_calls_def)

lemma fuelled_bind_call:
  "good_calls k call \<Longrightarrow> 24 * b + rank n < k \<Longrightarrow> (\<And>v. fuelled (b - consumes n) c (f v)) \<Longrightarrow>
   fuelled_if P b c (bindM (call n) f)"
  by (rule fuelled_bind [OF fuelled_call]) auto

lemma fuelled_return: "b \<le> c \<Longrightarrow> fuelled_if P b c (returnM v)"
  by (auto simp: fuelled_if_def intro: triple_return)

lemma fuelled_fail: "fuelled_if P b c (parse_fail m)" "fuelled_if P b c (forbid m)"
  by (auto simp: fuelled_if_def parse_fail_def forbid_def intro: triple_fail)

lemma left_p_step: "peek p \<noteq> None \<Longrightarrow> left_p p < b \<Longrightarrow> left_p (p\<lparr>p_pos := Suc (p_pos p)\<rparr>) < b - 1"
  by (auto simp: peek_def tok_at_def left_p_def split: if_splits)

lemma fuelled_peeking: "(\<And>t. fuelled_if (\<lambda>p. P p \<and> peek p = t) b c (k t)) \<Longrightarrow> fuelled_if P b c (peeking k)"
  by (auto simp: fuelled_if_def triple_def peeking_def)

lemma fuelled_in_lang: "(\<And>l. fuelled_if P b c (k l)) \<Longrightarrow> fuelled_if P b c (in_lang k)"
  by (auto simp: fuelled_if_def triple_def in_lang_def)

lemma fuelled_less: "b \<le> b' \<Longrightarrow> fuelled_if P b' c m \<Longrightarrow> fuelled_if P b c m"
  unfolding fuelled_if_def by (erule triple_conseq) auto

lemma fuelled_bind_advance:
  assumes "\<And>p. P p \<Longrightarrow> peek p \<noteq> None" and k: "\<And>v. fuelled (b - 1) c (k v)"
  shows "fuelled_if P b c (bindM advance k)"
proof (rule fuelled_bind)
  show "fuelled_if P b (b - 1) advance"
    unfolding fuelled_if_def
  proof (rule tripleI)
    fix p assume p: "left_p p < b \<and> P p"
    with assms(1) have "peek p \<noteq> None" by blast
    with left_p_step [of p b] p
    show "case advance p of (Ok v, s') \<Rightarrow> left_p s' < b - 1 | (Err e, s') \<Rightarrow> Some e \<noteq> Some OutOfFuel
      | (Panic, s') \<Rightarrow> None \<noteq> Some OutOfFuel"
      by (auto simp: advance_def)
  qed
  show "fuelled (b - 1) c (k v)" for v by (rule k)
qed

text \<open>An unconditional \<open>advance\<close>: the token it returns tells whether one was consumed.\<close>

lemma fuelled_advance_any:
  assumes none: "fuelled b c (k None)" and some: "\<And>t. fuelled (b - 1) c (k (Some t))"
  shows "fuelled b c (bindM advance k)"
  unfolding fuelled_if_def
proof (rule triple_bind)
  show "triple (\<lambda>p. left_p p < b \<and> True) advance
      (\<lambda>t p. left_p p < (if t = None then b else b - 1)) (\<lambda>e p. e \<noteq> Some OutOfFuel)"
    by (rule tripleI) (auto simp: advance_def intro: left_p_step [simplified])
  show "triple (\<lambda>p. left_p p < (if t = None then b else b - 1)) (k t)
      (\<lambda>v p. left_p p < c) (\<lambda>e p. e \<noteq> Some OutOfFuel)" for t
    using none some by (cases t) (simp_all add: fuelled_if_def)
qed

lemma fuelled_advance_weak: "(\<And>t. fuelled b c (k t)) \<Longrightarrow> fuelled b c (bindM advance k)"
  by (rule fuelled_advance_any, simp, rule fuelled_less [of _ b]) simp_all

lemma fuelled_bind_eat: "(\<And>v. fuelled b c (k v)) \<Longrightarrow> fuelled_if P b c (bindM (eat t) k)"
  by (rule fuelled_bind [where c = b])
     (auto simp: fuelled_if_def triple_def eat_def left_p_def)

lemma fuelled_bind_expect: "(\<And>v. fuelled b c (k v)) \<Longrightarrow> fuelled_if P b c (bindM (expect t w) k)"
  by (rule fuelled_bind [where c = b])
     (auto simp: expect_def intro!: fuelled_bind_eat fuelled_return fuelled_fail)

lemma next_cmp_peek:
  "next_cmp p = (Ok (Some k), p') \<Longrightarrow> peek p' \<noteq> None \<and> left_p p' \<le> left_p p"
  by (auto simp: next_cmp_def cmp_kind_of_def advance_def peek_def tok_at_def left_p_def
      split: option.splits tok.splits cmp_kind.splits if_splits)

lemma next_cmp_none: "next_cmp p = (Ok None, p') \<Longrightarrow> p' = p"
  by (auto simp: next_cmp_def split: option.splits cmp_kind.splits)

lemma next_cmp_ok: "\<exists>v p'. next_cmp p = (Ok v, p')"
  by (auto simp: next_cmp_def split: option.split cmp_kind.split)

lemma fuelled_next_cmp:
  assumes none: "fuelled b c (k None)"
    and some: "\<And>x. fuelled_if (\<lambda>p. peek p \<noteq> None) b c (k (Some x))"
  shows "fuelled_if P b c (bindM next_cmp k)"
  unfolding fuelled_if_def
proof (rule triple_bind)
  show "triple (\<lambda>p. left_p p < b \<and> P p) next_cmp
      (\<lambda>v p. left_p p < b \<and> (v \<noteq> None \<longrightarrow> peek p \<noteq> None)) (\<lambda>e p. e \<noteq> Some OutOfFuel)"
  proof (rule tripleI)
    fix p assume "left_p p < b \<and> P p"
    moreover obtain v p' where "next_cmp p = (Ok v, p')" using next_cmp_ok by blast
    ultimately show "case next_cmp p of
        (Ok v, s') \<Rightarrow> left_p s' < b \<and> (v \<noteq> None \<longrightarrow> peek s' \<noteq> None)
      | (Err e, s') \<Rightarrow> Some e \<noteq> Some OutOfFuel | (Panic, s') \<Rightarrow> None \<noteq> Some OutOfFuel"
      by (cases v) (auto dest: next_cmp_peek next_cmp_none)
  qed
  show "triple (\<lambda>p. left_p p < b \<and> (v \<noteq> None \<longrightarrow> peek p \<noteq> None)) (k v)
      (\<lambda>v p. left_p p < c) (\<lambda>e p. e \<noteq> Some OutOfFuel)" for v
    using none some by (cases v) (simp_all add: fuelled_if_def)
qed

lemma fuelled_resolve: "b \<le> c \<Longrightarrow> fuelled_if P b c (resolve name)"
  by (auto simp: fuelled_if_def triple_def resolve_def)

lemma fuelled_close_list: "b \<le> c \<Longrightarrow> fuelled_if P b c (close_list items)"
  unfolding close_list_def by (intro fuelled_bind_expect fuelled_return)

lemma fuelled_close_call: "b \<le> c \<Longrightarrow> fuelled_if P b c (close_call name args)"
  unfolding close_call_def builtin_from_def
  by (intro fuelled_bind_expect fuelled_bind [where c = b])
     (auto intro: fuelled_return fuelled_fail split: option.split)

lemma fuelled_method_name: "(\<And>v. fuelled b c (k v)) \<Longrightarrow> fuelled b c (bindM (method_name t) k)"
  by (rule fuelled_bind [where c = b])
     (auto simp: method_name_def intro: fuelled_return fuelled_fail split: option.split tok.split)

lemma fuelled_pair: "b \<le> c \<Longrightarrow> fuelled_if P b c (Pair (Ok v))"
  using fuelled_return [of b c P v] by (simp add: returnM_def)

lemmas fuel_rules = fuelled_pair fuelled_bind_eat fuelled_bind_expect fuelled_bind_advance fuelled_next_cmp
  fuelled_return fuelled_fail fuelled_peeking fuelled_in_lang fuelled_resolve fuelled_close_list
  fuelled_close_call fuelled_method_name

lemma op_peek: "add_op t = Some op \<Longrightarrow> \<exists>y. t = Some y" "mul_op t = Some op \<Longrightarrow> \<exists>y. t = Some y"
  by (cases t; simp add: add_op_def mul_op_def)+

lemma fuelled_step:
  assumes g: "good_calls k call" and k: "24 * b + rank n < Suc k" and b: "0 < b"
  shows "fuelled b (b - consumes n) (nt_step call n)"
proof -
  note call = fuelled_bind_call [OF g] fuelled_call [OF g]
  have f: "fuelled b c m \<Longrightarrow> fuelled_if P b c m" for c P and m :: "expr pm"
    by (rule fuelled_forget)
  show ?thesis
  proof (cases n)
    case NConditional
    then show ?thesis using k b
      by (auto simp: nt_step_def conditional_def intro!: call fuel_rules)
  next
    case NRustIf
    then show ?thesis using k b
      by (auto simp: nt_step_def rust_if_def bindM_assoc bindM_return intro!: call fuel_rules)
  next
    case NPrimary
    show ?thesis unfolding NPrimary nt_step_def primary_def nt.case
      by (rule fuelled_advance_any, use k b NPrimary in \<open>auto intro!: call fuel_rules split: tok.split\<close>)
         arith+
  next
    case (NItems es)
    then show ?thesis using k b
      by (auto simp: nt_step_def items_loop_def intro!: call fuel_rules) arith+
  next
    case (NArgs f es)
    then show ?thesis using k b
      by (auto simp: nt_step_def args_loop_def intro!: call fuel_rules)
  next
    case (NPostfixLoop e)
    have m: "fuelled (b - 1) b (method_call call e)"
      unfolding method_call_def
      by (rule fuelled_advance_weak) (use k b in \<open>auto intro!: call fuel_rules\<close>)
    show ?thesis using k b NPostfixLoop m
      by (auto simp: nt_step_def postfix_loop_def intro!: call fuel_rules)
  next
    case NUnary
    then show ?thesis using k b
      by (auto simp: nt_step_def unary_expr_def intro!: call fuel_rules intro: f)
  next
    case NNot
    then show ?thesis using k b
      by (auto simp: nt_step_def not_expr_def intro!: call fuel_rules intro: f)
  next
    case (NCmpLoop es ks)
    then show ?thesis using k b
      by (auto simp: nt_step_def cmp_loop_def intro!: call fuel_rules)
  next
    case (NAddLoop e)
    then show ?thesis using k b
      by (auto simp: nt_step_def add_loop_def dest: op_peek intro!: call fuel_rules split: option.split)
  next
    case (NMulLoop e)
    then show ?thesis using k b
      by (auto simp: nt_step_def mul_loop_def dest: op_peek intro!: call fuel_rules split: option.split)
  qed (use k b in \<open>auto simp: nt_step_def or_expr_def or_loop_def and_expr_def and_loop_def cmp_expr_def
      add_expr_def mul_expr_def postfix_expr_def intro!: call fuel_rules\<close>)
qed


lemma fuelled_run_nt: "24 * b + rank n < k \<Longrightarrow> fuelled b (b - consumes n) (run_nt k n)"
proof (induction k arbitrary: b n)
  case (Suc k)
  have g: "good_calls k (run_nt k)" unfolding good_calls_def using Suc.IH by blast
  show ?case
  proof (cases "0 < b")
    case True
    with fuelled_step [OF g Suc.prems] show ?thesis by simp
  next
    case False
    then show ?thesis by (simp add: fuelled_if_def triple_def)
  qed
qed simp

lemma fuelled_bind_declare: "(\<And>v. fuelled b c (k v)) \<Longrightarrow> fuelled b c (bindM (declare_local t name) k)"
  by (rule fuelled_bind [where c = b])
     (auto simp: fuelled_if_def triple_def declare_local_def left_p_def Let_def)

lemma fuelled_bind_push: "(\<And>v. fuelled b c (k v)) \<Longrightarrow> fuelled b c (bindM (push_binding s e) k)"
  by (rule fuelled_bind [where c = b])
     (auto simp: fuelled_if_def triple_def push_binding_def left_p_def)

lemma fuelled_bind_name: "(\<And>v. fuelled b c (k v)) \<Longrightarrow> fuelled b c (bindM (binding_name t) k)"
  by (rule fuelled_bind [where c = b])
     (auto simp: binding_name_def intro: fuelled_return fuelled_fail split: option.split tok.split)

lemma fuelled_let_loop: "24 * b + 12 < k \<Longrightarrow> b < n \<Longrightarrow> fuelled b b (let_loop t k n)"
proof (induction n arbitrary: b)
  case (Suc n)
  have g: "good_calls k (run_nt k)" unfolding good_calls_def by (blast intro: fuelled_run_nt)
  have tail: "fuelled (b - 2) b (let_loop t k n)" if "0 < b"
    using that Suc.prems by (intro fuelled_more [OF _ Suc.IH]) auto
  have def: "fuelled (b - 1) b (bindM (binding_name nm) (\<lambda>name.
     bindM (expect TAssign ''`=`'') (\<lambda>u. bindM (run_nt k NConditional) (\<lambda>e.
     bindM (expect TSemi ''`;`'') (\<lambda>u. bindM (declare_local t name) (\<lambda>s.
     bindM (push_binding s e) (\<lambda>u. let_loop t k n)))))))" if "0 < b" for nm
    using tail [OF that] Suc.prems
    by (intro fuelled_bind_name fuelled_bind_expect fuelled_bind_call [OF g] fuelled_bind_declare
        fuelled_bind_push) (auto simp: numeral_2_eq_2)
  show ?case
  proof (cases "0 < b")
    case True
    then show ?thesis
      by (auto intro!: fuelled_peeking fuelled_bind_advance fuelled_advance_any fuelled_pair fuelled_return
          def fuelled_less [OF _ def])
  next
    case False
    then show ?thesis by (simp add: fuelled_if_def triple_def)
  qed
qed simp

lemma fuelled_program:
  assumes "24 * b + 12 < k" and "b < k" and "0 < b"
  shows "fuelled b b (program_p t k)"
proof -
  have g: "good_calls k (run_nt k)" unfolding good_calls_def by (blast intro: fuelled_run_nt)
  have e: "fuelled b b (bindM at_end (\<lambda>done. if done then returnM e else parse_fail m))" for e m
    by (rule fuelled_bind [where c = b])
       (auto simp: fuelled_if_def triple_def at_end_def parse_fail_def)
  have r: "fuelled b b (bindM (run_nt k NConditional) (\<lambda>e. bindM (eat TSemi) (\<lambda>b. bindM at_end (\<lambda>done.
       if done then returnM e else parse_fail ''trailing tokens after expression''))))"
    using assms by (intro fuelled_bind_call [OF g] fuelled_bind_eat fuelled_less [OF _ e]) auto
  have "fuelled b b (if l = Rust then let_loop t k k else returnM ())" for l
    using assms by (auto intro: fuelled_let_loop fuelled_return)
  then show ?thesis
    unfolding program_p_def by (intro fuelled_in_lang fuelled_bind [OF _ r])
qed

lemma parse_toks_fuel: "parse_toks t ts l \<noteq> Err OutOfFuel"
proof -
  have "fuelled (length ts + 1) (length ts + 1) (program_p t (parse_fuel ts))"
    by (rule fuelled_program) (simp_all add: parse_fuel_def)
  then show ?thesis
    by (cases "program_p t (parse_fuel ts) (parser_new ts l)")
       (auto simp: parse_toks_def fuelled_if_def bindR_eq_Err parser_new_def left_p_def dest!: tripleD_Err)
qed

lemma parse_fuel: "parse t src l \<noteq> Err OutOfFuel"
  by (simp add: parse_def parse_toks_fuel split: outcome.split)

section \<open>The IR it builds is verified\<close>

text \<open>
  \<open>yields c a Q m\<close>: the step changes nothing but the position, which does not go back before
  \<open>a\<close> or past the end, does not panic, and gives a value in \<open>Q\<close>.
\<close>

definition ctx :: "parser \<Rightarrow> tok list \<times> lang \<times> (string \<times> u16) list \<times> u16 \<times> let_binding list" where
  "ctx p = (p_toks p, p_lang p, p_locals p, p_next_slot p, p_body p)"

definition at_ctx ::
  "tok list \<times> lang \<times> (string \<times> u16) list \<times> u16 \<times> let_binding list \<Rightarrow> nat \<Rightarrow> parser \<Rightarrow> bool"
where
  "at_ctx c a p \<longleftrightarrow> ctx p = c \<and> a \<le> p_pos p \<and> p_pos p \<le> length (p_toks p)"

definition yields ::
  "tok list \<times> lang \<times> (string \<times> u16) list \<times> u16 \<times> let_binding list \<Rightarrow> nat \<Rightarrow> ('a \<Rightarrow> bool) \<Rightarrow> 'a pm \<Rightarrow> bool"
where
  "yields c a Q m \<longleftrightarrow> triple (at_ctx c a) m (\<lambda>v p. at_ctx c a p \<and> Q v) (\<lambda>e p. e \<noteq> None)"

lemma yields_bind:
  assumes "yields c a R m" and "\<And>v. R v \<Longrightarrow> yields c a Q (k v)"
  shows "yields c a Q (bindM m k)"
  unfolding yields_def
proof (rule triple_bind)
  show "triple (at_ctx c a) m (\<lambda>v p. at_ctx c a p \<and> R v) (\<lambda>e p. e \<noteq> None)"
    using assms(1) by (simp add: yields_def)
  show "triple (\<lambda>p. at_ctx c a p \<and> R v) (k v) (\<lambda>v p. at_ctx c a p \<and> Q v) (\<lambda>e p. e \<noteq> None)" for v
    using assms(2) [of v] by (cases "R v") (simp_all add: yields_def triple_def)
qed

lemma yields_skip: "yields c a (\<lambda>v. True) m \<Longrightarrow> (\<And>v. yields c a Q (k v)) \<Longrightarrow> yields c a Q (bindM m k)"
  by (rule yields_bind)

lemma yields_return: "Q v \<Longrightarrow> yields c a Q (returnM v)"
  by (simp add: yields_def triple_def)

lemma yields_pair: "Q v \<Longrightarrow> yields c a Q (Pair (Ok v))"
  by (simp add: yields_def triple_def)

lemma yields_fail: "yields c a Q (parse_fail m)" "yields c a Q (forbid m)" "yields c a Q (failM e)" "yields c a Q (Pair (Err e))"
  by (simp_all add: yields_def triple_def parse_fail_def forbid_def)

lemma yields_peeking: "(\<And>t. yields c a Q (k t)) \<Longrightarrow> yields c a Q (peeking k)"
  by (simp add: yields_def triple_def peeking_def)

lemma yields_in_lang: "(\<And>l. yields c a Q (k l)) \<Longrightarrow> yields c a Q (in_lang k)"
  by (simp add: yields_def triple_def in_lang_def)

lemma at_ctx_step: "at_ctx c a p \<Longrightarrow> peek p \<noteq> None \<Longrightarrow> at_ctx c (Suc a) (p\<lparr>p_pos := Suc (p_pos p)\<rparr>)"
  by (auto simp: at_ctx_def ctx_def peek_def tok_at_def split: if_splits)

lemma at_ctx_less: "at_ctx c (Suc a) p \<Longrightarrow> at_ctx c a p"
  by (auto simp: at_ctx_def)

lemma at_ctx_bump: "at_ctx c a p \<Longrightarrow> peek p = Some y \<Longrightarrow> at_ctx c a (p\<lparr>p_pos := Suc (p_pos p)\<rparr>)"
  by (rule at_ctx_less, rule at_ctx_step) simp_all

lemma find_mem: "find P xs = Some x \<Longrightarrow> x \<in> set xs \<and> P x"
  by (auto simp: find_Some_iff)

lemma yields_advance: "yields c a (\<lambda>v. True) advance"
  unfolding yields_def
  by (rule tripleI) (auto simp: advance_def intro: at_ctx_bump)

lemma yields_eat: "yields c a (\<lambda>v. True) (eat t)"
  unfolding yields_def
  by (rule tripleI) (auto simp: eat_def intro: at_ctx_bump)

lemma yields_expect: "yields c a (\<lambda>v. True) (expect t w)"
  unfolding expect_def by (rule yields_skip [OF yields_eat]) (auto intro: yields_return yields_fail)

lemma yields_next_cmp: "yields c a (\<lambda>v. True) next_cmp"
  unfolding yields_def
  by (rule tripleI)
     (auto simp: next_cmp_def advance_def cmp_kind_of_def intro: at_ctx_bump
       split: option.split cmp_kind.split)

lemma yields_method_name: "yields c a (\<lambda>v. True) (method_name t)"
  by (auto simp: method_name_def intro: yields_return yields_fail split: option.split tok.split)

lemma yields_builtin_from: "yields c a (\<lambda>v. True) (builtin_from name)"
  by (auto simp: builtin_from_def intro: yields_return yields_fail split: option.split)

definition slots_below :: "nat \<Rightarrow> (string \<times> u16) list \<Rightarrow> bool" where
  "slots_below n ls \<longleftrightarrow> (\<forall>(name, s) \<in> set ls. unat s < n)"

lemma yields_resolve:
  "c = (ts, l, ls, s, bs) \<Longrightarrow> slots_below n ls \<Longrightarrow> yields c a (locals_below n) (resolve name)"
  unfolding yields_def
  by (rule tripleI)
     (auto simp: resolve_def at_ctx_def ctx_def slots_below_def split: option.split dest!: find_mem)

text \<open>What a call carries.\<close>

definition nt_below :: "nat \<Rightarrow> nt \<Rightarrow> bool" where
  "nt_below n t = (case t of
       NOrLoop e \<Rightarrow> locals_below n e | NAndLoop e \<Rightarrow> locals_below n e
     | NCmpLoop es ks \<Rightarrow> es \<noteq> [] \<and> list_all (locals_below n) es
     | NAddLoop e \<Rightarrow> locals_below n e | NMulLoop e \<Rightarrow> locals_below n e
     | NPostfixLoop e \<Rightarrow> locals_below n e
     | NItems es \<Rightarrow> list_all (locals_below n) es | NArgs f es \<Rightarrow> list_all (locals_below n) es
     | _ \<Rightarrow> True)"

lemma cmp_terms_below: "list_all (locals_below n) es \<Longrightarrow> list_all (locals_below n) (cmp_terms es ks)"
  by (induction es ks rule: cmp_terms.induct) (auto simp: cmp_term_def split: cmp_kind.split)

lemma foldl_and_below:
  "locals_below n e \<Longrightarrow> list_all (locals_below n) es \<Longrightarrow> locals_below n (foldl (EBool AndOp) e es)"
  by (induction es arbitrary: e) auto

lemma chain_below: "es \<noteq> [] \<Longrightarrow> list_all (locals_below n) es \<Longrightarrow> locals_below n (chain es ks)"
  using cmp_terms_below [of n es ks]
  by (auto simp: chain_def foldl_and_below list_all_iff split: list.split)

lemma yields_step:
  assumes c: "c = (ts, l, ls, s, bs)" and ls: "slots_below n ls"
    and call: "\<And>t. nt_below n t \<Longrightarrow> yields c a (locals_below n) (call t)"
    and t: "nt_below n t"
  shows "yields c a (locals_below n) (nt_step call t)"
proof -
  note rules = yields_bind [OF call] yields_skip [OF yields_advance] yields_skip [OF yields_eat]
    yields_skip [OF yields_expect] yields_skip [OF yields_next_cmp] yields_skip [OF yields_method_name]
    yields_skip [OF yields_builtin_from] yields_return yields_pair yields_fail yields_peeking
    yields_in_lang yields_resolve [OF c ls] call chain_below
  show ?thesis
    using t
    by (cases t)
       (auto simp: nt_step_def conditional_def or_expr_def or_loop_def and_expr_def and_loop_def not_expr_def
         cmp_expr_def cmp_loop_def add_expr_def add_loop_def mul_expr_def mul_loop_def unary_expr_def
         postfix_expr_def postfix_loop_def method_call_def primary_def items_loop_def args_loop_def
         rust_if_def close_list_def close_call_def nt_below_def bindM_assoc bindM_return
         intro!: rules split: option.split tok.split)
qed


lemma yields_run_nt:
  assumes c: "c = (ts, l, ls, s, bs)" and ls: "slots_below n ls"
  shows "nt_below n t \<Longrightarrow> yields c a (locals_below n) (run_nt k t)"
proof (induction k arbitrary: t)
  case 0
  show ?case by (simp add: yields_fail)
next
  case (Suc k)
  then show ?case by (simp add: yields_step [OF c ls])
qed

text \<open>
  Between two \<open>let\<close>s: the slots handed out are those of the bindings so far, one per binding,
  and no more bindings than tokens consumed.
\<close>

definition let_inv :: "parser \<Rightarrow> bool" where
  "let_inv p \<longleftrightarrow> length (p_body p) \<le> p_pos p \<and> p_pos p \<le> length (p_toks p) \<and> length (p_toks p) < 65536
     \<and> unat (p_next_slot p) = length (p_body p)
     \<and> slots_below (length (p_body p)) (p_locals p)
     \<and> list_all (\<lambda>b. unat (slot b) < length (p_body p) \<and> locals_below (length (p_body p)) (bound b)) (p_body p)"

text \<open>Inside a \<open>let\<close> one more token than bindings is consumed.\<close>

definition let_mid :: "nat \<Rightarrow> parser \<Rightarrow> bool" where
  "let_mid n p \<longleftrightarrow> let_inv p \<and> length (p_body p) = n \<and> n < p_pos p"

definition no_panic_post :: "perr option \<Rightarrow> parser \<Rightarrow> bool" where
  "no_panic_post e p \<longleftrightarrow> e \<noteq> None"

lemma let_mid_keep:
  assumes "\<And>c a ts l ls s bs. c = (ts, l, ls, s, bs) \<Longrightarrow> slots_below n ls \<Longrightarrow> yields c a Q m"
  shows "triple (let_mid n) m (\<lambda>v p. let_mid n p \<and> Q v) no_panic_post"
proof (rule tripleI)
  fix p assume p: "let_mid n p"
  let ?c = "ctx p"
  have "yields ?c (p_pos p) Q m"
    by (rule assms [OF ctx_def]) (use p in \<open>auto simp: let_mid_def let_inv_def\<close>)
  then have t: "triple (at_ctx ?c (p_pos p)) m (\<lambda>v q. at_ctx ?c (p_pos p) q \<and> Q v) (\<lambda>e q. e \<noteq> None)"
    by (simp add: yields_def)
  have i: "at_ctx ?c (p_pos p) p" using p by (simp add: at_ctx_def let_mid_def let_inv_def)
  have m: "let_mid n q" if "at_ctx ?c (p_pos p) q" for q
    using p that by (auto simp: at_ctx_def ctx_def let_mid_def let_inv_def)
  show "case m p of (Ok v, s') \<Rightarrow> let_mid n s' \<and> Q v | (Err e, s') \<Rightarrow> no_panic_post (Some e) s'
      | (Panic, s') \<Rightarrow> no_panic_post None s'"
    using tripleD_Ok [OF t i] tripleD_Panic [OF t i] m
    by (cases "m p") (auto simp: no_panic_post_def split: outcome.split)
qed

lemma let_mid_bind:
  assumes "\<And>c a ts l ls s bs. c = (ts, l, ls, s, bs) \<Longrightarrow> slots_below n ls \<Longrightarrow> yields c a R m"
    and "\<And>v. R v \<Longrightarrow> triple (let_mid n) (k v) Q no_panic_post"
  shows "triple (let_mid n) (bindM m k) Q no_panic_post"
proof (rule triple_bind [OF let_mid_keep [OF assms(1)]])
  show "triple (\<lambda>p. let_mid n p \<and> R v) (k v) Q no_panic_post" for v
    using assms(2) [of v] by (cases "R v") (simp_all add: triple_def)
qed

lemma locals_below_Suc: "locals_below n e \<Longrightarrow> locals_below (Suc n) e"
  by (erule locals_below_mono) simp

lemma let_mid_declare:
  assumes p: "let_mid n p" and e: "locals_below n e"
  obtains s p1 where "declare_local t name p = (Ok s, p1)" and "let_inv (snd (push_binding s e p1))"
proof -
  have n: "unat (p_next_slot p) = n" "length (p_body p) = n" "n < p_pos p" "p_pos p \<le> length (p_toks p)"
    "length (p_toks p) < 65536" "slots_below n (p_locals p)"
    and bs: "list_all (\<lambda>b. unat (slot b) < n \<and> locals_below n (bound b)) (p_body p)"
    using p by (auto simp: let_mid_def let_inv_def)
  have less: "n < 65535" using n by linarith
  have "unat (-1 :: u16) = 65535" by code_simp
  with less n(1) have s: "p_next_slot p \<noteq> -1" by force
  have s1: "unat (p_next_slot p + 1) = Suc n" using n(1) less by (simp add: unat_word_ariths)
  let ?p1 = "p\<lparr>p_next_slot := p_next_slot p + 1, p_locals := p_locals p @ [(name, p_next_slot p)]\<rparr>"
  have d: "declare_local t name p = (Ok (p_next_slot p), ?p1)"
    using s by (simp add: declare_local_def Let_def)
  have "let_inv (snd (push_binding (p_next_slot p) e ?p1))"
    using n s1 e bs
    by (auto simp: push_binding_def let_inv_def slots_below_def list_all_iff less_Suc_eq
        intro: locals_below_Suc)
  with d show ?thesis by (rule that)
qed

lemma let_inv_declare:
  assumes "locals_below n e" and "triple let_inv k Q no_panic_post"
  shows "triple (let_mid n) (bindM (declare_local t name) (\<lambda>s. bindM (push_binding s e) (\<lambda>u. k))) Q no_panic_post"
proof (rule tripleI)
  fix p assume "let_mid n p"
  then obtain s p1 where d: "declare_local t name p = (Ok s, p1)" and i: "let_inv (snd (push_binding s e p1))"
    by (rule let_mid_declare [OF _ assms(1)])
  have "bindM (declare_local t name) (\<lambda>s. bindM (push_binding s e) (\<lambda>u. k)) p = k (snd (push_binding s e p1))"
    by (simp add: bindM_apply d push_binding_def)
  with assms(2) i show "case bindM (declare_local t name) (\<lambda>s. bindM (push_binding s e) (\<lambda>u. k)) p of
      (Ok v, s') \<Rightarrow> Q v s' | (Err e, s') \<Rightarrow> no_panic_post (Some e) s' | (Panic, s') \<Rightarrow> no_panic_post None s'"
    by (simp add: triple_def)
qed

lemma yields_binding_name: "yields c a (\<lambda>v. True) (binding_name t)"
  by (auto simp: binding_name_def intro: yields_return yields_fail split: option.split tok.split)

lemma let_loop_inv: "triple let_inv (let_loop t k n) (\<lambda>u. let_inv) no_panic_post"
proof (induction n)
  case 0
  show ?case by (simp add: triple_def no_panic_post_def)
next
  case (Suc n)
  have step: "triple (let_mid m) (bindM advance (\<lambda>nm. bindM (binding_name nm) (\<lambda>name.
     bindM (expect TAssign ''`=`'') (\<lambda>u. bindM (run_nt k NConditional) (\<lambda>e.
     bindM (expect TSemi ''`;`'') (\<lambda>u. bindM (declare_local t name) (\<lambda>s.
     bindM (push_binding s e) (\<lambda>u. let_loop t k n)))))))) (\<lambda>u. let_inv) no_panic_post" for m
    by (intro let_mid_bind [where R = "\<lambda>v. True"] yields_advance yields_binding_name yields_expect
        let_mid_bind [where R = "locals_below m"] let_inv_declare Suc.IH
        yields_run_nt) (simp_all add: nt_below_def)
  show ?case
  proof (rule tripleI)
    fix p assume p: "let_inv p"
    show "case let_loop t k (Suc n) p of (Ok v, s') \<Rightarrow> let_inv s' | (Err e, s') \<Rightarrow> no_panic_post (Some e) s'
        | (Panic, s') \<Rightarrow> no_panic_post None s'"
    proof (cases "peek p = Some KLet")
      case True
      then have a: "advance p = (Ok (Some KLet), p\<lparr>p_pos := Suc (p_pos p)\<rparr>)" by (simp add: advance_def)
      have "p_pos p < length (p_toks p)" using True by (simp add: peek_def tok_at_def split: if_splits)
      with p have "let_mid (length (p_body p)) (p\<lparr>p_pos := Suc (p_pos p)\<rparr>)"
        by (auto simp: let_mid_def let_inv_def)
      with step [of "length (p_body p)"] True a show ?thesis
        by (simp add: peeking_def bindM_apply [where m = advance] triple_def)
    next
      case False
      with p show ?thesis by (simp add: peeking_def)
    qed
  qed
qed

lemma let_inv_init: "length ts < 65536 \<Longrightarrow> let_inv (parser_new ts l)"
  by (simp add: let_inv_def parser_new_def slots_below_def)

text \<open>After the bindings only the position moves.\<close>

lemma yields_tail:
  assumes c: "c = (ts, l, ls, s, bs)" and ls: "slots_below n ls"
  shows "yields c a (locals_below n) (bindM (run_nt k NConditional) (\<lambda>e. bindM (eat TSemi) (\<lambda>b.
    bindM at_end (\<lambda>done. if done then returnM e else parse_fail m))))"
proof -
  have "yields c a (\<lambda>v. True) at_end" by (simp add: yields_def triple_def at_end_def)
  then show ?thesis
    by (intro yields_bind [OF yields_run_nt [OF c ls]] yields_skip [OF yields_eat] yields_skip)
       (auto simp: nt_below_def intro: yields_return yields_fail)
qed

lemma program_p_inv:
  "triple let_inv (program_p t k) (\<lambda>e p. let_inv p \<and> locals_below (length (p_body p)) e) no_panic_post"
proof -
  let ?tail = "bindM (run_nt k NConditional) (\<lambda>e. bindM (eat TSemi) (\<lambda>b.
    bindM at_end (\<lambda>done. if done then returnM e else parse_fail ''trailing tokens after expression'')))"
  have tail: "triple let_inv ?tail (\<lambda>e p. let_inv p \<and> locals_below (length (p_body p)) e) no_panic_post"
  proof (rule tripleI)
    fix p assume p: "let_inv p"
    have "yields (ctx p) (p_pos p) (locals_below (length (p_body p))) ?tail"
      by (rule yields_tail [OF ctx_def]) (use p in \<open>auto simp: let_inv_def\<close>)
    then have t: "triple (at_ctx (ctx p) (p_pos p)) ?tail
        (\<lambda>v q. at_ctx (ctx p) (p_pos p) q \<and> locals_below (length (p_body p)) v) (\<lambda>e q. e \<noteq> None)"
      by (simp add: yields_def)
    have i: "at_ctx (ctx p) (p_pos p) p" using p by (simp add: at_ctx_def let_inv_def)
    have m: "let_inv q \<and> p_body q = p_body p" if "at_ctx (ctx p) (p_pos p) q" for q
      using p that by (auto simp: at_ctx_def ctx_def let_inv_def)
    show "case ?tail p of (Ok v, s') \<Rightarrow> let_inv s' \<and> locals_below (length (p_body s')) v
        | (Err e, s') \<Rightarrow> no_panic_post (Some e) s' | (Panic, s') \<Rightarrow> no_panic_post None s'"
      using tripleD_Ok [OF t i] tripleD_Panic [OF t i] m
      by (cases "?tail p") (auto simp: no_panic_post_def split: outcome.split)
  qed
  have "triple let_inv (if l = Rust then let_loop t k k else returnM ()) (\<lambda>u. let_inv) no_panic_post" for l
    by (cases l) (simp_all add: let_loop_inv triple_return)
  from triple_bind [OF this tail] show ?thesis
    by (simp add: program_p_def in_lang_def triple_def)
qed

lemma parse_toks_wf:
  assumes "length ts < 65536"
  shows "parse_toks t ts l \<noteq> Panic" and "parse_toks t ts l = Ok p \<Longrightarrow> wf_program p"
  using tripleD_Ok [OF program_p_inv let_inv_init [OF assms], of t "parse_fuel ts" l]
    tripleD_Panic [OF program_p_inv let_inv_init [OF assms], of t "parse_fuel ts" l]
  by (cases "program_p t (parse_fuel ts) (parser_new ts l)";
      auto simp: parse_toks_def bindR_eq_Ok bindR_eq_Panic no_panic_post_def wf_program_def let_inv_def)+

lemma parse_wf:
  assumes "length src < 65536" and "parse t src l = Ok p"
  shows "wf_program p"
proof -
  from assms(2) obtain ts where ts: "lex src = Ok ts" and p: "parse_toks t ts l = Ok p"
    by (auto simp: parse_def split: outcome.splits)
  from lex_length [OF ts] assms(1) have "length ts < 65536" by simp
  from parse_toks_wf(2) [OF this p] show ?thesis .
qed

lemma parse_no_panic:
  assumes "length src < 65536" and "list_all is_ascii src"
  shows "parse t src l \<noteq> Panic"
proof (cases "lex src")
  case (Ok ts)
  with lex_length [OF Ok] assms(1) show ?thesis by (simp add: parse_def parse_toks_wf(1))
next
  case Panic
  with mild_lex [OF assms(2)] show ?thesis by (metis mild_not_Panic)
qed (simp add: parse_def)

end
