(* ===== verification/Json.thy ===== *)
theory Json
  imports Ir
begin

text \<open>
  \<open>json.rs\<close>: the path-directed JSON scalar extractor. It walks the bytes of the text by
  position, as the code does; every loop is a recursive function whose measure is the
  number of bytes left. Then the specification it is checked against: JSON documents as
  trees, their rendering, and lookup along a path.
\<close>

section \<open>The extractor\<close>

definition jerr :: "string \<Rightarrow> 'a res" where
  "jerr m = Err (TypeErr m)"

definition is_ws :: "char \<Rightarrow> bool" where
  "is_ws c \<longleftrightarrow> c = CHR '' '' \<or> byte c = 9 \<or> byte c = 13 \<or> byte c = 10"

definition is_delim :: "char \<Rightarrow> bool" where
  "is_delim c \<longleftrightarrow> c = CHR '','' \<or> c = CHR ''}'' \<or> c = CHR '']'' \<or> is_ws c"

text \<open>\<open>b.get(p)\<close>.\<close>

definition get_at :: "string \<Rightarrow> nat \<Rightarrow> char option" where
  "get_at b p = (if p < length b then Some (b ! p) else None)"

function skip_ws :: "string \<Rightarrow> nat \<Rightarrow> nat" where
  "skip_ws b p = (if p < length b \<and> is_ws (b ! p) then skip_ws b (Suc p) else p)"
  by pat_completeness auto
termination
  by (relation "measure (\<lambda>(b, p). length b - p)") auto

function skip_string_loop :: "string \<Rightarrow> nat \<Rightarrow> nat res" where
  "skip_string_loop b p =
     (if p < length b then
        (if b ! p = CHR 0x5C then skip_string_loop b (p + 2)
         else if b ! p = CHR 0x22 then Ok (p + 1)
         else skip_string_loop b (p + 1))
      else jerr ''json: unterminated string'')"
  by pat_completeness auto
termination
  by (relation "measure (\<lambda>(b, p). length b - p)") auto

definition skip_string_raw :: "string \<Rightarrow> nat \<Rightarrow> nat res" where
  "skip_string_raw b p = skip_string_loop b (p + 1)"

function skip_token :: "string \<Rightarrow> nat \<Rightarrow> nat" where
  "skip_token b q = (if q < length b \<and> \<not> is_delim (b ! q) then skip_token b (Suc q) else q)"
  by pat_completeness auto
termination
  by (relation "measure (\<lambda>(b, p). length b - p)") auto

declare skip_ws.simps [simp del] skip_string_loop.simps [simp del] skip_token.simps [simp del]

lemma skip_string_loop_bounds:
  "skip_string_loop b p = Ok q \<Longrightarrow> p < q \<and> q \<le> length b"
proof (induction b p rule: skip_string_loop.induct)
  case (1 b p)
  from "1.prems" show ?case
    by (subst (asm) skip_string_loop.simps) (auto simp: jerr_def split: if_splits dest: "1.IH")
qed

lemma skip_string_raw_bounds: "skip_string_raw b p = Ok q \<Longrightarrow> p + 1 < q \<and> q \<le> length b"
  by (auto simp: skip_string_raw_def dest: skip_string_loop_bounds)

text \<open>
  The depth is an \<open>i32\<close> and wraps, as in a release build; a build with overflow checks would
  panic on the 2147483648th open bracket instead, far beyond the 16 KB a response may have.
\<close>

function skip_container :: "string \<Rightarrow> nat \<Rightarrow> 32 word \<Rightarrow> nat res" where
  "skip_container b q depth =
     (if q < length b then
        (let c = b ! q in
         if c = CHR 0x22 then bindR (skip_string_raw b q) (\<lambda>q'. skip_container b q' depth)
         else if c = CHR ''{'' \<or> c = CHR ''['' then skip_container b (q + 1) (depth + 1)
         else if c = CHR ''}'' \<or> c = CHR '']'' then
           (if depth - 1 = 0 then Ok (q + 1) else skip_container b (q + 1) (depth - 1))
         else skip_container b (q + 1) depth)
      else jerr ''json: unterminated container'')"
  by pat_completeness auto
termination
  by (relation "measure (\<lambda>(b, q, d). length b - q)") (auto dest: skip_string_raw_bounds)

declare skip_container.simps [simp del]

definition skip_value :: "string \<Rightarrow> nat \<Rightarrow> nat res" where
  "skip_value b p0 =
     (let p = skip_ws b p0 in
      case get_at b p of
        None \<Rightarrow> jerr ''json: unexpected end''
      | Some c \<Rightarrow>
          if c = CHR ''{'' \<or> c = CHR ''['' then skip_container b p 0
          else if c = CHR 0x22 then skip_string_raw b p
          else Ok (skip_token b p))"

definition hex_digit :: "char \<Rightarrow> nat option" where
  "hex_digit c =
     (if 48 \<le> byte c \<and> byte c \<le> 57 then Some (byte c - 48)
      else if 97 \<le> byte c \<and> byte c \<le> 102 then Some (byte c - 97 + 10)
      else if 65 \<le> byte c \<and> byte c \<le> 70 then Some (byte c - 65 + 10)
      else None)"

fun hex4_loop :: "u16 \<Rightarrow> string \<Rightarrow> u16 res" where
  "hex4_loop v [] = Ok v"
| "hex4_loop v (c # cs) =
     (case hex_digit c of
        None \<Rightarrow> jerr (''json: bad '' @ [CHR 0x5C] @ ''u digit'')
      | Some d \<Rightarrow> hex4_loop (v * 16 + of_nat d) cs)"

definition hex4 :: "string \<Rightarrow> nat \<Rightarrow> u16 res" where
  "hex4 b p = (if p + 4 > length b then jerr (''json: bad '' @ [CHR 0x5C] @ ''u escape'')
               else hex4_loop 0 (take 4 (drop p b)))"

function raw_end :: "string \<Rightarrow> nat \<Rightarrow> nat" where
  "raw_end b p = (if p < length b \<and> b ! p \<noteq> CHR 0x22 \<and> b ! p \<noteq> CHR 0x5C then raw_end b (Suc p) else p)"
  by pat_completeness auto
termination
  by (relation "measure (\<lambda>(b, p). length b - p)") auto

declare raw_end.simps [simp del]

lemma raw_end_ge: "p \<le> raw_end b p"
  by (induction b p rule: raw_end.induct) (subst raw_end.simps, auto)

lemma raw_end_gt:
  "p < length b \<Longrightarrow> b ! p \<noteq> CHR 0x22 \<Longrightarrow> b ! p \<noteq> CHR 0x5C \<Longrightarrow> p < raw_end b p"
  using raw_end_ge [of "Suc p" b] by (subst raw_end.simps) auto

text \<open>\<open>\uXXXX\<close>: the character, or U+FFFD for a surrogate.\<close>

definition unicode_escape :: "u16 \<Rightarrow> string" where
  "unicode_escape cp = (case char_from_u32 (unat cp) of Some c \<Rightarrow> c | None \<Rightarrow> encode_utf8 65533)"

text \<open>What a backslash at \<open>p - 1\<close> stands for, and the position of its last byte.\<close>

definition parse_escape :: "string \<Rightarrow> nat \<Rightarrow> (string \<times> nat) res" where
  "parse_escape b p =
     (case get_at b p of
        None \<Rightarrow> jerr ''json: bad escape''
      | Some c \<Rightarrow>
          if c = CHR 0x22 then Ok ([CHR 0x22], p)
          else if c = CHR 0x5C then Ok ([CHR 0x5C], p)
          else if c = CHR ''/'' then Ok (''/'', p)
          else if c = CHR ''n'' then Ok ([char_of (10::nat)], p)
          else if c = CHR ''t'' then Ok ([char_of (9::nat)], p)
          else if c = CHR ''r'' then Ok ([char_of (13::nat)], p)
          else if c = CHR ''b'' then Ok ([char_of (8::nat)], p)
          else if c = CHR ''f'' then Ok ([char_of (12::nat)], p)
          else if c = CHR ''u'' then bindR (hex4 b (p + 1)) (\<lambda>cp. Ok (unicode_escape cp, p + 4))
          else jerr ''json: bad escape'')"

lemma parse_escape_ge: "parse_escape b p = Ok (s, q) \<Longrightarrow> p \<le> q"
  by (auto simp: parse_escape_def jerr_def bindR_eq_Ok split: option.splits if_splits)

function parse_string_loop :: "string \<Rightarrow> nat \<Rightarrow> string \<Rightarrow> (string \<times> nat) res" where
  "parse_string_loop b p out =
     (if p < length b then
        (if b ! p = CHR 0x22 then Ok (out, p + 1)
         else if b ! p = CHR 0x5C then
           bindR (parse_escape b (p + 1)) (\<lambda>(s, q). parse_string_loop b (q + 1) (out @ s))
         else (let q = raw_end b p; run = take (q - p) (drop p b) in
               if valid_utf8 run then parse_string_loop b q (out @ run)
               else jerr ''json: bad utf-8''))
      else jerr ''json: unterminated string'')"
  by pat_completeness auto
termination
  by (relation "measure (\<lambda>(b, p, out). length b - p)")
     (auto dest: parse_escape_ge intro: diff_less_mono2 raw_end_gt)

declare parse_string_loop.simps [simp del]

definition parse_string :: "string \<Rightarrow> nat \<Rightarrow> (string \<times> nat) res" where
  "parse_string b p = parse_string_loop b (p + 1) []"

text \<open>A scalar at \<open>p\<close>, and the position after it.\<close>

definition parse_number_token :: "string \<Rightarrow> val res" where
  "parse_number_token tok =
     (if \<not> valid_utf8 tok then jerr ''json: bad number''
      else if list_ex (\<lambda>c. c = CHR ''.'' \<or> c = CHR ''e'' \<or> c = CHR ''E'') tok
      then ok_or (map_option VFloat (parse_f64 tok)) (TypeErr ''json: bad float'')
      else ok_or (map_option VInt (parse_i64 tok)) (TypeErr ''json: bad integer''))"

definition parse_scalar :: "string \<Rightarrow> nat \<Rightarrow> (val \<times> nat) res" where
  "parse_scalar b p =
     (case get_at b p of
        None \<Rightarrow> jerr ''json: unexpected end''
      | Some c \<Rightarrow>
          if c = CHR 0x22 then bindR (parse_string b p) (\<lambda>(s, np). Ok (VStr s, np))
          else if c = CHR ''t'' then Ok (VBool True, p + 4)
          else if c = CHR ''f'' then Ok (VBool False, p + 5)
          else if c = CHR ''n'' then jerr ''json: value is null''
          else if c = CHR ''{'' \<or> c = CHR ''['' then
            jerr ''json: path leads to an object/array, not a scalar''
          else (let q = skip_token b p in
                bindR (parse_number_token (take (q - p) (drop p b))) (\<lambda>v. Ok (v, q))))"

text \<open>Every scanner moves forward and stays in the text.\<close>

lemma skip_ws_ge: "p \<le> skip_ws b p"
  by (induction b p rule: skip_ws.induct) (subst skip_ws.simps, auto)

lemma skip_token_ge: "p \<le> skip_token b p"
  by (induction b p rule: skip_token.induct) (subst skip_token.simps, auto)

lemma raw_end_le: "p \<le> length b \<Longrightarrow> raw_end b p \<le> length b"
  by (induction b p rule: raw_end.induct) (subst raw_end.simps, auto)

lemma parse_string_loop_bounds:
  "parse_string_loop b p out = Ok (s, q) \<Longrightarrow> p < q \<and> q \<le> length b"
proof (induction b p out rule: parse_string_loop.induct)
  case (1 b p out)
  show ?case
  proof (cases "p < length b \<and> b ! p \<noteq> CHR 0x22")
    case False
    with "1.prems" show ?thesis
      by (subst (asm) parse_string_loop.simps) (auto simp: jerr_def split: if_splits)
  next
    case inside: True
    show ?thesis
    proof (cases "b ! p = CHR 0x5C")
      case True
      with "1.prems" inside obtain e r where e: "parse_escape b (p + 1) = Ok (e, r)"
        and l: "parse_string_loop b (r + 1) (out @ e) = Ok (s, q)"
        by (subst (asm) parse_string_loop.simps) (auto simp: bindR_eq_Ok)
      from "1.IH"(1) [OF _ _ True e refl l] inside parse_escape_ge [OF e] show ?thesis by simp
    next
      case False
      with "1.prems" inside
      have l: "parse_string_loop b (raw_end b p) (out @ take (raw_end b p - p) (drop p b)) = Ok (s, q)"
        and v: "valid_utf8 (take (raw_end b p - p) (drop p b))"
        by (subst (asm) parse_string_loop.simps, auto simp: Let_def jerr_def split: if_splits)+
      from "1.IH"(2) [OF _ _ False refl refl v l] inside raw_end_ge [of p b] show ?thesis by simp
    qed
  qed
qed

lemma parse_string_bounds: "parse_string b p = Ok (s, q) \<Longrightarrow> p + 1 < q \<and> q \<le> length b"
  by (auto simp: parse_string_def dest: parse_string_loop_bounds)

lemma skip_container_bounds: "skip_container b q d = Ok r \<Longrightarrow> q < r \<and> r \<le> length b"
proof (induction "length b - q" arbitrary: q d rule: less_induct)
  case less
  have IH: "q < r \<and> r \<le> length b" if "skip_container b q' d' = Ok r" "q < q'" "q < length b" for q' d'
    using less.hyps [OF diff_less_mono2 [OF that(2,3)] that(1)] that(2) by simp
  from less.prems have q: "q < length b"
    by (subst (asm) skip_container.simps) (auto simp: jerr_def split: if_splits)
  from less.prems q
  have "(\<exists>q'. skip_string_raw b q = Ok q' \<and> skip_container b q' d = Ok r)
    \<or> r = q + 1 \<or> (\<exists>d'. skip_container b (q + 1) d' = Ok r)"
    by (subst (asm) skip_container.simps) (auto simp: Let_def bindR_eq_Ok split: if_splits)
  then show ?case
  proof (elim disjE exE conjE)
    fix q' assume "skip_string_raw b q = Ok q'" and c: "skip_container b q' d = Ok r"
    then have "q < q'" by (auto dest: skip_string_raw_bounds)
    from c this q show ?thesis by (rule IH)
  next
    fix d' assume "skip_container b (q + 1) d' = Ok r"
    from this _ q show ?thesis by (rule IH) simp
  qed (use q in auto)
qed

lemma skip_value_ge: "skip_value b p = Ok q \<Longrightarrow> p \<le> q"
  using skip_ws_ge [of p b] skip_token_ge [of "skip_ws b p" b]
  by (auto simp: skip_value_def Let_def jerr_def split: option.splits if_splits
           dest: skip_container_bounds skip_string_raw_bounds)

text \<open>The member loop of \<open>enter_object\<close>, from a position past \<open>{\<close> or a comma.\<close>

function object_loop :: "string \<Rightarrow> nat \<Rightarrow> string \<Rightarrow> nat res" where
  "object_loop b p0 key =
     (let p = skip_ws b p0 in
      if p \<ge> length b then jerr ''json: unterminated object''
      else if b ! p = CHR ''}'' then jerr ''json: key not found''
      else if b ! p \<noteq> CHR 0x22 then jerr ''json: expected a key string''
      else bindR (parse_string b p) (\<lambda>(k, np).
        (let p1 = skip_ws b np in
         if p1 \<ge> length b \<or> b ! p1 \<noteq> CHR '':'' then jerr (''json: expected '' @ [CHR 0x27, CHR '':'', CHR 0x27])
         else (let p2 = skip_ws b (p1 + 1) in
           if k = key then Ok p2
           else bindR (skip_value b p2) (\<lambda>v.
             (let p3 = skip_ws b v in
              case get_at b p3 of
                Some c \<Rightarrow> if c = CHR '','' then object_loop b (p3 + 1) key
                          else if c = CHR ''}'' then jerr ''json: key not found''
                          else jerr ''json: malformed object''
              | None \<Rightarrow> jerr ''json: malformed object''))))))"
  by pat_completeness auto
termination
proof (relation "measure (\<lambda>(b, p, k). length b - p)", simp, goal_cases)
  case (1 b p0 key p kn k np p1 p2 v p3 c)
  have "p0 \<le> p" using 1 skip_ws_ge by simp
  moreover have "p + 1 < np" using 1 by (auto dest: parse_string_bounds)
  moreover have "np \<le> p1" using 1 skip_ws_ge by simp
  moreover have "p1 + 1 \<le> p2" using 1 skip_ws_ge by simp
  moreover have "p2 \<le> v" using 1 by (auto dest: skip_value_ge)
  moreover have "v \<le> p3" using 1 skip_ws_ge by simp
  moreover have "p3 < length b" using 1 by (simp add: get_at_def split: if_splits)
  ultimately show ?case by simp
qed

declare object_loop.simps [simp del]

definition enter_object :: "string \<Rightarrow> nat \<Rightarrow> string \<Rightarrow> nat res" where
  "enter_object b p key = object_loop b (p + 1) key"

text \<open>The element loop of \<open>enter_array\<close>, at element \<open>i\<close>.\<close>

function array_loop :: "string \<Rightarrow> nat \<Rightarrow> nat \<Rightarrow> nat \<Rightarrow> nat res" where
  "array_loop b p0 i target =
     (let p = skip_ws b p0 in
      if p \<ge> length b then jerr ''json: unterminated array''
      else if b ! p = CHR '']'' then jerr ''json: array index out of range''
      else if i = target then Ok p
      else bindR (skip_value b p) (\<lambda>v.
        (let p1 = skip_ws b v in
         case get_at b p1 of
           Some c \<Rightarrow> if c = CHR '','' then array_loop b (p1 + 1) (i + 1) target
                     else if c = CHR '']'' then jerr ''json: array index out of range''
                     else jerr ''json: malformed array''
         | None \<Rightarrow> jerr ''json: malformed array'')))"
  by pat_completeness auto
termination
proof (relation "measure (\<lambda>(b, p, i, n). length b - p)", simp, goal_cases)
  case (1 b p0 i target p v p1 c)
  have "p0 \<le> p" using 1 skip_ws_ge by simp
  moreover have "p \<le> v" using 1 by (auto dest: skip_value_ge)
  moreover have "v \<le> p1" using 1 skip_ws_ge by simp
  moreover have "p1 < length b" using 1 by (simp add: get_at_def split: if_splits)
  ultimately show ?case by simp
qed

declare array_loop.simps [simp del]

definition enter_array :: "target \<Rightarrow> string \<Rightarrow> nat \<Rightarrow> string \<Rightarrow> nat res" where
  "enter_array t b p idx_str =
     (case parse_usize t idx_str of
        None \<Rightarrow> jerr ''json: array index not a number''
      | Some target \<Rightarrow> array_loop b (p + 1) 0 target)"

definition enter :: "target \<Rightarrow> string \<Rightarrow> nat \<Rightarrow> string \<Rightarrow> nat res" where
  "enter t b p part =
     (if p \<ge> length b then jerr ''json: unexpected end''
      else if b ! p = CHR ''{'' then enter_object b p part
      else if b ! p = CHR ''['' then enter_array t b p part
      else jerr ''json: cannot index a scalar with a path component'')"

fun enter_path :: "target \<Rightarrow> string \<Rightarrow> nat \<Rightarrow> string list \<Rightarrow> nat res" where
  "enter_path t b p [] = Ok p"
| "enter_path t b p (part # parts) =
     bindR (enter t b p part) (\<lambda>q. enter_path t b (skip_ws b q) parts)"

definition json_get :: "target \<Rightarrow> string \<Rightarrow> string \<Rightarrow> val res" where
  "json_get t text path =
     bindR (if path = [] then Ok (skip_ws text 0)
            else enter_path t text (skip_ws text 0) (split_on CHR ''.'' path))
       (\<lambda>p. bindR (parse_scalar text p) (\<lambda>(v, q). Ok v))"

section \<open>No panic\<close>

lemma jerr_simps [simp]: "jerr m \<noteq> Panic" "jerr m \<noteq> Ok v" "mild c (jerr m)"
  by (simp_all add: jerr_def)

lemma skip_string_loop_mild: "mild c (skip_string_loop b p)"
  by (induction b p rule: skip_string_loop.induct) (subst skip_string_loop.simps, auto)

lemma skip_string_raw_mild [simp]: "mild c (skip_string_raw b p)"
  by (simp add: skip_string_raw_def skip_string_loop_mild)

lemma skip_container_mild [simp]: "mild c (skip_container b q d)"
  by (induction b q d rule: skip_container.induct)
     (subst skip_container.simps, auto simp: Let_def intro!: mild_intros)

lemma skip_value_mild [simp]: "mild c (skip_value b p)"
  by (simp add: skip_value_def Let_def split: option.split)

lemma hex4_loop_mild [simp]: "mild c (hex4_loop v s)"
  by (induction v s rule: hex4_loop.induct) (auto split: option.split)

lemma parse_escape_mild [simp]: "mild c (parse_escape b p)"
  by (simp add: parse_escape_def hex4_def mild_intros split: option.split)

lemma parse_string_loop_mild [simp]: "mild c (parse_string_loop b p out)"
  by (induction b p out rule: parse_string_loop.induct)
     (subst parse_string_loop.simps, auto simp: Let_def intro!: mild_intros)

lemma parse_string_mild [simp]: "mild c (parse_string b p)"
  by (simp add: parse_string_def)

lemma object_loop_mild [simp]: "mild c (object_loop b p k)"
  by (induction b p k rule: object_loop.induct)
     (subst object_loop.simps, auto simp: Let_def intro!: mild_intros split: option.split)

lemma array_loop_mild [simp]: "mild c (array_loop b p i n)"
  by (induction b p i n rule: array_loop.induct)
     (subst array_loop.simps, auto simp: Let_def intro!: mild_intros split: option.split)

lemma enter_mild [simp]: "mild c (enter t b p k)"
  by (simp add: enter_def enter_object_def enter_array_def split: option.split)

lemma enter_path_mild [simp]: "mild c (enter_path t b p ks)"
  by (induction t b p ks rule: enter_path.induct) (auto intro!: mild_intros)

lemma parse_scalar_mild [simp]: "mild c (parse_scalar b p)"
  by (simp add: parse_scalar_def parse_number_token_def Let_def split_beta mild_intros split: option.split)

lemma json_get_mild [simp]: "mild c (json_get t text path)"
  by (simp add: json_get_def split_beta mild_intros)

end
