(* ===== verification/EvalOps.thy ===== *)
theory EvalOps
  imports Json
begin

text \<open>
  The value helpers and builtins of \<open>eval.rs\<close>: everything the evaluator does to values it
  has already computed. Host capabilities are parameters acting on a world \<open>'w\<close>.
\<close>

section \<open>Capabilities\<close>

type_synonym 'w display = "string \<Rightarrow> 'w \<Rightarrow> (dsl_error + unit) \<times> 'w"

record 'w actuator =
  act_led :: "bool \<Rightarrow> (u8 \<times> u8 \<times> u8) option \<Rightarrow> 'w \<Rightarrow> (dsl_error + unit) \<times> 'w"
  act_flash :: "'w \<Rightarrow> (dsl_error + unit) \<times> 'w"

record 'w net =
  net_fetch :: "string \<Rightarrow> 'w \<Rightarrow> (dsl_error + string) \<times> 'w"
  net_fetch_extract :: "string \<Rightarrow> (string \<Rightarrow> val option) \<Rightarrow> 'w \<Rightarrow> (dsl_error + val) \<times> 'w"

text \<open>The default method of the trait: fetch the whole body, then probe once.\<close>

definition default_fetch_extract ::
  "(string \<Rightarrow> 'w \<Rightarrow> (dsl_error + string) \<times> 'w) \<Rightarrow> string \<Rightarrow> (string \<Rightarrow> val option) \<Rightarrow> 'w
     \<Rightarrow> (dsl_error + val) \<times> 'w"
where
  "default_fetch_extract fetch url probe w =
     (case fetch url w of
        (Inl e, w') \<Rightarrow> (Inl e, w')
      | (Inr bdy, w') \<Rightarrow> (case probe bdy of
            Some v \<Rightarrow> (Inr v, w')
          | None \<Rightarrow> (Inl (NetErr ''field not found in response''), w')))"

definition color_rgb :: "string \<Rightarrow> (u8 \<times> u8 \<times> u8) option" where
  "color_rgb name =
     (let n = to_ascii_lowercase (trim name) in
      if n = ''red'' then Some (255, 0, 0)
      else if n = ''green'' then Some (0, 255, 0)
      else if n = ''blue'' then Some (0, 0, 255)
      else if n = ''white'' then Some (255, 255, 255)
      else if n = ''yellow'' then Some (255, 255, 0)
      else if n = ''cyan'' then Some (0, 255, 255)
      else if n = ''magenta'' \<or> n = ''pink'' then Some (255, 0, 255)
      else if n = ''orange'' then Some (255, 90, 0)
      else if n = ''purple'' \<or> n = ''violet'' then Some (140, 0, 255)
      else if n = ''off'' \<or> n = ''black'' then Some (0, 0, 0)
      else None)"

section \<open>Value helpers\<close>

definition terr :: "string \<Rightarrow> 'a res" where
  "terr m = Err (TypeErr m)"

lemma terr_simps [simp]: "terr m \<noteq> Ok v" "terr m \<noteq> Panic"
  by (simp_all add: terr_def)

fun as_bool :: "val \<Rightarrow> bool res" where
  "as_bool (VBool b) = Ok b"
| "as_bool (VInt n) = Ok (n \<noteq> 0)"
| "as_bool (VFloat x) = Ok (\<not> feq x (fzero binary64))"
| "as_bool (VStr s) = Ok (s \<noteq> [])"
| "as_bool (VList l) = Ok (l \<noteq> [])"

definition fone :: fl where
  "fone = f_of_int binary64 1"

fun as_f64 :: "val \<Rightarrow> fl res" where
  "as_f64 (VInt n) = Ok (f64_of_i64 n)"
| "as_f64 (VFloat x) = Ok x"
| "as_f64 (VBool b) = Ok (if b then fone else fzero binary64)"
| "as_f64 (VStr s) = ok_or (parse_f64 (trim s)) (TypeErr ''expected a number, got a non-numeric string'')"
| "as_f64 (VList l) = terr ''expected a number, got a list''"

fun join :: "string \<Rightarrow> string list \<Rightarrow> string" where
  "join sep [] = []"
| "join sep [x] = x"
| "join sep (x # y # xs) = x @ sep @ join sep (y # xs)"

fun to_str :: "val \<Rightarrow> string" where
  "to_str (VInt n) = show_i64 n"
| "to_str (VFloat x) = show_f64 x"
| "to_str (VBool b) = (if b then ''true'' else ''false'')"
| "to_str (VStr s) = s"
| "to_str (VList l) = ''['' @ join '', '' (map to_str l) @ '']''"

fun is_str :: "val \<Rightarrow> bool" where
  "is_str (VStr s) = True"
| "is_str _ = False"

fun int_binop :: "bin_op \<Rightarrow> i64 \<Rightarrow> i64 \<Rightarrow> val res" where
  "int_binop AddOp x y = Ok (VInt (x + y))"
| "int_binop SubOp x y = Ok (VInt (x - y))"
| "int_binop MulOp x y = Ok (VInt (x * y))"
| "int_binop DivOp x y =
     (if y = 0 then terr ''division by zero'' else bindR (div_i64 x y) (\<lambda>q. Ok (VInt q)))"
| "int_binop RemOp x y =
     (if y = 0 then terr ''modulo by zero'' else bindR (rem_i64 x y) (\<lambda>r. Ok (VInt r)))"

fun float_binop :: "bin_op \<Rightarrow> fl \<Rightarrow> fl \<Rightarrow> fl" where
  "float_binop AddOp x y = fadd binary64 x y"
| "float_binop SubOp x y = fsub binary64 x y"
| "float_binop MulOp x y = fmul binary64 x y"
| "float_binop DivOp x y = fdiv binary64 x y"
| "float_binop RemOp x y = frem binary64 x y"

definition num_binop :: "bin_op \<Rightarrow> val \<Rightarrow> val \<Rightarrow> val res" where
  "num_binop op a b =
     (if op = AddOp \<and> (is_str a \<or> is_str b) then Ok (VStr (to_str a @ to_str b))
      else (case (a, b) of
          (VInt x, VInt y) \<Rightarrow> int_binop op x y
        | _ \<Rightarrow> bindR (as_f64 a) (\<lambda>x. bindR (as_f64 b) (\<lambda>y. Ok (VFloat (float_binop op x y))))))"

text \<open>\<open>Ord for str\<close>: lexicographic on the bytes.\<close>

fun str_lt :: "string \<Rightarrow> string \<Rightarrow> bool" where
  "str_lt _ [] = False"
| "str_lt [] (_ # _) = True"
| "str_lt (c # cs) (d # ds) = (byte c < byte d \<or> (c = d \<and> str_lt cs ds))"

definition str_cmp :: "cmp_op \<Rightarrow> string \<Rightarrow> string \<Rightarrow> bool" where
  "str_cmp op x y = (case op of
       CEq \<Rightarrow> x = y | CNe \<Rightarrow> x \<noteq> y | CLt \<Rightarrow> str_lt x y | CLe \<Rightarrow> str_lt x y \<or> x = y
     | CGt \<Rightarrow> str_lt y x | CGe \<Rightarrow> str_lt y x \<or> x = y)"

definition float_cmp :: "cmp_op \<Rightarrow> fl \<Rightarrow> fl \<Rightarrow> bool" where
  "float_cmp op x y = (case op of
       CEq \<Rightarrow> feq x y | CNe \<Rightarrow> \<not> feq x y | CLt \<Rightarrow> flt x y | CLe \<Rightarrow> fle x y
     | CGt \<Rightarrow> flt y x | CGe \<Rightarrow> fle y x)"

definition compare :: "cmp_op \<Rightarrow> val \<Rightarrow> val \<Rightarrow> bool res" where
  "compare op a b = (case (a, b) of
       (VBool x, VBool y) \<Rightarrow> (case op of
            CEq \<Rightarrow> Ok (x = y) | CNe \<Rightarrow> Ok (x \<noteq> y)
          | _ \<Rightarrow> terr ''booleans support only == and !='')
     | (VStr x, VStr y) \<Rightarrow> Ok (str_cmp op x y)
     | _ \<Rightarrow> bindR (as_f64 a) (\<lambda>x. bindR (as_f64 b) (\<lambda>y. Ok (float_cmp op x y))))"

definition index_val :: "val \<Rightarrow> val \<Rightarrow> val res" where
  "index_val l idx = (case l of
       VList items \<Rightarrow> (case idx of
           VInt n \<Rightarrow>
             (let i = sint n; len = int (length items); real = (if i < 0 then len + i else i) in
              if real < 0 \<or> len \<le> real then terr ''list index out of range''
              else Ok (items ! nat real))
         | _ \<Rightarrow> terr ''list index must be an integer'')
     | _ \<Rightarrow> terr ''cannot index a non-list'')"

definition expect_str :: "val \<Rightarrow> string \<Rightarrow> string res" where
  "expect_str v m = (case v of VStr s \<Rightarrow> Ok s | _ \<Rightarrow> terr m)"

text \<open>
  The streaming probe of \<open>fetch_json\<close>: the scalar at the path in the bytes received so far,
  cut back to whole characters.
\<close>

definition json_probe :: "target \<Rightarrow> string \<Rightarrow> string \<Rightarrow> val option" where
  "json_probe t path buf =
     (case json_get t (take (valid_up_to buf) buf) path of Ok v \<Rightarrow> Some v | _ \<Rightarrow> None)"

section \<open>Builtins\<close>

fun builtin_name :: "builtin \<Rightarrow> string" where
  "builtin_name BLen = ''len''"
| "builtin_name BAbs = ''abs''"
| "builtin_name BMin = ''min''"
| "builtin_name BMax = ''max''"
| "builtin_name BSum = ''sum''"
| "builtin_name BAny = ''any''"
| "builtin_name BAll = ''all''"
| "builtin_name BRound = ''round''"
| "builtin_name BInt = ''int''"
| "builtin_name BFloat = ''float''"
| "builtin_name BBool = ''bool''"
| "builtin_name BContains = ''contains''"
| "builtin_name BIndexOf = ''index''"
| "builtin_name BBefore = ''before''"
| "builtin_name BFirst = ''first''"
| "builtin_name BLast = ''last''"
| "builtin_name BStr = ''str''"
| "builtin_name BJsonGet = ''json_get''"
| "builtin_name BFetch = ''fetch''"
| "builtin_name BFetchJson = ''fetch_json''"
| "builtin_name BShow = ''show''"
| "builtin_name BPrint = ''print''"
| "builtin_name BLed = ''led''"
| "builtin_name BFlash = ''flash''"
| "builtin_name BUpper = ''upper''"
| "builtin_name BLower = ''lower''"
| "builtin_name BReverse = ''reverse''"

definition libm_abs :: "fl \<Rightarrow> fl" where
  "libm_abs x = (if flt x (fzero binary64) then fneg x else x)"

definition fhalf :: fl where
  "fhalf = fdiv binary64 fone (f_of_int binary64 2)"

definition round_half_away :: "fl \<Rightarrow> fl" where
  "round_half_away x =
     (if fle (fzero binary64) x then f64_of_i64 (f64_to_i64 (fadd binary64 x fhalf))
      else fneg (f64_of_i64 (f64_to_i64 (fadd binary64 (fneg x) fhalf))))"

text \<open>A builtin of one argument: the arity check every such branch starts with.\<close>

definition arity1 :: "builtin \<Rightarrow> val list \<Rightarrow> (val \<Rightarrow> 'a res) \<Rightarrow> 'a res" where
  "arity1 b vals k = (case vals of [v] \<Rightarrow> k v | _ \<Rightarrow> Err (ArityErr (builtin_name b) (length vals)))"

definition arity2 :: "builtin \<Rightarrow> val list \<Rightarrow> (val \<Rightarrow> val \<Rightarrow> 'a res) \<Rightarrow> 'a res" where
  "arity2 b vals k = (case vals of [v, w] \<Rightarrow> k v w | _ \<Rightarrow> Err (ArityErr (builtin_name b) (length vals)))"

definition arity3 :: "builtin \<Rightarrow> val list \<Rightarrow> (val \<Rightarrow> val \<Rightarrow> val \<Rightarrow> 'a res) \<Rightarrow> 'a res" where
  "arity3 b vals k = (case vals of [u, v, w] \<Rightarrow> k u v w | _ \<Rightarrow> Err (ArityErr (builtin_name b) (length vals)))"

definition bi_len :: "val list \<Rightarrow> val res" where
  "bi_len vals = arity1 BLen vals (\<lambda>v. case v of
       VList l \<Rightarrow> Ok (VInt (of_nat (length l)))
     | VStr s \<Rightarrow> Ok (VInt (of_nat (length (utf8_chars s))))
     | _ \<Rightarrow> terr ''len() expects a list or string'')"

definition bi_abs :: "target \<Rightarrow> val list \<Rightarrow> val res" where
  "bi_abs t vals = arity1 BAbs vals (\<lambda>v. case v of
       VInt n \<Rightarrow> bindR (abs_i64 t n) (\<lambda>m. Ok (VInt m))
     | VFloat x \<Rightarrow> Ok (VFloat (libm_abs x))
     | _ \<Rightarrow> terr ''abs() expects a number'')"

definition bi_round :: "val list \<Rightarrow> val res" where
  "bi_round vals = arity1 BRound vals (\<lambda>v. bindR (as_f64 v) (\<lambda>x. Ok (VInt (f64_to_i64 (round_half_away x)))))"

definition bi_int :: "val list \<Rightarrow> val res" where
  "bi_int vals = arity1 BInt vals (\<lambda>v. bindR (as_f64 v) (\<lambda>x. Ok (VInt (f64_to_i64 x))))"

definition bi_float :: "val list \<Rightarrow> val res" where
  "bi_float vals = arity1 BFloat vals (\<lambda>v. bindR (as_f64 v) (\<lambda>x. Ok (VFloat x)))"

definition bi_bool :: "val list \<Rightarrow> val res" where
  "bi_bool vals = arity1 BBool vals (\<lambda>v. bindR (as_bool v) (\<lambda>b. Ok (VBool b)))"

definition single_list :: "val list \<Rightarrow> string \<Rightarrow> val list res" where
  "single_list vals name = (case vals of
       [v] \<Rightarrow> (case v of VList l \<Rightarrow> Ok l | _ \<Rightarrow> terr (name @ ''() expects a list''))
     | _ \<Rightarrow> Err (ArityErr name (length vals)))"

definition list_of :: "val \<Rightarrow> string \<Rightarrow> val list res" where
  "list_of v name = (case v of VList l \<Rightarrow> Ok l
     | _ \<Rightarrow> terr (name @ ''() expects a list as its first argument''))"

text \<open>\<open>sum\<close>: integers and floats are accumulated apart.\<close>

fun sum_loop :: "target \<Rightarrow> i64 \<Rightarrow> fl \<Rightarrow> bool \<Rightarrow> val list \<Rightarrow> val res" where
  "sum_loop t int_acc float_acc any_float [] =
     Ok (if any_float then VFloat (fadd binary64 float_acc (f64_of_i64 int_acc)) else VInt int_acc)"
| "sum_loop t int_acc float_acc any_float (v # vs) =
     (case v of
        VInt n \<Rightarrow> bindR (add_i64 t int_acc n) (\<lambda>acc. sum_loop t acc float_acc any_float vs)
      | VFloat x \<Rightarrow> sum_loop t int_acc (fadd binary64 float_acc x) True vs
      | _ \<Rightarrow> terr ''sum() expects a list of numbers'')"

definition bi_sum :: "target \<Rightarrow> val list \<Rightarrow> val res" where
  "bi_sum t vals = bindR (single_list vals (builtin_name BSum)) (sum_loop t 0 (fzero binary64) False)"

fun any_loop :: "val list \<Rightarrow> val res" where
  "any_loop [] = Ok (VBool False)"
| "any_loop (v # vs) = bindR (as_bool v) (\<lambda>b. if b then Ok (VBool True) else any_loop vs)"

definition bi_any :: "val list \<Rightarrow> val res" where
  "bi_any vals = bindR (single_list vals (builtin_name BAny)) any_loop"

fun all_loop :: "val list \<Rightarrow> val res" where
  "all_loop [] = Ok (VBool True)"
| "all_loop (v # vs) = bindR (as_bool v) (\<lambda>b. if \<not> b then Ok (VBool False) else all_loop vs)"

definition bi_all :: "val list \<Rightarrow> val res" where
  "bi_all vals = bindR (single_list vals (builtin_name BAll)) all_loop"

definition num_matches :: "fl \<Rightarrow> val \<Rightarrow> bool" where
  "num_matches needle v = (case as_f64 v of Ok x \<Rightarrow> feq x needle | _ \<Rightarrow> False)"

definition bi_contains :: "val list \<Rightarrow> val res" where
  "bi_contains vals = arity2 BContains vals (\<lambda>l x.
     (case l of
        VList items \<Rightarrow> bindR (as_f64 x) (\<lambda>needle. Ok (VBool (list_ex (num_matches needle) items)))
      | _ \<Rightarrow> terr ''contains expects a list''))"

text \<open>\<open>position_of\<close>: the index of the first item numerically equal to the needle.\<close>

fun position_from :: "nat \<Rightarrow> val list \<Rightarrow> fl \<Rightarrow> nat option" where
  "position_from i [] needle = None"
| "position_from i (v # vs) needle = (if num_matches needle v then Some i else position_from (Suc i) vs needle)"

definition position_of :: "val list \<Rightarrow> fl \<Rightarrow> nat option" where
  "position_of items needle = position_from 0 items needle"

definition bi_index :: "val list \<Rightarrow> val res" where
  "bi_index vals = arity2 BIndexOf vals (\<lambda>l x.
     bindR (list_of l ''index'') (\<lambda>items. bindR (as_f64 x) (\<lambda>needle.
       Ok (VInt (case position_of items needle of Some i \<Rightarrow> of_nat i | None \<Rightarrow> -1)))))"

definition bi_before :: "val list \<Rightarrow> val res" where
  "bi_before vals = arity3 BBefore vals (\<lambda>l x y.
     bindR (list_of l ''before'') (\<lambda>items. bindR (as_f64 x) (\<lambda>a. bindR (as_f64 y) (\<lambda>b.
       Ok (VBool (case (position_of items a, position_of items b) of
             (Some ia, Some ib) \<Rightarrow> ia < ib
           | _ \<Rightarrow> False))))))"

definition bi_first :: "val list \<Rightarrow> val res" where
  "bi_first vals = bindR (single_list vals ''first'')
     (\<lambda>items. Ok (case items of [] \<Rightarrow> VInt (-1) | v # _ \<Rightarrow> v))"

definition bi_last :: "val list \<Rightarrow> val res" where
  "bi_last vals = bindR (single_list vals ''last'')
     (\<lambda>items. Ok (if items = [] then VInt (-1) else last items))"

definition bi_str :: "val list \<Rightarrow> val res" where
  "bi_str vals = arity1 BStr vals (\<lambda>v. Ok (VStr (to_str v)))"

definition bi_json_get :: "target \<Rightarrow> val list \<Rightarrow> val res" where
  "bi_json_get t vals = arity2 BJsonGet vals (\<lambda>x y.
     (case x of
        VStr text \<Rightarrow> (case y of
            VStr path \<Rightarrow> json_get t text path
          | _ \<Rightarrow> terr ''json_get() expects a path string as 2nd arg'')
      | _ \<Rightarrow> terr ''json_get() expects a string as 1st arg''))"

definition bi_print :: "val list \<Rightarrow> val res" where
  "bi_print vals = (case vals of [v] \<Rightarrow> Ok v | _ \<Rightarrow> Ok (VStr (join '' '' (map to_str vals))))"

definition bi_case :: "target \<Rightarrow> builtin \<Rightarrow> val list \<Rightarrow> val res" where
  "bi_case t b vals = arity1 b vals (\<lambda>v. bindR (expect_str v (builtin_name b))
     (\<lambda>s. Ok (VStr (if b = BUpper then to_uppercase t s else to_lowercase t s))))"

definition bi_reverse :: "val list \<Rightarrow> val res" where
  "bi_reverse vals = arity1 BReverse vals (\<lambda>v. case v of
       VStr s \<Rightarrow> Ok (VStr (concat (rev (utf8_chars s))))
     | VList l \<Rightarrow> Ok (VList (rev l))
     | _ \<Rightarrow> terr (builtin_name BReverse @ ''() expects a string or list''))"

text \<open>\<open>min\<close> and \<open>max\<close>: the first item that no later one beats numerically.\<close>

fun minmax_loop :: "builtin \<Rightarrow> val \<Rightarrow> fl \<Rightarrow> val list \<Rightarrow> val res" where
  "minmax_loop b best best_f [] = Ok best"
| "minmax_loop b best best_f (v # vs) = bindR (as_f64 v) (\<lambda>x.
     if (if b = BMin then flt x best_f else flt best_f x) then minmax_loop b v x vs
     else minmax_loop b best best_f vs)"

definition reduce_minmax :: "builtin \<Rightarrow> val list \<Rightarrow> string \<Rightarrow> val res" where
  "reduce_minmax b vals name =
     bindR (case vals of
         [] \<Rightarrow> Err (ArityErr name (length vals))
       | [v] \<Rightarrow> (case v of VList l \<Rightarrow> Ok l | _ \<Rightarrow> terr (name @ ''() of a single non-list''))
       | _ \<Rightarrow> Ok vals)
     (\<lambda>items. case items of
         [] \<Rightarrow> terr (name @ ''() of an empty list'')
       | best # rest \<Rightarrow> bindR (as_f64 best) (\<lambda>best_f. minmax_loop b best best_f rest))"

text \<open>The builtins that reach a capability: the call is made, then its result is checked.\<close>

definition bi_show :: "'w display option \<Rightarrow> val list \<Rightarrow> 'w \<Rightarrow> val res \<times> 'w" where
  "bi_show display vals w = (case vals of
       [v] \<Rightarrow> (case display of
           Some d \<Rightarrow> (case d (to_str v) w of
               (Inr u, w') \<Rightarrow> (Ok v, w')
             | (Inl e, w') \<Rightarrow> (Err e, w'))
         | None \<Rightarrow> (Err (DisplayErr ''no display capability installed''), w))
     | _ \<Rightarrow> (Err (ArityErr (builtin_name BShow) (length vals)), w))"

definition led_args :: "val \<Rightarrow> (bool \<times> (u8 \<times> u8 \<times> u8) option) res" where
  "led_args v = (case v of
       VStr s \<Rightarrow> (case color_rgb s of
           Some rgb \<Rightarrow> Ok (if rgb = (0, 0, 0) then (False, None) else (True, Some rgb))
         | None \<Rightarrow> terr (''unknown colour `'' @ s @ ''`''))
     | _ \<Rightarrow> bindR (as_bool v) (\<lambda>b. Ok (b, None)))"

definition bi_led :: "'w actuator option \<Rightarrow> val list \<Rightarrow> 'w \<Rightarrow> val res \<times> 'w" where
  "bi_led act vals w = (case vals of
       [v] \<Rightarrow> (case act of
           None \<Rightarrow> (Err (DisplayErr ''no LED capability installed''), w)
         | Some a \<Rightarrow> (case led_args v of
               Ok (on, color) \<Rightarrow> (case act_led a on color w of
                   (Inr u, w') \<Rightarrow> (Ok v, w')
                 | (Inl e, w') \<Rightarrow> (Err e, w'))
             | Err e \<Rightarrow> (Err e, w)
             | Panic \<Rightarrow> (Panic, w)))
     | _ \<Rightarrow> (Err (ArityErr (builtin_name BLed) (length vals)), w))"

definition bi_flash :: "'w actuator option \<Rightarrow> val list \<Rightarrow> 'w \<Rightarrow> val res \<times> 'w" where
  "bi_flash act vals w = (case vals of
       [] \<Rightarrow> (case act of
           None \<Rightarrow> (Err (DisplayErr ''no LED capability installed''), w)
         | Some a \<Rightarrow> (case act_flash a w of
               (Inr u, w') \<Rightarrow> (Ok (VBool True), w')
             | (Inl e, w') \<Rightarrow> (Err e, w')))
     | _ \<Rightarrow> (Err (ArityErr (builtin_name BFlash) (length vals)), w))"

text \<open>
  \<open>apply_builtin\<close>: every builtin but \<open>fetch\<close> and \<open>fetch_json\<close>, which the evaluators
  dispatch themselves (\<open>unreachable!\<close> here).
\<close>

definition apply_builtin ::
  "target \<Rightarrow> builtin \<Rightarrow> val list \<Rightarrow> 'w display option \<Rightarrow> 'w actuator option \<Rightarrow> 'w \<Rightarrow> val res \<times> 'w"
where
  "apply_builtin t b vals display act w = (case b of
       BFetch \<Rightarrow> (Panic, w)
     | BFetchJson \<Rightarrow> (Panic, w)
     | BLen \<Rightarrow> (bi_len vals, w)
     | BAbs \<Rightarrow> (bi_abs t vals, w)
     | BRound \<Rightarrow> (bi_round vals, w)
     | BInt \<Rightarrow> (bi_int vals, w)
     | BFloat \<Rightarrow> (bi_float vals, w)
     | BBool \<Rightarrow> (bi_bool vals, w)
     | BMin \<Rightarrow> (reduce_minmax b vals (builtin_name b), w)
     | BMax \<Rightarrow> (reduce_minmax b vals (builtin_name b), w)
     | BSum \<Rightarrow> (bi_sum t vals, w)
     | BAny \<Rightarrow> (bi_any vals, w)
     | BAll \<Rightarrow> (bi_all vals, w)
     | BContains \<Rightarrow> (bi_contains vals, w)
     | BIndexOf \<Rightarrow> (bi_index vals, w)
     | BBefore \<Rightarrow> (bi_before vals, w)
     | BFirst \<Rightarrow> (bi_first vals, w)
     | BLast \<Rightarrow> (bi_last vals, w)
     | BStr \<Rightarrow> (bi_str vals, w)
     | BJsonGet \<Rightarrow> (bi_json_get t vals, w)
     | BShow \<Rightarrow> bi_show display vals w
     | BPrint \<Rightarrow> (bi_print vals, w)
     | BLed \<Rightarrow> bi_led act vals w
     | BFlash \<Rightarrow> bi_flash act vals w
     | BUpper \<Rightarrow> (bi_case t b vals, w)
     | BLower \<Rightarrow> (bi_case t b vals, w)
     | BReverse \<Rightarrow> (bi_reverse vals, w))"

end
