(* ===== verification/Grammar.thy ===== *)
theory Grammar
  imports ParserFacts EvalOps
begin

text \<open>
  The grammar the parser implements: the result of a call does not depend on spare fuel, the
  methods as rules, a printer, and the round trip from an expression through its tokens.
\<close>

section \<open>More fuel, same parse\<close>

lemma agrees_peeking: "(\<And>t. agrees (=) l (k t) (k' t)) \<Longrightarrow> agrees (=) l (peeking k) (peeking k')"
  by (simp add: agrees_def peeking_def)

lemma agrees_in_lang: "(\<And>t. agrees (=) l (k t) (k' t)) \<Longrightarrow> agrees (=) l (in_lang k) (in_lang k')"
  by (simp add: agrees_def in_lang_def)

lemma agrees_same: "agrees (=) l m m"
  by (simp add: agrees_def)

lemma agrees_step:
  assumes "\<And>n. agrees (=) OutOfFuel (call n) (call' n)"
  shows "agrees (=) OutOfFuel (nt_step call n) (nt_step call' n)"
  by (cases n)
     (auto simp: nt_step_def conditional_def or_expr_def or_loop_def and_expr_def and_loop_def not_expr_def
       cmp_expr_def cmp_loop_def add_expr_def add_loop_def mul_expr_def mul_loop_def unary_expr_def
       postfix_expr_def postfix_loop_def method_call_def primary_def items_loop_def args_loop_def
       rust_if_def
       intro!: agrees_bind agrees_peeking agrees_in_lang assms agrees_same split: option.split tok.split)

lemma run_nt_more: "agrees (=) OutOfFuel (run_nt k n) (run_nt (Suc k) n)"
proof (induction k arbitrary: n)
  case 0
  show ?case by (simp add: agrees_def)
next
  case (Suc k)
  from agrees_step [of "run_nt k" "run_nt (Suc k)", OF Suc.IH] show ?case
    by (simp only: run_nt.simps)
qed

lemma run_nt_mono:
  assumes "fst (run_nt k n p) \<noteq> Err OutOfFuel" and "k \<le> k'"
  shows "run_nt k' n p = run_nt k n p"
  using assms(2)
proof (induction k' rule: dec_induct)
  case base
  show ?case by simp
next
  case (step j)
  with assms(1) agreesD [OF run_nt_more, of p p j n] show ?case by (simp add: prod_eq_iff)
qed

section \<open>The grammar as rules\<close>

text \<open>
  \<open>parses n p e q\<close>: with enough fuel the call \<open>n\<close> goes from \<open>p\<close> to \<open>q\<close> and gives \<open>e\<close>. The
  rules below read the grammar off the methods.
\<close>

definition parses :: "nt \<Rightarrow> parser \<Rightarrow> expr \<Rightarrow> parser \<Rightarrow> bool" where
  "parses n p e q \<longleftrightarrow> (\<exists>k. run_nt k n p = (Ok e, q))"

lemma parses0: "(\<And>call. nt_step call n p = (Ok e, q)) \<Longrightarrow> parses n p e q"
  unfolding parses_def by (rule exI [of _ 1]) simp

lemma parses_run: "parses n p e q \<Longrightarrow> \<exists>k. \<forall>j\<ge>k. run_nt j n p = (Ok e, q)"
  unfolding parses_def by (metis fst_conv outcome.distinct(1) run_nt_mono)

lemma parses1:
  assumes "parses m p1 a q1" and "\<And>call. call m p1 = (Ok a, q1) \<Longrightarrow> nt_step call n p = (Ok e, q)"
  shows "parses n p e q"
proof -
  from assms(1) obtain k where "run_nt k m p1 = (Ok a, q1)" by (auto simp: parses_def)
  with assms(2) have "run_nt (Suc k) n p = (Ok e, q)" by simp
  then show ?thesis unfolding parses_def by blast
qed

lemma parses2:
  assumes "parses m p1 a q1" and "parses m' p2 b q2"
    and "\<And>call. call m p1 = (Ok a, q1) \<Longrightarrow> call m' p2 = (Ok b, q2) \<Longrightarrow> nt_step call n p = (Ok e, q)"
  shows "parses n p e q"
proof -
  from parses_run [OF assms(1)] parses_run [OF assms(2)] obtain k k'
    where "\<forall>j\<ge>k. run_nt j m p1 = (Ok a, q1)" and "\<forall>j\<ge>k'. run_nt j m' p2 = (Ok b, q2)" by blast
  then have "run_nt (max k k') m p1 = (Ok a, q1)" and "run_nt (max k k') m' p2 = (Ok b, q2)" by simp_all
  with assms(3) have "run_nt (Suc (max k k')) n p = (Ok e, q)" by simp
  then show ?thesis unfolding parses_def by blast
qed

lemma parses3:
  assumes "parses m p1 a q1" and "parses m' p2 b q2" and "parses m'' p3 c q3"
    and "\<And>call. call m p1 = (Ok a, q1) \<Longrightarrow> call m' p2 = (Ok b, q2) \<Longrightarrow> call m'' p3 = (Ok c, q3) \<Longrightarrow>
      nt_step call n p = (Ok e, q)"
  shows "parses n p e q"
proof -
  from parses_run [OF assms(1)] parses_run [OF assms(2)] parses_run [OF assms(3)] obtain k k' k''
    where "\<forall>j\<ge>k. run_nt j m p1 = (Ok a, q1)" and "\<forall>j\<ge>k'. run_nt j m' p2 = (Ok b, q2)"
      and "\<forall>j\<ge>k''. run_nt j m'' p3 = (Ok c, q3)" by blast
  then have "run_nt (max k (max k' k'')) m p1 = (Ok a, q1)" and "run_nt (max k (max k' k'')) m' p2 = (Ok b, q2)"
    and "run_nt (max k (max k' k'')) m'' p3 = (Ok c, q3)" by simp_all
  with assms(4) have "run_nt (Suc (max k (max k' k''))) n p = (Ok e, q)" by simp
  then show ?thesis unfolding parses_def by blast
qed

text \<open>A Python parser that has read \<open>pre\<close> and has \<open>r\<close> before it.\<close>

definition pst :: "tok list \<Rightarrow> tok list \<Rightarrow> parser" where
  "pst pre r = \<lparr>p_toks = pre @ r, p_pos = length pre, p_lang = Python, p_locals = [], p_next_slot = 0, p_body = []\<rparr>"

fun hd_tok :: "tok list \<Rightarrow> tok option" where
  "hd_tok [] = None"
| "hd_tok (t # ts) = Some t"

lemma peek_pst [simp]: "peek (pst pre r) = hd_tok r"
  by (cases r) (simp_all add: peek_def tok_at_def pst_def)

lemma tok_at_pst [simp]: "tok_at (pst pre (t # r)) (Suc (p_pos (pst pre (t # r)))) = hd_tok r"
  by (cases r) (simp_all add: tok_at_def pst_def nth_append)

lemma lang_pst [simp]: "p_lang (pst pre r) = Python"
  by (simp add: pst_def)

lemma advance_pst [simp]: "advance (pst pre (t # r)) = (Ok (Some t), pst (pre @ [t]) r)"
  unfolding advance_def peek_pst by (simp add: pst_def)

lemma eat_pst [simp]:
  "eat t (pst pre (t # r)) = (Ok True, pst (pre @ [t]) r)"
  "hd_tok r \<noteq> Some t \<Longrightarrow> eat t (pst pre r) = (Ok False, pst pre r)"
  unfolding eat_def peek_pst by (simp_all add: pst_def)

lemma expect_pst [simp]: "expect t w (pst pre (t # r)) = (Ok (), pst (pre @ [t]) r)"
  by (simp add: expect_def bindM_apply)

lemma resolve_pst [simp]: "resolve x (pst pre r) = (Ok (EVar x), pst pre r)"
  by (simp add: resolve_def pst_def)

lemma next_cmp_stop:
  "cmp_kind_of (hd_tok r) (hd_tok (tl r)) = None \<Longrightarrow> next_cmp (pst pre r) = (Ok None, pst pre r)"
proof (cases r)
  case Nil
  then show ?thesis by (simp add: next_cmp_def cmp_kind_of_def)
next
  case (Cons t r')
  assume "cmp_kind_of (hd_tok r) (hd_tok (tl r)) = None"
  with Cons show ?thesis by (simp add: next_cmp_def)
qed

lemma next_cmp_go:
  "cmp_kind_of (Some t) (hd_tok r) = Some k \<Longrightarrow> k \<noteq> NotInK \<Longrightarrow>
   next_cmp (pst pre (t # r)) = (Ok (Some k), pst pre (t # r))"
  by (cases k) (simp_all add: next_cmp_def)

text \<open>
  The level a token continues an expression at: 6 postfix, 5 multiplicative, 4 additive,
  3 comparison, 2 \<open>and\<close>, 1 \<open>or\<close> and the conditional, 0 none.
\<close>

definition tok_level :: "tok option \<Rightarrow> nat" where
  "tok_level t = (case t of None \<Rightarrow> 0 | Some t \<Rightarrow> (case t of
       TLParen \<Rightarrow> 6 | TLBracket \<Rightarrow> 6 | TDot \<Rightarrow> 6
     | TStar \<Rightarrow> 5 | TSlash \<Rightarrow> 5 | TPercent \<Rightarrow> 5
     | TPlus \<Rightarrow> 4 | TMinus \<Rightarrow> 4
     | TEqEq \<Rightarrow> 3 | TNe \<Rightarrow> 3 | TLt \<Rightarrow> 3 | TLe \<Rightarrow> 3 | TGt \<Rightarrow> 3 | TGe \<Rightarrow> 3 | KIn \<Rightarrow> 3 | KNot \<Rightarrow> 3
     | KAnd \<Rightarrow> 2 | TAndAnd \<Rightarrow> 2 | KOr \<Rightarrow> 1 | TOrOr \<Rightarrow> 1 | KIf \<Rightarrow> 1 | _ \<Rightarrow> 0))"

lemma stop_level:
  "tok_level t < 6 \<Longrightarrow> t \<noteq> Some TLBracket \<and> t \<noteq> Some TDot \<and> t \<noteq> Some TLParen"
  "tok_level t < 5 \<Longrightarrow> mul_op t = None"
  "tok_level t < 4 \<Longrightarrow> add_op t = None"
  "tok_level t < 3 \<Longrightarrow> cmp_kind_of t t' = None"
  "tok_level t < 2 \<Longrightarrow> t \<noteq> Some KAnd \<and> t \<noteq> Some TAndAnd"
  "tok_level t = 0 \<Longrightarrow> t \<noteq> Some KOr \<and> t \<noteq> Some TOrOr \<and> t \<noteq> Some KIf"
  by (auto simp: tok_level_def mul_op_def add_op_def cmp_kind_of_def split: option.splits tok.splits)

lemmas step_simps = nt_step_def peeking_def in_lang_def bindM_apply

lemma conditional_stop:
  "parses NOr p e (pst q r) \<Longrightarrow> tok_level (hd_tok r) = 0 \<Longrightarrow> parses NConditional p e (pst q r)"
  by (erule parses1) (auto simp: conditional_def step_simps dest: stop_level)

lemma conditional_if:
  "parses NOr p a (pst q (KIf # r)) \<Longrightarrow> parses NOr (pst (q @ [KIf]) r) c (pst q' (KElse # r')) \<Longrightarrow>
   parses NConditional (pst (q' @ [KElse]) r') b s \<Longrightarrow> parses NConditional p (EIf c a b) s"
  by (erule (2) parses3) (auto simp: conditional_def step_simps)

lemma or_intro: "parses NAnd p a q \<Longrightarrow> parses (NOrLoop a) q e s \<Longrightarrow> parses NOr p e s"
  by (erule (1) parses2) (simp add: or_expr_def step_simps)

lemma or_stop: "tok_level (hd_tok r) = 0 \<or> hd_tok r = Some KIf \<Longrightarrow> parses (NOrLoop a) (pst q r) a (pst q r)"
  by (rule parses0) (auto simp: or_loop_def step_simps dest: stop_level)

lemma or_more:
  "parses NAnd (pst (q @ [KOr]) r) b s \<Longrightarrow> parses (NOrLoop (EBool OrOp a b)) s e s' \<Longrightarrow>
   parses (NOrLoop a) (pst q (KOr # r)) e s'"
  by (erule (1) parses2) (simp add: or_loop_def step_simps)

lemma and_intro: "parses NNot p a q \<Longrightarrow> parses (NAndLoop a) q e s \<Longrightarrow> parses NAnd p e s"
  by (erule (1) parses2) (simp add: and_expr_def step_simps)

lemma and_stop: "tok_level (hd_tok r) < 2 \<Longrightarrow> parses (NAndLoop a) (pst q r) a (pst q r)"
  by (rule parses0) (auto simp: and_loop_def step_simps dest: stop_level)

lemma and_more:
  "parses NNot (pst (q @ [KAnd]) r) b s \<Longrightarrow> parses (NAndLoop (EBool AndOp a b)) s e s' \<Longrightarrow>
   parses (NAndLoop a) (pst q (KAnd # r)) e s'"
  by (erule (1) parses2) (simp add: and_loop_def step_simps)

lemma not_intro:
  "parses NCmp (pst q r) e s \<Longrightarrow> hd_tok r \<noteq> Some KNot \<Longrightarrow> hd_tok r \<noteq> Some TBang \<Longrightarrow> parses NNot (pst q r) e s"
  by (erule parses1) (simp add: not_expr_def step_simps)

lemma not_not: "parses NNot (pst (q @ [KNot]) r) e s \<Longrightarrow> parses NNot (pst q (KNot # r)) (EUnary NotOp e) s"
  by (erule parses1) (simp add: not_expr_def step_simps)

lemma cmp_intro: "parses NAdd p a q \<Longrightarrow> parses (NCmpLoop [a] []) q e s \<Longrightarrow> parses NCmp p e s"
  by (erule (1) parses2) (simp add: cmp_expr_def step_simps)

lemma cmp_stop: "tok_level (hd_tok r) < 3 \<Longrightarrow> parses (NCmpLoop es ks) (pst q r) (chain es ks) (pst q r)"
  by (rule parses0) (simp add: cmp_loop_def step_simps next_cmp_stop stop_level)

lemma cmp_more:
  "cmp_kind_of (Some t) (hd_tok r) = Some k \<Longrightarrow> k \<noteq> NotInK \<Longrightarrow> parses NAdd (pst (q @ [t]) r) b s \<Longrightarrow>
   parses (NCmpLoop (es @ [b]) (ks @ [k])) s e s' \<Longrightarrow> parses (NCmpLoop es ks) (pst q (t # r)) e s'"
  by (erule (1) parses2) (simp add: cmp_loop_def step_simps next_cmp_go)

lemma add_intro: "parses NMul p a q \<Longrightarrow> parses (NAddLoop a) q e s \<Longrightarrow> parses NAdd p e s"
  by (erule (1) parses2) (simp add: add_expr_def step_simps)

lemma add_stop: "tok_level (hd_tok r) < 4 \<Longrightarrow> parses (NAddLoop a) (pst q r) a (pst q r)"
  by (rule parses0) (simp add: add_loop_def step_simps stop_level)

lemma add_more:
  "add_op (Some t) = Some op \<Longrightarrow> parses NMul (pst (q @ [t]) r) b s \<Longrightarrow>
   parses (NAddLoop (EBin op a b)) s e s' \<Longrightarrow> parses (NAddLoop a) (pst q (t # r)) e s'"
  by (erule (1) parses2) (simp add: add_loop_def step_simps)

lemma mul_intro: "parses NUnary p a q \<Longrightarrow> parses (NMulLoop a) q e s \<Longrightarrow> parses NMul p e s"
  by (erule (1) parses2) (simp add: mul_expr_def step_simps)

lemma mul_stop: "tok_level (hd_tok r) < 5 \<Longrightarrow> parses (NMulLoop a) (pst q r) a (pst q r)"
  by (rule parses0) (simp add: mul_loop_def step_simps stop_level)

lemma mul_more:
  "mul_op (Some t) = Some op \<Longrightarrow> parses NUnary (pst (q @ [t]) r) b s \<Longrightarrow>
   parses (NMulLoop (EBin op a b)) s e s' \<Longrightarrow> parses (NMulLoop a) (pst q (t # r)) e s'"
  by (erule (1) parses2) (simp add: mul_loop_def step_simps)

lemma unary_intro: "parses NPostfix (pst q r) e s \<Longrightarrow> hd_tok r \<noteq> Some TMinus \<Longrightarrow> parses NUnary (pst q r) e s"
  by (erule parses1) (simp add: unary_expr_def step_simps)

lemma unary_neg: "parses NUnary (pst (q @ [TMinus]) r) e s \<Longrightarrow> parses NUnary (pst q (TMinus # r)) (EUnary NegOp e) s"
  by (erule parses1) (simp add: unary_expr_def step_simps)

lemma postfix_intro: "parses NPrimary p a q \<Longrightarrow> parses (NPostfixLoop a) q e s \<Longrightarrow> parses NPostfix p e s"
  by (erule (1) parses2) (simp add: postfix_expr_def step_simps)

lemma postfix_stop: "tok_level (hd_tok r) < 6 \<Longrightarrow> parses (NPostfixLoop a) (pst q r) a (pst q r)"
  by (rule parses0) (auto simp: postfix_loop_def step_simps dest: stop_level)

lemma postfix_index:
  "parses NConditional (pst (q @ [TLBracket]) r) i (pst q' (TRBracket # r')) \<Longrightarrow>
   parses (NPostfixLoop (EIndex a i)) (pst (q' @ [TRBracket]) r') e s \<Longrightarrow>
   parses (NPostfixLoop a) (pst q (TLBracket # r)) e s"
  by (erule (1) parses2) (simp add: postfix_loop_def step_simps)

lemma primary_paren:
  "parses NConditional (pst (q @ [TLParen]) r) e (pst q' (TRParen # r')) \<Longrightarrow>
   parses NPrimary (pst q (TLParen # r)) e (pst (q' @ [TRParen]) r')"
  by (erule parses1) (simp add: primary_def step_simps)


section \<open>From an operand to a full expression\<close>

definition plain_start :: "tok list \<Rightarrow> bool" where
  "plain_start ts \<longleftrightarrow> hd_tok ts \<notin> {Some TMinus, Some KNot, Some TBang}"

lemma up_unary: "parses NPrimary (pst q ts) e (pst q' r) \<Longrightarrow> tok_level (hd_tok r) < 6 \<Longrightarrow> plain_start ts \<Longrightarrow>
    parses NUnary (pst q ts) e (pst q' r)"
  by (rule unary_intro [OF postfix_intro [OF _ postfix_stop]]) (auto simp: plain_start_def)

lemma up_mul: "parses NUnary p e (pst q r) \<Longrightarrow> tok_level (hd_tok r) < 5 \<Longrightarrow> parses NMul p e (pst q r)"
  by (rule mul_intro [OF _ mul_stop])

lemma up_add: "parses NMul p e (pst q r) \<Longrightarrow> tok_level (hd_tok r) < 4 \<Longrightarrow> parses NAdd p e (pst q r)"
  by (rule add_intro [OF _ add_stop])

lemma up_cmp: "parses NAdd p e (pst q r) \<Longrightarrow> tok_level (hd_tok r) < 3 \<Longrightarrow> parses NCmp p e (pst q r)"
  using cmp_intro [OF _ cmp_stop, of p e q r] by (simp add: chain_def)

lemma up_not: "parses NCmp (pst q ts) e s \<Longrightarrow> plain_start ts \<Longrightarrow> parses NNot (pst q ts) e s"
  by (rule not_intro) (auto simp: plain_start_def)

lemma up_and: "parses NNot p e (pst q r) \<Longrightarrow> tok_level (hd_tok r) < 2 \<Longrightarrow> parses NAnd p e (pst q r)"
  by (rule and_intro [OF _ and_stop])

lemma up_or:
  "parses NAnd p e (pst q r) \<Longrightarrow> tok_level (hd_tok r) = 0 \<or> hd_tok r = Some KIf \<Longrightarrow> parses NOr p e (pst q r)"
  by (rule or_intro [OF _ or_stop])

lemmas up_rules = conditional_stop up_or up_and up_not up_cmp up_add up_mul up_unary

section \<open>The printer\<close>

text \<open>Python tokens of an expression, every operator in parentheses.\<close>

fun bin_tok :: "bin_op \<Rightarrow> tok" where
  "bin_tok AddOp = TPlus" | "bin_tok SubOp = TMinus" | "bin_tok MulOp = TStar"
| "bin_tok DivOp = TSlash" | "bin_tok RemOp = TPercent"

fun cmp_tok :: "cmp_op \<Rightarrow> tok" where
  "cmp_tok CEq = TEqEq" | "cmp_tok CNe = TNe" | "cmp_tok CLt = TLt"
| "cmp_tok CLe = TLe" | "cmp_tok CGt = TGt" | "cmp_tok CGe = TGe"

fun bool_tok :: "bool_op \<Rightarrow> tok" where
  "bool_tok AndOp = KAnd" | "bool_tok OrOp = KOr"

fun un_tok :: "un_op \<Rightarrow> tok" where
  "un_tok NegOp = TMinus" | "un_tok NotOp = KNot"

fun commas :: "tok list list \<Rightarrow> tok list" where
  "commas [] = []"
| "commas [x] = x"
| "commas (x # y # xs) = x @ TComma # commas (y # xs)"

fun const_toks :: "val \<Rightarrow> tok list" where
  "const_toks (VInt n) = [TInt n]"
| "const_toks (VFloat x) = [TFloat x]"
| "const_toks (VBool b) = [TBool b]"
| "const_toks (VStr s) = [TStr s]"
| "const_toks (VList l) = []"

function print_expr :: "expr \<Rightarrow> tok list" where
  "print_expr (EConst v) = const_toks v"
| "print_expr (EVar x) = [TIdent x]"
| "print_expr (ELocal i) = []"
| "print_expr (EBin op a b) = TLParen # print_expr a @ bin_tok op # print_expr b @ [TRParen]"
| "print_expr (ECmp op a b) = TLParen # print_expr a @ cmp_tok op # print_expr b @ [TRParen]"
| "print_expr (EBool op a b) = TLParen # print_expr a @ bool_tok op # print_expr b @ [TRParen]"
| "print_expr (EUnary op a) = TLParen # un_tok op # print_expr a @ [TRParen]"
| "print_expr (EIndex a i) = TLParen # print_expr a @ TLBracket # print_expr i @ [TRBracket, TRParen]"
| "print_expr (EIf c a b) = TLParen # print_expr a @ KIf # print_expr c @ KElse # print_expr b @ [TRParen]"
| "print_expr (ECall f as) =
     (if f = BContains then (case as of
          [l, x] \<Rightarrow> TLParen # print_expr x @ KIn # print_expr l @ [TRParen] | _ \<Rightarrow> [])
      else TIdent (builtin_name f) # TLParen # commas (map print_expr as) @ [TRParen])"
| "print_expr (EList as) = TLBracket # commas (map print_expr as) @ [TRBracket]"
  by pat_completeness auto
termination
  by (relation "measure size") (auto simp: less_Suc_eq_le intro: size_list_estimation')

text \<open>What the surface syntax can express: no list literal as a constant and no bare slot.\<close>

fun printable :: "expr \<Rightarrow> bool" where
  "printable (EConst v) = (\<forall>l. v \<noteq> VList l)"
| "printable (EVar x) = True"
| "printable (ELocal i) = False"
| "printable (EBin op a b) = (printable a \<and> printable b)"
| "printable (ECmp op a b) = (printable a \<and> printable b)"
| "printable (EBool op a b) = (printable a \<and> printable b)"
| "printable (EUnary op a) = printable a"
| "printable (EIndex a b) = (printable a \<and> printable b)"
| "printable (EIf a b c) = (printable a \<and> printable b \<and> printable c)"
| "printable (ECall f as) = ((f = BContains \<longrightarrow> length as = 2) \<and> list_all printable as)"
| "printable (EList as) = list_all printable as"

section \<open>The round trip\<close>

definition reads :: "tok list \<Rightarrow> expr \<Rightarrow> bool" where
  "reads ts e \<longleftrightarrow> plain_start ts \<and> ts \<noteq> [] \<and> hd_tok ts \<noteq> Some TRBracket \<and> hd_tok ts \<noteq> Some TRParen
     \<and> (\<forall>q r. hd_tok r \<noteq> Some TLParen \<longrightarrow> parses NPrimary (pst q (ts @ r)) e (pst (q @ ts) r))"

lemma hd_tok_append [simp]: "ts \<noteq> [] \<Longrightarrow> hd_tok (ts @ r) = hd_tok ts"
  by (cases ts) simp_all

lemma reads_unary: "reads ts e \<Longrightarrow> tok_level (hd_tok r) < 6 \<Longrightarrow> parses NUnary (pst q (ts @ r)) e (pst (q @ ts) r)"
  by (rule up_unary) (auto simp: reads_def plain_start_def dest: stop_level)

lemma reads_mul: "reads ts e \<Longrightarrow> tok_level (hd_tok r) < 5 \<Longrightarrow> parses NMul (pst q (ts @ r)) e (pst (q @ ts) r)"
  by (rule up_mul [OF reads_unary]) simp_all

lemma reads_add: "reads ts e \<Longrightarrow> tok_level (hd_tok r) < 4 \<Longrightarrow> parses NAdd (pst q (ts @ r)) e (pst (q @ ts) r)"
  by (rule up_add [OF reads_mul]) simp_all

lemma reads_not: "reads ts e \<Longrightarrow> tok_level (hd_tok r) < 3 \<Longrightarrow> parses NNot (pst q (ts @ r)) e (pst (q @ ts) r)"
  by (rule up_not [OF up_cmp [OF reads_add]]) (auto simp: reads_def plain_start_def)

lemma reads_and: "reads ts e \<Longrightarrow> tok_level (hd_tok r) < 2 \<Longrightarrow> parses NAnd (pst q (ts @ r)) e (pst (q @ ts) r)"
  by (rule up_and [OF reads_not]) simp_all

lemma reads_or: "reads ts e \<Longrightarrow> tok_level (hd_tok r) = 0 \<or> hd_tok r = Some KIf \<Longrightarrow>
    parses NOr (pst q (ts @ r)) e (pst (q @ ts) r)"
  by (rule up_or [OF reads_and]) (auto simp: tok_level_def)

lemma reads_conditional: "reads ts e \<Longrightarrow> tok_level (hd_tok r) = 0 \<Longrightarrow>
    parses NConditional (pst q (ts @ r)) e (pst (q @ ts) r)"
  by (rule conditional_stop [OF reads_or]) simp_all

text \<open>A conditional in parentheses is an operand.\<close>

lemma reads_paren:
  assumes "\<And>q r. parses NConditional (pst q (ts @ TRParen # r)) e (pst (q @ ts) (TRParen # r))"
  shows "reads (TLParen # ts @ [TRParen]) e"
proof -
  have "parses NPrimary (pst q (TLParen # ts @ TRParen # r)) e (pst ((q @ TLParen # ts) @ [TRParen]) r)" for q r
    by (rule primary_paren) (use assms [of "q @ [TLParen]"] in simp)
  then show ?thesis by (simp add: reads_def plain_start_def)
qed

lemma level_simps [simp]:
  "tok_level (Some TRParen) = 0" "tok_level (Some TRBracket) = 0" "tok_level (Some TComma) = 0"
  "tok_level (Some KElse) = 0" "tok_level None = 0" "tok_level (Some TLBracket) = 6" "tok_level (Some KIn) = 3"
  "tok_level (Some KIf) = 1"
  "tok_level (Some (cmp_tok c)) = 3"
  by (cases c; simp add: tok_level_def)+

lemma op_simps [simp]:
  "add_op (Some (bin_tok AddOp)) = Some AddOp" "add_op (Some (bin_tok SubOp)) = Some SubOp"
  "mul_op (Some (bin_tok MulOp)) = Some MulOp" "mul_op (Some (bin_tok DivOp)) = Some DivOp"
  "mul_op (Some (bin_tok RemOp)) = Some RemOp" "cmp_kind_of (Some (cmp_tok c)) t = Some (CmpK c)"
  "cmp_kind_of (Some KIn) t = Some InK"
  by (cases c; simp add: add_op_def mul_op_def cmp_kind_of_def)+

lemma bin_level: "tok_level (Some (bin_tok op)) = (if op = AddOp \<or> op = SubOp then 4 else 5)"
  by (cases op) (simp_all add: tok_level_def)

lemma reads_start: "reads ts e \<Longrightarrow> plain_start (ts @ r)"
  by (simp add: reads_def plain_start_def)

lemma mul_chain:
  assumes "reads a x" "reads b y" "mul_op (Some t) = Some op" "tok_level (Some t) = 5" "tok_level (hd_tok r) < 5"
  shows "parses NMul (pst q (a @ t # b @ r)) (EBin op x y) (pst (q @ a @ t # b) r)"
proof (rule mul_intro)
  show "parses NUnary (pst q (a @ t # b @ r)) x (pst (q @ a) (t # b @ r))"
    by (rule reads_unary [OF assms(1)]) (simp add: assms)
  show "parses (NMulLoop x) (pst (q @ a) (t # b @ r)) (EBin op x y) (pst (q @ a @ t # b) r)"
  proof (rule mul_more [OF assms(3)])
    show "parses NUnary (pst ((q @ a) @ [t]) (b @ r)) y (pst (q @ a @ t # b) r)"
      using reads_unary [OF assms(2), of r "q @ a @ [t]"] assms(5) by simp
  qed (rule mul_stop [OF assms(5)])
qed

lemma add_chain:
  assumes "reads a x" "reads b y" "add_op (Some t) = Some op" "tok_level (Some t) = 4" "tok_level (hd_tok r) < 4"
  shows "parses NAdd (pst q (a @ t # b @ r)) (EBin op x y) (pst (q @ a @ t # b) r)"
proof (rule add_intro)
  show "parses NMul (pst q (a @ t # b @ r)) x (pst (q @ a) (t # b @ r))"
    by (rule reads_mul [OF assms(1)]) (simp add: assms)
  show "parses (NAddLoop x) (pst (q @ a) (t # b @ r)) (EBin op x y) (pst (q @ a @ t # b) r)"
  proof (rule add_more [OF assms(3)])
    show "parses NMul (pst ((q @ a) @ [t]) (b @ r)) y (pst (q @ a @ t # b) r)"
      using reads_mul [OF assms(2), of r "q @ a @ [t]"] assms(5) by simp
  qed (rule add_stop [OF assms(5)])
qed

lemma cmp_chain:
  assumes "reads a x" "reads b y" "\<And>t'. cmp_kind_of (Some t) t' = Some k" "k \<noteq> NotInK" "tok_level (Some t) = 3"
    "tok_level (hd_tok r) < 3"
  shows "parses NCmp (pst q (a @ t # b @ r)) (cmp_term k x y) (pst (q @ a @ t # b) r)"
proof (rule cmp_intro)
  show "parses NAdd (pst q (a @ t # b @ r)) x (pst (q @ a) (t # b @ r))"
    by (rule reads_add [OF assms(1)]) (simp add: assms)
  show "parses (NCmpLoop [x] []) (pst (q @ a) (t # b @ r)) (cmp_term k x y) (pst (q @ a @ t # b) r)"
  proof (rule cmp_more [OF assms(3,4)])
    show "parses NAdd (pst ((q @ a) @ [t]) (b @ r)) y (pst (q @ a @ t # b) r)"
      using reads_add [OF assms(2), of r "q @ a @ [t]"] assms(6) by simp
    show "parses (NCmpLoop ([x] @ [y]) ([] @ [k])) (pst (q @ a @ t # b) r) (cmp_term k x y) (pst (q @ a @ t # b) r)"
      using cmp_stop [OF assms(6), of "[x] @ [y]" "[] @ [k]"] by (simp add: chain_def)
  qed
qed

lemma and_chain:
  assumes "reads a x" "reads b y" "tok_level (hd_tok r) < 2"
  shows "parses NAnd (pst q (a @ KAnd # b @ r)) (EBool AndOp x y) (pst (q @ a @ KAnd # b) r)"
proof (rule and_intro)
  show "parses NNot (pst q (a @ KAnd # b @ r)) x (pst (q @ a) (KAnd # b @ r))"
    by (rule reads_not [OF assms(1)]) (simp add: tok_level_def)
  show "parses (NAndLoop x) (pst (q @ a) (KAnd # b @ r)) (EBool AndOp x y) (pst (q @ a @ KAnd # b) r)"
  proof (rule and_more)
    show "parses NNot (pst ((q @ a) @ [KAnd]) (b @ r)) y (pst (q @ a @ KAnd # b) r)"
      using reads_not [OF assms(2), of r "q @ a @ [KAnd]"] assms(3) by simp
  qed (rule and_stop [OF assms(3)])
qed

lemma or_chain:
  assumes "reads a x" "reads b y" "tok_level (hd_tok r) = 0"
  shows "parses NOr (pst q (a @ KOr # b @ r)) (EBool OrOp x y) (pst (q @ a @ KOr # b) r)"
proof (rule or_intro)
  show "parses NAnd (pst q (a @ KOr # b @ r)) x (pst (q @ a) (KOr # b @ r))"
    by (rule reads_and [OF assms(1)]) (simp add: tok_level_def)
  show "parses (NOrLoop x) (pst (q @ a) (KOr # b @ r)) (EBool OrOp x y) (pst (q @ a @ KOr # b) r)"
  proof (rule or_more)
    show "parses NAnd (pst ((q @ a) @ [KOr]) (b @ r)) y (pst (q @ a @ KOr # b) r)"
      using reads_and [OF assms(2), of r "q @ a @ [KOr]"] assms(3) by simp
  qed (use or_stop assms(3) in blast)
qed

text \<open>Each form of parenthesised operator.\<close>

lemma reads_bin:
  assumes "reads a x" "reads b y"
  shows "reads (TLParen # (a @ bin_tok op # b) @ [TRParen]) (EBin op x y)"
proof (rule reads_paren)
  fix q r
  have start: "plain_start ((a @ bin_tok op # b) @ TRParen # r)"
    using reads_start [OF assms(1), of "bin_tok op # b @ TRParen # r"] by simp
  have "parses NAdd (pst q ((a @ bin_tok op # b) @ TRParen # r)) (EBin op x y) (pst (q @ a @ bin_tok op # b) (TRParen # r))"
  proof (cases "op = AddOp \<or> op = SubOp")
    case True
    then show ?thesis using add_chain [OF assms, of "bin_tok op" op "TRParen # r" q] by (auto simp: bin_level add_op_def)
  next
    case False
    then have m: "mul_op (Some (bin_tok op)) = Some op" by (cases op) (simp_all add: mul_op_def)
    from False have l: "tok_level (Some (bin_tok op)) = 5" by (simp add: bin_level)
    from mul_chain [OF assms m l, of "TRParen # r" q]
    have "parses NMul (pst q (a @ bin_tok op # b @ TRParen # r)) (EBin op x y) (pst (q @ a @ bin_tok op # b) (TRParen # r))"
      by simp
    from up_add [OF this] show ?thesis by simp
  qed
  then show "parses NConditional (pst q ((a @ bin_tok op # b) @ TRParen # r)) (EBin op x y)
      (pst (q @ a @ bin_tok op # b) (TRParen # r))"
    by (intro conditional_stop up_or up_and up_not up_cmp start) simp_all
qed

lemma reads_cmp:
  assumes "reads a x" "reads b y"
  shows "reads (TLParen # (a @ cmp_tok op # b) @ [TRParen]) (ECmp op x y)"
proof (rule reads_paren)
  fix q r
  have start: "plain_start ((a @ cmp_tok op # b) @ TRParen # r)"
    using reads_start [OF assms(1), of "cmp_tok op # b @ TRParen # r"] by simp
  show "parses NConditional (pst q ((a @ cmp_tok op # b) @ TRParen # r)) (ECmp op x y)
      (pst (q @ a @ cmp_tok op # b) (TRParen # r))"
    using cmp_chain [OF assms, of "cmp_tok op" "CmpK op" "TRParen # r" q]
    by (intro conditional_stop up_or up_and up_not start) (simp_all add: cmp_term_def)
qed

lemma reads_in:
  assumes "reads a x" "reads b y"
  shows "reads (TLParen # (a @ KIn # b) @ [TRParen]) (ECall BContains [y, x])"
proof (rule reads_paren)
  fix q r
  have start: "plain_start ((a @ KIn # b) @ TRParen # r)"
    using reads_start [OF assms(1), of "KIn # b @ TRParen # r"] by simp
  show "parses NConditional (pst q ((a @ KIn # b) @ TRParen # r)) (ECall BContains [y, x])
      (pst (q @ a @ KIn # b) (TRParen # r))"
    using cmp_chain [OF assms, of "KIn" InK "TRParen # r" q]
    by (intro conditional_stop up_or up_and up_not start) (simp_all add: cmp_term_def)
qed

lemma reads_bool:
  assumes "reads a x" "reads b y"
  shows "reads (TLParen # (a @ bool_tok op # b) @ [TRParen]) (EBool op x y)"
proof (rule reads_paren)
  fix q r
  show "parses NConditional (pst q ((a @ bool_tok op # b) @ TRParen # r)) (EBool op x y)
      (pst (q @ a @ bool_tok op # b) (TRParen # r))"
    using and_chain [OF assms, of "TRParen # r" q] or_chain [OF assms, of "TRParen # r" q]
    by (cases op) (auto intro!: conditional_stop up_or)
qed

lemma reads_un:
  assumes "reads a x"
  shows "reads (TLParen # (un_tok op # a) @ [TRParen]) (EUnary op x)"
proof (rule reads_paren)
  fix q r
  show "parses NConditional (pst q ((un_tok op # a) @ TRParen # r)) (EUnary op x) (pst (q @ un_tok op # a) (TRParen # r))"
  proof (cases op)
    case NotOp
    have "parses NNot (pst q (KNot # a @ TRParen # r)) (EUnary NotOp x) (pst (q @ KNot # a) (TRParen # r))"
      by (rule not_not) (use reads_not [OF assms, of "TRParen # r" "q @ [KNot]"] in simp)
    with NotOp show ?thesis by (auto intro!: conditional_stop up_or up_and)
  next
    case NegOp
    have "parses NUnary (pst q (TMinus # a @ TRParen # r)) (EUnary NegOp x) (pst (q @ TMinus # a) (TRParen # r))"
      by (rule unary_neg) (use reads_unary [OF assms, of "TRParen # r" "q @ [TMinus]"] in simp)
    then have "parses NCmp (pst q (TMinus # a @ TRParen # r)) (EUnary NegOp x) (pst (q @ TMinus # a) (TRParen # r))"
      by (intro up_cmp up_add up_mul) simp_all
    with NegOp show ?thesis by (auto intro!: conditional_stop up_or up_and not_intro)
  qed
qed


lemma reads_if:
  assumes "reads a x" "reads c z" "reads b y"
  shows "reads (TLParen # (a @ KIf # c @ KElse # b) @ [TRParen]) (EIf z x y)"
proof (rule reads_paren)
  fix q r
  show "parses NConditional (pst q ((a @ KIf # c @ KElse # b) @ TRParen # r)) (EIf z x y)
      (pst (q @ a @ KIf # c @ KElse # b) (TRParen # r))"
    using conditional_if [of "pst q (a @ KIf # c @ KElse # b @ TRParen # r)" x "q @ a" "c @ KElse # b @ TRParen # r"
        z "q @ a @ [KIf] @ c" "b @ TRParen # r" y "pst (q @ a @ KIf # c @ KElse # b) (TRParen # r)"]
      reads_or [OF assms(1), of "KIf # c @ KElse # b @ TRParen # r" q]
      reads_or [OF assms(2), of "KElse # b @ TRParen # r" "q @ a @ [KIf]"]
      reads_conditional [OF assms(3), of "TRParen # r" "q @ a @ KIf # c @ [KElse]"]
    by simp
qed

lemma reads_index:
  assumes "reads a x" "reads i y"
  shows "reads (TLParen # (a @ TLBracket # i @ [TRBracket]) @ [TRParen]) (EIndex x y)"
proof (rule reads_paren)
  fix q r
  let ?r = "TLBracket # i @ TRBracket # TRParen # r"
  have i: "parses NConditional (pst ((q @ a) @ [TLBracket]) (i @ TRBracket # TRParen # r)) y
      (pst (q @ a @ TLBracket # i) (TRBracket # TRParen # r))"
    using reads_conditional [OF assms(2), of "TRBracket # TRParen # r" "q @ a @ [TLBracket]"] by simp
  have l: "parses (NPostfixLoop x) (pst (q @ a) ?r) (EIndex x y) (pst (q @ a @ TLBracket # i @ [TRBracket]) (TRParen # r))"
    using postfix_index [OF i, of x] postfix_stop [of "TRParen # r"] by simp
  have "parses NPostfix (pst q (a @ ?r)) (EIndex x y) (pst (q @ a @ TLBracket # i @ [TRBracket]) (TRParen # r))"
    by (rule postfix_intro [OF _ l]) (use assms(1) in \<open>simp add: reads_def\<close>)
  then show "parses NConditional (pst q ((a @ TLBracket # i @ [TRBracket]) @ TRParen # r)) (EIndex x y)
      (pst (q @ a @ TLBracket # i @ [TRBracket]) (TRParen # r))"
    using assms(1)
    by (auto intro!: conditional_stop up_or up_and up_not up_cmp up_add up_mul unary_intro simp: reads_def plain_start_def)
qed

lemma reads_const: "(\<And>l. v \<noteq> VList l) \<Longrightarrow> reads (const_toks v) (EConst v)"
  by (cases v) (auto simp: reads_def plain_start_def primary_def step_simps intro!: parses0)

lemma reads_var: "reads [TIdent x] (EVar x)"
  by (auto simp: reads_def plain_start_def primary_def step_simps dest: stop_level intro!: parses0)

lemma builtin_from_name: "f \<noteq> BContains \<Longrightarrow> builtin_from (builtin_name f) p = (Ok f, p)"
  by (cases f) (simp_all add: builtin_from_def builtin_table_def)

lemma args_last:
  "parses NConditional p e (pst q (TRParen # r)) \<Longrightarrow> f \<noteq> BContains \<Longrightarrow>
   parses (NArgs (builtin_name f) as) p (ECall f (as @ [e])) (pst (q @ [TRParen]) r)"
  by (erule parses1) (simp add: args_loop_def close_call_def step_simps builtin_from_name)

lemma args_more:
  "parses NConditional p e (pst q (TComma # r)) \<Longrightarrow> parses (NArgs f (as @ [e])) (pst (q @ [TComma]) r) e' s \<Longrightarrow>
   parses (NArgs f as) p e' s"
  by (erule (1) parses2) (simp add: args_loop_def step_simps)

lemma items_last:
  "parses NConditional p e (pst q (TRBracket # r)) \<Longrightarrow>
   parses (NItems as) p (EList (as @ [e])) (pst (q @ [TRBracket]) r)"
  by (erule parses1) (simp add: items_loop_def close_list_def step_simps)

lemma items_more:
  "parses NConditional p e (pst q (TComma # r)) \<Longrightarrow> hd_tok r \<noteq> Some TRBracket \<Longrightarrow>
   parses (NItems (as @ [e])) (pst (q @ [TComma]) r) e' s \<Longrightarrow> parses (NItems as) p e' s"
  by (erule (1) parses2) (simp add: items_loop_def step_simps)

lemma reads_args:
  "list_all2 reads ts es \<Longrightarrow> es \<noteq> [] \<Longrightarrow> f \<noteq> BContains \<Longrightarrow>
   parses (NArgs (builtin_name f) as) (pst q (commas ts @ TRParen # r)) (ECall f (as @ es))
     (pst (q @ commas ts @ [TRParen]) r)"
proof (induction ts arbitrary: es as q rule: commas.induct)
  case (2 x)
  then obtain e where "es = [e]" "reads x e" by (auto simp: list_all2_Cons1)
  with 2 show ?case using args_last [OF reads_conditional [of x e "TRParen # r" q]] by simp
next
  case (3 x y xs)
  then obtain e es' where es: "es = e # es'" "reads x e" "list_all2 reads (y # xs) es'" "es' \<noteq> []"
    by (auto simp: list_all2_Cons1)
  have "parses (NArgs (builtin_name f) (as @ [e])) (pst ((q @ x) @ [TComma]) (commas (y # xs) @ TRParen # r))
      (ECall f (as @ es)) (pst (q @ commas (x # y # xs) @ [TRParen]) r)"
    using "3.IH" [OF es(3,4) "3.prems"(3), of "as @ [e]" "q @ x @ [TComma]"] es(1) by simp
  then show ?case
    using args_more [OF reads_conditional [OF es(2), of "TComma # commas (y # xs) @ TRParen # r" q]] by simp
qed simp

lemma commas_head: "list_all2 reads ts es \<Longrightarrow> es \<noteq> [] \<Longrightarrow>
    hd_tok (commas ts @ r) \<noteq> Some TRBracket \<and> hd_tok (commas ts @ r) \<noteq> Some TRParen"
  by (induction ts rule: commas.induct) (auto simp: list_all2_Cons1 reads_def)

lemma reads_items:
  "list_all2 reads ts es \<Longrightarrow> es \<noteq> [] \<Longrightarrow>
   parses (NItems as) (pst q (commas ts @ TRBracket # r)) (EList (as @ es)) (pst (q @ commas ts @ [TRBracket]) r)"
proof (induction ts arbitrary: es as q rule: commas.induct)
  case (2 x)
  then obtain e where "es = [e]" "reads x e" by (auto simp: list_all2_Cons1)
  with 2 show ?case using items_last [OF reads_conditional [of x e "TRBracket # r" q]] by simp
next
  case (3 x y xs)
  then obtain e es' where es: "es = e # es'" "reads x e" "list_all2 reads (y # xs) es'" "es' \<noteq> []"
    by (auto simp: list_all2_Cons1)
  have "parses (NItems (as @ [e])) (pst ((q @ x) @ [TComma]) (commas (y # xs) @ TRBracket # r))
      (EList (as @ es)) (pst (q @ commas (x # y # xs) @ [TRBracket]) r)"
    using "3.IH" [OF es(3,4), of "as @ [e]" "q @ x @ [TComma]"] es(1) by simp
  then show ?case
    using items_more [OF reads_conditional [OF es(2), of "TComma # commas (y # xs) @ TRBracket # r" q]]
      commas_head [OF es(3,4)] by simp
qed simp

lemma primary_call:
  "parses (NArgs f []) (pst (q @ [TIdent f, TLParen]) r) e s \<Longrightarrow> hd_tok r \<noteq> Some TRParen \<Longrightarrow>
   parses NPrimary (pst q (TIdent f # TLParen # r)) e s"
  by (erule parses1) (simp add: primary_def step_simps)

lemma primary_call0:
  "f \<noteq> BContains \<Longrightarrow> parses NPrimary (pst q (TIdent (builtin_name f) # TLParen # TRParen # r)) (ECall f [])
     (pst (q @ [TIdent (builtin_name f), TLParen, TRParen]) r)"
  by (rule parses0) (simp add: primary_def close_call_def step_simps builtin_from_name)

lemma primary_list:
  "parses (NItems []) (pst (q @ [TLBracket]) r) e s \<Longrightarrow> hd_tok r \<noteq> Some TRBracket \<Longrightarrow>
   parses NPrimary (pst q (TLBracket # r)) e s"
  by (erule parses1) (simp add: primary_def step_simps)

lemma primary_list0: "parses NPrimary (pst q (TLBracket # TRBracket # r)) (EList []) (pst (q @ [TLBracket, TRBracket]) r)"
  by (rule parses0) (simp add: primary_def close_list_def step_simps)

lemma reads_call:
  assumes "list_all2 reads ts es" "f \<noteq> BContains"
  shows "reads (TIdent (builtin_name f) # TLParen # commas ts @ [TRParen]) (ECall f es)"
proof (cases "es = []")
  case True
  with assms primary_call0 [OF assms(2)] show ?thesis by (simp add: reads_def plain_start_def)
next
  case False
  have "parses NPrimary (pst q (TIdent (builtin_name f) # TLParen # commas ts @ TRParen # r)) (ECall f es)
     (pst (q @ TIdent (builtin_name f) # TLParen # commas ts @ [TRParen]) r)" for q r
    using primary_call [of "builtin_name f" q "commas ts @ TRParen # r"]
      reads_args [OF assms(1) False assms(2), of "[]" "q @ [TIdent (builtin_name f), TLParen]" r]
      commas_head [OF assms(1) False] by simp
  then show ?thesis by (simp add: reads_def plain_start_def)
qed

lemma reads_list:
  assumes "list_all2 reads ts es"
  shows "reads (TLBracket # commas ts @ [TRBracket]) (EList es)"
proof (cases "es = []")
  case True
  with assms primary_list0 show ?thesis by (simp add: reads_def plain_start_def)
next
  case False
  have "parses NPrimary (pst q (TLBracket # commas ts @ TRBracket # r)) (EList es)
     (pst (q @ TLBracket # commas ts @ [TRBracket]) r)" for q r
    using primary_list [of q "commas ts @ TRBracket # r"]
      reads_items [OF assms False, of "[]" "q @ [TLBracket]" r] commas_head [OF assms False] by simp
  then show ?thesis by (simp add: reads_def plain_start_def)
qed

lemma reads_all: "(\<And>x. x \<in> set es \<Longrightarrow> reads (print_expr x) x) \<Longrightarrow> list_all2 reads (map print_expr es) es"
  by (induction es) auto

lemma print_reads: "printable e \<Longrightarrow> reads (print_expr e) e"
proof (induction e)
  case (EBin op a b)
  then show ?case using reads_bin [of "print_expr a" a "print_expr b" b op] by simp
next
  case (ECmp op a b)
  then show ?case using reads_cmp [of "print_expr a" a "print_expr b" b op] by simp
next
  case (EBool op a b)
  then show ?case using reads_bool [of "print_expr a" a "print_expr b" b op] by simp
next
  case (EUnary op a)
  then show ?case using reads_un [of "print_expr a" a op] by simp
next
  case (EIndex a i)
  then show ?case using reads_index [of "print_expr a" a "print_expr i" i] by simp
next
  case (EIf c a b)
  then show ?case using reads_if [of "print_expr a" a "print_expr c" c "print_expr b" b] by simp
next
  case (ECall f es)
  show ?case
  proof (cases "f = BContains")
    case True
    with ECall.prems obtain l x where "es = [l, x]" by (auto simp: length_Suc_conv numeral_2_eq_2)
    with True ECall reads_in [of "print_expr x" x "print_expr l" l] show ?thesis by simp
  next
    case False
    with ECall reads_call [OF reads_all False, of es] show ?thesis by (simp add: list_all_iff)
  qed
next
  case (EList es)
  with reads_list [OF reads_all, of es] show ?case by (simp add: list_all_iff)
qed (simp_all add: reads_const reads_var)

lemma parse_print:
  assumes "printable e"
  shows "parse_toks t (print_expr e) Python =
    Ok \<lparr>body = [], ret = e, n_locals = 0, max_steps = DEFAULT_MAX_STEPS\<rparr>"
proof -
  let ?p = "pst [] (print_expr e)"
  have p: "parser_new (print_expr e) Python = ?p" by (simp add: parser_new_def pst_def)
  have "parses NConditional ?p e (pst (print_expr e) [])"
    using reads_conditional [OF print_reads [OF assms], of "[]" "[]"] by simp
  then obtain k where k: "\<forall>j\<ge>k. run_nt j NConditional ?p = (Ok e, pst (print_expr e) [])"
    using parses_run by blast
  let ?f = "parse_fuel (print_expr e)"
  have "fst (run_nt ?f NConditional ?p) \<noteq> Err OutOfFuel"
    using fuelled_run_nt [of "length (print_expr e) + 1" NConditional ?f]
    by (cases "run_nt ?f NConditional ?p")
       (auto simp: fuelled_if_def parse_fuel_def left_p_def pst_def dest!: tripleD_Err)
  then have r: "run_nt ?f NConditional ?p = (Ok e, pst (print_expr e) [])"
    using run_nt_mono [of ?f NConditional ?p "max k ?f"] k by simp
  have l: "p_lang ?p = Python" by simp
  show ?thesis
    unfolding parse_toks_def p program_p_def in_lang_def l
    by (simp add: bindM_apply r at_end_def) (simp add: pst_def)
qed



section \<open>Properties\<close>

lemma sample_parse: "parse host_target ''x'' Python
    = Ok \<lparr>body = [], ret = EVar ''x'', n_locals = 0, max_steps = DEFAULT_MAX_STEPS\<rparr>"
  by code_simp

text \<open>
  C4: the parser returns on every source, in either surface syntax: the recursion never needs
  more than the fuel computed from the number of tokens, so a result is a program or a
  reported error (or the slicing panic of the lexer).
\<close>

theorem parse_returns: "parse t src l \<noteq> Err OutOfFuel"
  by (rule parse_fuel)



text \<open>
  On an ASCII source under 64 KiB the parser does not panic: every failure is a
  \<open>DslError\<close>.
\<close>

theorem parse_ascii_no_panic: "length src < 65536 \<Longrightarrow> list_all is_ascii src \<Longrightarrow> parse t src l \<noteq> Panic"
  by (rule parse_no_panic)

theorem parse_ascii_no_panic_witness: "parse host_target ''1 + (2'' Rust \<noteq> Panic"
  by (rule parse_ascii_no_panic) (simp_all add: is_ascii_def byte_def)

text \<open>
  Outside ASCII the lexer can panic: an operator byte followed by a two-byte character
  (here a plus sign and U+00E9) makes \<open>&src[i..i + 2]\<close> cut the character.
\<close>

theorem lex_cuts_character: "parse t (''+'' @ encode_utf8 233) l = Panic"
  by (simp add: parse_def lex_def lex_loop.simps is_space_def lex_tok_def Let_def is_digit_def is_alpha_def
    lex_operator_def str_slice_def is_char_boundary_def is_cont_def byte_def encode_utf8_def)

text \<open>
  C3: every expression of the surface language is expressible and read back: parsing the
  tokens of an expression printed with every operator in parentheses gives that expression,
  with no bindings. Precedence, calls, indexing, \<open>in\<close> and the conditional all take part.
\<close>

theorem parse_print_roundtrip:
  "printable e \<Longrightarrow> parse_toks t (print_expr e) Python =
    Ok \<lparr>body = [], ret = e, n_locals = 0, max_steps = DEFAULT_MAX_STEPS\<rparr>"
  by (rule parse_print)

theorem parse_print_roundtrip_witness:
  "parse_toks host_target (print_expr (EBin AddOp (EVar ''x'') (ECall BLen [EList [EConst (VInt 1), EVar ''y'']]))) Python
    = Ok \<lparr>body = [], ret = EBin AddOp (EVar ''x'') (ECall BLen [EList [EConst (VInt 1), EVar ''y'']]),
        n_locals = 0, max_steps = DEFAULT_MAX_STEPS\<rparr>"
  by (rule parse_print_roundtrip) simp


end
