(* ===== verification/Eval.thy ===== *)
theory Eval
  imports EvalOps
begin

text \<open>
  The tree-walking evaluator of \<open>eval.rs\<close>: its frame, the step, memory and time budgets,
  the recursive \<open>eval\<close> with \<open>call_builtin\<close>, and the entry points \<open>run\<close> and \<open>run_with\<close>.
\<close>

section \<open>The frame\<close>

record 'w frame =
  f_env :: "string \<Rightarrow> 'w \<Rightarrow> val option \<times> 'w"
  f_net :: "'w net option"
  f_display :: "'w display option"
  f_actuator :: "'w actuator option"
  f_locals :: "val list"
  f_budget :: u32
  f_mem :: u32
  f_deadline :: "('w \<Rightarrow> bool \<times> 'w) option"
  f_since_check :: u32
  f_world :: 'w

type_synonym ('w, 'a) ev = "('w frame, 'a, dsl_error) comp"

definition DEADLINE_CHECK_INTERVAL :: u32 where
  "DEADLINE_CHECK_INTERVAL = 256"

definition u32_max :: nat where
  "u32_max = 2 ^ 32 - 1"

definition charge :: "nat \<Rightarrow> ('w, unit) ev" where
  "charge bytes f =
     (let b = (of_nat (min bytes u32_max) :: u32) in
      if f_mem f < b then (Err MemoryLimitErr, f) else (Ok (), f\<lparr>f_mem := f_mem f - b\<rparr>))"

text \<open>The bytes of a freshly built value: a string's bytes, or the spine of a list.\<close>

definition value_bytes :: "target \<Rightarrow> val \<Rightarrow> nat" where
  "value_bytes t v = (case v of
       VStr s \<Rightarrow> length s
     | VList l \<Rightarrow> min (usize_max t) (length l * size_of_value t)
     | _ \<Rightarrow> 0)"

definition charge_value :: "target \<Rightarrow> val \<Rightarrow> ('w, unit) ev" where
  "charge_value t v = charge (value_bytes t v)"

text \<open>The head of \<open>eval\<close>: one step of budget, and every 256 steps a look at the deadline.\<close>

definition tick :: "('w, unit) ev" where
  "tick f =
     (if f_budget f = 0 then (Err BudgetErr, f)
      else let f1 = f\<lparr>f_budget := f_budget f - 1\<rparr> in
        (case f_deadline f1 of
           None \<Rightarrow> (Ok (), f1)
         | Some deadline \<Rightarrow>
             let f2 = f1\<lparr>f_since_check := f_since_check f1 + 1\<rparr> in
             if DEADLINE_CHECK_INTERVAL \<le> f_since_check f2 then
               (let f3 = f2\<lparr>f_since_check := 0\<rparr>; (late, w) = deadline (f_world f3); f4 = f3\<lparr>f_world := w\<rparr>
                in if late then (Err TimeoutErr, f4) else (Ok (), f4))
             else (Ok (), f2)))"

section \<open>Capabilities used by the evaluator\<close>

definition read_local :: "u16 \<Rightarrow> ('w, val) ev" where
  "read_local i f = (if unat i < length (f_locals f) then (Ok (f_locals f ! unat i), f) else (Panic, f))"

definition read_env :: "string \<Rightarrow> ('w, val) ev" where
  "read_env name f = (case f_env f name (f_world f) of
     (r, w) \<Rightarrow> (ok_or r (UnknownNameErr name), f\<lparr>f_world := w\<rparr>))"

definition run_builtin :: "target \<Rightarrow> builtin \<Rightarrow> val list \<Rightarrow> ('w, val) ev" where
  "run_builtin t b vals f = (case apply_builtin t b vals (f_display f) (f_actuator f) (f_world f) of
     (r, w) \<Rightarrow> (r, f\<lparr>f_world := w\<rparr>))"

definition do_fetch :: "string \<Rightarrow> ('w, val) ev" where
  "do_fetch url f = (case f_net f of
       Some n \<Rightarrow> (case net_fetch n url (f_world f) of
           (r, w) \<Rightarrow> (bindR (of_result r) (\<lambda>s. Ok (VStr s)), f\<lparr>f_world := w\<rparr>))
     | None \<Rightarrow> (Err (NetErr ''no network capability installed''), f))"

definition do_fetch_json :: "target \<Rightarrow> string \<Rightarrow> string \<Rightarrow> ('w, val) ev" where
  "do_fetch_json t url path f = (case f_net f of
       Some n \<Rightarrow> (case net_fetch_extract n url (json_probe t path) (f_world f) of
           (r, w) \<Rightarrow> (of_result r, f\<lparr>f_world := w\<rparr>))
     | None \<Rightarrow> (Err (NetErr ''no network capability installed''), f))"

text \<open>\<open>call_builtin\<close> once its arguments are evaluated.\<close>

definition call_values :: "target \<Rightarrow> builtin \<Rightarrow> val list \<Rightarrow> ('w, val) ev" where
  "call_values t b vals = (case b of
       BFetch \<Rightarrow> bindM (liftR (arity1 BFetch vals (\<lambda>v. expect_str v ''fetch() expects a url string''))) do_fetch
     | BFetchJson \<Rightarrow> bindM (liftR (arity2 BFetchJson vals (\<lambda>u p.
           bindR (expect_str u ''fetch_json() expects a url string'') (\<lambda>url.
           bindR (expect_str p ''fetch_json() expects a path string'') (\<lambda>path. Ok (url, path))))))
         (\<lambda>(url, path). do_fetch_json t url path)
     | _ \<Rightarrow> run_builtin t b vals)"

section \<open>The evaluator\<close>

definition negate :: "target \<Rightarrow> val \<Rightarrow> val res" where
  "negate t v = (case v of
       VInt n \<Rightarrow> bindR (neg_i64 t n) (\<lambda>m. Ok (VInt m))
     | VFloat x \<Rightarrow> Ok (VFloat (fneg x))
     | _ \<Rightarrow> terr ''cannot negate a non-number'')"

definition unary_op :: "target \<Rightarrow> un_op \<Rightarrow> val \<Rightarrow> val res" where
  "unary_op t op v = (case op of
       NegOp \<Rightarrow> negate t v
     | NotOp \<Rightarrow> bindR (as_bool v) (\<lambda>b. Ok (VBool (\<not> b))))"

text \<open>Charge for the value a node built, then return it.\<close>

definition charged :: "target \<Rightarrow> val \<Rightarrow> ('w, val) ev" where
  "charged t v = bindM (charge_value t v) (\<lambda>u. returnM v)"

fun eval :: "target \<Rightarrow> expr \<Rightarrow> ('w, val) ev"
  and eval_args :: "target \<Rightarrow> expr list \<Rightarrow> ('w, val list) ev" where
  "eval t (EConst v) = bindM tick (\<lambda>u. returnM v)"
| "eval t (ELocal i) = bindM tick (\<lambda>u. read_local i)"
| "eval t (EVar name) = bindM tick (\<lambda>u. read_env name)"
| "eval t (EBin op a b) = bindM tick (\<lambda>u.
     bindM (eval t a) (\<lambda>x. bindM (eval t b) (\<lambda>y.
     bindM (liftR (num_binop op x y)) (charged t))))"
| "eval t (ECmp op a b) = bindM tick (\<lambda>u.
     bindM (eval t a) (\<lambda>x. bindM (eval t b) (\<lambda>y.
     bindM (liftR (compare op x y)) (\<lambda>r. returnM (VBool r)))))"
| "eval t (EBool op a b) = bindM tick (\<lambda>u.
     bindM (eval t a) (\<lambda>x. bindM (liftR (as_bool x)) (\<lambda>l.
       if op = AndOp \<and> \<not> l then returnM (VBool False)
       else if op = OrOp \<and> l then returnM (VBool True)
       else bindM (eval t b) (\<lambda>y. bindM (liftR (as_bool y)) (\<lambda>r. returnM (VBool r))))))"
| "eval t (EUnary op a) = bindM tick (\<lambda>u.
     bindM (eval t a) (\<lambda>x. liftR (unary_op t op x)))"
| "eval t (EIndex l i) = bindM tick (\<lambda>u.
     bindM (eval t l) (\<lambda>x. bindM (eval t i) (\<lambda>y. liftR (index_val x y))))"
| "eval t (EIf c a b) = bindM tick (\<lambda>u.
     bindM (eval t c) (\<lambda>x. bindM (liftR (as_bool x)) (\<lambda>r.
       if r then eval t a else eval t b)))"
| "eval t (ECall b args) = bindM tick (\<lambda>u.
     bindM (eval_args t args) (\<lambda>vals. bindM (call_values t b vals) (charged t)))"
| "eval t (EList items) = bindM tick (\<lambda>u.
     bindM (eval_args t items) (\<lambda>vals. charged t (VList vals)))"
| "eval_args t [] = returnM []"
| "eval_args t (e # es) = bindM (eval t e) (\<lambda>v. bindM (eval_args t es) (\<lambda>vs. returnM (v # vs)))"

section \<open>Entry points\<close>

record 'w limits =
  lim_max_steps :: u32
  lim_max_bytes :: u32
  lim_deadline :: "('w \<Rightarrow> bool \<times> 'w) option"
  lim_net :: "'w net option"
  lim_display :: "'w display option"
  lim_actuator :: "'w actuator option"

definition default_limits :: "'w limits" where
  "default_limits = \<lparr>lim_max_steps = DEFAULT_MAX_STEPS, lim_max_bytes = -1, lim_deadline = None,
     lim_net = None, lim_display = None, lim_actuator = None\<rparr>"

definition vec_filled :: "nat \<Rightarrow> val list" where
  "vec_filled n = replicate n (VInt 0)"

definition write_local :: "u16 \<Rightarrow> val \<Rightarrow> ('w, unit) ev" where
  "write_local i v f = (if unat i < length (f_locals f)
     then (Ok (), f\<lparr>f_locals := (f_locals f)[unat i := v]\<rparr>) else (Panic, f))"

fun run_lets :: "target \<Rightarrow> let_binding list \<Rightarrow> ('w, unit) ev" where
  "run_lets t [] = returnM ()"
| "run_lets t (b # bs) = bindM (eval t (bound b)) (\<lambda>v. bindM (write_local (slot b) v) (\<lambda>u. run_lets t bs))"

definition run_body :: "target \<Rightarrow> program \<Rightarrow> ('w, val) ev" where
  "run_body t p = bindM (run_lets t (body p)) (\<lambda>u. eval t (ret p))"

definition init_frame ::
  "program \<Rightarrow> (string \<Rightarrow> 'w \<Rightarrow> val option \<times> 'w) \<Rightarrow> 'w limits \<Rightarrow> 'w \<Rightarrow> 'w frame"
where
  "init_frame p env lim w = \<lparr>f_env = env, f_net = lim_net lim, f_display = lim_display lim,
     f_actuator = lim_actuator lim, f_locals = vec_filled (unat (n_locals p)),
     f_budget = lim_max_steps lim, f_mem = lim_max_bytes lim, f_deadline = lim_deadline lim,
     f_since_check = 0, f_world = w\<rparr>"

definition run_with ::
  "target \<Rightarrow> program \<Rightarrow> (string \<Rightarrow> 'w \<Rightarrow> val option \<times> 'w) \<Rightarrow> 'w limits \<Rightarrow> 'w \<Rightarrow> val res \<times> 'w frame"
where
  "run_with t p env lim w = run_body t p (init_frame p env lim w)"

definition run ::
  "target \<Rightarrow> program \<Rightarrow> (string \<Rightarrow> 'w \<Rightarrow> val option \<times> 'w) \<Rightarrow> 'w \<Rightarrow> val res \<times> 'w frame"
where
  "run t p env w = run_with t p env
     \<lparr>lim_max_steps = max_steps p, lim_max_bytes = -1, lim_deadline = None,
      lim_net = None, lim_display = None, lim_actuator = None\<rparr> w"

text \<open>An environment that reads a \<open>VecEnv\<close> and leaves the world alone.\<close>

definition vec_env_reader :: "vec_env \<Rightarrow> string \<Rightarrow> 'w \<Rightarrow> val option \<times> 'w" where
  "vec_env_reader e name w = (vec_env_get e name, w)"

end
