(* ===== verification/OpsFacts.thy ===== *)
theory OpsFacts
  imports Eval
begin

text \<open>
  Facts on the value helpers and builtins: which errors and panics they can give.
\<close>

lemma mild_as_bool [simp]: "mild c (as_bool v)"
  by (cases v) simp_all

lemma mild_terr [simp]: "mild c (terr m)"
  by (simp add: terr_def)

lemma mild_as_f64 [simp]: "mild c (as_f64 v)"
  by (cases v) simp_all

text \<open>The only panic of a binary operation is the quotient of the least \<open>i64\<close> by minus one.\<close>

definition div_overflow :: "bin_op \<Rightarrow> val \<Rightarrow> val \<Rightarrow> bool" where
  "div_overflow op a b \<longleftrightarrow> (op = DivOp \<or> op = RemOp) \<and> a = VInt i64_min \<and> b = VInt (-1)"

lemma mild_int_binop: "mild (div_overflow op (VInt x) (VInt y)) (int_binop op x y)"
  by (cases op) (auto simp: div_overflow_def div_i64_def rem_i64_def)

lemma mild_num_binop: "mild (div_overflow op a b) (num_binop op a b)"
proof (cases "\<exists>x y. a = VInt x \<and> b = VInt y")
  case True
  then show ?thesis by (auto simp: num_binop_def mild_int_binop)
next
  case False
  then have "num_binop op a b = Ok (VStr (to_str a @ to_str b)) \<or>
     num_binop op a b = bindR (as_f64 a) (\<lambda>x. bindR (as_f64 b) (\<lambda>y. Ok (VFloat (float_binop op x y))))"
    by (cases a; cases b) (simp_all add: num_binop_def)
  then show ?thesis by (elim disjE) (auto intro!: mild_intros)
qed

lemma mild_compare [simp]: "mild c (compare op a b)"
  by (auto simp: compare_def intro!: mild_intros split: val.split cmp_op.split)

lemma mild_index [simp]: "mild c (index_val l i)"
  by (auto simp: index_val_def Let_def split: val.split)

lemma mild_expect_str [simp]: "mild c (expect_str v m)"
  by (cases v) (simp_all add: expect_str_def)

lemma mild_arity1 [mild_intros]: "(\<And>v. mild c (k v)) \<Longrightarrow> mild c (arity1 b vals k)"
  by (auto simp: arity1_def split: list.split)

lemma mild_arity2 [mild_intros]: "(\<And>v w. mild c (k v w)) \<Longrightarrow> mild c (arity2 b vals k)"
  by (auto simp: arity2_def split: list.split)

lemma mild_arity3 [mild_intros]: "(\<And>u v w. mild c (k u v w)) \<Longrightarrow> mild c (arity3 b vals k)"
  by (auto simp: arity3_def split: list.split)

lemma mild_single_list [simp]: "mild c (single_list vals name)"
  by (auto simp: single_list_def split: list.split val.split)

lemma mild_list_of [simp]: "mild c (list_of v name)"
  by (cases v) (simp_all add: list_of_def)

text \<open>With overflow checks on, \<open>abs\<close>, unary minus and \<open>sum\<close> may panic.\<close>

lemma mild_abs_i64: "mild (overflow_checks t) (abs_i64 t n)"
  by (simp add: abs_i64_def neg_i64_def)

lemma mild_negate: "mild (overflow_checks t) (negate t v)"
  by (cases v) (auto simp: negate_def neg_i64_def)

lemma mild_unary: "mild (overflow_checks t) (unary_op t op v)"
  by (cases op) (auto simp: unary_op_def mild_negate intro!: mild_intros)

lemma mild_sum_loop: "mild (overflow_checks t) (sum_loop t i x a vs)"
  by (induction vs arbitrary: i x a)
     (auto simp: add_i64_def intro!: mild_intros split: val.split)

lemma mild_any_loop [simp]: "mild c (any_loop vs)"
  by (induction vs) (auto intro!: mild_intros)

lemma mild_all_loop [simp]: "mild c (all_loop vs)"
  by (induction vs) (auto intro!: mild_intros)

lemma mild_minmax_loop [simp]: "mild c (minmax_loop b v x vs)"
  by (induction vs arbitrary: v x) (auto intro!: mild_intros)

lemma mild_reduce_minmax [simp]: "mild c (reduce_minmax b vals name)"
  by (auto simp: reduce_minmax_def intro!: mild_intros split: list.split val.split)

lemma mild_bi_simps [simp]:
  "mild c (bi_len vals)" "mild c (bi_round vals)" "mild c (bi_int vals)" "mild c (bi_float vals)"
  "mild c (bi_bool vals)" "mild c (bi_any vals)" "mild c (bi_all vals)" "mild c (bi_contains vals)"
  "mild c (bi_index vals)" "mild c (bi_before vals)" "mild c (bi_first vals)" "mild c (bi_last vals)"
  "mild c (bi_str vals)" "mild c (bi_print vals)" "mild c (bi_case t b vals)" "mild c (bi_reverse vals)"
  by (auto simp: bi_len_def bi_round_def bi_int_def bi_float_def bi_bool_def bi_any_def bi_all_def
      bi_contains_def bi_index_def bi_before_def bi_first_def bi_last_def bi_str_def bi_print_def
      bi_case_def bi_reverse_def intro!: mild_intros split: val.split list.split)

lemma mild_bi_abs: "mild (overflow_checks t) (bi_abs t vals)"
  by (auto simp: bi_abs_def mild_abs_i64 intro!: mild_intros split: val.split)

lemma mild_bi_sum: "mild (overflow_checks t) (bi_sum t vals)"
  by (auto simp: bi_sum_def mild_sum_loop intro!: mild_intros)


lemma mild_bi_json [simp]: "mild c (bi_json_get t vals)"
  by (auto simp: bi_json_get_def intro!: mild_intros split: val.split)

lemma mild_led_args: "mild c (led_args v)"
  by (auto simp: led_args_def intro!: mild_intros split: val.split option.split)

end
