(* ===== verification/EvalFacts.thy ===== *)
theory EvalFacts
  imports OpsFacts
begin

text \<open>Induction over an expression and over an argument list at once.\<close>

lemma expr_args_induct [case_names Const Local Var Bin Cmp Bool Unary Index If Call List Nil Cons]:
  assumes "\<And>v. P (EConst v)" and "\<And>i. P (ELocal i)" and "\<And>x. P (EVar x)"
    and "\<And>op a b. P a \<Longrightarrow> P b \<Longrightarrow> P (EBin op a b)"
    and "\<And>op a b. P a \<Longrightarrow> P b \<Longrightarrow> P (ECmp op a b)"
    and "\<And>op a b. P a \<Longrightarrow> P b \<Longrightarrow> P (EBool op a b)"
    and "\<And>op a. P a \<Longrightarrow> P (EUnary op a)"
    and "\<And>a b. P a \<Longrightarrow> P b \<Longrightarrow> P (EIndex a b)"
    and "\<And>c a b. P c \<Longrightarrow> P a \<Longrightarrow> P b \<Longrightarrow> P (EIf c a b)"
    and "\<And>f as. Q as \<Longrightarrow> P (ECall f as)" and "\<And>as. Q as \<Longrightarrow> P (EList as)"
    and "Q []" and "\<And>e es. P e \<Longrightarrow> Q es \<Longrightarrow> Q (e # es)"
  shows "P e" and "Q es"
proof -
  have Q: "Q xs" if "\<And>x. x \<in> set xs \<Longrightarrow> P x" for xs
    using that by (induction xs) (auto intro: assms(12,13))
  show P: "P e" for e
    by (induction e) (auto intro: assms(1-11) Q)
  show "Q es" by (rule Q) (rule P)
qed

section \<open>Relations every step keeps\<close>

lemma frame_relation_bind:
  fixes R :: "'s \<Rightarrow> 's \<Rightarrow> bool"
  assumes "\<And>a b c. R a b \<Longrightarrow> R b c \<Longrightarrow> R a c" and "\<And>f. R f (snd (m f))" and "\<And>v f. R f (snd (k v f))"
  shows "R f (snd (bindM m k f))"
proof (cases "m f")
  case (Pair r f')
  with assms(2) [of f] have "R f f'" by simp
  with assms(1,3) Pair show ?thesis by (cases r) (auto simp: bindM_apply)
qed

text \<open>
  The contract between the evaluator and the primitive operations on its frame: a transitive
  relation between frames that each primitive keeps. The evaluator then keeps it, whatever
  the outcome.
\<close>

locale frame_relation =
  fixes t :: target
    and R :: "'w frame \<Rightarrow> 'w frame \<Rightarrow> bool"
  assumes R_refl: "R f f"
    and R_trans: "R f g \<Longrightarrow> R g h \<Longrightarrow> R f h"
    and R_tick: "R f (snd (tick f))"
    and R_charge: "R f (snd (charge n f))"
    and R_env: "R f (snd (read_env name f))"
    and R_builtin: "b \<noteq> BFetch \<Longrightarrow> b \<noteq> BFetchJson \<Longrightarrow> R f (snd (run_builtin t b vals f))"
    and R_fetch: "R f (snd (do_fetch url f))"
    and R_fetch_json: "R f (snd (do_fetch_json t url path f))"
begin

lemma R_bind: "(\<And>f. R f (snd (m f))) \<Longrightarrow> (\<And>v f. R f (snd (k v f))) \<Longrightarrow> R f (snd (bindM m k f))"
  using R_trans by (rule frame_relation_bind)

lemma R_return: "R f (snd (returnM v f))"
  by (simp add: R_refl)

lemma R_lift: "R f (snd (liftR r f))"
  by (simp add: R_refl)

lemma R_local: "R f (snd (read_local i f))"
  by (simp add: read_local_def R_refl)

lemma R_charged: "R f (snd (charged t v f))"
  unfolding charged_def charge_value_def by (intro R_bind) (simp_all add: R_charge R_refl)

lemma R_call: "R f (snd (call_values t b vals f))"
  by (cases b) (auto simp: call_values_def R_refl R_builtin R_fetch R_fetch_json intro!: R_bind split: prod.split)

lemma R_eval: "R f (snd (eval t e f))"
  and R_args: "R f (snd (eval_args t es f))"
  by (induction e and es arbitrary: f and f rule: expr_args_induct)
     (auto intro!: R_bind simp: R_refl R_local R_tick R_env R_charged R_call)

end

locale frame_relation_lets = frame_relation +
  assumes R_write: "R f (snd (write_local i v f))"
begin

lemma R_lets: "R f (snd (run_lets t bs f))"
  by (induction bs arbitrary: f) (auto intro!: R_bind simp: R_refl R_eval R_write)

lemma R_body: "R f (snd (run_body t p f))"
  unfolding run_body_def by (intro R_bind) (simp_all add: R_lets R_eval)

end


definition frame_le :: "'w frame \<Rightarrow> 'w frame \<Rightarrow> bool" where
  "frame_le f g \<longleftrightarrow> f_budget g \<le> f_budget f \<and> f_mem g \<le> f_mem f
     \<and> length (f_locals g) = length (f_locals f)
     \<and> f_env g = f_env f \<and> f_net g = f_net f \<and> f_display g = f_display f
     \<and> f_actuator g = f_actuator f \<and> f_deadline g = f_deadline f"

lemma frame_le_tick: "frame_le f (snd (tick f))"
  by (auto simp: tick_def frame_le_def Let_def word_le_nat_alt unat_minus_one split: option.split prod.split)

lemma frame_le_charge: "frame_le f (snd (charge n f))"
  by (auto simp: charge_def frame_le_def Let_def word_le_nat_alt not_less unat_sub)

interpretation fle: frame_relation_lets t frame_le for t
proof (unfold_locales, goal_cases)
  case (1 f)
  show ?case by (simp add: frame_le_def)
next
  case (2 f g h)
  then show ?case by (auto simp: frame_le_def)
qed (simp_all add: frame_le_tick frame_le_charge,
     simp_all add: read_env_def run_builtin_def do_fetch_def do_fetch_json_def
       write_local_def frame_le_def split: prod.split option.split)

interpretation keep_locals: frame_relation t "\<lambda>f g. f_locals g = f_locals f" for t
  by unfold_locales
     (auto simp: tick_def charge_def read_env_def run_builtin_def do_fetch_def do_fetch_json_def Let_def
       split: prod.split option.split)

text \<open>
  The sandbox: with no capability installed and an environment that only reads, nothing
  outside the frame changes.
\<close>

definition sandboxed :: "'w frame \<Rightarrow> bool" where
  "sandboxed f \<longleftrightarrow> f_net f = None \<and> f_display f = None \<and> f_actuator f = None \<and> f_deadline f = None
     \<and> (\<forall>x w. snd (f_env f x w) = w)"

definition sandbox_keeps :: "'w frame \<Rightarrow> 'w frame \<Rightarrow> bool" where
  "sandbox_keeps f g \<longleftrightarrow> (sandboxed f \<longrightarrow> sandboxed g \<and> f_world g = f_world f)"

lemma apply_builtin_world:
  "snd (apply_builtin t b vals None None w) = w"
  by (cases b) (auto simp: apply_builtin_def bi_show_def bi_led_def bi_flash_def split: list.split)

lemma sandbox_tick: "sandbox_keeps f (snd (tick f))"
  by (simp add: sandbox_keeps_def sandboxed_def tick_def Let_def)

lemma sandbox_env: "sandbox_keeps f (snd (read_env name f))"
  unfolding sandbox_keeps_def
proof
  assume s: "sandboxed f"
  then have "snd (f_env f name (f_world f)) = f_world f" by (simp add: sandboxed_def)
  with s show "sandboxed (snd (read_env name f)) \<and> f_world (snd (read_env name f)) = f_world f"
    by (simp add: sandboxed_def read_env_def split_beta)
qed

lemma sandbox_builtin: "sandbox_keeps f (snd (run_builtin t b vals f))"
  unfolding sandbox_keeps_def
  by (simp add: sandboxed_def run_builtin_def split_beta apply_builtin_world)

lemma sandbox_fetch: "sandbox_keeps f (snd (do_fetch url f))"
  unfolding sandbox_keeps_def
proof
  assume s: "sandboxed f"
  then have "do_fetch url f = (Err (NetErr ''no network capability installed''), f)"
    by (simp add: do_fetch_def sandboxed_def)
  with s show "sandboxed (snd (do_fetch url f)) \<and> f_world (snd (do_fetch url f)) = f_world f"
    by simp
qed

lemma sandbox_fetch_json: "sandbox_keeps f (snd (do_fetch_json t url path f))"
  unfolding sandbox_keeps_def
proof
  assume s: "sandboxed f"
  then have "do_fetch_json t url path f = (Err (NetErr ''no network capability installed''), f)"
    by (simp add: do_fetch_json_def sandboxed_def)
  with s show "sandboxed (snd (do_fetch_json t url path f))
      \<and> f_world (snd (do_fetch_json t url path f)) = f_world f"
    by simp
qed

lemma sandboxed_locals: "sandboxed (f\<lparr>f_locals := l\<rparr>) = sandboxed f"
  by (simp add: sandboxed_def)

lemma sandbox_write: "sandbox_keeps f (snd (write_local i v f))"
  unfolding sandbox_keeps_def write_local_def by (simp add: sandboxed_locals)

interpretation sandbox: frame_relation_lets t sandbox_keeps for t
proof (unfold_locales, goal_cases)
  case (1 f)
  show ?case by (simp add: sandbox_keeps_def)
next
  case (2 f g h)
  then show ?case by (simp add: sandbox_keeps_def)
next
  case (3 f)
  show ?case by (rule sandbox_tick)
next
  case (4 n f)
  show ?case by (simp add: sandbox_keeps_def sandboxed_def charge_def Let_def)
next
  case (5 name f)
  show ?case by (rule sandbox_env)
next
  case (6 b vals f)
  show ?case by (rule sandbox_builtin)
next
  case (7 url f)
  show ?case by (rule sandbox_fetch)
next
  case (8 url path f)
  show ?case by (rule sandbox_fetch_json)
next
  case (9 f i v)
  show ?case by (rule sandbox_write)
qed

end
