(* ===== verification/EvalSafe.thy ===== *)
theory EvalSafe
  imports EvalFacts
begin

text \<open>
  What the evaluator guarantees about panics and about the step budget: a verified program
  with literal divisors never panics in a release build, and evaluation spends at most one
  step per IR node.
\<close>

section \<open>Builtins do not panic\<close>

lemma apply_builtin_cases:
  "b \<noteq> BFetch \<Longrightarrow> b \<noteq> BFetchJson \<Longrightarrow>
    (mild (overflow_checks t) (fst (apply_builtin t b vals d a w)) \<and> snd (apply_builtin t b vals d a w) = w)
  \<or> (b = BShow \<and> apply_builtin t b vals d a w = bi_show d vals w)
  \<or> (b = BLed \<and> apply_builtin t b vals d a w = bi_led a vals w)
  \<or> (b = BFlash \<and> apply_builtin t b vals d a w = bi_flash a vals w)"
  by (cases b) (simp_all add: apply_builtin_def mild_bi_abs mild_bi_sum mild_bi_json)

lemma bi_show_no_panic: "fst (bi_show d vals w) \<noteq> Panic"
  by (simp add: bi_show_def split: list.split option.split prod.split sum.split)

lemma bi_flash_no_panic: "fst (bi_flash a vals w) \<noteq> Panic"
  by (simp add: bi_flash_def split: list.split option.split prod.split sum.split)

lemma bi_led_no_panic: "fst (bi_led a vals w) \<noteq> Panic"
  using mild_not_Panic [OF mild_led_args]
  by (auto simp: bi_led_def split: list.split option.split prod.split sum.split outcome.split)

lemma apply_builtin_no_panic:
  "b \<noteq> BFetch \<Longrightarrow> b \<noteq> BFetchJson \<Longrightarrow> \<not> overflow_checks t \<Longrightarrow> fst (apply_builtin t b vals d a w) \<noteq> Panic"
  using apply_builtin_cases [of b t vals d a w]
  by (auto simp: bi_show_no_panic bi_led_no_panic bi_flash_no_panic dest!: mild_not_Panic)


section \<open>Verified programs do not panic\<close>

text \<open>Every quotient and remainder has a literal divisor that is not minus one.\<close>

fun const_divisors :: "expr \<Rightarrow> bool" where
  "const_divisors (EBin op a b) = (const_divisors a \<and> const_divisors b \<and>
     (op = DivOp \<or> op = RemOp \<longrightarrow> (\<exists>v. b = EConst v \<and> v \<noteq> VInt (-1))))"
| "const_divisors (ECmp op a b) = (const_divisors a \<and> const_divisors b)"
| "const_divisors (EBool op a b) = (const_divisors a \<and> const_divisors b)"
| "const_divisors (EUnary op a) = const_divisors a"
| "const_divisors (EIndex a b) = (const_divisors a \<and> const_divisors b)"
| "const_divisors (EIf a b c) = (const_divisors a \<and> const_divisors b \<and> const_divisors c)"
| "const_divisors (ECall f as) = list_all const_divisors as"
| "const_divisors (EList as) = list_all const_divisors as"
| "const_divisors (EConst v) = True"
| "const_divisors (EVar x) = True"
| "const_divisors (ELocal i) = True"

text \<open>
  \<open>safe n m Q\<close>: from a frame with \<open>n\<close> locals the step does not panic, keeps the number of
  locals, and its value satisfies \<open>Q\<close>.
\<close>

definition safe :: "nat \<Rightarrow> ('w, 'a) ev \<Rightarrow> ('a \<Rightarrow> bool) \<Rightarrow> bool" where
  "safe n m Q \<longleftrightarrow> triple (\<lambda>f. length (f_locals f) = n) m
     (\<lambda>v f. length (f_locals f) = n \<and> Q v) (\<lambda>e f. e \<noteq> None)"

lemma safe_bind:
  assumes "safe n m R" and "\<And>v. R v \<Longrightarrow> safe n (k v) Q"
  shows "safe n (bindM m k) Q"
  unfolding safe_def
proof (rule triple_bind)
  show "triple (\<lambda>f. length (f_locals f) = n) m (\<lambda>v f. length (f_locals f) = n \<and> R v) (\<lambda>e f. e \<noteq> None)"
    using assms(1) by (simp add: safe_def)
  show "triple (\<lambda>f. length (f_locals f) = n \<and> R v) (k v)
      (\<lambda>v f. length (f_locals f) = n \<and> Q v) (\<lambda>e f. e \<noteq> None)" for v
    using assms(2) [of v] by (cases "R v") (simp_all add: safe_def triple_def)
qed

lemma safe_bind_any:
  "safe n m (\<lambda>v. True) \<Longrightarrow> (\<And>v. safe n (k v) Q) \<Longrightarrow> safe n (bindM m k) Q"
  by (rule safe_bind)

lemma safe_returnI: "Q v \<Longrightarrow> safe n (returnM v) Q"
  by (simp add: safe_def triple_def)

lemma safe_weaken: "safe n m Q \<Longrightarrow> (\<And>v. Q v \<Longrightarrow> R v) \<Longrightarrow> safe n m R"
  unfolding safe_def by (erule triple_conseq) auto

lemma safe_lift: "r \<noteq> Panic \<Longrightarrow> safe n (liftR r) (\<lambda>v. True)"
  by (cases r) (simp_all add: safe_def triple_def)

lemma safeI:
  "(\<And>f. length (f_locals f) = n \<Longrightarrow> fst (m f) \<noteq> Panic) \<Longrightarrow> (\<And>f. frame_le f (snd (m f))) \<Longrightarrow>
   safe n m (\<lambda>v. True)"
  unfolding safe_def by (rule tripleI) (force simp: frame_le_def split: prod.split outcome.split)

lemma safe_tick: "safe n tick (\<lambda>v. True)"
  by (rule safeI) (simp_all add: tick_def fle.R_tick [unfolded tick_def] Let_def split: option.split prod.split)

lemma safe_charged: "safe n (charged t v) (\<lambda>v. True)"
  by (rule safeI) (simp_all add: fle.R_charged,
     simp add: charged_def charge_value_def charge_def Let_def bindM_apply)

lemma safe_local: "unat i < n \<Longrightarrow> safe n (read_local i) (\<lambda>v. True)"
  by (rule safeI) (simp_all add: fle.R_local, simp add: read_local_def)

lemma safe_env: "safe n (read_env x) (\<lambda>v. True)"
  by (rule safeI) (simp_all add: fle.R_env, simp add: read_env_def ok_or_def split: prod.split option.split)

lemma safe_do_fetch: "safe n (do_fetch url) (\<lambda>v. True)"
  by (rule safeI) (simp_all add: fle.R_fetch,
     simp add: do_fetch_def bindR_eq_Panic split: option.split prod.split)

lemma safe_do_fetch_json: "safe n (do_fetch_json t url path) (\<lambda>v. True)"
  by (rule safeI) (simp_all add: fle.R_fetch_json, simp add: do_fetch_json_def split: option.split prod.split)

lemma safe_run_builtin:
  "b \<noteq> BFetch \<Longrightarrow> b \<noteq> BFetchJson \<Longrightarrow> \<not> overflow_checks t \<Longrightarrow> safe n (run_builtin t b vals) (\<lambda>v. True)"
  by (rule safeI) (simp_all add: fle.R_builtin,
     simp add: run_builtin_def split_beta apply_builtin_no_panic)

lemma arity_mild [simp]:
  "mild c (arity1 BFetch vals (\<lambda>v. expect_str v m))"
  "mild c (arity2 BFetchJson vals (\<lambda>u p. bindR (expect_str u m) (\<lambda>url.
      bindR (expect_str p m') (\<lambda>path. Ok (url, path)))))"
  by (auto intro!: mild_intros)

lemma safe_call: "\<not> overflow_checks t \<Longrightarrow> safe n (call_values t b vals) (\<lambda>v. True)"
  by (cases b) (auto simp: call_values_def safe_run_builtin safe_do_fetch safe_do_fetch_json
      intro!: safe_bind_any safe_lift mild_not_Panic split: prod.split)

lemma safe_const: "safe n (eval t (EConst v)) (\<lambda>w. w = v)"
  by (simp del: bindM_def) (rule safe_bind_any safe_tick safe_returnI refl)+

lemma ops_not_Panic [simp]:
  "as_bool v \<noteq> Panic" "compare op a b \<noteq> Panic" "index_val l i \<noteq> Panic"
  by (rule mild_not_Panic, simp)+

lemma unary_not_Panic: "\<not> overflow_checks t \<Longrightarrow> unary_op t op v \<noteq> Panic"
  using mild_unary [of t op v] by (auto intro: mild_not_Panic)

lemma safe_eval:
  assumes "\<not> overflow_checks t"
  shows "locals_below n e \<Longrightarrow> const_divisors e \<Longrightarrow> safe n (eval t e :: ('w, val) ev) (\<lambda>v. True)"
    and "list_all (locals_below n) es \<Longrightarrow> list_all const_divisors es \<Longrightarrow> safe n (eval_args t es :: ('w, val list) ev) (\<lambda>v. True)"
proof (induction e and es rule: expr_args_induct)
  case (Bin op a b)
  have b: "safe n (eval t b :: ('w, val) ev) (\<lambda>y. op = DivOp \<or> op = RemOp \<longrightarrow> y \<noteq> VInt (-1))"
  proof (cases "op = DivOp \<or> op = RemOp")
    case True
    with Bin.prems(2) obtain v where "b = EConst v" "v \<noteq> VInt (-1)" by auto
    with safe_const [of n t v] show ?thesis by (auto simp del: eval.simps intro: safe_weaken)
  next
    case False
    with Bin.IH(2) Bin.prems show ?thesis by (auto simp del: eval.simps intro: safe_weaken)
  qed
  have "safe n (liftR (num_binop op x y) :: ('w, val) ev) (\<lambda>v. True)"
    if "op = DivOp \<or> op = RemOp \<longrightarrow> y \<noteq> VInt (-1)" for x y
    using that mild_num_binop [of op x y] by (intro safe_lift) (auto simp: div_overflow_def)
  with Bin b show ?case
    by (simp del: num_binop_def) (blast intro: safe_bind safe_bind_any safe_tick safe_charged)
qed (auto simp: assms unary_not_Panic intro!: safe_bind_any safe_tick safe_charged safe_local safe_env safe_call safe_returnI safe_lift)


lemma safe_write: "unat i < n \<Longrightarrow> safe n (write_local i v) (\<lambda>v. True)"
  by (rule safeI) (simp_all add: fle.R_write, simp add: write_local_def)

lemma safe_lets:
  assumes "\<not> overflow_checks t"
  shows "list_all (\<lambda>b. unat (slot b) < n \<and> locals_below n (bound b) \<and> const_divisors (bound b)) bs \<Longrightarrow>
    safe n (run_lets t bs :: ('w, unit) ev) (\<lambda>v. True)"
  by (induction bs) (auto simp: assms intro!: safe_bind_any safe_eval safe_write safe_returnI)

definition const_divisors_program :: "program \<Rightarrow> bool" where
  "const_divisors_program p \<longleftrightarrow> list_all (\<lambda>b. const_divisors (bound b)) (body p) \<and> const_divisors (ret p)"

lemma safe_run_body:
  assumes "\<not> overflow_checks t" "wf_program p" "const_divisors_program p"
  shows "safe (unat (n_locals p)) (run_body t p :: ('w, val) ev) (\<lambda>v. True)"
  unfolding run_body_def using assms
  by (intro safe_bind_any safe_lets safe_eval)
     (auto simp: wf_program_def const_divisors_program_def list_all_iff)

lemma no_panic_run:
  "\<not> overflow_checks t \<Longrightarrow> wf_program p \<Longrightarrow> const_divisors_program p \<Longrightarrow>
   fst (run_with t p env lim w) \<noteq> Panic"
  using safe_run_body [of t p]
  by (cases "run_body t p (init_frame p env lim w)")
     (auto simp: run_with_def safe_def init_frame_def vec_filled_def dest!: tripleD_Panic)

section \<open>The step budget\<close>

text \<open>
  \<open>spends n m\<close>: whatever its outcome the step uses at most \<open>n\<close> units of the budget, and
  reports the budget exhausted only when less than \<open>n\<close> was left, as long as the
  capabilities do not report it themselves (\<open>closed_frame\<close>: none is installed).
\<close>

definition closed_frame :: "'w frame \<Rightarrow> bool" where
  "closed_frame f \<longleftrightarrow> f_net f = None \<and> f_display f = None \<and> f_actuator f = None"

definition spends :: "nat \<Rightarrow> ('w, 'a) ev \<Rightarrow> bool" where
  "spends n m \<longleftrightarrow> (\<forall>f. frame_le f (snd (m f)) \<and> unat (f_budget f) \<le> unat (f_budget (snd (m f))) + n
     \<and> (closed_frame f \<and> fst (m f) = Err BudgetErr \<longrightarrow> unat (f_budget f) < n))"

lemma closed_frame_le: "frame_le f g \<Longrightarrow> closed_frame f \<Longrightarrow> closed_frame g"
  by (simp add: frame_le_def closed_frame_def)

lemma spends_bind:
  assumes m: "spends i m" and k: "\<And>v. spends j (k v)"
  shows "spends (i + j) (bindM m k)"
  unfolding spends_def
proof
  fix f
  obtain r g where mf: "m f = (r, g)" by (cases "m f")
  with m have g: "frame_le f g" "unat (f_budget f) \<le> unat (f_budget g) + i"
    "closed_frame f \<Longrightarrow> r = Err BudgetErr \<Longrightarrow> unat (f_budget f) < i"
    by (auto simp: spends_def dest: spec [of _ f])
  show "frame_le f (snd (bindM m k f)) \<and> unat (f_budget f) \<le> unat (f_budget (snd (bindM m k f))) + (i + j)
     \<and> (closed_frame f \<and> fst (bindM m k f) = Err BudgetErr \<longrightarrow> unat (f_budget f) < i + j)"
  proof (cases r)
    case (Ok v)
    with k [of v] mf g closed_frame_le [OF g(1)] show ?thesis
      by (auto simp: bindM_apply spends_def intro: fle.R_trans dest!: spec [of _ g])
  next
    case (Err e)
    with mf g show ?thesis by (auto simp: bindM_apply)
  next
    case Panic
    with mf g show ?thesis by (auto simp: bindM_apply)
  qed
qed

lemma spends_more: "spends i m \<Longrightarrow> i \<le> j \<Longrightarrow> spends j m"
  unfolding spends_def by (meson add_left_mono order.strict_trans2 order.trans)

lemma spends_free:
  assumes "\<And>f. frame_le f (snd (m f))" and "\<And>f. f_budget (snd (m f)) = f_budget f"
    and "\<And>f. closed_frame f \<Longrightarrow> fst (m f) \<noteq> Err BudgetErr"
  shows "spends 0 m"
  using assms by (auto simp: spends_def)

lemma spends_tick: "spends 1 tick"
  unfolding spends_def
proof
  fix f :: "'w frame"
  show "frame_le f (snd (tick f)) \<and> unat (f_budget f) \<le> unat (f_budget (snd (tick f))) + 1
     \<and> (closed_frame f \<and> fst (tick f) = Err BudgetErr \<longrightarrow> unat (f_budget f) < 1)"
    using fle.R_tick [of f]
    by (auto simp: tick_def Let_def unat_minus_one split: option.split prod.split)
qed

lemma spends_bind0: "spends 0 m \<Longrightarrow> (\<And>v. spends j (k v)) \<Longrightarrow> spends j (bindM m k)"
  using spends_bind [of 0 m j k] by simp

lemma spends_return: "spends 0 (returnM v)"
  by (simp add: spends_def fle.R_refl)

lemma spends_lift: "mild c r \<Longrightarrow> spends 0 (liftR r)"
  by (auto simp: spends_def fle.R_refl)

lemma spends_local: "spends 0 (read_local i)"
  by (rule spends_free) (simp_all add: fle.R_local, simp_all add: read_local_def)

lemma spends_env: "spends 0 (read_env x)"
  by (rule spends_free) (simp_all add: fle.R_env, simp_all add: read_env_def ok_or_def split: prod.split option.split)

lemma spends_charged: "spends 0 (charged t v)"
  by (rule spends_free) (simp_all add: fle.R_charged,
    simp_all add: charged_def charge_value_def charge_def Let_def bindM_apply)

lemma spends_write: "spends 0 (write_local i v)"
  by (rule spends_free) (simp_all add: fle.R_write, simp_all add: write_local_def)

lemma apply_builtin_closed:
  "b \<noteq> BFetch \<Longrightarrow> b \<noteq> BFetchJson \<Longrightarrow> mild (overflow_checks t) (fst (apply_builtin t b vals None None w))"
  using apply_builtin_cases [of b t vals None None w]
  by (auto simp: bi_show_def bi_led_def bi_flash_def split: list.split)

lemma mild_not_limit: "mild c r \<Longrightarrow> r \<noteq> Err BudgetErr"
  by (cases r) auto

lemma spends_run_builtin:
  "b \<noteq> BFetch \<Longrightarrow> b \<noteq> BFetchJson \<Longrightarrow> spends 0 (run_builtin t b vals)"
  by (rule spends_free) (simp_all add: fle.R_builtin,
    simp_all add: run_builtin_def split_beta closed_frame_def mild_not_limit [OF apply_builtin_closed])

lemma spends_do_fetch: "spends 0 (do_fetch url)"
  by (rule spends_free) (simp_all add: fle.R_fetch,
    auto simp: do_fetch_def closed_frame_def split: option.split prod.split)

lemma spends_do_fetch_json: "spends 0 (do_fetch_json t url path)"
  by (rule spends_free) (simp_all add: fle.R_fetch_json,
    auto simp: do_fetch_json_def closed_frame_def split: option.split prod.split)

lemma spends_call: "spends 0 (call_values t b vals)"
  by (cases b) (auto simp: call_values_def spends_run_builtin spends_do_fetch spends_do_fetch_json
      intro!: spends_bind0 spends_lift [of True] split: prod.split)

lemma spends_op: "spends 0 (liftR (num_binop op x y))" "spends 0 (liftR (unary_op t un x))"
  "spends 0 (liftR (compare cop x y))" "spends 0 (liftR (as_bool x))" "spends 0 (liftR (index_val x y))"
  using mild_num_binop mild_unary
  by (blast intro: spends_lift mild_compare mild_as_bool mild_index)+


lemma spends_node: "spends n m \<Longrightarrow> spends (Suc n) (bindM tick (\<lambda>u. m))"
  using spends_bind [OF spends_tick, of n "\<lambda>u. m"] by simp

lemma spends_last: "spends n m \<Longrightarrow> (\<And>v. spends 0 (k v)) \<Longrightarrow> spends n (bindM m k)"
  using spends_bind [of n m 0 k] by simp

lemmas spends_rules = spends_node spends_bind0 spends_last spends_return spends_op spends_call
  spends_charged spends_local spends_env

lemma spends_eval: "spends (nodes e) (eval t e :: ('w, val) ev)"
  and spends_args: "spends (sum_list (map nodes es)) (eval_args t es :: ('w, val list) ev)"
proof (induction e and es rule: expr_args_induct)
  case (Bin op a b)
  have "spends (nodes b) (bindM (eval t b) (\<lambda>y. bindM (liftR (num_binop op x y)) (charged t)) :: ('w, val) ev)" for x
    by (rule spends_last [OF Bin.IH(2)]) (intro spends_rules)
  with Bin.IH(1) show ?case by (simp add: spends_node spends_bind)
next
  case (Cmp op a b)
  have "spends (nodes b) (bindM (eval t b) (\<lambda>y. bindM (liftR (compare op x y)) (\<lambda>r. returnM (VBool r))) :: ('w, val) ev)" for x
    by (rule spends_last [OF Cmp.IH(2)]) (intro spends_rules)
  with Cmp.IH(1) show ?case by (simp add: spends_node spends_bind)
next
  case (Bool op a b)
  have "spends (nodes b) (bindM (liftR (as_bool x)) (\<lambda>l.
       if op = AndOp \<and> \<not> l then returnM (VBool False)
       else if op = OrOp \<and> l then returnM (VBool True)
       else bindM (eval t b) (\<lambda>y. bindM (liftR (as_bool y)) (\<lambda>r. returnM (VBool r)))) :: ('w, val) ev)" for x
    by (intro spends_rules) (auto intro!: spends_rules Bool intro: spends_more [OF spends_return])
  with Bool.IH(1) show ?case by (simp add: spends_node spends_bind)
next
  case (Unary op a)
  show ?case by (simp, intro spends_rules Unary)
next
  case (Index a b)
  have "spends (nodes b) (bindM (eval t b) (\<lambda>y. liftR (index_val x y)) :: ('w, val) ev)" for x
    by (rule spends_last [OF Index.IH(2)]) (intro spends_rules)
  with Index.IH(1) show ?case by (simp add: spends_node spends_bind)
next
  case (If c a b)
  have "spends (nodes a + nodes b) (bindM (liftR (as_bool x)) (\<lambda>r. if r then eval t a else eval t b) :: ('w, val) ev)" for x
    by (intro spends_rules) (auto intro: spends_more [OF If.IH(2)] spends_more [OF If.IH(3)])
  with If.IH(1) show ?case by (simp add: spends_node spends_bind add.assoc)
next
  case (Cons e es)
  have "spends (sum_list (map nodes es)) (bindM (eval_args t es) (\<lambda>vs. returnM (v # vs)) :: ('w, val list) ev)" for v
    by (rule spends_last [OF Cons.IH(2)]) (intro spends_rules)
  with Cons.IH(1) show ?case by (simp add: spends_bind)
next
  case (Call b es)
  show ?case by (simp, rule spends_node, rule spends_last [OF Call]) (intro spends_rules)
next
  case (List es)
  show ?case by (simp, rule spends_node, rule spends_last [OF List]) (intro spends_rules)
next
  case Nil
  show ?case by (simp add: spends_def fle.R_refl)
qed (simp_all add: spends_node [OF spends_return, simplified] spends_node [OF spends_local, simplified]
  spends_node [OF spends_env, simplified])

definition program_nodes :: "program \<Rightarrow> nat" where
  "program_nodes p = sum_list (map (\<lambda>b. nodes (bound b)) (body p)) + nodes (ret p)"

lemma spends_lets: "spends (sum_list (map (\<lambda>b. nodes (bound b)) bs)) (run_lets t bs :: ('w, unit) ev)"
proof (induction bs)
  case (Cons b bs)
  have "spends (sum_list (map (\<lambda>b. nodes (bound b)) bs)) (bindM (write_local (slot b) v) (\<lambda>u. run_lets t bs) :: ('w, unit) ev)" for v
    by (intro spends_bind0 spends_write Cons)
  then show ?case by (simp add: spends_bind spends_eval)
qed (simp add: spends_def fle.R_refl)

lemma spends_run_body: "spends (program_nodes p) (run_body t p)"
  unfolding run_body_def program_nodes_def by (intro spends_bind spends_lets spends_eval)


end
