(* ===== verification/EvalLimits.thy ===== *)
theory EvalLimits
  imports EvalSafe
begin

text \<open>
  The memory budget and the deadline of the evaluator.
\<close>

section \<open>The memory budget\<close>

text \<open>A node that builds a value pays for its bytes out of the memory budget.\<close>

definition builds :: "expr \<Rightarrow> bool" where
  "builds e \<longleftrightarrow> (case e of EBin op a b \<Rightarrow> True | ECall b args \<Rightarrow> True | EList items \<Rightarrow> True | _ \<Rightarrow> False)"

lemma charged_Ok:
  "charged t v f = (Ok w, g) \<Longrightarrow> w = v \<and> unat (f_mem g) + min (value_bytes t v) u32_max = unat (f_mem f)"
proof -
  define b :: u32 where "b = of_nat (min (value_bytes t v) u32_max)"
  have b: "unat b = min (value_bytes t v) u32_max"
    unfolding b_def by (simp add: unat_of_nat u32_max_def min_def)
  assume "charged t v f = (Ok w, g)"
  then have "w = v" and "g = f\<lparr>f_mem := f_mem f - b\<rparr>" and "\<not> f_mem f < b"
    by (auto simp: charged_def charge_value_def charge_def bindM_apply Let_def b_def split: if_splits)
  moreover from this(3) have "unat (f_mem f - b) = unat (f_mem f) - unat b" and "unat b \<le> unat (f_mem f)"
    by (simp_all add: unat_sub not_less word_le_nat_alt)
  ultimately show ?thesis by (simp add: b)
qed

lemma charged_last:
  assumes "bindM m (charged t) f = (Ok v, h)" and le: "\<And>f. frame_le f (snd (m f))"
  shows "min (value_bytes t v) u32_max + unat (f_mem h) \<le> unat (f_mem f)"
proof -
  from assms(1) obtain u g where m: "m f = (Ok u, g)" and c: "charged t u g = (Ok v, h)"
    by (auto simp: bindM_eq_Ok)
  from charged_Ok [OF c] have "unat (f_mem h) + min (value_bytes t v) u32_max = unat (f_mem g)" by simp
  moreover from le [of f] m have "unat (f_mem g) \<le> unat (f_mem f)"
    by (simp add: frame_le_def word_le_nat_alt)
  ultimately show ?thesis by simp
qed

lemma eval_builds:
  assumes "builds e"
  obtains m where "eval t e = bindM m (charged t)" and "\<And>f. frame_le f (snd (m f))"
proof (cases e)
  case (EBin op a b)
  let ?m = "bindM tick (\<lambda>u. bindM (eval t a) (\<lambda>x. bindM (eval t b) (\<lambda>y. liftR (num_binop op x y))))"
  have "eval t e = bindM ?m (charged t)" by (simp add: EBin bindM_assoc)
  moreover have "frame_le f (snd (?m f))" for f
    by (intro fle.R_bind fle.R_lift fle.R_eval fle.R_tick)
  ultimately show ?thesis by (rule that)
next
  case (ECall b args)
  let ?m = "bindM tick (\<lambda>u. bindM (eval_args t args) (\<lambda>vals. call_values t b vals))"
  have "eval t e = bindM ?m (charged t)" by (simp add: ECall bindM_assoc)
  moreover have "frame_le f (snd (?m f))" for f
    by (intro fle.R_bind fle.R_call fle.R_args fle.R_tick)
  ultimately show ?thesis by (rule that)
next
  case (EList items)
  let ?m = "bindM tick (\<lambda>u. bindM (eval_args t items) (\<lambda>vals. returnM (VList vals)))"
  have "eval t e = bindM ?m (charged t)" by (simp add: EList bindM_assoc bindM_return)
  moreover have "frame_le f (snd (?m f))" for f
    by (intro fle.R_bind fle.R_return fle.R_args fle.R_tick)
  ultimately show ?thesis by (rule that)
qed (use assms in \<open>simp_all add: builds_def\<close>)

section \<open>The deadline\<close>

text \<open>
  The contract of an invariant the successful steps keep; a run that returns a value keeps it
  too.
\<close>

locale ok_invariant =
  fixes t :: target and I :: "'w frame \<Rightarrow> bool"
  assumes I_tick: "triple I tick (\<lambda>u. I) (\<lambda>e f. True)"
    and I_charge: "triple I (charge n) (\<lambda>u. I) (\<lambda>e f. True)"
    and I_env: "triple I (read_env x) (\<lambda>v. I) (\<lambda>e f. True)"
    and I_builtin: "triple I (run_builtin t b vals) (\<lambda>v. I) (\<lambda>e f. True)"
    and I_fetch: "triple I (do_fetch url) (\<lambda>v. I) (\<lambda>e f. True)"
    and I_fetch_json: "triple I (do_fetch_json t url path) (\<lambda>v. I) (\<lambda>e f. True)"
    and I_write: "triple I (write_local i v) (\<lambda>u. I) (\<lambda>e f. True)"
begin

lemma I_bind:
  "triple I m (\<lambda>v. I) (\<lambda>e f. True) \<Longrightarrow> (\<And>v. triple I (k v) (\<lambda>v. I) (\<lambda>e f. True)) \<Longrightarrow>
   triple I (bindM m k) (\<lambda>v. I) (\<lambda>e f. True)"
  by (rule triple_bind)

lemma I_return: "triple I (returnM v) (\<lambda>v. I) (\<lambda>e f. True)"
  by (rule triple_return)

lemma I_lift: "triple I (liftR r) (\<lambda>v. I) (\<lambda>e f. True)"
  by (rule triple_lift) simp_all

lemma I_local: "triple I (read_local i) (\<lambda>v. I) (\<lambda>e f. True)"
  by (simp add: triple_def read_local_def)

lemma I_charged: "triple I (charged t v) (\<lambda>v. I) (\<lambda>e f. True)"
  unfolding charged_def charge_value_def by (intro I_bind I_charge I_return)

lemma I_call: "triple I (call_values t b vals) (\<lambda>v. I) (\<lambda>e f. True)"
  by (cases b) (auto simp: call_values_def I_builtin I_fetch I_fetch_json intro!: I_bind I_lift split: prod.split)

lemma I_eval: "triple I (eval t e) (\<lambda>v. I) (\<lambda>e f. True)"
  and I_args: "triple I (eval_args t es) (\<lambda>v. I) (\<lambda>e f. True)"
  by (induction e and es rule: expr_args_induct)
     (auto intro!: I_bind I_return simp: I_tick I_return [unfolded returnM_def] I_lift I_local I_env I_charged I_call)

lemma I_lets: "triple I (run_lets t bs) (\<lambda>v. I) (\<lambda>e f. True)"
  by (induction bs) (auto intro!: I_bind simp: I_return [unfolded returnM_def] I_eval I_write)

lemma I_body: "triple I (run_body t p) (\<lambda>v. I) (\<lambda>e f. True)"
  unfolding run_body_def by (intro I_bind I_lets I_eval)

end

text \<open>
  With a deadline that has passed, the steps since the last look at it and the budget left
  add up to the steps the run started with, and the look comes at the 256th.
\<close>

definition overdue :: "nat \<Rightarrow> 'w frame \<Rightarrow> bool" where
  "overdue n f \<longleftrightarrow> (\<exists>d. f_deadline f = Some d \<and> (\<forall>w. fst (d w))) \<and> unat (f_since_check f) < 256
     \<and> unat (f_budget f) + unat (f_since_check f) = n"

lemma overdue_tick: "triple (overdue n) tick (\<lambda>u. overdue n) (\<lambda>e f. True)"
proof (rule tripleI)
  fix f :: "'w frame" assume f: "overdue n f"
  then obtain d where d: "f_deadline f = Some d" "\<And>w. fst (d w)" and s: "unat (f_since_check f) < 256"
    and n: "unat (f_budget f) + unat (f_since_check f) = n"
    by (auto simp: overdue_def)
  have s1: "unat (f_since_check f + 1) = unat (f_since_check f) + 1"
    using s by (simp add: unat_word_ariths)
  have "fst (d w) = True" for w using d(2) by simp
  then show "case tick f of (Ok v, s') \<Rightarrow> overdue n s' | (Err e, s') \<Rightarrow> True | (Panic, s') \<Rightarrow> True"
    using d(1) s n s1
    by (auto simp: tick_def Let_def overdue_def DEADLINE_CHECK_INTERVAL_def word_le_nat_alt split_beta
        unat_minus_one unat_gt_0 split: prod.split)
qed

interpretation late: ok_invariant t "overdue n" for t n
proof (unfold_locales, goal_cases)
  case 1
  show ?case by (rule overdue_tick)
qed (simp_all add: triple_def overdue_def charge_def read_env_def run_builtin_def do_fetch_def
      do_fetch_json_def write_local_def Let_def split: prod.split option.split outcome.split)


section \<open>Runs that differ in a budget only\<close>

text \<open>The contract of a relation under which every primitive of the evaluator agrees with itself.\<close>

locale lockstep =
  fixes t :: target and S :: "'w frame \<Rightarrow> 'w frame \<Rightarrow> bool" and l :: dsl_error
  assumes S_tick: "agrees S l tick tick"
    and S_charge: "agrees S l (charge n) (charge n)"
    and S_local: "agrees S l (read_local i) (read_local i)"
    and S_env: "agrees S l (read_env x) (read_env x)"
    and S_builtin: "agrees S l (run_builtin t b vals) (run_builtin t b vals)"
    and S_fetch: "agrees S l (do_fetch url) (do_fetch url)"
    and S_fetch_json: "agrees S l (do_fetch_json t url path) (do_fetch_json t url path)"
    and S_write: "agrees S l (write_local i v) (write_local i v)"
begin

lemma S_charged: "agrees S l (charged t v) (charged t v)"
  unfolding charged_def charge_value_def by (intro agrees_bind S_charge agrees_return)

lemma S_call: "agrees S l (call_values t b vals) (call_values t b vals)"
  by (cases b) (auto simp: call_values_def S_builtin S_fetch S_fetch_json
    intro!: agrees_bind agrees_lift split: prod.split)

lemma S_eval: "agrees S l (eval t e) (eval t e)"
  and S_args: "agrees S l (eval_args t es) (eval_args t es)"
  by (induction e and es rule: expr_args_induct)
     (auto intro!: agrees_bind agrees_return
       simp: agrees_return [unfolded returnM_def] agrees_lift S_tick S_local S_env S_charged S_call)

lemma S_lets: "agrees S l (run_lets t bs) (run_lets t bs)"
  by (induction bs) (auto intro!: agrees_bind simp: agrees_return [unfolded returnM_def] S_eval S_write)

lemma S_body: "agrees S l (run_body t p) (run_body t p)"
  unfolding run_body_def by (intro agrees_bind S_lets S_eval)

end

definition same_frame :: "'w frame \<Rightarrow> 'w frame \<Rightarrow> bool" where
  "same_frame f f' \<longleftrightarrow> f_env f' = f_env f \<and> f_net f' = f_net f \<and> f_display f' = f_display f
     \<and> f_actuator f' = f_actuator f \<and> f_locals f' = f_locals f \<and> f_deadline f' = f_deadline f
     \<and> f_since_check f' = f_since_check f \<and> f_world f' = f_world f"

definition more_steps :: "'w frame \<Rightarrow> 'w frame \<Rightarrow> bool" where
  "more_steps f f' \<longleftrightarrow> same_frame f f' \<and> f_mem f' = f_mem f \<and> f_budget f \<le> f_budget f'"

definition more_memory :: "'w frame \<Rightarrow> 'w frame \<Rightarrow> bool" where
  "more_memory f f' \<longleftrightarrow> same_frame f f' \<and> f_budget f' = f_budget f \<and> f_mem f \<le> f_mem f'"

lemma word_pred_mono: "(a :: u32) \<noteq> 0 \<Longrightarrow> a \<le> b \<Longrightarrow> b \<noteq> 0 \<and> a - 1 \<le> b - 1"
  by (metis unat_minus_one diff_le_mono word_le_nat_alt word_le_0_iff)

lemma more_steps_tick: "agrees more_steps BudgetErr tick tick"
  unfolding agrees_def
proof (intro allI impI)
  fix f f' :: "'w frame" assume m: "more_steps f f'"
  show "fst (tick f) = Err BudgetErr \<or> (fst (tick f) = fst (tick f') \<and> more_steps (snd (tick f)) (snd (tick f')))"
  proof (cases "f_budget f = 0")
    case True
    then show ?thesis by (simp add: tick_def)
  next
    case False
    with m word_pred_mono [OF False, of "f_budget f'"] show ?thesis
      by (cases "f_deadline f")
         (auto simp: tick_def Let_def more_steps_def same_frame_def split: prod.split)
  qed
qed

interpretation steps: lockstep t more_steps BudgetErr for t
proof (unfold_locales, goal_cases)
  case 1
  show ?case by (rule more_steps_tick)
qed (simp_all add: agrees_def more_steps_def same_frame_def charge_def read_local_def read_env_def
      run_builtin_def do_fetch_def do_fetch_json_def write_local_def Let_def split: prod.split option.split)

lemma more_memory_charge: "agrees more_memory MemoryLimitErr (charge n) (charge n)"
  unfolding agrees_def
proof (intro allI impI)
  fix f f' :: "'w frame" assume m: "more_memory f f'"
  define k :: u32 where "k = of_nat (min n u32_max)"
  show "fst (charge n f) = Err MemoryLimitErr \<or> (fst (charge n f) = fst (charge n f')
      \<and> more_memory (snd (charge n f)) (snd (charge n f')))"
  proof (cases "f_mem f < k")
    case True
    then show ?thesis by (simp add: charge_def Let_def k_def)
  next
    case False
    with m have "\<not> f_mem f' < k" and "f_mem f - k \<le> f_mem f' - k"
      by (auto simp: more_memory_def not_less word_le_nat_alt unat_sub intro: diff_le_mono)
    with False m show ?thesis
      by (simp add: charge_def Let_def more_memory_def same_frame_def k_def [symmetric])
  qed
qed

interpretation mem: lockstep t more_memory MemoryLimitErr for t
proof (unfold_locales, goal_cases)
  case 1
  show ?case
    by (simp add: agrees_def more_memory_def same_frame_def tick_def Let_def split: option.split prod.split)
next
  case 2
  show ?case by (rule more_memory_charge)
qed (simp_all add: agrees_def more_memory_def same_frame_def read_local_def read_env_def run_builtin_def
      do_fetch_def do_fetch_json_def write_local_def Let_def split: prod.split option.split)

end
