(* ===== verification/EvalAsync.thy ===== *)
theory EvalAsync
  imports EvalLimits
begin

text \<open>
  The asynchronous evaluator of \<open>eval_async.rs\<close>. Its network capability is awaited; here an
  awaited call is a call on the world, so the model is one job run to completion. It has its
  own context, with neither a memory budget nor an actuator, and its own recursion.
\<close>

section \<open>The context\<close>

record 'w async_ctx =
  a_env :: "string \<Rightarrow> 'w \<Rightarrow> val option \<times> 'w"
  a_net :: "'w net option"
  a_display :: "'w display option"
  a_locals :: "val list"
  a_budget :: u32
  a_deadline :: "('w \<Rightarrow> bool \<times> 'w) option"
  a_since_check :: u32
  a_world :: 'w

type_synonym ('w, 'a) aev = "('w async_ctx, 'a, dsl_error) comp"

definition tick_async :: "('w, unit) aev" where
  "tick_async c =
     (if a_budget c = 0 then (Err BudgetErr, c)
      else let c1 = c\<lparr>a_budget := a_budget c - 1\<rparr> in
        (case a_deadline c1 of
           None \<Rightarrow> (Ok (), c1)
         | Some deadline \<Rightarrow>
             let sc = a_since_check c1 + 1 in
             if DEADLINE_CHECK_INTERVAL \<le> sc then
               (let c2 = c1\<lparr>a_since_check := 0\<rparr>; (late, w) = deadline (a_world c2); c3 = c2\<lparr>a_world := w\<rparr>
                in if late then (Err TimeoutErr, c3) else (Ok (), c3))
             else (Ok (), c1\<lparr>a_since_check := sc\<rparr>)))"

definition local_async :: "u16 \<Rightarrow> ('w, val) aev" where
  "local_async i c = (if unat i < length (a_locals c) then (Ok (a_locals c ! unat i), c) else (Panic, c))"

definition env_async :: "string \<Rightarrow> ('w, val) aev" where
  "env_async name c = (case a_env c name (a_world c) of
     (r, w) \<Rightarrow> (ok_or r (UnknownNameErr name), c\<lparr>a_world := w\<rparr>))"

definition builtin_async :: "target \<Rightarrow> builtin \<Rightarrow> val list \<Rightarrow> ('w, val) aev" where
  "builtin_async t b vals c = (case apply_builtin t b vals (a_display c) None (a_world c) of
     (r, w) \<Rightarrow> (r, c\<lparr>a_world := w\<rparr>))"

definition fetch_async :: "string \<Rightarrow> ('w, val) aev" where
  "fetch_async url c = (case a_net c of
       Some n \<Rightarrow> (case net_fetch n url (a_world c) of
           (r, w) \<Rightarrow> (bindR (of_result r) (\<lambda>s. Ok (VStr s)), c\<lparr>a_world := w\<rparr>))
     | None \<Rightarrow> (Err (NetErr ''no network capability installed''), c))"

definition fetch_json_async :: "target \<Rightarrow> string \<Rightarrow> string \<Rightarrow> ('w, val) aev" where
  "fetch_json_async t url path c = (case a_net c of
       Some n \<Rightarrow> (case net_fetch_extract n url (json_probe t path) (a_world c) of
           (r, w) \<Rightarrow> (of_result r, c\<lparr>a_world := w\<rparr>))
     | None \<Rightarrow> (Err (NetErr ''no network capability installed''), c))"

text \<open>\<open>call_builtin_async\<close> once its arguments are evaluated.\<close>

definition call_async :: "target \<Rightarrow> builtin \<Rightarrow> val list \<Rightarrow> ('w, val) aev" where
  "call_async t b vals = (case b of
       BFetch \<Rightarrow> bindM (liftR (arity1 BFetch vals (\<lambda>v. expect_str v ''fetch() expects a url string'')))
         fetch_async
     | BFetchJson \<Rightarrow> bindM (liftR (arity2 BFetchJson vals (\<lambda>u p.
           bindR (expect_str u ''fetch_json() expects a url string'') (\<lambda>url.
           bindR (expect_str p ''fetch_json() expects a path string'') (\<lambda>path. Ok (url, path))))))
         (\<lambda>(url, path). fetch_json_async t url path)
     | _ \<Rightarrow> builtin_async t b vals)"

section \<open>The evaluator\<close>

fun eval_async :: "target \<Rightarrow> expr \<Rightarrow> ('w, val) aev"
  and eval_args_async :: "target \<Rightarrow> expr list \<Rightarrow> ('w, val list) aev" where
  "eval_async t (EConst v) = bindM tick_async (\<lambda>u. returnM v)"
| "eval_async t (ELocal i) = bindM tick_async (\<lambda>u. local_async i)"
| "eval_async t (EVar name) = bindM tick_async (\<lambda>u. env_async name)"
| "eval_async t (EBin op a b) = bindM tick_async (\<lambda>u.
     bindM (eval_async t a) (\<lambda>x. bindM (eval_async t b) (\<lambda>y. liftR (num_binop op x y))))"
| "eval_async t (ECmp op a b) = bindM tick_async (\<lambda>u.
     bindM (eval_async t a) (\<lambda>x. bindM (eval_async t b) (\<lambda>y.
     bindM (liftR (compare op x y)) (\<lambda>r. returnM (VBool r)))))"
| "eval_async t (EBool op a b) = bindM tick_async (\<lambda>u.
     bindM (eval_async t a) (\<lambda>x. bindM (liftR (as_bool x)) (\<lambda>l.
       if op = AndOp \<and> \<not> l then returnM (VBool False)
       else if op = OrOp \<and> l then returnM (VBool True)
       else bindM (eval_async t b) (\<lambda>y. bindM (liftR (as_bool y)) (\<lambda>r. returnM (VBool r))))))"
| "eval_async t (EUnary op a) = bindM tick_async (\<lambda>u.
     bindM (eval_async t a) (\<lambda>x. liftR (unary_op t op x)))"
| "eval_async t (EIndex l i) = bindM tick_async (\<lambda>u.
     bindM (eval_async t l) (\<lambda>x. bindM (eval_async t i) (\<lambda>y. liftR (index_val x y))))"
| "eval_async t (EIf c a b) = bindM tick_async (\<lambda>u.
     bindM (eval_async t c) (\<lambda>x. bindM (liftR (as_bool x)) (\<lambda>r.
       if r then eval_async t a else eval_async t b)))"
| "eval_async t (ECall b args) = bindM tick_async (\<lambda>u.
     bindM (eval_args_async t args) (\<lambda>vals. call_async t b vals))"
| "eval_async t (EList items) = bindM tick_async (\<lambda>u.
     bindM (eval_args_async t items) (\<lambda>vals. returnM (VList vals)))"
| "eval_args_async t [] = returnM []"
| "eval_args_async t (e # es) =
     bindM (eval_async t e) (\<lambda>v. bindM (eval_args_async t es) (\<lambda>vs. returnM (v # vs)))"

definition write_async :: "u16 \<Rightarrow> val \<Rightarrow> ('w, unit) aev" where
  "write_async i v c = (if unat i < length (a_locals c)
     then (Ok (), c\<lparr>a_locals := (a_locals c)[unat i := v]\<rparr>) else (Panic, c))"

fun lets_async :: "target \<Rightarrow> let_binding list \<Rightarrow> ('w, unit) aev" where
  "lets_async t [] = returnM ()"
| "lets_async t (b # bs) =
     bindM (eval_async t (bound b)) (\<lambda>v. bindM (write_async (slot b) v) (\<lambda>u. lets_async t bs))"

definition async_ctx_new ::
  "program \<Rightarrow> (string \<Rightarrow> 'w \<Rightarrow> val option \<times> 'w) \<Rightarrow> 'w net option \<Rightarrow> u32 \<Rightarrow> ('w \<Rightarrow> bool \<times> 'w) option
     \<Rightarrow> 'w display option \<Rightarrow> 'w \<Rightarrow> 'w async_ctx"
where
  "async_ctx_new p env net steps deadline display w = \<lparr>a_env = env, a_net = net, a_display = display,
     a_locals = vec_filled (unat (n_locals p)), a_budget = steps, a_deadline = deadline,
     a_since_check = 0, a_world = w\<rparr>"

definition run_async ::
  "target \<Rightarrow> program \<Rightarrow> (string \<Rightarrow> 'w \<Rightarrow> val option \<times> 'w) \<Rightarrow> 'w net option \<Rightarrow> u32
     \<Rightarrow> ('w \<Rightarrow> bool \<times> 'w) option \<Rightarrow> 'w display option \<Rightarrow> 'w \<Rightarrow> val res \<times> 'w async_ctx"
where
  "run_async t p env net steps deadline display w =
     bindM (lets_async t (body p)) (\<lambda>u. eval_async t (ret p))
       (async_ctx_new p env net steps deadline display w)"

section \<open>Agreement with the synchronous evaluator\<close>

text \<open>A frame without actuator and the context that has the same parts.\<close>

definition same_ctx :: "'w frame \<Rightarrow> 'w async_ctx \<Rightarrow> bool" where
  "same_ctx f c \<longleftrightarrow> f_actuator f = None \<and> a_env c = f_env f \<and> a_net c = f_net f \<and> a_display c = f_display f
     \<and> a_locals c = f_locals f \<and> a_budget c = f_budget f \<and> a_deadline c = f_deadline f
     \<and> a_since_check c = f_since_check f \<and> a_world c = f_world f"

text \<open>The synchronous side may only differ by running out of memory.\<close>

abbreviation simulates :: "('w, 'a) ev \<Rightarrow> ('w, 'a) aev \<Rightarrow> bool" where
  "simulates \<equiv> agrees same_ctx MemoryLimitErr"

lemma sim_tick: "simulates tick tick_async"
  by (simp add: agrees_def same_ctx_def tick_def tick_async_def Let_def split: option.split prod.split)

lemma sim_local: "simulates (read_local i) (local_async i)"
  by (simp add: agrees_def same_ctx_def read_local_def local_async_def)

lemma sim_env: "simulates (read_env x) (env_async x)"
  by (simp add: agrees_def same_ctx_def read_env_def env_async_def split: prod.split)

lemma sim_builtin: "simulates (run_builtin t b vals) (builtin_async t b vals)"
  by (simp add: agrees_def same_ctx_def run_builtin_def builtin_async_def split: prod.split)

lemma sim_fetch: "simulates (do_fetch url) (fetch_async url)"
  by (simp add: agrees_def same_ctx_def do_fetch_def fetch_async_def split: prod.split option.split)

lemma sim_fetch_json: "simulates (do_fetch_json t url path) (fetch_json_async t url path)"
  by (simp add: agrees_def same_ctx_def do_fetch_json_def fetch_json_async_def split: prod.split option.split)

lemma sim_write: "simulates (write_local i v) (write_async i v)"
  by (simp add: agrees_def same_ctx_def write_local_def write_async_def)

lemma sim_charged: "simulates (charged t v) (returnM v)"
  by (simp add: agrees_def same_ctx_def charged_def charge_value_def charge_def bindM_apply Let_def)

lemma sim_call: "simulates (call_values t b vals) (call_async t b vals)"
  by (cases b) (auto simp: call_values_def call_async_def sim_builtin sim_fetch sim_fetch_json
    intro!: agrees_bind agrees_lift split: prod.split)

text \<open>A charge at the end of a node is invisible to the asynchronous side.\<close>

lemma sim_bind_charged: "simulates m m' \<Longrightarrow> simulates (bindM m (charged t)) m'"
proof -
  assume "simulates m m'"
  then have "simulates (bindM m (charged t)) (bindM m' returnM)"
    by (rule agrees_bind) (rule sim_charged)
  then show ?thesis by (simp only: bindM_right)
qed

lemma sim_eval: "simulates (eval t e :: ('w, val) ev) (eval_async t e)"
  and sim_args: "simulates (eval_args t es :: ('w, val list) ev) (eval_args_async t es)"
  by (induction e and es rule: expr_args_induct)
     (auto intro!: agrees_bind agrees_return sim_bind_charged
       simp: agrees_return [unfolded returnM_def] agrees_lift sim_tick sim_local sim_env sim_charged sim_call
         sim_charged [unfolded returnM_def])

lemma sim_lets: "simulates (run_lets t bs) (lets_async t bs)"
  by (induction bs) (auto intro!: agrees_bind simp: agrees_return [unfolded returnM_def] sim_eval sim_write)

lemma sim_body: "simulates (run_body t p) (bindM (lets_async t (body p)) (\<lambda>u. eval_async t (ret p)))"
  unfolding run_body_def by (intro agrees_bind sim_lets sim_eval)

lemma same_ctx_init:
  "lim_actuator lim = None \<Longrightarrow> same_ctx (init_frame p env lim w)
     (async_ctx_new p env (lim_net lim) (lim_max_steps lim) (lim_deadline lim) (lim_display lim) w)"
  by (simp add: same_ctx_def init_frame_def async_ctx_new_def)

end
