(* ===== verification/EvalProps.thy ===== *)
theory EvalProps
  imports EvalAsync
begin

text \<open>
  The properties of the two evaluators, each with a run it applies to.
\<close>

section \<open>A sample run\<close>

text \<open>A program the properties are exercised on: \<open>let a = 2 + x in if a < 10: [a, a / 2] else: False\<close>.\<close>

definition sample_program :: program where
  "sample_program = \<lparr>body = [\<lparr>slot = 0, bound = EBin AddOp (EConst (VInt 2)) (EVar ''x'')\<rparr>],
     ret = EIf (ECmp CLt (ELocal 0) (EConst (VInt 10)))
       (EList [ELocal 0, EBin DivOp (ELocal 0) (EConst (VInt 2))]) (EConst (VBool False)),
     n_locals = 1, max_steps = 20\<rparr>"

definition sample_env :: "string \<Rightarrow> unit \<Rightarrow> val option \<times> unit" where
  "sample_env = vec_env_reader (vec_env_set vec_env_new ''x'' (VInt 3))"

lemma sample_result: "fst (run host_target sample_program sample_env ()) = Ok (VList [VInt 5, VInt 2])"
  by code_simp

lemma sample_safe: "wf_program sample_program" "const_divisors_program sample_program"
  by (simp_all add: wf_program_def const_divisors_program_def sample_program_def)

section \<open>Panics and limits\<close>

text \<open>
  C1: a verified program whose quotients and remainders have literal divisors other than
  minus one never panics in a build without overflow checks, whatever the environment, the
  limits and the capabilities do: every failure is an error value.
\<close>

theorem run_with_no_panic:
  "\<not> overflow_checks t \<Longrightarrow> wf_program p \<Longrightarrow> const_divisors_program p \<Longrightarrow>
   fst (run_with t p env lim w) \<noteq> Panic"
  by (rule no_panic_run)

theorem run_with_no_panic_witness:
  "fst (run_with host_target sample_program sample_env default_limits ()) \<noteq> Panic"
  by (rule run_with_no_panic) (simp_all add: sample_safe)

text \<open>
  C22: under \<open>run\<close>, which installs no capability, a program whose step budget is
  at least the number of its IR nodes never reports the budget exhausted.
\<close>

theorem run_budget_enough:
  "program_nodes p \<le> unat (max_steps p) \<Longrightarrow> fst (run t p env w) \<noteq> Err BudgetErr"
  using spends_run_body [of p t, unfolded spends_def, rule_format, of "init_frame p env
    \<lparr>lim_max_steps = max_steps p, lim_max_bytes = -1, lim_deadline = None,
      lim_net = None, lim_display = None, lim_actuator = None\<rparr> w"]
  by (auto simp: run_def run_with_def closed_frame_def init_frame_def)

theorem run_budget_enough_witness: "fst (run host_target sample_program sample_env ()) \<noteq> Err BudgetErr"
  by (rule run_budget_enough) (simp add: program_nodes_def sample_program_def)

text \<open>
  A run spends at most one step of its budget per IR node of the program, whatever its
  outcome: evaluation has no loop.
\<close>

theorem run_with_steps:
  "unat (lim_max_steps lim) \<le> unat (f_budget (snd (run_with t p env lim w))) + program_nodes p"
  using spends_run_body [of p t, unfolded spends_def, rule_format, of "init_frame p env lim w"]
  by (auto simp: run_with_def init_frame_def)

text \<open>
  A node that builds a value (arithmetic, a builtin call, a list) takes the bytes of the
  value it returns out of the memory budget, so no built value is larger than the budget
  left before it.
\<close>

theorem eval_builds_paid:
  "builds e \<Longrightarrow> eval t e f = (Ok v, g) \<Longrightarrow> min (value_bytes t v) u32_max + unat (f_mem g) \<le> unat (f_mem f)"
proof -
  assume b: "builds e" and e: "eval t e f = (Ok v, g)"
  obtain m :: "('a, val) ev" where m: "eval t e = bindM m (charged t)" and le: "\<And>f. frame_le f (snd (m f))"
    using eval_builds [OF b, of t] by blast
  from e m have "bindM m (charged t) f = (Ok v, g)" by simp
  from charged_last [OF this le] show ?thesis .
qed

definition sample_frame :: "unit frame" where
  "sample_frame = init_frame sample_program sample_env
     (default_limits\<lparr>lim_max_bytes := 100\<rparr>) ()"

definition sample_list :: expr where
  "sample_list = EList [EConst (VInt 1), EConst (VInt 2)]"

lemma sample_list_eval: "fst (eval host_target sample_list sample_frame) = Ok (VList [VInt 1, VInt 2])"
  by code_simp

lemma sample_list_pair: "eval host_target sample_list sample_frame
    = (Ok (VList [VInt 1, VInt 2]), snd (eval host_target sample_list sample_frame))"
  by (rule prod_eqI) (simp_all only: sample_list_eval fst_conv snd_conv)

theorem eval_builds_paid_witness:
  "min (value_bytes host_target (VList [VInt 1, VInt 2])) u32_max
     + unat (f_mem (snd (eval host_target sample_list sample_frame))) \<le> unat (f_mem sample_frame)"
  by (rule eval_builds_paid [OF _ sample_list_pair]) (simp add: builds_def sample_list_def)

text \<open>
  With a deadline that has passed, a run that still returns a value took fewer than 256
  steps: the deadline is looked at every 256 steps and a late one ends the run.
\<close>

theorem run_overdue:
  "lim_deadline lim = Some d \<Longrightarrow> (\<And>w. fst (d w)) \<Longrightarrow> run_with t p env lim w = (Ok v, g) \<Longrightarrow>
   unat (lim_max_steps lim) < unat (f_budget g) + 256"
  using tripleD_Ok [OF late.I_body [of "unat (lim_max_steps lim)" t p], of "init_frame p env lim w" v g]
  by (auto simp: run_with_def init_frame_def overdue_def)

definition late_limits :: "unit limits" where
  "late_limits = default_limits\<lparr>lim_deadline := Some (\<lambda>w. (True, w))\<rparr>"

lemma sample_late: "fst (run_with host_target sample_program sample_env late_limits ()) = Ok (VList [VInt 5, VInt 2])"
  by code_simp

lemma sample_late_pair: "run_with host_target sample_program sample_env late_limits ()
    = (Ok (VList [VInt 5, VInt 2]), snd (run_with host_target sample_program sample_env late_limits ()))"
  by (rule prod_eqI) (simp_all only: sample_late fst_conv snd_conv)

theorem run_overdue_witness:
  "unat (lim_max_steps late_limits)
     < unat (f_budget (snd (run_with host_target sample_program sample_env late_limits ()))) + 256"
  by (rule run_overdue [of _ "\<lambda>w. (True, w)", OF _ _ sample_late_pair]) (simp_all add: late_limits_def)



text \<open>
  The step budget only decides whether a run is cut off: an outcome other than the
  budget error is the outcome under every larger budget.
\<close>

theorem run_more_steps:
  "lim_max_steps lim \<le> n \<Longrightarrow> run_with t p env lim w = (r, g) \<Longrightarrow> r \<noteq> Err BudgetErr \<Longrightarrow>
   fst (run_with t p env (lim\<lparr>lim_max_steps := n\<rparr>) w) = r"
  using agrees_run [OF steps.S_body [of t p], of "init_frame p env lim w"
      "init_frame p env (lim\<lparr>lim_max_steps := n\<rparr>) w"]
  by (auto simp: run_with_def init_frame_def more_steps_def same_frame_def)

definition small_limits :: "unit limits" where
  "small_limits = default_limits\<lparr>lim_max_steps := 12, lim_max_bytes := 60\<rparr>"

lemma sample_small: "fst (run_with host_target sample_program sample_env small_limits ()) = Ok (VList [VInt 5, VInt 2])"
  by code_simp

theorem run_more_steps_witness:
  "fst (run_with host_target sample_program sample_env (small_limits\<lparr>lim_max_steps := 400\<rparr>) ())
     = Ok (VList [VInt 5, VInt 2])"
  by (rule run_more_steps) (simp_all add: prod_eq_iff sample_small, simp_all add: small_limits_def)

text \<open>
  The memory budget only decides whether a run is cut off: an outcome other than the
  memory error is the outcome under every larger memory budget.
\<close>

theorem run_more_memory:
  "lim_max_bytes lim \<le> n \<Longrightarrow> run_with t p env lim w = (r, g) \<Longrightarrow> r \<noteq> Err MemoryLimitErr \<Longrightarrow>
   fst (run_with t p env (lim\<lparr>lim_max_bytes := n\<rparr>) w) = r"
  using agrees_run [OF mem.S_body [of t p], of "init_frame p env lim w"
      "init_frame p env (lim\<lparr>lim_max_bytes := n\<rparr>) w"]
  by (auto simp: run_with_def init_frame_def more_memory_def same_frame_def)

theorem run_more_memory_witness:
  "fst (run_with host_target sample_program sample_env (small_limits\<lparr>lim_max_bytes := 4000\<rparr>) ())
     = Ok (VList [VInt 5, VInt 2])"
  by (rule run_more_memory) (simp_all add: prod_eq_iff sample_small, simp_all add: small_limits_def)

text \<open>
  C2: the asynchronous evaluator refines the synchronous one: without an actuator it has the
  same outcome and makes the same calls on the world, except where the synchronous run ends
  with the memory error, which the asynchronous one never raises.
\<close>

theorem run_async_refines:
  "lim_actuator lim = None \<Longrightarrow> run_with t p env lim w = (r, g) \<Longrightarrow> r \<noteq> Err MemoryLimitErr \<Longrightarrow>
   fst (run_async t p env (lim_net lim) (lim_max_steps lim) (lim_deadline lim) (lim_display lim) w) = r
   \<and> a_world (snd (run_async t p env (lim_net lim) (lim_max_steps lim) (lim_deadline lim) (lim_display lim) w))
     = f_world g"
  using agrees_run [OF sim_body [of t p] same_ctx_init [of lim p env w]]
  by (auto simp: run_with_def run_async_def same_ctx_def)

theorem run_async_refines_witness:
  "fst (run_async host_target sample_program sample_env None 12 None None ()) = Ok (VList [VInt 5, VInt 2])"
  using run_async_refines [of small_limits host_target sample_program sample_env "()"]
  by (simp add: prod_eq_iff sample_small, simp add: small_limits_def default_limits_def)

text \<open>
  Evaluating an expression never changes a local, whatever the outcome: only a
  \<open>let\<close> writes one.
\<close>

theorem eval_locals_fixed: "f_locals (snd (eval t e f)) = f_locals f"
  by (rule keep_locals.R_eval)

text \<open>
  The quotient of the least \<open>i64\<close> by minus one panics the evaluator on
  every target, inside the budget and the sandbox.
\<close>

theorem div_overflow_panics:
  "fst (run t \<lparr>body = [], ret = EBin DivOp (EConst (VInt i64_min)) (EConst (VInt (-1))), n_locals = 0, max_steps = 3\<rparr> env w) = Panic"
  by (simp add: run_def run_with_def run_body_def init_frame_def bindM_apply tick_def Let_def num_binop_def div_i64_def)

text \<open>
  IR that reads a local outside the declared slots panics the evaluator: nothing between
  the wire and the evaluator checks it.
\<close>

theorem unverified_local_panics:
  "\<not> unat i < unat (n_locals p) \<Longrightarrow> ret p = ELocal i \<Longrightarrow> body p = [] \<Longrightarrow> max_steps p \<noteq> 0 \<Longrightarrow>
   fst (run t p env w) = Panic"
  by (simp add: run_def run_with_def run_body_def init_frame_def bindM_apply tick_def Let_def read_local_def vec_filled_def)

theorem unverified_local_panics_witness:
  "fst (run host_target \<lparr>body = [], ret = ELocal 7, n_locals = 2, max_steps = 3\<rparr> sample_env ()) = Panic"
  by (rule unverified_local_panics [where i = 7]) simp_all

end
