(* ===== verification/Texts.thy ===== *)
theory Texts
  imports Utf8
begin

text \<open>
  Facts on the text functions: decimal printing is read back, well-formed UTF-8 is well
  formed piece by piece, ASCII text is its own characters, trimming and splitting.
\<close>

section \<open>Decimal digits\<close>

lemma digit_char: "d < 10 \<Longrightarrow> is_digit (digit_char d)" "d < 10 \<Longrightarrow> byte (digit_char d) = 48 + d"
  by (simp_all add: is_digit_def digit_char_def byte_def of_char_of)

lemma show_nat_not_Nil [simp]: "show_nat n \<noteq> []"
  by (subst show_nat.simps) simp

lemma digits_val_show_nat:
  "digits_val acc (show_nat n @ ys) = digits_val (acc * 10 ^ length (show_nat n) + int n) ys"
proof (induction n arbitrary: acc ys rule: show_nat.induct)
  case (1 n)
  show ?case
  proof (cases "n < 10")
    case True
    then show ?thesis by (simp add: show_nat.simps [of n] digit_char)
  next
    case False
    have "int (n div 10) * 10 + int (n mod 10) = int n" by (metis div_mult_mod_eq of_nat_add of_nat_mult of_nat_numeral)
    then have "(acc * 10 ^ length (show_nat (n div 10)) + int (n div 10)) * 10 + int (n mod 10)
        = acc * 10 ^ Suc (length (show_nat (n div 10))) + int n"
      by (simp add: algebra_simps)
    moreover have d: "is_digit (digit_char (n mod 10)) = True" "byte (digit_char (n mod 10)) - 48 = n mod 10"
      by (simp_all add: digit_char)
    ultimately have e: "digits_val (acc * 10 ^ length (show_nat (n div 10)) + int (n div 10)) (digit_char (n mod 10) # ys)
        = digits_val (acc * 10 ^ Suc (length (show_nat (n div 10))) + int n) ys"
      by (simp only: digits_val.simps d if_True)
    have s: "show_nat n = show_nat (n div 10) @ [digit_char (n mod 10)]"
      using False by (subst show_nat.simps) simp
    show ?thesis unfolding s using e 1 [OF False, of acc "digit_char (n mod 10) # ys"] by simp
  qed
qed

lemma show_nat_digits: "list_all is_digit (show_nat n)"
proof (induction n rule: show_nat.induct)
  case (1 n)
  then show ?case by (subst show_nat.simps) (simp add: digit_char)
qed

lemma digit_not [simp]:
  "is_digit c \<Longrightarrow> c \<noteq> CHR ''+''" "is_digit c \<Longrightarrow> c \<noteq> CHR ''-''" "is_digit c \<Longrightarrow> c \<noteq> CHR '',''"
  "is_digit c \<Longrightarrow> c \<noteq> CHR '':''" "is_digit c \<Longrightarrow> c \<noteq> CHR 0x0D"
  by (auto simp: is_digit_def byte_def)

lemma parse_digits_show_nat [simp]: "parse_digits (show_nat n) = Some (int n)"
  using digits_val_show_nat [of 0 n "[]"] by (simp add: parse_digits_def)

lemma show_nat_Cons: "\<exists>c cs. show_nat n = c # cs \<and> is_digit c"
  using show_nat_digits [of n] by (cases "show_nat n") auto

lemma parse_usize_show_nat:
  "n \<le> usize_max t \<Longrightarrow> parse_usize t (show_nat n) = Some n"
proof -
  assume n: "n \<le> usize_max t"
  obtain c cs where c: "show_nat n = c # cs" "is_digit c" using show_nat_Cons by blast
  then have "parse_unsigned (int (usize_max t)) (show_nat n) = bounded 0 (int (usize_max t)) (parse_digits (show_nat n))"
    by (simp add: parse_unsigned_def)
  with n show ?thesis by (simp add: parse_usize_def bounded_def)
qed

lemma parse_i64_show_i64 [simp]: "parse_i64 (show_i64 n) = Some n"
proof -
  have r: "- (2 ^ 63) \<le> sint n" "sint n \<le> 2 ^ 63 - 1"
    using sint_greater_eq [of n] sint_less [of n] by simp_all
  obtain c cs where c: "show_nat (nat (sint n)) = c # cs" "is_digit c" using show_nat_Cons by blast
  have "parse_signed (- (2 ^ 63)) (2 ^ 63 - 1) (show_i64 n) = Some (sint n)"
  proof (cases "sint n < 0")
    case True
    then show ?thesis using r by (simp add: show_i64_def show_int_def parse_signed_def bounded_def)
  next
    case False
    then have "parse_digits (c # cs) = Some (sint n)" using c(1) parse_digits_show_nat [of "nat (sint n)"] by simp
    with False r c show ?thesis by (simp add: show_i64_def show_int_def parse_signed_def bounded_def)
  qed
  then show ?thesis by (simp add: parse_i64_def)
qed

section \<open>UTF-8\<close>

lemma utf8_step_take: "utf8_step s = Some n \<Longrightarrow> utf8_step (take n s @ r) = Some n"
  by (cases s rule: utf8_step.cases)
     (auto simp: Let_def numeral_eq_Suc split: if_splits prod.splits list.splits)

lemma valid_up_to_append:
  "utf8_step s = Some n \<Longrightarrow> valid_up_to (take n s @ r) = n + valid_up_to r"
  using utf8_step_bounds [of s n] utf8_step_take [of s n r]
  by (subst valid_up_to.simps) (simp add: min_def)

section \<open>Trimming and splitting\<close>

lemma valid_up_to_ascii: "list_all is_ascii s \<Longrightarrow> valid_up_to s = length s"
proof (induction s)
  case (Cons c cs)
  then show ?case by (subst valid_up_to.simps) (simp add: is_ascii_def Let_def split_beta)
qed (simp add: valid_up_to.simps)

lemma utf8_chars_ascii: "list_all is_ascii s \<Longrightarrow> utf8_chars s = map (\<lambda>c. [c]) s"
  by (induction s) (simp_all add: is_ascii_def char_width_def)

lemma trim_ascii:
  assumes "list_all is_ascii s" "s \<noteq> []" "\<not> is_white [hd s]" "\<not> is_white [last s]"
  shows "trim s = s"
proof -
  have "dropWhile is_white (map (\<lambda>c. [c]) s) = map (\<lambda>c. [c]) s"
    using assms by (cases s) auto
  moreover have "dropWhile is_white (rev (map (\<lambda>c. [c]) s)) = rev (map (\<lambda>c. [c]) s)"
    using assms by (cases s rule: rev_cases) auto
  moreover have "concat (map (\<lambda>c. [c]) s) = s" by (induction s) auto
  ultimately show ?thesis using assms by (simp add: trim_def utf8_chars_ascii)
qed

lemma trim_space: "list_all is_ascii s \<Longrightarrow> trim (CHR '' '' # s) = trim s"
  by (simp add: trim_def utf8_chars_ascii is_ascii_def is_white_def char_width_def byte_def)

lemma split_once_first: "c \<notin> set xs \<Longrightarrow> split_once c (xs @ c # ys) = Some (xs, ys)"
  by (induction xs) auto

lemma split_once_none: "c \<notin> set xs \<Longrightarrow> split_once c xs = None"
  by (induction xs) auto

lemma split_on_none: "c \<notin> set xs \<Longrightarrow> split_on c xs = [xs]"
  by (induction xs) auto

lemma digits_ascii: "list_all is_digit s \<Longrightarrow> list_all is_ascii s"
  by (auto simp: list_all_iff is_digit_def is_ascii_def)

lemma digit_not_white: "is_digit c \<Longrightarrow> \<not> is_white [c]"
  by (auto simp: is_digit_def is_white_def)

lemma show_nat_notin [simp]:
  "CHR ''-'' \<notin> set (show_nat n)" "CHR '','' \<notin> set (show_nat n)" "CHR 0x0D \<notin> set (show_nat n)"
proof -
  have "\<not> is_digit CHR ''-''" "\<not> is_digit CHR '',''" "\<not> is_digit CHR 0x0D"
    by (simp_all add: is_digit_def byte_def)
  then show "CHR ''-'' \<notin> set (show_nat n)" "CHR '','' \<notin> set (show_nat n)" "CHR 0x0D \<notin> set (show_nat n)"
    using show_nat_digits [of n] by (metis list_all_iff)+
qed

lemma show_nat_ends: "is_digit (hd (show_nat n))" "is_digit (last (show_nat n))"
  using show_nat_digits [of n] by (auto simp: list_all_iff)

lemma trim_show_nat [simp]: "trim (show_nat n) = show_nat n"
  by (rule trim_ascii) (simp_all add: digits_ascii show_nat_digits show_nat_ends digit_not_white)


end
