(* ===== verification/JsonProps.thy ===== *)
theory JsonProps
  imports Json Texts
begin

text \<open>
  What the JSON extractor reads: the integers \<open>str\<close> prints, and the elements of a printed
  array by their index.
\<close>

section \<open>Numbers\<close>

definition number_char :: "char \<Rightarrow> bool" where
  "number_char c \<longleftrightarrow> is_digit c \<or> c = CHR ''-''"

lemma number_char_plain:
  "number_char c \<Longrightarrow> \<not> is_delim c \<and> \<not> is_ws c \<and> is_ascii c
     \<and> c \<noteq> CHR ''.'' \<and> c \<noteq> CHR ''e'' \<and> c \<noteq> CHR ''E'' \<and> c \<noteq> CHR 0x22
     \<and> c \<noteq> CHR ''t'' \<and> c \<noteq> CHR ''f'' \<and> c \<noteq> CHR ''n'' \<and> c \<noteq> CHR ''{'' \<and> c \<noteq> CHR ''[''
     \<and> c \<noteq> CHR '']'' \<and> c \<noteq> CHR ''}''"
  by (auto simp: number_char_def is_digit_def byte_def is_delim_def is_ws_def is_ascii_def)

lemma show_i64_number: "list_all number_char (show_i64 n)"
  using show_nat_digits
  by (auto simp: show_i64_def show_int_def number_char_def list_all_iff)

lemma show_i64_Cons: "\<exists>c cs. show_i64 n = c # cs \<and> number_char c"
proof -
  have "show_i64 n \<noteq> []" by (simp add: show_i64_def show_int_def)
  then show ?thesis using show_i64_number [of n] by (cases "show_i64 n") auto
qed

lemma skip_ws_stays: "p < length b \<Longrightarrow> \<not> is_ws (b ! p) \<Longrightarrow> skip_ws b p = p"
  by (subst skip_ws.simps) simp

lemma skip_token_run:
  "list_all number_char tok \<Longrightarrow> rest = [] \<or> is_delim (hd rest) \<Longrightarrow>
   skip_token (pre @ tok @ rest) (length pre) = length pre + length tok"
proof (induction tok arbitrary: pre)
  case Nil
  then show ?case by (subst skip_token.simps) (auto simp: hd_conv_nth nth_append)
next
  case (Cons c tok)
  from Cons.IH [of "pre @ [c]"] Cons.prems have
    "skip_token (pre @ c # tok @ rest) (Suc (length pre)) = Suc (length pre + length tok)" by simp
  with Cons.prems number_char_plain [of c] show ?case
    by (subst skip_token.simps) (simp add: nth_append)
qed

lemma parse_scalar_number:
  assumes "rest = [] \<or> is_delim (hd rest)"
  shows "parse_scalar (pre @ show_i64 n @ rest) (length pre) = Ok (VInt n, length pre + length (show_i64 n))"
proof -
  obtain c cs where c: "show_i64 n = c # cs" "number_char c" using show_i64_Cons by blast
  have "valid_utf8 (show_i64 n)"
    using show_i64_number [of n] number_char_plain by (simp add: valid_utf8_def valid_up_to_ascii list_all_iff)
  moreover have "\<not> list_ex (\<lambda>c. c = CHR ''.'' \<or> c = CHR ''e'' \<or> c = CHR ''E'') (show_i64 n)"
    using show_i64_number [of n] number_char_plain by (auto simp: list_all_iff list_ex_iff)
  ultimately have "parse_number_token (show_i64 n) = Ok (VInt n)"
    by (simp add: parse_number_token_def)
  moreover have "get_at (pre @ show_i64 n @ rest) (length pre) = Some c"
    by (simp add: get_at_def nth_append c)
  ultimately show ?thesis
    using c(2) number_char_plain [of c] skip_token_run [OF show_i64_number assms, of pre n]
    by (simp add: parse_scalar_def Let_def)
qed

section \<open>Arrays\<close>

text \<open>The text of an array of integers, and the part of it behind its first element.\<close>

fun rest_text :: "i64 list \<Rightarrow> string" where
  "rest_text [] = '']''"
| "rest_text (n # ns) = '','' @ show_i64 n @ rest_text ns"

fun array_text :: "i64 list \<Rightarrow> string" where
  "array_text [] = ''[]''"
| "array_text (n # ns) = ''['' @ show_i64 n @ rest_text ns"

lemma rest_text_delim: "rest_text ns \<noteq> []" "is_delim (hd (rest_text ns))" "\<not> is_ws (hd (rest_text ns))"
proof -
  have "rest_text ns \<noteq> [] \<and> is_delim (hd (rest_text ns)) \<and> \<not> is_ws (hd (rest_text ns))"
    by (cases ns) (simp_all add: is_delim_def is_ws_def byte_def)
  then show "rest_text ns \<noteq> []" "is_delim (hd (rest_text ns))" "\<not> is_ws (hd (rest_text ns))" by simp_all
qed

text \<open>Reading the scalar at the position a loop has found.\<close>

definition scalar_at :: "string \<Rightarrow> nat res \<Rightarrow> val res" where
  "scalar_at b found = bindR found (\<lambda>q. bindR (parse_scalar b (skip_ws b q)) (\<lambda>(v, _). Ok v))"

text \<open>The start of an element is not white space and does not open anything.\<close>

lemma element_start:
  assumes "b = pre @ show_i64 n @ rest_text ns"
  shows "length pre < length b" "skip_ws b (length pre) = length pre" "number_char (b ! length pre)"
proof -
  obtain c cs where c: "show_i64 n = c # cs" "number_char c" using show_i64_Cons by blast
  then show "length pre < length b" and num: "number_char (b ! length pre)"
    by (simp_all add: assms nth_append)
  then show "skip_ws b (length pre) = length pre"
    using number_char_plain [OF num] by (intro skip_ws_stays) simp_all
qed

lemma skip_value_number:
  assumes b: "b = pre @ show_i64 n @ rest_text ns"
  shows "skip_value b (length pre) = Ok (length pre + length (show_i64 n))"
proof -
  have "skip_token b (length pre) = length pre + length (show_i64 n)"
    unfolding b by (rule skip_token_run) (simp_all add: show_i64_number rest_text_delim)
  then show ?thesis
    using number_char_plain [OF element_start(3) [OF b]] element_start(1,2) [OF b]
    by (simp add: skip_value_def get_at_def)
qed

lemma element_end:
  assumes b: "b = pre @ show_i64 n @ rest_text ns"
  shows "skip_ws b (length pre + length (show_i64 n)) = length pre + length (show_i64 n)"
    and "get_at b (length pre + length (show_i64 n)) = Some (hd (rest_text ns))"
proof -
  have "length pre + length (show_i64 n) < length b" "b ! (length pre + length (show_i64 n)) = hd (rest_text ns)"
    using rest_text_delim(1) [of ns] by (simp_all add: b nth_append hd_conv_nth)
  then show "skip_ws b (length pre + length (show_i64 n)) = length pre + length (show_i64 n)"
    and "get_at b (length pre + length (show_i64 n)) = Some (hd (rest_text ns))"
    using rest_text_delim(3) [of ns] by (simp_all add: skip_ws_stays get_at_def)
qed

lemma array_loop_step:
  assumes b: "b = pre @ show_i64 n @ rest_text ns"
  shows "array_loop b (length pre) i target =
    (if i = target then Ok (length pre)
     else if ns = [] then jerr ''json: array index out of range''
     else array_loop b (length pre + length (show_i64 n) + 1) (i + 1) target)"
  using element_start [OF b] element_end [OF b] skip_value_number [OF b]
    number_char_plain [OF element_start(3) [OF b]]
  by (subst array_loop.simps) (cases ns, simp_all add: Let_def)

lemma array_loop_reads:
  "i \<le> target \<Longrightarrow> b = pre @ show_i64 n @ rest_text ns \<Longrightarrow>
   scalar_at b (array_loop b (length pre) i target)
   = (if target - i < length (n # ns) then Ok (VInt ((n # ns) ! (target - i)))
      else jerr ''json: array index out of range'')"
proof (induction ns arbitrary: n pre i)
  case Nil
  then show ?case
    using element_start(2) [OF Nil(2)] parse_scalar_number [of "rest_text []" pre n] rest_text_delim(2) [of "[]"]
    unfolding scalar_at_def array_loop_step [OF Nil(2)] by (simp add: jerr_def)
next
  case (Cons m ns)
  show ?case
  proof (cases "i = target")
    case True
    with Cons.prems show ?thesis
      using element_start(2) [OF Cons.prems(2)] parse_scalar_number [of "rest_text (m # ns)" pre n]
        rest_text_delim(2) [of "m # ns"]
      unfolding scalar_at_def array_loop_step [OF Cons.prems(2)] by simp
  next
    case False
    with Cons.prems(1) obtain k where k: "target = i + 1 + k"
      using less_eqE [of "i + 1" target] by (auto simp: Suc_le_eq)
    with False Cons.prems Cons.IH [of "i + 1" "pre @ show_i64 n @ '',''" m] show ?thesis
      unfolding array_loop_step [OF Cons.prems(2)] by simp
  qed
qed

text \<open>
  In the text of an array of integers, the path \<open>i\<close> finds the integer at index \<open>i\<close>, for
  every 64-bit integer as \<open>str\<close> prints it, and an index behind the end is an error.
\<close>

theorem json_array_element:
  assumes "i \<le> usize_max t"
  shows "json_get t (array_text ns) (show_nat i) =
    (if i < length ns then Ok (VInt (ns ! i)) else Err (TypeErr ''json: array index out of range''))"
proof -
  have path: "split_on CHR ''.'' (show_nat i) = [show_nat i]"
    using show_nat_digits [of i] by (intro split_on_none) (auto simp: list_all_iff is_digit_def byte_def)
  have get: "json_get t s (show_nat i) =
      bindR (enter t s (skip_ws s 0) (show_nat i)) (\<lambda>q. scalar_at s (Ok q))" for s
    by (cases "enter t s (skip_ws s 0) (show_nat i)") (simp_all add: json_get_def path scalar_at_def)
  show ?thesis
  proof (cases ns)
    case Nil
    then show ?thesis using assms
      by (simp add: get enter_def enter_array_def parse_usize_show_nat array_loop.simps skip_ws.simps is_ws_def
          byte_def Let_def jerr_def)
  next
    case (Cons n ms)
    have b: "array_text ns = ''['' @ show_i64 n @ rest_text ms" using Cons by simp
    then have "enter t (array_text ns) (skip_ws (array_text ns) 0) (show_nat i) = array_loop (array_text ns) 1 0 i"
      using assms by (simp add: enter_def enter_array_def parse_usize_show_nat skip_ws_stays is_ws_def byte_def)
    moreover have "bindR r (\<lambda>q. scalar_at (array_text ns) (Ok q)) = scalar_at (array_text ns) r" for r
      by (cases r) (simp_all add: scalar_at_def)
    ultimately show ?thesis
      using array_loop_reads [of 0 i "array_text ns" "''[''" n ms] b Cons by (simp add: get jerr_def)
  qed
qed

theorem json_array_element_witness:
  "json_get host_target (array_text [5, - 7]) (show_nat 1) = Ok (VInt (- 7))"
  using json_array_element [of 1 host_target "[5, - 7]"] by (simp add: host_target_def usize_max_def)

end
