(* ===== verification/Bytes.thy ===== *)
theory Bytes
  imports Utf8
begin

unbundle bit_operations_syntax

text \<open>
  What the packet code of the Tailscale core shares: bytes and big and little endian words,
  slices and \<open>copy_from_slice\<close>, and the internet checksum (\<open>sum16\<close>, \<open>finish\<close>), with the
  arithmetic facts that make a packet with its checksum filled in verify.
\<close>

section \<open>Byte strings\<close>

type_synonym bytes = "u8 list"

text \<open>The text of a byte string and back; both are the list of its bytes.\<close>

definition to_text :: "bytes \<Rightarrow> string" where
  "to_text bs = map (\<lambda>b. char_of (unat b)) bs"

definition of_text :: "string \<Rightarrow> bytes" where
  "of_text s = map (\<lambda>c. of_char c) s"

lemma to_text_length [simp]: "length (to_text bs) = length bs"
  by (simp add: to_text_def)

lemma of_text_length [simp]: "length (of_text s) = length s"
  by (simp add: of_text_def)

lemma of_text_append [simp]: "of_text (s @ t) = of_text s @ of_text t"
  by (simp add: of_text_def)

lemma to_text_of_text [simp]: "to_text (of_text s) = s"
proof -
  have "char_of (unat (of_char c :: u8)) = c" for c :: char
  proof -
    have "(of_char c :: u8) = word_of_nat (of_char c)" by (simp add: of_nat_of_char)
    then have "unat (of_char c :: u8) = of_char c mod 256"
      by (simp add: unsigned_of_nat take_bit_eq_mod del: of_nat_of_char)
    then show ?thesis by simp
  qed
  then show ?thesis by (induction s) (simp_all add: to_text_def of_text_def)
qed

text \<open>\<open>&xs[i..j]\<close> and \<open>xs[i..i + n].copy_from_slice(ys)\<close>, in range.\<close>

definition cut :: "nat \<Rightarrow> nat \<Rightarrow> 'a list \<Rightarrow> 'a list" where
  "cut i j xs = drop i (take j xs)"

definition put :: "nat \<Rightarrow> 'a list \<Rightarrow> 'a list \<Rightarrow> 'a list" where
  "put i ys xs = take i xs @ ys @ drop (i + length ys) xs"

lemma length_cut [simp]: "j \<le> length xs \<Longrightarrow> length (cut i j xs) = j - i"
  by (simp add: cut_def)

lemma nth_cut: "i + k < j \<Longrightarrow> j \<le> length xs \<Longrightarrow> cut i j xs ! k = xs ! (i + k)"
  by (simp add: cut_def)

lemma cut_to_end: "n = length xs \<Longrightarrow> cut i n xs = drop i xs"
  by (simp add: cut_def)

lemma cut_take: "j \<le> n \<Longrightarrow> cut i j (take n xs) = cut i j xs"
  by (simp add: cut_def min_def)

lemma cut_eqI:
  "j \<le> length xs \<Longrightarrow> j' \<le> length ys \<Longrightarrow> j - i = j' - i' \<Longrightarrow>
   (\<And>k. k < j - i \<Longrightarrow> xs ! (i + k) = ys ! (i' + k)) \<Longrightarrow> cut i j xs = cut i' j' ys"
  by (rule nth_equalityI) (simp_all add: nth_cut)

lemma cut_all [simp]: "cut 0 (length xs) xs = xs"
  by (simp add: cut_def)

lemma cut_append_right [simp]:
  "length xs \<le> i \<Longrightarrow> cut i j (xs @ ys) = cut (i - length xs) (j - length xs) ys"
  by (cases "length xs \<le> j") (simp_all add: cut_def min_def)

lemma cut_append_left: "j \<le> length xs \<Longrightarrow> cut i j (xs @ ys) = cut i j xs"
  by (simp add: cut_def)

lemma length_put [simp]: "i + length ys \<le> length xs \<Longrightarrow> length (put i ys xs) = length xs"
  by (simp add: put_def)

lemma nth_put:
  "i + length ys \<le> length xs \<Longrightarrow> k < length xs \<Longrightarrow>
   put i ys xs ! k = (if i \<le> k \<and> k < i + length ys then ys ! (k - i) else xs ! k)"
  by (auto simp: put_def nth_append min_def)

lemma cut_put_same: "i + length ys \<le> length xs \<Longrightarrow> cut i (i + length ys) (put i ys xs) = ys"
  by (simp add: cut_def put_def)

lemma cut_put_disjoint:
  assumes "i + length ys \<le> length xs" "k \<le> length xs" "k \<le> i \<or> i + length ys \<le> j"
  shows "cut j k (put i ys xs) = cut j k xs"
proof (rule nth_equalityI)
  show "length (cut j k (put i ys xs)) = length (cut j k xs)" using assms by simp
  fix n assume "n < length (cut j k (put i ys xs))"
  with assms have n: "j + n < k" by simp
  with assms have "put i ys xs ! (j + n) = xs ! (j + n)"
    by (subst nth_put) auto
  with n assms show "cut j k (put i ys xs) ! n = cut j k xs ! n"
    by (simp add: nth_cut)
qed

text \<open>Cutting a list that has been written into.\<close>

lemma take_put: "i + length ys \<le> n \<Longrightarrow> n \<le> length xs \<Longrightarrow> take n (put i ys xs) = put i ys (take n xs)"
  by (auto simp: put_def drop_take min_absorb1 min_absorb2)

lemma drop_put: "n \<le> i \<Longrightarrow> i + length ys \<le> length xs \<Longrightarrow>
    drop n (put i ys xs) = put (i - n) ys (drop n xs)"
  by (simp add: put_def drop_take)

lemma take_put_after: "n \<le> i \<Longrightarrow> i + length ys \<le> length xs \<Longrightarrow> take n (put i ys xs) = take n xs"
  by (simp add: put_def)

lemma drop_put_before: "i + length ys \<le> n \<Longrightarrow> i + length ys \<le> length xs \<Longrightarrow> drop n (put i ys xs) = drop n xs"
  by (simp add: put_def)

lemma put_singleton: "i < length xs \<Longrightarrow> xs[i := y] = put i [y] xs"
  by (simp add: put_def upd_conv_take_nth_drop)

lemma put_append: "i + length ys \<le> length xs \<Longrightarrow> put i ys (xs @ zs) = put i ys xs @ zs"
  by (simp add: put_def)

lemma put_here: "length xs = i \<Longrightarrow> length ys = length us \<Longrightarrow> put i ys (xs @ us @ zs) = xs @ ys @ zs"
  by (simp add: put_def)

lemma list2: "length xs = 2 \<Longrightarrow> xs = [xs ! 0, xs ! 1]"
  by (rule nth_equalityI) (auto simp: less_Suc_eq numeral_2_eq_2)

lemma list4: "length xs = 4 \<Longrightarrow> xs = [xs ! 0, xs ! 1, xs ! 2, xs ! 3]"
  by (rule nth_equalityI) (auto simp: less_Suc_eq numeral_eq_Suc)

section \<open>Words as bytes\<close>

lemma u8_less: "unat (a :: u8) < 256"
  using unsigned_less [of a, where ?'a = nat] by simp

lemma u16_less: "unat (a :: u16) < 65536"
  using unsigned_less [of a, where ?'a = nat] by simp

lemma u32_less: "unat (a :: u32) < 4294967296"
  using unsigned_less [of a, where ?'a = nat] by simp

lemma unat_widen:
  "unat (ucast a :: u32) = unat a" "unat (ucast a :: u16) = unat a" for a :: u8
  using u8_less [of a] by (simp_all add: unsigned_ucast_eq take_bit_eq_mod)

lemma unat_widen16: "unat (ucast a :: u32) = unat a" for a :: u16
  using u16_less [of a] by (simp add: unsigned_ucast_eq take_bit_eq_mod)

definition be16 :: "u16 \<Rightarrow> bytes" where
  "be16 w = [ucast (drop_bit 8 w), ucast w]"

definition of_be16 :: "u8 \<Rightarrow> u8 \<Rightarrow> u16" where
  "of_be16 a b = push_bit 8 (ucast a) OR ucast b"

definition be32 :: "u32 \<Rightarrow> bytes" where
  "be32 w = [ucast (drop_bit 24 w), ucast (drop_bit 16 w), ucast (drop_bit 8 w), ucast w]"

definition of_be32 :: "u8 \<Rightarrow> u8 \<Rightarrow> u8 \<Rightarrow> u8 \<Rightarrow> u32" where
  "of_be32 a b c d = push_bit 24 (ucast a) OR push_bit 16 (ucast b) OR push_bit 8 (ucast c) OR ucast d"

definition le32 :: "u32 \<Rightarrow> bytes" where
  "le32 w = rev (be32 w)"

definition of_le32 :: "u8 \<Rightarrow> u8 \<Rightarrow> u8 \<Rightarrow> u8 \<Rightarrow> u32" where
  "of_le32 a b c d = of_be32 d c b a"

definition be64 :: "u64 \<Rightarrow> bytes" where
  "be64 w = be32 (ucast (drop_bit 32 w)) @ be32 (ucast w)"

definition le64 :: "u64 \<Rightarrow> bytes" where
  "le64 w = rev (be64 w)"

text \<open>Reading a field of a packet; the caller has checked the length.\<close>

definition get16 :: "nat \<Rightarrow> bytes \<Rightarrow> u16" where
  "get16 i xs = of_be16 (xs ! i) (xs ! (i + 1))"

definition get32 :: "nat \<Rightarrow> bytes \<Rightarrow> u32" where
  "get32 i xs = of_be32 (xs ! i) (xs ! (i + 1)) (xs ! (i + 2)) (xs ! (i + 3))"

definition get32le :: "nat \<Rightarrow> bytes \<Rightarrow> u32" where
  "get32le i xs = of_le32 (xs ! i) (xs ! (i + 1)) (xs ! (i + 2)) (xs ! (i + 3))"

definition get64le :: "nat \<Rightarrow> bytes \<Rightarrow> u64" where
  "get64le i xs = push_bit 32 (ucast (get32le (i + 4) xs)) OR ucast (get32le i xs)"

text \<open>The header length an IPv4 packet announces.\<close>

definition ip_ihl :: "bytes \<Rightarrow> nat" where
  "ip_ihl inner = unat (inner ! 0 AND 0x0f) * 4"

lemma length_be [simp]:
  "length (be16 w) = 2" "length (be32 x) = 4" "length (le32 x) = 4"
  "length (be64 y) = 8" "length (le64 y) = 8"
  by (simp_all add: be16_def be32_def le32_def be64_def le64_def)

lemma of_be16_be16 [simp]: "of_be16 (ucast (drop_bit 8 w)) (ucast w) = w"
  by (rule bit_word_eqI) (auto simp: of_be16_def bit_simps)

lemma of_be32_be32 [simp]:
  "of_be32 (ucast (drop_bit 24 w)) (ucast (drop_bit 16 w)) (ucast (drop_bit 8 w)) (ucast w) = w"
proof (rule bit_word_eqI)
  fix n :: nat assume "n < LENGTH(32)"
  moreover have "24 \<le> n \<or> (16 \<le> n \<and> n < 24) \<or> (8 \<le> n \<and> n < 16) \<or> n < 8" by linarith
  ultimately show "bit (of_be32 (ucast (drop_bit 24 w)) (ucast (drop_bit 16 w))
      (ucast (drop_bit 8 w)) (ucast w)) n = bit w n"
    by (auto simp: of_be32_def bit_simps)
qed

lemma be16_of_be16 [simp]: "be16 (of_be16 a b) = [a, b]"
proof -
  have "\<not> bit b (8 + n)" for n using bit_imp_le_length [of b "8 + n"] by auto
  then show ?thesis
    by (auto simp: be16_def of_be16_def bit_simps intro!: bit_word_eqI)
qed

lemma get16_put [simp]: "i + 2 \<le> length xs \<Longrightarrow> get16 i (put i (be16 w) xs) = w"
  by (simp add: get16_def nth_put) (simp add: be16_def)

lemma get32_put [simp]: "i + 4 \<le> length xs \<Longrightarrow> get32 i (put i (be32 w) xs) = w"
  by (simp add: get32_def nth_put) (simp add: be32_def)

lemma get16_put_other:
  "i + length ys \<le> length xs \<Longrightarrow> k + 2 \<le> length xs \<Longrightarrow> k + 2 \<le> i \<or> i + length ys \<le> k \<Longrightarrow>
   get16 k (put i ys xs) = get16 k xs"
  by (auto simp: get16_def nth_put)

lemma get32_put_other:
  "i + length ys \<le> length xs \<Longrightarrow> k + 4 \<le> length xs \<Longrightarrow> k + 4 \<le> i \<or> i + length ys \<le> k \<Longrightarrow>
   get32 k (put i ys xs) = get32 k xs"
  by (auto simp: get32_def nth_put)

lemma unat_of_be16: "unat (of_be16 a b) = 256 * unat a + unat b"
proof -
  have "of_be16 a b = push_bit 8 (ucast a) + ucast b"
    unfolding of_be16_def by (rule disjunctive_add [symmetric]) (auto simp: bit_simps dest: bit_imp_le_length)
  moreover have "unat (push_bit 8 (ucast a :: u16)) = 256 * unat a"
    using u8_less [of a]
    by (simp add: push_bit_eq_mult unat_word_ariths unat_widen unat_widen16)
  moreover have "unat (ucast b :: u16) = unat b" by (simp add: unat_widen unat_widen16)
  ultimately show ?thesis
    using u8_less [of a] u8_less [of b]
    by (simp add: unat_word_ariths)
qed

lemma get16_at: "length xs = i \<Longrightarrow> get16 i (xs @ be16 w @ ys) = w"
  by (simp add: get16_def nth_append) (simp add: be16_def)

lemma get32_at: "length xs = i \<Longrightarrow> get32 i (xs @ be32 w @ ys) = w"
  by (simp add: get32_def nth_append) (simp add: be32_def)

lemma cut_at: "length xs = i \<Longrightarrow> length ys = n \<Longrightarrow> cut i (i + n) (xs @ ys @ zs) = ys"
  by (simp add: cut_def)

lemma unat_word16: "n < 65536 \<Longrightarrow> unat (word_of_nat n :: u16) = n"
  by (simp add: unsigned_of_nat take_bit_eq_mod)

section \<open>The internet checksum\<close>

text \<open>
  \<open>sum16\<close> adds the big endian 16-bit words of the data to a 32-bit accumulator, an odd last
  byte as the high half of a word. The addition is the wrapping one of a release build; no
  addition wraps below 131072 bytes of data (\<open>unat_sum16\<close>), which no IPv4 packet reaches.
\<close>

fun sum16 :: "bytes \<Rightarrow> u32 \<Rightarrow> u32" where
  "sum16 [] s = s"
| "sum16 [a] s = s + push_bit 8 (ucast a)"
| "sum16 (a # b # xs) s = sum16 xs (s + ucast (of_be16 a b))"

lemma unat_low16: "unat (s AND 0xffff) = unat s mod 65536" for s :: u32
proof -
  have "s AND 0xffff = take_bit 16 s" by (simp add: take_bit_eq_mask mask_eq_exp_minus_1)
  then show ?thesis by (simp only: unsigned_take_bit_eq) (simp add: take_bit_eq_mod)
qed

lemma unat_high16: "unat (drop_bit 16 s) = unat s div 65536" for s :: u32
  by (simp only: unat_drop_bit_eq) (simp add: drop_bit_eq_div)

lemma word_shift_less: "drop_bit 16 (s :: u32) \<noteq> 0 \<Longrightarrow> unat ((s AND 0xffff) + drop_bit 16 s) < unat s"
proof -
  assume nz: "drop_bit 16 s \<noteq> 0"
  note lo = unat_low16 [of s] and hi = unat_high16 [of s]
  from nz hi have "unat s div 65536 \<noteq> 0" by (metis unat_eq_0)
  moreover have "unat s = 65536 * (unat s div 65536) + unat s mod 65536" by simp
  ultimately have "unat s mod 65536 + unat s div 65536 < unat s" by linarith
  with lo hi show ?thesis
    using u32_less [of s] by (simp add: unat_word_ariths)
qed

function finish :: "u32 \<Rightarrow> u16" where
  "finish s = (if drop_bit 16 s \<noteq> 0 then finish ((s AND 0xffff) + drop_bit 16 s) else NOT (ucast s))"
  by pat_completeness auto
termination
  by (relation "measure unat") (auto intro: word_shift_less)

declare finish.simps [simp del]

definition checksum :: "bytes \<Rightarrow> u16" where
  "checksum data = finish (sum16 data 0)"

subsection \<open>What the checksum computes\<close>

fun words16 :: "bytes \<Rightarrow> nat" where
  "words16 [] = 0"
| "words16 [a] = 256 * unat a"
| "words16 (a # b # xs) = unat (of_be16 a b) + words16 xs"

lemma words16_bound: "words16 xs \<le> 65535 * ((length xs + 1) div 2)"
proof (induction xs rule: words16.induct)
  case (2 a)
  then show ?case using u8_less [of a] by simp
next
  case (3 a b xs)
  then show ?case
    using u8_less [of a] u8_less [of b]
    by (simp add: unat_of_be16)
qed simp

lemma unat_sum16:
  "unat s + words16 xs < 2 ^ 32 \<Longrightarrow> unat (sum16 xs s) = unat s + words16 xs"
proof (induction xs s rule: sum16.induct)
  case (2 a s)
  have "unat (push_bit 8 (ucast a :: u32)) = 256 * unat a"
    using u8_less [of a]
    by (simp add: push_bit_eq_mult unat_word_ariths unat_widen unat_widen16)
  with 2 show ?case by (simp add: unat_word_ariths)
next
  case (3 a b xs s)
  have "unat (ucast (of_be16 a b) :: u32) = unat (of_be16 a b)" by (simp add: unat_widen unat_widen16)
  with 3 show ?case by (simp add: unat_word_ariths)
qed simp

lemma words16_append: "even (length xs) \<Longrightarrow> words16 (xs @ ys) = words16 xs + words16 ys"
  by (induction xs rule: words16.induct) auto

text \<open>The one's complement sum: 0 only for all-zero data, otherwise between 1 and 65535.\<close>

definition fold16 :: "nat \<Rightarrow> nat" where
  "fold16 n = (if n = 0 then 0 else (n - 1) mod 65535 + 1)"

lemma fold16_bound: "fold16 n \<le> 65535"
  by (auto simp: fold16_def Suc_leI)

lemma fold16_small: "n \<le> 65535 \<Longrightarrow> fold16 n = n"
  by (simp add: fold16_def)

lemma fold16_step: "65536 \<le> n \<Longrightarrow> fold16 (n mod 65536 + n div 65536) = fold16 n"
proof -
  assume n: "65536 \<le> n"
  then have q: "1 \<le> n div 65536" by simp
  have "n = 65536 * (n div 65536) + n mod 65536" by simp
  then have "n - 1 = 65535 * (n div 65536) + (n mod 65536 + n div 65536 - 1)"
    using q by linarith
  then have "(n - 1) mod 65535 = (n mod 65536 + n div 65536 - 1) mod 65535"
    by (metis mod_mult_self4)
  with n q show ?thesis by (simp add: fold16_def)
qed

lemma unat_not16: "unat (NOT w) = 65535 - unat w" for w :: u16
proof -
  have "uint (NOT w) = (- uint w - 1) mod 65536"
    by (simp add: unsigned_not_eq not_int_def take_bit_eq_mod)
  moreover have "(- u - 1) mod 65536 = 65535 - u" if "0 \<le> u" "u < 65536" for u :: int
    by (rule int_mod_pos_eq [where q = "-1"]) (use that in auto)
  moreover have "0 \<le> uint w" "uint w < 65536"
    using unsigned_less [of w, where ?'a = int] by simp_all
  ultimately have "uint (NOT w) = 65535 - uint w" by metis
  then show ?thesis
    by (metis of_nat_unat nat_int nat_diff_distrib' nat_numeral of_nat_0_le_iff zero_le_numeral)
qed

lemma finish_fold16: "unat (finish s) = 65535 - fold16 (unat s)"
proof (induction s rule: finish.induct)
  case (1 s)
  note hi = unat_high16 [of s]
  show ?case
  proof (cases "drop_bit 16 s \<noteq> 0")
    case True
    note lo = unat_low16 [of s]
    have "unat s div 65536 \<noteq> 0" using True hi by (metis unat_eq_0)
    then have big: "65536 \<le> unat s" by simp
    have "unat s div 65536 < 65536" using u32_less [of s] by simp
    moreover have "unat s mod 65536 < 65536" by simp
    ultimately have "unat ((s AND 0xffff) + drop_bit 16 s) = unat s mod 65536 + unat s div 65536"
      by (simp add: unat_word_ariths lo hi)
    with 1 [OF True] True big show ?thesis
      by (simp add: finish.simps [of s] fold16_step)
  next
    case False
    then have "unat s div 65536 = 0" using hi by (metis unat_0)
    then have small: "unat s \<le> 65535" by simp
    have "unat (NOT (ucast s :: u16)) = 65535 - unat (ucast s :: u16)"
      by (rule unat_not16)
    moreover have "unat (ucast s :: u16) = unat s"
      using small by (simp add: unsigned_ucast_eq take_bit_eq_mod)
    ultimately show ?thesis using False small by (simp add: finish.simps [of s] fold16_small)
  qed
qed

lemma checksum_fold16:
  "length xs < 131072 \<Longrightarrow> unat (checksum xs) = 65535 - fold16 (words16 xs)"
  using words16_bound [of xs] unat_sum16 [of 0 xs]
  by (simp add: checksum_def finish_fold16)

lemma sum16_append: "even (length xs) \<Longrightarrow> sum16 (xs @ ys) s = sum16 ys (sum16 xs s)"
  by (induction xs s rule: sum16.induct) auto

text \<open>
  The point of the checksum: data whose checksum field was zero and has been filled with the
  checksum of the data sums to all ones, so its own checksum is zero, which is how a
  receiver verifies it.
\<close>

lemma words16_fill:
  assumes "even i" "i + 2 \<le> length xs" "xs ! i = 0" "xs ! (i + 1) = 0"
  shows "words16 (put i (be16 c) xs) = words16 xs + unat c"
proof -
  have "drop i xs = 0 # 0 # drop (i + 2) xs"
    using assms by (simp add: Cons_nth_drop_Suc [symmetric] Suc_le_eq)
  then have xs: "xs = take i xs @ 0 # 0 # drop (i + 2) xs" by (metis append_take_drop_id)
  have e: "even (length (take i xs))" using assms by simp
  have zero: "unat (of_be16 0 0) = 0" by (simp add: unat_of_be16)
  have c: "unat (of_be16 (ucast (drop_bit 8 c)) (ucast c)) = unat c" by simp
  have "words16 (put i (be16 c) xs) = words16 (take i xs @ be16 c @ drop (i + 2) xs)"
    by (simp add: put_def)
  then have "words16 (put i (be16 c) xs) = words16 (take i xs) + (unat c + words16 (drop (i + 2) xs))"
    using words16_append [OF e, of "be16 c @ drop (i + 2) xs"] c by (simp add: be16_def)
  moreover have "words16 xs = words16 (take i xs) + words16 (drop (i + 2) xs)"
    using words16_append [OF e, of "0 # 0 # drop (i + 2) xs"] xs zero by simp
  ultimately show ?thesis by simp
qed

lemma fold16_complement: "fold16 (n + (65535 - fold16 n)) = 65535"
proof (cases "n = 0")
  case False
  have "n - 1 = 65535 * ((n - 1) div 65535) + (n - 1) mod 65535" by simp
  moreover have "(n - 1) mod 65535 < 65535" by simp
  ultimately have "n + (65535 - ((n - 1) mod 65535 + 1)) - 1 = 65534 + 65535 * ((n - 1) div 65535)"
    using False by linarith
  then have "(n + (65535 - ((n - 1) mod 65535 + 1)) - 1) mod 65535 = 65534" by simp
  with False show ?thesis by (simp add: fold16_def)
qed (simp add: fold16_def)

lemma checksum_fill:
  assumes "even i" "i + 2 \<le> length xs" "length xs < 131072" "xs ! i = 0" "xs ! (i + 1) = 0"
  shows "checksum (put i (be16 (checksum xs)) xs) = 0"
proof -
  have "unat (checksum (put i (be16 (checksum xs)) xs)) = 0"
    using assms by (simp add: checksum_fold16 words16_fill fold16_complement)
  then show ?thesis by (simp add: unat_eq_zero)
qed

end
