(* ===== verification/Noise.thy ===== *)
theory Noise
  imports Bytes
begin

text \<open>
  \<open>core/src/noise.rs\<close>: the Noise handshake of the control channel and its transport records.
  The handshake state machine (\<open>snow\<close>) and ChaCha20-Poly1305 are outside the crate: they are
  the records \<open>snow\<close> and \<open>aead\<close> of functions, which may fail.
\<close>

section \<open>The handshake\<close>

datatype noise_error = NoiseBuild | NoiseWrite | NoiseRead | NoiseUnfinished | NoiseKey | SealFailed | OpenFailed u64

definition PROTOCOL_VERSION :: u16 where "PROTOCOL_VERSION = 1"
definition PROLOGUE :: bytes where "PROLOGUE = of_text ''Tailscale Control Protocol v1''"
definition PATTERN :: string where "PATTERN = ''Noise_IK_25519_ChaChaPoly_BLAKE2s''"
definition NOISE_INITIATION :: u8 where "NOISE_INITIATION = 1"
definition NOISE_RESPONSE :: u8 where "NOISE_RESPONSE = 2"
definition MSG_ERROR :: u8 where "MSG_ERROR = 3"
definition MSG_RECORD :: u8 where "MSG_RECORD = 4"

text \<open>
  What the code uses of \<open>snow\<close>: building an initiator for a pattern, a prologue and the two
  keys, writing the first message (at most 256 bytes), reading the second, whether the
  handshake is finished, and the two keys of the split.
\<close>

record 'h snow =
  sn_build :: "string \<Rightarrow> bytes \<Rightarrow> bytes \<Rightarrow> bytes \<Rightarrow> 'h option"
  sn_write :: "'h \<Rightarrow> (bytes \<times> 'h) option"
  sn_read :: "bytes \<Rightarrow> 'h \<Rightarrow> 'h option"
  sn_finished :: "'h \<Rightarrow> bool"
  sn_split :: "'h \<Rightarrow> bytes \<times> bytes"

record aead =
  ae_encrypt :: "bytes \<Rightarrow> bytes \<Rightarrow> bytes \<Rightarrow> bytes option"
  ae_decrypt :: "bytes \<Rightarrow> bytes \<Rightarrow> bytes \<Rightarrow> bytes option"

definition noise_start :: "'h snow \<Rightarrow> bytes \<Rightarrow> bytes \<Rightarrow> ('h \<times> bytes, noise_error) outcome" where
  "noise_start sn machine_priv control_pub =
     bindR (ok_or (sn_build sn PATTERN PROLOGUE machine_priv control_pub) NoiseBuild) (\<lambda>hs.
     bindR (ok_or (sn_write sn hs) NoiseWrite) (\<lambda>(noise, hs).
       Ok (hs, be16 PROTOCOL_VERSION @ [NOISE_INITIATION] @ be16 (word_of_nat (length noise)) @ noise)))"

section \<open>Transport records\<close>

record transport =
  tr_send :: bytes
  tr_recv :: bytes
  tx_nonce :: u64
  rx_nonce :: u64

definition transport_new :: "bytes \<Rightarrow> bytes \<Rightarrow> (transport, noise_error) outcome" where
  "transport_new sk rk =
     (if length sk \<noteq> 32 \<or> length rk \<noteq> 32 then Err NoiseKey
      else Ok \<lparr>tr_send = sk, tr_recv = rk, tx_nonce = 0, rx_nonce = 0\<rparr>)"

definition noise_complete :: "'h snow \<Rightarrow> bytes \<Rightarrow> 'h \<Rightarrow> (transport, noise_error) outcome" where
  "noise_complete sn resp_noise hs =
     bindR (ok_or (sn_read sn resp_noise hs) NoiseRead) (\<lambda>hs.
       if \<not> sn_finished sn hs then Err NoiseUnfinished
       else (let (k_send, k_recv) = sn_split sn hs in transport_new k_send k_recv))"

definition be_nonce :: "u64 \<Rightarrow> bytes" where
  "be_nonce counter = put 4 (be64 counter) (replicate 12 0)"

definition seal_record :: "aead \<Rightarrow> bytes \<Rightarrow> (transport, bytes, noise_error) comp" where
  "seal_record ae plaintext = (\<lambda>t.
     let nonce = be_nonce (tx_nonce t); t = t\<lparr>tx_nonce := tx_nonce t + 1\<rparr> in
     case ae_encrypt ae (tr_send t) nonce plaintext of
       None \<Rightarrow> (Err SealFailed, t)
     | Some ct \<Rightarrow> (Ok ([MSG_RECORD] @ be16 (word_of_nat (length ct)) @ ct), t))"

definition open_record :: "aead \<Rightarrow> bytes \<Rightarrow> (transport, bytes, noise_error) comp" where
  "open_record ae ciphertext = (\<lambda>t.
     let nonce = be_nonce (rx_nonce t); t = t\<lparr>rx_nonce := rx_nonce t + 1\<rparr> in
     (ok_or (ae_decrypt ae (tr_recv t) nonce ciphertext) (OpenFailed (rx_nonce t - 1)), t))"

section \<open>Records of one end, opened by the other\<close>

text \<open>The records of several texts, sealed one after the other.\<close>

fun seal_all :: "aead \<Rightarrow> bytes list \<Rightarrow> (transport, bytes, noise_error) comp" where
  "seal_all ae [] = returnM []"
| "seal_all ae (p # ps) = bindM (seal_record ae p) (\<lambda>r. bindM (seal_all ae ps) (\<lambda>rs. returnM (r @ rs)))"

text \<open>
  The law of the cipher, for texts of which the sealed form fits the 16-bit length of a
  record: sealing does not fail, and what is sealed is opened under the same key and nonce.
\<close>

definition aead_law :: "aead \<Rightarrow> bytes \<Rightarrow> bool" where
  "aead_law ae k \<longleftrightarrow> (\<forall>n p. length p \<le> 65519 \<longrightarrow>
     (\<exists>c. ae_encrypt ae k n p = Some c \<and> ae_decrypt ae k n c = Some p \<and> length c = length p + 16))"

lemma aead_lawD:
  assumes "aead_law ae k" "length p \<le> 65519"
  obtains c where "ae_encrypt ae k n p = Some c" "ae_decrypt ae k n c = Some p" "length c = length p + 16"
  using assms by (auto simp: aead_law_def)

lemma seal_record_law:
  assumes "aead_law ae (tr_send t)" "length p \<le> 65519"
  obtains c where "seal_record ae p t = (Ok ([MSG_RECORD] @ be16 (word_of_nat (length c)) @ c), t\<lparr>tx_nonce := tx_nonce t + 1\<rparr>)"
    and "length c < 65536" "ae_decrypt ae (tr_send t) (be_nonce (tx_nonce t)) c = Some p"
proof -
  obtain c where "ae_encrypt ae (tr_send t) (be_nonce (tx_nonce t)) p = Some c"
    "ae_decrypt ae (tr_send t) (be_nonce (tx_nonce t)) c = Some p" "length c = length p + 16"
    using assms by (rule aead_lawD)
  with that assms(2) show thesis by (simp add: seal_record_def Let_def)
qed

lemma open_record_sealed:
  assumes "ae_decrypt ae (tr_recv t) (be_nonce (rx_nonce t)) c = Some p"
  shows "open_record ae c t = (Ok p, t\<lparr>rx_nonce := rx_nonce t + 1\<rparr>)"
  using assms by (simp add: open_record_def Let_def)

end
