(* ===== verification/Http.thy ===== *)
theory Http
  imports Bytes Texts
begin

text \<open>
  The HTTP half of \<open>core/src/tcp.rs\<close>: body sources, replies, the \<open>Range\<close> header, the
  response headers, the request line, query strings and the built-in control panel.
  A request is its bytes; a \<open>usize\<close> is a natural number, its wrap-around written out where
  the code can reach it (\<open>usize_sub\<close>, in a build without overflow checks).
\<close>

section \<open>Body sources and replies\<close>

datatype tcp_action =
  LedOn | LedOff | ScreenOn | ScreenOff | Flash_action | Default_action | Text string

text \<open>
  A flash reader is outside the crate: \<open>reader off n\<close> are the bytes it fills in when asked
  for \<open>n\<close> bytes from \<open>off\<close>.
\<close>

datatype body_source =
  Static bytes
| Owned bytes
| Flash "nat \<Rightarrow> nat \<Rightarrow> bytes" nat

fun body_total_len :: "body_source \<Rightarrow> nat" where
  "body_total_len (Static s) = length s"
| "body_total_len (Owned v) = length v"
| "body_total_len (Flash reader n) = n"

definition copy_clamped :: "bytes \<Rightarrow> nat \<Rightarrow> nat \<Rightarrow> bytes" where
  "copy_clamped src off room =
     (if off \<ge> length src then []
      else let n = min (length src - off) room in cut off (off + n) src)"

fun body_read_at :: "body_source \<Rightarrow> nat \<Rightarrow> nat \<Rightarrow> bytes" where
  "body_read_at (Static s) off room = copy_clamped s off room"
| "body_read_at (Owned v) off room = copy_clamped v off room"
| "body_read_at (Flash reader len) off room =
     (if off \<ge> len then [] else reader off (min (len - off) room))"

record http_reply =
  rp_status :: nat
  rp_content_type :: string
  rp_source :: body_source
  rp_cache_control :: "string option"

definition ok_static :: "string \<Rightarrow> bytes \<Rightarrow> http_reply" where
  "ok_static content_type body = \<lparr>rp_status = 200, rp_content_type = content_type,
     rp_source = Static body, rp_cache_control = None\<rparr>"

definition ok_owned :: "string \<Rightarrow> bytes \<Rightarrow> http_reply" where
  "ok_owned content_type body = \<lparr>rp_status = 200, rp_content_type = content_type,
     rp_source = Owned body, rp_cache_control = None\<rparr>"

definition cached :: "string \<Rightarrow> http_reply \<Rightarrow> http_reply" where
  "cached cache_control r = r\<lparr>rp_cache_control := Some cache_control\<rparr>"

text \<open>Reading a whole flash body chunk by chunk, until its end or a read of nothing.\<close>

function flash_body :: "(nat \<Rightarrow> nat \<Rightarrow> bytes) \<Rightarrow> nat \<Rightarrow> nat \<Rightarrow> bytes" where
  "flash_body reader len off =
     (if off < len then
        (let chunk = reader off (len - off) in
         if chunk = [] then [] else chunk @ flash_body reader len (off + length chunk))
      else [])"
  by pat_completeness auto
termination
  by (relation "measure (\<lambda>(_, len, off). len - off)") (auto intro!: diff_less_mono2)

declare flash_body.simps [simp del]

fun into_body :: "body_source \<Rightarrow> bytes" where
  "into_body (Static s) = s"
| "into_body (Owned v) = v"
| "into_body (Flash reader len) = flash_body reader len 0"

section \<open>The request\<close>

text \<open>\<open>split("\r\n")\<close>.\<close>

fun split_crlf :: "string \<Rightarrow> string list" where
  "split_crlf [] = [[]]"
| "split_crlf (c # cs) =
     (if c = CHR 0x0D \<and> cs \<noteq> [] \<and> hd cs = CHR 0x0A then [] # split_crlf (tl cs)
      else (case split_crlf cs of [] \<Rightarrow> [[c]] | p # ps \<Rightarrow> (c # p) # ps))"

definition strip_prefix :: "string \<Rightarrow> string \<Rightarrow> string option" where
  "strip_prefix p s = (if take (length p) s = p then Some (drop (length p) s) else None)"

text \<open>The value after \<open>bytes=\<close> of the first \<open>Range\<close> header, if it starts that way.\<close>

fun range_spec :: "string list \<Rightarrow> string option" where
  "range_spec [] = None"
| "range_spec (line # lines) = (case split_once CHR '':'' line of
     None \<Rightarrow> range_spec lines
   | Some (name, val) \<Rightarrow>
       if to_ascii_lowercase (trim name) = ''range''
       then map_option trim (strip_prefix ''bytes='' (trim val))
       else range_spec lines)"

text \<open>
  \<open>Ok None\<close>: no usable header, the whole body is served; \<open>Ok (Some (a, b))\<close>: the
  inclusive range of bytes to serve; \<open>Err ()\<close>: not satisfiable.
\<close>

definition range_bounds :: "target \<Rightarrow> string \<Rightarrow> nat \<Rightarrow> ((nat \<times> nat) option, unit) outcome" where
  "range_bounds t spec len =
     (case split_once CHR ''-'' spec of
        None \<Rightarrow> Err ()
      | Some (start, end_) \<Rightarrow>
          if start = [] then
            (case parse_usize t (trim end_) of
               None \<Rightarrow> Err ()
             | Some n \<Rightarrow> if n > 0 then (let n = min n len in Ok (Some (len - n, len - 1))) else Err ())
          else if end_ = [] then
            bindR (ok_or (parse_usize t (trim start)) ()) (\<lambda>a.
              if a \<ge> len then Err () else Ok (Some (a, len - 1)))
          else
            bindR (ok_or (parse_usize t (trim start)) ()) (\<lambda>a.
            bindR (ok_or (parse_usize t (trim end_)) ()) (\<lambda>b.
              if a \<ge> len \<or> a > b then Err () else Ok (Some (a, min b (len - 1))))))"

definition parse_range :: "target \<Rightarrow> bytes \<Rightarrow> nat \<Rightarrow> ((nat \<times> nat) option, unit) outcome" where
  "parse_range t req len =
     (if \<not> valid_utf8 (to_text req) then Ok None
      else case range_spec (split_crlf (to_text req)) of
        None \<Rightarrow> Ok None
      | Some spec \<Rightarrow>
          if len = 0 then Err ()
          else range_bounds t (trim (hd (split_on CHR '','' spec))) len)"

fun http_body :: "bytes \<Rightarrow> bytes" where
  "http_body [] = []"
| "http_body (b # bs) =
     (if take 4 (b # bs) = [0x0D, 0x0A, 0x0D, 0x0A] then drop 4 (b # bs) else http_body bs)"

definition first_line :: "bytes \<Rightarrow> string" where
  "first_line req =
     (let line = to_text (takeWhile (\<lambda>b. b \<noteq> 0x0D \<and> b \<noteq> 0x0A) req)
      in if valid_utf8 line then line else [])"

fun query_pairs :: "string list \<Rightarrow> string \<Rightarrow> string" where
  "query_pairs [] key = []"
| "query_pairs (kv # rest) key = (case split_once CHR ''='' kv of
     Some (k, v) \<Rightarrow> if k = key then v else query_pairs rest key
   | None \<Rightarrow> query_pairs rest key)"

definition query_get :: "string \<Rightarrow> string \<Rightarrow> string" where
  "query_get query key = query_pairs (split_on CHR ''&'' query) key"

definition hexval :: "char \<Rightarrow> nat option" where
  "hexval c =
     (if is_digit c then Some (byte c - 48)
      else if 97 \<le> byte c \<and> byte c \<le> 102 then Some (byte c - 97 + 10)
      else if 65 \<le> byte c \<and> byte c \<le> 70 then Some (byte c - 65 + 10) else None)"

fun url_bytes :: "string \<Rightarrow> string" where
  "url_bytes [] = []"
| "url_bytes (c # cs) =
     (if c = CHR ''+'' then CHR '' '' # url_bytes cs
      else if c = CHR ''%'' then
        (case cs of
           h # l # rest \<Rightarrow>
             (case (hexval h, hexval l) of
                (Some a, Some b) \<Rightarrow> char_of (a * 16 + b) # url_bytes rest
              | _ \<Rightarrow> CHR ''%'' # url_bytes cs)
         | _ \<Rightarrow> c # url_bytes cs)
      else c # url_bytes cs)"

text \<open>
  \<open>String::from_utf8_lossy\<close>: the longest start of an ill-formed sequence that could have
  become a character is replaced by U+FFFD.
\<close>

definition bad_len :: "string \<Rightarrow> nat" where
  "bad_len s = (case s of
     [] \<Rightarrow> 0
   | c # cs \<Rightarrow>
      let b = byte c; (lo, hi) = snd_range b in
      if 224 \<le> b \<and> b \<le> 239 then
        (case cs of c1 # _ \<Rightarrow> if in_range lo hi c1 then 2 else 1 | [] \<Rightarrow> 1)
      else if 240 \<le> b \<and> b \<le> 244 then
        (case cs of
           c1 # c2 # _ \<Rightarrow> if in_range lo hi c1 then (if is_cont c2 then 3 else 2) else 1
         | [c1] \<Rightarrow> if in_range lo hi c1 then 2 else 1
         | [] \<Rightarrow> 1)
      else 1)"

lemma bad_len_pos: "s \<noteq> [] \<Longrightarrow> 0 < bad_len s"
  by (auto simp: bad_len_def Let_def split: list.splits prod.splits)

function from_utf8_lossy :: "string \<Rightarrow> string" where
  "from_utf8_lossy s =
     (if s = [] then []
      else case utf8_step s of
        Some n \<Rightarrow> take n s @ from_utf8_lossy (drop n s)
      | None \<Rightarrow> [CHR 0xEF, CHR 0xBF, CHR 0xBD] @ from_utf8_lossy (drop (bad_len s) s))"
  by pat_completeness auto
termination
  by (relation "measure length") (auto dest: utf8_step_bounds intro!: diff_less bad_len_pos)

declare from_utf8_lossy.simps [simp del]

definition url_decode :: "string \<Rightarrow> string" where
  "url_decode s = from_utf8_lossy (url_bytes s)"

section \<open>The control panel\<close>

definition ok_page :: bytes where
  "ok_page = of_text (''<!doctype html><html><head><meta charset=utf-8><meta http-equiv=refresh content=''
     @ [CHR 0x22] @ ''1;url=/'' @ [CHR 0x22] @ ''></head><body style='' @ [CHR 0x22]
     @ ''background:#111;color:#eee;font-family:sans-serif;text-align:center'' @ [CHR 0x22]
     @ ''><p>OK</p><a href=/ style=color:#9cf>&larr; tilbake</a></body></html>'')"

definition control_page :: "bytes \<Rightarrow> bytes" where
  "control_page our_ip = of_text (''<!doctype html><html><head><meta charset=utf-8><meta name=viewport content='' @ [CHR 0x22]
     @ ''width=device-width,initial-scale=1'' @ [CHR 0x22]
     @ ''><title>T-Dongle S3</title><style>body{font-family:sans-serif;background:#111;co''
     @ ''lor:#eee;text-align:center;margin:1em}a,button{display:inline-block;margin:5px;p''
     @ ''adding:11px 16px;background:#1e88e5;color:#fff;text-decoration:none;border:0;bor''
     @ ''der-radius:7px;font-size:1em}input{padding:10px;border-radius:7px;border:0;font-''
     @ ''size:1em;width:60%}</style></head><body><h2>T-Dongle S3</h2><p>''
     @ show_nat (unat (our_ip ! 0)) @ ''.'' @ show_nat (unat (our_ip ! 1)) @ ''.''
     @ show_nat (unat (our_ip ! 2)) @ ''.'' @ show_nat (unat (our_ip ! 3))
     @ ''</p><a href=/screen/on>Skjerm p'' @ [CHR 0xC3, CHR 0xA5]
     @ ''</a><a href=/screen/off>Skjerm av</a><br><a href=/led/on>LED p'' @ [CHR 0xC3, CHR 0xA5]
     @ ''</a><a href=/led/off>LED av</a><br><a href=/flash>Blink s/h '' @ [CHR 0xC3, CHR 0x97]
     @ ''3</a><a href=/default>Standard info</a><form action=/text><br><input name=msg pl''
     @ ''aceholder='' @ [CHR 0x22] @ ''Tekst til skjerm'' @ [CHR 0x22]
     @ ''><br><button>Vis tekst</button></form></body></html>'')"

definition builtin_route :: "string \<Rightarrow> string \<Rightarrow> bytes \<Rightarrow> bytes \<times> tcp_action option" where
  "builtin_route path query our_ip =
     (if path = ''/led/on'' then (ok_page, Some LedOn)
      else if path = ''/led/off'' then (ok_page, Some LedOff)
      else if path = ''/screen/on'' then (ok_page, Some ScreenOn)
      else if path = ''/screen/off'' then (ok_page, Some ScreenOff)
      else if path = ''/flash'' then (ok_page, Some Flash_action)
      else if path = ''/default'' then (ok_page, Some Default_action)
      else if path = ''/text'' then (ok_page, Some (Text (url_decode (query_get query ''msg''))))
      else (control_page our_ip, None))"

section \<open>The response headers\<close>

definition usize_sub :: "target \<Rightarrow> nat \<Rightarrow> nat \<Rightarrow> nat" where
  "usize_sub t a b = (if b \<le> a then a - b else 2 ^ usize_bits t + a - b)"

definition crlf :: string where
  "crlf = [CHR 0x0D, CHR 0x0A]"

definition http_reason :: "nat \<Rightarrow> string" where
  "http_reason status =
     (if status = 200 then ''OK'' else if status = 206 then ''Partial Content''
      else if status = 416 then ''Range Not Satisfiable'' else ''OK'')"

definition render_headers ::
  "target \<Rightarrow> nat \<Rightarrow> string \<Rightarrow> nat \<Rightarrow> nat \<Rightarrow> nat \<Rightarrow> string option \<Rightarrow> bytes"
where
  "render_headers t status content_type body_base content_len len cache_control =
     (let h = ''HTTP/1.1 '' @ show_nat status @ '' '' @ http_reason status @ crlf
              @ ''Content-Type: '' @ content_type @ crlf
              @ ''Content-Length: '' @ show_nat content_len @ crlf
              @ ''Connection: close'' @ crlf
              @ ''Access-Control-Allow-Origin: *'' @ crlf
              @ ''Accept-Ranges: bytes'' @ crlf;
          h = (case cache_control of None \<Rightarrow> h | Some cc \<Rightarrow> h @ ''Cache-Control: '' @ cc @ crlf);
          h = (if status = 206 then
                 h @ ''Content-Range: bytes '' @ show_nat body_base @ ''-''
                   @ show_nat (usize_sub t (body_base + content_len) 1) @ ''/'' @ show_nat len @ crlf
               else if status = 416 then
                 h @ ''Content-Range: bytes */'' @ show_nat len @ crlf
               else h)
      in of_text (h @ crlf))"

section \<open>Decoded text is text\<close>

lemma from_utf8_lossy_valid: "valid_utf8 (from_utf8_lossy s)"
proof (induction s rule: from_utf8_lossy.induct)
  case (1 s)
  show ?case
  proof (cases "s = []")
    case True
    then show ?thesis by (simp add: from_utf8_lossy.simps valid_utf8_def valid_up_to.simps)
  next
    case ne: False
    show ?thesis
    proof (cases "utf8_step s")
      case None
      have "utf8_step [CHR 0xEF, CHR 0xBF, CHR 0xBD] = Some 3" 
        by (simp add: byte_def in_range_def is_cont_def snd_range_def)
      from valid_up_to_append [OF this] have "valid_up_to ([CHR 0xEF, CHR 0xBF, CHR 0xBD] @ r) = 3 + valid_up_to r" for r by simp
      with ne None 1(1) [OF ne None] show ?thesis
        by (simp add: from_utf8_lossy.simps [of s] valid_utf8_def)
    next
      case (Some n)
      with ne 1(2) [OF ne Some] show ?thesis
        using utf8_step_bounds [OF Some]
        by (simp add: from_utf8_lossy.simps [of s] valid_utf8_def valid_up_to_append)
    qed
  qed
qed

lemma from_utf8_lossy_id: "valid_utf8 s \<Longrightarrow> from_utf8_lossy s = s"
proof (induction s rule: from_utf8_lossy.induct)
  case (1 s)
  show ?case
  proof (cases "s = []")
    case ne: False
    with 1(3) obtain n where n: "utf8_step s = Some n"
      by (subst (asm) valid_utf8_def, subst (asm) valid_up_to.simps) (auto split: option.splits)
    then have "valid_utf8 (drop n s)"
      using 1(3) utf8_step_bounds [OF n] by (simp add: valid_utf8_def valid_up_to.simps [of s])
    with 1(2) [OF ne n] n ne show ?thesis by (simp add: from_utf8_lossy.simps [of s])
  qed (simp add: from_utf8_lossy.simps)
qed

text \<open>
  A decoded query value is well-formed UTF-8, the type invariant of a \<open>String\<close>,
  whatever bytes its percent escapes spell.
\<close>

theorem url_decode_valid: "valid_utf8 (url_decode s)"
  by (simp add: url_decode_def from_utf8_lossy_valid)

section \<open>Ranges\<close>

lemma parse_range_in_body:
  "case parse_range t req n of Ok None \<Rightarrow> True | Ok (Some (a, b)) \<Rightarrow> a \<le> b \<and> b < n
   | Err _ \<Rightarrow> True | Panic \<Rightarrow> False"
  by (auto simp: parse_range_def range_bounds_def ok_or_def Let_def min_def
      split: if_splits option.splits prod.splits)

text \<open>
  A range that is accepted lies within the body, and no header panics the parser.
\<close>

theorem parse_range_bounds:
  "case parse_range t req n of Ok None \<Rightarrow> True | Ok (Some (a, b)) \<Rightarrow> a \<le> b \<and> b < n
   | Err _ \<Rightarrow> True | Panic \<Rightarrow> False"
  by (rule parse_range_in_body)

lemma split_crlf_line: "CHR 0x0D \<notin> set xs \<Longrightarrow> split_crlf (xs @ crlf @ ys) = xs # split_crlf ys"
  by (induction xs) (auto simp: crlf_def)

definition range_request :: "nat \<Rightarrow> nat \<Rightarrow> bytes" where
  "range_request a b = of_text (''GET / HTTP/1.1'' @ crlf
     @ ''Range: bytes='' @ show_nat a @ ''-'' @ show_nat b @ crlf @ crlf)"

text \<open>
  The header of a client that asks for the bytes \<open>a\<close> to \<open>b\<close> is understood as that
  range, cut at the end of the body, and is refused when it starts behind the end or is
  empty.
\<close>

theorem parse_range_request:
  assumes "a \<le> usize_max t" "b \<le> usize_max t" "0 < n"
  shows "parse_range t (range_request a b) n =
    (if a \<ge> n \<or> a > b then Err () else Ok (Some (a, min b (n - 1))))"
proof -
  define spec where "spec = show_nat a @ CHR ''-'' # show_nat b"
  have asc: "list_all is_ascii spec"
    using digits_ascii [OF show_nat_digits] by (simp add: spec_def is_ascii_def byte_def)
  have ends: "spec \<noteq> []" "\<not> is_white [hd spec]" "\<not> is_white [last spec]"
    by (simp_all add: spec_def show_nat_ends digit_not_white)
  have t0: "trim spec = spec" using asc ends by (rule trim_ascii)
  have val: "trim (CHR '' '' # ''bytes='' @ spec) = ''bytes='' @ spec"
    using asc ends by (subst trim_space) (auto simp: is_ascii_def byte_def is_white_def intro!: trim_ascii)
  have name: "to_ascii_lowercase (trim ''Range'') = ''range''"
    by code_simp
  have whole: "to_text (range_request a b) = ''GET / HTTP/1.1'' @ crlf @ (''Range'' @ CHR '':'' # CHR '' '' # ''bytes='' @ spec) @ crlf @ crlf"
    by (simp add: range_request_def spec_def)
  have "list_all is_ascii (to_text (range_request a b))"
    unfolding whole using asc by (simp add: crlf_def is_ascii_def byte_def)
  then have u: "valid_utf8 (to_text (range_request a b))" by (simp add: valid_utf8_def valid_up_to_ascii)
  have "CHR 0x0D \<notin> set (''Range'' @ CHR '':'' # CHR '' '' # ''bytes='' @ spec)" by (simp add: spec_def)
  then have "split_crlf (to_text (range_request a b)) =
      ''GET / HTTP/1.1'' # (''Range'' @ CHR '':'' # CHR '' '' # ''bytes='' @ spec) # split_crlf crlf"
    unfolding whole by (subst split_crlf_line, simp, subst split_crlf_line) simp_all
  moreover have "split_once CHR '':'' ''GET / HTTP/1.1'' = None" by (rule split_once_none) simp
  moreover have "split_once CHR '':'' (''Range'' @ CHR '':'' # CHR '' '' # ''bytes='' @ spec) = Some (''Range'', CHR '' '' # ''bytes='' @ spec)"
    by (rule split_once_first) simp
  moreover have "strip_prefix ''bytes='' (''bytes='' @ spec) = Some spec" by (simp add: strip_prefix_def)
  ultimately have rs: "range_spec (split_crlf (to_text (range_request a b))) = Some spec"
    by (simp only: range_spec.simps option.case prod.case name val t0 if_True option.map refl)
  have "CHR '','' \<notin> set spec" by (simp add: spec_def)
  then have "parse_range t (range_request a b) n = range_bounds t spec n"
    using assms(3) u rs t0 by (simp add: parse_range_def split_on_none)
  also have "split_once CHR ''-'' spec = Some (show_nat a, show_nat b)"
    unfolding spec_def by (rule split_once_first) simp
  then have "range_bounds t spec n = (if a \<ge> n \<or> a > b then Err () else Ok (Some (a, min b (n - 1))))"
    using assms by (simp add: range_bounds_def parse_usize_show_nat)
  finally show ?thesis .
qed

theorem parse_range_request_witness:
  "parse_range host_target (range_request 10 99) 50 = Ok (Some (10, 49))"
  using parse_range_request [of 10 host_target 99 50] by (simp add: usize_max_def)

section \<open>Bodies\<close>

text \<open>
  The bytes of a source, given the file a flash reader reads from, and the contract of the
  reader: it fills in the bytes at the offset, as many as fit.
\<close>

fun content :: "bytes \<Rightarrow> body_source \<Rightarrow> bytes" where
  "content file (Static s) = s"
| "content file (Owned v) = v"
| "content file (Flash reader len) = take len file"

fun reads_file :: "bytes \<Rightarrow> body_source \<Rightarrow> bool" where
  "reads_file file (Flash reader len) \<longleftrightarrow> len \<le> length file \<and> (\<forall>off n. reader off n = take n (drop off file))"
| "reads_file file _ \<longleftrightarrow> True"

lemma body_total_len: "reads_file file src \<Longrightarrow> body_total_len src = length (content file src)"
  by (cases src) simp_all

lemma copy_clamped: "copy_clamped s off room = take room (drop off s)"
  by (auto simp: copy_clamped_def cut_def Let_def min_def drop_take)

lemma body_read_at_file:
  "reads_file file src \<Longrightarrow> body_read_at src off room = take room (drop off (content file src))"
  by (cases src) (auto simp: copy_clamped drop_take min_def)

text \<open>
  Reading a body at an offset gives the bytes of the source from there, as many as fit
  the buffer, from flash as from memory; so a retransmission reads what was sent.
\<close>

theorem body_read_at_content:
  "reads_file file src \<Longrightarrow> body_read_at src off room = take room (drop off (content file src))"
  by (rule body_read_at_file)

theorem body_read_at_content_witness:
  "body_read_at (Flash (\<lambda>off n. take n (drop off [1, 2, 3, 4])) 3) 1 8 = [2, 3]"
  using body_read_at_content [of "[1, 2, 3, 4]" "Flash (\<lambda>off n. take n (drop off [1, 2, 3, 4])) 3" 1 8]
  by simp

lemma flash_body_content:
  assumes "len \<le> length file" "\<forall>off n. reader off n = take n (drop off file)"
  shows "flash_body reader len off = take (len - off) (drop off file)"
proof -
  have r: "reader = (\<lambda>off n. take n (drop off file))" using assms(2) by (intro ext) simp
  show ?thesis
    using assms(1) unfolding r
  proof (induction "\<lambda>off n. take n (drop off file)" len off rule: flash_body.induct)
    case (1 len off)
    then show ?case by (subst flash_body.simps) (auto simp: Let_def min_def)
  qed
qed

lemma into_body_content: "reads_file file src \<Longrightarrow> into_body src = content file src"
proof (cases src)
  case (Flash reader len)
  assume "reads_file file src"
  with Flash have "flash_body reader len 0 = take (len - 0) (drop 0 file)"
    by (intro flash_body_content) simp_all
  with Flash show ?thesis by simp
qed simp_all

end
