(* ===== verification/Disco.thy ===== *)
theory Disco
  imports Bytes
begin

text \<open>
  \<open>core/src/disco.rs\<close>: the disco messages. The NaCl box is outside the crate: a box is a pair
  of functions that take the peer's public key, our private key, the nonce and the text;
  sealing may fail, opening fails on a wrong tag. The nonce is the random argument.
\<close>

section \<open>Addresses\<close>

datatype socket_addr = V4 "bytes" u16 | V6 "bytes" u16

fun addr_port :: "socket_addr \<Rightarrow> u16" where
  "addr_port (V4 ip port) = port"
| "addr_port (V6 ip port) = port"

definition addr_to_bytes :: "socket_addr \<Rightarrow> bytes" where
  "addr_to_bytes addr =
     (let out = replicate 18 0;
          out = (case addr of
                   V4 ip port \<Rightarrow> put 12 ip (out[10 := 0xff, 11 := 0xff])
                 | V6 ip port \<Rightarrow> put 0 ip out)
      in put 16 (be16 (addr_port addr)) out)"

definition bytes_to_addr :: "bytes \<Rightarrow> socket_addr option" where
  "bytes_to_addr b =
     (if length b < 18 then None
      else let port = get16 16 b in
        if list_all (\<lambda>x. x = 0) (take 10 b) \<and> b ! 10 = 0xff \<and> b ! 11 = 0xff
        then Some (V4 [b ! 12, b ! 13, b ! 14, b ! 15] port) else None)"

section \<open>Messages\<close>

definition MAGIC :: bytes where "MAGIC = [0x54, 0x53, 0xf0, 0x9f, 0x92, 0xac]"
definition PING :: u8 where "PING = 0x01"
definition PONG :: u8 where "PONG = 0x02"
definition CALL_ME_MAYBE :: u8 where "CALL_ME_MAYBE = 0x03"
definition VERSION :: u8 where "VERSION = 0x00"
definition HDR :: nat where "HDR = 6 + 32 + 24"

definition is_disco :: "bytes \<Rightarrow> bool" where
  "is_disco buf \<longleftrightarrow> length buf \<ge> 6 \<and> take 6 buf = MAGIC"

record disco_in =
  sender_disco_pub :: bytes
  msg_type :: u8
  d_txid :: bytes
  d_endpoints :: "socket_addr list"

definition ping_plaintext :: "bytes \<Rightarrow> bytes \<Rightarrow> bytes" where
  "ping_plaintext txid node_pub = [PING, VERSION] @ txid @ node_pub"

definition pong_plaintext :: "bytes \<Rightarrow> socket_addr \<Rightarrow> bytes" where
  "pong_plaintext txid src = [PONG, VERSION] @ txid @ addr_to_bytes src"

definition call_me_maybe_plaintext :: "socket_addr list \<Rightarrow> bytes" where
  "call_me_maybe_plaintext eps = [CALL_ME_MAYBE, VERSION] @ concat (map addr_to_bytes eps)"

datatype disco_error = DiscoSeal | DiscoNot | DiscoMac | DiscoShort

type_synonym box_seal = "bytes \<Rightarrow> bytes \<Rightarrow> bytes \<Rightarrow> bytes \<Rightarrow> bytes option"
type_synonym box_open = "bytes \<Rightarrow> bytes \<Rightarrow> bytes \<Rightarrow> bytes \<Rightarrow> bytes option"

definition disco_seal ::
  "box_seal \<Rightarrow> bytes \<Rightarrow> bytes \<Rightarrow> bytes \<Rightarrow> bytes \<Rightarrow> bytes \<Rightarrow> (bytes, disco_error) outcome"
where
  "disco_seal bx nonce my_priv my_pub peer_pub plaintext =
     bindR (ok_or (bx peer_pub my_priv nonce plaintext) DiscoSeal) (\<lambda>ct.
       Ok (MAGIC @ my_pub @ nonce @ ct))"

text \<open>\<open>chunks(n)\<close>: pieces of \<open>n\<close>, the last one maybe shorter.\<close>

function chunks :: "nat \<Rightarrow> 'a list \<Rightarrow> 'a list list" where
  "chunks n xs = (if xs = [] \<or> n = 0 then [] else take n xs # chunks n (drop n xs))"
  by pat_completeness auto
termination
  by (relation "measure (\<lambda>(n, xs). length xs)") auto

declare chunks.simps [simp del]

definition disco_open :: "box_open \<Rightarrow> bytes \<Rightarrow> bytes \<Rightarrow> (disco_in, disco_error) outcome" where
  "disco_open bx my_priv wire =
     (if length wire < HDR + 16 \<or> take 6 wire \<noteq> MAGIC then Err DiscoNot
      else let sender = cut 6 38 wire; nonce = cut 38 62 wire in
        bindR (ok_or (bx sender my_priv nonce (drop 62 wire)) DiscoMac) (\<lambda>pt.
          if length pt < 14 then Err DiscoShort
          else Ok \<lparr>sender_disco_pub = sender, msg_type = pt ! 0, d_txid = cut 2 14 pt,
                   d_endpoints = (if pt ! 0 = CALL_ME_MAYBE
                     then List.map_filter bytes_to_addr (chunks 18 (drop 2 pt)) else [])\<rparr>))"

section \<open>Facts\<close>

text \<open>An address of the right size, and an IPv6 address that is not an IPv4 one in disguise.\<close>

fun addr_wf :: "socket_addr \<Rightarrow> bool" where
  "addr_wf (V4 ip port) \<longleftrightarrow> length ip = 4"
| "addr_wf (V6 ip port) \<longleftrightarrow> length ip = 16"

fun v4_mapped :: "socket_addr \<Rightarrow> socket_addr option" where
  "v4_mapped (V4 ip port) = Some (V4 ip port)"
| "v4_mapped (V6 ip port) =
     (if take 12 ip = replicate 10 0 @ [0xff, 0xff] then Some (V4 (drop 12 ip) port) else None)"

lemma addr_to_bytes_eq:
  "addr_wf a \<Longrightarrow> addr_to_bytes a =
     (case a of V4 ip port \<Rightarrow> replicate 10 0 @ [0xff, 0xff] @ ip | V6 ip port \<Rightarrow> ip) @ be16 (addr_port a)"
proof (cases a)
  case (V4 ip port)
  assume "addr_wf a"
  with V4 have l: "length ip = 4" by simp
  have r: "replicate 18 (0 :: u8) = replicate 10 0 @ [0, 0] @ replicate 6 0" by (simp add: numeral_eq_Suc)
  have "put 12 ip ((replicate 18 0)[10 := 0xff, 11 := 0xff]) = replicate 10 0 @ [0xff, 0xff] @ ip @ [0, 0]"
    using l by (simp add: r list_update_append put_def numeral_eq_Suc)
  then show ?thesis using V4 l by (simp add: addr_to_bytes_def) (simp add: put_def)
next
  case (V6 ip port)
  assume "addr_wf a"
  with V6 have l: "length ip = 16" by simp
  then show ?thesis using V6 by (simp add: addr_to_bytes_def put_def)
qed

lemma length_addr_to_bytes: "addr_wf a \<Longrightarrow> length (addr_to_bytes a) = 18"
  by (cases a) (simp_all add: addr_to_bytes_eq)

lemma list_all_eq: "list_all (\<lambda>x. x = a) xs \<longleftrightarrow> xs = replicate (length xs) a"
  by (induction xs) auto

lemma bytes_to_addr_to_bytes:
  assumes "addr_wf a"
  shows "bytes_to_addr (addr_to_bytes a) = v4_mapped a"
proof (cases a)
  case (V4 ip port)
  with assms have l: "length ip = 4" by simp
  then have "ip = [ip ! 0, ip ! 1, ip ! 2, ip ! 3]" by (rule list4)
  then obtain a0 a1 a2 a3 where "ip = [a0, a1, a2, a3]" by blast
  moreover have "get16 16 ((replicate 10 0 @ [0xff, 0xff] @ ip) @ be16 port @ []) = port"
    using l by (intro get16_at) simp
  ultimately show ?thesis
    using V4 assms by (simp add: addr_to_bytes_eq bytes_to_addr_def nth_append list_all_iff)
next
  case (V6 ip port)
  with assms have l: "length ip = 16" by simp
  have t: "take 12 ip = take 10 ip @ [ip ! 10, ip ! 11]"
    using l by (simp add: take_Suc_conv_app_nth numeral_eq_Suc)
  have "list_all (\<lambda>x. x = 0) (take 10 ip) \<longleftrightarrow> take 10 ip = replicate 10 0"
    using list_all_eq [of 0 "take 10 ip"] l by simp
  moreover have "drop 12 ip = [ip ! 12, ip ! 13, ip ! 14, ip ! 15]"
    using l by (intro nth_equalityI) (auto simp: less_Suc_eq numeral_eq_Suc)
  moreover have "get16 16 (ip @ be16 port @ []) = port"
    using l by (intro get16_at) simp
  ultimately show ?thesis
    using V6 l t assms by (auto simp: addr_to_bytes_eq bytes_to_addr_def nth_append)
qed

lemma chunks_concat:
  "0 < n \<Longrightarrow> list_all (\<lambda>x. length (f x) = n) xs \<Longrightarrow> chunks n (concat (map f xs)) = map f xs"
proof (induction xs)
  case (Cons x xs)
  then have "f x \<noteq> []" by auto
  with Cons show ?case by (simp add: chunks.simps [of n "f x @ _"])
qed (simp add: chunks.simps)

lemma map_filter_addrs:
  "list_all addr_wf eps \<Longrightarrow>
   List.map_filter bytes_to_addr (map addr_to_bytes eps) = List.map_filter v4_mapped eps"
  by (induction eps) (simp_all add: List.map_filter_simps bytes_to_addr_to_bytes split: option.split)

text \<open>
  The law of the box: what one side seals to the other, the other opens, and a sealed text is
  16 bytes longer.
\<close>

definition box_law :: "box_seal \<Rightarrow> box_open \<Rightarrow> bytes \<Rightarrow> bytes \<Rightarrow> bytes \<Rightarrow> bytes \<Rightarrow> bool" where
  "box_law sl op my_priv my_pub peer_priv peer_pub \<longleftrightarrow>
     (\<forall>n p c. sl peer_pub my_priv n p = Some c \<longrightarrow> op my_pub peer_priv n c = Some p \<and> length c = length p + 16)"

lemma disco_open_sealed:
  assumes "box_law sl op my_priv my_pub peer_priv peer_pub" "length my_pub = 32" "length nonce = 24"
    and "disco_seal sl nonce my_priv my_pub peer_pub pt = Ok wire"
  shows "disco_open op peer_priv wire =
    (if length pt < 14 then Err DiscoShort
     else Ok \<lparr>sender_disco_pub = my_pub, msg_type = pt ! 0, d_txid = cut 2 14 pt,
              d_endpoints = (if pt ! 0 = CALL_ME_MAYBE
                then List.map_filter bytes_to_addr (chunks 18 (drop 2 pt)) else [])\<rparr>)"
proof -
  obtain ct where ct: "sl peer_pub my_priv nonce pt = Some ct" "wire = MAGIC @ my_pub @ nonce @ ct"
    using assms(4) by (cases "sl peer_pub my_priv nonce pt") (auto simp: disco_seal_def)
  have op: "op my_pub peer_priv nonce ct = Some pt" "length ct = length pt + 16"
    using assms(1) ct(1) by (auto simp: box_law_def)
  have m: "length MAGIC = 6" by (simp add: MAGIC_def)
  have "cut 6 38 wire = my_pub" "cut 38 62 wire = nonce" "drop 62 wire = ct" "take 6 wire = MAGIC"
    using ct(2) m assms(2,3) cut_at [of MAGIC 6 my_pub 32 "nonce @ ct"] cut_at [of "MAGIC @ my_pub" 38 nonce 24 ct]
    by simp_all
  then show ?thesis using op ct(2) m assms(2,3) by (simp add: disco_open_def HDR_def Let_def)
qed

text \<open>
  A disco message sealed to a peer is opened by it as what it was: a ping and a pong
  with their transaction id, a call-me-maybe with the endpoints it lists that are IPv4 (the
  rest are dropped); but a call-me-maybe that lists none is refused as too short.
\<close>

theorem disco_roundtrip:
  assumes "box_law sl op my_priv my_pub peer_priv peer_pub" "length my_pub = 32" "length nonce = 24"
    and "length txid = 12" "length node_pub = 32" "addr_wf src" "list_all addr_wf eps"
    and "disco_seal sl nonce my_priv my_pub peer_pub (ping_plaintext txid node_pub) = Ok wire1"
    and "disco_seal sl nonce my_priv my_pub peer_pub (pong_plaintext txid src) = Ok wire2"
    and "disco_seal sl nonce my_priv my_pub peer_pub (call_me_maybe_plaintext eps) = Ok wire3"
  shows "disco_open op peer_priv wire1 = Ok \<lparr>sender_disco_pub = my_pub, msg_type = PING, d_txid = txid, d_endpoints = []\<rparr>
    \<and> disco_open op peer_priv wire2 = Ok \<lparr>sender_disco_pub = my_pub, msg_type = PONG, d_txid = txid, d_endpoints = []\<rparr>
    \<and> (if eps = [] then disco_open op peer_priv wire3 = Err DiscoShort
       else (\<exists>m. disco_open op peer_priv wire3 = Ok m \<and> msg_type m = CALL_ME_MAYBE
             \<and> d_endpoints m = List.map_filter v4_mapped eps))"
proof -
  note op = disco_open_sealed [OF assms(1-3)]
  have ty: "PING \<noteq> CALL_ME_MAYBE" "PONG \<noteq> CALL_ME_MAYBE" by (simp_all add: PING_def PONG_def CALL_ME_MAYBE_def)
  have "length (concat (map addr_to_bytes eps)) = 18 * length eps"
    using assms(7) by (induction eps) (simp_all add: length_addr_to_bytes)
  moreover have "chunks 18 (concat (map addr_to_bytes eps)) = map addr_to_bytes eps"
    by (rule chunks_concat) (use assms(7) in \<open>auto simp: list_all_iff length_addr_to_bytes\<close>)
  ultimately show ?thesis
    using assms(4-6) ty map_filter_addrs [OF assms(7)]
    by (cases eps) (auto simp: op [OF assms(8)] op [OF assms(9)] op [OF assms(10)] ping_plaintext_def
        pong_plaintext_def call_me_maybe_plaintext_def length_addr_to_bytes cut_def Suc_le_eq)
qed

theorem disco_roundtrip_witness:
  "disco_open (\<lambda>pk sk n c. Some (drop 16 c)) [] (MAGIC @ replicate 32 1 @ replicate 24 2 @ replicate 16 0
      @ ping_plaintext (replicate 12 9) (replicate 32 4))
   = Ok \<lparr>sender_disco_pub = replicate 32 1, msg_type = PING, d_txid = replicate 12 9, d_endpoints = []\<rparr>"
  using disco_roundtrip [of "\<lambda>pk sk n p. Some (replicate 16 0 @ p)" "\<lambda>pk sk n c. Some (drop 16 c)" "[]"
      "replicate 32 1" "[]" "[]" "replicate 24 2" "replicate 12 9" "replicate 32 4" "V4 [1, 2, 3, 4] 5" "[]"]
  by (simp add: box_law_def disco_seal_def)

end
