(* ===== verification/ControlConn.thy ===== *)
theory ControlConn
  imports Noise Http Disco
begin

text \<open>
  \<open>core/src/transport.rs\<close>: the HTTP upgrade of the control connection, its framing over a
  byte stream, and base64. The stream is outside the crate (\<open>platform::ByteStream\<close>): a record
  of functions on its state, whose \<open>read\<close> returns the bytes it put into a buffer of the given
  size.
\<close>

section \<open>The stream\<close>

record 's byte_stream =
  bs_read :: "nat \<Rightarrow> ('s, bytes, unit) comp"
  bs_write :: "bytes \<Rightarrow> ('s, unit, unit) comp"

datatype conn_error =
  UpgradeWrite | UpgradeRead | UpgradeClosed | UpgradeTooLarge | UpgradeFailed string string
| StreamRead | StreamClosed nat nat | StreamWrite

record 's ctl_conn =
  cn_stream :: 's
  cn_rx :: bytes

text \<open>
  One \<open>read\<close> into a buffer of \<open>room\<close> bytes. A stream that claims to have read more panics
  when the buffer is sliced.
\<close>

definition read_some :: "'s byte_stream \<Rightarrow> nat \<Rightarrow> 'e \<Rightarrow> 'e \<Rightarrow> ('s ctl_conn, bytes, 'e) comp" where
  "read_some bs room failed closed = (\<lambda>c. case bs_read bs room (cn_stream c) of
     (Ok got, s) \<Rightarrow> (if got = [] then Err closed else if length got > room then Panic else Ok got,
                    c\<lparr>cn_stream := s\<rparr>)
   | (Err e, s) \<Rightarrow> (Err failed, c\<lparr>cn_stream := s\<rparr>)
   | (Panic, s) \<Rightarrow> (Panic, c\<lparr>cn_stream := s\<rparr>))"

lemma read_some_Ok: "read_some bs room failed closed c = (Ok got, c') \<Longrightarrow> got \<noteq> [] \<and> cn_rx c' = cn_rx c"
  by (auto simp: read_some_def split: prod.splits outcome.splits if_splits)

definition conn_write :: "'s byte_stream \<Rightarrow> 'e \<Rightarrow> bytes \<Rightarrow> ('s ctl_conn, unit, 'e) comp" where
  "conn_write bs failed data = (\<lambda>c. case bs_write bs data (cn_stream c) of
     (Ok x, s) \<Rightarrow> (Ok (), c\<lparr>cn_stream := s\<rparr>)
   | (Err e, s) \<Rightarrow> (Err failed, c\<lparr>cn_stream := s\<rparr>)
   | (Panic, s) \<Rightarrow> (Panic, c\<lparr>cn_stream := s\<rparr>))"

section \<open>Frames\<close>

function fill_to :: "'s byte_stream \<Rightarrow> nat \<Rightarrow> ('s ctl_conn, unit, conn_error) comp" where
  "fill_to bs n c =
     (if length (cn_rx c) < n then
       (case read_some bs 2048 StreamRead (StreamClosed n (length (cn_rx c))) c of
          (Ok got, c') \<Rightarrow> fill_to bs n (c'\<lparr>cn_rx := cn_rx c' @ got\<rparr>)
        | (Err e, c') \<Rightarrow> (Err e, c')
        | (Panic, c') \<Rightarrow> (Panic, c'))
      else (Ok (), c))"
  by pat_completeness auto
termination
  by (relation "measure (\<lambda>(bs, n, c). n - length (cn_rx c))")
     (auto dest!: read_some_Ok [OF sym] intro!: diff_less_mono2)

declare fill_to.simps [simp del]

definition conn_take :: "'s byte_stream \<Rightarrow> nat \<Rightarrow> ('s ctl_conn, bytes, conn_error) comp" where
  "conn_take bs n = bindM (fill_to bs n) (\<lambda>x c. (Ok (take n (cn_rx c)), c\<lparr>cn_rx := drop n (cn_rx c)\<rparr>))"

definition conn_read_frame :: "'s byte_stream \<Rightarrow> ('s ctl_conn, u8 \<times> bytes, conn_error) comp" where
  "conn_read_frame bs =
     bindM (conn_take bs 3) (\<lambda>hdr.
     bindM (conn_take bs (unat (get16 1 hdr))) (\<lambda>payload. returnM (hdr ! 0, payload)))"

definition conn_write_all :: "'s byte_stream \<Rightarrow> bytes \<Rightarrow> ('s ctl_conn, unit, conn_error) comp" where
  "conn_write_all bs data = conn_write bs StreamWrite data"

section \<open>The upgrade\<close>

definition UPGRADE_VALUE :: string where "UPGRADE_VALUE = ''tailscale-control-protocol''"

definition upgrade_request :: "string \<Rightarrow> string \<Rightarrow> bytes" where
  "upgrade_request host handshake_b64 = of_text
     (''POST /ts2021 HTTP/1.1'' @ crlf @ ''Host: '' @ host @ crlf
      @ ''Upgrade: '' @ UPGRADE_VALUE @ crlf @ ''Connection: upgrade'' @ crlf
      @ ''X-Tailscale-Handshake: '' @ handshake_b64 @ crlf
      @ ''Content-Length: 0'' @ crlf @ crlf)"

text \<open>The first position of \<open>needle\<close>.\<close>

fun find_bytes :: "'a list \<Rightarrow> 'a list \<Rightarrow> nat option" where
  "find_bytes [] needle = (if needle = [] then Some 0 else None)"
| "find_bytes (x # xs) needle =
     (if take (length needle) (x # xs) = needle then Some 0
      else map_option Suc (find_bytes xs needle))"

text \<open>Reading until the end of the response headers; the whole text read, and where they end.\<close>

function upgrade_loop :: "'s byte_stream \<Rightarrow> bytes \<Rightarrow> ('s ctl_conn, bytes \<times> nat, conn_error) comp" where
  "upgrade_loop bs head c =
     (case read_some bs 512 UpgradeRead UpgradeClosed c of
        (Ok got, c') \<Rightarrow>
          (let head = head @ got in
           case find_bytes head [0x0D, 0x0A, 0x0D, 0x0A] of
             Some p \<Rightarrow> (Ok (head, p + 4), c')
           | None \<Rightarrow> if length head > 8192 then (Err UpgradeTooLarge, c') else upgrade_loop bs head c')
      | (Err e, c') \<Rightarrow> (Err e, c')
      | (Panic, c') \<Rightarrow> (Panic, c'))"
  by pat_completeness auto
termination
  by (relation "measure (\<lambda>(bs, head, c). 8193 - length head)")
     (auto dest!: read_some_Ok [OF sym] intro!: diff_less_mono2)

declare upgrade_loop.simps [simp del]

definition status_line :: "bytes \<Rightarrow> string" where
  "status_line head = trim (from_utf8_lossy (to_text (takeWhile (\<lambda>b. b \<noteq> 0x0A) head)))"

definition connect_and_upgrade ::
  "'s byte_stream \<Rightarrow> string \<Rightarrow> string \<Rightarrow> 's \<Rightarrow> (unit, conn_error) outcome \<times> 's ctl_conn"
where
  "connect_and_upgrade bs host handshake_b64 stream =
     bindM (conn_write bs UpgradeWrite (upgrade_request host handshake_b64)) (\<lambda>x.
     bindM (upgrade_loop bs []) (\<lambda>(head, body_start).
       if find_bytes (status_line head) '' 101 '' = None
       then failM (UpgradeFailed (status_line head) (trim (from_utf8_lossy (to_text (drop body_start head)))))
       else (\<lambda>c. (Ok (), c\<lparr>cn_rx := cn_rx c @ drop body_start head\<rparr>))))
     \<lparr>cn_stream = stream, cn_rx = []\<rparr>"

section \<open>Base64\<close>

definition base64_table :: string where
  "base64_table = ''ABCDEFGHIJKLMNOPQRSTUVWXYZabcdefghijklmnopqrstuvwxyz0123456789+/''"

definition base64_chunk :: "bytes \<Rightarrow> string" where
  "base64_chunk chunk =
     (let b0 = chunk ! 0;
          b1 = (if 1 < length chunk then chunk ! 1 else 0);
          b2 = (if 2 < length chunk then chunk ! 2 else 0);
          n = (push_bit 16 (ucast b0) OR push_bit 8 (ucast b1) OR ucast b2 :: u32);
          digit = (\<lambda>k. base64_table ! unat (drop_bit k n AND 0x3f))
      in [digit 18, digit 12,
          if length chunk > 1 then digit 6 else CHR ''='',
          if length chunk > 2 then digit 0 else CHR ''=''])"

definition base64_std :: "bytes \<Rightarrow> string" where
  "base64_std data = concat (map base64_chunk (chunks 3 data))"

end
