(* ===== verification/H2.thy ===== *)
theory H2
  imports ControlConn
begin

text \<open>
  \<open>core/src/h2.rs\<close>: the HTTP/2 client inside the Noise tunnel. A method works on the session
  and the connection below it; a loop over frames may go on for as long as the server sends
  frames it ignores, so the loops return an option and \<open>None\<close> is not returning.
\<close>

section \<open>Frames\<close>

definition PREFACE :: bytes where
  "PREFACE = of_text (''PRI * HTTP/2.0'' @ crlf @ crlf @ ''SM'' @ crlf @ crlf)"
definition EARLY_MAGIC :: bytes where "EARLY_MAGIC = [0xff, 0xff, 0xff, 0x54, 0x53]"

definition FT_DATA :: u8 where "FT_DATA = 0x0"
definition FT_HEADERS :: u8 where "FT_HEADERS = 0x1"
definition FT_SETTINGS :: u8 where "FT_SETTINGS = 0x4"
definition FT_WINDOW_UPDATE :: u8 where "FT_WINDOW_UPDATE = 0x8"
definition FT_GOAWAY :: u8 where "FT_GOAWAY = 0x7"
definition FL_END_STREAM :: u8 where "FL_END_STREAM = 0x1"
definition FL_END_HEADERS :: u8 where "FL_END_HEADERS = 0x4"
definition FL_ACK :: u8 where "FL_ACK = 0x1"
definition MAX_FRAME_SIZE :: u32 where "MAX_FRAME_SIZE = 16384"

lemmas frame_types = FT_DATA_def FT_HEADERS_def FT_SETTINGS_def FT_WINDOW_UPDATE_def FT_GOAWAY_def

record h2_frame =
  fr_typ :: u8
  fr_flags :: u8
  fr_stream_id :: u32
  fr_payload :: bytes

definition frame_bytes :: "u8 \<Rightarrow> u8 \<Rightarrow> u32 \<Rightarrow> bytes \<Rightarrow> bytes" where
  "frame_bytes ty flags stream_id payload =
     (let len = length payload in
      [word_of_nat (len div 2 ^ 16), word_of_nat (len div 2 ^ 8), word_of_nat len, ty, flags]
      @ be32 (stream_id AND 0x7fffffff) @ payload)"

text \<open>HPACK: strings with their length, seven bits at a time behind the first 127.\<close>

fun enc_len_rest :: "nat \<Rightarrow> bytes" where
  "enc_len_rest r =
     (if r \<ge> 128 then word_of_nat (r mod 128 + 128) # enc_len_rest (r div 128) else [word_of_nat r])"

declare enc_len_rest.simps [simp del]

definition enc_str :: "bytes \<Rightarrow> bytes" where
  "enc_str s =
     (let len = length s in
      (if len < 127 then [word_of_nat len] else 0x7f # enc_len_rest (len - 127)) @ s)"

definition enc_header :: "string \<Rightarrow> string \<Rightarrow> bytes" where
  "enc_header name val = [0x00] @ enc_str (of_text name) @ enc_str (of_text val)"

definition parse_u16 :: "string \<Rightarrow> nat option" where
  "parse_u16 s = map_option nat (parse_unsigned (2 ^ 16 - 1) s)"

text \<open>The status in a block of headers, from some position on.\<close>

function decode_status :: "bytes \<Rightarrow> nat option" where
  "decode_status [] = None"
| "decode_status (b # r) =
     (if b AND 0x80 \<noteq> 0 then
        (if b AND 0x7f = 8 then Some 200 else decode_status r)
      else if b AND 0xf0 = 0 then
        (case r of [] \<Rightarrow> None
         | l # r1 \<Rightarrow>
            let nlen = unat (l AND 0x7f) in
            if nlen > length r1 then None
            else (case drop nlen r1 of [] \<Rightarrow> None
              | v # r3 \<Rightarrow>
                 let vlen = unat (v AND 0x7f) in
                 if vlen > length r3 then None
                 else if take nlen r1 = of_text '':status'' then
                   (if valid_utf8 (to_text (take vlen r3)) then parse_u16 (to_text (take vlen r3)) else None)
                 else decode_status (drop vlen r3)))
      else None)"
  by pat_completeness auto
termination
proof (relation "measure length", goal_cases)
  case (3 b r l r1 nlen v r3 vlen)
  then have "length (v # r3) \<le> length r1" by (metis length_drop diff_le_self)
  with 3 show ?case by simp
qed simp_all

definition strip_wire_prefix :: "bytes \<Rightarrow> bytes" where
  "strip_wire_prefix body =
     (if length body \<ge> 5 \<and> body ! 0 \<noteq> 0x7B \<and> body ! 4 = 0x7B then drop 4 body else body)"

section \<open>The session\<close>

record 's h2 =
  h_conn :: "'s ctl_conn"
  h_tr :: transport
  h_rx :: bytes
  h_next_stream :: u32
  h_authority :: string

datatype h2_error =
  ConnErr conn_error | NoiseErr noise_error | ControlError string | UnexpectedFrame u8
| GoAwayStartup | GoAwayMap | GoAwayChunk | GoAway nat | MapClosed | MapClosedHeaders

text \<open>The methods of the connection and of the transport below, on the session.\<close>

definition on_conn :: "('s ctl_conn, 'a, conn_error) comp \<Rightarrow> ('s h2, 'a, h2_error) comp" where
  "on_conn m = (\<lambda>h. case m (h_conn h) of
     (Ok v, c) \<Rightarrow> (Ok v, h\<lparr>h_conn := c\<rparr>)
   | (Err e, c) \<Rightarrow> (Err (ConnErr e), h\<lparr>h_conn := c\<rparr>)
   | (Panic, c) \<Rightarrow> (Panic, h\<lparr>h_conn := c\<rparr>))"

definition on_tr :: "(transport, 'a, noise_error) comp \<Rightarrow> ('s h2, 'a, h2_error) comp" where
  "on_tr m = (\<lambda>h. case m (h_tr h) of
     (Ok v, t) \<Rightarrow> (Ok v, h\<lparr>h_tr := t\<rparr>)
   | (Err e, t) \<Rightarrow> (Err (NoiseErr e), h\<lparr>h_tr := t\<rparr>)
   | (Panic, t) \<Rightarrow> (Panic, h\<lparr>h_tr := t\<rparr>))"

fun send_chunks :: "'s byte_stream \<Rightarrow> aead \<Rightarrow> bytes list \<Rightarrow> ('s h2, unit, h2_error) comp" where
  "send_chunks bs ae [] = returnM ()"
| "send_chunks bs ae (chunk # cs) =
     bindM (on_tr (seal_record ae chunk)) (\<lambda>rec.
     bindM (on_conn (conn_write_all bs rec)) (\<lambda>x. send_chunks bs ae cs))"

definition h2_send :: "'s byte_stream \<Rightarrow> aead \<Rightarrow> bytes \<Rightarrow> ('s h2, unit, h2_error) comp" where
  "h2_send bs ae data = send_chunks bs ae (chunks 2048 data)"

definition window_update :: "'s byte_stream \<Rightarrow> aead \<Rightarrow> u32 \<Rightarrow> nat \<Rightarrow> ('s h2, unit, h2_error) comp" where
  "window_update bs ae stream_id inc =
     (let p = be32 (word_of_nat inc) in
      bindM (h2_send bs ae (frame_bytes FT_WINDOW_UPDATE 0 stream_id p)) (\<lambda>x.
        h2_send bs ae (frame_bytes FT_WINDOW_UPDATE 0 0 p)))"

definition ack_settings :: "'s byte_stream \<Rightarrow> aead \<Rightarrow> h2_frame \<Rightarrow> ('s h2, unit, h2_error) comp" where
  "ack_settings bs ae fr =
     (if fr_flags fr AND FL_ACK = 0 then h2_send bs ae (frame_bytes FT_SETTINGS FL_ACK 0 []) else returnM ())"

definition pull :: "'s byte_stream \<Rightarrow> aead \<Rightarrow> ('s h2, unit, h2_error) comp" where
  "pull bs ae =
     bindM (on_conn (conn_read_frame bs)) (\<lambda>(ty, ct).
       if ty = MSG_RECORD then
         bindM (on_tr (open_record ae ct)) (\<lambda>pt h. (Ok (), h\<lparr>h_rx := h_rx h @ pt\<rparr>))
       else if ty = MSG_ERROR then failM (ControlError (from_utf8_lossy (to_text ct)))
       else failM (UnexpectedFrame ty))"

partial_function (option) read_exact ::
  "'s byte_stream \<Rightarrow> aead \<Rightarrow> nat \<Rightarrow> 's h2 \<Rightarrow> ((bytes, h2_error) outcome \<times> 's h2) option"
where
  "read_exact bs ae n h =
     (if length (h_rx h) < n then
       (case pull bs ae h of
          (Ok x, h) \<Rightarrow> read_exact bs ae n h
        | (Err e, h) \<Rightarrow> Some (Err e, h)
        | (Panic, h) \<Rightarrow> Some (Panic, h))
      else Some (Ok (take n (h_rx h)), h\<lparr>h_rx := drop n (h_rx h)\<rparr>))"

text \<open>Sequencing methods that may not return.\<close>

definition bindP ::
  "('s \<Rightarrow> (('a, 'e) outcome \<times> 's) option) \<Rightarrow> ('a \<Rightarrow> 's \<Rightarrow> (('b, 'e) outcome \<times> 's) option)
   \<Rightarrow> 's \<Rightarrow> (('b, 'e) outcome \<times> 's) option"
where
  "bindP m k = (\<lambda>s. Option.bind (m s) (\<lambda>(r, s). case r of
     Ok v \<Rightarrow> k v s | Err e \<Rightarrow> Some (Err e, s) | Panic \<Rightarrow> Some (Panic, s)))"

definition totalP :: "('s, 'a, 'e) comp \<Rightarrow> 's \<Rightarrow> (('a, 'e) outcome \<times> 's) option" where
  "totalP m = (\<lambda>s. Some (m s))"

definition frame_len :: "bytes \<Rightarrow> nat" where
  "frame_len hdr = unat (hdr ! 0) * 2 ^ 16 + unat (hdr ! 1) * 2 ^ 8 + unat (hdr ! 2)"

definition h2_read_frame ::
  "'s byte_stream \<Rightarrow> aead \<Rightarrow> 's h2 \<Rightarrow> ((h2_frame, h2_error) outcome \<times> 's h2) option"
where
  "h2_read_frame bs ae =
     bindP (read_exact bs ae 9) (\<lambda>hdr.
       let len = frame_len hdr;
           fr = (\<lambda>payload. \<lparr>fr_typ = hdr ! 3, fr_flags = hdr ! 4,
                  fr_stream_id = get32 5 hdr AND 0x7fffffff, fr_payload = payload\<rparr>)
       in if len > 0 then bindP (read_exact bs ae len) (\<lambda>payload. totalP (returnM (fr payload)))
          else totalP (returnM (fr [])))"

definition consume_early_payload ::
  "'s byte_stream \<Rightarrow> aead \<Rightarrow> 's h2 \<Rightarrow> ((bytes option, h2_error) outcome \<times> 's h2) option"
where
  "consume_early_payload bs ae =
     bindP (read_exact bs ae 9) (\<lambda>hdr.
       if take 5 hdr = EARLY_MAGIC then
         bindP (read_exact bs ae (unat (get32 5 hdr))) (\<lambda>json. totalP (returnM (Some json)))
       else (\<lambda>h. Some (Ok None, h\<lparr>h_rx := hdr @ h_rx h\<rparr>)))"

section \<open>Loops over frames\<close>

text \<open>
  Every loop of the client reads a frame and either goes on (\<open>Inl\<close>, with what it has so far)
  or returns (\<open>Inr\<close>).
\<close>

partial_function (option) frame_loop ::
  "'s byte_stream \<Rightarrow> aead \<Rightarrow> (h2_frame \<Rightarrow> 'a \<Rightarrow> ('s h2, 'a + 'b, h2_error) comp) \<Rightarrow> 'a \<Rightarrow> 's h2
   \<Rightarrow> (('b, h2_error) outcome \<times> 's h2) option"
where
  "frame_loop bs ae step acc h =
     Option.bind (h2_read_frame bs ae h) (\<lambda>(r, h).
       case r of
         Err e \<Rightarrow> Some (Err e, h)
       | Panic \<Rightarrow> Some (Panic, h)
       | Ok fr \<Rightarrow> (case step fr acc h of
           (Ok (Inl acc), h) \<Rightarrow> frame_loop bs ae step acc h
         | (Ok (Inr v), h) \<Rightarrow> Some (Ok v, h)
         | (Err e, h) \<Rightarrow> Some (Err e, h)
         | (Panic, h) \<Rightarrow> Some (Panic, h)))"

definition startup_step ::
  "'s byte_stream \<Rightarrow> aead \<Rightarrow> h2_frame \<Rightarrow> unit \<Rightarrow> ('s h2, unit + unit, h2_error) comp"
where
  "startup_step bs ae fr acc =
     (if fr_typ fr = FT_SETTINGS then bindM (ack_settings bs ae fr) (\<lambda>x. returnM (Inr ()))
      else if fr_typ fr = FT_GOAWAY then failM GoAwayStartup
      else returnM (Inl ()))"

definition settings_hello :: bytes where
  "settings_hello = [0x00, 0x02, 0x00, 0x00, 0x00, 0x00, 0x00, 0x05] @ be32 MAX_FRAME_SIZE"

definition h2_start ::
  "'s byte_stream \<Rightarrow> aead \<Rightarrow> 's ctl_conn \<Rightarrow> transport \<Rightarrow> string
   \<Rightarrow> ((bytes option, h2_error) outcome \<times> 's h2) option"
where
  "h2_start bs ae conn tr authority =
     bindP (totalP (h2_send bs ae (PREFACE @ frame_bytes FT_SETTINGS 0 0 settings_hello))) (\<lambda>x.
     bindP (consume_early_payload bs ae) (\<lambda>early.
     bindP (frame_loop bs ae (startup_step bs ae) ()) (\<lambda>x. totalP (returnM early))))
     \<lparr>h_conn = conn, h_tr = tr, h_rx = [], h_next_stream = 1, h_authority = authority\<rparr>"

definition req_headers :: "string \<Rightarrow> string \<Rightarrow> nat \<Rightarrow> bytes" where
  "req_headers authority path body_len =
     enc_header '':method'' ''POST'' @ enc_header '':scheme'' ''http''
     @ enc_header '':authority'' authority @ enc_header '':path'' path
     @ enc_header ''content-type'' ''application/json''
     @ enc_header ''content-length'' (show_nat body_len)
     @ enc_header ''accept'' ''application/json''"

definition post_stream :: "'s byte_stream \<Rightarrow> aead \<Rightarrow> string \<Rightarrow> bytes \<Rightarrow> ('s h2, u32, h2_error) comp" where
  "post_stream bs ae path body = (\<lambda>h.
     let stream_id = h_next_stream h; h = h\<lparr>h_next_stream := h_next_stream h + 2\<rparr> in
     bindM (h2_send bs ae
         (frame_bytes FT_HEADERS FL_END_HEADERS stream_id (req_headers (h_authority h) path (length body))
          @ frame_bytes FT_DATA FL_END_STREAM stream_id body))
       (\<lambda>x. returnM stream_id) h)"

definition response_step ::
  "'s byte_stream \<Rightarrow> aead \<Rightarrow> u32 \<Rightarrow> h2_frame \<Rightarrow> nat \<times> bytes
   \<Rightarrow> ('s h2, (nat \<times> bytes) + (nat \<times> bytes), h2_error) comp"
where
  "response_step bs ae stream_id fr acc =
     (let (status, body) = acc; end_stream = (fr_flags fr AND FL_END_STREAM \<noteq> 0);
          next = (\<lambda>acc. returnM (if end_stream then Inr acc else Inl acc))
      in if fr_stream_id fr \<noteq> stream_id \<and> fr_stream_id fr \<noteq> 0 then returnM (Inl acc)
         else if fr_typ fr = FT_HEADERS then
           (let status = (case decode_status (fr_payload fr) of Some s \<Rightarrow> s | None \<Rightarrow> status)
            in next (status, body))
         else if fr_typ fr = FT_DATA then
           bindM (if fr_payload fr \<noteq> [] then window_update bs ae stream_id (length (fr_payload fr)) else returnM ())
             (\<lambda>x. next (status, body @ fr_payload fr))
         else if fr_typ fr = FT_SETTINGS then bindM (ack_settings bs ae fr) (\<lambda>x. returnM (Inl acc))
         else if fr_typ fr = FT_GOAWAY then failM (GoAway status)
         else returnM (Inl acc))"

definition read_response_h2 ::
  "'s byte_stream \<Rightarrow> aead \<Rightarrow> u32 \<Rightarrow> 's h2 \<Rightarrow> ((nat \<times> bytes, h2_error) outcome \<times> 's h2) option"
where
  "read_response_h2 bs ae stream_id =
     bindP (frame_loop bs ae (response_step bs ae stream_id) (0, []))
       (\<lambda>(status, body). totalP (returnM (status, strip_wire_prefix body)))"

definition post_json ::
  "'s byte_stream \<Rightarrow> aead \<Rightarrow> string \<Rightarrow> bytes \<Rightarrow> 's h2 \<Rightarrow> ((nat \<times> bytes, h2_error) outcome \<times> 's h2) option"
where
  "post_json bs ae path body = bindP (totalP (post_stream bs ae path body)) (read_response_h2 bs ae)"

definition read_data_step ::
  "'s byte_stream \<Rightarrow> aead \<Rightarrow> u32 \<Rightarrow> h2_frame \<Rightarrow> unit \<Rightarrow> ('s h2, unit + bytes, h2_error) comp"
where
  "read_data_step bs ae stream_id fr acc =
     (if fr_typ fr = FT_DATA \<and> fr_stream_id fr = stream_id then
        (if fr_payload fr \<noteq> [] then
           bindM (window_update bs ae stream_id (length (fr_payload fr))) (\<lambda>x. returnM (Inr (fr_payload fr)))
         else if fr_flags fr AND FL_END_STREAM \<noteq> 0 then failM MapClosed else returnM (Inl ()))
      else if fr_typ fr = FT_HEADERS then
        (if fr_flags fr AND FL_END_STREAM \<noteq> 0 then failM MapClosedHeaders else returnM (Inl ()))
      else if fr_typ fr = FT_SETTINGS then bindM (ack_settings bs ae fr) (\<lambda>x. returnM (Inl ()))
      else if fr_typ fr = FT_GOAWAY then failM GoAwayMap
      else returnM (Inl ()))"

definition read_data :: "'s byte_stream \<Rightarrow> aead \<Rightarrow> u32 \<Rightarrow> 's h2 \<Rightarrow> ((bytes, h2_error) outcome \<times> 's h2) option" where
  "read_data bs ae stream_id = frame_loop bs ae (read_data_step bs ae stream_id) ()"

definition chunk_step ::
  "'s byte_stream \<Rightarrow> aead \<Rightarrow> u32 \<Rightarrow> h2_frame \<Rightarrow> unit \<Rightarrow> ('s h2, unit + (bytes option \<times> bool), h2_error) comp"
where
  "chunk_step bs ae stream_id fr acc =
     (let end_stream = (fr_flags fr AND FL_END_STREAM \<noteq> 0) in
      if fr_stream_id fr \<noteq> stream_id \<and> fr_stream_id fr \<noteq> 0 then returnM (Inl ())
      else if fr_typ fr = FT_HEADERS then returnM (if end_stream then Inr (None, True) else Inl ())
      else if fr_typ fr = FT_DATA then
        (if fr_payload fr \<noteq> [] then
           bindM (window_update bs ae stream_id (length (fr_payload fr)))
             (\<lambda>x. returnM (Inr (Some (fr_payload fr), end_stream)))
         else returnM (if end_stream then Inr (None, True) else Inl ()))
      else if fr_typ fr = FT_SETTINGS then bindM (ack_settings bs ae fr) (\<lambda>x. returnM (Inl ()))
      else if fr_typ fr = FT_GOAWAY then failM GoAwayChunk
      else returnM (Inl ()))"

definition read_response_chunk ::
  "'s byte_stream \<Rightarrow> aead \<Rightarrow> u32 \<Rightarrow> 's h2 \<Rightarrow> ((bytes option \<times> bool, h2_error) outcome \<times> 's h2) option"
where
  "read_response_chunk bs ae stream_id = frame_loop bs ae (chunk_step bs ae stream_id) ()"

end
