(* ===== verification/ConnProps.thy ===== *)
theory ConnProps
  imports ControlConn
begin

text \<open>
  The control connection over an ordered stream: how the bytes were cut into reads makes no
  difference to the frames, and the upgrade loses none of them.
\<close>

section \<open>An ordered stream\<close>

text \<open>
  \<open>avail s\<close> are the bytes the peer has sent and that are still to be read. A read with room
  returns some of them, at least one while there are any; a write succeeds and leaves them.
\<close>

definition stream_laws :: "'s byte_stream \<Rightarrow> ('s \<Rightarrow> bytes) \<Rightarrow> bool" where
  "stream_laws bs avail \<longleftrightarrow>
     (\<forall>n s. 0 < n \<and> avail s \<noteq> [] \<longrightarrow>
        (\<exists>k s'. 0 < k \<and> k \<le> n \<and> k \<le> length (avail s) \<and> bs_read bs n s = (Ok (take k (avail s)), s')
           \<and> avail s' = drop k (avail s))) \<and>
     (\<forall>d s. \<exists>s'. bs_write bs d s = (Ok (), s') \<and> avail s' = avail s)"

text \<open>What is left to take from a connection.\<close>

definition conn_view :: "('s \<Rightarrow> bytes) \<Rightarrow> 's ctl_conn \<Rightarrow> bytes" where
  "conn_view avail c = cn_rx c @ avail (cn_stream c)"

lemma read_some_avail:
  assumes "stream_laws bs avail" "0 < n" "avail (cn_stream c) \<noteq> []"
  obtains k c' where "0 < k" "k \<le> length (avail (cn_stream c))"
    and "read_some bs n failed closed c = (Ok (take k (avail (cn_stream c))), c')"
    and "cn_rx c' = cn_rx c" "avail (cn_stream c') = drop k (avail (cn_stream c))"
proof -
  obtain k s' where k: "0 < k" "k \<le> n" "k \<le> length (avail (cn_stream c))"
    and r: "bs_read bs n (cn_stream c) = (Ok (take k (avail (cn_stream c))), s')"
    and a: "avail s' = drop k (avail (cn_stream c))"
    using assms unfolding stream_laws_def by blast
  from k assms(3) have "take k (avail (cn_stream c)) \<noteq> []" by auto
  with k r have "read_some bs n failed closed c = (Ok (take k (avail (cn_stream c))), c\<lparr>cn_stream := s'\<rparr>)"
    by (simp add: read_some_def)
  with k(1,3) a show thesis using that [of k "c\<lparr>cn_stream := s'\<rparr>"] by simp
qed

lemma conn_write_avail:
  assumes "stream_laws bs avail"
  obtains c' where "conn_write bs failed d c = (Ok (), c')" "conn_view avail c' = conn_view avail c"
proof -
  obtain s' where "bs_write bs d (cn_stream c) = (Ok (), s')" "avail s' = avail (cn_stream c)"
    using assms unfolding stream_laws_def by blast
  then show thesis by (intro that [of "c\<lparr>cn_stream := s'\<rparr>"]) (simp_all add: conn_write_def conn_view_def)
qed

lemma fill_to_view:
  assumes "stream_laws bs avail"
  shows "n \<le> length (conn_view avail c) \<Longrightarrow>
    \<exists>c'. fill_to bs n c = (Ok (), c') \<and> conn_view avail c' = conn_view avail c \<and> n \<le> length (cn_rx c')"
proof (induction "n - length (cn_rx c)" arbitrary: c rule: less_induct)
  case less
  show ?case
  proof (cases "length (cn_rx c) < n")
    case False
    then show ?thesis by (simp add: fill_to.simps)
  next
    case True
    with less.prems have "avail (cn_stream c) \<noteq> []" by (auto simp: conn_view_def)
    obtain k c' where k: "0 < k" "k \<le> length (avail (cn_stream c))"
      and r: "read_some bs 2048 StreamRead (StreamClosed n (length (cn_rx c))) c = (Ok (take k (avail (cn_stream c))), c')"
      and c': "cn_rx c' = cn_rx c" "avail (cn_stream c') = drop k (avail (cn_stream c))"
      using read_some_avail [OF assms _ \<open>avail (cn_stream c) \<noteq> []\<close>, of 2048] by (metis zero_less_numeral)
    define d where "d = c'\<lparr>cn_rx := cn_rx c' @ take k (avail (cn_stream c))\<rparr>"
    have v: "conn_view avail d = conn_view avail c" by (simp add: d_def conn_view_def c')
    have "n - length (cn_rx d) < n - length (cn_rx c)" using True k by (simp add: d_def c')
    from less.hyps [OF this] less.prems v obtain e where
      "fill_to bs n d = (Ok (), e)" "conn_view avail e = conn_view avail c" "n \<le> length (cn_rx e)" by auto
    with True r show ?thesis by (subst fill_to.simps) (simp add: d_def)
  qed
qed

lemma conn_take_view:
  assumes "stream_laws bs avail" "n \<le> length (conn_view avail c)"
  obtains c' where "conn_take bs n c = (Ok (take n (conn_view avail c)), c')"
    and "conn_view avail c' = drop n (conn_view avail c)"
proof -
  from fill_to_view [OF assms] obtain c' where "fill_to bs n c = (Ok (), c')"
    and v: "conn_view avail c' = conn_view avail c" "n \<le> length (cn_rx c')" by blast
  then have "take n (cn_rx c') = take n (conn_view avail c)"
    and "drop n (cn_rx c') @ avail (cn_stream c') = drop n (conn_view avail c)"
    and "fill_to bs n c = (Ok (), c')"
    unfolding v(1) [symmetric] by (simp_all add: conn_view_def)
  then show thesis
    by (intro that [of "c'\<lparr>cn_rx := drop n (cn_rx c')\<rparr>"])
       (simp_all add: conn_take_def bindM_apply conn_view_def)
qed

definition ctl_frame :: "u8 \<Rightarrow> bytes \<Rightarrow> bytes" where
  "ctl_frame typ payload = [typ] @ be16 (word_of_nat (length payload)) @ payload"

lemma conn_read_frame_view:
  assumes laws: "stream_laws bs avail" and v: "conn_view avail c = ctl_frame typ payload @ rest"
    and len: "length payload < 65536"
  obtains c' where "conn_read_frame bs c = (Ok (typ, payload), c')" "conn_view avail c' = rest"
proof -
  define hdr where "hdr = [typ] @ be16 (word_of_nat (length payload))"
  have h: "length hdr = 3" "hdr ! 0 = typ" "unat (get16 1 hdr) = length payload"
    using get16_at [of "[typ]" 1 "word_of_nat (length payload)" "[]"] len by (simp_all add: hdr_def unat_word16)
  have w: "conn_view avail c = hdr @ payload @ rest" using v by (simp add: hdr_def ctl_frame_def)
  from h(1) w obtain c1 where c1: "conn_take bs 3 c = (Ok hdr, c1)" "conn_view avail c1 = payload @ rest"
    by (auto intro: conn_take_view [OF laws, of 3 c])
  from c1(2) obtain c2 where c2: "conn_take bs (length payload) c1 = (Ok payload, c2)" "conn_view avail c2 = rest"
    by (auto intro: conn_take_view [OF laws, of "length payload" c1])
  show thesis
    using c1(1) c2 h by (intro that [of c2]) (simp_all add: conn_read_frame_def bindM_apply)
qed

text \<open>Reading one frame after the other.\<close>

fun read_frames :: "'s byte_stream \<Rightarrow> nat \<Rightarrow> ('s ctl_conn, (u8 \<times> bytes) list, conn_error) comp" where
  "read_frames bs 0 = returnM []"
| "read_frames bs (Suc n) =
     bindM (conn_read_frame bs) (\<lambda>f. bindM (read_frames bs n) (\<lambda>fs. returnM (f # fs)))"

lemma read_frames_view:
  assumes "stream_laws bs avail"
  shows "conn_view avail c = concat (map (\<lambda>(typ, payload). ctl_frame typ payload) frames) @ rest \<Longrightarrow>
    list_all (\<lambda>(typ, payload). length payload < 65536) frames \<Longrightarrow>
    \<exists>c'. read_frames bs (length frames) c = (Ok frames, c') \<and> conn_view avail c' = rest"
proof (induction frames arbitrary: c)
  case (Cons f frames)
  obtain ty payload where f: "f = (ty, payload)" by (cases f)
  with Cons.prems have "conn_view avail c = ctl_frame ty payload @
      (concat (map (\<lambda>(typ, payload). ctl_frame typ payload) frames) @ rest)" "length payload < 65536" by simp_all
  then obtain c1 where c1: "conn_read_frame bs c = (Ok f, c1)"
      "conn_view avail c1 = concat (map (\<lambda>(typ, payload). ctl_frame typ payload) frames) @ rest"
    unfolding f by (rule conn_read_frame_view [OF assms]) simp
  from Cons.IH [OF c1(2)] Cons.prems(2) obtain c2 where
    "read_frames bs (length frames) c1 = (Ok frames, c2)" "conn_view avail c2 = rest" by auto
  with c1(1) show ?case by (simp add: bindM_apply)
qed simp

section \<open>The upgrade\<close>

lemma find_bytes_le: "find_bytes xs nd = Some p \<Longrightarrow> p + length nd \<le> length xs"
proof (induction xs arbitrary: p)
  case (Cons x xs)
  show ?case
  proof (cases "take (length nd) (x # xs) = nd")
    case True
    then have "length nd \<le> length (x # xs)" by (metis length_take min.cobounded1)
    with True Cons.prems show ?thesis by simp
  next
    case False
    with Cons show ?thesis by auto
  qed
qed (simp split: if_splits)

text \<open>Whether more text follows makes no difference to what is found in it.\<close>

lemma find_bytes_append:
  "p + length nd \<le> length xs \<Longrightarrow> nd \<noteq> [] \<Longrightarrow>
   find_bytes (xs @ ys) nd = Some p \<longleftrightarrow> find_bytes xs nd = Some p"
proof (induction xs arbitrary: p)
  case (Cons x xs)
  from Cons.prems(1) have "length nd \<le> length (x # xs)" by simp
  then have t: "take (length nd) ((x # xs) @ ys) = take (length nd) (x # xs)"
    by (simp only: take_append) simp
  show ?case
  proof (cases p)
    case 0
    with t show ?thesis by auto
  next
    case (Suc q)
    with Cons.IH [of q] Cons.prems t show ?thesis by auto
  qed
qed simp

abbreviation header_end :: bytes where
  "header_end \<equiv> [0x0D, 0x0A, 0x0D, 0x0A]"

lemma upgrade_loop_view:
  assumes laws: "stream_laws bs avail" and w: "find_bytes w header_end = Some p" "p \<le> 8189"
  shows "head @ avail (cn_stream c) = w \<Longrightarrow> find_bytes head header_end = None \<Longrightarrow>
    \<exists>head' c'. upgrade_loop bs head c = (Ok (head', p + 4), c') \<and> head' @ avail (cn_stream c') = w
      \<and> cn_rx c' = cn_rx c \<and> p + 4 \<le> length head'"
proof (induction "length w - length head" arbitrary: head c rule: less_induct)
  case less
  have pw: "p + 4 \<le> length w" using find_bytes_le [OF w(1)] by simp
  have "avail (cn_stream c) \<noteq> []" using less.prems w(1) by auto
  then obtain k c' where k: "0 < k" "k \<le> length (avail (cn_stream c))"
    and r: "read_some bs 512 UpgradeRead UpgradeClosed c = (Ok (take k (avail (cn_stream c))), c')"
    and c': "cn_rx c' = cn_rx c" "avail (cn_stream c') = drop k (avail (cn_stream c))"
    using read_some_avail [OF laws, of 512] by (metis zero_less_numeral)
  define head' where "head' = head @ take k (avail (cn_stream c))"
  have hw: "head' @ avail (cn_stream c') = w" using less.prems(1) by (simp add: head'_def c')
  show ?case
  proof (cases "p + 4 \<le> length head'")
    case True
    with find_bytes_append [of p header_end head' "avail (cn_stream c')"] hw w(1)
    have "find_bytes head' header_end = Some p" by simp
    with r hw c' True show ?thesis by (subst upgrade_loop.simps) (simp add: head'_def)
  next
    case False
    have none: "find_bytes head' header_end = None"
    proof (rule ccontr)
      assume "find_bytes head' header_end \<noteq> None"
      then obtain q where q: "find_bytes head' header_end = Some q" by auto
      then have "q + 4 \<le> length head'" using find_bytes_le by fastforce
      with find_bytes_append [of q header_end head' "avail (cn_stream c')"] q hw w(1) False show False by simp
    qed
    have "length w - length head' < length w - length head"
      using k hw False pw by (simp add: head'_def)
    from less.hyps [OF this hw none] obtain h e where
      "upgrade_loop bs head' c' = (Ok (h, p + 4), e)" "h @ avail (cn_stream e) = w"
      "cn_rx e = cn_rx c'" "p + 4 \<le> length h" by blast
    with r none False w(2) c' show ?thesis by (subst upgrade_loop.simps) (simp add: head'_def)
  qed
qed

lemma find_bytes_at: "find_bytes xs nd = Some p \<Longrightarrow> take (length nd) (drop p xs) = nd"
  by (induction xs arbitrary: p) (auto split: if_splits)

text \<open>The status line is in the headers.\<close>

lemma status_line_prefix:
  assumes "find_bytes w header_end = Some p" "h @ z = w" "p + 4 \<le> length h"
  shows "status_line h = status_line (take (p + 4) w)"
proof -
  have "take 4 (drop p w) = header_end" using find_bytes_at [OF assms(1)] by (simp add: numeral_eq_Suc)
  moreover have "take (p + 4) w = take p w @ take 4 (drop p w)" by (rule take_add)
  ultimately have "take (p + 4) w = (take p w @ [0x0D]) @ 0x0A # [0x0D, 0x0A]" by simp
  then have "0x0A \<in> set (take (p + 4) w)" by simp
  moreover have "h = take (p + 4) w @ drop (p + 4) h"
    using assms(2,3) by (metis append_take_drop_id take_append take_0 append_Nil2 diff_is_0_eq)
  ultimately have "takeWhile (\<lambda>b. b \<noteq> 0x0A) h = takeWhile (\<lambda>b. b \<noteq> 0x0A) (take (p + 4) w)"
    by (metis (mono_tags, lifting) takeWhile_append1)
  then show ?thesis by (simp add: status_line_def)
qed

lemma connect_keeps_bytes:
  assumes laws: "stream_laws bs avail"
    and w: "avail stream = w" "find_bytes w header_end = Some p" "p \<le> 8189"
    and ok: "find_bytes (status_line (take (p + 4) w)) '' 101 '' \<noteq> None"
  shows "\<exists>c. connect_and_upgrade bs host b64 stream = (Ok (), c) \<and> conn_view avail c = drop (p + 4) w"
proof -
  obtain s1 where s1: "bs_write bs (upgrade_request host b64) stream = (Ok (), s1)" "avail s1 = w"
    using laws w(1) unfolding stream_laws_def by blast
  have "find_bytes [] header_end = None" by simp
  with upgrade_loop_view [OF laws w(2,3), of "[]" "\<lparr>cn_stream = s1, cn_rx = []\<rparr>"] s1(2) obtain h c where
    u: "upgrade_loop bs [] \<lparr>cn_stream = s1, cn_rx = []\<rparr> = (Ok (h, p + 4), c)"
    and h: "h @ avail (cn_stream c) = w" "cn_rx c = []" "p + 4 \<le> length h" by auto
  have "drop (p + 4) h @ avail (cn_stream c) = drop (p + 4) w" using h(1,3) by auto
  moreover have "status_line h = status_line (take (p + 4) w)"
    using status_line_prefix [OF w(2) h(1,3)] .
  ultimately show ?thesis
    using s1(1) u h(2) ok
    by (simp add: connect_and_upgrade_def bindM_apply conn_write_def conn_view_def)
qed

text \<open>
  After the upgrade, the frames of the control connection are read as the server sent
  them, however the network cuts the bytes into reads: the end of the headers may come in
  pieces, the first frames may come with them, and none of their bytes is lost.
\<close>

theorem upgrade_then_frames:
  assumes "stream_laws bs avail"
    and "avail stream = head @ concat (map (\<lambda>(typ, payload). ctl_frame typ payload) frames) @ rest"
    and "find_bytes head header_end = Some p" "length head = p + 4" "length head \<le> 8192"
    and "find_bytes (status_line head) '' 101 '' \<noteq> None"
    and "list_all (\<lambda>(typ, payload). length payload < 65536) frames"
  shows "\<exists>c c'. connect_and_upgrade bs host b64 stream = (Ok (), c)
      \<and> read_frames bs (length frames) c = (Ok frames, c') \<and> conn_view avail c' = rest"
proof -
  define w where "w = head @ concat (map (\<lambda>(typ, payload). ctl_frame typ payload) frames) @ rest"
  have "find_bytes w header_end = Some p"
    using find_bytes_append [of p header_end head] assms(3,4) by (simp add: w_def)
  moreover have "take (p + 4) w = head" "p \<le> 8189" using assms(4,5) by (simp_all add: w_def)
  ultimately obtain c where c: "connect_and_upgrade bs host b64 stream = (Ok (), c)"
    "conn_view avail c = drop (p + 4) w"
    using connect_keeps_bytes [OF assms(1), of stream w p host b64] assms(2,6) by (auto simp: w_def)
  from c(2) have "conn_view avail c = concat (map (\<lambda>(typ, payload). ctl_frame typ payload) frames) @ rest"
    using assms(4) by (simp add: w_def)
  from read_frames_view [OF assms(1) this assms(7)] c(1) show ?thesis by blast
qed

text \<open>A stream that yields one byte at a time.\<close>

definition byte_by_byte :: "bytes byte_stream" where
  "byte_by_byte = \<lparr>bs_read = (\<lambda>n s. (Ok (take 1 s), drop 1 s)), bs_write = (\<lambda>d s. (Ok (), s))\<rparr>"

lemma byte_by_byte_laws: "stream_laws byte_by_byte (\<lambda>s. s)"
  by (auto simp: stream_laws_def byte_by_byte_def intro!: exI [of _ 1] simp: Suc_le_eq)

theorem upgrade_then_frames_witness:
  "\<exists>c c'. connect_and_upgrade byte_by_byte ''h'' ''x''
       (of_text (''HTTP/1.1 101 OK'' @ crlf @ crlf) @ ctl_frame 2 [7, 8]) = (Ok (), c)
     \<and> read_frames byte_by_byte 1 c = (Ok [(2, [7, 8])], c')"
proof -
  define head where "head = of_text (''HTTP/1.1 101 OK'' @ crlf @ crlf)"
  have "find_bytes head header_end = Some 15" "length head = 15 + 4" "find_bytes (status_line head) '' 101 '' \<noteq> None"
    unfolding head_def by code_simp+
  then obtain c c' where
    "connect_and_upgrade byte_by_byte ''h'' ''x'' (head @ ctl_frame 2 [7, 8]) = (Ok (), c)"
    "read_frames byte_by_byte (length [(2 :: u8, [7, 8 :: u8])]) c = (Ok [(2, [7, 8])], c')"
    using upgrade_then_frames [OF byte_by_byte_laws, of "head @ ctl_frame 2 [7, 8]" head "[(2, [7, 8])]" "[]" 15
      "''h''" "''x''"] by auto
  then show ?thesis unfolding head_def by (metis One_nat_def length_Cons list.size(3))
qed

end
