(* ===== verification/H2Props.thy ===== *)
theory H2Props
  imports H2 ConnProps Texts
begin

text \<open>
  The HTTP/2 client over the Noise records over the byte stream: neither the reads nor the
  records the server's bytes were cut into make a difference to the frames, and a request is
  answered with the status and the body the server sent.
\<close>

section \<open>A session with bytes to read\<close>

text \<open>
  \<open>pending\<close>: what the connection still has to deliver are the records of the texts \<open>ps\<close>, as
  the peer seals them from our receiving key and counter on. \<open>ready\<close>: the plaintext still to
  be consumed is \<open>pt\<close>, the cipher works under both keys, and \<open>ns\<close> is the next stream.
\<close>

definition pending :: "('s \<Rightarrow> bytes) \<Rightarrow> aead \<Rightarrow> 's h2 \<Rightarrow> bytes list \<Rightarrow> bool" where
  "pending avail ae h ps \<longleftrightarrow> list_all (\<lambda>p. length p \<le> 65519) ps \<and>
     (\<exists>peer peer'. seal_all ae ps peer = (Ok (conn_view avail (h_conn h)), peer')
        \<and> tr_send peer = tr_recv (h_tr h) \<and> tx_nonce peer = rx_nonce (h_tr h))"

definition ciphers :: "aead \<Rightarrow> u32 \<Rightarrow> 's h2 \<Rightarrow> bool" where
  "ciphers ae ns h \<longleftrightarrow> h_next_stream h = ns \<and> aead_law ae (tr_send (h_tr h)) \<and> aead_law ae (tr_recv (h_tr h))"

definition ready :: "('s \<Rightarrow> bytes) \<Rightarrow> aead \<Rightarrow> u32 \<Rightarrow> 's h2 \<Rightarrow> bytes \<Rightarrow> bool" where
  "ready avail ae ns h pt \<longleftrightarrow> ciphers ae ns h \<and> (\<exists>ps. pending avail ae h ps \<and> pt = h_rx h @ concat ps)"

lemma pending_cong:
  "conn_view avail (h_conn h') = conn_view avail (h_conn h) \<Longrightarrow> tr_recv (h_tr h') = tr_recv (h_tr h) \<Longrightarrow>
   rx_nonce (h_tr h') = rx_nonce (h_tr h) \<Longrightarrow> pending avail ae h' ps \<longleftrightarrow> pending avail ae h ps"
  by (simp add: pending_def)

lemma readyI: "ciphers ae ns h \<Longrightarrow> pending avail ae h ps \<Longrightarrow> pt = h_rx h @ concat ps \<Longrightarrow> ready avail ae ns h pt"
  by (auto simp: ready_def)

lemma pull_pending:
  assumes laws: "stream_laws bs avail" and c: "ciphers ae ns h" and p: "pending avail ae h (p # ps)"
  obtains h' where "pull bs ae h = (Ok (), h')" "ciphers ae ns h'" "pending avail ae h' ps" "h_rx h' = h_rx h @ p"
proof -
  from p obtain peer peer' where s: "seal_all ae (p # ps) peer = (Ok (conn_view avail (h_conn h)), peer')"
    and k: "tr_send peer = tr_recv (h_tr h)" "tx_nonce peer = rx_nonce (h_tr h)"
    and len: "length p \<le> 65519" "list_all (\<lambda>p. length p \<le> 65519) ps"
    by (auto simp: pending_def)
  from c k have law: "aead_law ae (tr_send peer)" by (simp add: ciphers_def)
  from law len(1) obtain ct where
    r: "seal_record ae p peer = (Ok ([MSG_RECORD] @ be16 (word_of_nat (length ct)) @ ct), peer\<lparr>tx_nonce := tx_nonce peer + 1\<rparr>)"
    and ct: "length ct < 65536" "ae_decrypt ae (tr_send peer) (be_nonce (tx_nonce peer)) ct = Some p"
    by (rule seal_record_law)
  from s r obtain rs where
    v: "conn_view avail (h_conn h) = ctl_frame MSG_RECORD ct @ rs"
      "seal_all ae ps (peer\<lparr>tx_nonce := tx_nonce peer + 1\<rparr>) = (Ok rs, peer')"
    by (auto simp: bindM_apply ctl_frame_def split: prod.splits outcome.splits)
  obtain c' where f: "conn_read_frame bs (h_conn h) = (Ok (MSG_RECORD, ct), c')" "conn_view avail c' = rs"
    using conn_read_frame_view [OF laws v(1) ct(1)] by blast
  have o: "open_record ae ct (h_tr h) = (Ok p, (h_tr h)\<lparr>rx_nonce := rx_nonce (h_tr h) + 1\<rparr>)"
    using ct(2) k by (intro open_record_sealed) simp
  define h' where "h' = h\<lparr>h_conn := c', h_tr := (h_tr h)\<lparr>rx_nonce := rx_nonce (h_tr h) + 1\<rparr>, h_rx := h_rx h @ p\<rparr>"
  have "pull bs ae h = (Ok (), h')"
    using f(1) o by (simp add: pull_def bindM_apply on_conn_def on_tr_def h'_def)
  moreover have "pending avail ae h' ps"
    unfolding pending_def
    by (intro conjI exI [of _ "peer\<lparr>tx_nonce := tx_nonce peer + 1\<rparr>"] exI [of _ peer'])
       (use v(2) f(2) k len(2) in \<open>simp_all add: h'_def\<close>)
  ultimately show thesis using c by (intro that [of h']) (simp_all add: h'_def ciphers_def)
qed

lemma read_exact_pending:
  assumes laws: "stream_laws bs avail"
  shows "ciphers ae ns h \<Longrightarrow> pending avail ae h ps \<Longrightarrow> n \<le> length (h_rx h @ concat ps) \<Longrightarrow>
    \<exists>h'. read_exact bs ae n h = Some (Ok (take n (h_rx h @ concat ps)), h')
       \<and> ready avail ae ns h' (drop n (h_rx h @ concat ps))"
proof (induction ps arbitrary: h)
  case Nil
  have "ready avail ae ns (h\<lparr>h_rx := drop n (h_rx h)\<rparr>) (drop n (h_rx h))"
    using Nil by (intro readyI [of _ _ _ _ "[]"]) (simp_all add: ciphers_def cong: pending_cong)
  with Nil show ?case by (subst read_exact.simps) simp
next
  case (Cons p ps)
  show ?case
  proof (cases "length (h_rx h) < n")
    case True
    obtain h' where h': "pull bs ae h = (Ok (), h')" "ciphers ae ns h'" "pending avail ae h' ps" "h_rx h' = h_rx h @ p"
      using pull_pending [OF laws Cons.prems(1,2)] by blast
    with Cons.IH [OF h'(2,3)] Cons.prems(3) True show ?thesis
      by (subst read_exact.simps) simp
  next
    case False
    have "ready avail ae ns (h\<lparr>h_rx := drop n (h_rx h)\<rparr>) (drop n (h_rx h) @ p @ concat ps)"
      using Cons.prems by (intro readyI [of _ _ _ _ "p # ps"]) (simp_all add: ciphers_def cong: pending_cong)
    with False show ?thesis by (subst read_exact.simps) simp
  qed
qed

lemma read_exact_ready:
  assumes "stream_laws bs avail" "ready avail ae ns h (xs @ rest)" "length xs = n"
  obtains h' where "read_exact bs ae n h = Some (Ok xs, h')" "ready avail ae ns h' rest"
proof -
  from assms(2) obtain ps where ps: "ciphers ae ns h" "pending avail ae h ps" "xs @ rest = h_rx h @ concat ps"
    by (auto simp: ready_def)
  have "\<exists>h'. read_exact bs ae n h = Some (Ok (take n (xs @ rest)), h') \<and> ready avail ae ns h' (drop n (xs @ rest))"
    using read_exact_pending [OF assms(1) ps(1,2), of n] assms(3) unfolding ps(3) [symmetric] by simp
  with assms(3) that show thesis by auto
qed

text \<open>Sending leaves what there is to read.\<close>

lemma send_chunks_ready:
  assumes laws: "stream_laws bs avail"
  shows "ready avail ae ns h pt \<Longrightarrow> list_all (\<lambda>c. length c \<le> 65519) cs \<Longrightarrow>
    \<exists>h'. send_chunks bs ae cs h = (Ok (), h') \<and> ready avail ae ns h' pt"
proof (induction cs arbitrary: h)
  case (Cons c cs)
  from Cons.prems have law: "aead_law ae (tr_send (h_tr h))" "length c \<le> 65519"
    by (auto simp: ready_def ciphers_def)
  then obtain ct where r: "seal_record ae c (h_tr h) =
      (Ok ([MSG_RECORD] @ be16 (word_of_nat (length ct)) @ ct), (h_tr h)\<lparr>tx_nonce := tx_nonce (h_tr h) + 1\<rparr>)"
    by (rule seal_record_law)
  obtain c' where w: "conn_write bs StreamWrite ([MSG_RECORD] @ be16 (word_of_nat (length ct)) @ ct) (h_conn h) = (Ok (), c')"
    "conn_view avail c' = conn_view avail (h_conn h)"
    by (rule conn_write_avail [OF laws])
  define h' where "h' = h\<lparr>h_tr := (h_tr h)\<lparr>tx_nonce := tx_nonce (h_tr h) + 1\<rparr>, h_conn := c'\<rparr>"
  have "ready avail ae ns h' pt"
    using Cons.prems(1) w(2) pending_cong [of avail h' h] by (simp add: ready_def ciphers_def h'_def)
  from Cons.IH [OF this] Cons.prems(2) r w(1) show ?case
    by (auto simp: bindM_apply on_tr_def on_conn_def conn_write_all_def h'_def)
qed simp

lemma chunks_bounded: "0 < n \<Longrightarrow> list_all (\<lambda>c. length c \<le> n) (chunks n xs)"
  by (induction n xs rule: chunks.induct) (subst chunks.simps, auto)

lemma h2_send_ready:
  assumes "stream_laws bs avail" "ready avail ae ns h pt"
  obtains h' where "h2_send bs ae d h = (Ok (), h')" "ready avail ae ns h' pt"
proof -
  have "list_all (\<lambda>c. length c \<le> 65519) (chunks 2048 d)"
    using chunks_bounded [of 2048 d] by (auto simp: list_all_iff)
  from send_chunks_ready [OF assms this] that show thesis by (auto simp: h2_send_def)
qed

lemma window_update_ready:
  assumes "stream_laws bs avail" "ready avail ae ns h pt"
  obtains h' where "window_update bs ae sid inc h = (Ok (), h')" "ready avail ae ns h' pt"
proof -
  obtain h1 where h1: "h2_send bs ae (frame_bytes FT_WINDOW_UPDATE 0 sid (be32 (word_of_nat inc))) h = (Ok (), h1)"
    "ready avail ae ns h1 pt" using h2_send_ready [OF assms] by blast
  obtain h2 where h2: "h2_send bs ae (frame_bytes FT_WINDOW_UPDATE 0 0 (be32 (word_of_nat inc))) h1 = (Ok (), h2)"
    "ready avail ae ns h2 pt" using h2_send_ready [OF assms(1) h1(2)] by blast
  from h1 h2 show thesis by (intro that [of h2]) (simp_all add: window_update_def Let_def bindM_apply)
qed

lemma ack_settings_ready:
  assumes "stream_laws bs avail" "ready avail ae ns h pt"
  obtains h' where "ack_settings bs ae fr h = (Ok (), h')" "ready avail ae ns h' pt"
proof (cases "fr_flags fr AND FL_ACK = 0")
  case True
  with h2_send_ready [OF assms] that show thesis by (auto simp: ack_settings_def)
qed (use assms that in \<open>auto simp: ack_settings_def\<close>)

section \<open>Frames\<close>

definition frame_wire :: "h2_frame \<Rightarrow> bytes" where
  "frame_wire fr = frame_bytes (fr_typ fr) (fr_flags fr) (fr_stream_id fr) (fr_payload fr)"

definition frame_wf :: "h2_frame \<Rightarrow> bool" where
  "frame_wf fr \<longleftrightarrow> length (fr_payload fr) < 2 ^ 24 \<and> fr_stream_id fr AND 0x7fffffff = fr_stream_id fr"

lemma unat_byte: "unat (word_of_nat n :: u8) = n mod 256"
  by (simp add: unsigned_of_nat take_bit_eq_mod)

lemma len24:
  fixes n :: nat
  assumes "n < 2 ^ 24"
  shows "n div 65536 mod 256 * 65536 + n div 256 mod 256 * 256 + n mod 256 = n"
proof -
  from assms have "n div 65536 mod 256 = n div 65536" by simp
  moreover have "n = n div 256 * 256 + n mod 256" "n div 256 = n div 256 div 256 * 256 + n div 256 mod 256" by simp_all
  moreover have "n div 256 div 256 = n div 65536" by (simp add: div_mult2_eq)
  ultimately show ?thesis by linarith
qed

lemma h2_read_frame_ready:
  assumes laws: "stream_laws bs avail" and r: "ready avail ae ns h (frame_wire fr @ rest)" and wf: "frame_wf fr"
  obtains h' where "h2_read_frame bs ae h = Some (Ok fr, h')" "ready avail ae ns h' rest"
proof -
  define len where "len = length (fr_payload fr)"
  define hdr where "hdr = [word_of_nat (len div 2 ^ 16), word_of_nat (len div 2 ^ 8), word_of_nat len,
     fr_typ fr, fr_flags fr] @ be32 (fr_stream_id fr)"
  have w: "frame_wire fr = hdr @ fr_payload fr"
    using wf by (simp add: frame_wire_def frame_bytes_def hdr_def len_def Let_def frame_wf_def)
  have l: "frame_len hdr = len"
    using len24 [of len] wf by (simp add: frame_len_def hdr_def unat_byte frame_wf_def len_def)
  have s: "get32 5 hdr AND 0x7fffffff = fr_stream_id fr" "hdr ! 3 = fr_typ fr" "hdr ! 4 = fr_flags fr"
    using wf get32_at [of "take 5 hdr" 5 "fr_stream_id fr" "[]"] by (simp_all add: hdr_def frame_wf_def)
  have "ready avail ae ns h (hdr @ (fr_payload fr @ rest))" using r w by simp
  then obtain h1 where h1: "read_exact bs ae 9 h = Some (Ok hdr, h1)" "ready avail ae ns h1 (fr_payload fr @ rest)"
    by (rule read_exact_ready [OF laws]) (simp_all add: hdr_def)
  show thesis
  proof (cases "len = 0")
    case True
    with h1 l s show thesis
      by (intro that [of h1]) (simp_all add: h2_read_frame_def bindP_def totalP_def Let_def len_def)
  next
    case False
    obtain h2 where "read_exact bs ae len h1 = Some (Ok (fr_payload fr), h2)" "ready avail ae ns h2 rest"
      using read_exact_ready [OF laws h1(2) len_def [symmetric]] by blast
    with h1(1) l s False show thesis
      by (intro that [of h2]) (simp_all add: h2_read_frame_def bindP_def totalP_def Let_def)
  qed
qed

section \<open>The loops over frames\<close>

text \<open>
  What a loop does is told by a pure reading of one frame: go on, return, or \<open>None\<close> for the
  frames that end it with an error. A step implements a reading when it follows it and leaves
  the bytes behind the frame alone.
\<close>

fun read_all :: "(h2_frame \<Rightarrow> 'a \<Rightarrow> ('a + 'b) option) \<Rightarrow> h2_frame list \<Rightarrow> 'a \<Rightarrow> ('b \<times> h2_frame list) option" where
  "read_all reading [] acc = None"
| "read_all reading (fr # frs) acc = (case reading fr acc of
     None \<Rightarrow> None
   | Some (Inl acc) \<Rightarrow> read_all reading frs acc
   | Some (Inr v) \<Rightarrow> Some (v, frs))"

locale frame_reader =
  fixes step :: "'s byte_stream \<Rightarrow> aead \<Rightarrow> h2_frame \<Rightarrow> 'a \<Rightarrow> ('s h2, 'a + 'b, h2_error) comp"
    and reading :: "h2_frame \<Rightarrow> 'a \<Rightarrow> ('a + 'b) option"
  assumes step_reads:
    "\<lbrakk>stream_laws bs avail; ready avail ae ns h pt; reading fr acc = Some r\<rbrakk> \<Longrightarrow>
     \<exists>h'. step bs ae fr acc h = (Ok r, h') \<and> ready avail ae ns h' pt"
begin

lemma loop_reads:
  assumes laws: "stream_laws bs avail"
  shows "ready avail ae ns h (concat (map frame_wire frs) @ rest) \<Longrightarrow> list_all frame_wf frs \<Longrightarrow>
    read_all reading frs acc = Some (v, left) \<Longrightarrow>
    \<exists>h'. frame_loop bs ae (step bs ae) acc h = Some (Ok v, h')
       \<and> ready avail ae ns h' (concat (map frame_wire left) @ rest)"
proof (induction frs arbitrary: h acc)
  case (Cons fr frs)
  from Cons.prems(1) have "ready avail ae ns h (frame_wire fr @ concat (map frame_wire frs) @ rest)" by simp
  then obtain h1 where h1: "h2_read_frame bs ae h = Some (Ok fr, h1)"
    "ready avail ae ns h1 (concat (map frame_wire frs) @ rest)"
    by (rule h2_read_frame_ready [OF laws]) (use Cons.prems(2) in simp)
  from Cons.prems(3) obtain r where r: "reading fr acc = Some r" by (cases "reading fr acc") simp_all
  from step_reads [OF laws h1(2) r] obtain h2 where h2: "step bs ae fr acc h1 = (Ok r, h2)"
    "ready avail ae ns h2 (concat (map frame_wire frs) @ rest)" by blast
  show ?case
  proof (cases r)
    case (Inl a)
    with Cons.IH [OF h2(2), of a] Cons.prems(2,3) r h1(1) h2(1) show ?thesis
      by (subst frame_loop.simps) simp
  next
    case (Inr b)
    with Cons.prems(3) r h1(1) h2 show ?thesis by (subst frame_loop.simps) simp
  qed
qed simp

lemma loop_skips:
  assumes "\<And>fr acc. skip fr \<Longrightarrow> reading fr acc = Some (Inl acc)"
  shows "read_all reading (filter (\<lambda>fr. \<not> skip fr) frs) acc = Some (v, []) \<Longrightarrow>
    \<exists>left. read_all reading frs acc = Some (v, left)"
proof (induction frs arbitrary: acc)
  case (Cons fr frs)
  show ?case
  proof (cases "skip fr")
    case True
    with Cons assms show ?thesis by simp
  next
    case False
    with Cons show ?thesis by (auto split: option.splits sum.splits)
  qed
qed simp

end

definition startup_reading :: "h2_frame \<Rightarrow> unit \<Rightarrow> (unit + unit) option" where
  "startup_reading fr acc =
     (if fr_typ fr = FT_SETTINGS then Some (Inr ()) else if fr_typ fr = FT_GOAWAY then None else Some (Inl ()))"

definition response_reading :: "u32 \<Rightarrow> h2_frame \<Rightarrow> nat \<times> bytes \<Rightarrow> ((nat \<times> bytes) + (nat \<times> bytes)) option" where
  "response_reading sid fr acc =
     (let next = (\<lambda>acc. Some (if fr_flags fr AND FL_END_STREAM \<noteq> 0 then Inr acc else Inl acc)) in
      if fr_stream_id fr \<noteq> sid \<and> fr_stream_id fr \<noteq> 0 then Some (Inl acc)
      else if fr_typ fr = FT_HEADERS then
        next (case decode_status (fr_payload fr) of Some s \<Rightarrow> s | None \<Rightarrow> fst acc, snd acc)
      else if fr_typ fr = FT_DATA then next (fst acc, snd acc @ fr_payload fr)
      else if fr_typ fr = FT_GOAWAY then None else Some (Inl acc))"

definition data_reading :: "u32 \<Rightarrow> h2_frame \<Rightarrow> unit \<Rightarrow> (unit + bytes) option" where
  "data_reading sid fr acc =
     (if fr_typ fr = FT_DATA \<and> fr_stream_id fr = sid then
        (if fr_payload fr \<noteq> [] then Some (Inr (fr_payload fr))
         else if fr_flags fr AND FL_END_STREAM \<noteq> 0 then None else Some (Inl ()))
      else if fr_typ fr = FT_HEADERS \<and> fr_flags fr AND FL_END_STREAM \<noteq> 0 \<or> fr_typ fr = FT_GOAWAY then None
      else Some (Inl ()))"

definition chunk_reading :: "u32 \<Rightarrow> h2_frame \<Rightarrow> unit \<Rightarrow> (unit + (bytes option \<times> bool)) option" where
  "chunk_reading sid fr acc =
     (let end_stream = (fr_flags fr AND FL_END_STREAM \<noteq> 0) in
      if fr_stream_id fr \<noteq> sid \<and> fr_stream_id fr \<noteq> 0 then Some (Inl ())
      else if fr_typ fr = FT_DATA \<and> fr_payload fr \<noteq> [] then Some (Inr (Some (fr_payload fr), end_stream))
      else if fr_typ fr = FT_DATA \<or> fr_typ fr = FT_HEADERS then Some (if end_stream then Inr (None, True) else Inl ())
      else if fr_typ fr = FT_GOAWAY then None else Some (Inl ()))"

lemma returns_ready: "ready avail ae ns h pt \<Longrightarrow> \<exists>h'. returnM r h = (Ok r, h') \<and> ready avail ae ns h' pt"
  by auto

lemma ack_then_ready:
  assumes "stream_laws bs avail" "ready avail ae ns h pt"
  shows "\<exists>h'. bindM (ack_settings bs ae fr) (\<lambda>x. returnM r) h = (Ok r, h') \<and> ready avail ae ns h' pt"
  by (rule ack_settings_ready [OF assms, of fr]) (auto simp: bindM_apply)

lemma update_then_ready:
  assumes "stream_laws bs avail" "ready avail ae ns h pt"
  shows "\<exists>h'. bindM (window_update bs ae sid n) (\<lambda>x. returnM r) h = (Ok r, h') \<and> ready avail ae ns h' pt"
  by (rule window_update_ready [OF assms, of sid n]) (auto simp: bindM_apply)

lemmas then_ready = returns_ready ack_then_ready update_then_ready

interpretation startup: frame_reader startup_step startup_reading
  by unfold_locales
     (auto simp: startup_step_def startup_reading_def then_ready split: if_splits)

interpretation response: frame_reader "\<lambda>bs ae. response_step bs ae sid" "response_reading sid" for sid
  by unfold_locales
     (auto simp: response_step_def response_reading_def Let_def frame_types then_ready bindM_return
       split: if_splits option.split)

interpretation data: frame_reader "\<lambda>bs ae. read_data_step bs ae sid" "data_reading sid" for sid
  by unfold_locales
     (auto simp: read_data_step_def data_reading_def frame_types then_ready split: if_splits)

interpretation chunk: frame_reader "\<lambda>bs ae. chunk_step bs ae sid" "chunk_reading sid" for sid
  by unfold_locales
     (auto simp: chunk_step_def chunk_reading_def Let_def frame_types then_ready split: if_splits)

section \<open>Requests and responses\<close>

text \<open>
  The response to the stream \<open>sid\<close>: its headers, then its body in pieces, the last of which
  ends the stream. Frames of other streams and of other types may come in between.
\<close>

definition data_frame :: "u32 \<Rightarrow> u8 \<Rightarrow> bytes \<Rightarrow> h2_frame" where
  "data_frame sid flags payload = \<lparr>fr_typ = FT_DATA, fr_flags = flags, fr_stream_id = sid, fr_payload = payload\<rparr>"

definition response_frames :: "u32 \<Rightarrow> bytes \<Rightarrow> bytes list \<Rightarrow> bytes \<Rightarrow> h2_frame list" where
  "response_frames sid block pieces final =
     \<lparr>fr_typ = FT_HEADERS, fr_flags = FL_END_HEADERS, fr_stream_id = sid, fr_payload = block\<rparr>
     # map (data_frame sid 0) pieces @ [data_frame sid FL_END_STREAM final]"

definition aside :: "u32 \<Rightarrow> h2_frame \<Rightarrow> bool" where
  "aside sid fr \<longleftrightarrow> (fr_stream_id fr \<noteq> sid \<and> fr_stream_id fr \<noteq> 0)
     \<or> (fr_typ fr \<noteq> FT_HEADERS \<and> fr_typ fr \<noteq> FT_DATA \<and> fr_typ fr \<noteq> FT_GOAWAY)"

lemma read_pieces:
  "read_all (response_reading sid) (map (data_frame sid 0) pieces @ [data_frame sid FL_END_STREAM final]) (st, body)
   = Some ((st, body @ concat pieces @ final), [])"
  by (induction pieces arbitrary: body)
     (simp_all add: response_reading_def data_frame_def frame_types FL_END_STREAM_def)

lemma read_response_frames:
  "read_all (response_reading sid) (response_frames sid block pieces final) (0, [])
   = Some ((case decode_status block of Some s \<Rightarrow> s | None \<Rightarrow> 0, concat pieces @ final), [])"
proof -
  have "FL_END_HEADERS AND FL_END_STREAM = 0" by (simp add: FL_END_STREAM_def FL_END_HEADERS_def)
  then show ?thesis
    by (simp add: response_frames_def response_reading_def frame_types read_pieces split: option.split)
qed

lemma post_stream_ready:
  assumes "stream_laws bs avail" "ready avail ae ns h pt"
  obtains h' where "post_stream bs ae path body h = (Ok ns, h')" "ready avail ae (ns + 2) h' pt"
proof -
  have ns: "h_next_stream h = ns" using assms(2) by (simp add: ready_def ciphers_def)
  have "ready avail ae (ns + 2) (h\<lparr>h_next_stream := h_next_stream h + 2\<rparr>) pt"
    using assms(2) by (simp add: ready_def ciphers_def cong: pending_cong)
  then obtain h' where "h2_send bs ae
      (frame_bytes FT_HEADERS FL_END_HEADERS (h_next_stream h) (req_headers (h_authority h) path (length body))
       @ frame_bytes FT_DATA FL_END_STREAM (h_next_stream h) body) (h\<lparr>h_next_stream := h_next_stream h + 2\<rparr>)
      = (Ok (), h')" "ready avail ae (ns + 2) h' pt"
    using h2_send_ready [OF assms(1)] by metis
  then show thesis by (intro that [of h']) (simp_all add: post_stream_def Let_def bindM_apply ns)
qed

text \<open>
  A request on a ready session is answered with the status and the body the server sent
  on its stream, the four-byte prefix taken off, whatever frames of other streams, settings or
  window updates come in between, and however the frames were cut into encrypted records and
  the records into reads; the loop returns.
\<close>

lemma post_json_answered:
  assumes "stream_laws bs avail"
    and "ready avail ae ns h (concat (map frame_wire frs) @ rest)" "list_all frame_wf frs"
    and "filter (\<lambda>fr. \<not> aside ns fr) frs = response_frames ns block pieces final"
  shows "\<exists>h'. post_json bs ae path body h = Some (Ok
    (case decode_status block of Some s \<Rightarrow> s | None \<Rightarrow> 0, strip_wire_prefix (concat pieces @ final)), h')"
proof -
  obtain h1 where h1: "post_stream bs ae path body h = (Ok ns, h1)"
    "ready avail ae (ns + 2) h1 (concat (map frame_wire frs) @ rest)"
    using post_stream_ready [OF assms(1,2)] .
  have "aside ns fr \<Longrightarrow> response_reading ns fr acc = Some (Inl acc)" for fr acc
    by (auto simp: aside_def response_reading_def Let_def)
  then obtain left where left: "read_all (response_reading ns) frs (0, [])
      = Some ((case decode_status block of Some s \<Rightarrow> s | None \<Rightarrow> 0, concat pieces @ final), left)"
    using response.loop_skips [of "aside ns" ns frs "(0, [])"] assms(4)
      read_response_frames [of ns block pieces final] by auto
  obtain h2 where "frame_loop bs ae (response_step bs ae ns) (0, []) h1
      = Some (Ok (case decode_status block of Some s \<Rightarrow> s | None \<Rightarrow> 0, concat pieces @ final), h2)"
    using response.loop_reads [OF assms(1) h1(2) assms(3) left] by blast
  with h1(1) show ?thesis by (simp add: post_json_def read_response_h2_def bindP_def totalP_def)
qed

text \<open>A cipher that hides nothing and obeys the law, and a session over it.\<close>

definition plain_aead :: aead where
  "plain_aead = \<lparr>ae_encrypt = (\<lambda>k n p. Some (p @ replicate 16 0)), ae_decrypt = (\<lambda>k n c. Some (take (length c - 16) c))\<rparr>"

lemma plain_aead_law: "aead_law plain_aead k"
  by (simp add: aead_law_def plain_aead_def)

text \<open>
  The session after the handshake: what the server sends first is an optional early payload
  and frames up to its settings.
\<close>

definition early_bytes :: "bytes option \<Rightarrow> bytes" where
  "early_bytes early = (case early of None \<Rightarrow> [] | Some json \<Rightarrow> EARLY_MAGIC @ be32 (word_of_nat (length json)) @ json)"

lemma consume_early_ready:
  assumes laws: "stream_laws bs avail"
    and r: "ready avail ae ns h (early_bytes early @ frame_wire fr @ rest)"
    and len: "\<And>json. early = Some json \<Longrightarrow> length json < 2 ^ 32" "length (fr_payload fr) < 0xff0000"
  obtains h' where "consume_early_payload bs ae h = Some (Ok early, h')"
    and "ready avail ae ns h' (frame_wire fr @ rest)"
proof (cases early)
  case (Some json)
  have g: "unat (get32 5 (EARLY_MAGIC @ be32 (word_of_nat (length json)))) = length json"
    using get32_at [of EARLY_MAGIC 5 "word_of_nat (length json)" "[]"] len(1) [OF Some]
    by (simp add: EARLY_MAGIC_def unsigned_of_nat take_bit_eq_mod)
  have "ready avail ae ns h ((EARLY_MAGIC @ be32 (word_of_nat (length json))) @ json @ frame_wire fr @ rest)"
    using r Some by (simp add: early_bytes_def)
  then obtain h1 where h1: "read_exact bs ae 9 h = Some (Ok (EARLY_MAGIC @ be32 (word_of_nat (length json))), h1)"
    "ready avail ae ns h1 (json @ frame_wire fr @ rest)"
    by (rule read_exact_ready [OF laws]) (simp_all add: EARLY_MAGIC_def)
  obtain h2 where "read_exact bs ae (length json) h1 = Some (Ok json, h2)" "ready avail ae ns h2 (frame_wire fr @ rest)"
    by (rule read_exact_ready [OF laws h1(2) refl])
  with h1(1) Some g show thesis
    by (intro that [of h2]) (simp_all add: consume_early_payload_def bindP_def totalP_def EARLY_MAGIC_def)
next
  case None
  obtain b zs where w: "frame_wire fr = b # zs" "b \<noteq> 0xff" "8 \<le> length zs"
  proof -
    have "unat (word_of_nat (length (fr_payload fr) div 65536) :: u8) < 255"
      using len(2) by (simp add: unat_byte)
    then have "(word_of_nat (length (fr_payload fr) div 65536) :: u8) \<noteq> 0xff" by auto
    then show thesis
      by (intro that [of _ "tl (frame_wire fr)"]) (simp_all add: frame_wire_def frame_bytes_def Let_def)
  qed
  define hdr where "hdr = take 9 (frame_wire fr)"
  have hdr: "length hdr = 9" "take 5 hdr \<noteq> EARLY_MAGIC" "frame_wire fr = hdr @ drop 9 (frame_wire fr)"
    using w by (simp_all add: hdr_def EARLY_MAGIC_def)
  have "ready avail ae ns h (hdr @ drop 9 (frame_wire fr) @ rest)"
    using r None unfolding append_assoc [symmetric] hdr(3) [symmetric] by (simp add: early_bytes_def)
  then obtain h1 where h1: "read_exact bs ae 9 h = Some (Ok hdr, h1)"
    "ready avail ae ns h1 (drop 9 (frame_wire fr) @ rest)"
    by (rule read_exact_ready [OF laws _ hdr(1)])
  from h1(2) obtain ps where ps: "ciphers ae ns h1" "pending avail ae h1 ps"
    "drop 9 (frame_wire fr) @ rest = h_rx h1 @ concat ps" by (auto simp: ready_def)
  have "ready avail ae ns (h1\<lparr>h_rx := hdr @ h_rx h1\<rparr>) (frame_wire fr @ rest)"
  proof (rule readyI)
    show "frame_wire fr @ rest = h_rx (h1\<lparr>h_rx := hdr @ h_rx h1\<rparr>) @ concat ps"
      using ps(3) hdr(3) by (metis append.assoc h2.select_convs(3) h2.update_convs(3) h2.surjective)
    show "pending avail ae (h1\<lparr>h_rx := hdr @ h_rx h1\<rparr>) ps" using ps(2) by (simp cong: pending_cong)
    show "ciphers ae ns (h1\<lparr>h_rx := hdr @ h_rx h1\<rparr>)" using ps(1) by (simp add: ciphers_def)
  qed
  with h1(1) hdr(2) None show thesis
    by (intro that) (simp_all add: consume_early_payload_def bindP_def)
qed

lemma h2_start_ready:
  assumes laws: "stream_laws bs avail"
    and r: "ready avail ae 1 \<lparr>h_conn = conn, h_tr = tr, h_rx = [], h_next_stream = 1, h_authority = authority\<rparr>
      (early_bytes early @ concat (map frame_wire (pre @ settings # frs)) @ rest)"
    and wf: "list_all frame_wf (pre @ settings # frs)"
    and len: "\<And>json. early = Some json \<Longrightarrow> length json < 2 ^ 32" "length (fr_payload (hd (pre @ [settings]))) < 0xff0000"
    and pre: "list_all (\<lambda>fr. fr_typ fr \<noteq> FT_SETTINGS \<and> fr_typ fr \<noteq> FT_GOAWAY) pre" "fr_typ settings = FT_SETTINGS"
  obtains h where "h2_start bs ae conn tr authority = Some (Ok early, h)"
    and "ready avail ae 1 h (concat (map frame_wire frs) @ rest)"
proof -
  define h0 where "h0 = \<lparr>h_conn = conn, h_tr = tr, h_rx = [], h_next_stream = 1, h_authority = authority\<rparr>"
  have split: "concat (map frame_wire (pre @ settings # frs)) @ rest =
      frame_wire (hd (pre @ [settings])) @ concat (map frame_wire (tl (pre @ settings # frs))) @ rest"
    by (cases pre) simp_all
  obtain h1 where h1: "h2_send bs ae (PREFACE @ frame_bytes FT_SETTINGS 0 0 settings_hello) h0 = (Ok (), h1)"
    "ready avail ae 1 h1 (early_bytes early @ concat (map frame_wire (pre @ settings # frs)) @ rest)"
    using h2_send_ready [OF laws r [folded h0_def]] by blast
  obtain h2 where h2: "consume_early_payload bs ae h1 = Some (Ok early, h2)"
    "ready avail ae 1 h2 (concat (map frame_wire (pre @ settings # frs)) @ rest)"
    using consume_early_ready [OF laws h1(2) [unfolded split] len] unfolding split by blast
  have "read_all startup_reading (pre @ settings # frs) () = Some ((), frs)"
    using pre by (induction pre) (simp_all add: startup_reading_def)
  from startup.loop_reads [OF laws h2(2) wf this] obtain h3 where
    "frame_loop bs ae (startup_step bs ae) () h2 = Some (Ok (), h3)"
    "ready avail ae 1 h3 (concat (map frame_wire frs) @ rest)" by blast
  with h1(1) h2(1) show thesis
    by (intro that [of h3]) (simp_all add: h2_start_def bindP_def totalP_def h0_def)
qed

text \<open>
  What the device writes. The peer of \<open>stream_laws\<close> is any sequence of bytes, given beforehand; that
  it is asked for the right thing is a claim on what is written, the log of which is \<open>sent\<close>.
\<close>

definition writes_logged :: "'s byte_stream \<Rightarrow> ('s \<Rightarrow> bytes) \<Rightarrow> bool" where
  "writes_logged bs sent \<longleftrightarrow> (\<forall>d s s'. bs_write bs d s = (Ok (), s') \<longrightarrow> sent s' = sent s @ d)"

definition h2_sent :: "('s \<Rightarrow> bytes) \<Rightarrow> 's h2 \<Rightarrow> bytes" where
  "h2_sent sent h = sent (cn_stream (h_conn h))"

lemma on_tr_Ok: "on_tr m h = (Ok v, h') \<longleftrightarrow> (\<exists>t. m (h_tr h) = (Ok v, t) \<and> h' = h\<lparr>h_tr := t\<rparr>)"
  by (auto simp: on_tr_def split: prod.split outcome.split)

lemma write_Ok: "on_conn (conn_write_all bs d) h = (Ok v, h') \<longleftrightarrow>
    (\<exists>s. bs_write bs d (cn_stream (h_conn h)) = (Ok (), s) \<and> h' = h\<lparr>h_conn := (h_conn h)\<lparr>cn_stream := s\<rparr>\<rparr>)"
  by (auto simp: on_conn_def conn_write_all_def conn_write_def split: prod.split outcome.split)

lemma bindM_Ok: "bindM m k h = (Ok v, h') \<longleftrightarrow> (\<exists>x h1. m h = (Ok x, h1) \<and> k x h1 = (Ok v, h'))"
  by (cases "m h"; cases "fst (m h)") (auto simp: bindM_apply)

lemma send_chunks_writes:
  assumes log: "writes_logged bs sent"
  shows "send_chunks bs ae cs h = (Ok (), h') \<Longrightarrow>
    \<exists>out. seal_all ae cs (h_tr h) = (Ok out, h_tr h') \<and> h2_sent sent h' = h2_sent sent h @ out"
proof (induction cs arbitrary: h)
  case (Cons c cs)
  then obtain r t s1 where r: "seal_record ae c (h_tr h) = (Ok r, t)"
      and w: "bs_write bs r (cn_stream (h_conn h)) = (Ok (), s1)"
      "send_chunks bs ae cs (h\<lparr>h_tr := t, h_conn := (h_conn h)\<lparr>cn_stream := s1\<rparr>\<rparr>) = (Ok (), h')"
    by (auto simp: bindM_Ok on_tr_Ok write_Ok)
  then have s1: "sent s1 = sent (cn_stream (h_conn h)) @ r" using log by (simp add: writes_logged_def)
  obtain out where o: "seal_all ae cs t = (Ok out, h_tr h')" "h2_sent sent h' = sent s1 @ out"
    using Cons.IH [OF w(2)] by (auto simp: h2_sent_def)
  have "seal_all ae (c # cs) (h_tr h) = (Ok (r @ out), h_tr h')" using r o(1) by (simp add: bindM_apply)
  moreover have "h2_sent sent h' = h2_sent sent h @ r @ out" using o(2) s1 by (simp add: h2_sent_def)
  ultimately show ?case by blast
qed (simp add: h2_sent_def)

text \<open>The session keeps its authority.\<close>

definition same_authority :: "('s h2, 'a, h2_error) comp \<Rightarrow> bool" where
  "same_authority m \<longleftrightarrow> (\<forall>h r h'. m h = (r, h') \<longrightarrow> h_authority h' = h_authority h)"

definition same_authorityP :: "('s h2 \<Rightarrow> (('a, h2_error) outcome \<times> 's h2) option) \<Rightarrow> bool" where
  "same_authorityP m \<longleftrightarrow> (\<forall>h r h'. m h = Some (r, h') \<longrightarrow> h_authority h' = h_authority h)"

lemma same_authority_intros:
  "same_authority (returnM v)" "same_authority (failM e)" "same_authority (on_conn c)" "same_authority (on_tr t)"
  "same_authority m \<Longrightarrow> (\<And>x. same_authority (k x)) \<Longrightarrow> same_authority (bindM m k)"
  "same_authority m \<Longrightarrow> same_authority n \<Longrightarrow> same_authority (if b then m else n)"
  "same_authority m \<Longrightarrow> same_authorityP (totalP m)"
  "same_authorityP mP \<Longrightarrow> (\<And>x. same_authorityP (kP x)) \<Longrightarrow> same_authorityP (bindP mP kP)"
  "same_authorityP mP \<Longrightarrow> same_authorityP nP \<Longrightarrow> same_authorityP (if b then mP else nP)"
proof -
  show "same_authority (bindM m k)" if "same_authority m" "\<And>x. same_authority (k x)"
    unfolding same_authority_def
  proof (intro allI impI)
    fix h r h' assume b: "bindM m k h = (r, h')"
    obtain v h1 where m: "m h = (v, h1)" by force
    with that(1) have "h_authority h1 = h_authority h" by (simp add: same_authority_def)
    then show "h_authority h' = h_authority h"
      using b m that(2) by (cases v) (auto simp: bindM_apply same_authority_def)
  qed
  show "same_authorityP (bindP mP kP)" if "same_authorityP mP" "\<And>x. same_authorityP (kP x)"
    unfolding same_authorityP_def
  proof (intro allI impI)
    fix h r h' assume b: "bindP mP kP h = Some (r, h')"
    then obtain v h1 where m: "mP h = Some (v, h1)" by (auto simp: bindP_def bind_eq_Some_conv)
    with that(1) have "h_authority h1 = h_authority h" by (simp add: same_authorityP_def)
    then show "h_authority h' = h_authority h"
      using b m that(2) by (cases v) (auto simp: bindP_def same_authorityP_def)
  qed
qed (auto simp: same_authority_def same_authorityP_def totalP_def on_conn_def on_tr_def split: prod.splits outcome.splits)

lemma same_authority_h2:
  "same_authority (send_chunks bs ae cs)" "same_authority (h2_send bs ae d)" "same_authority (ack_settings bs ae fr)"
  "same_authority (startup_step bs ae fr acc)" "same_authority (pull bs ae)"
proof -
  show s: "same_authority (send_chunks bs ae cs)" for cs
    by (induction cs) (simp_all only: send_chunks.simps same_authority_intros)
  then show h: "same_authority (h2_send bs ae d)" for d by (simp add: h2_send_def)
  then show a: "same_authority (ack_settings bs ae fr)" unfolding ack_settings_def by (intro same_authority_intros)
  then show "same_authority (startup_step bs ae fr acc)" unfolding startup_step_def by (intro same_authority_intros)
  have "same_authority (\<lambda>h. (Ok (), h\<lparr>h_rx := h_rx h @ x\<rparr>))" for x by (simp add: same_authority_def)
  then show "same_authority (pull bs ae)"
    unfolding pull_def split_beta by (intro same_authority_intros)
qed

lemma read_exact_authority:
  assumes "read_exact bs ae n h = Some y"
  shows "h_authority (snd y) = h_authority h"
proof (rule read_exact.raw_induct [OF _ assms, where P = "\<lambda>bs ae n h y. h_authority (snd y) = h_authority h"], goal_cases)
  case (1 rec bs ae n h y)
  obtain r h1 where p: "pull bs ae h = (r, h1)" by force
  then have "h_authority h1 = h_authority h" using same_authority_h2(5) [of bs ae] by (simp add: same_authority_def)
  with 1(1) [of bs ae n h1 y] 1(2) p show ?case by (cases r) (auto split: if_splits)
qed

lemma same_authorityP_h2:
  "same_authorityP (read_exact bs ae n)" "same_authorityP (h2_read_frame bs ae)" "same_authorityP (consume_early_payload bs ae)"
proof -
  show r: "same_authorityP (read_exact bs ae n)" for n
    using read_exact_authority [of bs ae n] by (fastforce simp: same_authorityP_def)
  show "same_authorityP (h2_read_frame bs ae)"
    unfolding h2_read_frame_def Let_def by (intro same_authority_intros r)
  have "same_authorityP (\<lambda>h. Some (Ok None, h\<lparr>h_rx := x @ h_rx h\<rparr>))" for x by (simp add: same_authorityP_def)
  then show "same_authorityP (consume_early_payload bs ae)"
    unfolding consume_early_payload_def by (intro same_authority_intros r)
qed

lemma frame_loop_authority:
  assumes "frame_loop bs ae step acc h = Some y"
  shows "(\<forall>fr acc. same_authority (step fr acc)) \<longrightarrow> h_authority (snd y) = h_authority h"
proof (rule frame_loop.raw_induct [OF _ assms, where P = "\<lambda>bs ae step acc h y.
    (\<forall>fr acc. same_authority (step fr acc)) \<longrightarrow> h_authority (snd y) = h_authority h"], goal_cases)
  case (1 rec bs ae step acc h y)
  show ?case
  proof (rule impI)
    assume s: "\<forall>fr acc. same_authority (step fr acc)"
    obtain r h1 where f: "h2_read_frame bs ae h = Some (r, h1)" using 1(2) by (auto simp: bind_eq_Some_conv)
    then have h1: "h_authority h1 = h_authority h" using same_authorityP_h2(2) [of bs ae] by (simp add: same_authorityP_def)
    show "h_authority (snd y) = h_authority h"
    proof (cases r)
      case (Ok fr)
      obtain v h2 where st: "step fr acc h1 = (v, h2)" by force
      then have h2: "h_authority h2 = h_authority h1" using s by (simp add: same_authority_def)
      show ?thesis
      proof (cases v)
        case (Ok x)
        then show ?thesis using 1(1) [of bs ae step _ h2 y] 1(2) f st h1 h2 s \<open>r = Ok fr\<close> by (cases x) auto
      qed (use 1(2) f st h1 h2 \<open>r = Ok fr\<close> in auto)
    qed (use 1(2) f h1 in auto)
  qed
qed

lemma h2_start_authority:
  assumes "h2_start bs ae conn tr authority = Some (r, h)"
  shows "h_authority h = authority"
proof -
  have "same_authorityP (frame_loop bs ae (startup_step bs ae) ())"
    using frame_loop_authority [of bs ae "startup_step bs ae"] same_authority_h2(4) [of bs ae]
    by (fastforce simp: same_authorityP_def)
  then have "same_authorityP (bindP (totalP (h2_send bs ae (PREFACE @ frame_bytes FT_SETTINGS 0 0 settings_hello))) (\<lambda>x.
     bindP (consume_early_payload bs ae) (\<lambda>early.
     bindP (frame_loop bs ae (startup_step bs ae) ()) (\<lambda>x. totalP (returnM early)))))"
    by (intro same_authority_intros same_authority_h2 same_authorityP_h2)
  with assms show ?thesis unfolding h2_start_def same_authorityP_def by fastforce
qed
lemma concat_chunks: "0 < n \<Longrightarrow> concat (chunks n xs) = xs"
proof (induction n xs rule: chunks.induct)
  case (1 n xs)
  then show ?case by (cases "xs = []") (simp_all add: chunks.simps [of n xs] chunks.simps [of n "[]"])
qed

text \<open>
  The request as the server is to read it: a HEADERS frame with the fields, each a literal with a new
  name, and a DATA frame with the body, which ends the stream.
\<close>

definition request_fields :: "string \<Rightarrow> string \<Rightarrow> nat \<Rightarrow> (string \<times> string) list" where
  "request_fields authority path n = [('':method'', ''POST''), ('':scheme'', ''http''), ('':authority'', authority),
     ('':path'', path), (''content-type'', ''application/json''), (''content-length'', show_nat n),
     (''accept'', ''application/json'')]"

definition request_frames :: "u32 \<Rightarrow> string \<Rightarrow> string \<Rightarrow> bytes \<Rightarrow> h2_frame list" where
  "request_frames sid authority path body =
     [\<lparr>fr_typ = FT_HEADERS, fr_flags = FL_END_HEADERS, fr_stream_id = sid,
        fr_payload = concat (map (\<lambda>(n, v). enc_header n v) (request_fields authority path (length body)))\<rparr>,
      data_frame sid FL_END_STREAM body]"

lemma post_stream_writes:
  assumes "writes_logged bs sent" "post_stream bs ae path body h = (Ok ns, h')"
  shows "\<exists>texts out t. concat texts = concat (map frame_wire (request_frames ns (h_authority h) path body))
    \<and> seal_all ae texts (h_tr h) = (Ok out, t) \<and> h2_sent sent h' = h2_sent sent h @ out"
proof -
  define frs where "frs = concat (map frame_wire (request_frames ns (h_authority h) path body))"
  define h0 where "h0 = h\<lparr>h_next_stream := h_next_stream h + 2\<rparr>"
  from assms(2) have "ns = h_next_stream h" "send_chunks bs ae (chunks 2048 frs) h0 = (Ok (), h')"
    by (auto simp: post_stream_def Let_def bindM_apply h2_send_def frs_def request_frames_def request_fields_def
        frame_wire_def data_frame_def req_headers_def h0_def split: prod.splits outcome.splits)
  from send_chunks_writes [OF assms(1) this(2)] show ?thesis
    using concat_chunks [of 2048 frs] by (auto simp: frs_def [symmetric] h0_def h2_sent_def)
qed

text \<open>
  The response as the server writes it: the first field of its headers is the status, as the static
  entry for 200 or as a literal with a new name and three digits; its body is a JSON object, bare or
  behind four bytes of length.
\<close>

definition status_field :: "nat \<Rightarrow> bytes \<Rightarrow> bool" where
  "status_field st f \<longleftrightarrow> st = 200 \<and> f = [0x88]
     \<or> 100 \<le> st \<and> st < 1000 \<and> f = [0x00, 7] @ of_text '':status'' @ [3] @ of_text (show_nat st)"

definition json_body :: "bytes \<Rightarrow> bytes \<Rightarrow> bool" where
  "json_body json raw \<longleftrightarrow> (\<exists>r. json = 0x7B # r)
     \<and> (raw = json \<or> (\<exists>a b c d. a \<noteq> 0x7B \<and> raw = [a, b, c, d] @ json))"

lemma strip_json_body: "json_body json raw \<Longrightarrow> strip_wire_prefix raw = json"
  by (auto simp: json_body_def strip_wire_prefix_def)

lemma show_nat_three: "100 \<le> st \<Longrightarrow> st < 1000 \<Longrightarrow> length (show_nat st) = 3"
proof -
  assume st: "100 \<le> st" "st < 1000"
  then have "\<not> st < 10" "\<not> st div 10 < 10" "st div 10 div 10 < 10" by linarith+
  then show ?thesis by (simp add: show_nat.simps [of st] show_nat.simps [of "st div 10"] show_nat.simps [of "st div 10 div 10"])
qed

lemma digits_utf8: "valid_utf8 (show_nat n)"
proof -
  have "list_all is_ascii (show_nat n)"
    using show_nat_digits [of n] by (auto simp: list_all_iff is_digit_def is_ascii_def)
  then show ?thesis by (simp add: valid_utf8_def valid_up_to_ascii)
qed

lemma decode_status_field:
  assumes "status_field st f"
  shows "decode_status (f @ others) = Some st"
proof (cases "f = [0x88]")
  case True
  then show ?thesis using assms by (auto simp: status_field_def of_text_def)
next
  case False
  define v where "v = of_text (show_nat st)"
  have st: "100 \<le> st" "st < 1000" and f: "f = [0x00, 7] @ of_text '':status'' @ [3] @ v"
    using assms False by (auto simp: status_field_def v_def)
  have l: "length v = 3" "length (of_text '':status'') = 7" using show_nat_three [OF st] by (simp_all add: v_def of_text_def)
  have t: "to_text v = show_nat st" "valid_utf8 (show_nat st)"
    using digits_utf8 by (simp_all add: v_def)
  obtain x xs where x: "show_nat st = x # xs" "is_digit x" using show_nat_Cons by blast
  then have "parse_unsigned (2 ^ 16 - 1) (show_nat st) = bounded 0 (2 ^ 16 - 1) (parse_digits (show_nat st))"
    by (auto simp: parse_unsigned_def is_digit_def)
  then have "parse_u16 (show_nat st) = Some st" using st(2) by (simp add: parse_u16_def bounded_def)
  with l t show ?thesis
    unfolding f by simp
qed


definition sample_settings :: h2_frame where
  "sample_settings = \<lparr>fr_typ = FT_SETTINGS, fr_flags = 0, fr_stream_id = 0, fr_payload = []\<rparr>"

definition sample_frames :: "h2_frame list" where
  "sample_frames = response_frames 1 ([0, 7] @ of_text '':status'' @ [3] @ of_text (show_nat 403)) [[5, 0, 0, 0] @ of_text ''{''] (of_text ''}'')"

definition sample_texts :: "bytes list" where
  "sample_texts = [early_bytes (Some [1, 2]), frame_wire sample_settings @ concat (map frame_wire sample_frames)]"

definition sample_transport :: transport where
  "sample_transport = \<lparr>tr_send = [], tr_recv = [], tx_nonce = 0, rx_nonce = 0\<rparr>"

definition sample_conn :: "bytes ctl_conn" where
  "sample_conn = \<lparr>cn_stream = concat (map (\<lambda>p. ctl_frame MSG_RECORD (p @ replicate 16 0)) sample_texts), cn_rx = []\<rparr>"

lemma seal_plain:
  "\<exists>t'. seal_all plain_aead ps t = (Ok (concat (map (\<lambda>p. ctl_frame MSG_RECORD (p @ replicate 16 0)) ps)), t')"
proof (induction ps arbitrary: t)
  case (Cons p ps)
  have "seal_record plain_aead p t = (Ok (ctl_frame MSG_RECORD (p @ replicate 16 0)), t\<lparr>tx_nonce := tx_nonce t + 1\<rparr>)"
    by (simp add: seal_record_def plain_aead_def Let_def ctl_frame_def)
  moreover obtain t' where "seal_all plain_aead ps (t\<lparr>tx_nonce := tx_nonce t + 1\<rparr>)
      = (Ok (concat (map (\<lambda>p. ctl_frame MSG_RECORD (p @ replicate 16 0)) ps)), t')" using Cons by blast
  ultimately show ?case by (simp add: bindM_apply)
qed simp

definition logging_stream :: "(bytes \<times> bytes) byte_stream" where
  "logging_stream = \<lparr>bs_read = (\<lambda>n s. (Ok (take 1 (fst s)), drop 1 (fst s), snd s)),
     bs_write = (\<lambda>d s. (Ok (), fst s, snd s @ d))\<rparr>"

lemma logging_stream_laws: "stream_laws logging_stream fst" "writes_logged logging_stream snd"
  by (auto simp: stream_laws_def writes_logged_def logging_stream_def intro!: exI [of _ 1] simp: Suc_le_eq)

definition logged_conn :: "(bytes \<times> bytes) ctl_conn" where
  "logged_conn = \<lparr>cn_stream = (cn_stream sample_conn, []), cn_rx = []\<rparr>"


end
