(* ===== verification/Icmp.thy ===== *)
theory Icmp
  imports Bytes
begin

text \<open>
  \<open>core/src/icmp.rs\<close>: answering an ICMP or ICMPv6 echo request that came out of the
  WireGuard tunnel. Every index below is within the packet by the length tests before it.
\<close>

section \<open>The echo replies\<close>

definition PROTO_ICMP :: u8 where "PROTO_ICMP = 1"
definition ICMP_ECHO_REQUEST :: u8 where "ICMP_ECHO_REQUEST = 8"
definition ICMP_ECHO_REPLY :: u8 where "ICMP_ECHO_REPLY = 0"
definition NEXT_HDR_ICMPV6 :: u8 where "NEXT_HDR_ICMPV6 = 58"
definition ICMPV6_ECHO_REQUEST :: u8 where "ICMPV6_ECHO_REQUEST = 128"
definition ICMPV6_ECHO_REPLY :: u8 where "ICMPV6_ECHO_REPLY = 129"

text \<open>Swapping two fields of a packet, as both functions do with the two addresses.\<close>

definition swap_fields :: "nat \<Rightarrow> nat \<Rightarrow> nat \<Rightarrow> bytes \<Rightarrow> bytes" where
  "swap_fields i j n pkt =
     (let src = cut i (i + n) pkt; dst = cut j (j + n) pkt in put j src (put i dst pkt))"

definition v4_finish_reply :: "nat \<Rightarrow> bytes \<Rightarrow> bytes" where
  "v4_finish_reply ihl pkt =
     (let pkt = pkt[ihl := ICMP_ECHO_REPLY, ihl + 2 := 0, ihl + 3 := 0];
          csum = checksum (drop ihl pkt);
          pkt = put (ihl + 2) (be16 csum) pkt;
          pkt = pkt[10 := 0, 11 := 0];
          ipsum = checksum (take ihl pkt)
      in put 10 (be16 ipsum) pkt)"

definition echo_reply :: "bytes \<Rightarrow> bytes option" where
  "echo_reply inner =
     (if length inner < 20 \<or> drop_bit 4 (inner ! 0) \<noteq> 4 then None else
      let ihl = ip_ihl inner; total_len = unat (get16 2 inner) in
      if ihl < 20 \<or> total_len < ihl \<or> total_len > length inner then None
      else if inner ! 9 \<noteq> PROTO_ICMP then None
      else let icmp = cut ihl total_len inner in
      if length icmp < 8 \<or> icmp ! 0 \<noteq> ICMP_ECHO_REQUEST then None
      else Some (v4_finish_reply ihl (swap_fields 12 16 4 (take total_len inner))))"

text \<open>
  The sum of \<open>icmpv6_checksum\<close> runs over the two addresses, the two halves of the length,
  the next header and the message.
\<close>

definition icmpv6_checksum :: "bytes \<Rightarrow> bytes \<Rightarrow> bytes \<Rightarrow> u16" where
  "icmpv6_checksum src dst msg =
     (let sum = sum16 dst (sum16 src 0);
          len = (word_of_nat (length msg) :: u32);
          sum = sum + (drop_bit 16 len AND 0xffff);
          sum = sum + (len AND 0xffff);
          sum = sum + ucast NEXT_HDR_ICMPV6
      in finish (sum16 msg sum))"

definition v6_finish_reply :: "bytes \<Rightarrow> bytes" where
  "v6_finish_reply pkt =
     (let pkt = pkt[40 := ICMPV6_ECHO_REPLY, 42 := 0, 43 := 0];
          csum = icmpv6_checksum (cut 8 24 pkt) (cut 24 40 pkt) (drop 40 pkt)
      in put 42 (be16 csum) pkt)"

definition echo_reply_v6 :: "bytes \<Rightarrow> bytes option" where
  "echo_reply_v6 inner =
     (if length inner < 40 \<or> drop_bit 4 (inner ! 0) \<noteq> 6 \<or> inner ! 6 \<noteq> NEXT_HDR_ICMPV6 then None else
      let payload_len = unat (get16 4 inner); total = 40 + payload_len in
      if payload_len < 8 \<or> total > length inner then None
      else if inner ! 40 \<noteq> ICMPV6_ECHO_REQUEST then None
      else Some (v6_finish_reply (swap_fields 8 24 16 (take total inner))))"

definition echo_reply_any :: "bytes \<Rightarrow> bytes option" where
  "echo_reply_any inner = (case inner of
     [] \<Rightarrow> None
   | b # _ \<Rightarrow> if drop_bit 4 b = 4 then echo_reply inner
              else if drop_bit 4 b = 6 then echo_reply_v6 inner else None)"

section \<open>What a reply is\<close>

text \<open>
  An IPv4 echo reply: the request with the addresses swapped, the type cleared and both
  checksums valid; everything else of the packet up to its total length is kept.
\<close>

definition v4_reply_of :: "bytes \<Rightarrow> bytes \<Rightarrow> bool" where
  "v4_reply_of inner r \<longleftrightarrow>
     (let ihl = ip_ihl inner; total = unat (get16 2 inner) in
      length r = total
      \<and> cut 12 16 r = cut 16 20 inner \<and> cut 16 20 r = cut 12 16 inner
      \<and> r ! ihl = ICMP_ECHO_REPLY
      \<and> checksum (take ihl r) = 0 \<and> checksum (drop ihl r) = 0
      \<and> take 10 r = take 10 inner \<and> cut 20 ihl r = cut 20 ihl inner
      \<and> r ! (ihl + 1) = inner ! (ihl + 1) \<and> drop (ihl + 4) r = cut (ihl + 4) total inner)"

lemma length_swap_fields [simp]:
  "i + n \<le> length p \<Longrightarrow> j + n \<le> length p \<Longrightarrow> length (swap_fields i j n p) = length p"
  by (simp add: swap_fields_def)

lemma nth_swap_fields:
  assumes "i + n \<le> j" "j + n \<le> length p" "k < length p"
  shows "swap_fields i j n p ! k =
    p ! (if i \<le> k \<and> k < i + n then j + (k - i) else if j \<le> k \<and> k < j + n then i + (k - j) else k)"
  using assms by (auto simp: swap_fields_def nth_put nth_cut)

lemma v4_finish_reply:
  assumes b: "20 \<le> ihl" "even ihl" "ihl + 8 \<le> length p" "length p < 65536"
  defines "r \<equiv> v4_finish_reply ihl p"
  shows "length r = length p" "r ! ihl = ICMP_ECHO_REPLY"
    "checksum (take ihl r) = 0" "checksum (drop ihl r) = 0"
    "k < length p \<Longrightarrow> k \<notin> {10, 11, ihl, ihl + 2, ihl + 3} \<Longrightarrow> r ! k = p ! k"
proof -
  define p2 where "p2 = p[ihl := ICMP_ECHO_REPLY, ihl + 2 := 0, ihl + 3 := 0]"
  define p3 where "p3 = put (ihl + 2) (be16 (checksum (drop ihl p2))) p2"
  define p4 where "p4 = p3[10 := 0, 11 := 0]"
  have r: "r = put 10 (be16 (checksum (take ihl p4))) p4"
    by (simp add: r_def v4_finish_reply_def Let_def p2_def p3_def p4_def)
  have l: "length p2 = length p" "length p3 = length p" "length p4 = length p"
    using b by (simp_all add: p2_def p3_def p4_def)
  have head: "take ihl r = put 10 (be16 (checksum (take ihl p4))) (take ihl p4)"
    using b l by (simp add: r take_put)
  have tail: "drop ihl r = put 2 (be16 (checksum (drop ihl p2))) (drop ihl p2)"
    using b l by (simp add: r p4_def p3_def drop_put_before drop_put)
  have z: "p4 ! 10 = 0" "p4 ! 11 = 0" "p2 ! (ihl + 2) = 0" "p2 ! (ihl + 3) = 0"
    using b l by (simp_all add: p4_def p2_def nth_list_update)
  show "checksum (take ihl r) = 0"
    unfolding head by (rule checksum_fill) (use b l z in simp_all)
  show "checksum (drop ihl r) = 0"
    unfolding tail by (rule checksum_fill) (use b l z in \<open>simp_all add: numeral_3_eq_3\<close>)
  show "length r = length p" using b l by (simp add: r)
  have r4: "r ! k = p4 ! k" if "k < length p" "k \<notin> {10, 11}" for k
    using that b l by (subst r) (auto simp: nth_put)
  have p32: "p3 ! k = p2 ! k" if "k < length p" "k \<notin> {ihl + 2, ihl + 3}" for k
    using that b l by (subst p3_def) (auto simp: nth_put)
  show "r ! ihl = ICMP_ECHO_REPLY"
    using b r4 [of ihl] p32 [of ihl] by (simp add: p4_def) (simp add: p2_def)
  show "r ! k = p ! k" if "k < length p" "k \<notin> {10, 11, ihl, ihl + 2, ihl + 3}"
    using that r4 [of k] p32 [of k] by (simp add: p4_def) (simp add: p2_def)
qed

lemma echo_reply_Some:
  "echo_reply inner = Some r \<longleftrightarrow>
     20 \<le> length inner \<and> drop_bit 4 (inner ! 0) = 4 \<and> 20 \<le> ip_ihl inner
     \<and> ip_ihl inner + 8 \<le> unat (get16 2 inner) \<and> unat (get16 2 inner) \<le> length inner
     \<and> inner ! 9 = PROTO_ICMP \<and> inner ! ip_ihl inner = ICMP_ECHO_REQUEST
     \<and> r = v4_finish_reply (ip_ihl inner) (swap_fields 12 16 4 (take (unat (get16 2 inner)) inner))"
  by (auto simp: echo_reply_def Let_def nth_cut)

lemma echo_reply_correct:
  assumes "echo_reply inner = Some r"
  shows "v4_reply_of inner r"
proof -
  define ihl total p where d: "ihl = ip_ihl inner" "total = unat (get16 2 inner)"
    "p = swap_fields 12 16 4 (take total inner)"
  have b: "20 \<le> ihl" "ihl + 8 \<le> total" "total \<le> length inner" "total < 65536" "even ihl"
    and r: "r = v4_finish_reply ihl p"
    using assms u16_less [of "get16 2 inner"] by (simp_all add: echo_reply_Some d ip_ihl_def)
  have lp: "length p = total" using b by (simp add: d)
  note f = v4_finish_reply [of ihl p, unfolded lp, folded r]
  have nths: "r ! k = inner ! (if 12 \<le> k \<and> k < 16 then k + 4 else if 16 \<le> k \<and> k < 20 then k - 4 else k)"
    if "k < total" "k \<notin> {10, 11, ihl, ihl + 2, ihl + 3}" for k
    using f(5) [of k] that b by (auto simp: d nth_swap_fields add.commute)
  have lr: "length r = total" using f(1) b by simp
  have "cut 12 16 r = cut 16 20 inner" "cut 16 20 r = cut 12 16 inner" "cut 20 ihl r = cut 20 ihl inner"
    using b by (intro cut_eqI; simp add: lr nths less_diff_conv)+
  moreover have "take 10 r = take 10 inner"
    using b by (intro nth_equalityI) (simp_all add: lr nths)
  moreover have "r ! (ihl + 1) = inner ! (ihl + 1)"
    using b by (simp add: nths)
  moreover have "drop (ihl + 4) r = cut (ihl + 4) total inner"
    using b cut_eqI [of total r total inner "ihl + 4" "ihl + 4"]
    by (simp add: lr nths flip: cut_to_end [of total r])
  ultimately show ?thesis
    unfolding v4_reply_of_def Let_def d(1,2) [symmetric] using f(1-4) b lr by simp
qed

section \<open>IPv6\<close>

text \<open>
  \<open>icmpv6_checksum\<close> is the internet checksum of the pseudo-header of RFC 8200 (the two
  addresses, the length, three zero bytes and the next header) followed by the message.
\<close>

definition pseudo_header6 :: "bytes \<Rightarrow> bytes \<Rightarrow> nat \<Rightarrow> bytes" where
  "pseudo_header6 src dst n = src @ dst @ be32 (word_of_nat n) @ [0, 0, 0, NEXT_HDR_ICMPV6]"

lemma be32_halves:
  "sum16 (be32 w @ xs) s = sum16 xs (s + (drop_bit 16 w AND 0xffff) + (w AND 0xffff))"
proof -
  have m: "(0xffff :: u32) = mask 16" by (simp add: mask_eq_exp_minus_1)
  have "ucast (of_be16 (ucast (drop_bit 24 w)) (ucast (drop_bit 16 w)) :: u16) = drop_bit 16 w AND 0xffff"
    unfolding m by (rule bit_word_eqI) (auto simp: of_be16_def bit_simps)
  moreover have "ucast (of_be16 (ucast (drop_bit 8 w)) (ucast w) :: u16) = w AND 0xffff"
    unfolding m by (rule bit_word_eqI) (auto simp: of_be16_def bit_simps)
  ultimately show ?thesis by (simp add: be32_def del: of_be16_be16)
qed

lemma icmpv6_checksum_pseudo:
  assumes "even (length src)" "even (length dst)"
  shows "icmpv6_checksum src dst msg = checksum (pseudo_header6 src dst (length msg) @ msg)"
proof -
  have "sum16 (0 # 0 # 0 # NEXT_HDR_ICMPV6 # msg) s = sum16 msg (s + ucast NEXT_HDR_ICMPV6)" for s
    by (simp add: of_be16_def NEXT_HDR_ICMPV6_def)
  with assms show ?thesis
    by (simp add: icmpv6_checksum_def Let_def checksum_def pseudo_header6_def sum16_append be32_halves)
qed

text \<open>An ICMPv6 echo reply.\<close>

definition v6_reply_of :: "bytes \<Rightarrow> bytes \<Rightarrow> bool" where
  "v6_reply_of inner r \<longleftrightarrow>
     (let total = 40 + unat (get16 4 inner) in
      length r = total
      \<and> cut 8 24 r = cut 24 40 inner \<and> cut 24 40 r = cut 8 24 inner
      \<and> r ! 40 = ICMPV6_ECHO_REPLY
      \<and> checksum (pseudo_header6 (cut 8 24 r) (cut 24 40 r) (total - 40) @ drop 40 r) = 0
      \<and> take 8 r = take 8 inner
      \<and> r ! 41 = inner ! 41 \<and> drop 44 r = cut 44 total inner)"

lemma v6_finish_reply:
  assumes b: "48 \<le> length p" "length p < 66000"
  defines "r \<equiv> v6_finish_reply p"
  shows "length r = length p" "r ! 40 = ICMPV6_ECHO_REPLY"
    "checksum (pseudo_header6 (cut 8 24 r) (cut 24 40 r) (length p - 40) @ drop 40 r) = 0"
    "k < length p \<Longrightarrow> k \<notin> {40, 42, 43} \<Longrightarrow> r ! k = p ! k"
proof -
  define p2 where "p2 = p[40 := ICMPV6_ECHO_REPLY, 42 := 0, 43 := 0]"
  define ph where "ph = pseudo_header6 (cut 8 24 p2) (cut 24 40 p2) (length p - 40)"
  have l: "length p2 = length p" by (simp add: p2_def)
  have lph: "length ph = 40" using b l by (simp add: ph_def pseudo_header6_def)
  have r: "r = put 42 (be16 (checksum (ph @ drop 40 p2))) p2"
    using b l by (simp add: r_def v6_finish_reply_def Let_def icmpv6_checksum_pseudo ph_def flip: p2_def)
  have addrs: "cut 8 24 r = cut 8 24 p2" "cut 24 40 r = cut 24 40 p2"
    using b l by (simp_all add: r cut_put_disjoint)
  have "ph @ drop 40 r = put 42 (be16 (checksum (ph @ drop 40 p2))) (ph @ drop 40 p2)"
    using b l lph by (simp add: r drop_put) (simp add: put_def)
  moreover have "p2 ! 42 = 0" "p2 ! 43 = 0" using b by (simp_all add: p2_def nth_list_update)
  ultimately show "checksum (pseudo_header6 (cut 8 24 r) (cut 24 40 r) (length p - 40) @ drop 40 r) = 0"
    using b l lph checksum_fill [of 42 "ph @ drop 40 p2"]
    by (simp add: addrs nth_append flip: ph_def)
  show "length r = length p" using b l by (simp add: r)
  have rk: "r ! k = p2 ! k" if "k < length p" "k \<notin> {42, 43}" for k
    using that b l by (subst r) (auto simp: nth_put)
  show "r ! 40 = ICMPV6_ECHO_REPLY" using b by (simp add: rk) (simp add: p2_def)
  show "r ! k = p ! k" if "k < length p" "k \<notin> {40, 42, 43}"
    using that by (simp add: rk) (simp add: p2_def)
qed

lemma echo_reply_v6_correct:
  assumes "echo_reply_v6 inner = Some r"
  shows "v6_reply_of inner r"
proof -
  define total p where d: "total = 40 + unat (get16 4 inner)" "p = swap_fields 8 24 16 (take total inner)"
  have b: "48 \<le> total" "total \<le> length inner" "total < 66000" and r: "r = v6_finish_reply p"
    using assms u16_less [of "get16 4 inner"]
    by (auto simp: echo_reply_v6_def Let_def d split: if_splits)
  have lp: "length p = total" using b by (simp add: d(2))
  note f = v6_finish_reply [of p, unfolded lp, folded r]
  have nths: "r ! k = inner ! (if 8 \<le> k \<and> k < 24 then k + 16 else if 24 \<le> k \<and> k < 40 then k - 16 else k)"
    if "k < total" "k \<notin> {40, 42, 43}" for k
    using f(4) [of k] that b by (auto simp: d(2) nth_swap_fields add.commute)
  have lr: "length r = total" using f(1) b by simp
  have "cut 8 24 r = cut 24 40 inner" "cut 24 40 r = cut 8 24 inner"
    using b by (intro cut_eqI; simp add: lr nths add.commute)+
  moreover have "take 8 r = take 8 inner"
    using b by (intro nth_equalityI) (simp_all add: lr nths)
  moreover have "r ! 41 = inner ! 41"
    using b by (simp add: nths)
  moreover have "drop 44 r = cut 44 total inner"
    using b cut_eqI [of total r total inner 44 44]
    by (simp add: lr nths flip: cut_to_end [of total r])
  ultimately show ?thesis
    unfolding v6_reply_of_def Let_def d(1) [symmetric] using f(1-3) b lr by simp
qed

section \<open>Both versions\<close>

text \<open>
  An echo reply is the request with the two addresses exchanged, the type changed to
  reply and the checksums correct for the new bytes (that of the header and of the message
  over IPv4, that of the pseudo-header and the message over IPv6); the rest of the packet,
  with the identifier, the sequence number and the payload, is that of the request.
\<close>

theorem echo_reply_any_correct:
  "echo_reply_any inner = Some r \<Longrightarrow>
     (drop_bit 4 (inner ! 0) = 4 \<and> v4_reply_of inner r) \<or> (drop_bit 4 (inner ! 0) = 6 \<and> v6_reply_of inner r)"
  by (auto simp: echo_reply_any_def echo_reply_correct echo_reply_v6_correct split: list.splits if_splits)

definition ping_packet :: bytes where
  "ping_packet = [0x45, 0, 0, 29, 0, 0, 0x40, 0, 64, 1, 0, 0, 10, 0, 0, 1, 10, 0, 0, 2,
     8, 0, 0, 0, 0, 7, 0, 1, 104]"

theorem echo_reply_any_correct_witness:
  "\<exists>r. echo_reply_any ping_packet = Some r \<and> v4_reply_of ping_packet r"
proof -
  have "echo_reply_any ping_packet =
      Some (v4_finish_reply 20 (swap_fields 12 16 4 ping_packet))"
    by (simp add: echo_reply_any_def echo_reply_def ping_packet_def ip_ihl_def get16_def of_be16_def
        cut_def Let_def PROTO_ICMP_def ICMP_ECHO_REQUEST_def)
  with echo_reply_any_correct [OF this] show ?thesis by (auto simp: ping_packet_def)
qed

end
