(* ===== verification/Outbound.thy ===== *)
theory Outbound
  imports Icmp
begin

text \<open>
  \<open>core/src/outbound.rs\<close>: the IPv4 packets the device sends out through a tunnel, and the
  one-request TCP client. An address is the list of its four octets; the random initial
  sequence number is an argument of \<open>client_new\<close>.
\<close>

section \<open>Packets\<close>

definition PROTO_TCP :: u8 where "PROTO_TCP = 6"
definition PROTO_UDP :: u8 where "PROTO_UDP = 17"
definition FIN :: u8 where "FIN = 0x01"
definition SYN :: u8 where "SYN = 0x02"
definition RST :: u8 where "RST = 0x04"
definition PSH :: u8 where "PSH = 0x08"
definition ACK :: u8 where "ACK = 0x10"

lemmas tcp_flags = FIN_def SYN_def RST_def PSH_def ACK_def

definition ipv4_packet :: "bytes \<Rightarrow> bytes \<Rightarrow> u8 \<Rightarrow> bytes \<Rightarrow> bytes" where
  "ipv4_packet src dst proto l4 =
     (let total = 20 + length l4;
          pkt = replicate total 0;
          pkt = pkt[0 := 0x45];
          pkt = put 2 (be16 (word_of_nat total)) pkt;
          pkt = pkt[6 := 0x40, 8 := 64, 9 := proto];
          pkt = put 16 dst (put 12 src pkt);
          c = checksum (take 20 pkt);
          pkt = put 10 (be16 c) pkt
      in put 20 l4 pkt)"

text \<open>The TCP and UDP checksum runs over the pseudo-header and the segment.\<close>

definition pseudo_header4 :: "bytes \<Rightarrow> bytes \<Rightarrow> u8 \<Rightarrow> nat \<Rightarrow> bytes" where
  "pseudo_header4 src dst proto n =
     put 10 (be16 (word_of_nat n)) ((put 4 dst (put 0 src (replicate 12 0)))[9 := proto])"

definition l4_checksum :: "bytes \<Rightarrow> bytes \<Rightarrow> u8 \<Rightarrow> bytes \<Rightarrow> u16" where
  "l4_checksum src dst proto l4 =
     finish (sum16 l4 (sum16 (pseudo_header4 src dst proto (length l4)) 0))"

definition icmp_echo_request :: "bytes \<Rightarrow> bytes \<Rightarrow> u16 \<Rightarrow> u16 \<Rightarrow> bytes \<Rightarrow> bytes" where
  "icmp_echo_request src dst ident sq payload =
     (let icmp = [8, 0, 0, 0] @ be16 ident @ be16 sq @ payload;
          icmp = put 2 (be16 (checksum icmp)) icmp
      in ipv4_packet src dst PROTO_ICMP icmp)"

definition udp_datagram :: "bytes \<Rightarrow> bytes \<Rightarrow> u16 \<Rightarrow> u16 \<Rightarrow> bytes \<Rightarrow> bytes" where
  "udp_datagram src dst sport dport payload =
     (let udp = be16 sport @ be16 dport @ be16 (word_of_nat (8 + length payload)) @ [0, 0] @ payload;
          udp = put 6 (be16 (l4_checksum src dst PROTO_UDP udp)) udp
      in ipv4_packet src dst PROTO_UDP udp)"

text \<open>A TCP segment without options, as the client and the server build it.\<close>

definition tcp_segment ::
  "bytes \<Rightarrow> bytes \<Rightarrow> u16 \<Rightarrow> u16 \<Rightarrow> u32 \<Rightarrow> u32 \<Rightarrow> u8 \<Rightarrow> bytes \<Rightarrow> bytes"
where
  "tcp_segment src dst sport dport sq ack flags payload =
     (let tcp = replicate (20 + length payload) 0;
          tcp = put 2 (be16 dport) (put 0 (be16 sport) tcp);
          tcp = put 8 (be32 ack) (put 4 (be32 sq) tcp);
          tcp = tcp[12 := push_bit 4 5, 13 := flags];
          tcp = put 20 payload (put 14 (be16 64240) tcp);
          c = l4_checksum src dst PROTO_TCP tcp
      in put 16 (be16 c) tcp)"

section \<open>The TCP client\<close>

record tcp_client =
  c_src :: bytes
  c_dst :: bytes
  c_sport :: u16
  c_dport :: u16
  c_snd_nxt :: u32
  c_rcv_nxt :: u32
  c_request :: bytes
  c_response :: bytes
  c_done :: bool
  c_established :: bool

definition client_new :: "u32 \<Rightarrow> bytes \<Rightarrow> bytes \<Rightarrow> u16 \<Rightarrow> u16 \<Rightarrow> bytes \<Rightarrow> tcp_client" where
  "client_new rand src dst sport dport request =
     (let iss = max (rand AND 0x7fffffff) 1 in
      \<lparr>c_src = src, c_dst = dst, c_sport = sport, c_dport = dport, c_snd_nxt = iss, c_rcv_nxt = 0,
       c_request = request, c_response = [], c_done = False, c_established = False\<rparr>)"

definition client_segment :: "tcp_client \<Rightarrow> u8 \<Rightarrow> bytes \<Rightarrow> bytes" where
  "client_segment c flags payload =
     ipv4_packet (c_src c) (c_dst c) PROTO_TCP
       (tcp_segment (c_src c) (c_dst c) (c_sport c) (c_dport c) (c_snd_nxt c) (c_rcv_nxt c) flags payload)"

definition client_open :: "tcp_client \<Rightarrow> bytes \<times> tcp_client" where
  "client_open c = (client_segment c SYN [], c\<lparr>c_snd_nxt := c_snd_nxt c + 1\<rparr>)"

definition owns :: "tcp_client \<Rightarrow> bytes \<Rightarrow> bool" where
  "owns c inner =
     (if length inner < 20 \<or> drop_bit 4 (inner ! 0) \<noteq> 4 \<or> inner ! 9 \<noteq> PROTO_TCP then False
      else let ihl = ip_ihl inner in
        if length inner < ihl + 4 then False else get16 (ihl + 2) inner = c_sport c)"

text \<open>What \<open>on_inner\<close> does with the sequence number, the flags and the payload it has read.\<close>

definition client_data :: "u32 \<Rightarrow> bytes \<Rightarrow> tcp_client \<Rightarrow> bytes list \<times> tcp_client" where
  "client_data sq payload c =
     (if payload = [] then ([], c)
      else
       (let c = (if sq = c_rcv_nxt c
                 then c\<lparr>c_response := c_response c @ payload,
                        c_rcv_nxt := c_rcv_nxt c + word_of_nat (length payload)\<rparr>
                 else c)
        in ([client_segment c ACK []], c)))"

definition client_fin :: "u8 \<Rightarrow> tcp_client \<Rightarrow> bytes list \<times> tcp_client" where
  "client_fin flags c =
     (if flags AND FIN \<noteq> 0 then
       (let c = c\<lparr>c_rcv_nxt := c_rcv_nxt c + 1\<rparr>
        in ([client_segment c ACK [], client_segment c (FIN OR ACK) []], c\<lparr>c_done := True\<rparr>))
      else ([], c))"

definition client_segment_in :: "u32 \<Rightarrow> u8 \<Rightarrow> bytes \<Rightarrow> tcp_client \<Rightarrow> bytes list \<times> tcp_client" where
  "client_segment_in sq flags payload c =
     (if flags AND SYN \<noteq> 0 \<and> flags AND ACK \<noteq> 0 \<and> \<not> c_established c then
       (let c = c\<lparr>c_rcv_nxt := sq + 1, c_established := True\<rparr>;
            o1 = client_segment c ACK [];
            o2 = client_segment c (PSH OR ACK) (c_request c)
        in ([o1, o2], c\<lparr>c_snd_nxt := c_snd_nxt c + word_of_nat (length (c_request c))\<rparr>))
      else
       (let (o1, c) = client_data sq payload c; (o2, c) = client_fin flags c in (o1 @ o2, c)))"

text \<open>The sequence number, flags and payload of a segment, if its lengths are consistent.\<close>

definition client_parse :: "bytes \<Rightarrow> (u32 \<times> u8 \<times> bytes) option" where
  "client_parse inner =
     (let ihl = ip_ihl inner; total = unat (get16 2 inner) in
      if total < ihl + 20 \<or> total > length inner then None else
      let tcp = cut ihl total inner;
          sq = get32 4 tcp;
          data_off = unat (drop_bit 4 (tcp ! 12)) * 4;
          flags = tcp ! 13 in
      if data_off < 20 \<or> data_off > length tcp then None
      else Some (sq, flags, drop data_off tcp))"

definition on_inner :: "bytes \<Rightarrow> tcp_client \<Rightarrow> bytes list \<times> tcp_client" where
  "on_inner inner c =
     (if \<not> owns c inner \<or> c_done c then ([], c) else
      case client_parse inner of None \<Rightarrow> ([], c)
      | Some (sq, flags, payload) \<Rightarrow> client_segment_in sq flags payload c)"

text \<open>The packets of a connection, fed to the client one after the other.\<close>

fun client_run :: "bytes list \<Rightarrow> tcp_client \<Rightarrow> bytes list \<times> tcp_client" where
  "client_run [] c = ([], c)"
| "client_run (p # ps) c =
     (let (o1, c) = on_inner p c; (o2, c) = client_run ps c in (o1 @ o2, c))"

section \<open>The layout of a packet\<close>

text \<open>The packet builders write into a zeroed buffer; this is what they leave there.\<close>

lemma replicate20: "replicate (20 + n) (0 :: u8) =
    [0,0,0,0,0,0,0,0,0,0,0,0,0,0,0,0,0,0,0,0] @ replicate n 0"
  by (simp add: replicate_add numeral_eq_Suc)

definition ipv4_header0 :: "bytes \<Rightarrow> bytes \<Rightarrow> u8 \<Rightarrow> nat \<Rightarrow> bytes" where
  "ipv4_header0 src dst proto n =
     [0x45, 0] @ be16 (word_of_nat n) @ [0, 0, 0x40, 0, 64, proto, 0, 0] @ src @ dst"

lemma header_puts:
  assumes "length src = 4" "length dst = 4" "length w = 2"
  shows "put 16 dst (put 12 src ((put 2 w
     ([0,0,0,0,0,0,0,0,0,0,0,0,0,0,0,0,0,0,0,0 :: u8][0 := 0x45]))[6 := 0x40, 8 := 64, 9 := proto]))
   = [0x45, 0] @ w @ [0, 0, 0x40, 0, 64, proto, 0, 0] @ src @ dst"
  by (subst list2 [OF assms(3)], subst list4 [OF assms(1)], subst list4 [OF assms(2)],
      subst (2) list2 [OF assms(3)], subst (2) list4 [OF assms(1)], subst (2) list4 [OF assms(2)])
     (simp add: put_def)


lemma zeroed_header:
  fixes src dst w :: bytes
  assumes "length src = 4" "length dst = 4" "length w = 2"
  shows "put 16 dst (put 12 src ((put 2 w ((replicate (20 + n) 0)[0 := 0x45]))
      [6 := 0x40, 8 := 64, 9 := proto]))
    = [0x45, 0] @ w @ [0, 0, 0x40, 0, 64, proto, 0, 0] @ src @ dst @ replicate n 0"
proof -
  define z :: bytes where "z = [0,0,0,0,0,0,0,0,0,0,0,0,0,0,0,0,0,0,0,0]"
  have "length z = 20" by (simp add: z_def)
  then show ?thesis
    using assms header_puts [OF assms, of proto]
    by (simp add: replicate20 put_append list_update_append1 z_def [symmetric])
qed

lemma ipv4_packet_eq:
  assumes "length src = 4" "length dst = 4"
  shows "ipv4_packet src dst proto l4 =
    (let h = ipv4_header0 src dst proto (20 + length l4) in put 10 (be16 (checksum h)) h @ l4)"
proof -
  define h where "h = ipv4_header0 src dst proto (20 + length l4)"
  have lh: "length h = 20" using assms by (simp add: h_def ipv4_header0_def)
  have "put 16 dst (put 12 src ((put 2 (be16 (word_of_nat (20 + length l4))) ((replicate (20 + length l4) 0)[0 := 0x45]))
      [6 := 0x40, 8 := 64, 9 := proto])) = h @ replicate (length l4) 0"
    by (subst zeroed_header) (simp_all add: assms h_def ipv4_header0_def)
  then have "ipv4_packet src dst proto l4 =
      put 20 l4 (put 10 (be16 (checksum h)) (h @ replicate (length l4) 0))"
    using lh unfolding ipv4_packet_def Let_def by simp
  also have "\<dots> = put 10 (be16 (checksum h)) h @ l4"
    using lh by (simp add: put_append) (simp add: put_def)
  finally show ?thesis by (simp add: Let_def h_def)
qed

lemma segment_puts:
  assumes "length w1 = 2" "length w2 = 2" "length d1 = 4" "length d2 = 4" "length w3 = 2"
  shows "put 14 w3 ((put 8 d2 (put 4 d1 (put 2 w2 (put 0 w1
     [0,0,0,0,0,0,0,0,0,0,0,0,0,0,0,0,0,0,0,0 :: u8]))))[12 := f1, 13 := f2])
   = w1 @ w2 @ d1 @ d2 @ [f1, f2] @ w3 @ [0, 0, 0, 0]"
proof -
  obtain a b c d e f where w: "w1 = [a, b]" "w2 = [c, d]" "w3 = [e, f]"
    using list2 assms by metis
  obtain a' b' c' d' where "d1 = [a', b', c', d']"
    using list4 assms by metis
  moreover obtain a' b' c' d' where "d2 = [a', b', c', d']"
    using list4 assms by metis
  ultimately show ?thesis by (simp add: w put_def)
qed

definition tcp_header0 :: "u16 \<Rightarrow> u16 \<Rightarrow> u32 \<Rightarrow> u32 \<Rightarrow> u8 \<Rightarrow> bytes" where
  "tcp_header0 sport dport sq ack flags =
     be16 sport @ be16 dport @ be32 sq @ be32 ack @ [0x50, flags] @ be16 64240 @ [0, 0, 0, 0]"

lemma zeroed_segment:
  fixes payload :: bytes
  shows "put 20 payload (put 14 (be16 64240) ((put 8 (be32 ack) (put 4 (be32 sq) (put 2 (be16 dport) (put 0 (be16 sport)
      (replicate (20 + length payload) 0)))))[12 := push_bit 4 5, 13 := flags]))
    = tcp_header0 sport dport sq ack flags @ payload"
proof -
  define z :: bytes where "z = [0,0,0,0,0,0,0,0,0,0,0,0,0,0,0,0,0,0,0,0]"
  have lz: "length z = 20" by (simp add: z_def)
  have "put 14 (be16 64240) ((put 8 (be32 ack) (put 4 (be32 sq) (put 2 (be16 dport) (put 0 (be16 sport)
      (z @ replicate (length payload) 0)))))[12 := push_bit 4 5, 13 := flags])
    = tcp_header0 sport dport sq ack flags @ replicate (length payload) 0"
    using lz segment_puts [of "be16 sport" "be16 dport" "be32 sq" "be32 ack" "be16 64240" "0x50" flags]
    by (simp add: put_append list_update_append1 tcp_header0_def z_def [symmetric])
  moreover have "length (tcp_header0 sport dport sq ack flags) = 20"
    by (simp add: tcp_header0_def)
  ultimately show ?thesis
    by (simp add: replicate20 z_def [symmetric]) (simp add: put_def)
qed

lemma tcp_segment_eq:
  "tcp_segment src dst sport dport sq ack flags payload =
    (let t = tcp_header0 sport dport sq ack flags @ payload
     in put 16 (be16 (l4_checksum src dst PROTO_TCP t)) t)"
  unfolding tcp_segment_def Let_def zeroed_segment ..

lemma pseudo_header4_eq:
  assumes "length src = 4" "length dst = 4"
  shows "pseudo_header4 src dst proto n = src @ dst @ [0, proto] @ be16 (word_of_nat n)"
proof -
  obtain a b c d e f g h where sd: "src = [a, b, c, d]" "dst = [e, f, g, h]"
    using list4 assms by metis
  obtain u v where w: "be16 (word_of_nat n) = [u, v]" using list2 [of "be16 (word_of_nat n)"] by auto
  have r: "replicate 12 (0 :: u8) = [0,0,0,0,0,0,0,0,0,0,0,0]" by (simp add: numeral_eq_Suc)
  show ?thesis
    by (simp add: pseudo_header4_def r sd put_def w)
qed

section \<open>Reading a packet back\<close>

lemma ipv4_header0_length: "length src = 4 \<Longrightarrow> length dst = 4 \<Longrightarrow> length (ipv4_header0 src dst proto n) = 20"
  by (simp add: ipv4_header0_def)

lemma nth_header0:
  fixes src dst :: bytes and proto :: u8 and n :: nat
  assumes "length src = 4" "length dst = 4"
  defines "h \<equiv> ipv4_header0 src dst proto n"
  shows "h ! 0 = 0x45" "h ! 9 = proto" "get16 2 h = word_of_nat n" "h ! 10 = 0" "h ! 11 = 0"
    "cut 12 16 h = src" "cut 16 20 h = dst"
proof -
  obtain u v where w: "be16 (word_of_nat n) = [u, v]" using list2 [of "be16 (word_of_nat n)"] by auto
  then have "of_be16 u v = word_of_nat n" by (simp add: be16_def) (metis of_be16_be16)
  then show "h ! 0 = 0x45" "h ! 9 = proto" "get16 2 h = word_of_nat n" "h ! 10 = 0" "h ! 11 = 0"
    by (simp_all add: h_def ipv4_header0_def w get16_def)
  show "cut 12 16 h = src" "cut 16 20 h = dst"
    using assms(1,2) by (simp_all add: h_def ipv4_header0_def w cut_def numeral_eq_Suc)
qed

lemma ipv4_packet_fields:
  fixes src dst l4 :: bytes and proto :: u8
  assumes "length src = 4" "length dst = 4"
  defines "p \<equiv> ipv4_packet src dst proto l4"
  shows "length p = 20 + length l4" "p ! 0 = 0x45" "p ! 9 = proto" "get16 2 p = word_of_nat (20 + length l4)"
    "cut 12 16 p = src" "cut 16 20 p = dst" "drop 20 p = l4" "checksum (take 20 p) = 0"
proof -
  define h where "h = ipv4_header0 src dst proto (20 + length l4)"
  define g where "g = put 10 (be16 (checksum h)) h"
  have p: "p = g @ l4" using assms by (simp add: p_def ipv4_packet_eq Let_def g_def h_def)
  have lh: "length h = 20" using assms by (simp add: h_def ipv4_header0_length)
  have lg: "length g = 20" using lh by (simp add: g_def)
  note f = nth_header0 [of src dst proto "20 + length l4", folded h_def, OF assms(1,2)]
  show "length p = 20 + length l4" "drop 20 p = l4" using lg by (simp_all add: p)
  show "p ! 0 = 0x45" "p ! 9 = proto"
    using lg lh f by (simp_all add: p nth_append g_def nth_put)
  show "get16 2 p = word_of_nat (20 + length l4)"
    using lg lh f(3) by (simp add: p get16_def nth_append g_def nth_put)
  show "cut 12 16 p = src" "cut 16 20 p = dst"
    using lg lh f by (simp_all add: p cut_append_left g_def cut_put_disjoint)
  show "checksum (take 20 p) = 0"
    using lg lh f checksum_fill [of 10 h] by (simp add: p g_def)
qed

lemma ipv4_packet_parses:
  fixes src dst l4 :: bytes and proto :: u8
  assumes "length src = 4" "length dst = 4" "20 + length l4 < 65536"
  defines "p \<equiv> ipv4_packet src dst proto l4"
  shows "drop_bit 4 (p ! 0) = 4" "ip_ihl p = 20" "unat (get16 2 p) = 20 + length l4" "p \<noteq> []"
proof -
  note f = ipv4_packet_fields [OF assms(1,2), of proto l4, folded p_def]
  show "drop_bit 4 (p ! 0) = 4" "ip_ihl p = 20" by (simp_all add: f ip_ihl_def)
  show "unat (get16 2 p) = 20 + length l4" unfolding f using assms(3) by (rule unat_word16)
  show "p \<noteq> []" using f(1) by auto
qed

lemma l4_checksum_fill:
  assumes "length src = 4" "length dst = 4" "even i" "i + 2 \<le> length t" "length t < 131000"
    "t ! i = 0" "t ! (i + 1) = 0"
  shows "l4_checksum src dst proto (put i (be16 (l4_checksum src dst proto t)) t) = 0"
proof -
  define ph where "ph = pseudo_header4 src dst proto (length t)"
  have lph: "length ph = 12" using assms by (simp add: ph_def pseudo_header4_eq)
  have c: "l4_checksum src dst proto u = checksum (ph @ u)" if "length u = length t" for u
    using that lph by (simp add: l4_checksum_def checksum_def sum16_append ph_def)
  have "ph @ put i w t = put (12 + i) w (ph @ t)" for w
    using lph by (simp add: put_def)
  with assms lph show ?thesis
    using checksum_fill [of "12 + i" "ph @ t"] by (simp add: c nth_append)
qed

lemma tcp_segment_fields:
  fixes src dst payload :: bytes and sport dport :: u16 and sq ack :: u32 and flags :: u8
  defines "t \<equiv> tcp_segment src dst sport dport sq ack flags payload"
  shows "length t = 20 + length payload" "get16 0 t = sport" "get16 2 t = dport" "get32 4 t = sq"
    "get32 8 t = ack" "t ! 12 = 0x50" "t ! 13 = flags" "get16 14 t = 64240" "drop 20 t = payload"
proof -
  define h where "h = tcp_header0 sport dport sq ack flags"
  define g where "g = put 16 (be16 (l4_checksum src dst PROTO_TCP (h @ payload))) h"
  have lh: "length h = 20" by (simp add: h_def tcp_header0_def)
  have t: "t = g @ payload" using lh by (simp add: t_def tcp_segment_eq Let_def put_append g_def flip: h_def)
  have lg: "length g = 20" using lh by (simp add: g_def)
  show "length t = 20 + length payload" "drop 20 t = payload" using lg by (simp_all add: t)
  have e: "t ! k = h ! k" if "k < 16" for k using that lh lg by (simp add: t nth_append g_def nth_put)
  have hs: "h ! 12 = 0x50" "h ! 13 = flags" "get16 0 h = sport" "get16 2 h = dport" "get32 4 h = sq"
    "get32 8 h = ack"
    by (simp_all add: h_def tcp_header0_def get16_def get32_def be16_def be32_def nth_append)
  have "get16 14 h = 64240"
    by (simp add: h_def tcp_header0_def get16_def be16_def be32_def nth_append of_be16_def)
  with hs show "t ! 12 = 0x50" "t ! 13 = flags" "get16 0 t = sport" "get16 2 t = dport" "get32 4 t = sq"
    "get32 8 t = ack" "get16 14 t = 64240"
    by (simp_all add: e get16_def get32_def)
qed


section \<open>Pinging out\<close>

lemma echo_request_reply:
  fixes src dst payload :: bytes and ident sq :: u16
  assumes "length src = 4" "length dst = 4" "28 + length payload < 65536"
  defines "p \<equiv> icmp_echo_request src dst ident sq payload"
  shows "\<exists>r. echo_reply p = Some r \<and> cut 12 16 r = dst \<and> cut 16 20 r = src
           \<and> drop 24 r = be16 ident @ be16 sq @ payload
           \<and> checksum (take 20 p) = 0 \<and> checksum (drop 20 p) = 0
           \<and> checksum (take 20 r) = 0 \<and> checksum (drop 20 r) = 0"
proof -
  define b where "b = [8, 0, 0, 0] @ be16 ident @ be16 sq @ payload"
  define icmp where "icmp = put 2 (be16 (checksum b)) b"
  have l: "length b = 8 + length payload" "length icmp = 8 + length payload"
    by (simp_all add: b_def icmp_def)
  have p: "p = ipv4_packet src dst PROTO_ICMP icmp"
    by (simp add: p_def icmp_echo_request_def Let_def icmp_def b_def)
  have sm: "20 + length icmp < 65536" using assms l by simp
  note f = ipv4_packet_fields [OF assms(1,2), of PROTO_ICMP icmp, folded p]
  note q = ipv4_packet_parses [OF assms(1,2) sm, of PROTO_ICMP, folded p]
  have "p ! 20 = icmp ! 0"
    using f(1) l nth_drop [of 20 p 0] by (simp add: f(7))
  then have ty: "p ! 20 = ICMP_ECHO_REQUEST"
    by (simp add: icmp_def nth_put b_def ICMP_ECHO_REQUEST_def)
  obtain r where r: "echo_reply p = Some r"
    using f q l ty by (simp add: echo_reply_Some)
  have c: "checksum icmp = 0"
    unfolding icmp_def by (rule checksum_fill) (use assms l in \<open>simp_all add: b_def\<close>)
  have "drop 24 p = be16 ident @ be16 sq @ payload"
  proof -
    have "drop 24 p = drop 4 (drop 20 p)" by simp
    then show ?thesis using f(7) l by (simp add: icmp_def drop_put_before) (simp add: b_def)
  qed
  moreover have "cut 24 (20 + length icmp) p = drop 24 p" using f(1) by (simp add: cut_to_end)
  ultimately show ?thesis
    using echo_reply_correct [OF r] r q f c
    by (simp add: v4_reply_of_def Let_def)
qed

text \<open>
  An echo request the device sends is a packet whose checksums verify, and a device that
  receives it answers with a packet to the sender that repeats the identifier, the sequence
  number and the payload and whose checksums verify.
\<close>

theorem icmp_echo_request_answered:
  fixes src dst payload :: bytes and ident sq :: u16
  assumes "length src = 4" "length dst = 4" "28 + length payload < 65536"
  shows "\<exists>r. echo_reply (icmp_echo_request src dst ident sq payload) = Some r \<and> cut 12 16 r = dst \<and> cut 16 20 r = src
           \<and> drop 24 r = be16 ident @ be16 sq @ payload
           \<and> checksum (take 20 (icmp_echo_request src dst ident sq payload)) = 0 \<and> checksum (drop 20 (icmp_echo_request src dst ident sq payload)) = 0
           \<and> checksum (take 20 r) = 0 \<and> checksum (drop 20 r) = 0"
  using assms by (rule echo_request_reply)

theorem icmp_echo_request_answered_witness:
  "\<exists>r. echo_reply (icmp_echo_request [10, 0, 0, 1] [10, 0, 0, 2] 7 1 [104, 105]) = Some r
       \<and> cut 12 16 r = [10, 0, 0, 2]"
  using icmp_echo_request_answered [of "[10, 0, 0, 1]" "[10, 0, 0, 2]" "[104, 105]" 7 1] by auto

section \<open>Segments\<close>

text \<open>A segment of the stack, wrapped in its packet.\<close>

definition tcp_packet ::
  "bytes \<Rightarrow> bytes \<Rightarrow> u16 \<Rightarrow> u16 \<Rightarrow> u32 \<Rightarrow> u32 \<Rightarrow> u8 \<Rightarrow> bytes \<Rightarrow> bytes"
where
  "tcp_packet src dst sport dport sq ack flags payload =
     ipv4_packet src dst PROTO_TCP (tcp_segment src dst sport dport sq ack flags payload)"

lemma tcp_packet_fields:
  fixes src dst payload :: bytes and sport dport :: u16 and sq ack :: u32 and flags :: u8
  assumes "length src = 4" "length dst = 4" "40 + length payload < 65536"
  defines "p \<equiv> tcp_packet src dst sport dport sq ack flags payload"
  shows "length p = 40 + length payload" "drop_bit 4 (p ! 0) = 4" "p ! 9 = PROTO_TCP" "ip_ihl p = 20"
    "unat (get16 2 p) = 40 + length payload" "cut 12 16 p = src" "cut 16 20 p = dst"
    "cut 20 (40 + length payload) p = tcp_segment src dst sport dport sq ack flags payload"
    "get16 22 p = dport" "checksum (take 20 p) = 0"
proof -
  define t where "t = tcp_segment src dst sport dport sq ack flags payload"
  note tf = tcp_segment_fields [of src dst sport dport sq ack flags payload, folded t_def]
  have p: "p = ipv4_packet src dst PROTO_TCP t" by (simp add: p_def tcp_packet_def t_def)
  have sm: "20 + length t < 65536" using tf(1) assms(3) by simp
  note f = ipv4_packet_fields [OF assms(1,2), of PROTO_TCP t, folded p]
  note q = ipv4_packet_parses [OF assms(1,2) sm, of PROTO_TCP, folded p]
  show "length p = 40 + length payload" "drop_bit 4 (p ! 0) = 4" "p ! 9 = PROTO_TCP" "ip_ihl p = 20"
    "unat (get16 2 p) = 40 + length payload" "cut 12 16 p = src" "cut 16 20 p = dst" "checksum (take 20 p) = 0"
    using f q tf(1) by simp_all
  show "cut 20 (40 + length payload) p = tcp_segment src dst sport dport sq ack flags payload"
    using f(1,7) tf(1) by (simp add: cut_to_end t_def)
  have "p ! (20 + k) = t ! k" if "k < 20" for k
    using f(1) tf(1) that nth_drop [of 20 p k] by (simp add: f(7))
  from this [of 2] this [of 3] show "get16 22 p = dport"
    using tf(3) by (simp add: get16_def)
qed

lemma client_parse_packet:
  fixes src dst payload :: bytes and sport dport :: u16 and sq ack :: u32 and flags :: u8
  assumes "length src = 4" "length dst = 4" "40 + length payload < 65536"
  shows "client_parse (tcp_packet src dst sport dport sq ack flags payload) = Some (sq, flags, payload)"
  using tcp_packet_fields [OF assms, of sport dport sq ack flags]
    tcp_segment_fields [of src dst sport dport sq ack flags payload]
  by (simp add: client_parse_def Let_def)

lemma on_inner_packet:
  fixes src dst payload :: bytes and sport dport :: u16 and sq ack :: u32 and flags :: u8
  assumes "length src = 4" "length dst = 4" "40 + length payload < 65536"
  shows "on_inner (tcp_packet src dst sport dport sq ack flags payload) c =
     (if dport \<noteq> c_sport c \<or> c_done c then ([], c) else client_segment_in sq flags payload c)"
proof -
  have "owns c (tcp_packet src dst sport dport sq ack flags payload) \<longleftrightarrow> dport = c_sport c"
    using tcp_packet_fields [OF assms, of sport dport sq ack flags] by (simp add: owns_def)
  then show ?thesis using client_parse_packet [OF assms] by (auto simp: on_inner_def)
qed

text \<open>
  Every TCP segment and every UDP datagram the device builds verifies at the receiver:
  the checksum of its IP header is correct, and so is that of the pseudo-header and the
  segment.
\<close>

theorem built_packets_verify:
  assumes "length src = 4" "length dst = 4" "40 + length payload < 65536"
  shows "checksum (take 20 (tcp_packet src dst sport dport sq ack flags payload)) = 0
       \<and> l4_checksum src dst PROTO_TCP (drop 20 (tcp_packet src dst sport dport sq ack flags payload)) = 0
       \<and> checksum (take 20 (udp_datagram src dst sport dport payload)) = 0
       \<and> l4_checksum src dst PROTO_UDP (drop 20 (udp_datagram src dst sport dport payload)) = 0"
proof -
  define t where "t = tcp_header0 sport dport sq ack flags @ payload"
  have lt: "length t = 20 + length payload" by (simp add: t_def tcp_header0_def)
  have zt: "t ! 16 = 0" "t ! 17 = 0"
    by (simp_all add: t_def tcp_header0_def be16_def be32_def)
  have "l4_checksum src dst PROTO_TCP (tcp_segment src dst sport dport sq ack flags payload) = 0"
    unfolding tcp_segment_eq Let_def t_def [symmetric]
    by (rule l4_checksum_fill) (use assms lt zt in simp_all)
  moreover define u where
    "u = be16 sport @ be16 dport @ be16 (word_of_nat (8 + length payload)) @ [0, 0] @ payload"
  have "length u = 8 + length payload" "u ! 6 = 0" "u ! 7 = 0" by (simp_all add: u_def be16_def)
  then have "l4_checksum src dst PROTO_UDP (put 6 (be16 (l4_checksum src dst PROTO_UDP u)) u) = 0"
    by (intro l4_checksum_fill) (use assms in simp_all)
  ultimately show ?thesis
    using ipv4_packet_fields(7,8) [OF assms(1,2)]
    by (simp add: tcp_packet_def udp_datagram_def Let_def u_def)
qed

theorem built_packets_verify_witness:
  "checksum (take 20 (udp_datagram [10, 0, 0, 1] [10, 0, 0, 2] 5353 5353 [1, 2, 3])) = 0"
  using built_packets_verify [of "[10, 0, 0, 1]" "[10, 0, 0, 2]" "[1, 2, 3]" 5353 5353 0 0 0] by simp

section \<open>What the client has read\<close>

text \<open>
  A server that sends the bytes \<open>R\<close> from the initial sequence number \<open>irs\<close>: every segment
  with a payload is a piece of \<open>R\<close> at its offset, whatever was lost, repeated or reordered.
\<close>

definition piece_of :: "bytes \<Rightarrow> u32 \<Rightarrow> u32 \<Rightarrow> bytes \<Rightarrow> bool" where
  "piece_of R irs sq payload \<longleftrightarrow> payload = [] \<or>
     (\<exists>k. k + length payload \<le> length R \<and> sq = irs + 1 + word_of_nat k
        \<and> payload = take (length payload) (drop k R))"

definition sends_pieces :: "bytes \<Rightarrow> u32 \<Rightarrow> bytes \<Rightarrow> bool" where
  "sends_pieces R irs inner \<longleftrightarrow>
     (case client_parse inner of None \<Rightarrow> True | Some (sq, flags, payload) \<Rightarrow> piece_of R irs sq payload)"

text \<open>The invariant: what has been read is the start of \<open>R\<close>, and the next byte is expected.\<close>

definition reads_prefix :: "bytes \<Rightarrow> u32 \<Rightarrow> tcp_client \<Rightarrow> bool" where
  "reads_prefix R irs c \<longleftrightarrow> c_established c
     \<and> length (c_response c) \<le> length R \<and> c_response c = take (length (c_response c)) R
     \<and> (\<not> c_done c \<longrightarrow> c_rcv_nxt c = irs + 1 + word_of_nat (length (c_response c)))"

lemma unat_word32: "n < 2 ^ 32 \<Longrightarrow> unat (word_of_nat n :: u32) = n"
  by (simp add: unsigned_of_nat take_bit_eq_mod)

lemma word32_inj: "(word_of_nat m :: u32) = word_of_nat n \<Longrightarrow> m < 2 ^ 32 \<Longrightarrow> n < 2 ^ 32 \<Longrightarrow> m = n"
  by (metis unat_word32)

lemma client_data_reads:
  assumes "reads_prefix R irs c" "\<not> c_done c" "piece_of R irs sq payload" "length R < 2 ^ 32"
  shows "reads_prefix R irs (snd (client_data sq payload c))"
    "c_done (snd (client_data sq payload c)) = c_done c"
proof -
  show "c_done (snd (client_data sq payload c)) = c_done c"
    by (simp add: client_data_def Let_def)
  show "reads_prefix R irs (snd (client_data sq payload c))"
  proof (cases "payload \<noteq> [] \<and> sq = c_rcv_nxt c")
    case True
    then obtain k where k: "k + length payload \<le> length R" "sq = irs + 1 + word_of_nat k"
        "payload = take (length payload) (drop k R)"
      using assms(3) by (auto simp: piece_of_def)
    define n where "n = length (c_response c)"
    from assms(1,2) True have c: "c_established c" "c_rcv_nxt c = irs + 1 + word_of_nat n"
        "n \<le> length R" "c_response c = take n R"
      by (auto simp: reads_prefix_def n_def)
    have "(word_of_nat k :: u32) = word_of_nat n" using True k(2) c(2) by simp
    then have "k = n" using k(1) c(3) assms(4) by (intro word32_inj) simp_all
    then have "c_response c @ payload = take (n + length payload) R"
      using k(3) c(4) by (simp add: take_add)
    with True k c assms(2) \<open>k = n\<close> show ?thesis
      by (simp add: reads_prefix_def client_data_def Let_def min_def add.assoc)
  qed (use assms in \<open>auto simp: client_data_def reads_prefix_def Let_def\<close>)
qed

lemma client_fin_reads:
  "reads_prefix R irs c \<Longrightarrow> reads_prefix R irs (snd (client_fin flags c))"
  by (simp add: client_fin_def Let_def reads_prefix_def)

lemma on_inner_reads:
  assumes "reads_prefix R irs c" "sends_pieces R irs inner" "length R < 2 ^ 32"
  shows "reads_prefix R irs (snd (on_inner inner c))"
proof (cases "\<not> owns c inner \<or> c_done c \<or> client_parse inner = None")
  case False
  then obtain sq flags payload where s: "client_parse inner = Some (sq, flags, payload)"
      "owns c inner" "\<not> c_done c" by auto
  with assms(2) have p: "piece_of R irs sq payload" by (simp add: sends_pieces_def)
  have e: "c_established c" using assms(1) by (simp add: reads_prefix_def)
  have "on_inner inner c = client_segment_in sq flags payload c" using s by (simp add: on_inner_def)
  moreover have "reads_prefix R irs (snd (client_segment_in sq flags payload c))"
    using client_fin_reads client_data_reads [OF assms(1) s(3) p assms(3)] e
    by (simp add: client_segment_in_def split_beta)
  ultimately show ?thesis by simp
qed (use assms in \<open>auto simp: on_inner_def\<close>)

lemma client_run_reads:
  "reads_prefix R irs c \<Longrightarrow> list_all (sends_pieces R irs) packets \<Longrightarrow> length R < 2 ^ 32 \<Longrightarrow>
   reads_prefix R irs (snd (client_run packets c))"
proof (induction packets arbitrary: c)
  case (Cons p ps)
  then show ?case using on_inner_reads [of R irs c p] by (simp add: split_beta)
qed simp

text \<open>
  Whatever packets of a server that sends \<open>R\<close> reach an established client, in
  whatever order, repeated or lost, what the client has stored as the response is the start
  of \<open>R\<close>, and it expects the byte that follows.
\<close>

theorem client_reads_prefix:
  "reads_prefix R irs c \<Longrightarrow> list_all (sends_pieces R irs) packets \<Longrightarrow> length R < 2 ^ 32 \<Longrightarrow>
   reads_prefix R irs (snd (client_run packets c))"
  by (rule client_run_reads)

text \<open>The handshake establishes the invariant.\<close>

lemma client_handshake:
  assumes "\<not> c_established c" "\<not> c_done c" "flags AND SYN \<noteq> 0" "flags AND ACK \<noteq> 0" "c_response c = []"
  shows "reads_prefix R irs (snd (client_segment_in irs flags payload c))"
  using assms by (simp add: client_segment_in_def reads_prefix_def Let_def)

section \<open>In-order delivery\<close>

definition server_says :: "tcp_client \<Rightarrow> u32 \<Rightarrow> u32 \<Rightarrow> u8 \<Rightarrow> bytes \<Rightarrow> bytes" where
  "server_says c sq ack flags payload =
     tcp_packet (c_dst c) (c_src c) (c_dport c) (c_sport c) sq ack flags payload"

fun in_order :: "tcp_client \<Rightarrow> u32 \<Rightarrow> u32 \<Rightarrow> bytes list \<Rightarrow> bytes list" where
  "in_order c ack sq [] = [server_says c sq ack (FIN OR ACK) []]"
| "in_order c ack sq (x # xs) =
     server_says c sq ack (PSH OR ACK) x # in_order c ack (sq + word_of_nat (length x)) xs"

lemma flag_tests [simp]:
  "(PSH OR ACK) AND FIN = 0" "(PSH OR ACK) AND SYN = 0" "(FIN OR ACK) AND FIN \<noteq> 0" "(FIN OR ACK) AND SYN = 0"
  "(SYN OR ACK) AND SYN \<noteq> 0" "(SYN OR ACK) AND ACK \<noteq> 0"
  "FIN \<noteq> 0" "SYN \<noteq> 0" "ACK \<noteq> 0" "PSH \<noteq> 0"
  by (simp_all add: tcp_flags)

text \<open>
  Segments that arrive in order are reassembled: after the segments of any chunks and a
  final FIN, the client is done and its response has grown by the chunks.
\<close>

theorem in_order_delivery:
  fixes c :: tcp_client
  assumes "length (c_src c) = 4" "length (c_dst c) = 4" "c_established c" "\<not> c_done c"
    and "\<forall>x\<in>set chunks. 40 + length x < 65536"
  shows "c_response (snd (client_run (in_order c ack (c_rcv_nxt c) chunks) c)) = c_response c @ concat chunks
       \<and> c_done (snd (client_run (in_order c ack (c_rcv_nxt c) chunks) c))"
  using assms
proof (induction chunks arbitrary: c)
  case Nil
  then have "on_inner (server_says c (c_rcv_nxt c) ack (FIN OR ACK) []) c = 
     client_segment_in (c_rcv_nxt c) (FIN OR ACK) [] c"
    by (simp add: server_says_def on_inner_packet)
  then show ?case using Nil
    by (simp add: client_segment_in_def client_data_def client_fin_def Let_def split_beta)
next
  case (Cons x xs)
  define d where "d = snd (client_data (c_rcv_nxt c) x c)"
  have eq: "in_order c ack sq xs = in_order d ack sq xs" for sq
  proof -
    have "c_src d = c_src c" "c_dst d = c_dst c" "c_sport d = c_sport c" "c_dport d = c_dport c"
      by (simp_all add: d_def client_data_def Let_def)
    then show ?thesis by (induction xs arbitrary: sq) (simp_all add: server_says_def)
  qed
  have "on_inner (server_says c (c_rcv_nxt c) ack (PSH OR ACK) x) c = client_segment_in (c_rcv_nxt c) (PSH OR ACK) x c"
    using Cons.prems by (simp add: server_says_def on_inner_packet)
  then have 1: "snd (on_inner (server_says c (c_rcv_nxt c) ack (PSH OR ACK) x) c) = d"
    by (simp add: client_segment_in_def client_fin_def d_def split_beta)
  have d: "length (c_src d) = 4" "length (c_dst d) = 4" "c_established d" "\<not> c_done d"
      "c_rcv_nxt d = c_rcv_nxt c + word_of_nat (length x)" "c_response d = c_response c @ x"
    using Cons.prems by (simp_all add: d_def client_data_def Let_def)
  have "\<forall>x\<in>set xs. 40 + length x < 65536" using Cons.prems(5) by simp
  from Cons.IH [OF d(1-4) this] show ?case
    by (simp add: split_beta 1 eq d(5) [symmetric]) (simp add: d(6))
qed


text \<open>
  The client takes a FIN without looking at its sequence number: one that overtakes the
  data, or follows a lost segment, ends the transfer with the response as it is.
\<close>

theorem early_fin_truncates:
  assumes "length (c_src c) = 4" "length (c_dst c) = 4" "c_established c" "\<not> c_done c"
  shows "c_done (snd (on_inner (server_says c sq ack (FIN OR ACK) []) c))
       \<and> c_response (snd (on_inner (server_says c sq ack (FIN OR ACK) []) c)) = c_response c"
  using assms
  by (simp add: server_says_def on_inner_packet client_segment_in_def client_data_def client_fin_def
      Let_def split_beta)

definition sample_client :: tcp_client where
  "sample_client = \<lparr>c_src = [10, 0, 0, 1], c_dst = [10, 0, 0, 2], c_sport = 40000, c_dport = 80,
     c_snd_nxt = 1, c_rcv_nxt = 1001, c_request = [], c_response = [], c_done = False,
     c_established = True\<rparr>"

lemma sample_client_sel [simp]:
  "c_src sample_client = [10, 0, 0, 1]" "c_dst sample_client = [10, 0, 0, 2]"
  "c_established sample_client" "\<not> c_done sample_client" "c_response sample_client = []"
  "c_rcv_nxt sample_client = 1001"
  by (simp_all add: sample_client_def)

theorem early_fin_truncates_witness:
  "c_done (snd (on_inner (server_says sample_client 1006 1 (FIN OR ACK) []) sample_client))
   \<and> c_response (snd (on_inner (server_says sample_client 1006 1 (FIN OR ACK) []) sample_client)) = []"
  using early_fin_truncates [of sample_client 1006 1] by simp

theorem in_order_delivery_witness:
  "c_response (snd (client_run (in_order sample_client 1 1001 [[104, 101], [108, 108, 111]]) sample_client))
     = [104, 101, 108, 108, 111]"
  using in_order_delivery [of sample_client "[[104, 101], [108, 108, 111]]" 1] by simp

theorem client_reads_prefix_witness:
  "reads_prefix [104, 101] 1000 (snd (client_run [server_says sample_client 1006 1 (FIN OR ACK) []] sample_client))"
proof -
  have "client_parse (server_says sample_client 1006 1 (FIN OR ACK) []) = Some (1006, FIN OR ACK, [])"
    by (simp add: server_says_def client_parse_packet)
  then show ?thesis
    by (intro client_reads_prefix) (simp_all add: reads_prefix_def sends_pieces_def piece_of_def)
qed

end
