(* ===== verification/TcpServer.thy ===== *)
theory TcpServer
  imports Http Outbound
begin

text \<open>
  The server half of \<open>core/src/tcp.rs\<close>: one connection at a time, responses streamed from a
  re-readable body with a send window and go-back-N retransmission. A call returns the
  packets it hands to \<open>send\<close>, in order, with the new state; \<open>None\<close> is a call that never
  returns (the loop of \<open>pump\<close>). The random initial sequence number is an argument.
\<close>

section \<open>State\<close>

definition HTTP_PORT :: u16 where "HTTP_PORT = 80"
definition MSS :: nat where "MSS = 512"
definition CWND :: nat where "CWND = 4 * MSS"
definition RTO_BASE_MS :: u32 where "RTO_BASE_MS = 1000"
definition RTO_MAX_MS :: u32 where "RTO_MAX_MS = 8000"
definition MAX_CONN_MS :: u64 where "MAX_CONN_MS = 30000"
definition MAX_RTO_ATTEMPTS :: u8 where "MAX_RTO_ATTEMPTS = 8"

type_synonym route_fn = "string \<Rightarrow> string \<Rightarrow> string \<Rightarrow> bytes \<Rightarrow> http_reply option"

record resp_state =
  headers :: bytes
  hdr_len :: nat
  resp_source :: body_source
  body_base :: nat
  total_len :: nat
  fin_sent :: bool

record conn =
  active :: bool
  client_ip :: bytes
  our_ip :: bytes
  client_port :: u16
  rcv_nxt :: u32
  iss :: u32
  snd_una :: u32
  snd_nxt :: u32
  peer_win :: u32
  rto_ms :: u32
  rto_attempts :: u8
  last_send_ms :: u64
  opened_ms :: u64
  resp :: "resp_state option"

definition default_conn :: conn where
  "default_conn = \<lparr>active = False, client_ip = [0, 0, 0, 0], our_ip = [0, 0, 0, 0], client_port = 0,
     rcv_nxt = 0, iss = 0, snd_una = 0, snd_nxt = 0, peer_win = 0, rto_ms = 0, rto_attempts = 0,
     last_send_ms = 0, opened_ms = 0, resp = None\<rparr>"

record tcp_server =
  sv_conn :: conn
  sv_action :: "tcp_action option"
  sv_handler :: "route_fn option"

definition server_new :: tcp_server where
  "server_new = \<lparr>sv_conn = default_conn, sv_action = None, sv_handler = None\<rparr>"

definition with_handler :: "route_fn \<Rightarrow> tcp_server" where
  "with_handler h = \<lparr>sv_conn = default_conn, sv_action = None, sv_handler = Some h\<rparr>"

definition take_action :: "tcp_server \<Rightarrow> tcp_action option \<times> tcp_server" where
  "take_action s = (sv_action s, s\<lparr>sv_action := None\<rparr>)"

section \<open>Segments\<close>

definition srv_segment :: "conn \<Rightarrow> u8 \<Rightarrow> bytes \<Rightarrow> bytes" where
  "srv_segment c flags payload =
     (let tcp_len = 20 + length payload;
          total = 20 + tcp_len;
          pkt = replicate total 0;
          pkt = pkt[0 := 0x45];
          pkt = put 2 (be16 (word_of_nat total)) pkt;
          pkt = pkt[6 := 0x40, 8 := 64, 9 := PROTO_TCP];
          pkt = put 16 (client_ip c) (put 12 (our_ip c) pkt);
          ipsum = checksum (take 20 pkt);
          pkt = put 10 (be16 ipsum) pkt;
          t = drop 20 pkt;
          t = put 2 (be16 (client_port c)) (put 0 (be16 HTTP_PORT) t);
          t = put 8 (be32 (rcv_nxt c)) (put 4 (be32 (snd_nxt c)) t);
          t = t[12 := push_bit 4 5, 13 := flags];
          t = put 20 payload (put 14 (be16 64240) t);
          pkt = put 20 t pkt;
          tsum = l4_checksum (our_ip c) (client_ip c) PROTO_TCP (drop 20 pkt)
      in put 36 (be16 tsum) pkt)"

text \<open>\<open>(a - b) as i32 < 0\<close>: the serial number comparison of RFC 1982.\<close>

definition seq_lt :: "u32 \<Rightarrow> u32 \<Rightarrow> bool" where
  "seq_lt a b \<longleftrightarrow> sint (a - b) < 0"

section \<open>The response\<close>

definition send_window :: "conn \<Rightarrow> nat" where
  "send_window c = min (unat (peer_win c)) CWND"

definition resp_total :: "conn \<Rightarrow> nat" where
  "resp_total c = (case resp c of None \<Rightarrow> 0 | Some r \<Rightarrow> total_len r)"

definition clamp_bytes :: "nat \<Rightarrow> u32 \<Rightarrow> nat" where
  "clamp_bytes hi raw = nat (max 0 (min (sint raw) (int hi)))"

definition acked_bytes :: "conn \<Rightarrow> nat" where
  "acked_bytes c = clamp_bytes (resp_total c) (snd_una c - iss c - 1)"

definition sent_bytes :: "conn \<Rightarrow> nat" where
  "sent_bytes c = clamp_bytes (resp_total c) (snd_nxt c - iss c - 1)"

text \<open>The bytes of \<open>[headers][body]\<close> at an absolute offset, as many as the buffer takes.\<close>

definition read_response :: "resp_state \<Rightarrow> nat \<Rightarrow> nat \<Rightarrow> bytes" where
  "read_response r start room =
     (let (out, pos) =
            (if start < hdr_len r
             then let n = min (hdr_len r - start) room in (cut start (start + n) (headers r), start + n)
             else ([], start))
      in if start < hdr_len r \<and> length out = room then out
         else if pos \<ge> hdr_len r \<and> pos < total_len r
         then out @ body_read_at (resp_source r) (body_base r + (pos - hdr_len r)) (room - length out)
         else out)"

partial_function (option) pump_loop ::
  "u64 \<Rightarrow> nat \<Rightarrow> resp_state \<Rightarrow> conn \<Rightarrow> (bytes list \<times> conn) option"
where
  "pump_loop now window r c =
     (let edge = min (acked_bytes c + window) (total_len r); nxt = sent_bytes c in
      if nxt \<ge> edge then Some ([], c)
      else
       (let want = min (edge - nxt) MSS; chunk = read_response r nxt want in
        if chunk = [] then Some ([], c)
        else
         (let is_last = nxt + length chunk \<ge> total_len r;
              f = (if is_last then PSH OR ACK OR FIN else PSH OR ACK);
              seg = srv_segment c f chunk;
              c = c\<lparr>snd_nxt := snd_nxt c + word_of_nat (length chunk), last_send_ms := now\<rparr>
          in if is_last
             then Some ([seg], c\<lparr>snd_nxt := snd_nxt c + 1, resp := Some (r\<lparr>fin_sent := True\<rparr>)\<rparr>)
             else Option.bind (pump_loop now window r c) (\<lambda>(out, c). Some (seg # out, c)))))"

definition pump :: "u64 \<Rightarrow> nat \<Rightarrow> conn \<Rightarrow> (bytes list \<times> conn) option" where
  "pump now window c = (case resp c of None \<Rightarrow> Some ([], c) | Some r \<Rightarrow> pump_loop now window r c)"

text \<open>
  Routing: the installed handler first, the control panel when it has no answer, whose action
  replaces the pending one.
\<close>

definition route_request :: "bytes \<Rightarrow> tcp_server \<Rightarrow> http_reply \<times> tcp_server" where
  "route_request req s =
     (let parts = split_on CHR '' '' (first_line req);
          http_method = hd parts;
          target = (case tl parts of [] \<Rightarrow> ''/'' | p # _ \<Rightarrow> p);
          (path, query) = (case split_once CHR ''?'' target of Some (p, q) \<Rightarrow> (p, q) | None \<Rightarrow> (target, []));
          handled = Option.bind (sv_handler s) (\<lambda>h. h http_method path query (http_body req))
      in case handled of
           Some r \<Rightarrow> (r, s)
         | None \<Rightarrow>
            (let (page, act) = builtin_route path query (our_ip (sv_conn s))
             in (ok_owned ''text/html; charset=utf-8'' page, s\<lparr>sv_action := act\<rparr>)))"

definition response_for :: "target \<Rightarrow> bytes \<Rightarrow> http_reply \<Rightarrow> resp_state" where
  "response_for t req reply =
     (let total_body = body_total_len (rp_source reply);
          (status, base, content_len) = (case parse_range t req total_body of
             Ok None \<Rightarrow> (rp_status reply, 0, total_body)
           | Ok (Some (a, b)) \<Rightarrow> (206, a, b - a + 1)
           | _ \<Rightarrow> (416, 0, 0));
          hs = render_headers t status (rp_content_type reply) base content_len total_body
                 (rp_cache_control reply)
      in \<lparr>headers = hs, hdr_len = length hs, resp_source = rp_source reply, body_base = base,
          total_len = length hs + content_len, fin_sent = False\<rparr>)"

definition build_response :: "target \<Rightarrow> bytes \<Rightarrow> tcp_server \<Rightarrow> tcp_server" where
  "build_response t req s =
     (let (reply, s) = route_request req s
      in s\<lparr>sv_conn := (sv_conn s)\<lparr>resp := Some (response_for t req reply)\<rparr>\<rparr>)"

section \<open>Packets in\<close>

record segment_in =
  in_src_ip :: bytes
  in_dst_ip :: bytes
  in_sport :: u16
  in_seq :: u32
  in_ack :: u32
  in_flags :: u8
  in_win :: u32
  in_payload :: bytes

definition srv_parse :: "bytes \<Rightarrow> segment_in option" where
  "srv_parse inner =
     (if length inner < 20 \<or> drop_bit 4 (inner ! 0) \<noteq> 4 \<or> inner ! 9 \<noteq> PROTO_TCP then None else
      let ihl = ip_ihl inner; total = unat (get16 2 inner) in
      if ihl < 20 \<or> total < ihl + 20 \<or> total > length inner then None else
      let tcp = cut ihl total inner;
          data_off = unat (drop_bit 4 (tcp ! 12)) * 4 in
      if data_off < 20 \<or> data_off > length tcp then None
      else if get16 2 tcp \<noteq> HTTP_PORT then None
      else Some \<lparr>in_src_ip = cut 12 16 inner, in_dst_ip = cut 16 20 inner, in_sport = get16 0 tcp,
                 in_seq = get32 4 tcp, in_ack = get32 8 tcp, in_flags = tcp ! 13,
                 in_win = ucast (get16 14 tcp), in_payload = drop data_off tcp\<rparr>)"

definition accept_syn :: "u32 \<Rightarrow> u64 \<Rightarrow> segment_in \<Rightarrow> bytes \<times> conn" where
  "accept_syn rand now p =
     (let c = default_conn\<lparr>active := True, client_ip := in_src_ip p, our_ip := in_dst_ip p,
            client_port := in_sport p, rcv_nxt := in_seq p + 1, iss := rand, snd_una := rand,
            snd_nxt := rand, peer_win := in_win p, rto_ms := RTO_BASE_MS, opened_ms := now\<rparr>
      in (srv_segment c (SYN OR ACK) [], c\<lparr>snd_nxt := snd_nxt c + 1\<rparr>))"

definition process_ack :: "segment_in \<Rightarrow> conn \<Rightarrow> conn" where
  "process_ack p c =
     (if in_flags p AND ACK = 0 then c else
      let c = c\<lparr>peer_win := in_win p\<rparr> in
      if seq_lt (snd_una c) (in_ack p) \<and> \<not> seq_lt (snd_nxt c) (in_ack p) then
       (let c = c\<lparr>snd_una := in_ack p, rto_ms := RTO_BASE_MS, rto_attempts := 0\<rparr> in
        case resp c of
          Some r \<Rightarrow> if fin_sent r \<and> snd_una c = snd_nxt c then c\<lparr>resp := None\<rparr> else c
        | None \<Rightarrow> c)
      else c)"

text \<open>\<open>blast\<close> is the whole \<open>usize\<close> range: no response is longer.\<close>

definition process_window :: "target \<Rightarrow> bool \<Rightarrow> conn \<Rightarrow> nat" where
  "process_window t blast c = (if blast then usize_max t else send_window c)"

definition pump_server :: "u64 \<Rightarrow> nat \<Rightarrow> tcp_server \<Rightarrow> (bytes list \<times> tcp_server) option" where
  "pump_server now window s =
     map_option (\<lambda>(out, c). (out, s\<lparr>sv_conn := c\<rparr>)) (pump now window (sv_conn s))"

definition process_segment ::
  "target \<Rightarrow> u64 \<Rightarrow> bool \<Rightarrow> segment_in \<Rightarrow> tcp_server \<Rightarrow> (bytes list \<times> tcp_server) option"
where
  "process_segment t now blast p s =
     (let s = s\<lparr>sv_conn := process_ack p (sv_conn s)\<rparr> in
      if in_payload p \<noteq> [] then
       (let s = s\<lparr>sv_conn := (sv_conn s)\<lparr>rcv_nxt := in_seq p + word_of_nat (length (in_payload p))\<rparr>\<rparr>;
            s = (if resp (sv_conn s) = None then build_response t (in_payload p) s else s)
        in pump_server now (process_window t blast (sv_conn s)) s)
      else if in_flags p AND FIN \<noteq> 0 then
       (let c = (sv_conn s)\<lparr>rcv_nxt := in_seq p + 1\<rparr>
        in Some ([srv_segment c ACK []], s\<lparr>sv_conn := default_conn\<rparr>))
      else pump_server now (process_window t blast (sv_conn s)) s)"

definition process ::
  "target \<Rightarrow> u32 \<Rightarrow> u64 \<Rightarrow> bool \<Rightarrow> bytes \<Rightarrow> tcp_server \<Rightarrow> (bytes list \<times> tcp_server) option"
where
  "process t rand now blast inner s = (case srv_parse inner of
     None \<Rightarrow> Some ([], s)
   | Some p \<Rightarrow>
       if in_flags p AND SYN \<noteq> 0 then
         (let (seg, c) = accept_syn rand now p in Some ([seg], s\<lparr>sv_conn := c\<rparr>))
       else if \<not> active (sv_conn s) \<or> in_src_ip p \<noteq> client_ip (sv_conn s)
               \<or> in_sport p \<noteq> client_port (sv_conn s) then Some ([], s)
       else if in_flags p AND RST \<noteq> 0 then Some ([], s\<lparr>sv_conn := default_conn\<rparr>)
       else process_segment t now blast p s)"

definition handle_stream ::
  "target \<Rightarrow> u32 \<Rightarrow> bytes \<Rightarrow> u64 \<Rightarrow> tcp_server \<Rightarrow> (bytes list \<times> tcp_server) option"
where
  "handle_stream t rand inner now s = process t rand now False inner s"

definition handle :: "target \<Rightarrow> u32 \<Rightarrow> bytes \<Rightarrow> tcp_server \<Rightarrow> (bytes list \<times> tcp_server) option" where
  "handle t rand inner s = process t rand 0 True inner s"

section \<open>Time\<close>

definition sat_sub :: "u64 \<Rightarrow> u64 \<Rightarrow> u64" where
  "sat_sub a b = (if a < b then 0 else a - b)"

definition sat_double :: "u32 \<Rightarrow> u32" where
  "sat_double a = (if unat a * 2 < 2 ^ 32 then a * 2 else - 1)"

definition sat_inc :: "u8 \<Rightarrow> u8" where
  "sat_inc a = (if a = 255 then 255 else a + 1)"

definition reset_with_rst :: "tcp_server \<Rightarrow> bytes list \<times> tcp_server" where
  "reset_with_rst s = ([srv_segment (sv_conn s) RST []], s\<lparr>sv_conn := default_conn\<rparr>)"

definition srv_tick :: "u64 \<Rightarrow> tcp_server \<Rightarrow> (bytes list \<times> tcp_server) option" where
  "srv_tick now s =
     (let c = sv_conn s in
      if \<not> active c then Some ([], s)
      else if sat_sub now (opened_ms c) > MAX_CONN_MS then Some (reset_with_rst s)
      else if resp c = None \<or> snd_una c = snd_nxt c then Some ([], s)
      else if sat_sub now (last_send_ms c) < ucast (rto_ms c) then Some ([], s)
      else
       (let c = c\<lparr>rto_attempts := sat_inc (rto_attempts c)\<rparr> in
        if rto_attempts c > MAX_RTO_ATTEMPTS then Some (reset_with_rst (s\<lparr>sv_conn := c\<rparr>))
        else
         (let c = c\<lparr>rto_ms := min (sat_double (rto_ms c)) RTO_MAX_MS, snd_nxt := snd_una c,
                resp := map_option (\<lambda>r. r\<lparr>fin_sent := False\<rparr>) (resp c)\<rparr>
          in pump_server now (max (send_window c) 1) (s\<lparr>sv_conn := c\<rparr>))))"

end
