(* ===== verification/Stun.thy ===== *)
theory Stun
  imports Bytes
begin

text \<open>
  \<open>core/src/stun.rs\<close>: the STUN binding request and the mapped address of a response. An IPv4
  socket address is its address and its port; the transaction id is the random argument.
\<close>

section \<open>Requests and responses\<close>

definition MAGIC_COOKIE :: u32 where "MAGIC_COOKIE = 0x2112A442"
definition BINDING_REQUEST :: u16 where "BINDING_REQUEST = 0x0001"
definition BINDING_RESPONSE :: u16 where "BINDING_RESPONSE = 0x0101"
definition ATTR_MAPPED_ADDRESS :: u16 where "ATTR_MAPPED_ADDRESS = 0x0001"
definition ATTR_XOR_MAPPED_ADDRESS :: u16 where "ATTR_XOR_MAPPED_ADDRESS = 0x0020"

type_synonym addr_v4 = "u32 \<times> u16"

datatype stun_error =
  StunShort nat | StunType u16 | StunCookie u32 | StunTxid | StunNoAddress

definition binding_request :: "bytes \<Rightarrow> bytes \<times> bytes" where
  "binding_request txid =
     (let req = replicate 20 0;
          req = put 0 (be16 BINDING_REQUEST) req;
          req = put 2 (be16 0) req;
          req = put 4 (be32 MAGIC_COOKIE) req;
          req = put 8 txid req
      in (req, txid))"

definition parse_xor_mapped :: "bytes \<Rightarrow> addr_v4 option" where
  "parse_xor_mapped val =
     (if length val < 8 \<or> val ! 1 \<noteq> 0x01 then None
      else Some (get32 4 val XOR MAGIC_COOKIE, get16 2 val XOR ucast (drop_bit 16 MAGIC_COOKIE)))"

definition parse_mapped :: "bytes \<Rightarrow> addr_v4 option" where
  "parse_mapped val =
     (if length val < 8 \<or> val ! 1 \<noteq> 0x01 then None else Some (get32 4 val, get16 2 val))"

definition attr_pad :: "nat \<Rightarrow> nat" where
  "attr_pad alen = (4 - alen mod 4) mod 4"

text \<open>The attributes from \<open>i\<close> on, up to the announced end or that of the buffer.\<close>

function stun_attrs :: "bytes \<Rightarrow> nat \<Rightarrow> nat \<Rightarrow> (addr_v4, stun_error) outcome" where
  "stun_attrs buf fin i =
     (if i + 4 \<le> fin then
       (let atype = get16 i buf; alen = unat (get16 (i + 2) buf);
            val_start = i + 4; val_end = val_start + alen in
        if val_end > fin then Err StunNoAddress
        else
         (let val = cut val_start val_end buf;
              found = (if atype = ATTR_XOR_MAPPED_ADDRESS then parse_xor_mapped val
                       else if atype = ATTR_MAPPED_ADDRESS then parse_mapped val else None)
          in case found of
               Some addr \<Rightarrow> Ok addr
             | None \<Rightarrow> stun_attrs buf fin (val_end + attr_pad alen)))
      else Err StunNoAddress)"
  by pat_completeness auto
termination
  by (relation "measure (\<lambda>(buf, fin, i). fin + 1 - i)") auto

declare stun_attrs.simps [simp del]

definition parse_response :: "bytes \<Rightarrow> bytes \<Rightarrow> (addr_v4, stun_error) outcome" where
  "parse_response buf txid =
     (if length buf < 20 then Err (StunShort (length buf))
      else if get16 0 buf \<noteq> BINDING_RESPONSE then Err (StunType (get16 0 buf))
      else if get32 4 buf \<noteq> MAGIC_COOKIE then Err (StunCookie (get32 4 buf))
      else if cut 8 20 buf \<noteq> txid then Err StunTxid
      else stun_attrs buf (min (20 + unat (get16 2 buf)) (length buf)) 20)"

definition is_stun :: "bytes \<Rightarrow> bool" where
  "is_stun buf \<longleftrightarrow> length buf \<ge> 8 \<and> get32 4 buf = MAGIC_COOKIE"

section \<open>Responses of a server\<close>

text \<open>
  A response as RFC 5389 lays it out: the header, attributes of other types, each padded to
  four bytes, and the address of the client, either plain or XORed with the cookie.
\<close>

definition stun_attr :: "u16 \<Rightarrow> bytes \<Rightarrow> bytes" where
  "stun_attr atype val = be16 atype @ be16 (word_of_nat (length val)) @ val @ replicate (attr_pad (length val)) 0"

definition xor_mapped_attr :: "addr_v4 \<Rightarrow> bytes" where
  "xor_mapped_attr a = stun_attr ATTR_XOR_MAPPED_ADDRESS
     ([0, 1] @ be16 (snd a XOR ucast (drop_bit 16 MAGIC_COOKIE)) @ be32 (fst a XOR MAGIC_COOKIE))"

definition mapped_attr :: "addr_v4 \<Rightarrow> bytes" where
  "mapped_attr a = stun_attr ATTR_MAPPED_ADDRESS ([0, 1] @ be16 (snd a) @ be32 (fst a))"

definition stun_response :: "bytes \<Rightarrow> bytes \<Rightarrow> bytes" where
  "stun_response txid attrs =
     be16 BINDING_RESPONSE @ be16 (word_of_nat (length attrs)) @ be32 MAGIC_COOKIE @ txid @ attrs"

text \<open>One attribute, read at its place.\<close>

lemma stun_attrs_step:
  assumes "length pre = i" "length val < 65536" "i + 4 + length val \<le> fin"
  shows "stun_attrs (pre @ stun_attr atype val @ rest) fin i =
    (case (if atype = ATTR_XOR_MAPPED_ADDRESS then parse_xor_mapped val
           else if atype = ATTR_MAPPED_ADDRESS then parse_mapped val else None) of
       Some addr \<Rightarrow> Ok addr
     | None \<Rightarrow> stun_attrs (pre @ stun_attr atype val @ rest) fin (i + length (stun_attr atype val)))"
proof -
  define buf where "buf = pre @ stun_attr atype val @ rest"
  have t: "get16 i buf = atype"
    using get16_at [OF assms(1), of atype] by (simp add: buf_def stun_attr_def)
  have "get16 (i + 2) buf = word_of_nat (length val)"
    using get16_at [of "pre @ be16 atype" "i + 2" "word_of_nat (length val)"] assms(1)
    by (simp add: buf_def stun_attr_def)
  then have l: "unat (get16 (i + 2) buf) = length val" using assms(2) by (simp only: unat_word16)
  have v: "cut (i + 4) (i + 4 + length val) buf = val"
    using cut_at [of "pre @ be16 atype @ be16 (word_of_nat (length val))" "i + 4" val "length val"] assms(1)
    by (simp add: buf_def stun_attr_def)
  have n: "i + length (stun_attr atype val) = i + 4 + length val + attr_pad (length val)"
    by (simp add: stun_attr_def)
  show ?thesis
    unfolding buf_def [symmetric] n
    using assms(3) by (subst stun_attrs.simps) (simp add: Let_def t l v del: add_2_eq_Suc')
qed

lemma stun_attrs_skip:
  assumes "list_all (\<lambda>(ty, val). ty \<noteq> ATTR_XOR_MAPPED_ADDRESS \<and> ty \<noteq> ATTR_MAPPED_ADDRESS \<and> length val < 65536) others"
    and "length pre + length (concat (map (\<lambda>(ty, val). stun_attr ty val) others)) \<le> fin"
  shows "stun_attrs (pre @ concat (map (\<lambda>(ty, val). stun_attr ty val) others) @ rest) fin (length pre) =
    stun_attrs (pre @ concat (map (\<lambda>(ty, val). stun_attr ty val) others) @ rest) fin
      (length pre + length (concat (map (\<lambda>(ty, val). stun_attr ty val) others)))"
  using assms
proof (induction others arbitrary: pre)
  case (Cons a others)
  obtain ty val where a: "a = (ty, val)" by (cases a)
  have "length pre + 4 + length val \<le> fin" using Cons.prems(2) by (simp add: a stun_attr_def)
  with Cons.prems(1) show ?case
    using stun_attrs_step [of pre "length pre" val fin ty "concat (map (\<lambda>(ty, val). stun_attr ty val) others) @ rest"]
      Cons.IH [of "pre @ stun_attr ty val"] Cons.prems(2)
    by (simp add: a add.assoc)
qed simp

text \<open>
  The response of a server to our request, whatever other attributes it lists first, is
  read as the address the server has put in it, plain or XORed; the transaction id of
  another request is refused.
\<close>

theorem parse_response_address:
  assumes "length txid = 12" "attr = xor_mapped_attr a \<or> attr = mapped_attr a"
    and "list_all (\<lambda>(ty, val). ty \<noteq> ATTR_XOR_MAPPED_ADDRESS \<and> ty \<noteq> ATTR_MAPPED_ADDRESS \<and> length val < 65536) others"
    and "length (concat (map (\<lambda>(ty, val). stun_attr ty val) others)) + 12 < 65536"
  defines "r \<equiv> stun_response txid (concat (map (\<lambda>(ty, val). stun_attr ty val) others) @ attr)"
  shows "parse_response r txid = Ok a \<and> (other \<noteq> txid \<longrightarrow> parse_response r other = Err StunTxid)"
proof -
  define os where "os = concat (map (\<lambda>(ty, val). stun_attr ty val) others)"
  define pre where "pre = be16 BINDING_RESPONSE @ be16 (word_of_nat (length (os @ attr))) @ be32 MAGIC_COOKIE @ txid"
  have lp: "length pre = 20" using assms(1) by (simp add: pre_def)
  have la: "length attr = 12"
    using assms(2) by (auto simp: xor_mapped_attr_def mapped_attr_def stun_attr_def attr_pad_def)
  have r: "r = pre @ os @ attr" by (simp add: r_def stun_response_def pre_def os_def)
  have g: "get16 0 r = BINDING_RESPONSE" "get32 4 r = MAGIC_COOKIE" "cut 8 20 r = txid"
    using get16_at [of "[]" 0 BINDING_RESPONSE] get32_at [of "be16 BINDING_RESPONSE @ be16 (word_of_nat (length (os @ attr)))" 4]
      cut_at [of "be16 BINDING_RESPONSE @ be16 (word_of_nat (length (os @ attr))) @ be32 MAGIC_COOKIE" 8 txid 12] assms(1)
    by (simp_all add: r pre_def)
  have "get16 2 r = word_of_nat (length (os @ attr))"
    using get16_at [of "be16 BINDING_RESPONSE" 2] by (simp add: r pre_def)
  then have fin: "min (20 + unat (get16 2 r)) (length r) = 20 + length os + 12"
    using assms(4) la lp by (simp only: unat_word16 length_append os_def [symmetric] r) 
  have "stun_attrs r (20 + length os + 12) 20 = stun_attrs r (20 + length os + 12) (20 + length os)"
    using stun_attrs_skip [OF assms(3), of pre "20 + length os + 12" attr] lp by (simp add: r os_def)
  also have "\<dots> = Ok a"
  proof -
    have "stun_attrs ((pre @ os) @ stun_attr ty val @ []) (20 + length os + 12) (20 + length os) = Ok a"
      if "length val = 8" "(if ty = ATTR_XOR_MAPPED_ADDRESS then parse_xor_mapped val
           else if ty = ATTR_MAPPED_ADDRESS then parse_mapped val else None) = Some a" for ty val
      using stun_attrs_step [of "pre @ os" "20 + length os" val "20 + length os + 12" ty "[]"] that lp by simp
    moreover have "get32 4 ([0, 1] @ be16 x @ be32 y) = y" "get16 2 ([0, 1] @ be16 x @ be32 y) = x" for x y
      using get32_at [of "[0, 1] @ be16 x" 4 y "[]"] get16_at [of "[0, 1]" 2 x] by simp_all
    ultimately show ?thesis
      using assms(2)
      by (auto simp: r xor_mapped_attr_def mapped_attr_def parse_xor_mapped_def parse_mapped_def
          ATTR_XOR_MAPPED_ADDRESS_def ATTR_MAPPED_ADDRESS_def xor.assoc)
  qed
  finally show ?thesis using g fin lp by (simp add: parse_response_def r)
qed

theorem parse_response_address_witness:
  "parse_response (stun_response (replicate 12 7) (stun_attr 0x8022 [1, 2, 3] @ xor_mapped_attr (0x0A000001, 4242)))
     (replicate 12 7) = Ok (0x0A000001, 4242)"
  using parse_response_address [of "replicate 12 7" "xor_mapped_attr (0x0A000001, 4242)" "(0x0A000001, 4242)"
      "[(0x8022, [1, 2, 3])]" "[]"]
  by (simp add: ATTR_XOR_MAPPED_ADDRESS_def ATTR_MAPPED_ADDRESS_def stun_attr_def attr_pad_def)

lemma binding_request_is_stun: "length txid = 12 \<Longrightarrow> is_stun (fst (binding_request txid))"
  by (simp add: is_stun_def binding_request_def Let_def get32_put_other)

end
