(* ===== verification/Peers.thy ===== *)
theory Peers
  imports Bytes Texts
begin

text \<open>
  \<open>core/src/peers.rs\<close> and \<open>core/src/node.rs\<close>: the peers and the packet filter of a network
  map, and the filter on the source of an inner packet. The JSON deserializer is outside the
  crate: it is a function from the bytes to the typed structs, which may fail.
\<close>

section \<open>The network map\<close>

record peer_info =
  pi_node_key :: bytes
  pi_disco_key :: bytes
  pi_tailscale_ip :: "string option"
  pi_endpoints :: "string list"
  pi_hostname :: string

record hostinfo_t =
  hi_hostname :: "string option"

record peer_t =
  pt_key :: "string option"
  pt_disco_key :: "string option"
  pt_addresses :: "string list option"
  pt_endpoints :: "string list option"
  pt_hostinfo :: "hostinfo_t option"

record map_resp =
  mr_peers :: "peer_t list option"

record net_port_range =
  np_ip :: "string option"

record filter_rule =
  fr_src_ips :: "string list option"
  fr_dst_ports :: "net_port_range list option"

record filter_resp =
  packet_filter :: "filter_rule list option"

type_synonym cidr = "u32 \<times> u32"

definition unwrap_or :: "'a \<Rightarrow> 'a option \<Rightarrow> 'a" where
  "unwrap_or d x = (case x of Some v \<Rightarrow> v | None \<Rightarrow> d)"

lemma unwrap_or_simps [simp]: "unwrap_or d (Some v) = v" "unwrap_or d None = d"
  by (simp_all add: unwrap_or_def)

section \<open>Addresses and prefixes\<close>

text \<open>
  \<open>str::parse\<close> for a \<open>u32\<close> and for an \<open>Ipv4Addr\<close>: four decimal octets of at most three
  digits, without a leading zero.
\<close>

definition parse_u32 :: "string \<Rightarrow> nat option" where
  "parse_u32 s = map_option nat (parse_unsigned (2 ^ 32 - 1) s)"

definition parse_octet :: "string \<Rightarrow> u8 option" where
  "parse_octet s =
     (if s = [] \<or> length s > 3 \<or> (hd s = CHR ''0'' \<and> length s > 1) then None
      else case parse_digits s of
        None \<Rightarrow> None
      | Some v \<Rightarrow> if v \<le> 255 then Some (word_of_int v) else None)"

definition parse_ipv4 :: "string \<Rightarrow> u32 option" where
  "parse_ipv4 s = (case map parse_octet (split_on CHR ''.'' s) of
     [Some a, Some b, Some c, Some d] \<Rightarrow> Some (of_be32 a b c d)
   | _ \<Rightarrow> None)"

definition prefix_mask :: "nat \<Rightarrow> u32" where
  "prefix_mask bits = (if bits = 0 then 0 else push_bit (32 - min bits 32) (- 1))"

definition parse_cidr :: "string \<Rightarrow> cidr option" where
  "parse_cidr s =
     Option.bind
       (case split_once CHR ''/'' s of
          Some (i, b) \<Rightarrow> map_option (\<lambda>n. (i, n)) (parse_u32 b)
        | None \<Rightarrow> Some (s, 32))
       (\<lambda>(ip, bits). map_option (\<lambda>net. (net, prefix_mask bits)) (parse_ipv4 ip))"

definition cidr_match :: "cidr list \<Rightarrow> u32 \<Rightarrow> bool" where
  "cidr_match allowed ip \<longleftrightarrow> list_ex (\<lambda>(net, m). ip AND m = net AND m) allowed"

definition cidr_contains :: "cidr option \<Rightarrow> u32 \<Rightarrow> bool" where
  "cidr_contains c ip \<longleftrightarrow> (case c of
     Some (net, m) \<Rightarrow> ip AND m = net AND m
   | None \<Rightarrow> False)"

section \<open>The packet filter\<close>

definition covers_us :: "u32 \<Rightarrow> filter_rule \<Rightarrow> bool" where
  "covers_us our rule \<longleftrightarrow>
     list_ex (\<lambda>ip. ip = ''*'' \<or> cidr_contains (parse_cidr ip) our)
       (List.map_filter np_ip (unwrap_or [] (fr_dst_ports rule)))"

definition rule_srcs :: "filter_rule \<Rightarrow> cidr list" where
  "rule_srcs rule =
     List.map_filter (\<lambda>s. if s = ''*'' then Some (0, 0) else parse_cidr s)
       (unwrap_or [] (fr_src_ips rule))"

fun filter_srcs :: "u32 \<Rightarrow> filter_rule list \<Rightarrow> cidr list" where
  "filter_srcs our [] = []"
| "filter_srcs our (rule # rules) =
     (if covers_us our rule then rule_srcs rule @ filter_srcs our rules else filter_srcs our rules)"

definition parse_allowed_srcs ::
  "(bytes \<Rightarrow> filter_resp option) \<Rightarrow> bytes \<Rightarrow> string \<Rightarrow> cidr list option"
where
  "parse_allowed_srcs from_slice raw our_ip =
     Option.bind (from_slice raw) (\<lambda>f.
     Option.bind (packet_filter f) (\<lambda>rules.
     Option.bind (parse_cidr (our_ip @ ''/32'')) (\<lambda>our.
       Some (filter_srcs (fst our) rules))))"

section \<open>Peers\<close>

definition hex_val :: "char \<Rightarrow> u8 option" where
  "hex_val c =
     (if 48 \<le> byte c \<and> byte c \<le> 57 then Some (word_of_nat (byte c - 48))
      else if 97 \<le> byte c \<and> byte c \<le> 102 then Some (word_of_nat (byte c - 97 + 10))
      else if 65 \<le> byte c \<and> byte c \<le> 70 then Some (word_of_nat (byte c - 65 + 10))
      else None)"

fun hex_bytes :: "string \<Rightarrow> bytes option" where
  "hex_bytes (h # l # rest) =
     Option.bind (hex_val h) (\<lambda>hi. Option.bind (hex_val l) (\<lambda>lo.
       map_option (\<lambda>bs. (push_bit 4 hi OR lo) # bs) (hex_bytes rest)))"
| "hex_bytes _ = Some []"

definition parse_keyed_hex :: "string \<Rightarrow> bytes option" where
  "parse_keyed_hex s =
     (let hex = last (split_on CHR '':'' s) in if length hex \<noteq> 64 then None else hex_bytes hex)"

definition peer_info_of :: "peer_t \<Rightarrow> peer_info option" where
  "peer_info_of p =
     Option.bind (Option.bind (pt_key p) parse_keyed_hex) (\<lambda>node_key.
     Option.bind (Option.bind (pt_disco_key p) parse_keyed_hex) (\<lambda>disco_key.
       Some \<lparr>pi_node_key = node_key, pi_disco_key = disco_key,
         pi_tailscale_ip =
           find (\<lambda>a. take 4 a = ''100.'')
             (map (\<lambda>a. hd (split_on CHR ''/'' a)) (unwrap_or [] (pt_addresses p))),
         pi_endpoints = unwrap_or [] (pt_endpoints p),
         pi_hostname = unwrap_or ''?'' (Option.bind (pt_hostinfo p) hi_hostname)\<rparr>))"

definition parse_peers :: "(bytes \<Rightarrow> map_resp option) \<Rightarrow> bytes \<Rightarrow> (peer_info list, unit) outcome" where
  "parse_peers from_slice raw =
     bindR (ok_or (from_slice raw) ()) (\<lambda>m.
       Ok (List.map_filter peer_info_of (unwrap_or [] (mr_peers m))))"

section \<open>The identity of the node\<close>

record identity =
  id_disco_priv :: bytes
  id_disco_pub :: bytes
  id_node_priv :: bytes
  id_node_pub :: bytes
  id_allowed_srcs :: "cidr list option"

definition src_allowed :: "cidr list option \<Rightarrow> bytes \<Rightarrow> bool" where
  "src_allowed allowed inner \<longleftrightarrow> (case allowed of
     None \<Rightarrow> True
   | Some cidrs \<Rightarrow>
       if length inner < 16 \<or> drop_bit 4 (inner ! 0) \<noteq> 4 then True
       else cidr_match cidrs (get32 12 inner))"

section \<open>Printed prefixes\<close>

text \<open>The text of an address and of a prefix, and the addresses a pattern of a rule matches.\<close>

definition ip_text :: "u32 \<Rightarrow> string" where
  "ip_text ip =
     show_nat (unat (be32 ip ! 0)) @ ''.'' @ show_nat (unat (be32 ip ! 1)) @ ''.'' @
     show_nat (unat (be32 ip ! 2)) @ ''.'' @ show_nat (unat (be32 ip ! 3))"

datatype pattern = Any | Prefix u32 nat

fun pattern_text :: "pattern \<Rightarrow> string" where
  "pattern_text Any = ''*''"
| "pattern_text (Prefix ip bits) = ip_text ip @ ''/'' @ show_nat bits"

fun pattern_wf :: "pattern \<Rightarrow> bool" where
  "pattern_wf Any = True"
| "pattern_wf (Prefix ip bits) \<longleftrightarrow> bits \<le> 32"

text \<open>A prefix matches the addresses with its first \<open>bits\<close> bits.\<close>

fun pattern_matches :: "pattern \<Rightarrow> u32 \<Rightarrow> bool" where
  "pattern_matches Any ip = True"
| "pattern_matches (Prefix net bits) ip \<longleftrightarrow> drop_bit (32 - bits) ip = drop_bit (32 - bits) net"

lemma prefix_mask_match:
  assumes "bits \<le> 32"
  shows "ip AND prefix_mask bits = net AND prefix_mask bits \<longleftrightarrow>
         drop_bit (32 - bits) ip = drop_bit (32 - bits) net"
proof (cases "bits = 0")
  case True
  have "drop_bit 32 w = 0" for w :: u32
    by (rule bit_word_eqI) (auto simp: bit_drop_bit_eq dest: bit_imp_le_length)
  with True show ?thesis by (simp add: prefix_mask_def)
next
  case False
  define d where "d = 32 - bits"
  from False assms have m: "bit (prefix_mask bits) n \<longleftrightarrow> d \<le> n \<and> n < 32" for n
    by (auto simp: d_def prefix_mask_def bit_push_bit_iff bit_minus_1_iff bit_not_iff bit_mask_iff)
  have len: "\<not> bit w n" if "32 \<le> n" for w :: u32 and n
    using that bit_imp_le_length [of w n] by auto
  have "ip AND prefix_mask bits = net AND prefix_mask bits \<longleftrightarrow> (\<forall>n\<ge>d. bit ip n = bit net n)"
    using len [of _ ip] len [of _ net] by (simp add: bit_eq_iff bit_and_iff m) (meson not_le)
  moreover have "drop_bit d ip = drop_bit d net \<longleftrightarrow> (\<forall>k. bit ip (d + k) = bit net (d + k))"
    using len [of _ ip] len [of _ net]
    by (simp add: bit_eq_iff bit_drop_bit_eq) (meson not_le trans_le_add2)
  ultimately show ?thesis by (auto simp: d_def [symmetric] le_iff_add)
qed

lemma split_on_append: "d \<notin> set xs \<Longrightarrow> split_on d (xs @ d # ys) = xs # split_on d ys"
  by (induction xs) auto

lemma digit_notin: "\<not> is_digit c \<Longrightarrow> c \<notin> set (show_nat n)"
  using show_nat_digits [of n] by (auto simp: list_all_iff)

lemma not_digits [simp]: "\<not> is_digit CHR ''.''" "\<not> is_digit CHR ''/''" "\<not> is_digit CHR ''*''"
  by (simp_all add: is_digit_def byte_def)

lemma length_show_nat_octet: "n < 256 \<Longrightarrow> length (show_nat n) \<le> 3"
  by (subst show_nat.simps, subst (1) show_nat.simps, subst (1) show_nat.simps) auto

lemma hd_show_nat: "0 < n \<Longrightarrow> hd (show_nat n) \<noteq> CHR ''0''"
proof (induction n rule: show_nat.induct)
  case (1 n)
  show ?case
  proof (cases "n < 10")
    case True
    with 1(2) show ?thesis
      by (subst show_nat.simps) (auto simp: digit_char_def dest!: arg_cong [where f = "of_char :: char \<Rightarrow> nat"])
  next
    case False
    with 1 show ?thesis by (subst show_nat.simps) simp
  qed
qed

lemma parse_octet_show_nat: "n < 256 \<Longrightarrow> parse_octet (show_nat n) = Some (word_of_nat n)"
proof -
  assume n: "n < 256"
  have "hd (show_nat n) = CHR ''0'' \<Longrightarrow> length (show_nat n) \<le> 1"
    using hd_show_nat [of n] by (cases "n = 0") (simp_all add: show_nat.simps)
  with n length_show_nat_octet [OF n] show ?thesis by (auto simp: parse_octet_def)
qed

lemma parse_ipv4_ip_text: "parse_ipv4 (ip_text ip) = Some ip"
proof -
  have o: "parse_octet (show_nat (unat b)) = Some b" for b :: u8
    using u8_less [of b] by (simp add: parse_octet_show_nat)
  have "split_on CHR ''.'' (ip_text ip) = map (\<lambda>i. show_nat (unat (be32 ip ! i))) [0, 1, 2, 3]"
    by (simp add: ip_text_def split_on_append digit_notin split_on_none)
  then show ?thesis by (simp add: parse_ipv4_def o) (simp add: be32_def)
qed

lemma ip_text_no_slash: "CHR ''/'' \<notin> set (ip_text ip)"
  by (simp add: ip_text_def digit_notin)

lemma parse_u32_show_nat: "n < 2 ^ 32 \<Longrightarrow> parse_u32 (show_nat n) = Some n"
proof -
  assume n: "n < 2 ^ 32"
  obtain c cs where c: "show_nat n = c # cs" "is_digit c" using show_nat_Cons by blast
  then have "parse_unsigned (2 ^ 32 - 1) (show_nat n) = bounded 0 (2 ^ 32 - 1) (parse_digits (show_nat n))"
    by (simp add: parse_unsigned_def)
  with n show ?thesis by (simp add: parse_u32_def bounded_def)
qed

lemma parse_cidr_text:
  "bits \<le> 32 \<Longrightarrow> parse_cidr (ip_text ip @ CHR ''/'' # show_nat bits) = Some (ip, prefix_mask bits)"
  by (simp add: parse_cidr_def split_once_first ip_text_no_slash parse_u32_show_nat parse_ipv4_ip_text)

lemma show_nat_32: "show_nat 32 = ''32''"
  by code_simp

lemma pattern_not_any: "ip_text ip @ xs \<noteq> ''*''"
proof -
  obtain c cs where "show_nat (unat (be32 ip ! 0)) = c # cs" "is_digit c" using show_nat_Cons by blast
  then show ?thesis by (auto simp: ip_text_def)
qed

section \<open>What the filter lets through\<close>

text \<open>A rule of the network map: the sources it lets through to its destinations.\<close>

definition rule_of :: "pattern list \<times> pattern list \<Rightarrow> filter_rule" where
  "rule_of = (\<lambda>(srcs, dsts). \<lparr>fr_src_ips = Some (map pattern_text srcs),
     fr_dst_ports = Some (map (\<lambda>p. \<lparr>np_ip = Some (pattern_text p)\<rparr>) dsts)\<rparr>)"

lemma dst_pattern:
  "pattern_wf p \<Longrightarrow>
   (pattern_text p = ''*'' \<or> cidr_contains (parse_cidr (pattern_text p)) ip) \<longleftrightarrow> pattern_matches p ip"
  using pattern_not_any
  by (cases p) (simp_all add: parse_cidr_text cidr_contains_def prefix_mask_match)

lemma map_filter_np_ip:
  "List.map_filter np_ip (map (\<lambda>p. \<lparr>np_ip = Some (f p)\<rparr>) ps) = map f ps"
  by (induction ps) (simp_all add: List.map_filter_simps)

lemma covers_us_rule:
  "list_all pattern_wf dsts \<Longrightarrow>
   covers_us our (rule_of (srcs, dsts)) \<longleftrightarrow> (\<exists>d\<in>set dsts. pattern_matches d our)"
  by (auto simp: covers_us_def rule_of_def map_filter_np_ip list_ex_iff list_all_iff dst_pattern)

lemma rule_srcs_match:
  "list_all pattern_wf srcs \<Longrightarrow>
   cidr_match (rule_srcs (rule_of (srcs, dsts))) ip \<longleftrightarrow> (\<exists>s\<in>set srcs. pattern_matches s ip)"
proof (induction srcs)
  case Nil
  then show ?case by (simp add: rule_of_def rule_srcs_def cidr_match_def List.map_filter_simps)
next
  case (Cons s srcs)
  then show ?case
    using pattern_not_any
    by (cases s) (simp_all add: rule_of_def rule_srcs_def cidr_match_def List.map_filter_simps
        parse_cidr_text prefix_mask_match)
qed

lemma cidr_match_append: "cidr_match (xs @ ys) ip \<longleftrightarrow> cidr_match xs ip \<or> cidr_match ys ip"
  by (simp add: cidr_match_def)

lemma filter_srcs_match:
  "list_all (\<lambda>(srcs, dsts). list_all pattern_wf srcs \<and> list_all pattern_wf dsts) acl \<Longrightarrow>
   cidr_match (filter_srcs our (map rule_of acl)) ip \<longleftrightarrow>
   (\<exists>(srcs, dsts)\<in>set acl. (\<exists>d\<in>set dsts. pattern_matches d our) \<and> (\<exists>s\<in>set srcs. pattern_matches s ip))"
proof (induction acl)
  case (Cons r acl)
  then show ?case
    by (cases r) (auto simp: cidr_match_append covers_us_rule rule_srcs_match)
qed (simp add: cidr_match_def)

text \<open>
  C25: the packet filter. An inner IPv4 packet is let through exactly when some rule of the
  network map has a destination that covers our address and a source that covers the address
  the packet comes from, where a prefix of \<open>n\<close> bits covers the addresses with its first \<open>n\<close>
  bits; when no rule does, everything is refused.
\<close>

theorem acl_semantics:
  assumes "from_slice raw = Some \<lparr>packet_filter = Some (map rule_of acl)\<rparr>"
    and "list_all (\<lambda>(srcs, dsts). list_all pattern_wf srcs \<and> list_all pattern_wf dsts) acl"
    and "16 \<le> length inner" "drop_bit 4 (inner ! 0) = 4"
  shows "src_allowed (parse_allowed_srcs from_slice raw (ip_text our)) inner \<longleftrightarrow>
    (\<exists>(srcs, dsts)\<in>set acl. (\<exists>d\<in>set dsts. pattern_matches d our)
       \<and> (\<exists>s\<in>set srcs. pattern_matches s (get32 12 inner)))"
proof -
  have "parse_cidr (ip_text our @ ''/32'') = Some (our, prefix_mask 32)"
    using parse_cidr_text [of 32 our] by (simp add: show_nat_32)
  then have "parse_allowed_srcs from_slice raw (ip_text our) = Some (filter_srcs our (map rule_of acl))"
    using assms(1) by (simp add: parse_allowed_srcs_def)
  then show ?thesis
    using assms(3,4) by (simp add: src_allowed_def filter_srcs_match [OF assms(2)])
qed

theorem acl_semantics_witness:
  "\<not> src_allowed (parse_allowed_srcs
       (\<lambda>raw. Some \<lparr>packet_filter = Some (map rule_of [([Prefix 0x64400000 10], [Any])])\<rparr>) [] (ip_text 5))
     (0x45 # replicate 15 0)"
proof -
  have "(drop_bit 22 (0 :: u32) = drop_bit 22 0x64400000) = False" by simp
  then show ?thesis
    by (subst acl_semantics [of _ _ "[([Prefix 0x64400000 10], [Any])]"])
       (simp_all add: get32_def of_be32_def)
qed

text \<open>
  The filter fails open: a map that cannot be read, or one without rules, and a packet that
  is not IPv4 are let through.
\<close>

lemma filter_fails_open:
  "from_slice raw = None \<Longrightarrow> src_allowed (parse_allowed_srcs from_slice raw our_ip) inner"
  "from_slice raw = Some \<lparr>packet_filter = None\<rparr> \<Longrightarrow> src_allowed (parse_allowed_srcs from_slice raw our_ip) inner"
  "parse_cidr (our_ip @ ''/32'') = None \<Longrightarrow> src_allowed (parse_allowed_srcs from_slice raw our_ip) inner"
  "drop_bit 4 (inner ! 0) = 6 \<Longrightarrow> src_allowed allowed inner"
  by (auto simp: parse_allowed_srcs_def src_allowed_def split: option.split bind_splits)

section \<open>Reading the peers\<close>

text \<open>A key as the control server writes it.\<close>

definition hex_char :: "u8 \<Rightarrow> char" where
  "hex_char d = char_of (if unat d < 10 then 48 + unat d else 87 + unat d)"

definition hex_text :: "bytes \<Rightarrow> string" where
  "hex_text bs = concat (map (\<lambda>b. [hex_char (drop_bit 4 b), hex_char (b AND 0xf)]) bs)"

lemma hex_val_char: "unat d < 16 \<Longrightarrow> hex_val (hex_char d) = Some d"
  by (auto simp: hex_val_def hex_char_def byte_def of_char_of)

lemma nibbles:
  fixes b :: u8
  shows "unat (drop_bit 4 b) < 16" "unat (b AND 0xf) < 16" "push_bit 4 (drop_bit 4 b) OR (b AND 0xf) = b"
proof -
  have m: "b AND 0xf = take_bit 4 b" by (simp add: take_bit_eq_mask mask_eq_exp_minus_1)
  show "unat (drop_bit 4 b) < 16" using u8_less [of b] unat_drop_bit_eq [of 4 b] by (simp only: drop_bit_eq_div) simp
  show "unat (b AND 0xf) < 16" unfolding m using unsigned_take_bit_eq [of 4 b, where ?'a = nat] by (simp only: take_bit_eq_mod) simp
  show "push_bit 4 (drop_bit 4 b) OR (b AND 0xf) = b"
    unfolding m by (rule bit_word_eqI) (auto simp: bit_simps)
qed

lemma hex_bytes_text: "hex_bytes (hex_text bs) = Some bs"
  by (induction bs) (simp_all add: hex_text_def hex_val_char nibbles)

lemma length_hex_text: "length (hex_text bs) = 2 * length bs"
  by (induction bs) (simp_all add: hex_text_def)

lemma hex_char_not_colon: "unat d < 16 \<Longrightarrow> hex_char d = CHR '':'' \<Longrightarrow> False"
  by (auto simp: hex_char_def split: if_splits dest!: arg_cong [where f = "of_char :: char \<Rightarrow> nat"])

lemma hex_text_no_colon: "CHR '':'' \<notin> set (hex_text bs)"
  by (auto simp: hex_text_def dest: sym [THEN hex_char_not_colon [OF nibbles(1)]] sym [THEN hex_char_not_colon [OF nibbles(2)]])

lemma parse_keyed_hex_text:
  assumes "length key = 32" "CHR '':'' \<notin> set kind"
  shows "parse_keyed_hex (kind @ CHR '':'' # hex_text key) = Some key"
proof -
  have "split_on CHR '':'' (kind @ CHR '':'' # hex_text key) = [kind, hex_text key]"
    using assms(2) by (simp add: split_on_append split_on_none hex_text_no_colon)
  then show ?thesis using assms(1)
    by (simp add: parse_keyed_hex_def length_hex_text hex_bytes_text)
qed

text \<open>What the map says of a peer; one of its two keys may be missing.\<close>

record peer_view =
  pv_node :: "bytes option"
  pv_disco :: "bytes option"
  pv_ips :: "(u32 \<times> nat) list"
  pv_endpoints :: "string list"
  pv_hostname :: "string option"

definition peer_of :: "peer_view \<Rightarrow> peer_t" where
  "peer_of v = \<lparr>pt_key = map_option (\<lambda>k. ''nodekey'' @ CHR '':'' # hex_text k) (pv_node v),
     pt_disco_key = map_option (\<lambda>k. ''discokey'' @ CHR '':'' # hex_text k) (pv_disco v),
     pt_addresses = Some (map (\<lambda>(ip, bits). ip_text ip @ CHR ''/'' # show_nat bits) (pv_ips v)),
     pt_endpoints = Some (pv_endpoints v),
     pt_hostinfo = Some \<lparr>hi_hostname = pv_hostname v\<rparr>\<rparr>"

definition view_wf :: "peer_view \<Rightarrow> bool" where
  "view_wf v \<longleftrightarrow> (\<forall>k. pv_node v = Some k \<or> pv_disco v = Some k \<longrightarrow> length k = 32)"

text \<open>The first address in 100.0.0.0/8, where the tailnet is.\<close>

definition info_of :: "peer_view \<Rightarrow> peer_info option" where
  "info_of v = (case (pv_node v, pv_disco v) of
     (Some n, Some d) \<Rightarrow> Some \<lparr>pi_node_key = n, pi_disco_key = d,
       pi_tailscale_ip = map_option (\<lambda>(ip, bits). ip_text ip)
         (find (\<lambda>(ip, bits). drop_bit 24 ip = 100) (pv_ips v)),
       pi_endpoints = pv_endpoints v, pi_hostname = unwrap_or ''?'' (pv_hostname v)\<rparr>
   | _ \<Rightarrow> None)"

lemma first_octet_text:
  assumes "unat b < 256"
  shows "take 4 (show_nat (unat b) @ CHR ''.'' # ys) = ''100.'' \<longleftrightarrow> b = (100 :: u8)"
proof
  assume e: "take 4 (show_nat (unat b) @ CHR ''.'' # ys) = ''100.''"
  have "split_on CHR ''.'' (show_nat (unat b) @ CHR ''.'' # ys) = show_nat (unat b) # split_on CHR ''.'' ys"
    by (simp add: split_on_append digit_notin)
  moreover have "show_nat (unat b) @ CHR ''.'' # ys = ''100'' @ CHR ''.'' # drop 4 (show_nat (unat b) @ CHR ''.'' # ys)"
    using append_take_drop_id [of 4 "show_nat (unat b) @ CHR ''.'' # ys"] unfolding e by simp
  moreover have "split_on CHR ''.'' (''100'' @ CHR ''.'' # zs) = ''100'' # split_on CHR ''.'' zs" for zs
    by (rule split_on_append) simp
  ultimately have "show_nat (unat b) = ''100''" by (metis list.inject)
  then have "Some (int (unat b)) = parse_digits ''100''" by (metis parse_digits_show_nat)
  then have "int (unat b) = int (unat (100 :: u8))" by (simp add: parse_digits_def is_digit_def byte_def)
  then have "unat b = unat (100 :: u8)" by (simp only: of_nat_eq_iff)
  then show "b = 100" by (rule unsigned_word_eqI)
next
  assume "b = 100"
  moreover have "show_nat 100 = ''100''" by code_simp
  ultimately show "take 4 (show_nat (unat b) @ CHR ''.'' # ys) = ''100.''" by simp
qed

lemma first_octet: "be32 ip ! 0 = 100 \<longleftrightarrow> drop_bit 24 ip = 100"
proof -
  have "unat (drop_bit 24 ip) < 256"
    using u32_less [of ip] unat_drop_bit_eq [of 24 ip] by (simp only: drop_bit_eq_div) simp
  then have "unat (ucast (drop_bit 24 ip) :: u8) = unat (drop_bit 24 ip)"
    by (simp add: unsigned_ucast_eq take_bit_eq_mod)
  then have "(ucast (drop_bit 24 ip) :: u8) = 100 \<longleftrightarrow> unat (drop_bit 24 ip) = 100"
    by (simp add: word_unat_eq_iff)
  then show ?thesis by (simp add: be32_def word_unat_eq_iff)
qed

lemma tailnet_address:
  "find (\<lambda>a. take 4 a = ''100.'') (map (\<lambda>a. hd (split_on CHR ''/'' a))
     (map (\<lambda>(ip, bits). ip_text ip @ CHR ''/'' # show_nat bits) ips))
   = map_option (\<lambda>(ip, bits). ip_text ip) (find (\<lambda>(ip, bits). drop_bit 24 ip = 100) ips)"
proof (induction ips)
  case (Cons p ips)
  obtain ip bits where p: "p = (ip, bits)" by (cases p)
  have "take 4 (ip_text ip) = ''100.'' \<longleftrightarrow> drop_bit 24 ip = 100"
    unfolding first_octet [symmetric] ip_text_def append_Cons append_Nil
    by (rule first_octet_text) (rule u8_less)
  with Cons p show ?case by (simp add: split_on_append ip_text_no_slash)
qed simp

lemma peer_info_of_view: "view_wf v \<Longrightarrow> peer_info_of (peer_of v) = info_of v"
  using tailnet_address [of "pv_ips v"]
  using parse_keyed_hex_text [of _ "''nodekey''"] parse_keyed_hex_text [of _ "''discokey''"]
  by (cases "pv_node v"; cases "pv_disco v")
     (simp_all add: view_wf_def peer_info_of_def peer_of_def info_of_def comp_def)

text \<open>
  The peers of a network map are read as they are: those with both keys, in order, with
  the 32 bytes of each key, their first address in 100.0.0.0/8 without its prefix length,
  their endpoints, and their name or a question mark; the others are skipped.
\<close>

theorem peers_roundtrip:
  assumes "from_slice raw = Some \<lparr>mr_peers = Some (map peer_of views)\<rparr>" "list_all view_wf views"
  shows "parse_peers from_slice raw = Ok (List.map_filter info_of views)"
proof -
  have "List.map_filter peer_info_of (map peer_of views) = List.map_filter info_of views"
    using assms(2) by (induction views) (simp_all add: List.map_filter_simps peer_info_of_view split: option.split)
  with assms(1) show ?thesis by (simp add: parse_peers_def)
qed

theorem peers_roundtrip_witness:
  "parse_peers (\<lambda>raw. Some \<lparr>mr_peers = Some (map peer_of [
      \<lparr>pv_node = Some (replicate 32 7), pv_disco = None, pv_ips = [], pv_endpoints = [], pv_hostname = None\<rparr>])\<rparr>) []
   = Ok []"
  by (subst peers_roundtrip [where views = "[\<lparr>pv_node = Some (replicate 32 7), pv_disco = None, pv_ips = [],
        pv_endpoints = [], pv_hostname = None\<rparr>]"])
     (simp_all add: view_wf_def info_of_def List.map_filter_simps)

end
