(* ===== verification/Wg.thy ===== *)
theory Wg
  imports Bytes
begin

text \<open>
  \<open>core/src/wg.rs\<close>: the WireGuard handshake, as initiator and as responder, and the transport
  packets. The primitives are outside the crate: a record of functions for BLAKE2s, its keyed
  form with 16 bytes of output, X25519 and ChaCha20-Poly1305, with the laws the handshake
  relies on (\<open>crypto_laws\<close>). The random ephemeral keys are arguments; the HMAC and the key
  derivation built on the hash are modelled.
\<close>

section \<open>Primitives\<close>

record prims =
  blake2s :: "bytes \<Rightarrow> bytes"
  blake2s_mac :: "bytes \<Rightarrow> bytes \<Rightarrow> bytes"
  x25519 :: "bytes \<Rightarrow> bytes \<Rightarrow> bytes"
  x25519_base :: "bytes \<Rightarrow> bytes"
  aead_encrypt :: "bytes \<Rightarrow> bytes \<Rightarrow> bytes \<Rightarrow> bytes \<Rightarrow> bytes"
  aead_decrypt :: "bytes \<Rightarrow> bytes \<Rightarrow> bytes \<Rightarrow> bytes \<Rightarrow> bytes option"

definition wg_hash :: "prims \<Rightarrow> bytes list \<Rightarrow> bytes" where
  "wg_hash P parts = blake2s P (concat parts)"

definition mac16 :: "prims \<Rightarrow> bytes \<Rightarrow> bytes \<Rightarrow> bytes" where
  "mac16 P key data = blake2s_mac P key data"

definition hmac :: "prims \<Rightarrow> bytes \<Rightarrow> bytes \<Rightarrow> bytes" where
  "hmac P key data =
     (let k = replicate 64 0;
          k = (if length key > 64 then put 0 (wg_hash P [key]) k else put 0 key k);
          ipad = map (\<lambda>b. 0x36 XOR b) k;
          opad = map (\<lambda>b. 0x5c XOR b) k;
          inner = wg_hash P [ipad, data]
      in wg_hash P [opad, inner])"

definition kdf1 :: "prims \<Rightarrow> bytes \<Rightarrow> bytes \<Rightarrow> bytes" where
  "kdf1 P key input = (let t0 = hmac P key input in hmac P t0 [0x01])"

definition kdf2 :: "prims \<Rightarrow> bytes \<Rightarrow> bytes \<Rightarrow> bytes \<times> bytes" where
  "kdf2 P key input =
     (let t0 = hmac P key input; t1 = hmac P t0 [0x01]; t2 = hmac P t0 (t1 @ [0x02]) in (t1, t2))"

definition kdf3 :: "prims \<Rightarrow> bytes \<Rightarrow> bytes \<Rightarrow> bytes \<times> bytes \<times> bytes" where
  "kdf3 P key input =
     (let t0 = hmac P key input; t1 = hmac P t0 [0x01]; t2 = hmac P t0 (t1 @ [0x02]);
          t3 = hmac P t0 (t2 @ [0x03])
      in (t1, t2, t3))"

definition wg_dh :: "prims \<Rightarrow> bytes \<Rightarrow> bytes \<Rightarrow> bytes" where
  "wg_dh P priv pub = x25519 P priv pub"

definition wg_pubkey :: "prims \<Rightarrow> bytes \<Rightarrow> bytes" where
  "wg_pubkey P priv = x25519_base P priv"

definition le_nonce :: "u64 \<Rightarrow> bytes" where
  "le_nonce counter = put 4 (le64 counter) (replicate 12 0)"

definition wg_seal :: "prims \<Rightarrow> bytes \<Rightarrow> u64 \<Rightarrow> bytes \<Rightarrow> bytes \<Rightarrow> bytes" where
  "wg_seal P key counter pt aad = aead_encrypt P key (le_nonce counter) pt aad"

definition wg_open :: "prims \<Rightarrow> bytes \<Rightarrow> u64 \<Rightarrow> bytes \<Rightarrow> bytes \<Rightarrow> bytes option" where
  "wg_open P key counter ct aad = aead_decrypt P key (le_nonce counter) ct aad"

section \<open>The handshake\<close>

definition CONSTRUCTION :: bytes where
  "CONSTRUCTION = of_text ''Noise_IKpsk2_25519_ChaChaPoly_BLAKE2s''"
definition IDENTIFIER :: bytes where
  "IDENTIFIER = of_text ''WireGuard v1 zx2c4 Jason@zx2c4.com''"
definition LABEL_MAC1 :: bytes where "LABEL_MAC1 = of_text ''mac1----''"
definition ZERO_PSK :: bytes where "ZERO_PSK = replicate 32 0"

definition MSG_INITIATION :: u8 where "MSG_INITIATION = 1"
definition MSG_RESPONSE :: u8 where "MSG_RESPONSE = 2"
definition MSG_TRANSPORT :: u8 where "MSG_TRANSPORT = 4"
definition INIT_LEN :: nat where "INIT_LEN = 148"
definition RESP_LEN :: nat where "RESP_LEN = 92"

record wg_handshake =
  hs_chaining :: bytes
  hs_hash :: bytes
  hs_eph_priv :: bytes
  hs_static_priv :: bytes
  hs_our_index :: u32

record tunnel =
  send_key :: bytes
  recv_key :: bytes
  their_index :: u32
  our_index :: u32
  tx_counter :: u64

datatype wg_error =
  InitShort nat | InitType u8 | InitStatic | InitStaticSize | InitTimestamp
| RespShort nat | RespType u8 | RespIndex u32 u32 | RespAuth | RespPayload
| TransportShort nat | TransportType | TransportAuth

definition build_initiation ::
  "prims \<Rightarrow> bytes \<Rightarrow> bytes \<Rightarrow> bytes \<Rightarrow> bytes \<Rightarrow> bytes \<Rightarrow> u32 \<Rightarrow> bytes \<times> wg_handshake"
where
  "build_initiation P eph_priv our_static_priv our_static_pub peer_static_pub timestamp index =
     (let msg = replicate INIT_LEN 0;
          msg = msg[0 := MSG_INITIATION];
          msg = put 4 (le32 index) msg;
          c = wg_hash P [CONSTRUCTION];
          h = wg_hash P [c, IDENTIFIER];
          h = wg_hash P [h, peer_static_pub];
          eph_pub = wg_pubkey P eph_priv;
          c = kdf1 P c eph_pub;
          msg = put 8 eph_pub msg;
          h = wg_hash P [h, eph_pub];
          (c, k) = kdf2 P c (wg_dh P eph_priv peer_static_pub);
          enc_static = wg_seal P k 0 our_static_pub h;
          msg = put 40 enc_static msg;
          h = wg_hash P [h, enc_static];
          (c, k2) = kdf2 P c (wg_dh P our_static_priv peer_static_pub);
          enc_ts = wg_seal P k2 0 timestamp h;
          msg = put 88 enc_ts msg;
          h = wg_hash P [h, enc_ts];
          mac1_key = wg_hash P [LABEL_MAC1, peer_static_pub];
          mac1 = mac16 P mac1_key (take 116 msg);
          msg = put 116 mac1 msg
      in (msg, \<lparr>hs_chaining = c, hs_hash = h, hs_eph_priv = eph_priv,
               hs_static_priv = our_static_priv, hs_our_index = index\<rparr>))"

text \<open>The response to an opened initiation, from the state of the hash and of the chain.\<close>

definition build_response_msg ::
  "prims \<Rightarrow> bytes \<Rightarrow> bytes \<Rightarrow> bytes \<Rightarrow> bytes \<Rightarrow> bytes \<Rightarrow> u32 \<Rightarrow> u32 \<Rightarrow> bytes \<times> tunnel"
where
  "build_response_msg P er_priv c h e_i s_i index theirs =
     (let resp = replicate RESP_LEN 0;
          resp = resp[0 := MSG_RESPONSE];
          resp = put 4 (le32 index) resp;
          resp = put 8 (le32 theirs) resp;
          er_pub = wg_pubkey P er_priv;
          c = kdf1 P c er_pub;
          resp = put 12 er_pub resp;
          h = wg_hash P [h, er_pub];
          c = kdf1 P c (wg_dh P er_priv e_i);
          c = kdf1 P c (wg_dh P er_priv s_i);
          (c, tau, k3) = kdf3 P c ZERO_PSK;
          h = wg_hash P [h, tau];
          enc_empty = wg_seal P k3 0 [] h;
          resp = put 44 enc_empty resp;
          mac1_key = wg_hash P [LABEL_MAC1, s_i];
          mac1 = mac16 P mac1_key (take 60 resp);
          resp = put 60 mac1 resp;
          (rk, sk) = kdf2 P c []
      in (resp, \<lparr>send_key = sk, recv_key = rk, their_index = theirs, our_index = index, tx_counter = 0\<rparr>))"

definition consume_initiation ::
  "prims \<Rightarrow> bytes \<Rightarrow> bytes \<Rightarrow> bytes \<Rightarrow> bytes \<Rightarrow> u32 \<Rightarrow> (bytes \<times> tunnel \<times> bytes, wg_error) outcome"
where
  "consume_initiation P er_priv our_static_priv our_static_pub init index =
     (if length init < INIT_LEN then Err (InitShort (length init))
      else if init ! 0 \<noteq> MSG_INITIATION then Err (InitType (init ! 0))
      else
       (let theirs = get32le 4 init;
            e_i = cut 8 40 init;
            enc_static = cut 40 88 init;
            enc_ts = cut 88 116 init;
            c = wg_hash P [CONSTRUCTION];
            h = wg_hash P [c, IDENTIFIER];
            h = wg_hash P [h, our_static_pub];
            c = kdf1 P c e_i;
            h = wg_hash P [h, e_i];
            (c, k) = kdf2 P c (wg_dh P our_static_priv e_i)
        in bindR (ok_or (wg_open P k 0 enc_static h) InitStatic) (\<lambda>s_i.
             if length s_i \<noteq> 32 then Err InitStaticSize
             else
              (let h = wg_hash P [h, enc_static];
                   (c, k2) = kdf2 P c (wg_dh P our_static_priv s_i)
               in bindR (ok_or (wg_open P k2 0 enc_ts h) InitTimestamp) (\<lambda>ts.
                    let h = wg_hash P [h, enc_ts];
                        (resp, tun) = build_response_msg P er_priv c h e_i s_i index theirs
                    in Ok (resp, tun, s_i))))))"

definition consume_response :: "prims \<Rightarrow> wg_handshake \<Rightarrow> bytes \<Rightarrow> (tunnel, wg_error) outcome" where
  "consume_response P hs resp =
     (if length resp < RESP_LEN then Err (RespShort (length resp))
      else if resp ! 0 \<noteq> MSG_RESPONSE then Err (RespType (resp ! 0))
      else
       (let theirs = get32le 4 resp;
            recv_index = get32le 8 resp
        in if recv_index \<noteq> hs_our_index hs then Err (RespIndex recv_index (hs_our_index hs))
           else
            (let eph_pub_r = cut 12 44 resp;
                 enc_empty = cut 44 60 resp;
                 c = kdf1 P (hs_chaining hs) eph_pub_r;
                 h = wg_hash P [hs_hash hs, eph_pub_r];
                 c = kdf1 P c (wg_dh P (hs_eph_priv hs) eph_pub_r);
                 c = kdf1 P c (wg_dh P (hs_static_priv hs) eph_pub_r);
                 (c, tau, k) = kdf3 P c ZERO_PSK;
                 h = wg_hash P [h, tau]
             in bindR (ok_or (wg_open P k 0 enc_empty h) RespAuth) (\<lambda>pt.
                  if pt \<noteq> [] then Err RespPayload
                  else (let (sk, rk) = kdf2 P c []
                        in Ok \<lparr>send_key = sk, recv_key = rk, their_index = theirs,
                               our_index = hs_our_index hs, tx_counter = 0\<rparr>)))))"

section \<open>Transport\<close>

definition decrypt_transport :: "prims \<Rightarrow> bytes \<Rightarrow> bytes \<Rightarrow> bytes option" where
  "decrypt_transport P key pkt =
     (if length pkt < 32 \<or> pkt ! 0 \<noteq> MSG_TRANSPORT then None
      else wg_open P key (get64le 8 pkt) (drop 16 pkt) [])"

function pad16 :: "bytes \<Rightarrow> bytes" where
  "pad16 pt = (if length pt mod 16 \<noteq> 0 then pad16 (pt @ [0]) else pt)"
  by pat_completeness auto
termination
  by (relation "measure (\<lambda>pt. (16 - length pt mod 16) mod 16)") (auto simp: mod_Suc)

declare pad16.simps [simp del]

definition wg_encrypt :: "prims \<Rightarrow> bytes \<Rightarrow> tunnel \<Rightarrow> bytes \<times> tunnel" where
  "wg_encrypt P inner t =
     (let pt = pad16 inner;
          ct = wg_seal P (send_key t) (tx_counter t) pt []
      in ([MSG_TRANSPORT, 0, 0, 0] @ le32 (their_index t) @ le64 (tx_counter t) @ ct,
          t\<lparr>tx_counter := tx_counter t + 1\<rparr>))"

definition keepalive :: "prims \<Rightarrow> tunnel \<Rightarrow> bytes \<times> tunnel" where
  "keepalive P t = wg_encrypt P [] t"

definition wg_decrypt :: "prims \<Rightarrow> bytes \<Rightarrow> tunnel \<Rightarrow> (bytes, wg_error) outcome" where
  "wg_decrypt P pkt t =
     (if length pkt < 32 then Err (TransportShort (length pkt))
      else if pkt ! 0 \<noteq> MSG_TRANSPORT then Err TransportType
      else ok_or (wg_open P (recv_key t) (get64le 8 pkt) (drop 16 pkt) []) TransportAuth)"

text \<open>The TAI64N stamp of a Unix time; the addition is that of a release build.\<close>

definition tai64n :: "u64 \<Rightarrow> u32 \<Rightarrow> bytes" where
  "tai64n unix_secs nanos =
     (let secs = 0x400000000000000a + unix_secs
      in put 8 (be32 nanos) (put 0 (be64 secs) (replicate 12 0)))"

section \<open>Messages are laid out as the peer reads them\<close>

text \<open>Filling a zeroed buffer from left to right.\<close>

lemma put_next:
  "length xs = i \<Longrightarrow> length ys \<le> m \<Longrightarrow>
   put i ys (xs @ replicate m 0) = xs @ ys @ replicate (m - length ys) 0"
  by (simp add: put_def)

lemma put_next_end: "length xs = i \<Longrightarrow> put i ys (xs @ replicate (length ys) 0) = xs @ ys"
  by (simp add: put_def)

lemma zeroed_typed: "4 \<le> n \<Longrightarrow> (replicate n (0 :: u8))[0 := ty] = [ty, 0, 0, 0] @ replicate (n - 4) 0"
proof -
  assume "4 \<le> n"
  then have "replicate n 0 = replicate 4 0 @ replicate (n - 4) (0 :: u8)" by (simp flip: replicate_add)
  moreover have "replicate 4 (0 :: u8) = [0, 0, 0, 0]" by (simp add: numeral_eq_Suc)
  ultimately show ?thesis by simp
qed

lemma get32le_at: "length xs = i \<Longrightarrow> get32le i (xs @ le32 w @ ys) = w"
  by (simp add: get32le_def nth_append) (simp add: le32_def be32_def of_le32_def)

lemma get64le_at: "length xs = i \<Longrightarrow> get64le i (xs @ le64 w @ ys) = w"
proof -
  assume l: "length xs = i"
  have le: "le64 w = le32 (ucast w) @ le32 (ucast (drop_bit 32 w))" by (simp add: le64_def be64_def le32_def)
  have "get32le i (xs @ le64 w @ ys) = ucast w"
    using get32le_at [OF l, of "ucast w" "le32 (ucast (drop_bit 32 w)) @ ys"] by (simp add: le)
  moreover have "get32le (i + 4) (xs @ le64 w @ ys) = ucast (drop_bit 32 w)"
    using get32le_at [of "xs @ le32 (ucast w)" "i + 4" "ucast (drop_bit 32 w)" ys] l by (simp add: le)
  moreover have "push_bit 32 (ucast (ucast (drop_bit 32 w) :: u32)) OR ucast (ucast w :: u32) = w"
    by (rule bit_word_eqI) (auto simp: bit_simps)
  ultimately show ?thesis by (simp add: get64le_def)
qed

definition init_wire :: "u32 \<Rightarrow> bytes \<Rightarrow> bytes \<Rightarrow> bytes \<Rightarrow> bytes" where
  "init_wire index eph_pub enc_static enc_ts =
     [MSG_INITIATION, 0, 0, 0] @ le32 index @ eph_pub @ enc_static @ enc_ts"

definition resp_wire :: "u32 \<Rightarrow> u32 \<Rightarrow> bytes \<Rightarrow> bytes \<Rightarrow> bytes" where
  "resp_wire index theirs er_pub enc_empty =
     [MSG_RESPONSE, 0, 0, 0] @ le32 index @ le32 theirs @ er_pub @ enc_empty"

lemma init_filled:
  assumes "length eph_pub = 32" "length enc_static = 48" "length enc_ts = 28" "length mac1 = 16"
  shows "take 116 (put 88 enc_ts (put 40 enc_static (put 8 eph_pub (put 4 (le32 index)
           ((replicate INIT_LEN 0)[0 := MSG_INITIATION]))))) = init_wire index eph_pub enc_static enc_ts"
    and "put 116 mac1 (put 88 enc_ts (put 40 enc_static (put 8 eph_pub (put 4 (le32 index)
           ((replicate INIT_LEN 0)[0 := MSG_INITIATION])))))
         = init_wire index eph_pub enc_static enc_ts @ mac1 @ replicate 16 0"
proof -
  have "put 88 enc_ts (put 40 enc_static (put 8 eph_pub (put 4 (le32 index)
           ((replicate INIT_LEN 0)[0 := MSG_INITIATION])))) =
      init_wire index eph_pub enc_static enc_ts @ replicate 32 0"
    using assms put_next [of "[MSG_INITIATION, 0, 0, 0]" 4 "le32 index" 144]
      put_next [of "[MSG_INITIATION, 0, 0, 0] @ le32 index" 8 eph_pub 140]
      put_next [of "[MSG_INITIATION, 0, 0, 0] @ le32 index @ eph_pub" 40 enc_static 108]
      put_next [of "[MSG_INITIATION, 0, 0, 0] @ le32 index @ eph_pub @ enc_static" 88 enc_ts 60]
    by (simp add: zeroed_typed INIT_LEN_def init_wire_def)
  moreover have "length (init_wire index eph_pub enc_static enc_ts) = 116"
    using assms by (simp add: init_wire_def)
  ultimately show "take 116 (put 88 enc_ts (put 40 enc_static (put 8 eph_pub (put 4 (le32 index)
           ((replicate INIT_LEN 0)[0 := MSG_INITIATION]))))) = init_wire index eph_pub enc_static enc_ts"
    and "put 116 mac1 (put 88 enc_ts (put 40 enc_static (put 8 eph_pub (put 4 (le32 index)
           ((replicate INIT_LEN 0)[0 := MSG_INITIATION])))))
         = init_wire index eph_pub enc_static enc_ts @ mac1 @ replicate 16 0"
    using assms(4) by (simp_all add: put_next)
qed

lemma resp_filled:
  assumes "length er_pub = 32" "length enc_empty = 16" "length mac1 = 16"
  shows "take 60 (put 44 enc_empty (put 12 er_pub (put 8 (le32 theirs) (put 4 (le32 index)
           ((replicate RESP_LEN 0)[0 := MSG_RESPONSE]))))) = resp_wire index theirs er_pub enc_empty"
    and "put 60 mac1 (put 44 enc_empty (put 12 er_pub (put 8 (le32 theirs) (put 4 (le32 index)
           ((replicate RESP_LEN 0)[0 := MSG_RESPONSE])))))
         = resp_wire index theirs er_pub enc_empty @ mac1 @ replicate 16 0"
proof -
  have "put 44 enc_empty (put 12 er_pub (put 8 (le32 theirs) (put 4 (le32 index)
           ((replicate RESP_LEN 0)[0 := MSG_RESPONSE])))) =
      resp_wire index theirs er_pub enc_empty @ replicate 32 0"
    using assms put_next [of "[MSG_RESPONSE, 0, 0, 0]" 4 "le32 index" 88]
      put_next [of "[MSG_RESPONSE, 0, 0, 0] @ le32 index" 8 "le32 theirs" 84]
      put_next [of "[MSG_RESPONSE, 0, 0, 0] @ le32 index @ le32 theirs" 12 er_pub 80]
      put_next [of "[MSG_RESPONSE, 0, 0, 0] @ le32 index @ le32 theirs @ er_pub" 44 enc_empty 48]
    by (simp add: zeroed_typed RESP_LEN_def resp_wire_def)
  moreover have "length (resp_wire index theirs er_pub enc_empty) = 60"
    using assms by (simp add: resp_wire_def)
  ultimately show "take 60 (put 44 enc_empty (put 12 er_pub (put 8 (le32 theirs) (put 4 (le32 index)
           ((replicate RESP_LEN 0)[0 := MSG_RESPONSE]))))) = resp_wire index theirs er_pub enc_empty"
    and "put 60 mac1 (put 44 enc_empty (put 12 er_pub (put 8 (le32 theirs) (put 4 (le32 index)
           ((replicate RESP_LEN 0)[0 := MSG_RESPONSE])))))
         = resp_wire index theirs er_pub enc_empty @ mac1 @ replicate 16 0"
    using assms(3) by (simp_all add: put_next)
qed

lemma init_fields:
  assumes "length eph_pub = 32" "length enc_static = 48" "length enc_ts = 28"
  shows "get32le 4 (init_wire index eph_pub enc_static enc_ts @ rest) = index"
    and "cut 8 40 (init_wire index eph_pub enc_static enc_ts @ rest) = eph_pub"
    and "cut 40 88 (init_wire index eph_pub enc_static enc_ts @ rest) = enc_static"
    and "cut 88 116 (init_wire index eph_pub enc_static enc_ts @ rest) = enc_ts"
    and "(init_wire index eph_pub enc_static enc_ts @ rest) ! 0 = MSG_INITIATION"
    and "length (init_wire index eph_pub enc_static enc_ts) = 116"
  using assms get32le_at [of "[MSG_INITIATION, 0, 0, 0]" 4 index "eph_pub @ enc_static @ enc_ts @ rest"]
    cut_at [of "[MSG_INITIATION, 0, 0, 0] @ le32 index" 8 eph_pub 32 "enc_static @ enc_ts @ rest"]
    cut_at [of "[MSG_INITIATION, 0, 0, 0] @ le32 index @ eph_pub" 40 enc_static 48 "enc_ts @ rest"]
    cut_at [of "[MSG_INITIATION, 0, 0, 0] @ le32 index @ eph_pub @ enc_static" 88 enc_ts 28 rest]
  by (simp_all add: init_wire_def)

lemma resp_fields:
  assumes "length er_pub = 32" "length enc_empty = 16"
  shows "get32le 4 (resp_wire index theirs er_pub enc_empty @ rest) = index"
    and "get32le 8 (resp_wire index theirs er_pub enc_empty @ rest) = theirs"
    and "cut 12 44 (resp_wire index theirs er_pub enc_empty @ rest) = er_pub"
    and "cut 44 60 (resp_wire index theirs er_pub enc_empty @ rest) = enc_empty"
    and "(resp_wire index theirs er_pub enc_empty @ rest) ! 0 = MSG_RESPONSE"
    and "length (resp_wire index theirs er_pub enc_empty) = 60"
  using assms get32le_at [of "[MSG_RESPONSE, 0, 0, 0]" 4 index "le32 theirs @ er_pub @ enc_empty @ rest"]
    get32le_at [of "[MSG_RESPONSE, 0, 0, 0] @ le32 index" 8 theirs "er_pub @ enc_empty @ rest"]
    cut_at [of "[MSG_RESPONSE, 0, 0, 0] @ le32 index @ le32 theirs" 12 er_pub 32 "enc_empty @ rest"]
    cut_at [of "[MSG_RESPONSE, 0, 0, 0] @ le32 index @ le32 theirs @ er_pub" 44 enc_empty 16 rest]
  by (simp_all add: resp_wire_def)

section \<open>The key schedule both sides run\<close>

text \<open>
  The laws of the primitives: fixed output lengths, a tag of 16 bytes, what is sealed is opened
  again under the same key, nonce and associated data, and the Diffie-Hellman law.
\<close>

definition crypto_laws :: "prims \<Rightarrow> bool" where
  "crypto_laws P \<longleftrightarrow>
     (\<forall>k x. length (blake2s_mac P k x) = 16) \<and>
     (\<forall>x. length (x25519_base P x) = 32) \<and>
     (\<forall>k n x a. length (aead_encrypt P k n x a) = length x + 16) \<and>
     (\<forall>k n x a. aead_decrypt P k n (aead_encrypt P k n x a) a = Some x) \<and>
     (\<forall>a b. x25519 P a (x25519_base P b) = x25519 P b (x25519_base P a))"

lemma crypto_lengths:
  assumes "crypto_laws P"
  shows "length (mac16 P k x) = 16" "length (wg_pubkey P y) = 32"
    and "length (wg_seal P k n x a) = length x + 16"
  using assms by (simp_all add: crypto_laws_def mac16_def wg_pubkey_def wg_seal_def)

lemma open_sealed: "crypto_laws P \<Longrightarrow> wg_open P k n (wg_seal P k n x a) a = Some x"
  by (simp add: crypto_laws_def wg_open_def wg_seal_def)

lemma dh_agrees: "crypto_laws P \<Longrightarrow> wg_dh P a (wg_pubkey P b) = wg_dh P b (wg_pubkey P a)"
  by (simp add: crypto_laws_def wg_dh_def wg_pubkey_def)

text \<open>
  From the public keys and the two secrets: the chaining key, the hash, the sealed static key
  and the sealed time stamp.
\<close>

definition init_schedule ::
  "prims \<Rightarrow> bytes \<Rightarrow> bytes \<Rightarrow> bytes \<Rightarrow> bytes \<Rightarrow> bytes \<Rightarrow> bytes \<Rightarrow> bytes \<times> bytes \<times> bytes \<times> bytes"
where
  "init_schedule P eph_pub resp_pub es static_pub ss timestamp =
     (let c = wg_hash P [CONSTRUCTION];
          h = wg_hash P [wg_hash P [wg_hash P [c, IDENTIFIER], resp_pub], eph_pub];
          (c, k) = kdf2 P (kdf1 P c eph_pub) es;
          enc_static = wg_seal P k 0 static_pub h;
          h = wg_hash P [h, enc_static];
          (c, k2) = kdf2 P c ss;
          enc_ts = wg_seal P k2 0 timestamp h
      in (c, wg_hash P [h, enc_ts], enc_static, enc_ts))"

definition resp_schedule ::
  "prims \<Rightarrow> bytes \<Rightarrow> bytes \<Rightarrow> bytes \<Rightarrow> bytes \<Rightarrow> bytes \<Rightarrow> bytes \<times> bytes"
where
  "resp_schedule P c h er_pub ee se =
     (let c = kdf1 P (kdf1 P (kdf1 P c er_pub) ee) se;
          (c, tau, k) = kdf3 P c ZERO_PSK
      in (c, wg_seal P k 0 [] (wg_hash P [wg_hash P [h, er_pub], tau])))"

lemma init_schedule_lengths:
  "crypto_laws P \<Longrightarrow> init_schedule P e r es s ss ts = (c, h, enc_static, enc_ts) \<Longrightarrow>
   length enc_static = length s + 16 \<and> length enc_ts = length ts + 16"
  by (auto simp: init_schedule_def Let_def crypto_lengths split: prod.splits)

text \<open>The steps of the schedule, each written with the result of the one before.\<close>

lemma init_scheduleE:
  assumes "init_schedule P e_pub r_pub es s_pub ss ts = (c, h, enc_static, enc_ts)"
  obtains h0 h1 c1 k k2 where
    "wg_hash P [wg_hash P [wg_hash P [wg_hash P [CONSTRUCTION], IDENTIFIER], r_pub], e_pub] = h0"
    "kdf2 P (kdf1 P (wg_hash P [CONSTRUCTION]) e_pub) es = (c1, k)"
    "wg_seal P k 0 s_pub h0 = enc_static" "wg_hash P [h0, enc_static] = h1"
    "kdf2 P c1 ss = (c, k2)" "wg_seal P k2 0 ts h1 = enc_ts" "wg_hash P [h1, enc_ts] = h"
  using assms by (auto simp: init_schedule_def Let_def split: prod.splits)

lemma resp_scheduleE:
  assumes "resp_schedule P c h er_pub ee se = (c', enc_empty)"
  obtains h0 tau k h1 where
    "wg_hash P [h, er_pub] = h0"
    "kdf3 P (kdf1 P (kdf1 P (kdf1 P c er_pub) ee) se) ZERO_PSK = (c', tau, k)"
    "wg_hash P [h0, tau] = h1" "wg_seal P k 0 [] h1 = enc_empty"
  using assms by (auto simp: resp_schedule_def Let_def split: prod.splits)

lemma build_initiation_eq:
  assumes laws: "crypto_laws P" and len: "length s_pub = 32" "length ts = 12"
    and sch: "init_schedule P (wg_pubkey P e) r_pub (wg_dh P e r_pub) s_pub (wg_dh P s r_pub) ts
              = (c, h, enc_static, enc_ts)"
  shows "build_initiation P e s s_pub r_pub ts index =
    (let wire = init_wire index (wg_pubkey P e) enc_static enc_ts
     in (wire @ mac16 P (wg_hash P [LABEL_MAC1, r_pub]) wire @ replicate 16 0,
         \<lparr>hs_chaining = c, hs_hash = h, hs_eph_priv = e, hs_static_priv = s, hs_our_index = index\<rparr>))"
proof -
  have l: "length enc_static = 48" "length enc_ts = 28"
    using init_schedule_lengths [OF laws sch] len by simp_all
  note fill = init_filled [OF crypto_lengths(2) [OF laws] l crypto_lengths(1) [OF laws]]
  from sch show ?thesis
    by (rule init_scheduleE) (simp add: build_initiation_def Let_def fill)
qed

lemma consume_initiation_eq:
  assumes laws: "crypto_laws P" and len: "length s_pub = 32" "length ts = 12" "length e_pub = 32" "32 \<le> length rest"
    and sch: "init_schedule P e_pub r_pub (wg_dh P r e_pub) s_pub (wg_dh P r s_pub) ts
              = (c, h, enc_static, enc_ts)"
  shows "consume_initiation P er r r_pub (init_wire theirs e_pub enc_static enc_ts @ rest) index =
    (let (resp, tun) = build_response_msg P er c h e_pub s_pub index theirs in Ok (resp, tun, s_pub))"
proof -
  have l: "length enc_static = 48" "length enc_ts = 28"
    using init_schedule_lengths [OF laws sch] len by simp_all
  from sch show ?thesis
  proof (rule init_scheduleE, goal_cases)
    case (1 h0 h1 c1 k k2)
    have "wg_open P k 0 enc_static h0 = Some s_pub" "wg_open P k2 0 enc_ts h1 = Some ts"
      using open_sealed [OF laws] 1(3,6) by (metis, metis)
    with 1 show ?case
      using len by (simp add: consume_initiation_def Let_def init_fields [OF len(3) l] INIT_LEN_def)
  qed
qed

lemma build_response_msg_eq:
  assumes laws: "crypto_laws P"
    and sch: "resp_schedule P c h (wg_pubkey P er) (wg_dh P er e_i) (wg_dh P er s_i) = (c', enc_empty)"
  shows "build_response_msg P er c h e_i s_i index theirs =
    (let wire = resp_wire index theirs (wg_pubkey P er) enc_empty; (k1, k2) = kdf2 P c' []
     in (wire @ mac16 P (wg_hash P [LABEL_MAC1, s_i]) wire @ replicate 16 0,
         \<lparr>send_key = k2, recv_key = k1, their_index = theirs, our_index = index, tx_counter = 0\<rparr>))"
proof -
  from sch show ?thesis
  proof (rule resp_scheduleE, goal_cases)
    case (1 h0 tau k h1)
    have "length enc_empty = 16" using 1(4) crypto_lengths(3) [OF laws, of k 0 "[]"] by auto
    note fill = resp_filled [OF crypto_lengths(2) [OF laws] this crypto_lengths(1) [OF laws]]
    from 1 show ?case by (simp add: build_response_msg_def Let_def fill split: prod.split)
  qed
qed

lemma consume_response_eq:
  assumes laws: "crypto_laws P" and len: "length er_pub = 32" "32 \<le> length rest"
    and sch: "resp_schedule P (hs_chaining hs) (hs_hash hs) er_pub
                (wg_dh P (hs_eph_priv hs) er_pub) (wg_dh P (hs_static_priv hs) er_pub) = (c', enc_empty)"
  shows "consume_response P hs (resp_wire index (hs_our_index hs) er_pub enc_empty @ rest) =
    (let (k1, k2) = kdf2 P c' []
     in Ok \<lparr>send_key = k1, recv_key = k2, their_index = index, our_index = hs_our_index hs, tx_counter = 0\<rparr>)"
proof -
  from sch show ?thesis
  proof (rule resp_scheduleE, goal_cases)
    case (1 h0 tau k h1)
    have l: "length enc_empty = 16" using 1(4) crypto_lengths(3) [OF laws, of k 0 "[]"] by auto
    have "wg_open P k 0 enc_empty h1 = Some []"
      using open_sealed [OF laws] 1(4) by metis
    with 1 show ?case
      using len by (simp add: consume_response_def Let_def resp_fields [OF len(1) l] RESP_LEN_def split: prod.split)
  qed
qed

lemma handshake_keys:
  assumes "crypto_laws P" "length ts = 12"
    and "build_initiation P e s (wg_pubkey P s) (wg_pubkey P r) ts i_index = (msg, hs)"
  obtains resp rt it rest1 rest2 where
    "consume_initiation P er r (wg_pubkey P r) msg r_index = Ok (resp, rt, wg_pubkey P s)"
    "consume_response P hs resp = Ok it"
    "send_key it = recv_key rt" "recv_key it = send_key rt"
    "their_index it = our_index rt" "their_index rt = our_index it"
    "our_index it = i_index" "our_index rt = r_index" "tx_counter it = 0" "tx_counter rt = 0"
    "msg = [MSG_INITIATION, 0, 0, 0] @ le32 i_index @ rest1"
    "resp = [MSG_RESPONSE, 0, 0, 0] @ le32 r_index @ le32 i_index @ rest2"
    "length resp = RESP_LEN"
proof -
  note laws = assms(1) and [simp] = crypto_lengths [OF assms(1)]
  note dh = dh_agrees [OF laws]
  obtain c h enc_static enc_ts where sch: "init_schedule P (wg_pubkey P e) (wg_pubkey P r)
      (wg_dh P e (wg_pubkey P r)) (wg_pubkey P s) (wg_dh P s (wg_pubkey P r)) ts = (c, h, enc_static, enc_ts)"
    by (metis prod_cases4)
  obtain c' enc_empty where sch': "resp_schedule P c h (wg_pubkey P er)
      (wg_dh P er (wg_pubkey P e)) (wg_dh P er (wg_pubkey P s)) = (c', enc_empty)"
    by (metis surj_pair)
  have le: "length enc_empty = 16"
    using sch' by (rule resp_scheduleE) (use crypto_lengths(3) [OF laws, of _ 0 "[]"] in auto)
  note b = build_initiation_eq [OF laws _ assms(2) sch, of i_index]
  obtain k1 k2 where k: "kdf2 P c' [] = (k1, k2)" by force
  define wire where "wire = resp_wire r_index i_index (wg_pubkey P er) enc_empty"
  define resp where "resp = wire @ mac16 P (wg_hash P [LABEL_MAC1, wg_pubkey P s]) wire @ replicate 16 0"
  have r: "consume_initiation P er r (wg_pubkey P r) msg r_index = Ok (resp,
      \<lparr>send_key = k2, recv_key = k1, their_index = i_index, our_index = r_index, tx_counter = 0\<rparr>, wg_pubkey P s)"
    using consume_initiation_eq [OF laws _ assms(2), of "wg_pubkey P s" "wg_pubkey P e"] sch b assms(3)
      build_response_msg_eq [OF laws sch', of r_index i_index] k
    by (simp add: Let_def dh [of r] resp_def wire_def)
  have i: "consume_response P hs resp =
      Ok \<lparr>send_key = k1, recv_key = k2, their_index = r_index, our_index = i_index, tx_counter = 0\<rparr>"
    using consume_response_eq [OF laws, of "wg_pubkey P er" _ hs] sch' b assms(3) k
    by (simp add: Let_def dh [of er] resp_def wire_def)
  show ?thesis
    by (rule that [OF r i, of "drop 8 msg" "drop 12 resp"]) (use assms(3) b le in
      \<open>auto simp add: Let_def init_wire_def resp_def wire_def resp_wire_def RESP_LEN_def\<close>)
qed

text \<open>
  C11: the handshake. Under the laws of the primitives, a responder that receives the
  initiation built for its public key learns the static key of the initiator, and the
  initiator accepts the response; the two tunnels have the same two transport keys, one's
  sending key being the other's receiving key, each knows the other's index, and both count
  from zero.
\<close>

theorem handshake_agrees:
  assumes "crypto_laws P" "length ts = 12"
    and "build_initiation P e s (wg_pubkey P s) (wg_pubkey P r) ts i_index = (msg, hs)"
  shows "\<exists>resp rt it. consume_initiation P er r (wg_pubkey P r) msg r_index = Ok (resp, rt, wg_pubkey P s)
     \<and> consume_response P hs resp = Ok it
     \<and> send_key it = recv_key rt \<and> recv_key it = send_key rt
     \<and> their_index it = our_index rt \<and> their_index rt = our_index it
     \<and> our_index it = i_index \<and> our_index rt = r_index
     \<and> tx_counter it = 0 \<and> tx_counter rt = 0"
  using handshake_keys [OF assms, of er r_index] by blast

text \<open>Primitives that obey the laws, for concrete runs.\<close>

definition fit :: "nat \<Rightarrow> bytes \<Rightarrow> bytes" where
  "fit n x = take n (x @ replicate n 0)"

definition toy_prims :: prims where
  "toy_prims = \<lparr>blake2s = fit 32, blake2s_mac = (\<lambda>k x. fit 16 x), x25519 = (\<lambda>a b. map2 (XOR) (fit 32 a) b),
     x25519_base = fit 32, aead_encrypt = (\<lambda>k n x a. x @ fit 16 k),
     aead_decrypt = (\<lambda>k n x a. if drop (length x - 16) x = fit 16 k then Some (take (length x - 16) x) else None)\<rparr>"

lemma length_fit [simp]: "length (fit n x) = n"
  by (simp add: fit_def)

lemma toy_prims_laws: "crypto_laws toy_prims"
proof -
  have "map2 (XOR) (x :: bytes) y = map2 (XOR) y x" for x y
    by (induction x y rule: list_induct2') (simp_all add: xor.commute)
  then show ?thesis by (simp add: crypto_laws_def toy_prims_def)
qed

theorem handshake_agrees_witness:
  "let (msg, hs) = build_initiation toy_prims [1] [2] (wg_pubkey toy_prims [2]) (wg_pubkey toy_prims [3])
       (replicate 12 0) 7
   in \<exists>resp rt it. consume_initiation toy_prims [4] [3] (wg_pubkey toy_prims [3]) msg 8
        = Ok (resp, rt, wg_pubkey toy_prims [2])
     \<and> consume_response toy_prims hs resp = Ok it \<and> send_key it = recv_key rt"
proof -
  obtain msg hs where b: "build_initiation toy_prims [1] [2] (wg_pubkey toy_prims [2]) (wg_pubkey toy_prims [3])
       (replicate 12 0) 7 = (msg, hs)" by (cases "build_initiation toy_prims [1] [2] (wg_pubkey toy_prims [2])
         (wg_pubkey toy_prims [3]) (replicate 12 0) 7")
  show ?thesis
    using handshake_agrees [OF toy_prims_laws _ b, of "[4]" 8] b by auto
qed

section \<open>Packets through a tunnel\<close>

lemma pad16_eq: "\<exists>n<16. pad16 pt = pt @ replicate n 0 \<and> (length pt + n) mod 16 = 0"
proof (induction pt rule: pad16.induct)
  case (1 pt)
  show ?case
  proof (cases "length pt mod 16 = 0")
    case True
    then show ?thesis by (intro exI [of _ 0]) (simp add: pad16.simps)
  next
    case False
    from 1 [OF False] obtain n where n: "n < 16" "pad16 (pt @ [0]) = (pt @ [0]) @ replicate n 0"
      "(length (pt @ [0]) + n) mod 16 = 0" by auto
    have "n \<noteq> 15"
    proof
      assume "n = 15"
      with n(3) have "(length pt + 16) mod 16 = 0" by simp
      with False show False by simp
    qed
    with n False show ?thesis
      by (intro exI [of _ "Suc n"]) (simp add: pad16.simps [of pt] replicate_app_Cons_same)
  qed
qed

fun encrypt_all :: "prims \<Rightarrow> bytes list \<Rightarrow> tunnel \<Rightarrow> bytes list" where
  "encrypt_all P [] t = []"
| "encrypt_all P (x # xs) t = (let (pkt, t) = wg_encrypt P x t in pkt # encrypt_all P xs t)"

definition transport_packet :: "prims \<Rightarrow> bytes \<Rightarrow> u32 \<Rightarrow> u64 \<Rightarrow> bytes \<Rightarrow> bytes" where
  "transport_packet P key index counter x =
     [MSG_TRANSPORT, 0, 0, 0] @ le32 index @ le64 counter @ wg_seal P key counter (pad16 x) []"

lemma encrypt_all_packets:
  "encrypt_all P xs t =
   map (\<lambda>(i, x). transport_packet P (send_key t) (their_index t) (tx_counter t + word_of_nat i) x) (enumerate 0 xs)"
proof (induction xs arbitrary: t)
  case (Cons x xs)
  have "map (\<lambda>(i, x). transport_packet P k d (c + 1 + word_of_nat i) x) (enumerate 0 xs)
      = map (\<lambda>(i, x). transport_packet P k d (c + word_of_nat i) x) (enumerate (Suc 0) xs)" for k d c
    by (rule nth_equalityI) (simp_all add: nth_enumerate_eq algebra_simps)
  with Cons show ?case by (simp add: wg_encrypt_def transport_packet_def Let_def)
qed simp

lemma transport_packet_fields:
  assumes "crypto_laws P"
  shows "get64le 8 (transport_packet P k d c x) = c" "transport_packet P k d c x ! 0 = MSG_TRANSPORT"
    and "drop 16 (transport_packet P k d c x) = wg_seal P k c (pad16 x) []"
    and "32 \<le> length (transport_packet P k d c x)"
  using assms get64le_at [of "[MSG_TRANSPORT, 0, 0, 0] @ le32 d" 8 c "wg_seal P k c (pad16 x) []"]
  by (simp_all add: transport_packet_def crypto_lengths)

lemma decrypt_packet:
  assumes "crypto_laws P"
  shows "wg_decrypt P (transport_packet P (recv_key r) d c x) r = Ok (pad16 x)"
    and "decrypt_transport P k (transport_packet P k d c x) = Some (pad16 x)"
  using transport_packet_fields [OF assms] open_sealed [OF assms]
  by (simp_all add: wg_decrypt_def decrypt_transport_def not_less)

text \<open>
  C12: the transport. Whatever one end of a tunnel encrypts, the other end decrypts to the
  packet with fewer than 16 zero bytes behind it, each packet on its own, so in any order and
  with losses; and as long as fewer than \<open>2 ^ 64\<close> packets are sent no nonce is used twice.
\<close>

theorem tunnel_delivers:
  assumes "crypto_laws P" "send_key t = recv_key r" "length xs < 2 ^ 64" "i < length xs"
  shows "(\<exists>n<16. wg_decrypt P (encrypt_all P xs t ! i) r = Ok (xs ! i @ replicate n 0)
            \<and> decrypt_transport P (recv_key r) (encrypt_all P xs t ! i) = Some (xs ! i @ replicate n 0))
     \<and> distinct (map (get64le 8) (encrypt_all P xs t))"
proof -
  have d: "encrypt_all P xs t ! i =
      transport_packet P (recv_key r) (their_index t) (tx_counter t + word_of_nat i) (xs ! i)"
    using assms(2,4) by (simp add: encrypt_all_packets nth_enumerate_eq)
  have "map (get64le 8) (encrypt_all P xs t) = map (\<lambda>i. tx_counter t + word_of_nat i) [0..<length xs]"
    by (rule nth_equalityI) (simp_all add: encrypt_all_packets nth_enumerate_eq transport_packet_fields [OF assms(1)])
  moreover have "inj_on (\<lambda>i. tx_counter t + word_of_nat i) {0..<length xs}"
  proof (rule inj_onI)
    fix i j assume "i \<in> {0..<length xs}" "j \<in> {0..<length xs}"
      and "tx_counter t + word_of_nat i = tx_counter t + word_of_nat j"
    then show "i = j" using assms(3) by (simp add: word_of_nat_eq_iff take_bit_eq_mod)
  qed
  ultimately have "distinct (map (get64le 8) (encrypt_all P xs t))" by (simp add: distinct_map)
  then show ?thesis
    unfolding d decrypt_packet [OF assms(1)] using pad16_eq [of "xs ! i"] by auto
qed

theorem tunnel_delivers_witness:
  "\<exists>n<16. wg_decrypt toy_prims (encrypt_all toy_prims [[1], [2, 3]]
       \<lparr>send_key = [9], recv_key = [8], their_index = 1, our_index = 2, tx_counter = - 1\<rparr> ! 1)
     \<lparr>send_key = [8], recv_key = [9], their_index = 2, our_index = 1, tx_counter = 0\<rparr> = Ok ([2, 3] @ replicate n 0)"
  using tunnel_delivers [OF toy_prims_laws, of "\<lparr>send_key = [9], recv_key = [8], their_index = 1, our_index = 2, tx_counter = - 1\<rparr>"
     "\<lparr>send_key = [8], recv_key = [9], their_index = 2, our_index = 1, tx_counter = 0\<rparr>" "[[1], [2, 3]]" 1]
  by auto

text \<open>A packet that is received again is decrypted again: no counter is remembered.\<close>

lemma replay_accepted:
  "wg_decrypt P pkt t = Ok x \<Longrightarrow> decrypt_transport P (recv_key t) pkt = Some x"
  by (auto simp: wg_decrypt_def decrypt_transport_def ok_or_def split: if_splits option.splits)

end
