(* ===== verification/Dataplane.thy ===== *)
theory Dataplane
  imports TcpServer Stun Peers Wg Disco "HOL-Library.AList"
begin

text \<open>
  \<open>src/dataplane.rs\<close> with the default features of the firmware: the thread that owns the UDP
  socket. Its state are the handshakes in flight, the tunnels, the confirmed addresses and the
  outbound client; every handler takes the state and the effects so far and returns both. A
  \<open>HashMap\<close> is an association list with distinct keys (the order of its elements is an order the
  iteration of the map may have). What the handlers take from outside is an argument: the
  random bytes, the clock, the primitives of the crates and the results of the sends.
\<close>

section \<open>State\<close>

record peer_target =
  t_name :: string
  t_disco_pub :: bytes
  t_node_pub :: bytes
  t_endpoints :: "socket_addr list"
  t_spray :: bool

record outbound_cfg =
  oc_our_ip :: bytes
  oc_target_ip :: bytes
  oc_target_node :: bytes
  oc_http_port :: u16
  oc_http_path :: string

record pending_hs =
  p_addr :: socket_addr
  p_init :: bytes
  p_hs :: wg_handshake
  p_index :: u32
  p_sent_tick :: u32
  p_retries :: u32

record tunnel_entry =
  e_tun :: tunnel
  e_addr :: socket_addr
  e_node :: bytes
  e_tcp :: tcp_server

record outbound_run =
  ob_cfg :: outbound_cfg
  ob_ident :: u16
  ob_seq :: u16
  ob_sport :: u16
  ob_tcp :: "tcp_client option"
  ob_started :: bool
  ob_http_done :: bool

record dp_state =
  pendings :: "(bytes \<times> pending_hs) list"
  tunnels :: "(u32 \<times> tunnel_entry) list"
  confirmed :: "socket_addr list"
  outbound :: "outbound_run option"
  mdns_reinject :: bool
  mdns_partner :: bytes

text \<open>What a handler does outside: a datagram, a multicast on the LAN, an action for the screen.\<close>

datatype effect = Sent bytes socket_addr | Reinject bytes | Dispatch tcp_action

text \<open>
  What a call takes from outside. \<open>net_ok n\<close> is the result of the send that follows \<open>n\<close>
  effects, \<open>rand_txid\<close>, \<open>rand_nonce\<close> and \<open>rand_ports\<close> are the random bytes drawn at that
  point.
\<close>

record dp_env =
  dp_prims :: prims
  dp_seal :: box_seal
  dp_open :: box_open
  dp_machine :: target
  dp_server :: tcp_server
  net_ok :: "nat \<Rightarrow> bool"
  rand_index :: u32
  rand_eph :: bytes
  rand_iss :: u32
  rand_txid :: "nat \<Rightarrow> bytes"
  rand_nonce :: "nat \<Rightarrow> bytes"
  rand_ports :: "nat \<Rightarrow> bytes"
  unix_secs :: u64
  unix_nanos :: u32
  clock_ms :: u64

definition PENDING_TIMEOUT_TICKS :: u32 where "PENDING_TIMEOUT_TICKS = 3"
definition MAX_STRIKES :: u8 where "MAX_STRIKES = 3"
definition MAX_HS_RETRIES :: u32 where "MAX_HS_RETRIES = 4"
definition MAX_TUNNELS :: nat where "MAX_TUNNELS = 8"
definition FWD_PORT :: u16 where "FWD_PORT = 5354"

definition dp_new :: "outbound_cfg option \<Rightarrow> bytes \<Rightarrow> bool \<Rightarrow> bytes \<Rightarrow> dp_state" where
  "dp_new cfg s mdns partner =
     \<lparr>pendings = [], tunnels = [], confirmed = [],
      outbound = map_option (\<lambda>c. \<lparr>ob_cfg = c, ob_ident = of_be16 (s ! 1) (s ! 0), ob_seq = 0,
        ob_sport = 1024 + of_be16 (s ! 3) (s ! 2) mod 60000, ob_tcp = None, ob_started = False,
        ob_http_done = False\<rparr>) cfg,
      mdns_reinject = mdns, mdns_partner = (if mdns then partner else replicate 32 0)\<rparr>"

definition send_to :: "dp_env \<Rightarrow> bytes \<Rightarrow> socket_addr \<Rightarrow> effect list \<Rightarrow> bool \<times> effect list" where
  "send_to v pkt addr out = (net_ok v (length out), out @ [Sent pkt addr])"

section \<open>Inner packets\<close>

text \<open>Segments for a peer, each encrypted with the tunnel and sent.\<close>

fun encrypt_to :: "prims \<Rightarrow> socket_addr \<Rightarrow> bytes list \<Rightarrow> tunnel \<Rightarrow> effect list \<times> tunnel" where
  "encrypt_to P addr [] t = ([], t)"
| "encrypt_to P addr (seg # segs) t =
     (let (pkt, t) = wg_encrypt P seg t; (out, t) = encrypt_to P addr segs t
      in (Sent pkt addr # out, t))"

text \<open>The same for the tunnel in a slot of the table.\<close>

definition send_inner ::
  "dp_env \<Rightarrow> u32 \<Rightarrow> socket_addr \<Rightarrow> bytes list \<Rightarrow> effect list \<times> dp_state \<Rightarrow> effect list \<times> dp_state"
where
  "send_inner v idx addr segs r = (let (out, st) = r in
     case map_of (tunnels st) idx of None \<Rightarrow> (out, st)
     | Some e \<Rightarrow> (let (sent, t) = encrypt_to (dp_prims v) addr segs (e_tun e)
                  in (out @ sent, st\<lparr>tunnels := AList.map_entry idx (e_tun_update (\<lambda>_. t)) (tunnels st)\<rparr>)))"

definition udp_payload_to_port :: "bytes \<Rightarrow> u16 \<Rightarrow> bytes option" where
  "udp_payload_to_port inner port =
     (if length inner < 20 \<or> drop_bit 4 (inner ! 0) \<noteq> 4 \<or> inner ! 9 \<noteq> 17 then None
      else let ihl = ip_ihl inner; total = unat (get16 2 inner) in
      if ihl + 8 > total \<or> total > length inner then None
      else let udp = cut ihl total inner in
      if get16 2 udp \<noteq> port then None else Some (drop 8 udp))"

text \<open>Replies to what the device started: whether the packet was handled, and the segments.\<close>

definition outbound_reply :: "bytes \<Rightarrow> outbound_run \<Rightarrow> bool \<times> bytes list \<times> outbound_run" where
  "outbound_reply inner ob = (case ob_tcp ob of None \<Rightarrow> (False, [], ob)
     | Some tc \<Rightarrow>
         if owns tc inner then
          (let (segs, tc) = on_inner inner tc;
               done_now = c_done tc \<and> \<not> ob_http_done ob
           in (segs \<noteq> [] \<or> done_now, segs,
               ob\<lparr>ob_tcp := Some tc, ob_http_done := ob_http_done ob \<or> done_now\<rparr>))
         else (False, [], ob))"

text \<open>The HTTP server of the tunnel: the rest of \<open>handle_decrypted\<close>.\<close>

definition serve_http ::
  "dp_env \<Rightarrow> u32 \<Rightarrow> bytes \<Rightarrow> socket_addr \<Rightarrow> effect list \<times> dp_state \<Rightarrow> (effect list \<times> dp_state) option"
where
  "serve_http v idx inner src r = (let (out, st) = r in
     case map_of (tunnels st) idx of None \<Rightarrow> Some (out, st)
     | Some e \<Rightarrow>
         Option.bind (handle_stream (dp_machine v) (rand_iss v) inner (clock_ms v) (e_tcp e)) (\<lambda>(segs, srv).
           let (sent, t) = encrypt_to (dp_prims v) src segs (e_tun e);
               (action, srv) = take_action srv
           in Some (out @ sent @ (case action of None \<Rightarrow> [] | Some a \<Rightarrow> [Dispatch a]),
                st\<lparr>tunnels := AList.map_entry idx (\<lambda>e. e\<lparr>e_tun := t, e_tcp := srv\<rparr>) (tunnels st)\<rparr>)))"

definition is_target :: "bytes \<Rightarrow> dp_state \<Rightarrow> bool" where
  "is_target node st \<longleftrightarrow> (case outbound st of None \<Rightarrow> False
     | Some o' \<Rightarrow> oc_target_node (ob_cfg o') = node)"

text \<open>What follows the packet filter.\<close>

definition deliver_inner ::
  "dp_env \<Rightarrow> u32 \<Rightarrow> bytes \<Rightarrow> bytes \<Rightarrow> socket_addr \<Rightarrow> effect list \<times> dp_state \<Rightarrow> (effect list \<times> dp_state) option"
where
  "deliver_inner v idx node inner src r = (let (out, st) = r in
     if node = mdns_partner st \<and> udp_payload_to_port inner FWD_PORT \<noteq> None then
       Some (out @ (if mdns_reinject st then [Reinject (the (udp_payload_to_port inner FWD_PORT))] else []), st)
     else
      (let (handled, out, st) =
         (if is_target node st then
           (let (handled, segs, ob) = outbound_reply inner (the (outbound st))
            in (handled, send_inner v idx src segs (out, st\<lparr>outbound := Some ob\<rparr>)))
          else (False, out, st))
       in if handled then Some (out, st)
          else case echo_reply_any inner of
            Some reply \<Rightarrow> Some (send_inner v idx src [reply] (out, st))
          | None \<Rightarrow> serve_http v idx inner src (out, st)))"

definition handle_decrypted ::
  "dp_env \<Rightarrow> identity \<Rightarrow> u32 \<Rightarrow> bytes \<Rightarrow> socket_addr \<Rightarrow> effect list \<times> dp_state \<Rightarrow> (effect list \<times> dp_state) option"
where
  "handle_decrypted v me idx inner src r = (let (out, st) = r in
     case map_of (tunnels st) idx of None \<Rightarrow> Some (out, st)
     | Some e \<Rightarrow>
        (let st = st\<lparr>tunnels := AList.map_entry idx (e_addr_update (\<lambda>_. src)) (tunnels st)\<rparr> in
         if inner = [] then Some (out, st)
         else if \<not> src_allowed (id_allowed_srcs me) inner then Some (out, st)
         else deliver_inner v idx (e_node e) inner src (out, st)))"

section \<open>Handshakes\<close>

definition insert_tunnel ::
  "dp_env \<Rightarrow> u32 \<Rightarrow> tunnel \<Rightarrow> socket_addr \<Rightarrow> bytes \<Rightarrow> dp_state \<Rightarrow> dp_state"
where
  "insert_tunnel v idx tun addr node st =
     (let kept = filter (\<lambda>(_, e). e_addr e \<noteq> addr) (tunnels st)
      in st\<lparr>tunnels := AList.update idx \<lparr>e_tun = tun, e_addr = addr, e_node = node, e_tcp = dp_server v\<rparr> kept\<rparr>)"

definition handle_wg_init ::
  "dp_env \<Rightarrow> identity \<Rightarrow> bytes \<Rightarrow> socket_addr \<Rightarrow> effect list \<times> dp_state \<Rightarrow> effect list \<times> dp_state"
where
  "handle_wg_init v me pkt src r = (let (out, st) = r in
     case consume_initiation (dp_prims v) (rand_eph v) (id_node_priv me) (id_node_pub me) pkt (rand_index v) of
       Ok (reply, tun, peer_static) \<Rightarrow>
         (snd (send_to v reply src out), insert_tunnel v (rand_index v) tun src peer_static st)
     | _ \<Rightarrow> (out, st))"

definition handle_wg_response ::
  "dp_env \<Rightarrow> bytes \<Rightarrow> socket_addr \<Rightarrow> effect list \<times> dp_state \<Rightarrow> effect list \<times> dp_state"
where
  "handle_wg_response v pkt src r = (let (out, st) = r in
     if length pkt < 12 then (out, st) else
     let recv = get32le 8 pkt in
     case find (\<lambda>(_, p). p_index p = recv) (pendings st) of
       None \<Rightarrow> (out, st)
     | Some (key, p) \<Rightarrow>
        (let st = st\<lparr>pendings := AList.delete key (pendings st)\<rparr> in
         case consume_response (dp_prims v) (p_hs p) pkt of
           Ok tun \<Rightarrow>
             (let (ka, tun) = keepalive (dp_prims v) tun;
                  out = snd (send_to v ka src out)
              in (out, insert_tunnel v (p_index p) tun src key st))
         | _ \<Rightarrow> (out, st)))"

definition handle_wg_transport ::
  "dp_env \<Rightarrow> identity \<Rightarrow> bytes \<Rightarrow> socket_addr \<Rightarrow> effect list \<times> dp_state \<Rightarrow> (effect list \<times> dp_state) option"
where
  "handle_wg_transport v me pkt src r = (let (out, st) = r in
     if length pkt < 16 then Some (out, st) else
     let idx = get32le 4 pkt in
     case map_of (tunnels st) idx of
       None \<Rightarrow> Some (out, st)
     | Some e \<Rightarrow> (case wg_decrypt (dp_prims v) pkt (e_tun e) of
           Ok inner \<Rightarrow> handle_decrypted v me idx inner src (out, st)
         | _ \<Rightarrow> Some (out, st)))"

definition maybe_start_handshake ::
  "dp_env \<Rightarrow> identity \<Rightarrow> peer_target list \<Rightarrow> u32 \<Rightarrow> bytes \<Rightarrow> socket_addr \<Rightarrow> effect list \<times> dp_state
     \<Rightarrow> effect list \<times> dp_state"
where
  "maybe_start_handshake v me targets tick disco_pub src r = (let (out, st) = r in
     case find (\<lambda>t. t_disco_pub t = disco_pub) targets of
       None \<Rightarrow> (out, st)
     | Some t \<Rightarrow>
         if t_node_pub t \<in> fst ` set (pendings st)
            \<or> list_ex (\<lambda>(_, e). e_addr e = src) (tunnels st)
            \<or> length (tunnels st) + length (pendings st) \<ge> MAX_TUNNELS then (out, st)
         else
          (let ts = tai64n (unix_secs v) (unix_nanos v);
               (msg, hs) = build_initiation (dp_prims v) (rand_eph v) (id_node_priv me) (id_node_pub me)
                             (t_node_pub t) ts (rand_index v);
               (ok, out) = send_to v msg src out
           in if ok then (out, st\<lparr>pendings := AList.update (t_node_pub t)
                 \<lparr>p_addr = src, p_init = msg, p_hs = hs, p_index = rand_index v,
                  p_sent_tick = tick, p_retries = 0\<rparr> (pendings st)\<rparr>)
              else (out, st)))"

section \<open>A datagram\<close>

definition handle_disco ::
  "dp_env \<Rightarrow> identity \<Rightarrow> peer_target list \<Rightarrow> u32 \<Rightarrow> bytes \<Rightarrow> socket_addr \<Rightarrow> effect list \<times> dp_state
     \<Rightarrow> effect list \<times> dp_state"
where
  "handle_disco v me targets tick pkt src r = (let (out, st) = r in
     case disco_open (dp_open v) (id_disco_priv me) pkt of
       Ok msg \<Rightarrow>
         if msg_type msg = PING then
          (case disco_seal (dp_seal v) (rand_nonce v (length out)) (id_disco_priv me) (id_disco_pub me)
                  (sender_disco_pub msg) (pong_plaintext (d_txid msg) src) of
             Ok reply \<Rightarrow> (snd (send_to v reply src out), st)
           | _ \<Rightarrow> (out, st))
         else if msg_type msg = PONG then
           maybe_start_handshake v me targets tick (sender_disco_pub msg) src
             (out, st\<lparr>confirmed := List.insert src (confirmed st)\<rparr>)
         else (out, st)
     | _ \<Rightarrow> (out, st))"

definition handle_packet ::
  "dp_env \<Rightarrow> identity \<Rightarrow> peer_target list \<Rightarrow> u32 \<Rightarrow> bytes \<Rightarrow> socket_addr \<Rightarrow> effect list \<times> dp_state
     \<Rightarrow> (effect list \<times> dp_state) option"
where
  "handle_packet v me targets tick pkt src r =
     (if is_disco pkt then Some (handle_disco v me targets tick pkt src r)
      else if is_stun pkt then Some r
      else if pkt \<noteq> [] \<and> pkt ! 0 = MSG_INITIATION then Some (handle_wg_init v me pkt src r)
      else if pkt \<noteq> [] \<and> pkt ! 0 = MSG_RESPONSE then Some (handle_wg_response v pkt src r)
      else if pkt \<noteq> [] \<and> pkt ! 0 = MSG_TRANSPORT then handle_wg_transport v me pkt src r
      else Some r)"

text \<open>
  The dual-core build: the receiving key is read under the lock, the packet is opened without
  it, and the packet is handled under the lock again. The state may have changed in between.
\<close>

definition packet_key :: "bytes \<Rightarrow> dp_state \<Rightarrow> bytes option" where
  "packet_key pkt st = map_option (\<lambda>e. recv_key (e_tun e)) (map_of (tunnels st) (get32le 4 pkt))"

definition process_packet ::
  "dp_env \<Rightarrow> identity \<Rightarrow> peer_target list \<Rightarrow> u32 \<Rightarrow> bytes \<Rightarrow> socket_addr \<Rightarrow> dp_state
     \<Rightarrow> effect list \<times> dp_state \<Rightarrow> (effect list \<times> dp_state) option"
where
  "process_packet v me targets tick pkt src before r =
     (if pkt \<noteq> [] \<and> pkt ! 0 = MSG_TRANSPORT \<and> length pkt \<ge> 16 then
       (case packet_key pkt before of
          None \<Rightarrow> Some r
        | Some key \<Rightarrow> (case decrypt_transport (dp_prims v) key pkt of
            None \<Rightarrow> Some r
          | Some inner \<Rightarrow> handle_decrypted v me (get32le 4 pkt) inner src r))
      else handle_packet v me targets tick pkt src r)"

section \<open>Port prediction\<close>

text \<open>The sweep runs on \<open>i32\<close>; its products wrap in a release build.\<close>

definition wrap32 :: "int \<Rightarrow> int" where
  "wrap32 i = sint (word_of_int i :: 32 word)"

definition SWEEP_WIN :: int where "SWEEP_WIN = 1024"
definition RANDOM_TAIL :: nat where "RANDOM_TAIL = 256"

definition sweep_center :: "u16 \<Rightarrow> u32 \<Rightarrow> int" where
  "sweep_center base tick =
     (let round = uint (tick div 2);
          step = wrap32 (round + 1) div 2;
          dir = (if round mod 2 = 0 then 1 else - 1)
      in wrap32 (uint base + wrap32 (dir * step * SWEEP_WIN)))"

definition birthday_ports :: "u16 \<Rightarrow> u32 \<Rightarrow> bytes \<Rightarrow> u16 list" where
  "birthday_ports base tick rnd =
     (let center = sweep_center base tick;
          sweep = filter (\<lambda>p. 1024 \<le> p \<and> p \<le> 65535)
            (map (\<lambda>d. wrap32 (center - SWEEP_WIN div 2 + int d)) [0..<nat SWEEP_WIN]);
          tail = filter (\<lambda>p. 1024 \<le> p) (map (\<lambda>i. of_be16 (rnd ! (2 * i + 1)) (rnd ! (2 * i))) [0..<RANDOM_TAIL])
      in map word_of_int sweep @ tail)"

definition is_public_v4 :: "bytes \<Rightarrow> bool" where
  "is_public_v4 ip =
     (\<not> (ip ! 0 = 10
       \<or> ip ! 0 = 172 \<and> 16 \<le> ip ! 1 \<and> ip ! 1 \<le> 31
       \<or> ip ! 0 = 192 \<and> ip ! 1 = 168
       \<or> ip ! 0 = 169 \<and> ip ! 1 = 254
       \<or> ip ! 0 = 127
       \<or> ip ! 0 = 100 \<and> 64 \<le> ip ! 1 \<and> ip ! 1 \<le> 127
       \<or> ip ! 0 = 0))"

section \<open>Housekeeping\<close>

text \<open>
  The local variables of the loop: the peers to reach, the counters of the rounds, the send
  errors of each endpoint, and when the last probe and the last STUN request were sent.
\<close>

record dp_loop =
  lp_targets :: "peer_target list"
  lp_tick :: u32
  lp_strikes :: "(socket_addr \<times> u8) list"
  lp_last_probe :: u64
  lp_last_stun :: u64
  lp_round :: u32

fun tick_tunnels ::
  "prims \<Rightarrow> u64 \<Rightarrow> (u32 \<times> tunnel_entry) list \<Rightarrow> (effect list \<times> (u32 \<times> tunnel_entry) list) option"
where
  "tick_tunnels P now [] = Some ([], [])"
| "tick_tunnels P now ((k, e) # es) =
     Option.bind (srv_tick now (e_tcp e)) (\<lambda>(segs, srv).
       let (sent, t) = encrypt_to P (e_addr e) segs (e_tun e) in
       Option.bind (tick_tunnels P now es) (\<lambda>(out, es).
         Some (sent @ out, (k, e\<lparr>e_tun := t, e_tcp := srv\<rparr>) # es)))"

definition add_endpoints :: "socket_addr list \<Rightarrow> socket_addr list \<Rightarrow> socket_addr list" where
  "add_endpoints new eps = foldl (\<lambda>eps ep. if ep \<in> set eps then eps else eps @ [ep]) eps new"

fun merge_target :: "peer_target \<Rightarrow> peer_target list \<Rightarrow> peer_target list" where
  "merge_target t [] = [t]"
| "merge_target t (e # es) =
     (if t_node_pub e = t_node_pub t
      then e\<lparr>t_endpoints := add_endpoints (t_endpoints t) (t_endpoints e),
             t_spray := (t_spray e \<or> t_spray t)\<rparr> # es
      else e # merge_target t es)"

text \<open>One handshake in flight: dropped, sent again, or left.\<close>

definition retry_one :: "bool \<Rightarrow> u32 \<Rightarrow> pending_hs \<Rightarrow> effect list \<times> pending_hs option" where
  "retry_one have tick p =
     (if have then ([], None)
      else if tick - p_sent_tick p > PENDING_TIMEOUT_TICKS then
        (if p_retries p \<ge> MAX_HS_RETRIES then ([], None)
         else ([Sent (p_init p) (p_addr p)], Some (p\<lparr>p_sent_tick := tick, p_retries := p_retries p + 1\<rparr>)))
      else ([], Some p))"

definition has_tunnel_at :: "dp_state \<Rightarrow> socket_addr \<Rightarrow> bool" where
  "has_tunnel_at st addr = list_ex (\<lambda>(_, e). e_addr e = addr) (tunnels st)"

definition retry_pendings :: "u32 \<Rightarrow> effect list \<times> dp_state \<Rightarrow> effect list \<times> dp_state" where
  "retry_pendings tick r = (let (out, st) = r;
       step = (\<lambda>p. retry_one (has_tunnel_at st (p_addr p)) tick p)
     in (out @ concat (map (\<lambda>(_, p). fst (step p)) (pendings st)),
         st\<lparr>pendings := List.map_filter (\<lambda>(k, p). map_option (Pair k) (snd (step p))) (pendings st)\<rparr>))"

text \<open>A probe of one endpoint, with its send errors counted.\<close>

definition probe_endpoint ::
  "dp_env \<Rightarrow> bytes \<Rightarrow> socket_addr \<Rightarrow> effect list \<times> (socket_addr \<times> u8) list
     \<Rightarrow> effect list \<times> (socket_addr \<times> u8) list"
where
  "probe_endpoint v pkt ep r = (let (out, strikes) = r;
       s = (case map_of strikes ep of None \<Rightarrow> 0 | Some s \<Rightarrow> s) in
     if s \<ge> MAX_STRIKES then (out, AList.update ep s strikes)
     else (let (ok, out) = send_to v pkt ep out
           in (out, AList.update ep (if ok then 0 else s + 1) strikes)))"

fun addr_ip :: "socket_addr \<Rightarrow> bool \<times> bytes" where
  "addr_ip (V4 ip port) = (False, ip)"
| "addr_ip (V6 ip port) = (True, ip)"

definition spray ::
  "dp_env \<Rightarrow> u32 \<Rightarrow> bytes \<Rightarrow> peer_target \<Rightarrow> dp_state \<Rightarrow> effect list \<Rightarrow> effect list"
where
  "spray v round pkt t st out =
     (if \<not> t_spray t \<or> list_ex (\<lambda>(_, e). list_ex (\<lambda>ep. addr_ip ep = addr_ip (e_addr e)) (t_endpoints t)) (tunnels st)
      then out
      else foldl (\<lambda>out ep. case ep of
             V4 ip port \<Rightarrow>
               if is_public_v4 ip then
                 foldl (\<lambda>out p. snd (send_to v pkt (V4 ip p) out)) out
                   (birthday_ports port round (rand_ports v (length out)))
               else out
           | V6 ip port \<Rightarrow> out) out (t_endpoints t))"

definition probe_target ::
  "dp_env \<Rightarrow> identity \<Rightarrow> u32 \<Rightarrow> dp_state \<Rightarrow> peer_target \<Rightarrow> effect list \<times> (socket_addr \<times> u8) list
     \<Rightarrow> effect list \<times> (socket_addr \<times> u8) list"
where
  "probe_target v me round st t r = (let (out, strikes) = r in
     if list_ex (has_tunnel_at st) (t_endpoints t) then (out, strikes) else
     case disco_seal (dp_seal v) (rand_nonce v (length out)) (id_disco_priv me) (id_disco_pub me)
            (t_disco_pub t) (ping_plaintext (rand_txid v (length out)) (id_node_pub me)) of
       Ok pkt \<Rightarrow>
        (let (out, strikes) = foldl (\<lambda>r ep. probe_endpoint v pkt ep r) (out, strikes) (t_endpoints t)
         in (spray v round pkt t st out, strikes))
     | _ \<Rightarrow> (out, strikes))"

text \<open>A keepalive through every tunnel.\<close>

fun keep_tunnels :: "prims \<Rightarrow> (u32 \<times> tunnel_entry) list \<Rightarrow> effect list \<times> (u32 \<times> tunnel_entry) list" where
  "keep_tunnels P [] = ([], [])"
| "keep_tunnels P ((k, e) # es) =
     (let (ka, t) = keepalive P (e_tun e); (out, es) = keep_tunnels P es
      in (Sent ka (e_addr e) # out, (k, e\<lparr>e_tun := t\<rparr>) # es))"

text \<open>The ping and the one request of the outbound client, once there is a tunnel to its peer.\<close>

definition outbound_request :: "outbound_cfg \<Rightarrow> bytes" where
  "outbound_request c = of_text
     (''GET '' @ oc_http_path c @ '' HTTP/1.1'' @ crlf @ ''Host: '' @ ip_text (get32 0 (oc_target_ip c)) @ crlf
      @ ''User-Agent: tdongle'' @ crlf @ ''Connection: close'' @ crlf @ crlf)"

definition run_outbound :: "dp_env \<Rightarrow> effect list \<times> dp_state \<Rightarrow> effect list \<times> dp_state" where
  "run_outbound v r = (let (out, st) = r in
     case outbound st of None \<Rightarrow> (out, st)
     | Some ob \<Rightarrow> (case find (\<lambda>(_, e). e_node e = oc_target_node (ob_cfg ob)) (tunnels st) of
         None \<Rightarrow> (out, st)
       | Some (idx, e) \<Rightarrow>
          (let c = ob_cfg ob;
               ob = ob\<lparr>ob_seq := ob_seq ob + 1\<rparr>;
               req = icmp_echo_request (oc_our_ip c) (oc_target_ip c) (ob_ident ob) (ob_seq ob) (of_text ''tdongle-s3'');
               (segs, ob) =
                 (if ob_started ob then ([req], ob)
                  else let tc = client_new (rand_iss v) (oc_our_ip c) (oc_target_ip c) (ob_sport ob)
                                  (oc_http_port c) (outbound_request c);
                           (syn, tc) = client_open tc
                       in ([req, syn], ob\<lparr>ob_started := True, ob_tcp := Some tc\<rparr>))
           in send_inner v idx (e_addr e) segs (out, st\<lparr>outbound := Some ob\<rparr>))))"

definition probe_round ::
  "dp_env \<Rightarrow> identity \<Rightarrow> dp_loop \<Rightarrow> effect list \<times> dp_state \<Rightarrow> dp_loop \<times> effect list \<times> dp_state"
where
  "probe_round v me l r = (let (out, st) = r in
     if sat_sub (clock_ms v) (lp_last_probe l) < 2000 then (l, out, st)
     else
      (let l = l\<lparr>lp_last_probe := clock_ms v, lp_round := lp_round l + 1\<rparr>;
           (out, strikes) = foldl (\<lambda>r t. probe_target v me (lp_round l) st t r) (out, lp_strikes l) (lp_targets l);
           (sent, ts) = keep_tunnels (dp_prims v) (tunnels st)
       in (l\<lparr>lp_strikes := strikes\<rparr>, run_outbound v (out @ sent, st\<lparr>tunnels := ts\<rparr>))))"

definition stun_refresh ::
  "dp_env \<Rightarrow> socket_addr option \<Rightarrow> dp_loop \<Rightarrow> effect list \<Rightarrow> dp_loop \<times> effect list"
where
  "stun_refresh v stun_addr l out =
     (if sat_sub (clock_ms v) (lp_last_stun l) < 15000 then (l, out)
      else (l\<lparr>lp_last_stun := clock_ms v\<rparr>,
        (case stun_addr of None \<Rightarrow> out
         | Some a \<Rightarrow> snd (send_to v (fst (binding_request (rand_txid v (length out)))) a out))))"

text \<open>\<open>news\<close> are the peers that arrived on the channel.\<close>

definition run_periodic ::
  "dp_env \<Rightarrow> identity \<Rightarrow> socket_addr option \<Rightarrow> peer_target list \<Rightarrow> dp_loop \<Rightarrow> dp_state
     \<Rightarrow> (dp_loop \<times> effect list \<times> dp_state) option"
where
  "run_periodic v me stun_addr news l st =
     Option.bind (tick_tunnels (dp_prims v) (clock_ms v) (tunnels st)) (\<lambda>(out, ts).
       let st = st\<lparr>tunnels := ts\<rparr>;
           l = l\<lparr>lp_targets := foldl (\<lambda>ts t. merge_target t ts) (lp_targets l) news\<rparr>;
           (out, st) = retry_pendings (lp_tick l) (out, st);
           (l, out, st) = probe_round v me l (out, st);
           (l, out) = stun_refresh v stun_addr l out
       in Some (l, out, st))"

text \<open>Captured mDNS packets, each to the partner through its tunnel.\<close>

definition mdns_forward ::
  "dp_env \<Rightarrow> bytes \<Rightarrow> bytes \<Rightarrow> bytes \<Rightarrow> bytes \<Rightarrow> effect list \<times> dp_state \<Rightarrow> effect list \<times> dp_state"
where
  "mdns_forward v own_ip partner_ip partner_node payload r = (let (out, st) = r in
     case find (\<lambda>(_, e). e_node e = partner_node) (tunnels st) of
       None \<Rightarrow> (out, st)
     | Some (idx, e) \<Rightarrow> send_inner v idx (e_addr e)
         [udp_datagram own_ip partner_ip FWD_PORT FWD_PORT payload] (out, st))"

definition mdns_drain ::
  "dp_env \<Rightarrow> bytes \<Rightarrow> bytes \<Rightarrow> bytes \<Rightarrow> bytes list \<Rightarrow> effect list \<times> dp_state \<Rightarrow> effect list \<times> dp_state"
where
  "mdns_drain v own_ip partner_ip partner_node payloads r =
     foldl (\<lambda>r payload. mdns_forward v own_ip partner_ip partner_node payload r) r payloads"

section \<open>The loop\<close>

text \<open>
  One turn of the loop: housekeeping, captured mDNS packets, at most one datagram. The peers
  that arrived, the captured packets and the datagram are its inputs; \<open>v\<close> is drawn from by the
  housekeeping and \<open>w\<close> by the handler of the datagram.
\<close>

record mdns_link =
  ml_our_ip :: bytes
  ml_partner_ip :: bytes
  ml_partner_node :: bytes

definition loop_start :: "u64 \<Rightarrow> peer_target list \<Rightarrow> dp_loop" where
  "loop_start now targets =
     \<lparr>lp_targets = targets, lp_tick = 0, lp_strikes = [], lp_last_probe = (if now < 2000 then now else now - 2000),
      lp_last_stun = now, lp_round = 0\<rparr>"

definition dp_turn ::
  "dp_env \<Rightarrow> dp_env \<Rightarrow> identity \<Rightarrow> socket_addr option \<Rightarrow> mdns_link option \<Rightarrow> peer_target list \<Rightarrow> bytes list
     \<Rightarrow> (bytes \<times> socket_addr) option \<Rightarrow> dp_loop \<times> dp_state \<Rightarrow> (effect list \<times> dp_loop \<times> dp_state) option"
where
  "dp_turn v w me stun_addr mdns news captured recv ls = (let (l, st) = ls in
     Option.bind (run_periodic v me stun_addr news l st) (\<lambda>(l, out, st).
       let (out, st) = (case mdns of None \<Rightarrow> (out, st)
             | Some m \<Rightarrow> mdns_drain v (ml_our_ip m) (ml_partner_ip m) (ml_partner_node m) captured (out, st))
       in Option.bind (case recv of None \<Rightarrow> Some ([], st)
             | Some (pkt, src) \<Rightarrow> handle_packet w me (lp_targets l) (lp_tick l) pkt src ([], st)) (\<lambda>(sent, st).
            Some (out @ sent, l\<lparr>lp_tick := lp_tick l + 1\<rparr>, st))))"

end
