(* ===== verification/TcpFacts.thy ===== *)
theory TcpFacts
  imports TcpServer
begin

text \<open>
  Facts on the TCP server: its segments are those of the client's packet builder, sequence
  numbers as distances from the initial one, what a response puts on the wire, and the loop
  of \<open>pump\<close> as the list of the pieces it sends.
\<close>

section \<open>Segments\<close>

text \<open>A packet whose TCP part is written in place, as the server and the proxy do it.\<close>

lemma packet_in_place:
  assumes "length src = 4" "length dst = 4"
  shows "(let n = 20 + length payload;
         pkt = put 16 dst (put 12 src ((put 2 (be16 (word_of_nat (20 + n))) ((replicate (20 + n) 0)[0 := 0x45]))
            [6 := 0x40, 8 := 64, 9 := PROTO_TCP]));
         pkt = put 10 (be16 (checksum (take 20 pkt))) pkt;
         t = put 20 payload (put 14 (be16 64240) ((put 8 (be32 ack) (put 4 (be32 sq) (put 2 (be16 dport)
            (put 0 (be16 sport) (drop 20 pkt)))))[12 := push_bit 4 5, 13 := flags]));
         pkt = put 20 t pkt
     in put 36 (be16 (l4_checksum src dst PROTO_TCP (drop 20 pkt))) pkt)
   = tcp_packet src dst sport dport sq ack flags payload" (is "?lhs = _")
proof -
  define n where "n = 20 + length payload"
  define h where "h = ipv4_header0 src dst PROTO_TCP (20 + n)"
  define g where "g = put 10 (be16 (checksum h)) h"
  define t where "t = tcp_header0 sport dport sq ack flags @ payload"
  have l: "length h = 20" "length g = 20" "length t = n"
    using assms by (simp_all add: h_def g_def ipv4_header0_length t_def tcp_header0_def n_def)
  have 1: "put 16 dst (put 12 src ((put 2 (be16 (word_of_nat (20 + n))) ((replicate (20 + n) 0)[0 := 0x45]))
      [6 := 0x40, 8 := 64, 9 := PROTO_TCP])) = h @ replicate n 0"
    by (subst zeroed_header) (simp_all add: assms h_def ipv4_header0_def)
  have 2: "put 10 (be16 (checksum (take 20 (h @ replicate n 0)))) (h @ replicate n 0) = g @ replicate n 0"
    using l by (simp add: put_append g_def)
  have 3: "put 20 t (g @ replicate n 0) = g @ t"
    using l by (simp add: put_def)
  have 4: "put 36 w (g @ t) = g @ put 16 w t" if "length w = 2" for w
    using l that by (simp add: put_def n_def)
  have "?lhs = g @ put 16 (be16 (l4_checksum src dst PROTO_TCP t)) t"
    unfolding Let_def n_def [symmetric] 1 2
    using l 3 4 zeroed_segment [of payload ack sq dport sport flags, folded n_def t_def]
    by simp
  also have "\<dots> = tcp_packet src dst sport dport sq ack flags payload"
    using assms l by (simp add: tcp_packet_def tcp_segment_eq ipv4_packet_eq Let_def flip: t_def) (simp add: h_def g_def n_def)
  finally show ?thesis .
qed

lemma srv_segment_eq:
  assumes "length (our_ip c) = 4" "length (client_ip c) = 4"
  shows "srv_segment c flags payload =
    tcp_packet (our_ip c) (client_ip c) HTTP_PORT (client_port c) (snd_nxt c) (rcv_nxt c) flags payload"
  unfolding packet_in_place [OF assms, symmetric] by (simp add: srv_segment_def Let_def)

section \<open>Sequence numbers\<close>

lemma sint_small: "m < 2 ^ 31 \<Longrightarrow> sint (word_of_nat m :: u32) = int m"
  by (simp add: signed_of_nat signed_take_bit_int_eq_self)

lemma sint_neg: "0 < m \<Longrightarrow> m \<le> 2 ^ 31 \<Longrightarrow> sint (- word_of_nat m :: u32) = - int m"
proof -
  assume m: "0 < m" "m \<le> 2 ^ 31"
  have "(- word_of_nat m :: u32) = word_of_int (- int m)" by simp
  then have "sint (- word_of_nat m :: u32) = signed_take_bit 31 (- int m)"
    by (simp only: signed_of_int) simp
  then show ?thesis using m by (simp add: signed_take_bit_int_eq_self)
qed

text \<open>The distance of a sequence number from the initial one.\<close>

definition dist :: "conn \<Rightarrow> u32 \<Rightarrow> nat" where
  "dist c x = unat (x - iss c)"

lemma of_dist: "x = iss c + word_of_nat (dist c x)"
  by (simp add: dist_def)

lemma dist_less: "dist c x < 2 ^ 32"
  using u32_less [of "x - iss c"] by (simp add: dist_def)

lemma dist_add: "dist c x + n < 2 ^ 32 \<Longrightarrow> dist c (x + word_of_nat n) = dist c x + n"
proof -
  assume n: "dist c x + n < 2 ^ 32"
  have "x + word_of_nat n - iss c = word_of_nat (dist c x + n)"
    by (simp add: dist_def algebra_simps)
  then have "unat (x + word_of_nat n - iss c) = unat (word_of_nat (dist c x + n) :: u32)" by (simp only:)
  then show ?thesis using unat_word32 [OF n] by (simp only: dist_def)
qed

lemma clamp_dist:
  "1 \<le> dist c x \<Longrightarrow> dist c x < 2 ^ 31 \<Longrightarrow> clamp_bytes hi (x - iss c - 1) = min (dist c x - 1) hi"
proof -
  assume d: "1 \<le> dist c x" "dist c x < 2 ^ 31"
  then have "x - iss c - 1 = word_of_nat (dist c x - 1)"
    by (simp add: of_nat_diff) (simp add: dist_def)
  then have "sint (x - iss c - 1) = sint (word_of_nat (dist c x - 1) :: u32)" by (simp only:)
  also have "\<dots> = int (dist c x - 1)" by (rule sint_small) (use d in simp)
  finally have "sint (x - iss c - 1) = int (dist c x - 1)" .
  then show ?thesis by (simp add: clamp_bytes_def min_def max_def)
qed

lemma ack_in_window:
  assumes "dist c u \<le> dist c n" "dist c n < 2 ^ 31" "seq_lt u a" "\<not> seq_lt n a"
  shows "dist c u < dist c a \<and> dist c a \<le> dist c n"
proof -
  have diff: "x - a = (if dist c a \<le> dist c x then word_of_nat (dist c x - dist c a)
      else - word_of_nat (dist c a - dist c x))" for x
    by (subst of_dist [of x c], subst of_dist [of a c]) (simp add: of_nat_diff)
  have lt: "seq_lt x a \<longleftrightarrow> (dist c x < dist c a \<and> dist c a - dist c x \<le> 2 ^ 31)"
    if "dist c x < 2 ^ 31" for x
  proof (cases "dist c a \<le> dist c x")
    case True
    then have "sint (x - a) = sint (word_of_nat (dist c x - dist c a) :: u32)" by (simp only: diff if_True)
    also have "\<dots> = int (dist c x - dist c a)" by (rule sint_small) (use that in simp)
    finally show ?thesis using True by (simp add: seq_lt_def)
  next
    case False
    show ?thesis
    proof (cases "dist c a - dist c x \<le> 2 ^ 31")
      case True
      have "sint (x - a) = sint (- word_of_nat (dist c a - dist c x) :: u32)"
        using False by (simp only: diff if_False)
      also have "\<dots> = - int (dist c a - dist c x)" by (rule sint_neg) (use True False in simp_all)
      finally show ?thesis using True False by (simp add: seq_lt_def)
    next
      case big: False
      define m where "m = dist c a - dist c x"
      have m: "m < 2 ^ 32" "2 ^ 31 < m" using big dist_less [of c a] by (simp_all add: m_def)
      have "(- word_of_nat m :: u32) = word_of_nat (2 ^ 32 - m)"
        using m by (simp add: of_nat_diff)
      moreover have "2 ^ 32 - m < 2 ^ 31" using m by simp
      ultimately have "sint (- word_of_nat m :: u32) = int (2 ^ 32 - m)" by (simp only: sint_small)
      moreover have "x - a = - word_of_nat m" using False by (simp only: diff if_False m_def)
      ultimately show ?thesis using False big m by (simp add: seq_lt_def)
    qed
  qed
  show ?thesis using assms lt [of u] lt [of n] by auto
qed


section \<open>What is on the wire\<close>

text \<open>
  The bytes of a response as the client is to read them, given the file flash bodies are read
  from, and what makes a response well formed.
\<close>

definition wire :: "bytes \<Rightarrow> resp_state \<Rightarrow> bytes" where
  "wire file r = headers r @ take (total_len r - hdr_len r) (drop (body_base r) (content file (resp_source r)))"

definition resp_ok :: "bytes \<Rightarrow> resp_state \<Rightarrow> bool" where
  "resp_ok file r \<longleftrightarrow> hdr_len r = length (headers r) \<and> reads_file file (resp_source r)
     \<and> hdr_len r \<le> total_len r
     \<and> body_base r + (total_len r - hdr_len r) \<le> length (content file (resp_source r))
     \<and> total_len r + 2 < 2 ^ 31"

lemma length_wire: "resp_ok file r \<Longrightarrow> length (wire file r) = total_len r"
  by (auto simp: resp_ok_def wire_def min_def)

lemma read_response_wire:
  assumes ok: "resp_ok file r" and room: "k + room \<le> total_len r"
  shows "read_response r k room = take room (drop k (wire file r))"
proof -
  note b = body_read_at_file [where src = "resp_source r"]
  have h: "length (headers r) = hdr_len r" using ok by (simp add: resp_ok_def)
  have rd: "reads_file file (resp_source r)" using ok by (simp add: resp_ok_def)
  show ?thesis
  proof (cases "k < hdr_len r")
    case True
    define n where "n = min (hdr_len r - k) room"
    have n: "n \<le> room" "k + n \<le> hdr_len r" using True by (simp_all add: n_def)
    have cn: "cut k (k + n) (headers r) = take n (drop k (headers r))"
      by (simp add: cut_def drop_take)
    have ln: "length (take n (drop k (headers r))) = n" using n h by simp
    show ?thesis
    proof (cases "n = room")
      case True
      then show ?thesis using \<open>k < hdr_len r\<close> n h ln
        by (simp add: read_response_def Let_def cut_def drop_take wire_def flip: n_def)
    next
      case False
      then have e: "k + n = hdr_len r" "n < room" using n by (auto simp: n_def min_def split: if_splits)
      then have lt: "hdr_len r < total_len r" using room by simp
      have "read_response r k room = take n (drop k (headers r)) @ body_read_at (resp_source r) (body_base r) (room - n)"
      proof -
        have m: "min (hdr_len r - k) room = n" by (simp add: n_def)
        show ?thesis unfolding read_response_def Let_def m cn
          using \<open>k < hdr_len r\<close> e ln lt by simp
      qed
      also have "\<dots> = take room (drop k (wire file r))"
      proof -
        have "room + k - hdr_len r = room - n" using e by simp
        then show ?thesis using e h room b [OF rd, of "body_base r" "room - n"]
          by (simp add: wire_def min_def)
      qed
      finally show ?thesis .
    qed
  next
    case False
    show ?thesis
    proof (cases "k < total_len r")
      case True
      have "room \<le> total_len r - k" using room by simp
      then show ?thesis using True False h b [OF rd]
        by (simp add: read_response_def Let_def wire_def drop_take min_def add.commute)
    qed (use False room in \<open>simp add: read_response_def Let_def\<close>)
  qed
qed

text \<open>The consecutive pieces, of at most a segment, of the bytes from \<open>k\<close> to \<open>edge\<close>.\<close>

function pieces :: "nat \<Rightarrow> nat \<Rightarrow> (nat \<times> nat) list" where
  "pieces k edge =
     (if k < edge then (let n = min (edge - k) MSS in (k, n) # pieces (k + n) edge) else [])"
  by pat_completeness auto
termination
  by (relation "measure (\<lambda>(k, edge). edge - k)") (auto simp: MSS_def)

declare pieces.simps [simp del]

definition piece_packet :: "conn \<Rightarrow> bytes \<Rightarrow> nat \<times> nat \<Rightarrow> bytes" where
  "piece_packet c w piece = (case piece of (k, n) \<Rightarrow>
     tcp_packet (our_ip c) (client_ip c) HTTP_PORT (client_port c) (iss c + 1 + word_of_nat k) (rcv_nxt c)
       (if k + n = length w then PSH OR ACK OR FIN else PSH OR ACK) (take n (drop k w)))"

definition pumped :: "u64 \<Rightarrow> nat \<Rightarrow> resp_state \<Rightarrow> conn \<Rightarrow> conn" where
  "pumped now edge r c = c\<lparr>
     snd_nxt := iss c + 1 + word_of_nat edge + (if edge = total_len r then 1 else 0),
     last_send_ms := now, resp := Some (if edge = total_len r then r\<lparr>fin_sent := True\<rparr> else r)\<rparr>"

text \<open>A connection whose sequence numbers are in order and whose handshake has been acknowledged.\<close>

definition conn_seq :: "conn \<Rightarrow> bool" where
  "conn_seq c \<longleftrightarrow> length (our_ip c) = 4 \<and> length (client_ip c) = 4
     \<and> dist c (snd_una c) \<le> dist c (snd_nxt c) \<and> dist c (snd_nxt c) < 2 ^ 31"

definition send_edge :: "nat \<Rightarrow> resp_state \<Rightarrow> conn \<Rightarrow> nat" where
  "send_edge window r c = min (min (dist c (snd_una c) - 1) (total_len r) + window) (total_len r)"

lemma pump_loop_stop:
  assumes "resp c = Some r" "1 \<le> dist c (snd_una c)" "conn_seq c"
    "send_edge window r c \<le> dist c (snd_nxt c) - 1"
  shows "pump_loop now window r c = Some ([], c)"
proof -
  have "sent_bytes c = min (dist c (snd_nxt c) - 1) (total_len r)"
    "acked_bytes c = min (dist c (snd_una c) - 1) (total_len r)"
    using assms by (simp_all add: sent_bytes_def acked_bytes_def clamp_dist resp_total_def conn_seq_def)
  with assms(4) show ?thesis
    by (subst pump_loop.simps) (auto simp: Let_def send_edge_def)
qed

lemma pump_loop_pieces:
  assumes "resp c = Some r" "resp_ok file r" "1 \<le> dist c (snd_una c)" "conn_seq c"
    "dist c (snd_nxt c) = Suc k" "k < edge" "edge = send_edge window r c"
  shows "pump_loop now window r c
       = Some (map (piece_packet c (wire file r)) (pieces k edge), pumped now edge r c)"
  using assms
proof (induction k edge arbitrary: c rule: pieces.induct)
  case (1 k edge)
  define n where "n = min (edge - k) MSS"
  define w where "w = wire file r"
  have lw: "length w = total_len r" using 1(3) by (simp add: w_def length_wire)
  have edge: "edge \<le> total_len r" using 1(8) by (simp add: send_edge_def)
  have n: "0 < n" "k + n \<le> edge" using 1(7) by (auto simp: n_def MSS_def)
  have sent: "sent_bytes c = k" "acked_bytes c = min (dist c (snd_una c) - 1) (total_len r)"
    using 1 edge by (simp_all add: sent_bytes_def acked_bytes_def clamp_dist resp_total_def conn_seq_def min_def)
  have seq: "snd_nxt c = iss c + 1 + word_of_nat k" using of_dist [of "snd_nxt c" c] 1(6) by simp
  have chunk: "read_response r k n = take n (drop k w)" using 1(3) n edge by (simp add: w_def read_response_wire)
  have lchunk: "length (take n (drop k w)) = n" using lw n edge by simp
  have pk: "srv_segment c (if k + n \<ge> total_len r then PSH OR ACK OR FIN else PSH OR ACK) (take n (drop k w))
      = piece_packet c w (k, n)"
    using 1(5) n edge lw by (simp add: srv_segment_eq conn_seq_def piece_packet_def seq)
  define d where "d = c\<lparr>snd_nxt := snd_nxt c + word_of_nat n, last_send_ms := now\<rparr>"
  have e: "edge = min (acked_bytes c + window) (total_len r)" using 1(8) sent by (simp add: send_edge_def)
  have nn: "read_response r k n \<noteq> []" using chunk lchunk n by auto
  have step: "pump_loop now window r c =
    (if k + n \<ge> total_len r
     then Some ([piece_packet c w (k, n)], d\<lparr>snd_nxt := snd_nxt d + 1, resp := Some (r\<lparr>fin_sent := True\<rparr>)\<rparr>)
     else Option.bind (pump_loop now window r d) (\<lambda>(out, c'). Some (piece_packet c w (k, n) # out, c')))"
    using 1(7) nn lchunk pk
    by (subst pump_loop.simps)
       (simp add: Let_def sent(1) e [symmetric] n_def [symmetric] chunk d_def split: if_splits)
  have same: "piece_packet d w = piece_packet c w" by (rule ext) (simp add: piece_packet_def d_def)
  have nx: "dist d (snd_nxt d) = Suc (k + n)"
    using dist_add [of c "snd_nxt c" n] 1(4,5,6) n edge 1(3) by (simp add: d_def dist_def resp_ok_def)
  have un: "dist d (snd_una d) = dist c (snd_una c)" by (simp add: d_def dist_def)
  have dd: "resp d = Some r" "1 \<le> dist d (snd_una d)" "conn_seq d" "send_edge window r d = edge"
    using 1(2-5,8) un nx n edge 1(6) by (auto simp: d_def conn_seq_def send_edge_def resp_ok_def)
  have pc: "pieces k edge = (k, n) # pieces (k + n) edge"
    using 1(7) by (subst pieces.simps) (simp add: Let_def n_def)
  show ?case
  proof (cases "k + n < edge")
    case True
    then have "pump_loop now window r d = Some (map (piece_packet d w) (pieces (k + n) edge), pumped now edge r d)"
      using 1(1) [OF 1(7) n_def dd(1) 1(3) dd(2,3) nx True] dd(4) by (simp add: w_def)
    moreover have "pumped now edge r d = pumped now edge r c" by (simp add: pumped_def d_def)
    ultimately show ?thesis using True edge by (simp add: step pc same flip: w_def)
  next
    case False
    then have kn: "k + n = edge" using n by simp
    have sn: "snd_nxt d = iss c + 1 + word_of_nat edge" using kn by (simp add: d_def seq flip: kn)
    have p0: "pieces edge edge = []" by (subst pieces.simps) simp
    show ?thesis
    proof (cases "edge = total_len r")
      case True
      moreover have "map (piece_packet c w) (pieces k edge) = [piece_packet c w (k, n)]"
        by (simp add: pc kn p0)
      ultimately show ?thesis using sn by (simp add: step kn pumped_def d_def flip: w_def)
    next
      case ne: False
      then have "pump_loop now window r d = Some ([], d)"
        using dd nx kn by (intro pump_loop_stop) simp_all
      then show ?thesis using ne edge sn 1(2) by (simp add: step kn pc p0 pumped_def d_def flip: w_def)
    qed
  qed
qed

end
