(* ===== verification/TcpInvariant.thy ===== *)
theory TcpInvariant
  imports TcpFacts
begin

text \<open>
  The invariant of the TCP server: the sequence numbers of the connection are in order and
  less than half the sequence space apart, and a staged response is well formed and has its
  handshake acknowledged. Every packet, tick and poll of a server keeps it and returns.
\<close>

section \<open>Invariants\<close>

definition conn_ok :: "bytes \<Rightarrow> conn \<Rightarrow> bool" where
  "conn_ok file c \<longleftrightarrow> conn_seq c \<and> (case resp c of None \<Rightarrow> True
     | Some r \<Rightarrow> resp_ok file r \<and> snd_una c \<noteq> iss c)"

lemma dist_pos: "x \<noteq> iss c \<Longrightarrow> 1 \<le> dist c x"
  by (simp add: dist_def Suc_le_eq unat_gt_0)

lemma dist_cong: "iss c = iss d \<Longrightarrow> dist c x = dist d x"
  by (simp add: dist_def)

lemma conn_ok_default: "conn_ok file default_conn"
  by (simp add: conn_ok_def conn_seq_def default_conn_def dist_def)

lemma pumped_ok:
  assumes "conn_ok file c" "resp c = Some r" "dist c (snd_nxt c) - 1 < edge" "edge \<le> total_len r"
  shows "conn_ok file (pumped now edge r c)"
    "dist c (snd_nxt (pumped now edge r c)) = edge + (if edge = total_len r then 2 else 1)"
proof -
  have r: "resp_ok file r" "conn_seq c" using assms by (simp_all add: conn_ok_def)
  have "snd_nxt (pumped now edge r c) = iss c + word_of_nat (edge + (if edge = total_len r then 2 else 1))"
    by (simp add: pumped_def)
  then have "dist c (snd_nxt (pumped now edge r c))
      = unat (word_of_nat (edge + (if edge = total_len r then 2 else 1)) :: u32)"
    unfolding dist_def by simp
  also have "\<dots> = edge + (if edge = total_len r then 2 else 1)"
    by (rule unat_word32) (use r assms(4) in \<open>simp add: resp_ok_def\<close>)
  finally show d: "dist c (snd_nxt (pumped now edge r c)) = edge + (if edge = total_len r then 2 else 1)" .
  have i: "iss (pumped now edge r c) = iss c" "snd_una (pumped now edge r c) = snd_una c"
    "our_ip (pumped now edge r c) = our_ip c" "client_ip (pumped now edge r c) = client_ip c"
    by (simp_all add: pumped_def)
  show "conn_ok file (pumped now edge r c)"
    using assms r d dist_cong [OF i(1)]
    by (auto simp: conn_ok_def conn_seq_def i resp_ok_def wire_def pumped_def [of now edge r c, THEN arg_cong [where f = resp]])
qed

definition edge_of :: "nat \<Rightarrow> conn \<Rightarrow> nat" where
  "edge_of window c = (case resp c of None \<Rightarrow> 0 | Some r \<Rightarrow> send_edge window r c)"

lemma pump_result:
  assumes ok: "conn_ok file c" and r: "resp c = Some r"
  shows "pump now window c =
    (if dist c (snd_nxt c) - 1 < send_edge window r c
     then Some (map (piece_packet c (wire file r)) (pieces (dist c (snd_nxt c) - 1) (send_edge window r c)),
                pumped now (send_edge window r c) r c)
     else Some ([], c))"
proof -
  have a: "resp_ok file r" "conn_seq c" "1 \<le> dist c (snd_una c)"
    using ok r dist_pos by (simp_all add: conn_ok_def)
  have n: "dist c (snd_nxt c) = Suc (dist c (snd_nxt c) - 1)" using a by (simp add: conn_seq_def)
  show ?thesis
  proof (cases "dist c (snd_nxt c) - 1 < send_edge window r c")
    case True
    with pump_loop_pieces [OF r a(1,3,2) n True refl, of now] r show ?thesis
      by (simp add: pump_def)
  next
    case False
    with pump_loop_stop [OF r a(3,2), of window now] r show ?thesis
      by (simp add: pump_def)
  qed
qed

lemma pump_none: "resp c = None \<Longrightarrow> pump now window c = Some ([], c)"
  by (simp add: pump_def)

lemma pump_ok:
  assumes "conn_ok file c"
  shows "\<exists>out c'. pump now window c = Some (out, c') \<and> conn_ok file c'"
proof (cases "resp c")
  case None
  then show ?thesis using assms by (simp add: pump_none)
next
  case (Some r)
  have "send_edge window r c \<le> total_len r" by (simp add: send_edge_def)
  with assms Some pumped_ok(1) [OF assms Some] show ?thesis
    by (simp add: pump_result)
qed

lemma process_ack_simps [simp]:
  "our_ip (process_ack p c) = our_ip c" "client_ip (process_ack p c) = client_ip c"
  "iss (process_ack p c) = iss c" "snd_nxt (process_ack p c) = snd_nxt c"
  "client_port (process_ack p c) = client_port c" "active (process_ack p c) = active c"
  by (simp_all add: process_ack_def Let_def split: option.splits)

lemma process_ack_una:
  assumes "conn_seq c"
  shows "dist c (snd_una c) \<le> dist c (snd_una (process_ack p c))"
    "dist c (snd_una (process_ack p c)) \<le> dist c (snd_nxt c)"
proof -
  have "snd_una (process_ack p c) =
     (if in_flags p AND ACK \<noteq> 0 \<and> seq_lt (snd_una c) (in_ack p) \<and> \<not> seq_lt (snd_nxt c) (in_ack p)
      then in_ack p else snd_una c)"
    by (simp add: process_ack_def Let_def split: option.splits)
  then show "dist c (snd_una c) \<le> dist c (snd_una (process_ack p c))"
    "dist c (snd_una (process_ack p c)) \<le> dist c (snd_nxt c)"
    using assms ack_in_window [of c "snd_una c" "snd_nxt c" "in_ack p"]
    by (auto simp: conn_seq_def)
qed

lemma process_ack_resp: "resp (process_ack p c) = resp c \<or> resp (process_ack p c) = None"
  by (simp add: process_ack_def Let_def split: option.splits)

lemma process_ack_ok: "conn_ok file c \<Longrightarrow> conn_ok file (process_ack p c)"
proof -
  assume ok: "conn_ok file c"
  then have s: "conn_seq c" by (simp add: conn_ok_def)
  have d: "dist (process_ack p c) x = dist c x" for x by (simp add: dist_def)
  have "snd_una c \<noteq> iss c \<Longrightarrow> snd_una (process_ack p c) \<noteq> iss c"
    using process_ack_una(1) [OF s, of p] by (auto simp: dist_def unat_eq_zero)
  then show ?thesis
    using ok process_ack_una [OF s, of p] process_ack_resp [of p c]
    by (auto simp: conn_ok_def conn_seq_def d split: option.splits)
qed

section \<open>Replies of a sensible size\<close>

text \<open>
  A reply the installed handler may give: its flash body is read from the file, and the body
  and its header values are shorter than 100 MB (the 16 MB flash of the device holds them).
\<close>

definition reply_ok :: "bytes \<Rightarrow> http_reply \<Rightarrow> bool" where
  "reply_ok file r \<longleftrightarrow> reads_file file (rp_source r) \<and> rp_status r < 65536 \<and> rp_status r \<noteq> 206
     \<and> body_total_len (rp_source r) + length (rp_content_type r)
         + (case rp_cache_control r of None \<Rightarrow> 0 | Some cc \<Rightarrow> length cc) < 10 ^ 8"

lemma length_show_nat: "length (show_nat n) \<le> Suc n"
proof (induction n rule: show_nat.induct)
  case (1 n)
  then show ?case by (subst show_nat.simps) (cases "n < 10"; simp; linarith?)
qed

lemma http_reason_length: "length (http_reason st) \<le> 21"
  by (simp add: http_reason_def)

lemma render_headers_length:
  assumes "b + n \<le> m" "st = 206 \<longrightarrow> 0 < n"
  shows "length (render_headers t st ct b n m cc) \<le> 300 + st + 4 * m + length ct
      + (case cc of None \<Rightarrow> 0 | Some x \<Rightarrow> length x)"
proof -
  have "length (show_nat b) \<le> Suc m" "length (show_nat n) \<le> Suc m" "length (show_nat m) \<le> Suc m"
    "length (show_nat st) \<le> Suc st" "length (show_nat (b + n - 1)) \<le> Suc m"
    using assms length_show_nat [of b] length_show_nat [of n] length_show_nat [of m]
      length_show_nat [of st] length_show_nat [of "b + n - 1"] by linarith+
  moreover have "usize_sub t (b + n) 1 = b + n - 1" if "st = 206"
    using assms that by (simp add: usize_sub_def)
  ultimately show ?thesis
    using http_reason_length [of st] http_reason_length [of 206] http_reason_length [of 416]
      length_show_nat [of 206] length_show_nat [of 416]
    by (auto simp: render_headers_def Let_def crlf_def split: option.split)
qed


lemma response_for_ok:
  assumes "reply_ok file reply"
  shows "resp_ok file (response_for t req reply)"
proof -
  define m where "m = body_total_len (rp_source reply)"
  define cc where "cc = (case rp_cache_control reply of None \<Rightarrow> 0 | Some x \<Rightarrow> length x)"
  have sz: "m + length (rp_content_type reply) + cc < 10 ^ 8" "rp_status reply < 65536 \<and> rp_status reply \<noteq> 206"
    "reads_file file (rp_source reply)"
    using assms by (simp_all add: reply_ok_def m_def cc_def)
  have m: "m = length (content file (rp_source reply))" using sz(3) by (simp add: m_def body_total_len)
  define base n st where "base = (case parse_range t req m of Ok (Some (a, b)) \<Rightarrow> a | _ \<Rightarrow> 0)"
    and "n = (case parse_range t req m of Ok None \<Rightarrow> m | Ok (Some (a, b)) \<Rightarrow> b - a + 1 | _ \<Rightarrow> 0)"
    and "st = (case parse_range t req m of Ok None \<Rightarrow> rp_status reply | Ok (Some (a, b)) \<Rightarrow> 206 | _ \<Rightarrow> 416)"
  define hs where "hs = render_headers t st (rp_content_type reply) base n m (rp_cache_control reply)"
  have r: "response_for t req reply = \<lparr>headers = hs, hdr_len = length hs, resp_source = rp_source reply,
      body_base = base, total_len = length hs + n, fin_sent = False\<rparr>"
    by (simp add: response_for_def Let_def m_def [symmetric] hs_def base_def n_def st_def
        split: outcome.split option.split prod.split)
  have bn: "base + n \<le> m" "st = 206 \<longrightarrow> 0 < n" "st < 65536"
    using parse_range_in_body [where t = t and req = req and n = m] sz(2)
    by (auto simp: base_def n_def st_def split: outcome.split option.split prod.split)
  have "length hs \<le> 300 + st + 4 * m + length (rp_content_type reply) + cc"
    using render_headers_length [OF bn(1,2), where t = t and ct = "rp_content_type reply"
        and cc = "rp_cache_control reply"]
    by (simp add: hs_def cc_def)
  then have "length hs + n + 2 < 2 ^ 31" using bn sz(1) by simp
  then show ?thesis using bn(1) sz(3) m by (simp add: r resp_ok_def)
qed

lemma control_pages_ok: "reply_ok file (ok_owned ''text/html; charset=utf-8'' (fst (builtin_route path query ip)))"
proof -
  have b: "length (show_nat (unat (x :: u8))) \<le> 256" for x
    using length_show_nat [of "unat x"] u8_less [of x] by linarith
  have "length (control_page ip) \<le> 3000"
    using b [of "ip ! 0"] b [of "ip ! 1"] b [of "ip ! 2"] b [of "ip ! 3"] by (simp add: control_page_def)
  moreover have "length ok_page \<le> 3000" by (simp add: ok_page_def)
  ultimately show ?thesis by (simp add: reply_ok_def ok_owned_def builtin_route_def)
qed

definition routes_ok :: "bytes \<Rightarrow> tcp_server \<Rightarrow> bool" where
  "routes_ok file s \<longleftrightarrow> (case sv_handler s of None \<Rightarrow> True
     | Some h \<Rightarrow> \<forall>m p q b r. h m p q b = Some r \<longrightarrow> reply_ok file r)"

definition server_ok :: "bytes \<Rightarrow> tcp_server \<Rightarrow> bool" where
  "server_ok file s \<longleftrightarrow> routes_ok file s \<and> conn_ok file (sv_conn s)"

lemma route_request_ok:
  "routes_ok file s \<Longrightarrow> reply_ok file (fst (route_request req s))"
  using control_pages_ok [of "file"]
  by (auto simp: route_request_def Let_def routes_ok_def split_beta bind_eq_Some_conv
      split: option.split)

lemma route_request_frame [simp]:
  "sv_conn (snd (route_request req s)) = sv_conn s" "sv_handler (snd (route_request req s)) = sv_handler s"
  by (simp_all add: route_request_def Let_def split_beta split: option.split)

lemma build_response_resp:
  "sv_conn (build_response t req s) = (sv_conn s)\<lparr>resp := Some (response_for t req (fst (route_request req s)))\<rparr>"
  "sv_handler (build_response t req s) = sv_handler s"
  by (simp_all add: build_response_def split_beta)

lemma build_response_ok:
  assumes "server_ok file s" "snd_una (sv_conn s) \<noteq> iss (sv_conn s)"
  shows "server_ok file (build_response t req s)"
  using assms response_for_ok [OF route_request_ok, of "file" s t req req]
  by (simp add: server_ok_def routes_ok_def build_response_resp conn_ok_def conn_seq_def dist_def)

lemma pump_server_ok:
  assumes "server_ok file s"
  shows "\<exists>out s'. pump_server now window s = Some (out, s') \<and> server_ok file s'"
  using assms pump_ok [of "file" "sv_conn s" now window]
  by (auto simp: pump_server_def server_ok_def routes_ok_def)

section \<open>Bytes in flight\<close>

text \<open>What has been sent and not acknowledged, the FIN included.\<close>

definition in_flight :: "conn \<Rightarrow> nat" where
  "in_flight c = unat (snd_nxt c - snd_una c)"

lemma in_flight_dist: "conn_seq c \<Longrightarrow> in_flight c = dist c (snd_nxt c) - dist c (snd_una c)"
proof -
  assume s: "conn_seq c"
  then have "snd_nxt c - snd_una c = word_of_nat (dist c (snd_nxt c) - dist c (snd_una c))"
    by (subst of_dist [of "snd_nxt c" c], subst of_dist [of "snd_una c" c]) (simp add: conn_seq_def of_nat_diff)
  then have "in_flight c = unat (word_of_nat (dist c (snd_nxt c) - dist c (snd_una c)) :: u32)"
    by (simp only: in_flight_def)
  also have "\<dots> = dist c (snd_nxt c) - dist c (snd_una c)"
    by (rule unat_word32) (use s in \<open>simp add: conn_seq_def less_imp_diff_less\<close>)
  finally show ?thesis .
qed

lemma pump_in_flight:
  assumes ok: "conn_ok file c" and p: "pump now window c = Some (out, c')"
  shows "in_flight c' \<le> max (in_flight c) (window + 1)" "peer_win c' = peer_win c"
proof -
  have "in_flight c' \<le> max (in_flight c) (window + 1) \<and> peer_win c' = peer_win c"
  proof (cases "resp c")
    case None
    then show ?thesis using p by (simp add: pump_none)
  next
    case (Some r)
    define edge where "edge = send_edge window r c"
    show ?thesis
    proof (cases "dist c (snd_nxt c) - 1 < edge")
      case True
      with p pump_result [OF ok Some, of now window] have c': "c' = pumped now edge r c"
        by (simp add: edge_def)
      have le: "edge \<le> total_len r" by (simp add: edge_def send_edge_def)
      note q = pumped_ok [OF ok Some True le, of now]
      have i: "iss c' = iss c" "snd_una c' = snd_una c" "peer_win c' = peer_win c" by (simp_all add: c' pumped_def)
      have u: "1 \<le> dist c (snd_una c)" using ok Some by (intro dist_pos) (simp add: conn_ok_def)
      have "conn_seq c'" using q(1) by (simp add: c' conn_ok_def)
      from in_flight_dist [OF this] have "in_flight c' = edge + (if edge = total_len r then 2 else 1) - dist c (snd_una c)"
        using q(2) dist_cong [OF i(1)] by (simp add: i c' [symmetric])
      moreover have "edge \<le> dist c (snd_una c) - 1 + window" by (simp add: edge_def send_edge_def)
      ultimately show ?thesis using u i by auto
    next
      case False
      with p pump_result [OF ok Some, of now window] show ?thesis by (simp add: edge_def)
    qed
  qed
  then show "in_flight c' \<le> max (in_flight c) (window + 1)" "peer_win c' = peer_win c" by simp_all
qed

lemma process_ack_in_flight:
  assumes "conn_ok file c"
  shows "in_flight (process_ack p c) \<le> in_flight c"
proof -
  have s: "conn_seq c" "conn_seq (process_ack p c)"
    using assms process_ack_ok [OF assms, of p] by (simp_all add: conn_ok_def)
  have "dist (process_ack p c) x = dist c x" for x by (simp add: dist_def)
  then show ?thesis
    using process_ack_una [OF s(1), of p] by (simp add: in_flight_dist s)
qed


lemma pump_server_in_flight:
  assumes "server_ok file u" "pump_server now w u = Some (out, u')"
  shows "in_flight (sv_conn u') \<le> max (in_flight (sv_conn u)) (w + 1)"
    "send_window (sv_conn u') = send_window (sv_conn u)"
  using pump_in_flight [of "file" "sv_conn u" now w] assms
  by (auto simp: pump_server_def send_window_def server_ok_def)

lemma in_flight_default [simp]: "in_flight default_conn = 0"
  by (simp add: in_flight_def default_conn_def)

text \<open>Every event either leaves the connection, opens or closes it, or pumps a sound one.\<close>

lemma process_segment_pumps:
  assumes "server_ok file s" "in_payload p \<noteq> [] \<Longrightarrow> snd_una (process_ack p (sv_conn s)) \<noteq> iss (sv_conn s)"
  shows "(\<exists>u. server_ok file u \<and> in_flight (sv_conn u) \<le> in_flight (sv_conn s)
            \<and> process_segment t now blast p s = pump_server now (process_window t blast (sv_conn u)) u)
       \<or> (\<exists>out. process_segment t now blast p s = Some (out, s\<lparr>sv_conn := default_conn\<rparr>))"
proof -
  define c1 where "c1 = process_ack p (sv_conn s)"
  define s1 where "s1 = s\<lparr>sv_conn := c1\<rparr>"
  define s2 where "s2 = s1\<lparr>sv_conn := c1\<lparr>rcv_nxt := in_seq p + word_of_nat (length (in_payload p))\<rparr>\<rparr>"
  define s3 where "s3 = (if resp (sv_conn s2) = None then build_response t (in_payload p) s2 else s2)"
  have ok: "conn_ok file (sv_conn s)" using assms(1) by (simp add: server_ok_def)
  have 1: "server_ok file s1" "in_flight c1 \<le> in_flight (sv_conn s)"
    using assms(1) process_ack_ok process_ack_in_flight [OF ok]
    by (simp_all add: s1_def c1_def server_ok_def routes_ok_def)
  then have 2: "server_ok file s2"
    by (auto simp: s2_def s1_def server_ok_def routes_ok_def conn_ok_def conn_seq_def dist_def
        split: option.splits)
  have "in_payload p \<noteq> [] \<Longrightarrow> snd_una (sv_conn s2) \<noteq> iss (sv_conn s2)"
    using assms(2) by (simp add: s2_def c1_def)
  then have 3: "in_payload p \<noteq> [] \<Longrightarrow> server_ok file s3"
    using 2 build_response_ok [OF 2] by (simp add: s3_def)
  have f3: "in_flight (sv_conn s3) = in_flight c1"
    by (simp add: s3_def s2_def build_response_resp in_flight_def)
  have seg: "process_segment t now blast p s =
     (if in_payload p \<noteq> [] then pump_server now (process_window t blast (sv_conn s3)) s3
      else if in_flags p AND FIN \<noteq> 0
      then Some ([srv_segment (c1\<lparr>rcv_nxt := in_seq p + 1\<rparr>) ACK []], s\<lparr>sv_conn := default_conn\<rparr>)
      else pump_server now (process_window t blast c1) s1)"
    by (simp add: process_segment_def Let_def s1_def s2_def s3_def flip: c1_def)
  show ?thesis
  proof (cases "in_payload p = []")
    case True
    then show ?thesis using 1 seg by (auto simp: s1_def)
  next
    case False
    then have "process_segment t now blast p s = pump_server now (process_window t blast (sv_conn s3)) s3"
      using seg by simp
    then show ?thesis using 3 [OF False] f3 1(2) by (intro disjI1 exI [of _ s3]) simp
  qed
qed

lemma process_segment_ok:
  assumes "server_ok file s" "in_payload p \<noteq> [] \<Longrightarrow> snd_una (process_ack p (sv_conn s)) \<noteq> iss (sv_conn s)"
  shows "\<exists>out s'. process_segment t now blast p s = Some (out, s') \<and> server_ok file s'"
proof -
  have "server_ok file (s\<lparr>sv_conn := default_conn\<rparr>)"
    using assms(1) by (simp add: server_ok_def routes_ok_def conn_ok_default)
  with process_segment_pumps [OF assms, of t now blast] pump_server_ok show ?thesis by fastforce
qed

lemma srv_tick_pumps:
  assumes "server_ok file s"
  shows "srv_tick now s = Some ([], s) \<or> (\<exists>out. srv_tick now s = Some (out, s\<lparr>sv_conn := default_conn\<rparr>))
    \<or> (\<exists>u. server_ok file u \<and> in_flight (sv_conn u) = 0
          \<and> srv_tick now s = pump_server now (max (send_window (sv_conn u)) 1) u)"
proof -
  define c where "c = sv_conn s"
  define d where "d = c\<lparr>rto_attempts := sat_inc (rto_attempts c), rto_ms := min (sat_double (rto_ms c)) RTO_MAX_MS,
      snd_nxt := snd_una c, resp := map_option (\<lambda>r. r\<lparr>fin_sent := False\<rparr>) (resp c)\<rparr>"
  have "conn_ok file d"
    using assms by (auto simp: server_ok_def d_def c_def conn_ok_def conn_seq_def dist_def resp_ok_def
        split: option.splits)
  then have ok: "server_ok file (s\<lparr>sv_conn := d\<rparr>)" using assms by (simp add: server_ok_def routes_ok_def)
  have "in_flight d = 0" by (simp add: in_flight_def d_def)
  then have "srv_tick now s = Some ([], s) \<or> (\<exists>out. srv_tick now s = Some (out, s\<lparr>sv_conn := default_conn\<rparr>))
    \<or> srv_tick now s = pump_server now (max (send_window d) 1) (s\<lparr>sv_conn := d\<rparr>)"
    by (simp add: srv_tick_def Let_def reset_with_rst_def d_def flip: c_def)
  with ok \<open>in_flight d = 0\<close> show ?thesis by (auto intro!: exI [of _ "s\<lparr>sv_conn := d\<rparr>"])
qed

lemma srv_tick_ok:
  assumes "server_ok file s"
  shows "\<exists>out s'. srv_tick now s = Some (out, s') \<and> server_ok file s'"
proof -
  have "server_ok file (s\<lparr>sv_conn := default_conn\<rparr>)"
    using assms by (simp add: server_ok_def routes_ok_def conn_ok_default)
  with assms srv_tick_pumps [OF assms, of now] pump_server_ok show ?thesis by fastforce
qed

section \<open>Every call returns and keeps the invariant\<close>

text \<open>
  The events of a server. A packet of the connection that carries data is taken to have
  acknowledged the SYN-ACK, as every segment of a client after its SYN does.
\<close>

datatype srv_event = Packet u32 u64 bool bytes | Tick u64 | Take_action

fun srv_step :: "target \<Rightarrow> srv_event \<Rightarrow> tcp_server \<Rightarrow> (bytes list \<times> tcp_server) option" where
  "srv_step t (Packet rand now blast inner) s = process t rand now blast inner s"
| "srv_step t (Tick now) s = srv_tick now s"
| "srv_step t Take_action s = Some ([], snd (take_action s))"

fun acks_first :: "srv_event \<Rightarrow> tcp_server \<Rightarrow> bool" where
  "acks_first (Packet rand now blast inner) s = (case srv_parse inner of
     None \<Rightarrow> True
   | Some p \<Rightarrow> in_payload p = [] \<or> in_flags p AND SYN \<noteq> 0 \<or> \<not> active (sv_conn s)
       \<or> snd_una (process_ack p (sv_conn s)) \<noteq> iss (sv_conn s))"
| "acks_first _ s = True"

lemma srv_parse_ips:
  "srv_parse inner = Some p \<Longrightarrow> length (in_src_ip p) = 4 \<and> length (in_dst_ip p) = 4"
  by (auto simp: srv_parse_def Let_def split: if_splits)

lemma accept_syn_ok:
  "srv_parse inner = Some p \<Longrightarrow> conn_ok file (snd (accept_syn rand now p))"
  by (simp add: accept_syn_def Let_def conn_ok_def conn_seq_def dist_def default_conn_def srv_parse_ips)

lemma process_ok:
  assumes "server_ok file s" "acks_first (Packet rand now blast inner) s"
  shows "\<exists>out s'. process t rand now blast inner s = Some (out, s') \<and> server_ok file s'"
proof (cases "srv_parse inner")
  case None
  then show ?thesis using assms by (simp add: process_def)
next
  case (Some p)
  have "server_ok file (s\<lparr>sv_conn := snd (accept_syn rand now p)\<rparr>)"
    using accept_syn_ok [OF Some] assms(1) by (simp add: server_ok_def routes_ok_def)
  moreover have "server_ok file (s\<lparr>sv_conn := default_conn\<rparr>)"
    using assms(1) by (simp add: server_ok_def routes_ok_def conn_ok_default)
  ultimately show ?thesis
    using Some assms process_segment_ok [OF assms(1), of p t now blast]
    by (auto simp: process_def split_beta)
qed

lemma process_in_flight:
  assumes "server_ok file s" "acks_first (Packet rand now False inner) s"
    and "process t rand now False inner s = Some (out, s')"
  shows "in_flight (sv_conn s') \<le> max (in_flight (sv_conn s)) (send_window (sv_conn s') + 1)"
proof (cases "srv_parse inner")
  case None
  then show ?thesis using assms(3) by (simp add: process_def)
next
  case (Some p)
  have syn: "in_flight (snd (accept_syn rand now p)) \<le> 1"
    by (simp add: accept_syn_def Let_def in_flight_def)
  show ?thesis
  proof (cases "in_flags p AND SYN \<noteq> 0 \<or> \<not> active (sv_conn s) \<or> in_src_ip p \<noteq> client_ip (sv_conn s)
        \<or> in_sport p \<noteq> client_port (sv_conn s) \<or> in_flags p AND RST \<noteq> 0")
    case True
    then show ?thesis using assms(3) Some syn by (auto simp: process_def split_beta split: if_splits)
  next
    case False
    then have seg: "process_segment t now False p s = Some (out, s')"
      using assms(3) Some by (simp add: process_def)
    have "in_payload p \<noteq> [] \<Longrightarrow> snd_una (process_ack p (sv_conn s)) \<noteq> iss (sv_conn s)"
      using assms(2) Some False by simp
    from process_segment_pumps [OF assms(1) this, of t now False] seg show ?thesis
      using pump_server_in_flight by (fastforce simp: process_window_def)
  qed
qed

lemma srv_step_ok:
  "server_ok file s \<Longrightarrow> acks_first e s \<Longrightarrow> \<exists>out s'. srv_step t e s = Some (out, s') \<and> server_ok file s'"
  using process_ok srv_tick_ok
  by (cases e) (simp_all add: take_action_def server_ok_def routes_ok_def)

section \<open>Whatever arrives\<close>

text \<open>
  The invariant that needs nothing of the client: a packet may carry data before it has acknowledged
  the SYN-ACK, and a timer may then set the connection back to its initial sequence number. Every
  call still returns, since each turn of the loop of \<open>pump\<close> moves the next sequence number away
  from the initial one, and not past the end of the response and its FIN.
\<close>

definition conn_live :: "bytes \<Rightarrow> conn \<Rightarrow> bool" where
  "conn_live file c \<longleftrightarrow> conn_seq c \<and> (case resp c of None \<Rightarrow> True | Some r \<Rightarrow> resp_ok file r)"

definition server_live :: "bytes \<Rightarrow> tcp_server \<Rightarrow> bool" where
  "server_live file s \<longleftrightarrow> routes_ok file s \<and> conn_live file (sv_conn s)"

lemma conn_live_default: "conn_live file default_conn"
  by (simp add: conn_live_def conn_seq_def default_conn_def dist_def)

lemma server_live_default: "server_live file s \<Longrightarrow> server_live file (s\<lparr>sv_conn := default_conn\<rparr>)"
  by (simp add: server_live_def routes_ok_def conn_live_default)

lemma server_ok_live: "server_ok file s \<Longrightarrow> server_live file s"
  by (auto simp: server_ok_def server_live_def conn_ok_def conn_live_def split: option.splits)

lemma sent_bytes_dist:
  assumes "conn_seq c" "resp c = Some r"
  shows "sent_bytes c = min (dist c (snd_nxt c) - 1) (total_len r)"
proof (cases "snd_nxt c = iss c")
  case True
  have "sint (- 1 :: u32) = - 1" by simp
  then have "clamp_bytes n (- 1) = 0" for n by (simp only: clamp_bytes_def)
  then show ?thesis using True by (simp add: sent_bytes_def dist_def)
next
  case False
  then show ?thesis
    using assms clamp_dist [of c "snd_nxt c"] dist_pos [of "snd_nxt c" c]
    by (simp add: sent_bytes_def resp_total_def conn_seq_def)
qed

lemma pump_loop_returns:
  assumes "conn_seq c" "resp c = Some r" "resp_ok file r"
  shows "\<exists>out c'. pump_loop now window r c = Some (out, c') \<and> conn_live file c'"
  using assms
proof (induction "Suc (total_len r) - dist c (snd_nxt c)" arbitrary: c rule: less_induct)
  case less
  define k where "k = sent_bytes c"
  define edge where "edge = min (acked_bytes c + window) (total_len r)"
  define n where "n = min (edge - k) MSS"
  define chunk where "chunk = read_response r k n"
  define e where "e = c\<lparr>snd_nxt := snd_nxt c + word_of_nat (length chunk), last_send_ms := now\<rparr>"
  define f where "f = e\<lparr>snd_nxt := snd_nxt e + 1, resp := Some (r\<lparr>fin_sent := True\<rparr>)\<rparr>"
  have turn: "pump_loop now window r c = (if edge \<le> k \<or> chunk = [] then Some ([], c)
      else if total_len r \<le> k + length chunk then Some ([srv_segment c (PSH OR ACK OR FIN) chunk], f)
      else Option.bind (pump_loop now window r e) (\<lambda>(out, c'). Some (srv_segment c (PSH OR ACK) chunk # out, c')))"
    unfolding k_def edge_def n_def chunk_def e_def f_def by (subst pump_loop.simps) (simp add: Let_def)
  have live: "conn_live file c" using less.prems by (simp add: conn_live_def)
  show ?case
  proof (cases "k \<ge> edge \<or> chunk = []")
    case True
    with live show ?thesis by (auto simp: turn)
  next
    case False
    then have k: "k < edge" "edge \<le> total_len r" by (auto simp: edge_def)
    have len: "length chunk = n" "0 < n" "k + n \<le> total_len r"
      using False k read_response_wire [OF less.prems(3), of k n] length_wire [OF less.prems(3)]
      by (auto simp: chunk_def n_def)
    have d: "dist c (snd_nxt c) \<le> Suc k" "dist c (snd_una c) \<le> dist c (snd_nxt c)"
      using sent_bytes_dist [OF less.prems(1,2)] k less.prems(1) by (auto simp: k_def conn_seq_def)
    have t: "total_len r + 2 < 2 ^ 31" using less.prems(3) by (simp add: resp_ok_def)
    have nx: "dist c (snd_nxt e) = dist c (snd_nxt c) + n"
      using dist_add [of c "snd_nxt c" n] d len t by (simp add: e_def)
    have de: "dist e x = dist c x" for x by (simp add: dist_def e_def)
    have se: "conn_seq e" using less.prems(1) nx d len t
      by (simp add: conn_seq_def de) (simp add: e_def)
    show ?thesis
    proof (cases "k + n \<ge> total_len r")
      case True
      have "dist c (snd_nxt f) = dist c (snd_nxt c) + n + 1"
        using dist_add [of c "snd_nxt e" 1] nx d len t by (simp add: f_def)
      then have "conn_seq f"
        using se d len t by (simp add: conn_seq_def f_def dist_def e_def)
      then have "conn_live file f" using less.prems(3) by (auto simp: conn_live_def f_def resp_ok_def)
      then show ?thesis using False True len by (auto simp: turn)
    next
      case rest: False
      have "\<exists>out c'. pump_loop now window r e = Some (out, c') \<and> conn_live file c'"
      proof (rule less.hyps [OF _ se])
        show "Suc (total_len r) - dist e (snd_nxt e) < Suc (total_len r) - dist c (snd_nxt c)"
          using d len nx k by (simp add: de)
      qed (use less.prems in \<open>simp_all add: e_def\<close>)
      then show ?thesis using False rest len by (auto simp: turn)
    qed
  qed
qed

lemma pump_server_live:
  "server_live file s \<Longrightarrow> \<exists>out s'. pump_server now window s = Some (out, s') \<and> server_live file s'"
  using pump_loop_returns [of "sv_conn s" _ "file" now window]
  by (cases "resp (sv_conn s)")
     (fastforce simp: pump_server_def pump_def server_live_def conn_live_def routes_ok_def)+

lemma process_ack_live: "conn_live file c \<Longrightarrow> conn_live file (process_ack p c)"
proof -
  assume ok: "conn_live file c"
  then have s: "conn_seq c" by (simp add: conn_live_def)
  have d: "dist (process_ack p c) x = dist c x" for x by (simp add: dist_def)
  show ?thesis
    using ok process_ack_una [OF s, of p] process_ack_resp [of p c]
    by (auto simp: conn_live_def conn_seq_def d split: option.splits)
qed

lemma build_response_live: "server_live file s \<Longrightarrow> server_live file (build_response t req s)"
  using response_for_ok [OF route_request_ok, of "file" s t req req]
  by (simp add: server_live_def routes_ok_def build_response_resp conn_live_def conn_seq_def dist_def)

lemma process_segment_live:
  assumes "server_live file s"
  shows "\<exists>out s'. process_segment t now blast p s = Some (out, s') \<and> server_live file s'"
proof -
  define s1 where "s1 = s\<lparr>sv_conn := process_ack p (sv_conn s)\<rparr>"
  define s2 where "s2 = s1\<lparr>sv_conn := (sv_conn s1)\<lparr>rcv_nxt := in_seq p + word_of_nat (length (in_payload p))\<rparr>\<rparr>"
  define s3 where "s3 = (if resp (sv_conn s2) = None then build_response t (in_payload p) s2 else s2)"
  have 1: "server_live file s1"
    using assms process_ack_live by (simp add: s1_def server_live_def routes_ok_def)
  then have "server_live file s2"
    by (simp add: s2_def server_live_def routes_ok_def conn_live_def conn_seq_def dist_def)
  then have 3: "server_live file s3" using build_response_live by (simp add: s3_def)
  have "process_segment t now blast p s =
     (if in_payload p \<noteq> [] then pump_server now (process_window t blast (sv_conn s3)) s3
      else if in_flags p AND FIN \<noteq> 0
      then Some ([srv_segment ((sv_conn s1)\<lparr>rcv_nxt := in_seq p + 1\<rparr>) ACK []], s1\<lparr>sv_conn := default_conn\<rparr>)
      else pump_server now (process_window t blast (sv_conn s1)) s1)"
    by (simp add: process_segment_def Let_def s1_def s2_def s3_def)
  moreover have "server_live file (s1\<lparr>sv_conn := default_conn\<rparr>)"
    using 1 by (rule server_live_default)
  ultimately show ?thesis using 1 3 pump_server_live by simp
qed

lemma process_live:
  assumes "server_live file s"
  shows "\<exists>out s'. process t rand now blast inner s = Some (out, s') \<and> server_live file s'"
proof (cases "srv_parse inner")
  case (Some p)
  have "server_live file (s\<lparr>sv_conn := snd (accept_syn rand now p)\<rparr>)"
    using accept_syn_ok [OF Some, of "file" rand now] assms
      server_ok_live [of "file" "s\<lparr>sv_conn := snd (accept_syn rand now p)\<rparr>"]
    by (simp add: server_live_def server_ok_def routes_ok_def)
  moreover have "server_live file (s\<lparr>sv_conn := default_conn\<rparr>)"
    using assms by (rule server_live_default)
  ultimately show ?thesis
    using Some assms process_segment_live [OF assms, of t now blast p] by (auto simp: process_def split_beta)
qed (use assms in \<open>simp add: process_def\<close>)

lemma srv_tick_live:
  assumes "server_live file s"
  shows "\<exists>out s'. srv_tick now s = Some (out, s') \<and> server_live file s'"
proof -
  define c where "c = sv_conn s"
  define d where "d = c\<lparr>rto_attempts := sat_inc (rto_attempts c), rto_ms := min (sat_double (rto_ms c)) RTO_MAX_MS,
      snd_nxt := snd_una c, resp := map_option (\<lambda>r. r\<lparr>fin_sent := False\<rparr>) (resp c)\<rparr>"
  have "conn_live file d"
    using assms by (auto simp: server_live_def d_def c_def conn_live_def conn_seq_def dist_def resp_ok_def
        split: option.splits)
  then have ok: "server_live file (s\<lparr>sv_conn := d\<rparr>)" using assms by (simp add: server_live_def routes_ok_def)
  have "server_live file (s\<lparr>sv_conn := default_conn\<rparr>)"
    using assms by (rule server_live_default)
  moreover have "srv_tick now s = Some ([], s) \<or> (\<exists>out. srv_tick now s = Some (out, s\<lparr>sv_conn := default_conn\<rparr>))
    \<or> srv_tick now s = pump_server now (max (send_window d) 1) (s\<lparr>sv_conn := d\<rparr>)"
    by (simp add: srv_tick_def Let_def reset_with_rst_def d_def flip: c_def)
  ultimately show ?thesis using assms pump_server_live [OF ok] by auto
qed

lemma srv_step_live:
  "server_live file s \<Longrightarrow> \<exists>out s'. srv_step t e s = Some (out, s') \<and> server_live file s'"
  using process_live srv_tick_live
  by (cases e) (simp_all add: take_action_def server_live_def routes_ok_def)

end
