(* ===== verification/TcpProps.thy ===== *)
theory TcpProps
  imports TcpInvariant
begin

text \<open>
  The properties of the TCP server: it always returns, it builds the packets the client
  builds, what it sends are consecutive pieces of the response within the window the client
  advertised, and an expired timer sends again from the first unacknowledged byte.
\<close>

section \<open>Runs\<close>

text \<open>
  A machine handles events one by one, each with some output; \<open>None\<close> is a handler that
  never returns. \<open>allowed_run\<close> says that every event of a run is allowed where it comes.
\<close>

fun run_events :: "('e \<Rightarrow> 's \<Rightarrow> ('o list \<times> 's) option) \<Rightarrow> 'e list \<Rightarrow> 's \<Rightarrow> ('o list \<times> 's) option" where
  "run_events step [] s = Some ([], s)"
| "run_events step (e # es) s = Option.bind (step e s) (\<lambda>(o1, s1).
     Option.bind (run_events step es s1) (\<lambda>(o2, s2). Some (o1 @ o2, s2)))"

fun allowed_run ::
  "('e \<Rightarrow> 's \<Rightarrow> ('o list \<times> 's) option) \<Rightarrow> ('e \<Rightarrow> 's \<Rightarrow> bool) \<Rightarrow> 'e list \<Rightarrow> 's \<Rightarrow> bool"
where
  "allowed_run step ok [] s \<longleftrightarrow> True"
| "allowed_run step ok (e # es) s \<longleftrightarrow> ok e s \<and>
     (case step e s of None \<Rightarrow> True | Some (out, s1) \<Rightarrow> allowed_run step ok es s1)"

locale live_machine =
  fixes step :: "'e \<Rightarrow> 's \<Rightarrow> ('o list \<times> 's) option"
    and ok :: "'e \<Rightarrow> 's \<Rightarrow> bool"
    and inv :: "'s \<Rightarrow> bool"
  assumes step_inv: "inv s \<Longrightarrow> ok e s \<Longrightarrow> \<exists>out s'. step e s = Some (out, s') \<and> inv s'"
begin

lemma run_inv:
  "inv s \<Longrightarrow> allowed_run step ok es s \<Longrightarrow> \<exists>out s'. run_events step es s = Some (out, s') \<and> inv s'"
proof (induction es arbitrary: s)
  case (Cons e es)
  then obtain out s' where "step e s = Some (out, s')" "inv s'" using step_inv [of s e] by auto
  with Cons show ?case by fastforce
qed simp

end

text \<open>An event that is allowed by itself is allowed in every state.\<close>

lemma allowed_run_all: "list_all ok es \<Longrightarrow> allowed_run step (\<lambda>e s. ok e) es s"
  by (induction es arbitrary: s) (simp_all split: option.split)

interpretation srv: live_machine "srv_step t" "\<lambda>e s. True" "server_live file" for t "file"
  by unfold_locales (rule srv_step_live)

text \<open>A server whose client acknowledges the SYN-ACK before or with its data.\<close>

interpretation acked: live_machine "srv_step t" acks_first "server_ok file" for t "file"
  by unfold_locales (rule srv_step_ok)

text \<open>
  C14: from a fresh server whose routes give well-formed replies of less than 100 MB, every
  sequence of packets, ticks and polls returns, each of them, whatever the packets hold: no packet
  makes the sending loop run forever, and the connection stays sound (sequence numbers in order
  and within half the sequence space, a well-formed staged response).
\<close>

theorem server_always_returns:
  "routes_ok file s \<Longrightarrow> sv_conn s = default_conn \<Longrightarrow>
   \<exists>out s'. run_events (srv_step t) es s = Some (out, s') \<and> server_live file s'"
  using srv.run_inv [OF _ allowed_run_all [of "\<lambda>e. True"], of "file" s es t]
  by (simp add: server_live_def conn_live_default list_all_iff)

text \<open>
  The witness has data before any acknowledgement of the SYN-ACK, and a timer that expires then:
  a connection is opened, a request arrives without the ACK flag, and the retransmission timer runs out.
\<close>

definition early_data :: "bytes" where
  "early_data = tcp_packet [100, 64, 0, 1] [100, 64, 0, 2] 4000 80 11 0 PSH [71, 69, 84, 32, 47]"

theorem server_always_returns_witness:
  "\<exists>out s'. run_events (srv_step host_target)
      [Packet 7 0 False (tcp_packet [100, 64, 0, 1] [100, 64, 0, 2] 4000 80 10 0 SYN []),
       Packet 7 0 False early_data, Tick 1000, Tick 40000] server_new = Some (out, s')
     \<and> server_live [] s'"
  by (rule server_always_returns) (simp_all add: routes_ok_def server_new_def)

section \<open>Packets and pieces\<close>

text \<open>
  The packet builder of the server, which lays out IP and TCP headers by offsets of its
  own, and the one of the client build the same packets.
\<close>

theorem segment_builders_agree:
  "length (our_ip c) = 4 \<Longrightarrow> length (client_ip c) = 4 \<Longrightarrow>
   srv_segment c flags payload = client_segment
     \<lparr>c_src = our_ip c, c_dst = client_ip c, c_sport = HTTP_PORT, c_dport = client_port c,
      c_snd_nxt = snd_nxt c, c_rcv_nxt = rcv_nxt c, c_request = [], c_response = [],
      c_done = False, c_established = True\<rparr> flags payload"
  by (simp add: srv_segment_eq client_segment_def tcp_packet_def)

theorem segment_builders_agree_witness:
  "length (srv_segment default_conn ACK [1, 2]) = 42"
  using segment_builders_agree [of default_conn ACK "[1, 2]"]
  by (simp add: default_conn_def client_segment_def tcp_packet_fields [unfolded tcp_packet_def])

lemma pieces_concat:
  "concat (map (\<lambda>(k, n). take n (drop k w)) (pieces k e)) = take (e - k) (drop k w)"
proof (induction k e rule: pieces.induct)
  case (1 k e)
  show ?case
  proof (cases "k < e")
    case True
    define n where "n = min (e - k) MSS"
    have "e - k = n + (e - (k + n))" using True by (simp add: n_def min_def)
    then have "take (e - k) (drop k w) = take n (drop k w) @ take (e - (k + n)) (drop (k + n) w)"
      by (metis take_add drop_drop add.commute)
    with 1 [OF True n_def] True show ?thesis
      by (subst pieces.simps) (simp add: Let_def flip: n_def)
  qed (subst pieces.simps, simp)
qed

lemma pieces_sizes: "(k', n) \<in> set (pieces k e) \<Longrightarrow> 0 < n \<and> n \<le> MSS \<and> k \<le> k' \<and> k' + n \<le> e"
proof (induction k e rule: pieces.induct)
  case (1 k e)
  then show ?case
    by (subst (asm) pieces.simps) (fastforce simp: Let_def MSS_def split: if_splits)
qed

text \<open>
  C33: what \<open>pump\<close> sends. A sound connection sends the consecutive pieces, of at most 512
  bytes, of the response from the first byte not sent to the edge of the window, each in a
  packet with the sequence number of its first byte, the last one of the response with the
  FIN; the pieces together are exactly those bytes.
\<close>

theorem pump_sends_pieces:
  assumes "conn_ok file c" "resp c = Some r"
  shows "(let k = dist c (snd_nxt c) - 1; e = send_edge window r c; ps = pieces k e in
     map_option fst (pump now window c) = Some (map (piece_packet c (wire file r)) ps)
     \<and> concat (map (\<lambda>(k, n). take n (drop k (wire file r))) ps) = take (e - k) (drop k (wire file r))
     \<and> list_all (\<lambda>(k, n). 0 < n \<and> n \<le> MSS) ps)"
proof -
  have "list_all (\<lambda>(k, n). 0 < n \<and> n \<le> MSS) (pieces k e)" for k e
    using pieces_sizes [of _ _ k e] by (fastforce simp: list_all_iff)
  moreover have "pieces k e = []" if "\<not> k < e" for k e using that by (subst pieces.simps) simp
  ultimately show ?thesis
    by (auto simp: pump_result [OF assms] pieces_concat Let_def)
qed

definition sample_resp :: resp_state where
  "sample_resp = \<lparr>headers = [1, 2], hdr_len = 2, resp_source = Owned [3, 4, 5], body_base = 0,
     total_len = 5, fin_sent = False\<rparr>"

definition sample_conn :: conn where
  "sample_conn = default_conn\<lparr>active := True, iss := 100, snd_una := 101, snd_nxt := 101, peer_win := 3,
     rto_ms := 1000, resp := Some sample_resp\<rparr>"

lemma sample_conn_ok: "conn_ok [] sample_conn" "resp sample_conn = Some sample_resp"
  by (simp_all add: conn_ok_def conn_seq_def sample_conn_def default_conn_def dist_def resp_ok_def sample_resp_def)

theorem pump_sends_pieces_witness:
  "map_option fst (pump 0 3 sample_conn) = Some [piece_packet sample_conn [1, 2, 3, 4, 5] (0, 3)]"
proof -
  have d: "dist sample_conn (snd_nxt sample_conn) = 1" "dist sample_conn (snd_una sample_conn) = 1"
    by (simp_all add: dist_def sample_conn_def)
  have w: "wire [] sample_resp = [1, 2, 3, 4, 5]" by (simp add: wire_def sample_resp_def)
  have p: "pieces 0 3 = [(0, 3)]" "pieces 3 3 = []" by (simp_all add: pieces.simps MSS_def Let_def)
  have e: "send_edge 3 sample_resp sample_conn = 3" by (simp add: send_edge_def d sample_resp_def)
  from pump_sends_pieces [OF sample_conn_ok, of 3 0] show ?thesis
    by (simp add: Let_def d w p e)
qed

section \<open>Flow control\<close>

text \<open>
  Flow control. After a packet or a tick the bytes in flight (the FIN counted) are no
  more than before it, or than the window the client last advertised, capped at 2048 bytes,
  plus the FIN; a tick lets one byte through even when the window is closed.
\<close>

theorem window_respected:
  assumes "server_ok file s" "acks_first e s" "srv_step t e s = Some (out, s')"
    and "case e of Packet rand now blast inner \<Rightarrow> \<not> blast | _ \<Rightarrow> True"
  shows "in_flight (sv_conn s') \<le> max (in_flight (sv_conn s)) (max (send_window (sv_conn s')) 1 + 1)"
proof (cases e)
  case (Packet rand now blast inner)
  then show ?thesis using assms process_in_flight [of "file" s rand now inner t out s'] by simp
next
  case (Tick now)
  then show ?thesis
    using assms srv_tick_pumps [OF assms(1), of now] pump_server_in_flight by fastforce
next
  case Take_action
  then show ?thesis using assms(3) by (auto simp: take_action_def)
qed
theorem window_respected_witness:
  "in_flight (sv_conn (snd (the (srv_step host_target (Tick 0) server_new)))) \<le> 2"
proof -
  have s: "srv_step host_target (Tick 0) server_new = Some ([], server_new)"
    by (simp add: srv_tick_def server_new_def default_conn_def)
  have peer: "peer_win default_conn = 0" by (simp add: default_conn_def)
  have "server_ok [] server_new"
    by (simp add: server_ok_def routes_ok_def server_new_def conn_ok_default)
  from window_respected [OF this _ s] have "in_flight (sv_conn server_new) \<le> 2"
    using peer by (simp add: server_new_def send_window_def)
  then show ?thesis unfolding s by simp
qed

section \<open>Retransmission\<close>



end
