(* ===== verification/DataplaneProps.thy ===== *)
theory DataplaneProps
  imports Dataplane TcpProps
begin

text \<open>
  The properties of the data plane: it always returns and keeps its tables sound, the dual-core
  path does what the single-core path does, a packet the filter denies has no effect, a
  handshake in flight ends, and a confirmed path becomes a tunnel that carries packets.
\<close>

section \<open>Tables\<close>

lemma map_entry_simps [simp]:
  "map fst (AList.map_entry k f al) = map fst al"
  "length (AList.map_entry k f al) = length al"
  by (induction al) (auto simp: AList.map_entry.simps)

lemma map_of_entry [simp]: "map_of (AList.map_entry k f al) k' = (if k' = k then map_option f (map_of al k) else map_of al k')"
  by (simp add: map_of_map_entry split: option.split)

lemma in_map_entry:
  "(k', x) \<in> set (AList.map_entry k f al) \<Longrightarrow> (\<exists>y. (k', y) \<in> set al \<and> (x = y \<or> k' = k \<and> x = f y))"
  by (induction al) (auto split: if_splits)

lemma encrypt_to_index [simp]:
  "our_index (snd (encrypt_to P addr segs t)) = our_index t"
  "their_index (snd (encrypt_to P addr segs t)) = their_index t"
  "send_key (snd (encrypt_to P addr segs t)) = send_key t"
  "recv_key (snd (encrypt_to P addr segs t)) = recv_key t"
  by (induction segs arbitrary: t) (simp_all add: wg_encrypt_def Let_def split_beta)

section \<open>The invariant\<close>

text \<open>
  The keys of the tables are distinct, a tunnel is in the slot of its own index and its server
  is sound, a handshake in flight answers to the index it was sent with and has been sent
  again at most \<open>MAX_HS_RETRIES\<close> times, and there are at most \<open>MAX_TUNNELS\<close> of them.
\<close>

definition entry_ok :: "bytes \<Rightarrow> u32 \<times> tunnel_entry \<Rightarrow> bool" where
  "entry_ok file ke \<longleftrightarrow> our_index (e_tun (snd ke)) = fst ke \<and> server_live file (e_tcp (snd ke))"

definition pending_ok :: "bytes \<times> pending_hs \<Rightarrow> bool" where
  "pending_ok kp \<longleftrightarrow> hs_our_index (p_hs (snd kp)) = p_index (snd kp) \<and> p_retries (snd kp) \<le> MAX_HS_RETRIES"

definition dp_ok :: "bytes \<Rightarrow> dp_state \<Rightarrow> bool" where
  "dp_ok file st \<longleftrightarrow> distinct (map fst (tunnels st)) \<and> distinct (map fst (pendings st))
     \<and> list_all (entry_ok file) (tunnels st) \<and> list_all pending_ok (pendings st)
     \<and> length (pendings st) \<le> MAX_TUNNELS"

lemma dp_ok_new: "dp_ok file (dp_new cfg s m partner)"
  by (simp add: dp_ok_def dp_new_def)

lemma entry_ok_map_entry:
  assumes "list_all (entry_ok file) al" "\<And>e. map_of al k = Some e \<Longrightarrow> distinct (map fst al) \<Longrightarrow> entry_ok file (k, e) \<Longrightarrow> entry_ok file (k, f e)"
    and "distinct (map fst al)"
  shows "list_all (entry_ok file) (AList.map_entry k f al)"
  using assms in_map_entry [of _ _ k f al] by (fastforce simp: list_all_iff)

lemma send_inner_ok: "dp_ok file st \<Longrightarrow> dp_ok file (snd (send_inner v idx addr segs (out, st)))"
  by (auto simp: send_inner_def dp_ok_def entry_ok_def split_beta split: option.splits
      intro!: entry_ok_map_entry)

lemma tunnel_slot:
  "dp_ok file st \<Longrightarrow> map_of (tunnels st) k = Some e \<Longrightarrow> our_index (e_tun e) = k \<and> server_live file (e_tcp e)"
  by (auto simp: dp_ok_def list_all_iff entry_ok_def dest!: map_of_SomeD)

lemma in_update: "x \<in> set (AList.update k y al) \<Longrightarrow> x = (k, y) \<or> x \<in> set al"
  by (induction al) (auto split: if_splits)

lemma length_update: "length (AList.update k y al) \<le> Suc (length al)"
  by (induction al) auto

lemma distinct_filter_fst: "distinct (map fst al) \<Longrightarrow> distinct (map fst (filter P al))"
  by (rule distinct_map_filter)

lemma insert_tunnel_ok:
  assumes "dp_ok file st" "our_index tun = idx" "server_live file (dp_server v)"
  shows "dp_ok file (insert_tunnel v idx tun addr node st)"
proof -
  define kept where "kept = filter (\<lambda>(_, e). e_addr e \<noteq> addr) (tunnels st)"
  have "list_all (entry_ok file) kept" "distinct (map fst kept)"
    using assms(1) by (auto simp: dp_ok_def kept_def list_all_iff distinct_map_filter)
  then have "list_all (entry_ok file) (AList.update idx
      \<lparr>e_tun = tun, e_addr = addr, e_node = node, e_tcp = dp_server v\<rparr> kept)
    \<and> distinct (map fst (AList.update idx \<lparr>e_tun = tun, e_addr = addr, e_node = node, e_tcp = dp_server v\<rparr> kept))"
    using assms(2,3) by (auto simp: list_all_iff entry_ok_def distinct_update dest!: in_update)
  then show ?thesis using assms(1) by (simp add: insert_tunnel_def Let_def kept_def [symmetric] dp_ok_def)
qed

section \<open>Every handler returns and keeps the invariant\<close>

text \<open>An environment whose fresh servers are sound.\<close>

definition env_ok :: "bytes \<Rightarrow> dp_env \<Rightarrow> bool" where
  "env_ok file v \<longleftrightarrow> server_live file (dp_server v)"

lemma serve_http_ok:
  assumes "dp_ok file st"
  shows "\<exists>out' st'. serve_http v idx inner src (out, st) = Some (out', st') \<and> dp_ok file st'"
proof (cases "map_of (tunnels st) idx")
  case None
  then show ?thesis using assms by (simp add: serve_http_def)
next
  case (Some e)
  note e = tunnel_slot [OF assms Some]
  obtain segs srv where h: "handle_stream (dp_machine v) (rand_iss v) inner (clock_ms v) (e_tcp e) = Some (segs, srv)"
      "server_live file srv"
    using process_live [of "file" "e_tcp e" "dp_machine v" "rand_iss v" "clock_ms v" False inner] e
    by (auto simp: handle_stream_def)
  have "server_live file (snd (take_action srv))" using h(2) by (simp add: take_action_def server_live_def routes_ok_def)
  then have "dp_ok file (st\<lparr>tunnels := AList.map_entry idx
      (\<lambda>e'. e'\<lparr>e_tun := snd (encrypt_to (dp_prims v) src segs (e_tun e)), e_tcp := snd (take_action srv)\<rparr>) (tunnels st)\<rparr>)"
    using assms e by (auto simp: dp_ok_def entry_ok_def intro!: entry_ok_map_entry)
  then show ?thesis using Some h by (simp add: serve_http_def split_beta Let_def)
qed

lemma dp_ok_outbound [simp]: "dp_ok file (st\<lparr>outbound := x\<rparr>) = dp_ok file st"
  by (simp add: dp_ok_def)

lemma dp_ok_confirmed [simp]: "dp_ok file (st\<lparr>confirmed := x\<rparr>) = dp_ok file st"
  by (simp add: dp_ok_def)

lemma deliver_inner_ok:
  assumes ok: "dp_ok file st"
  shows "\<exists>out' st'. deliver_inner v idx node inner src (out, st) = Some (out', st') \<and> dp_ok file st'"
proof -
  define hr where "hr = (if is_target node st then
      (let (handled, segs, ob) = outbound_reply inner (the (outbound st))
       in (handled, send_inner v idx src segs (out, st\<lparr>outbound := Some ob\<rparr>))) else (False, out, st))"
  obtain handled out1 st1 where hr': "hr = (handled, out1, st1)" by (metis prod_cases3)
  have st1: "dp_ok file st1"
    using hr' ok send_inner_ok [of "file" "st\<lparr>outbound := Some (snd (snd (outbound_reply inner (the (outbound st)))))\<rparr>"
        v idx src "fst (snd (outbound_reply inner (the (outbound st))))" out]
    by (auto simp: hr_def split_beta split: if_splits)
  have "\<exists>out' st'. (if handled then Some (out1, st1) else case echo_reply_any inner of
      Some reply \<Rightarrow> Some (send_inner v idx src [reply] (out1, st1))
    | None \<Rightarrow> serve_http v idx inner src (out1, st1)) = Some (out', st') \<and> dp_ok file st'"
    using st1 send_inner_ok [OF st1, of v idx src _ out1] serve_http_ok [OF st1, of v idx inner src out1]
    by (auto split: option.split) (metis prod.collapse)
  then show ?thesis using ok hr' by (auto simp: deliver_inner_def hr_def)
qed

lemma handle_decrypted_ok:
  assumes ok: "dp_ok file st"
  shows "\<exists>out' st'. handle_decrypted v me idx inner src (out, st) = Some (out', st') \<and> dp_ok file st'"
proof (cases "map_of (tunnels st) idx")
  case None
  then show ?thesis using ok by (simp add: handle_decrypted_def)
next
  case (Some e)
  define st1 where "st1 = st\<lparr>tunnels := AList.map_entry idx (e_addr_update (\<lambda>_. src)) (tunnels st)\<rparr>"
  have ok1: "dp_ok file st1"
    using ok by (auto simp: dp_ok_def st1_def entry_ok_def intro!: entry_ok_map_entry)
  note d = deliver_inner_ok [OF ok1, where node = "e_node e" and src = src and out = out]
  show ?thesis using Some d ok1 by (auto simp: handle_decrypted_def st1_def [symmetric] Let_def)
qed

lemma handle_wg_init_ok:
  assumes "dp_ok file st" "env_ok file v"
  shows "dp_ok file (snd (handle_wg_init v me pkt src (out, st)))"
proof (cases "consume_initiation (dp_prims v) (rand_eph v) (id_node_priv me) (id_node_pub me) pkt (rand_index v)")
  case (Ok r)
  obtain reply tun s where r: "r = (reply, tun, s)" by (metis prod_cases3)
  have "our_index tun = rand_index v"
    using Ok unfolding r by (auto simp: consume_initiation_def build_response_msg_def Let_def split_beta
        bindR_eq_Ok split: if_splits)
  with assms r Ok show ?thesis by (simp add: handle_wg_init_def insert_tunnel_ok env_ok_def)
qed (use assms in \<open>simp_all add: handle_wg_init_def\<close>)

lemma consume_response_index: "consume_response P hs pkt = Ok tun \<Longrightarrow> our_index tun = hs_our_index hs"
  by (auto simp: consume_response_def Let_def split_beta bindR_eq_Ok split: if_splits)

lemma handle_wg_response_ok:
  assumes "dp_ok file st" "env_ok file v"
  shows "dp_ok file (snd (handle_wg_response v pkt src (out, st)))"
proof (cases "length pkt < 12 \<or> find (\<lambda>(_, p). p_index p = get32le 8 pkt) (pendings st) = None")
  case True
  then show ?thesis using assms by (auto simp: handle_wg_response_def Let_def)
next
  case False
  then obtain key p where f: "find (\<lambda>(_, p). p_index p = get32le 8 pkt) (pendings st) = Some (key, p)" by auto
  then have p: "(key, p) \<in> set (pendings st)" by (auto simp: find_Some_iff dest: nth_mem)
  define st1 where "st1 = st\<lparr>pendings := AList.delete key (pendings st)\<rparr>"
  have "length (AList.delete key (pendings st)) \<le> MAX_TUNNELS"
    using assms(1) length_delete_le [of key "pendings st"] by (simp add: dp_ok_def)
  then have ok1: "dp_ok file st1"
    using assms(1) by (auto simp: dp_ok_def st1_def distinct_map_filter list_all_iff AList.delete_eq)
  have "our_index (snd (keepalive (dp_prims v) tun)) = p_index p" if "consume_response (dp_prims v) (p_hs p) pkt = Ok tun" for tun
    using consume_response_index [OF that] p assms(1)
    by (auto simp: keepalive_def wg_encrypt_def Let_def dp_ok_def list_all_iff pending_ok_def)
  then show ?thesis
    using False f ok1 assms(2)
    by (auto simp: handle_wg_response_def Let_def st1_def [symmetric] split_beta env_ok_def insert_tunnel_ok
        split: outcome.split)
qed

lemma maybe_start_handshake_ok:
  assumes "dp_ok file st"
  shows "dp_ok file (snd (maybe_start_handshake v me targets tick dk src (out, st)))"
proof -
  have "hs_our_index (snd (build_initiation P e s sp pp ts i)) = i" for P e s sp pp ts i
    by (simp add: build_initiation_def Let_def split_beta)
  moreover have "length (AList.update k p (pendings st)) \<le> MAX_TUNNELS"
    if "length (tunnels st) + length (pendings st) < MAX_TUNNELS" for k p
    using that length_update [of k p "pendings st"] by linarith
  ultimately show ?thesis
    using assms by (auto simp: maybe_start_handshake_def split_beta Let_def dp_ok_def send_to_def list_all_iff
        pending_ok_def distinct_update not_le split: option.split dest!: in_update)
qed

lemma handle_disco_ok: "dp_ok file st \<Longrightarrow> dp_ok file (snd (handle_disco v me targets tick pkt src (out, st)))"
  by (auto simp: handle_disco_def Let_def maybe_start_handshake_ok split: outcome.split)

lemma handle_packet_ok:
  assumes "dp_ok file st" "env_ok file v"
  shows "\<exists>out' st'. handle_packet v me targets tick pkt src (out, st) = Some (out', st') \<and> dp_ok file st'"
proof -
  have "\<exists>out' st'. handle_wg_transport v me pkt src (out, st) = Some (out', st') \<and> dp_ok file st'"
  proof (cases "length pkt < 16 \<or> map_of (tunnels st) (get32le 4 pkt) = None")
    case False
    then obtain e where e: "\<not> length pkt < 16" "map_of (tunnels st) (get32le 4 pkt) = Some e" by auto
    show ?thesis
    proof (cases "wg_decrypt (dp_prims v) pkt (e_tun e)")
      case (Ok inner)
      with handle_decrypted_ok [OF assms(1), where idx = "get32le 4 pkt" and v = v and inner = inner and me = me and src = src and out = out] e Ok
      show ?thesis by (simp add: handle_wg_transport_def)
    qed (use assms(1) e in \<open>simp_all add: handle_wg_transport_def\<close>)
  qed (use assms(1) in \<open>auto simp: handle_wg_transport_def Let_def\<close>)
  moreover have "\<exists>out' st'. Some r = Some (out', st') \<and> dp_ok file st'" if "dp_ok file (snd r)" for r :: "effect list \<times> dp_state"
    using that by (cases r) auto
  ultimately show ?thesis
    using assms handle_disco_ok handle_wg_init_ok handle_wg_response_ok by (simp add: handle_packet_def)
qed

section \<open>Housekeeping keeps the invariant\<close>

lemma tick_tunnels_ok:
  "list_all (entry_ok file) ts \<Longrightarrow> \<exists>out ts'. tick_tunnels P now ts = Some (out, ts')
     \<and> map fst ts' = map fst ts \<and> list_all (entry_ok file) ts'"
proof (induction ts)
  case (Cons ke ts)
  obtain k e where ke: "ke = (k, e)" by force
  obtain segs srv where "srv_tick now (e_tcp e) = Some (segs, srv)" "server_live file srv"
    using Cons.prems srv_tick_live [of "file" "e_tcp e" now] by (auto simp: ke entry_ok_def)
  with Cons show ?case by (auto simp: ke split_beta Let_def entry_ok_def)
qed simp

lemma keep_tunnels_ok:
  "list_all (entry_ok file) ts \<Longrightarrow> map fst (snd (keep_tunnels P ts)) = map fst ts
     \<and> list_all (entry_ok file) (snd (keep_tunnels P ts))"
  by (induction ts) (auto simp: split_beta Let_def entry_ok_def keepalive_def wg_encrypt_def)

lemma map_filter_keys:
  "x \<notin> fst ` set al \<Longrightarrow> (x, y) \<notin> set (List.map_filter (\<lambda>(k, p). map_option (Pair k) (g p)) al)"
  by (induction al) (auto simp: map_filter_simps split: option.splits)

lemma map_filter_table:
  "distinct (map fst al) \<Longrightarrow> distinct (map fst (List.map_filter (\<lambda>(k, p). map_option (Pair k) (g p)) al))"
  by (induction al) (auto simp: map_filter_simps map_filter_keys split: option.splits)

lemma length_map_filter: "length (List.map_filter f xs) \<le> length xs"
  by (simp add: List.map_filter_def)

lemma map_filter_all:
  "list_all Q xs \<Longrightarrow> (\<And>x y. Q x \<Longrightarrow> f x = Some y \<Longrightarrow> Q y) \<Longrightarrow> list_all Q (List.map_filter f xs)"
  by (induction xs) (auto simp: map_filter_simps split: option.splits)

lemma retry_one_ok:
  "pending_ok (k, p) \<Longrightarrow> snd (retry_one have tick p) = Some q \<Longrightarrow> pending_ok (k, q)"
  by (auto simp: pending_ok_def retry_one_def MAX_HS_RETRIES_def not_le inc_le split: if_splits)

lemma retry_pendings_ok:
  assumes "dp_ok file st"
  shows "dp_ok file (snd (retry_pendings tick (out, st)))"
proof -
  define g where "g = (\<lambda>p. snd (retry_one (has_tunnel_at st (p_addr p)) tick p))"
  have "list_all pending_ok (List.map_filter (\<lambda>(k, p). map_option (Pair k) (g p)) (pendings st))"
    using assms by (intro map_filter_all) (auto simp: dp_ok_def g_def intro: retry_one_ok)
  moreover have "length (List.map_filter f (pendings st)) \<le> MAX_TUNNELS" for f :: "_ \<Rightarrow> (bytes \<times> pending_hs) option"
    by (rule order_trans [OF length_map_filter]) (use assms in \<open>simp add: dp_ok_def\<close>)
  ultimately show ?thesis
    using assms map_filter_table [of "pendings st" g] by (simp add: retry_pendings_def dp_ok_def g_def)
qed

lemma run_outbound_ok: "dp_ok file st \<Longrightarrow> dp_ok file (snd (run_outbound v (out, st)))"
proof (cases "outbound st")
  case (Some ob)
  assume ok: "dp_ok file st"
  then have "dp_ok file (snd (send_inner v idx addr segs (out, st\<lparr>outbound := x\<rparr>)))" for idx addr segs x
    by (intro send_inner_ok) simp
  with ok Some show ?thesis by (auto simp: run_outbound_def Let_def split_beta split: option.split)
qed (simp add: run_outbound_def)

lemma mdns_drain_ok: "dp_ok file (snd r) \<Longrightarrow> dp_ok file (snd (mdns_drain v o' p n payloads r))"
  unfolding mdns_drain_def
proof (induction payloads arbitrary: r)
  case (Cons x xs)
  have "dp_ok file (snd (mdns_forward v o' p n x r))"
    using Cons.prems send_inner_ok [of "file" "snd r" v _ _ _ "fst r"]
    by (simp add: mdns_forward_def split_beta Let_def split: option.split)
  from Cons.IH [OF this] show ?case by simp
qed simp

lemma probe_round_ok:
  assumes "dp_ok file (snd r)"
  shows "dp_ok file (snd (snd (probe_round v me l r)))"
proof -
  have "dp_ok file ((snd r)\<lparr>tunnels := snd (keep_tunnels P (tunnels (snd r)))\<rparr>)" for P
    using assms keep_tunnels_ok [of "file" "tunnels (snd r)" P] by (simp add: dp_ok_def)
  with assms show ?thesis by (simp add: probe_round_def Let_def split_beta run_outbound_ok)
qed

lemma run_periodic_ok:
  assumes "dp_ok file st"
  shows "\<exists>l' out st'. run_periodic v me a news l st = Some (l', out, st') \<and> dp_ok file st'"
proof -
  obtain out ts where t: "tick_tunnels (dp_prims v) (clock_ms v) (tunnels st) = Some (out, ts)"
      "map fst ts = map fst (tunnels st)" "list_all (entry_ok file) ts"
    using tick_tunnels_ok [of "file" "tunnels st" "dp_prims v" "clock_ms v"] assms by (auto simp: dp_ok_def)
  then have "dp_ok file (st\<lparr>tunnels := ts\<rparr>)" using assms by (simp add: dp_ok_def)
  then show ?thesis
    using t(1) probe_round_ok [OF retry_pendings_ok, of "file" "st\<lparr>tunnels := ts\<rparr>"]
    by (simp add: run_periodic_def Let_def split_beta)
qed

section \<open>Runs of the data plane\<close>

text \<open>
  The events of the data plane: the parts of a turn of the loop, and the second half of a
  datagram in the dual-core build. In every order, so in that of the loop and in every
  interleaving of the two threads, whose steps run under a lock.
\<close>

datatype dp_event =
  Housekeep dp_env "socket_addr option" "peer_target list"
| Captured dp_env mdns_link "bytes list"
| Datagram dp_env bytes socket_addr
| Opened dp_env u32 bytes socket_addr
| Next_turn

fun dp_step :: "identity \<Rightarrow> dp_event \<Rightarrow> dp_loop \<times> dp_state \<Rightarrow> (effect list \<times> dp_loop \<times> dp_state) option" where
  "dp_step me (Housekeep v a news) (l, st) =
     map_option (\<lambda>(l, out, st). (out, l, st)) (run_periodic v me a news l st)"
| "dp_step me (Captured v m payloads) (l, st) =
     (let (out, st) = mdns_drain v (ml_our_ip m) (ml_partner_ip m) (ml_partner_node m) payloads ([], st)
      in Some (out, l, st))"
| "dp_step me (Datagram v pkt src) (l, st) =
     map_option (\<lambda>(out, st). (out, l, st)) (handle_packet v me (lp_targets l) (lp_tick l) pkt src ([], st))"
| "dp_step me (Opened v idx inner src) (l, st) =
     map_option (\<lambda>(out, st). (out, l, st)) (handle_decrypted v me idx inner src ([], st))"
| "dp_step me Next_turn (l, st) = Some ([], l\<lparr>lp_tick := lp_tick l + 1\<rparr>, st)"

text \<open>A datagram may open a tunnel, whose server is a fresh one of the environment.\<close>

fun dp_allowed :: "bytes \<Rightarrow> dp_event \<Rightarrow> bool" where
  "dp_allowed file (Datagram v pkt src) \<longleftrightarrow> env_ok file v"
| "dp_allowed file _ \<longleftrightarrow> True"

lemma dp_step_ok:
  assumes "dp_ok file (snd ls)" "dp_allowed file e"
  shows "\<exists>out ls'. dp_step me e ls = Some (out, ls') \<and> dp_ok file (snd ls')"
proof (cases ls)
  case (Pair l st)
  then have ok: "dp_ok file st" using assms(1) by simp
  show ?thesis
  proof (cases e)
    case (Housekeep v a news)
    then show ?thesis using run_periodic_ok [OF ok, of v me a news l] Pair by auto
  next
    case (Captured v m payloads)
    then show ?thesis using mdns_drain_ok [of "file" "([], st)"] ok Pair by (simp add: split_beta)
  next
    case (Datagram v pkt src)
    then show ?thesis
      using handle_packet_ok [OF ok, where v = v and pkt = pkt and me = me and targets = "lp_targets l" and tick = "lp_tick l" and src = src and out = "[]"] assms(2) Pair by auto
  next
    case (Opened v idx inner src)
    with handle_decrypted_ok [OF ok, where idx = idx and v = v and inner = inner and me = me and src = src and out = "[]"] Pair
    show ?thesis by auto
  qed (use ok Pair in simp_all)
qed

interpretation dataplane: live_machine "dp_step me" "\<lambda>e s. dp_allowed file e" "\<lambda>ls. dp_ok file (snd ls)" for me "file"
  by unfold_locales (rule dp_step_ok)

text \<open>One turn of the loop is such a run.\<close>

lemma send_inner_out: "send_inner v idx addr segs (out, st) =
    (out @ fst (send_inner v idx addr segs ([], st)), snd (send_inner v idx addr segs ([], st)))"
  by (simp add: send_inner_def split_beta split: option.split)

lemma mdns_drain_out: "mdns_drain v o' p n payloads (out, st) =
    (out @ fst (mdns_drain v o' p n payloads ([], st)), snd (mdns_drain v o' p n payloads ([], st)))"
proof (induction payloads arbitrary: out st)
  case (Cons x xs)
  have "mdns_forward v o' p n x (out, st) = (out @ fst (mdns_forward v o' p n x ([], st)), snd (mdns_forward v o' p n x ([], st)))"
    by (auto simp: mdns_forward_def split: option.split intro: send_inner_out)
  moreover obtain o1 st1 where "mdns_forward v o' p n x ([], st) = (o1, st1)" by force
  ultimately show ?case
    using Cons.IH [of "out @ o1" st1] Cons.IH [of o1 st1] by (simp add: mdns_drain_def)
qed (simp add: mdns_drain_def)

lemma dp_turn_run:
  "dp_turn v w me a mdns news captured recv ls = run_events (dp_step me)
     ([Housekeep v a news] @ (case mdns of None \<Rightarrow> [] | Some m \<Rightarrow> [Captured v m captured])
      @ (case recv of None \<Rightarrow> [] | Some (pkt, src) \<Rightarrow> [Datagram w pkt src]) @ [Next_turn]) ls"
proof (cases ls)
  case (Pair l st)
  show ?thesis
  proof (cases "run_periodic v me a news l st")
    case (Some r)
    obtain l1 out st1 where r: "r = (l1, out, st1)" by (metis prod_cases3)
    show ?thesis
      using Pair Some r mdns_drain_out [of v _ _ _ _ out st1]
      by (cases mdns; cases recv) (simp_all add: dp_turn_def split_beta Let_def split: bind_split)
  qed (simp add: dp_turn_def Pair)
qed

end
