(* ===== verification/DataplaneSafe.thy ===== *)
theory DataplaneSafe
  imports DataplaneProps
begin

text \<open>
  What the data plane guarantees in every state: its calls return and its tables stay sound,
  the dual-core path refines the single-core path, only an authenticated packet the filter
  lets through has an effect, a handshake without an answer ends; and what it does not: every
  initiator is admitted.
\<close>

section \<open>It returns\<close>

definition sample_dp_env :: dp_env where
  "sample_dp_env = \<lparr>dp_prims = toy_prims, dp_seal = (\<lambda>pk sk n p. Some (replicate 16 0 @ p)),
     dp_open = (\<lambda>pk sk n c. Some (drop 16 c)), dp_machine = host_target, dp_server = server_new,
     net_ok = (\<lambda>n. True), rand_index = 7, rand_eph = [1], rand_iss = 100, rand_txid = (\<lambda>n. replicate 12 6),
     rand_nonce = (\<lambda>n. replicate 24 5), rand_ports = (\<lambda>n. replicate 512 0), unix_secs = 0, unix_nanos = 0,
     clock_ms = 5000\<rparr>"

definition sample_me :: identity where
  "sample_me = \<lparr>id_disco_priv = [1], id_disco_pub = replicate 32 1, id_node_priv = [3],
     id_node_pub = wg_pubkey toy_prims [3], id_allowed_srcs = None\<rparr>"

lemma sample_env_ok: "env_ok file sample_dp_env"
  by (simp add: env_ok_def sample_dp_env_def server_live_def routes_ok_def server_new_def conn_live_default)



section \<open>Two cores\<close>

lemma decrypt_transport_wg:
  "decrypt_transport P (recv_key t) pkt = (case wg_decrypt P pkt t of Ok x \<Rightarrow> Some x | _ \<Rightarrow> None)"
  by (auto simp: decrypt_transport_def wg_decrypt_def ok_or_def split: option.split outcome.split)

lemma wg_decrypt_not_Panic [simp]: "wg_decrypt P pkt t \<noteq> Panic"
  by (simp add: wg_decrypt_def ok_or_def split: option.split)

lemma not_disco: "pkt ! 0 \<noteq> 0x54 \<Longrightarrow> \<not> is_disco pkt"
  by (cases pkt) (auto simp: is_disco_def MAGIC_def)

lemma handle_packet_transport:
  assumes "pkt \<noteq> []" "pkt ! 0 = MSG_TRANSPORT" "\<not> is_stun pkt"
  shows "handle_packet v me targets tick pkt src r = handle_wg_transport v me pkt src r"
  using assms by (simp add: handle_packet_def not_disco MSG_TRANSPORT_def MSG_INITIATION_def MSG_RESPONSE_def)

lemma handle_transport_key:
  "16 \<le> length pkt \<Longrightarrow> handle_wg_transport v me pkt src r =
    (case packet_key pkt (snd r) of None \<Rightarrow> Some r
     | Some key \<Rightarrow> (case decrypt_transport (dp_prims v) key pkt of None \<Rightarrow> Some r
         | Some inner \<Rightarrow> handle_decrypted v me (get32le 4 pkt) inner src r))"
  by (cases r) (simp add: handle_wg_transport_def Let_def packet_key_def decrypt_transport_wg
      split: option.split outcome.split)

text \<open>
  What is needed of the threads that run between the two locks: the tunnel with the index keeps its
  receiving key, or goes, unless its index is drawn again for a new handshake.
\<close>

definition keeps_key :: "u32 \<Rightarrow> bytes \<Rightarrow> dp_state \<Rightarrow> bool" where
  "keeps_key idx k st \<longleftrightarrow> distinct (map fst (tunnels st))
     \<and> (\<forall>e. map_of (tunnels st) idx = Some e \<longrightarrow> recv_key (e_tun e) = k)
     \<and> (\<forall>p \<in> snd ` set (pendings st). p_index p \<noteq> idx)"

fun draws_other :: "u32 \<Rightarrow> dp_event \<Rightarrow> bool" where
  "draws_other idx (Datagram v pkt src) \<longleftrightarrow> rand_index v \<noteq> idx"
| "draws_other idx _ \<longleftrightarrow> True"

lemma keeps_key_frame [simp]:
  "keeps_key idx k (st\<lparr>outbound := x\<rparr>) = keeps_key idx k st"
  "keeps_key idx k (st\<lparr>confirmed := y\<rparr>) = keeps_key idx k st"
  by (simp_all add: keeps_key_def)

lemma keeps_key_entry:
  "keeps_key idx k st \<Longrightarrow> (\<And>e. map_of (tunnels st) i = Some e \<Longrightarrow> recv_key (e_tun (f e)) = recv_key (e_tun e)) \<Longrightarrow>
   keeps_key idx k (st\<lparr>tunnels := AList.map_entry i f (tunnels st)\<rparr>)"
  by (auto simp: keeps_key_def split: if_splits)

lemma send_inner_key: "keeps_key idx k (snd r) \<Longrightarrow> keeps_key idx k (snd (send_inner v i addr segs r))"
  by (cases r) (auto simp: send_inner_def split_beta split: option.split intro!: keeps_key_entry)

lemma map_of_filter_Some: "distinct (map fst al) \<Longrightarrow> map_of (filter P al) k = Some e \<Longrightarrow> map_of al k = Some e"
  by (auto simp: distinct_map_filter dest!: map_of_SomeD)

lemma insert_tunnel_key:
  "keeps_key idx k st \<Longrightarrow> i \<noteq> idx \<Longrightarrow> keeps_key idx k (insert_tunnel v i tun addr node st)"
  by (auto simp: insert_tunnel_def Let_def keeps_key_def update_conv' distinct_update distinct_map_filter
      dest: map_of_filter_Some)

lemma serve_http_key:
  "keeps_key idx k (snd r) \<Longrightarrow> serve_http v i inner src r = Some (out', st') \<Longrightarrow> keeps_key idx k st'"
  by (cases r) (auto simp: serve_http_def Let_def split_beta split: option.splits bind_splits intro!: keeps_key_entry)

lemma deliver_inner_key:
  assumes "keeps_key idx k st" "deliver_inner v i node inner src (out, st) = Some (out', st')"
  shows "keeps_key idx k st'"
proof -
  define hr where "hr = (if is_target node st then
      (let (handled, segs, ob) = outbound_reply inner (the (outbound st))
       in (handled, send_inner v i src segs (out, st\<lparr>outbound := Some ob\<rparr>))) else (False, out, st))"
  obtain handled r1 where hr': "hr = (handled, r1)" by (metis surj_pair)
  then have 1: "keeps_key idx k (snd r1)"
    using assms(1) by (auto simp: hr_def split_beta Let_def intro!: send_inner_key split: if_splits)
  have "keeps_key idx k st'" if "(case echo_reply_any inner of
      Some reply \<Rightarrow> Some (send_inner v i src [reply] r1) | None \<Rightarrow> serve_http v i inner src r1) = Some (out', st')"
    using that send_inner_key [OF 1, of v i src] serve_http_key [OF 1] by (auto split: option.splits) (metis snd_conv)
  then show ?thesis
    using assms 1 hr' by (auto simp: deliver_inner_def hr_def [symmetric] split: if_splits prod.splits)
qed

lemma handle_decrypted_key:
  assumes "keeps_key idx k st" "handle_decrypted v me i inner src (out, st) = Some (out', st')"
  shows "keeps_key idx k st'"
proof -
  define st1 where "st1 = st\<lparr>tunnels := AList.map_entry i (e_addr_update (\<lambda>_. src)) (tunnels st)\<rparr>"
  have "keeps_key idx k st1" using assms(1) unfolding st1_def by (rule keeps_key_entry) simp
  then show ?thesis
    using assms deliver_inner_key [of idx k st1 v i _ inner src out out' st']
    by (auto simp: handle_decrypted_def Let_def st1_def [symmetric] split: option.splits if_splits)
qed

lemma handle_wg_response_key:
  "keeps_key idx k st \<Longrightarrow> keeps_key idx k (snd (handle_wg_response v pkt src (out, st)))"
proof -
  assume k: "keeps_key idx k st"
  have d: "keeps_key idx k (st\<lparr>pendings := AList.delete key (pendings st)\<rparr>)" for key
    using k by (auto simp: keeps_key_def AList.delete_eq)
  have "p_index p \<noteq> idx" if "find (\<lambda>(_, p). p_index p = i) (pendings st) = Some (key, p)" for i key p
    using that k nth_mem by (fastforce simp: keeps_key_def find_Some_iff)
  then show ?thesis
    using k d by (auto simp: handle_wg_response_def Let_def split_beta intro!: insert_tunnel_key split: option.split outcome.split)
qed

lemma handle_disco_key:
  "keeps_key idx k st \<Longrightarrow> rand_index v \<noteq> idx \<Longrightarrow> keeps_key idx k (snd (handle_disco v me targets tick pkt src (out, st)))"
  by (auto simp: handle_disco_def maybe_start_handshake_def Let_def split_beta keeps_key_def
      split: outcome.split option.split dest!: in_update)

lemma handle_packet_key:
  assumes "keeps_key idx k st" "rand_index v \<noteq> idx" "handle_packet v me targets tick pkt src (out, st) = Some (out', st')"
  shows "keeps_key idx k st'"
proof -
  have "keeps_key idx k (snd (handle_wg_init v me pkt src (out, st)))"
    using assms(1,2) by (auto simp: handle_wg_init_def intro!: insert_tunnel_key split: outcome.split)
  moreover have "keeps_key idx k st'" if "handle_wg_transport v me pkt src (out, st) = Some (out', st')"
    using that assms(1) handle_decrypted_key [OF assms(1)]
    by (auto simp: handle_wg_transport_def Let_def split: if_splits option.splits outcome.splits)
  ultimately show ?thesis
    using assms handle_disco_key [OF assms(1,2)] handle_wg_response_key [OF assms(1)]
    by (auto simp: handle_packet_def split: if_splits) (metis snd_conv)+
qed

lemma tick_tunnels_key:
  "tick_tunnels P now ts = Some (out, ts') \<Longrightarrow> map fst ts' = map fst ts
     \<and> map_option (\<lambda>e. recv_key (e_tun e)) (map_of ts' idx) = map_option (\<lambda>e. recv_key (e_tun e)) (map_of ts idx)"
proof (induction ts arbitrary: out ts')
  case (Cons ke ts)
  obtain i e where "ke = (i, e)" by force
  with Cons show ?case by (fastforce simp: split_beta Let_def split: bind_splits)
qed simp

lemma keep_tunnels_key:
  "map fst (snd (keep_tunnels P ts)) = map fst ts
     \<and> map_option (\<lambda>e. recv_key (e_tun e)) (map_of (snd (keep_tunnels P ts)) idx) = map_option (\<lambda>e. recv_key (e_tun e)) (map_of ts idx)"
  by (induction ts) (auto simp: split_beta Let_def keepalive_def wg_encrypt_def)

lemma keeps_key_tunnels:
  assumes "keeps_key idx k st" "map fst ts = map fst (tunnels st)"
    and "map_option (\<lambda>e. recv_key (e_tun e)) (map_of ts idx) = map_option (\<lambda>e. recv_key (e_tun e)) (map_of (tunnels st) idx)"
  shows "keeps_key idx k (st\<lparr>tunnels := ts\<rparr>)"
  using assms by (cases "map_of (tunnels st) idx") (auto simp: keeps_key_def simp del: map_of_eq_Some_iff)

lemma retry_pendings_key: "keeps_key idx k st \<Longrightarrow> keeps_key idx k (snd (retry_pendings tick (out, st)))"
  by (fastforce simp: keeps_key_def retry_pendings_def Let_def List.map_filter_def retry_one_def split: if_splits)

lemma run_outbound_key: "keeps_key idx k (snd r) \<Longrightarrow> keeps_key idx k (snd (run_outbound v r))"
  by (cases r) (auto simp: run_outbound_def Let_def split_beta intro!: send_inner_key split: option.split)

lemma run_periodic_key:
  assumes "keeps_key idx k st" "run_periodic v me a news l st = Some (l', out, st')"
  shows "keeps_key idx k st'"
proof -
  obtain out1 ts where t: "tick_tunnels (dp_prims v) (clock_ms v) (tunnels st) = Some (out1, ts)"
    using assms(2) by (auto simp: run_periodic_def split: bind_splits)
  have k1: "keeps_key idx k (st\<lparr>tunnels := ts\<rparr>)"
    using keeps_key_tunnels [OF assms(1)] tick_tunnels_key [OF t] by blast
  have k2: "keeps_key idx k (snd (retry_pendings tick (out1, st\<lparr>tunnels := ts\<rparr>)))" for tick
    by (rule retry_pendings_key [OF k1])
  have k3: "keeps_key idx k (snd (snd (probe_round v me l r)))" if k: "keeps_key idx k (snd r)" for l r
    using k keeps_key_tunnels [OF k] keep_tunnels_key [of "dp_prims v" "tunnels (snd r)"]
    by (auto simp: probe_round_def Let_def split_beta intro!: run_outbound_key)
  show ?thesis using assms(2) t k3 [OF k2] by (auto simp: run_periodic_def Let_def split_beta)
qed

lemma mdns_drain_key: "keeps_key idx k (snd r) \<Longrightarrow> keeps_key idx k (snd (mdns_drain v o' p n payloads r))"
  unfolding mdns_drain_def
proof (induction payloads arbitrary: r)
  case (Cons x xs)
  have "keeps_key idx k (snd (mdns_forward v o' p n x r))"
    using Cons.prems by (auto simp: mdns_forward_def split_beta Let_def intro!: send_inner_key split: option.split)
  from Cons.IH [OF this] show ?case by simp
qed simp

lemma dp_step_key:
  assumes "keeps_key idx k (snd ls)" "draws_other idx e" "dp_step me e ls = Some (out, ls')"
  shows "keeps_key idx k (snd ls')"
proof (cases ls)
  case (Pair l st)
  then show ?thesis
    using assms mdns_drain_key [of idx k "([], st)"]
    by (cases e) (auto simp: split_beta intro: run_periodic_key handle_packet_key handle_decrypted_key)
qed

lemma run_events_key:
  "keeps_key idx k (snd ls) \<Longrightarrow> list_all (draws_other idx) es \<Longrightarrow> run_events (dp_step me) es ls = Some (out, ls') \<Longrightarrow>
   keeps_key idx k (snd ls')"
proof (induction es arbitrary: ls out)
  case (Cons e es)
  then obtain o1 ls1 o2 where "dp_step me e ls = Some (o1, ls1)" "run_events (dp_step me) es ls1 = Some (o2, ls')"
    by (auto split: bind_splits)
  with Cons dp_step_key [of idx k ls e me o1 ls1] show ?case by auto
qed simp

text \<open>
  The single-core path, with the transport packets that look like STUN taken for what they are: the
  loop itself drops them, since it looks for the cookie before the type.
\<close>

definition single_core ::
  "dp_env \<Rightarrow> identity \<Rightarrow> peer_target list \<Rightarrow> u32 \<Rightarrow> bytes \<Rightarrow> socket_addr \<Rightarrow> effect list \<times> dp_state
     \<Rightarrow> (effect list \<times> dp_state) option"
where
  "single_core v me targets tick pkt src r =
     (if pkt \<noteq> [] \<and> pkt ! 0 = MSG_TRANSPORT \<and> is_stun pkt then handle_wg_transport v me pkt src r
      else handle_packet v me targets tick pkt src r)"

lemma single_core_transport:
  assumes "pkt \<noteq> []" "pkt ! 0 = MSG_TRANSPORT" "16 \<le> length pkt"
  shows "single_core v me targets tick pkt src r = (case packet_key pkt (snd r) of None \<Rightarrow> Some r
     | Some key \<Rightarrow> (case decrypt_transport (dp_prims v) key pkt of None \<Rightarrow> Some r
         | Some inner \<Rightarrow> handle_decrypted v me (get32le 4 pkt) inner src r))"
  using assms by (simp add: single_core_def handle_packet_transport handle_transport_key)

lemma stun_lookalike_dropped:
  "is_stun pkt \<Longrightarrow> pkt ! 0 = MSG_TRANSPORT \<Longrightarrow> handle_packet v me targets tick pkt src r = Some r"
  by (simp add: handle_packet_def not_disco MSG_TRANSPORT_def)


definition sample_entry :: "u8 \<Rightarrow> u8 \<Rightarrow> u32 \<Rightarrow> u32 \<Rightarrow> tunnel_entry" where
  "sample_entry sk rk theirs ours = \<lparr>e_tun = \<lparr>send_key = [sk], recv_key = [rk], their_index = theirs,
     our_index = ours, tx_counter = 0\<rparr>, e_addr = V4 [10, 0, 0, 1] 9, e_node = [], e_tcp = server_new\<rparr>"

definition sample_tunnel_at :: "socket_addr \<Rightarrow> dp_state" where
  "sample_tunnel_at addr = (dp_new None [] False [])\<lparr>tunnels := [(7, (sample_entry 2 1 8 7)\<lparr>e_addr := addr\<rparr>)]\<rparr>"


section \<open>Who is heard\<close>

text \<open>
  C6: a transport packet has an effect only if it opens under the receiving key of the tunnel
  it names; and then, if it is empty or the packet filter denies the source of the inner
  packet, the only effect is that the tunnel learns the address it came from.
\<close>

theorem transport_gate:
  assumes "pkt \<noteq> []" "pkt ! 0 = MSG_TRANSPORT"
    and "handle_packet v me targets tick pkt src (out, st) = Some (out', st')"
  shows "(out', st') = (out, st) \<or>
    (\<exists>e inner. map_of (tunnels st) (get32le 4 pkt) = Some e
       \<and> wg_open (dp_prims v) (recv_key (e_tun e)) (get64le 8 pkt) (drop 16 pkt) [] = Some inner
       \<and> (inner = [] \<or> \<not> src_allowed (id_allowed_srcs me) inner \<longrightarrow>
            out' = out \<and> st' = st\<lparr>tunnels := AList.map_entry (get32le 4 pkt) (e_addr_update (\<lambda>_. src)) (tunnels st)\<rparr>))"
proof (cases "is_stun pkt \<or> length pkt < 16 \<or> map_of (tunnels st) (get32le 4 pkt) = None")
  case True
  then show ?thesis
    using assms handle_packet_transport [OF assms(1,2)] stun_lookalike_dropped [OF _ assms(2)]
    by (cases "is_stun pkt") (auto simp: handle_wg_transport_def Let_def split: if_splits)
next
  case False
  then obtain e where e: "\<not> is_stun pkt" "16 \<le> length pkt" "map_of (tunnels st) (get32le 4 pkt) = Some e" by auto
  then have h: "handle_wg_transport v me pkt src (out, st) = Some (out', st')"
    using assms by (simp add: handle_packet_transport)
  show ?thesis
  proof (cases "wg_decrypt (dp_prims v) pkt (e_tun e)")
    case (Ok inner)
    then have "wg_open (dp_prims v) (recv_key (e_tun e)) (get64le 8 pkt) (drop 16 pkt) [] = Some inner"
      by (auto simp: wg_decrypt_def ok_or_def split: if_splits option.splits)
    moreover have "handle_decrypted v me (get32le 4 pkt) inner src (out, st) = Some (out', st')"
      using h e Ok by (simp add: handle_wg_transport_def)
    ultimately show ?thesis using e(3) by (auto simp: handle_decrypted_def Let_def split: if_splits)
  qed (use h e in \<open>simp_all add: handle_wg_transport_def\<close>)
qed

theorem transport_gate_witness:
  "handle_packet sample_dp_env (sample_me\<lparr>id_allowed_srcs := Some []\<rparr>) [] 0
      ([4, 0, 0, 0, 7, 0, 0, 0] @ replicate 8 0 @ (0x45 # replicate 19 0) @ fit 16 [1]) (V4 [9, 9, 9, 9] 9)
      ([], (dp_new None [] False [])\<lparr>tunnels := [(7, sample_entry 2 1 8 7)]\<rparr>)
    = Some ([], (dp_new None [] False [])\<lparr>tunnels := [(7, (sample_entry 2 1 8 7)\<lparr>e_addr := V4 [9, 9, 9, 9] 9\<rparr>)]\<rparr>)"
  (is "handle_packet _ ?me _ _ ?pkt ?src ([], ?st) = Some ([], ?st')")
proof -
  have i: "get32le 4 ?pkt = 7" "?pkt ! 0 = 4" "length ?pkt = 52" "\<not> is_stun ?pkt" "drop 16 ?pkt = (0x45 # replicate 19 0) @ fit 16 [1]"
    by (simp_all add: get32le_def is_stun_def get32_def of_be32_def MAGIC_COOKIE_def nth_Cons' nth_append of_le32_def)
  have "wg_open toy_prims [1] n (drop 16 ?pkt) [] = Some (0x45 # replicate 19 0)" for n
    unfolding i(5) by (simp add: wg_open_def toy_prims_def)
  then have d: "wg_decrypt toy_prims ?pkt (e_tun (sample_entry 2 1 8 7)) = Ok (0x45 # replicate 19 0)"
    using i(2,3) by (simp add: wg_decrypt_def sample_entry_def MSG_TRANSPORT_def ok_or_def)
  have "\<not> src_allowed (Some []) (0x45 # replicate 19 0)"
    by (simp add: src_allowed_def cidr_match_def)
  then have h: "handle_packet sample_dp_env ?me [] 0 ?pkt ?src ([], ?st) = Some ([], ?st')"
    using i d
    by (simp add: handle_packet_transport MSG_TRANSPORT_def handle_wg_transport_def handle_decrypted_def sample_dp_env_def)
  have "([], ?st') = ([], ?st) \<or> (\<exists>e inner. map_of (tunnels ?st) (get32le 4 ?pkt) = Some e)"
    using transport_gate [OF _ _ h] i(2) by (auto simp: MSG_TRANSPORT_def)
  with h show ?thesis by simp
qed

section \<open>Handshakes end\<close>

text \<open>The retry stage of the loop, turn after turn.\<close>

fun retry_turns :: "nat \<Rightarrow> u32 \<Rightarrow> dp_state \<Rightarrow> effect list \<times> dp_state" where
  "retry_turns 0 tick st = ([], st)"
| "retry_turns (Suc n) tick st =
     (let (out, st) = retry_turns n tick st in retry_pendings (tick + word_of_nat (Suc n)) (out, st))"

lemma map_of_map_filter:
  "distinct (map fst al) \<Longrightarrow>
   map_of (List.map_filter (\<lambda>(k, p). map_option (Pair k) (g p)) al) k = Option.bind (map_of al k) g"
proof (induction al)
  case (Cons kp al)
  obtain k0 p0 where "kp = (k0, p0)" by force
  moreover note Cons
  moreover have "k \<notin> fst ` set al \<Longrightarrow> map_of al k = None" by (simp add: map_of_eq_None_iff)
  ultimately show ?case by (cases "k0 = k") (auto simp: map_filter_simps split: option.splits)
qed (simp add: map_filter_simps)

lemma retry_pendings_at:
  "distinct (map fst (pendings (snd r))) \<Longrightarrow>
   map_of (pendings (snd (retry_pendings tick r))) k =
     Option.bind (map_of (pendings (snd r)) k) (\<lambda>p. snd (retry_one (has_tunnel_at (snd r) (p_addr p)) tick p))"
  by (simp add: retry_pendings_def split_beta Let_def map_of_map_filter)

lemma retry_keeps:
  "tunnels (snd (retry_pendings tick r)) = tunnels (snd r)"
  "distinct (map fst (pendings (snd r))) \<Longrightarrow> distinct (map fst (pendings (snd (retry_pendings tick r))))"
  by (simp_all add: retry_pendings_def split_beta Let_def map_filter_table)

lemma retry_turns_keeps:
  assumes "distinct (map fst (pendings st))"
  shows "tunnels (snd (retry_turns n tick st)) = tunnels st
     \<and> distinct (map fst (pendings (snd (retry_turns n tick st))))"
  using assms by (induction n) (simp_all add: split_beta Let_def retry_keeps del: retry_pendings_def)

lemma retry_turns_at:
  assumes "distinct (map fst (pendings st))"
  shows "map_of (pendings (snd (retry_turns (Suc n) tick st))) k =
     Option.bind (map_of (pendings (snd (retry_turns n tick st))) k)
       (\<lambda>p. snd (retry_one (has_tunnel_at st (p_addr p)) (tick + word_of_nat (Suc n)) p))"
  using retry_turns_keeps [OF assms, of n tick]
  by (simp add: split_beta Let_def has_tunnel_at_def
      retry_pendings_at del: of_nat_Suc)

lemma small_tick: "i < 1000 \<Longrightarrow> j \<le> i \<Longrightarrow> (a :: u32) + word_of_nat i - (a + word_of_nat j) = word_of_nat (i - j)"
  by (simp add: of_nat_diff)

text \<open>One turn for a handshake that has been pending for \<open>n\<close> turns.\<close>

definition waiting :: "nat \<Rightarrow> u32 \<Rightarrow> pending_hs \<Rightarrow> pending_hs" where
  "waiting n tick p = p\<lparr>p_sent_tick := tick + word_of_nat (n div 4 * 4), p_retries := word_of_nat (n div 4)\<rparr>"

lemma retry_one_turn:
  assumes "n < 20"
  shows "retry_one False (tick + word_of_nat (Suc n)) (waiting n tick p) =
    (if n mod 4 = 3 then (if n = 19 then ([], None) else ([Sent (p_init p) (p_addr p)], Some (waiting (Suc n) tick p)))
     else ([], Some (waiting (Suc n) tick p)))"
proof -
  define q t where "q = waiting n tick p" and "t = tick + word_of_nat (Suc n)"
  have late: "t - p_sent_tick q > PENDING_TIMEOUT_TICKS \<longleftrightarrow> n mod 4 = 3"
  proof -
    have "Suc n - n div 4 * 4 = Suc (n mod 4)" by (simp add: minus_div_mult_eq_mod [symmetric] Suc_diff_le)
    then have "t - p_sent_tick q = word_of_nat (Suc (n mod 4))"
      using small_tick [of "Suc n" "n div 4 * 4" tick] assms by (simp add: t_def q_def waiting_def del: of_nat_Suc)
    moreover have "2 < n mod 4 \<longleftrightarrow> n mod 4 = 3" by presburger
    ultimately show ?thesis
      by (simp add: PENDING_TIMEOUT_TICKS_def word_less_nat_alt unat_word32 del: of_nat_Suc)
  qed
  have four: "p_retries q \<ge> MAX_HS_RETRIES \<longleftrightarrow> 16 \<le> n"
  proof -
    have "4 \<le> n div 4 \<longleftrightarrow> 16 \<le> n" by presburger
    then show ?thesis using assms by (simp add: q_def waiting_def MAX_HS_RETRIES_def word_le_nat_alt unat_word32)
  qed
  have d: "Suc n div 4 = (if n mod 4 = 3 then Suc (n div 4) else n div 4)" by (simp add: div_Suc mod_Suc)
  have edge: "n mod 4 = 3 \<Longrightarrow> 16 \<le> n \<longleftrightarrow> n = 19" using assms by presburger
  have nxt: "Suc (n div 4) * 4 = Suc n" if "n mod 4 = 3" using that by presburger
  have "waiting (Suc n) tick p = (if n mod 4 = 3 then q\<lparr>p_sent_tick := t, p_retries := p_retries q + 1\<rparr> else q)"
  proof (cases "n mod 4 = 3")
    case True
    then have "Suc n div 4 = Suc (n div 4)" using d by simp
    then have "waiting (Suc n) tick p = p\<lparr>p_sent_tick := tick + word_of_nat (Suc n), p_retries := word_of_nat (Suc (n div 4))\<rparr>"
      by (simp only: waiting_def nxt [OF True])
    then show ?thesis using True by (simp add: q_def waiting_def t_def)
  qed (simp add: q_def waiting_def d)
  moreover have "p_init q = p_init p" "p_addr q = p_addr p" by (simp_all add: q_def waiting_def)
  ultimately show ?thesis
    unfolding q_def [symmetric] t_def [symmetric] using edge by (simp add: retry_one_def late four)
qed

text \<open>The pending handshake itself, turn after turn.\<close>

lemma pending_after:
  assumes "distinct (map fst (pendings st))" "map_of (pendings st) k = Some p"
    and "p_retries p = 0" "p_sent_tick p = tick" "\<not> has_tunnel_at st (p_addr p)"
  shows "map_of (pendings (snd (retry_turns n tick st))) k = (if n < 20 then Some (waiting n tick p) else None)"
proof (induction n)
  case 0
  then show ?case using assms by (simp add: waiting_def)
next
  case (Suc n)
  have "p_addr (waiting n tick p) = p_addr p" by (simp add: waiting_def)
  with Suc.IH assms(5) have at: "map_of (pendings (snd (retry_turns (Suc n) tick st))) k =
      (if n < 20 then snd (retry_one False (tick + word_of_nat (Suc n)) (waiting n tick p)) else None)"
    by (simp only: retry_turns_at [OF assms(1)]) (simp del: of_nat_Suc)
  have "n < 20 \<Longrightarrow> n mod 4 \<noteq> 3 \<Longrightarrow> Suc n < 20" "n < 20 \<Longrightarrow> n \<noteq> 19 \<Longrightarrow> Suc n < 20" by presburger+
  then show ?case unfolding at by (auto simp: retry_one_turn simp del: of_nat_Suc)
qed

text \<open>What it sends: the other handshakes in flight repeat packets of their own.\<close>

lemma count_pendings:
  assumes "distinct (map fst al)" "\<And>k' p' p0. (k', p') \<in> set al \<Longrightarrow> k' \<noteq> k \<Longrightarrow> x \<notin> set (g p')"
  shows "count_list (concat (map (\<lambda>(_, p). g p) al)) x = (case map_of al k of None \<Rightarrow> 0 | Some p \<Rightarrow> count_list (g p) x)"
  using assms
proof (induction al)
  case (Cons kp al)
  obtain k0 p0 where kp: "kp = (k0, p0)" by force
  have "k0 = k \<Longrightarrow> map_of al k = None" using Cons.prems(1) kp by (simp add: map_of_eq_None_iff)
  moreover have "k0 \<noteq> k \<Longrightarrow> count_list (g p0) x = 0" using Cons.prems(2) [of k0 p0] kp by (simp add: count_list_0_iff)
  ultimately show ?case using Cons kp by auto
qed simp

lemma retry_one_same: "snd (retry_one have tick p) = Some q \<Longrightarrow> p_init q = p_init p \<and> p_addr q = p_addr p"
  by (auto simp: retry_one_def split: if_splits)

lemma pending_origin:
  assumes "distinct (map fst (pendings st))"
  shows "map_of (pendings (snd (retry_turns n tick st))) k = Some q \<Longrightarrow>
    \<exists>p. map_of (pendings st) k = Some p \<and> p_init q = p_init p \<and> p_addr q = p_addr p"
proof (induction n arbitrary: q)
  case (Suc n)
  then obtain q0 have_it where "map_of (pendings (snd (retry_turns n tick st))) k = Some q0"
      "snd (retry_one have_it (tick + word_of_nat (Suc n)) q0) = Some q"
    by (auto simp only: retry_turns_at [OF assms] bind_eq_Some_conv)
  with Suc.IH [of q0] show ?case by (auto dest: retry_one_same)
qed simp

text \<open>
  C35: a handshake that gets no answer is sent again after four, eight, twelve and sixteen turns
  of the loop, to the address it was sent to, and given up after twenty: until then it keeps its slot,
  then the slot is free. (No other handshake in flight is for the same address with the same
  initiation, and no tunnel has that address.)
\<close>

theorem handshake_expires:
  assumes "distinct (map fst (pendings st))" "map_of (pendings st) k = Some p"
    and "p_retries p = 0" "p_sent_tick p = tick" "\<not> has_tunnel_at st (p_addr p)"
    and "\<And>k' p'. map_of (pendings st) k' = Some p' \<Longrightarrow> k' \<noteq> k \<Longrightarrow> (p_init p', p_addr p') \<noteq> (p_init p, p_addr p)"
  shows "count_list (fst (retry_turns n tick st)) (Sent (p_init p) (p_addr p)) = min 4 (n div 4)
    \<and> map_of (pendings (snd (retry_turns n tick st))) k =
      (if n < 20 then Some (p\<lparr>p_sent_tick := tick + word_of_nat (n div 4 * 4), p_retries := word_of_nat (n div 4)\<rparr>)
       else None)"
proof (rule conjI)
  note at = pending_after [OF assms(1-5)]
  have addr: "p_addr (waiting m tick p) = p_addr p" for m by (simp add: waiting_def)
  show "count_list (fst (retry_turns n tick st)) (Sent (p_init p) (p_addr p)) = min 4 (n div 4)"
  proof (induction n)
    case (Suc n)
    define st1 where "st1 = snd (retry_turns n tick st)"
    define t where "t = tick + word_of_nat (Suc n)"
    define g where "g = (\<lambda>q. fst (retry_one (has_tunnel_at st1 (p_addr q)) t q))"
    have d: "distinct (map fst (pendings st1))" "tunnels st1 = tunnels st"
      using retry_turns_keeps [OF assms(1), of n tick] by (simp_all add: st1_def)
    have other: "Sent (p_init p) (p_addr p) \<notin> set (g p')" if "(k', p') \<in> set (pendings st1)" "k' \<noteq> k" for k' p'
    proof -
      have "map_of (pendings st1) k' = Some p'" using that d by simp
      then obtain p0 where "map_of (pendings st) k' = Some p0" "p_init p' = p_init p0" "p_addr p' = p_addr p0"
        using pending_origin [OF assms(1), of n tick k' p'] by (auto simp: st1_def)
      then show ?thesis using assms(6) [of k' p0] that by (auto simp: g_def retry_one_def split: if_splits)
    qed
    have "fst (retry_turns (Suc n) tick st) = fst (retry_turns n tick st) @ concat (map (\<lambda>(_, q). g q) (pendings st1))"
      by (simp add: split_beta Let_def retry_pendings_def g_def st1_def t_def)
    then have c: "count_list (fst (retry_turns (Suc n) tick st)) (Sent (p_init p) (p_addr p)) = min 4 (n div 4)
        + (case map_of (pendings st1) k of None \<Rightarrow> 0 | Some q \<Rightarrow> count_list (g q) (Sent (p_init p) (p_addr p)))"
      using Suc.IH count_pendings [OF d(1), of k "Sent (p_init p) (p_addr p)" g] other by simp
    have h: "has_tunnel_at st1 a = has_tunnel_at st a" for a by (simp add: has_tunnel_at_def d(2))
    have q: "n < 20 \<Longrightarrow> g (waiting n tick p) = (if n mod 4 = 3 \<and> n \<noteq> 19 then [Sent (p_init p) (p_addr p)] else [])"
      using assms(5) retry_one_turn [of n tick p] by (simp add: g_def h t_def addr del: of_nat_Suc)
    have m: "n < 20 \<Longrightarrow> min 4 (Suc n div 4) = min 4 (n div 4) + (if n mod 4 = 3 \<and> n \<noteq> 19 then 1 else 0)"
      "\<not> n < 20 \<Longrightarrow> min 4 (Suc n div 4) = min 4 (n div 4)"
    proof -
      have "Suc n div 4 = (if n mod 4 = 3 then Suc (n div 4) else n div 4)" by (simp add: div_Suc mod_Suc)
      moreover have "n < 20 \<Longrightarrow> n mod 4 = 3 \<Longrightarrow> n \<noteq> 19 \<Longrightarrow> n div 4 < 4" "\<not> n < 20 \<Longrightarrow> 4 < n div 4" by presburger+
      ultimately show "n < 20 \<Longrightarrow> min 4 (Suc n div 4) = min 4 (n div 4) + (if n mod 4 = 3 \<and> n \<noteq> 19 then 1 else 0)"
        "\<not> n < 20 \<Longrightarrow> min 4 (Suc n div 4) = min 4 (n div 4)"
        by auto
    qed
    show ?case using q m unfolding c st1_def at by (simp del: retry_turns.simps)
  qed simp
  show "map_of (pendings (snd (retry_turns n tick st))) k =
      (if n < 20 then Some (p\<lparr>p_sent_tick := tick + word_of_nat (n div 4 * 4), p_retries := word_of_nat (n div 4)\<rparr>)
       else None)"
    using at [of n] by (simp add: waiting_def)
qed

definition sample_pending :: pending_hs where
  "sample_pending = \<lparr>p_addr = V4 [1, 2, 3, 4] 5, p_init = [1], p_hs = \<lparr>hs_chaining = [], hs_hash = [],
     hs_eph_priv = [], hs_static_priv = [], hs_our_index = 7\<rparr>, p_index = 7, p_sent_tick = 9, p_retries = 0\<rparr>"

theorem handshake_expires_witness:
  "count_list (fst (retry_turns 9 9 ((dp_new None [] False [])\<lparr>pendings := [([1], sample_pending)]\<rparr>))) (Sent [1] (V4 [1, 2, 3, 4] 5)) = 2"
  using handshake_expires [of "(dp_new None [] False [])\<lparr>pendings := [([1], sample_pending)]\<rparr>" "[1]" sample_pending 9 9]
  by (simp add: has_tunnel_at_def dp_new_def sample_pending_def split: if_splits)

end
