(* ===== verification/Paths.thy ===== *)
theory Paths
  imports DataplaneSafe
begin

text \<open>
  Two devices that run the data plane: from a ping on a path to a tunnel with the same keys at
  both ends, and an echo request through the tunnel and back.
\<close>

section \<open>Messages between two devices\<close>

text \<open>An environment with the given primitives, and the identity of a device.\<close>

definition env_uses :: "prims \<Rightarrow> box_seal \<Rightarrow> box_open \<Rightarrow> dp_env \<Rightarrow> bool" where
  "env_uses P sl op v \<longleftrightarrow> dp_prims v = P \<and> dp_seal v = sl \<and> dp_open v = op
     \<and> (\<forall>n. length (rand_nonce v n) = 24) \<and> net_ok v 0"

definition identity_ok :: "prims \<Rightarrow> identity \<Rightarrow> bool" where
  "identity_ok P me \<longleftrightarrow> id_node_pub me = wg_pubkey P (id_node_priv me) \<and> length (id_disco_pub me) = 32"

definition boxes :: "box_seal \<Rightarrow> box_open \<Rightarrow> identity \<Rightarrow> identity \<Rightarrow> bool" where
  "boxes sl op a b \<longleftrightarrow> (\<forall>pk sk n p. sl pk sk n p \<noteq> None)
     \<and> box_law sl op (id_disco_priv a) (id_disco_pub a) (id_disco_priv b) (id_disco_pub b)
     \<and> box_law sl op (id_disco_priv b) (id_disco_pub b) (id_disco_priv a) (id_disco_pub a)"

text \<open>An index whose bytes are not the STUN cookie.\<close>

definition clear_index :: "u32 \<Rightarrow> bool" where
  "clear_index i \<longleftrightarrow> get32 0 (le32 i) \<noteq> MAGIC_COOKIE"

lemma is_stun_index: "is_stun ([a, b, c, d] @ le32 i @ rest) \<longleftrightarrow> \<not> clear_index i"
  by (simp add: is_stun_def clear_index_def get32_def nth_append numeral_2_eq_2)

lemma disco_seal_Ok:
  "boxes sl op a b \<Longrightarrow> \<exists>w. disco_seal sl n sk pk peer pt = Ok w"
proof -
  assume "boxes sl op a b"
  then obtain c where "sl peer sk n pt = Some c" unfolding boxes_def by blast
  then show ?thesis by (simp add: disco_seal_def)
qed

lemma is_disco_seal: "disco_seal sl n sk pk peer pt = Ok w \<Longrightarrow> is_disco w"
  by (auto simp: disco_seal_def bindR_eq_Ok is_disco_def MAGIC_def)

lemma types_distinct [simp]:
  "PING \<noteq> CALL_ME_MAYBE" "PONG \<noteq> CALL_ME_MAYBE" "PONG \<noteq> PING"
  "MSG_INITIATION \<noteq> 0x54" "MSG_RESPONSE \<noteq> 0x54" "MSG_TRANSPORT \<noteq> 0x54"
  "MSG_RESPONSE \<noteq> MSG_INITIATION" "MSG_TRANSPORT \<noteq> MSG_INITIATION" "MSG_TRANSPORT \<noteq> MSG_RESPONSE"
  by (simp_all add: PING_def PONG_def CALL_ME_MAYBE_def MSG_INITIATION_def MSG_RESPONSE_def MSG_TRANSPORT_def)

text \<open>A ping is answered with a pong to where it came from.\<close>

lemma handle_ping:
  assumes "env_uses P sl op v" "boxes sl op a b" "identity_ok P a" "length txid = 12" "length n = 24"
    and "disco_seal sl n (id_disco_priv a) (id_disco_pub a) (id_disco_pub b) (ping_plaintext txid node) = Ok ping"
    and "disco_seal sl (rand_nonce v (length out)) (id_disco_priv b) (id_disco_pub b) (id_disco_pub a)
           (pong_plaintext txid src) = Ok pong"
  shows "handle_packet v b targets tick ping src (out, st) = Some (out @ [Sent pong src], st)"
proof -
  have "disco_open op (id_disco_priv b) ping = Ok \<lparr>sender_disco_pub = id_disco_pub a, msg_type = PING,
      d_txid = txid, d_endpoints = []\<rparr>"
    using disco_open_sealed [OF _ _ assms(5,6), of op "id_disco_priv b"] assms(2-4)
    by (simp add: boxes_def identity_ok_def ping_plaintext_def cut_def)
  then show ?thesis
    using assms(1,7) is_disco_seal [OF assms(6)]
    by (simp add: handle_packet_def handle_disco_def env_uses_def send_to_def)
qed

text \<open>A pong starts a handshake with the peer it came from.\<close>

lemma handle_pong:
  assumes "env_uses P sl op v" "boxes sl op a b" "identity_ok P b" "length txid = 12" "length n = 24"
    and "disco_seal sl n (id_disco_priv b) (id_disco_pub b) (id_disco_pub a) (pong_plaintext txid addr) = Ok pong"
    and "find (\<lambda>t. t_disco_pub t = id_disco_pub b) targets = Some t"
    and "t_node_pub t \<notin> fst ` set (pendings st)" "\<not> has_tunnel_at st src"
    and "length (tunnels st) + length (pendings st) < MAX_TUNNELS"
    and "build_initiation P (rand_eph v) (id_node_priv a) (id_node_pub a) (t_node_pub t)
           (tai64n (unix_secs v) (unix_nanos v)) (rand_index v) = (msg, hs)"
  shows "handle_packet v a targets tick pong src ([], st) = Some ([Sent msg src],
    st\<lparr>confirmed := List.insert src (confirmed st),
       pendings := AList.update (t_node_pub t) \<lparr>p_addr = src, p_init = msg, p_hs = hs, p_index = rand_index v,
         p_sent_tick = tick, p_retries = 0\<rparr> (pendings st)\<rparr>)"
proof -
  have "disco_open op (id_disco_priv a) pong = Ok \<lparr>sender_disco_pub = id_disco_pub b, msg_type = PONG,
      d_txid = txid, d_endpoints = []\<rparr>"
    using disco_open_sealed [OF _ _ assms(5,6), of op "id_disco_priv a"] assms(2-4)
    by (simp add: boxes_def identity_ok_def pong_plaintext_def cut_def)
  then show ?thesis
    using assms(1,7-11) is_disco_seal [OF assms(6)]
    by (simp add: handle_packet_def handle_disco_def maybe_start_handshake_def env_uses_def send_to_def
        has_tunnel_at_def not_le)
qed

text \<open>
  An initiation built for the public key of a device is answered, whoever sends it: no list of
  peers is asked, and no bound on the number of tunnels.
\<close>

lemma handle_initiation:
  assumes "crypto_laws P" "dp_prims v = P" "identity_ok P b" "length ts = 12" "clear_index i"
    and "build_initiation P e s (wg_pubkey P s) (id_node_pub b) ts i = (msg, hs)"
  obtains reply rt it rest where
    "handle_packet v b targets tick msg src (out, st) =
       Some (out @ [Sent reply src], insert_tunnel v (rand_index v) rt src (wg_pubkey P s) st)"
    "consume_response P hs reply = Ok it" "length reply = RESP_LEN"
    "reply = [MSG_RESPONSE, 0, 0, 0] @ le32 (rand_index v) @ le32 i @ rest"
    "send_key it = recv_key rt" "recv_key it = send_key rt" "their_index it = rand_index v"
    "their_index rt = i" "our_index it = i" "our_index rt = rand_index v" "tx_counter it = 0" "tx_counter rt = 0"
proof -
  have b: "id_node_pub b = wg_pubkey P (id_node_priv b)" using assms(3) by (simp add: identity_ok_def)
  show ?thesis
  proof (rule handshake_keys [OF assms(1,4) assms(6) [unfolded b], of "rand_eph v" "rand_index v"], goal_cases)
    case (1 reply rt it rest1 rest2)
    have "handle_packet v b targets tick msg src (out, st) = Some (handle_wg_init v b msg src (out, st))"
      using 1(11) is_stun_index [of MSG_INITIATION 0 0 0 i rest1] assms(5)
      by (simp add: handle_packet_def not_disco)
    then have "handle_packet v b targets tick msg src (out, st) =
        Some (out @ [Sent reply src], insert_tunnel v (rand_index v) rt src (wg_pubkey P s) st)"
      using 1(1) assms(2) b by (simp add: handle_wg_init_def send_to_def)
    then show ?case using 1 that by simp
  qed
qed

text \<open>The response makes the handshake in flight a tunnel and is followed by a keepalive.\<close>

lemma find_update_new:
  "(\<And>k q. (k, q) \<in> set al \<Longrightarrow> \<not> Q q) \<Longrightarrow> Q p \<Longrightarrow> k \<notin> fst ` set al \<Longrightarrow>
   find (\<lambda>(_, p). Q p) (AList.update k p al) = Some (k, p)"
  by (induction al) auto

lemma delete_update_new: "k \<notin> fst ` set al \<Longrightarrow> AList.delete k (AList.update k p al) = al"
  by (induction al) (auto simp: AList.delete_eq)

lemma get32le_index: "get32le 4 ([a, b, c, d] @ le32 i @ rest) = i" "get32le 8 ([a, b, c, d] @ le32 j @ le32 i @ rest) = i"
  using get32le_at [of "[a, b, c, d]" 4 i rest] get32le_at [of "[a, b, c, d] @ le32 j" 8 i rest] by simp_all

lemma handle_response:
  assumes "dp_prims v = P" "clear_index j" "length reply = RESP_LEN"
    and "reply = [MSG_RESPONSE, 0, 0, 0] @ le32 j @ le32 (p_index p) @ rest"
    and "find (\<lambda>(_, p'). p_index p' = p_index p) (pendings st) = Some (key, p)"
    and "consume_response P (p_hs p) reply = Ok it" "keepalive P it = (ka, it')"
  shows "handle_packet v a targets tick reply src (out, st) =
    Some (out @ [Sent ka src],
      insert_tunnel v (p_index p) it' src key (st\<lparr>pendings := AList.delete key (pendings st)\<rparr>))"
proof -
  have "get32le 8 reply = p_index p" "reply ! 0 = MSG_RESPONSE" "reply \<noteq> []"
    by (simp_all only: assms(4) get32le_index) simp_all
  moreover have "\<not> is_stun reply" using assms(2) by (simp only: assms(4) is_stun_index) simp
  ultimately show ?thesis
    using assms(1,3,5-7)
    by (simp add: handle_packet_def not_disco handle_wg_response_def send_to_def RESP_LEN_def)
qed

text \<open>A packet encrypted by one end is handled by the other as the inner packet with its padding.\<close>

lemma handle_transport:
  assumes "crypto_laws P" "dp_prims v = P" "clear_index (their_index t)"
    and "map_of (tunnels (snd r)) (their_index t) = Some e" "send_key t = recv_key (e_tun e)"
    and "wg_encrypt P x t = (pkt, t')"
  shows "handle_packet v me targets tick pkt src r = handle_decrypted v me (their_index t) (pad16 x) src r"
proof -
  have pkt: "pkt = transport_packet P (recv_key (e_tun e)) (their_index t) (tx_counter t) x"
    using assms(5,6) by (auto simp: wg_encrypt_def transport_packet_def Let_def)
  obtain rest where w: "pkt = [MSG_TRANSPORT, 0, 0, 0] @ le32 (their_index t) @ rest"
    by (simp add: pkt transport_packet_def)
  have i: "get32le 4 pkt = their_index t" "pkt ! 0 = MSG_TRANSPORT" "pkt \<noteq> []"
    by (simp_all only: w get32le_index) simp_all
  have s: "\<not> is_stun pkt" using assms(3) by (simp only: w is_stun_index) simp
  have "32 \<le> length pkt" using transport_packet_fields(4) [OF assms(1)] by (simp add: pkt)
  then show ?thesis
    using i assms(2,4) decrypt_packet(1) [OF assms(1), of "e_tun e" "their_index t" "tx_counter t" x, folded pkt]
    by (cases r) (simp add: handle_packet_transport [OF i(3,2) s] handle_wg_transport_def)
qed

lemma pad16_Nil [simp]: "pad16 [] = []"
  by (simp add: pad16.simps)

section \<open>From a ping to a tunnel\<close>

text \<open>Two ends of one tunnel.\<close>

definition linked :: "tunnel_entry \<Rightarrow> tunnel_entry \<Rightarrow> bool" where
  "linked x y \<longleftrightarrow> send_key (e_tun x) = recv_key (e_tun y) \<and> send_key (e_tun y) = recv_key (e_tun x)
     \<and> their_index (e_tun x) = our_index (e_tun y) \<and> their_index (e_tun y) = our_index (e_tun x)"

text \<open>
  C7: path discovery and handshake. Device a probes device b with a ping. Under the laws of
  the primitives and of the box, b answers with a pong, the pong makes a send an initiation,
  b answers that with a response, and a answers with a keepalive, which b accepts: after five
  datagrams, each the reply to the one before, both have a tunnel to the address and to the
  static key of the other, with the same two keys, and a has no handshake left in flight.
\<close>

theorem path_becomes_tunnel:
  assumes laws: "crypto_laws P" "boxes sl op a b" "identity_ok P a" "identity_ok P b"
    and env: "env_uses P sl op va" "env_uses P sl op va'" "env_uses P sl op vb" "env_uses P sl op vb'" "env_uses P sl op vb''"
    and ping: "length txid = 12" "length n = 24" "disco_seal sl n (id_disco_priv a) (id_disco_pub a) (id_disco_pub b)
           (ping_plaintext txid (id_node_pub a)) = Ok ping"
    and target: "find (\<lambda>t. t_disco_pub t = id_disco_pub b) ta = Some t" "t_node_pub t = id_node_pub b"
    and idle: "id_node_pub b \<notin> fst ` set (pendings sta)" "\<not> has_tunnel_at sta addr_b"
      "length (tunnels sta) + length (pendings sta) < MAX_TUNNELS"
      "\<forall>(k, p) \<in> set (pendings sta). p_index p \<noteq> rand_index va"
    and clear: "clear_index (rand_index va)" "clear_index (rand_index vb')"
  shows "\<exists>pong msg reply ka sta1 sta2 stb1 stb2 ea eb.
      handle_packet vb b tb 0 ping addr_a ([], stb) = Some ([Sent pong addr_a], stb)
    \<and> handle_packet va a ta 0 pong addr_b ([], sta) = Some ([Sent msg addr_b], sta1)
    \<and> handle_packet vb' b tb 0 msg addr_a ([], stb) = Some ([Sent reply addr_a], stb1)
    \<and> handle_packet va' a ta 0 reply addr_b ([], sta1) = Some ([Sent ka addr_b], sta2)
    \<and> handle_packet vb'' b tb 0 ka addr_a ([], stb1) = Some ([], stb2)
    \<and> map_of (tunnels sta2) (rand_index va) = Some ea \<and> map_of (tunnels stb2) (rand_index vb') = Some eb
    \<and> linked ea eb \<and> e_addr ea = addr_b \<and> e_addr eb = addr_a
    \<and> e_node ea = id_node_pub b \<and> e_node eb = id_node_pub a \<and> pendings sta2 = pendings sta"
proof -
  obtain pong where pong: "disco_seal sl (rand_nonce vb 0) (id_disco_priv b) (id_disco_pub b) (id_disco_pub a)
      (pong_plaintext txid addr_a) = Ok pong"
    using disco_seal_Ok [OF laws(2)] by blast
  define ia ib where "ia = rand_index va" and "ib = rand_index vb'"
  define ts where "ts = tai64n (unix_secs va) (unix_nanos va)"
  obtain msg hs where init: "build_initiation P (rand_eph va) (id_node_priv a) (wg_pubkey P (id_node_priv a))
      (id_node_pub b) ts ia = (msg, hs)" by force
  have ts: "length ts = 12" by (simp add: ts_def tai64n_def Let_def put_def)
  have prims: "dp_prims va' = P" "dp_prims vb' = P" "dp_prims vb'' = P" using env by (simp_all add: env_uses_def)
  have nonce: "length (rand_nonce vb 0) = 24" using env(3) by (simp add: env_uses_def)
  define p where "p = \<lparr>p_addr = addr_b, p_init = msg, p_hs = hs, p_index = ia, p_sent_tick = 0, p_retries = 0\<rparr>"
  define sta1 where "sta1 = sta\<lparr>confirmed := List.insert addr_b (confirmed sta),
      pendings := AList.update (id_node_pub b) p (pendings sta)\<rparr>"
  have a: "id_node_pub a = wg_pubkey P (id_node_priv a)" using laws(3) by (simp add: identity_ok_def)
  note s1 = handle_ping [OF env(3) laws(2,3) ping, of "[]" addr_a, simplified, OF pong, where targets = tb and tick = 0 and st = stb]
  have s2: "handle_packet va a ta 0 pong addr_b ([], sta) = Some ([Sent msg addr_b], sta1)"
    using handle_pong [OF env(1) laws(2,4) ping(1) nonce pong target(1), of sta addr_b msg hs 0] target(2) idle init a
    by (simp add: sta1_def p_def ia_def ts_def)
  show ?thesis
  proof (rule handle_initiation [OF laws(1) prims(2) laws(4) ts clear(1) [folded ia_def] init,
        where targets = tb and tick = 0 and src = addr_a and out = "[]" and st = stb], goal_cases)
    case (1 reply rt it rest)
    obtain ka it' where ka: "keepalive P it = (ka, it')" by force
    then have it': "it' = it\<lparr>tx_counter := tx_counter it + 1\<rparr>" by (auto simp: keepalive_def wg_encrypt_def Let_def)
    have f: "find (\<lambda>(_, p'). p_index p' = p_index p) (pendings sta1) = Some (id_node_pub b, p)"
      unfolding sta1_def using idle(1,4) by (auto simp: p_def ia_def intro!: find_update_new)
    have s4: "handle_packet va' a ta 0 reply addr_b ([], sta1) = Some ([Sent ka addr_b],
        insert_tunnel va' ia it' addr_b (id_node_pub b) (sta1\<lparr>pendings := pendings sta\<rparr>))"
      using handle_response [OF prims(1) clear(2) 1(3) _ f _ ka, of rest] 1 idle(1)
      by (simp add: p_def delete_update_new sta1_def)
    define stb1 where "stb1 = insert_tunnel vb' ib rt addr_a (wg_pubkey P (id_node_priv a)) stb"
    define e where "e = \<lparr>e_tun = rt, e_addr = addr_a, e_node = wg_pubkey P (id_node_priv a), e_tcp = dp_server vb'\<rparr>"
    have e: "map_of (tunnels stb1) ib = Some e" by (simp add: stb1_def insert_tunnel_def update_conv' e_def)
    have s5: "handle_packet vb'' b tb 0 ka addr_a ([], stb1) = Some ([],
        stb1\<lparr>tunnels := AList.map_entry ib (e_addr_update (\<lambda>_. addr_a)) (tunnels stb1)\<rparr>)"
      using handle_transport [OF laws(1) prims(3), of it "([], stb1)" e "[]" ka it'] clear(2) 1 e ka
      by (simp add: e_def ib_def keepalive_def handle_decrypted_def Let_def)
    define sta2 where "sta2 = insert_tunnel va' ia it' addr_b (id_node_pub b) (sta1\<lparr>pendings := pendings sta\<rparr>)"
    define stb2 where "stb2 = stb1\<lparr>tunnels := AList.map_entry ib (e_addr_update (\<lambda>_. addr_a)) (tunnels stb1)\<rparr>"
    define ea where "ea = \<lparr>e_tun = it', e_addr = addr_b, e_node = id_node_pub b, e_tcp = dp_server va'\<rparr>"
    have ea: "map_of (tunnels sta2) ia = Some ea" "pendings sta2 = pendings sta"
      by (simp_all add: sta2_def insert_tunnel_def update_conv' ea_def)
    have eb: "map_of (tunnels stb2) ib = Some e" using e by (simp add: stb2_def e_def)
    have l: "linked ea e" using 1(5-12) it' by (simp add: linked_def ea_def e_def)
    have s3: "handle_packet vb' b tb 0 msg addr_a ([], stb) = Some ([Sent reply addr_a], stb1)"
      using 1(1) by (simp add: stb1_def ib_def)
    show ?case
      by ((rule exI)+, intro conjI, rule s1, rule s2, rule s3, rule s4 [folded sta2_def],
          rule s5 [folded stb2_def], rule ea(1) [unfolded ia_def], rule eb [unfolded ib_def], rule l)
        (simp_all add: ea_def e_def a ea(2))
  qed
qed

section \<open>An echo request through the tunnel\<close>

lemma get_append: "i + 2 \<le> length p \<Longrightarrow> get16 i (p @ zs) = get16 i p"
  by (simp add: get16_def nth_append)

lemma echo_reply_padded: "echo_reply p = Some r \<Longrightarrow> echo_reply (p @ zs) = Some r"
  by (auto simp: echo_reply_Some get_append ip_ihl_def nth_append)

lemma echo_request_shape:
  assumes "echo_reply p = Some r"
  shows "p \<noteq> []" "echo_reply_any p = Some r" "udp_payload_to_port p port = None"
    and "outbound_reply p ob = (False, [], ob)"
proof -
  have p: "20 \<le> length p" "drop_bit 4 (p ! 0) = 4" "p ! 9 = PROTO_ICMP" using assms by (auto simp: echo_reply_Some)
  then show "p \<noteq> []" by auto
  with p assms show "echo_reply_any p = Some r" by (cases p) (simp_all add: echo_reply_any_def)
  show "udp_payload_to_port p port = None" using p by (simp add: udp_payload_to_port_def PROTO_ICMP_def)
  show "outbound_reply p ob = (False, [], ob)"
    using p by (simp add: outbound_reply_def owns_def PROTO_ICMP_def PROTO_TCP_def split: option.split)
qed

lemma map_entry_same: "map_of al k = Some e \<Longrightarrow> f e = e \<Longrightarrow> distinct (map fst al) \<Longrightarrow> AList.map_entry k f al = al"
  by (induction al) auto

text \<open>An echo request the filter lets through is answered, and nothing else happens.\<close>

lemma handle_echo:
  assumes "map_of (tunnels st) k = Some e" "src_allowed (id_allowed_srcs me) p" "echo_reply p = Some r"
    and "wg_encrypt (dp_prims v) r (e_tun e) = (pkt, t')"
  shows "\<exists>st'. handle_decrypted v me k p src (out, st) = Some (out @ [Sent pkt src], st')
    \<and> map_of (tunnels st') k = Some (e\<lparr>e_tun := t', e_addr := src\<rparr>)"
proof -
  define st1 where "st1 = st\<lparr>tunnels := AList.map_entry k (e_addr_update (\<lambda>_. src)) (tunnels st)\<rparr>"
  have e1: "map_of (tunnels st1) k = Some (e\<lparr>e_addr := src\<rparr>)" using assms(1) by (simp add: st1_def)
  have "deliver_inner v k (e_node e) p src (out, st1) =
      Some (if is_target (e_node e) st1
        then send_inner v k src [r] (send_inner v k src [] (out, st1\<lparr>outbound := Some (the (outbound st1))\<rparr>))
        else send_inner v k src [r] (out, st1))"
    using echo_request_shape [OF assms(3)] by (simp add: deliver_inner_def split_beta)
  moreover have "send_inner v k src [r] x = (fst x @ [Sent pkt src], (snd x)\<lparr>tunnels :=
      AList.map_entry k (e_tun_update (\<lambda>_. t')) (tunnels (snd x))\<rparr>)"
    if "map_option e_tun (map_of (tunnels (snd x)) k) = Some (e_tun e)" for x
    using that assms(4) by (auto simp: send_inner_def split_beta)
  moreover have "send_inner v k src [] (out, s) = (out, s\<lparr>tunnels :=
      AList.map_entry k (e_tun_update (\<lambda>_. e_tun e)) (tunnels s)\<rparr>)" if "map_of (tunnels s) k = Some (e\<lparr>e_addr := src\<rparr>)" for s
    using that by (simp add: send_inner_def)
  ultimately have "\<exists>st'. deliver_inner v k (e_node e) p src (out, st1) = Some (out @ [Sent pkt src], st')
      \<and> map_of (tunnels st') k = Some (e\<lparr>e_tun := t', e_addr := src\<rparr>)"
    using e1 by (cases "is_target (e_node e) st1") (simp_all add: assms(1))
  then show ?thesis
    using assms(1,2) echo_request_shape(1) [OF assms(3)]
    by (simp add: handle_decrypted_def st1_def [symmetric] Let_def)
qed

text \<open>
  C24: an echo request through a tunnel. Device a encrypts an echo request to b; b, if its
  filter lets the source through, answers with one datagram to the address the request came
  from, which opens at a to the echo reply of the request (addresses swapped, same identifier,
  sequence number and payload, valid checksums) and fewer than 16 zero bytes.
\<close>

theorem tunnel_ping:
  assumes laws: "crypto_laws P" "dp_prims v = P" and link: "linked ea eb" "clear_index (our_index (e_tun eb))"
    and b: "map_of (tunnels stb) (our_index (e_tun eb)) = Some eb"
    and req: "length src = 4" "length dst = 4" "28 + length payload < 65536"
    and allowed: "src_allowed (id_allowed_srcs me) (pad16 (icmp_echo_request src dst ident sq payload))"
    and pkt: "wg_encrypt P (icmp_echo_request src dst ident sq payload) (e_tun ea) = (pkt, ta)"
  shows "\<exists>reply stb' r n. handle_packet v me targets tick pkt addr_a (out, stb) = Some (out @ [Sent reply addr_a], stb')
    \<and> wg_decrypt P reply ta = Ok (r @ replicate n 0) \<and> n < 16
    \<and> cut 12 16 r = dst \<and> cut 16 20 r = src \<and> drop 24 r = be16 ident @ be16 sq @ payload
    \<and> checksum (take 20 r) = 0 \<and> checksum (drop 20 r) = 0"
proof -
  define p where "p = icmp_echo_request src dst ident sq payload"
  obtain r where r: "echo_reply p = Some r" "cut 12 16 r = dst" "cut 16 20 r = src"
      "drop 24 r = be16 ident @ be16 sq @ payload" "checksum (take 20 r) = 0" "checksum (drop 20 r) = 0"
    using echo_request_reply [OF req, of ident sq] by (auto simp: p_def)
  obtain m where m: "pad16 p = p @ replicate m 0" using pad16_eq [of p] by auto
  obtain reply tb where rp: "wg_encrypt (dp_prims v) r (e_tun eb) = (reply, tb)" by force
  have h: "handle_packet v me targets tick pkt addr_a (out, stb) =
      handle_decrypted v me (our_index (e_tun eb)) (pad16 p) addr_a (out, stb)"
    using handle_transport [OF laws, of "e_tun ea" "(out, stb)" eb p pkt ta] link b pkt
    by (simp add: linked_def p_def)
  obtain stb' where s: "handle_packet v me targets tick pkt addr_a (out, stb) = Some (out @ [Sent reply addr_a], stb')"
    using handle_echo [OF b, of me "pad16 p" r v reply tb addr_a out] echo_reply_padded [OF r(1)] allowed rp
    unfolding h m p_def [symmetric] by auto
  obtain n where n: "n < 16" "pad16 r = r @ replicate n 0" using pad16_eq [of r] by auto
  have "reply = transport_packet P (recv_key ta) (their_index (e_tun eb)) (tx_counter (e_tun eb)) r"
    using rp pkt link(1) laws(2) by (auto simp: wg_encrypt_def transport_packet_def linked_def Let_def)
  then have "wg_decrypt P reply ta = Ok (r @ replicate n 0)"
    using decrypt_packet(1) [OF laws(1)] n(2) by simp
  with s n(1) r(2-6) show ?thesis by blast
qed

section \<open>Who is admitted\<close>

text \<open>
  An initiator nobody knows. Whatever static key an initiation proves, and however many
  tunnels there are, the device answers it and inserts a tunnel: a new one when the index and
  the address are new, so the bound on tunnels does not hold for the responder.
\<close>

theorem responder_admits_anyone:
  assumes "crypto_laws P" "dp_prims v = P" "identity_ok P b" "length ts = 12" "clear_index i"
    and "build_initiation P e s (wg_pubkey P s) (id_node_pub b) ts i = (msg, hs)"
    and "map_of (tunnels st) (rand_index v) = None" "\<not> has_tunnel_at st src"
  shows "\<exists>reply st' t. handle_packet v b [] tick msg src ([], st) = Some ([Sent reply src], st')
    \<and> length (tunnels st') = Suc (length (tunnels st))
    \<and> map_of (tunnels st') (rand_index v) = Some t \<and> e_node t = wg_pubkey P s"
proof -
  have "length (AList.update k x al) = Suc (length al)" if "map_of al k = None" for k x and al :: "(u32 \<times> tunnel_entry) list"
    using that by (induction al) (auto split: if_splits)
  moreover have "filter (\<lambda>(_, e). e_addr e \<noteq> src) (tunnels st) = tunnels st"
    using assms(8) by (auto simp: has_tunnel_at_def list_ex_iff intro!: filter_True)
  ultimately have ins: "length (tunnels (insert_tunnel v (rand_index v) rt src node st)) = Suc (length (tunnels st))
      \<and> map_of (tunnels (insert_tunnel v (rand_index v) rt src node st)) (rand_index v) =
        Some \<lparr>e_tun = rt, e_addr = src, e_node = node, e_tcp = dp_server v\<rparr>" for rt node
    using assms(7) by (simp add: insert_tunnel_def update_conv')
  show ?thesis
  proof (rule handle_initiation [OF assms(1-6), where targets = "[]" and tick = tick and src = src and out = "[]" and st = st],
      goal_cases)
    case (1 reply rt it rest)
    then show ?case using ins [of rt "wg_pubkey P s"] by force
  qed
qed

section \<open>Two sample devices\<close>

definition sample_you :: identity where
  "sample_you = \<lparr>id_disco_priv = [2], id_disco_pub = replicate 32 2, id_node_priv = [4],
     id_node_pub = wg_pubkey toy_prims [4], id_allowed_srcs = None\<rparr>"

definition sample_target :: peer_target where
  "sample_target = \<lparr>t_name = ''you'', t_disco_pub = replicate 32 2, t_node_pub = wg_pubkey toy_prims [4],
     t_endpoints = [V4 [10, 0, 0, 2] 9], t_spray = False\<rparr>"

lemma sample_devices:
  "env_uses toy_prims (dp_seal sample_dp_env) (dp_open sample_dp_env) sample_dp_env"
  "boxes (dp_seal sample_dp_env) (dp_open sample_dp_env) sample_me sample_you"
  "identity_ok toy_prims sample_me" "identity_ok toy_prims sample_you" "dp_prims sample_dp_env = toy_prims"
  by (simp_all add: env_uses_def boxes_def box_law_def identity_ok_def sample_dp_env_def sample_me_def sample_you_def)

lemma sample_index: "rand_index sample_dp_env = 7" "clear_index 7"
proof -
  have "le32 7 = [7, 0, 0, 0]" by (simp add: le32_def be32_def)
  then show "clear_index 7" by (simp add: clear_index_def get32_def of_be32_def MAGIC_COOKIE_def)
qed (simp add: sample_dp_env_def)

theorem path_becomes_tunnel_witness:
  "\<exists>ping pong. disco_seal (dp_seal sample_dp_env) (replicate 24 1) [1] (replicate 32 1) (replicate 32 2)
        (ping_plaintext (replicate 12 6) (id_node_pub sample_me)) = Ok ping
     \<and> handle_packet sample_dp_env sample_you [] 0 ping (V4 [10, 0, 0, 1] 9) ([], dp_new None [] False [])
       = Some ([Sent pong (V4 [10, 0, 0, 1] 9)], dp_new None [] False [])"
proof -
  obtain ping where p: "disco_seal (dp_seal sample_dp_env) (replicate 24 1) (id_disco_priv sample_me) (id_disco_pub sample_me)
      (id_disco_pub sample_you) (ping_plaintext (replicate 12 6) (id_node_pub sample_me)) = Ok ping"
    using disco_seal_Ok [OF sample_devices(2)] by blast
  show ?thesis
    using path_becomes_tunnel [OF toy_prims_laws sample_devices(2-4) sample_devices(1) sample_devices(1)
        sample_devices(1) sample_devices(1) sample_devices(1) _ _ p, of "[sample_target]" sample_target
        "dp_new None [] False []" "V4 [10, 0, 0, 2] 9" "[]" "V4 [10, 0, 0, 1] 9" "dp_new None [] False []"] p
    by (auto simp: sample_target_def sample_you_def sample_me_def dp_new_def has_tunnel_at_def MAX_TUNNELS_def sample_index)
qed

theorem tunnel_ping_witness:
  "\<exists>pkt ta reply stb'. wg_encrypt toy_prims (icmp_echo_request [100, 64, 0, 1] [100, 64, 0, 2] 3 4 []) (e_tun (sample_entry 1 2 7 8)) = (pkt, ta)
     \<and> handle_packet sample_dp_env sample_you [] 0 pkt (V4 [10, 0, 0, 1] 9)
         ([], (dp_new None [] False [])\<lparr>tunnels := [(7, sample_entry 2 1 8 7)]\<rparr>) = Some ([Sent reply (V4 [10, 0, 0, 1] 9)], stb')"
proof -
  obtain pkt ta where p: "wg_encrypt toy_prims (icmp_echo_request [100, 64, 0, 1] [100, 64, 0, 2] 3 4 [])
      (e_tun (sample_entry 1 2 7 8)) = (pkt, ta)" by force
  show ?thesis
    using tunnel_ping [where targets = "[]" and tick = 0 and addr_a = "V4 [10, 0, 0, 1] 9" and out = "[]"
        and ea = "sample_entry 1 2 7 8" and eb = "sample_entry 2 1 8 7" and me = sample_you and payload = "[]"
        and stb = "(dp_new None [] False [])\<lparr>tunnels := [(7, sample_entry 2 1 8 7)]\<rparr>",
        OF toy_prims_laws sample_devices(5) _ _ _ _ _ _ _ p] p
    by (auto simp: linked_def sample_entry_def sample_index sample_you_def src_allowed_def)
qed

theorem responder_admits_anyone_witness:
  "\<exists>msg hs reply st'. build_initiation toy_prims [5] [6] (wg_pubkey toy_prims [6]) (id_node_pub sample_you) (replicate 12 0) 7 = (msg, hs)
     \<and> handle_packet sample_dp_env sample_you [] 0 msg (V4 [10, 0, 0, 1] 9) ([], dp_new None [] False [])
       = Some ([Sent reply (V4 [10, 0, 0, 1] 9)], st') \<and> length (tunnels st') = 1"
proof -
  obtain msg hs where b: "build_initiation toy_prims [5] [6] (wg_pubkey toy_prims [6]) (id_node_pub sample_you)
      (replicate 12 0) 7 = (msg, hs)" by force
  show ?thesis
    using responder_admits_anyone [OF toy_prims_laws sample_devices(5,4) _ sample_index(2) b, of "dp_new None [] False []"
        "V4 [10, 0, 0, 1] 9" 0] b by (auto simp: dp_new_def has_tunnel_at_def)
qed

end
