(* ===== verification/Derp.thy ===== *)
theory Derp
  imports Dataplane ControlConn
begin

text \<open>
  \<open>src/derp.rs\<close>: the client of the relay, its frames over a TLS connection, and the thread
  that answers the peers that reach the device through the relay. The TLS library is outside
  the repository: a record of its functions on the state of the connection.
\<close>

section \<open>The TLS connection\<close>

text \<open>
  \<open>tls_read room s\<close> is \<open>esp_tls_conn_read\<close> into a buffer of \<open>room\<close> bytes: its result, the
  bytes it put there and the new state. \<open>tls_poll\<close> is what \<open>poll\<close> on the socket says, \<open>None\<close>
  when there is no socket to ask.
\<close>

record 's tls =
  tls_read :: "nat \<Rightarrow> 's \<Rightarrow> int \<times> bytes \<times> 's"
  tls_write :: "bytes \<Rightarrow> 's \<Rightarrow> int \<times> 's"
  tls_avail :: "'s \<Rightarrow> int"
  tls_poll :: "'s \<Rightarrow> (int \<times> 's) option"
  want_read :: int
  want_write :: int

datatype derp_error =
  DerpClosed | DerpUpgradeClosed | DerpTooLarge nat | DerpUpgradeTooLarge | DerpUpgradeFailed string
| DerpKeyType u8 | DerpKeyFrame nat | DerpSeal | DerpPoll | DerpReadErr int | DerpWriteErr int

definition FRAME_SERVER_KEY :: u8 where "FRAME_SERVER_KEY = 0x01"
definition FRAME_CLIENT_INFO :: u8 where "FRAME_CLIENT_INFO = 0x02"
definition FRAME_SEND_PACKET :: u8 where "FRAME_SEND_PACKET = 0x04"
definition FRAME_RECV_PACKET :: u8 where "FRAME_RECV_PACKET = 0x05"
definition DERP_MAGIC :: bytes where "DERP_MAGIC = of_text ''DERP'' @ [0xf0, 0x9f, 0x94, 0x91]"
definition MAX_FRAME :: nat where "MAX_FRAME = 64 * 1024"

text \<open>Reads are repeated while the library wants to read or write first; \<open>None\<close> is for ever.\<close>

partial_function (option) tls_read_some ::
  "'s tls \<Rightarrow> nat \<Rightarrow> 's \<Rightarrow> ((bytes, derp_error) outcome \<times> 's) option"
where
  "tls_read_some lib room s =
     (case tls_read lib room s of (r, got, s) \<Rightarrow>
        if r > 0 then Some (Ok (take (nat r) got), s)
        else if r = 0 then Some (Ok [], s)
        else if r = want_read lib \<or> r = want_write lib then tls_read_some lib room s
        else Some (Err (DerpReadErr r), s))"

partial_function (option) derp_read_exact ::
  "'s tls \<Rightarrow> nat \<Rightarrow> bytes \<Rightarrow> 's \<Rightarrow> ((bytes, derp_error) outcome \<times> 's) option"
where
  "derp_read_exact lib n buf s =
     (if length buf < n then
        Option.bind (tls_read_some lib (n - length buf) s) (\<lambda>(r, s). case r of
          Ok got \<Rightarrow> if got = [] then Some (Err DerpClosed, s) else derp_read_exact lib n (buf @ got) s
        | Err e \<Rightarrow> Some (Err e, s)
        | Panic \<Rightarrow> Some (Panic, s))
      else Some (Ok buf, s))"

partial_function (option) derp_write_all ::
  "'s tls \<Rightarrow> bytes \<Rightarrow> 's \<Rightarrow> ((unit, derp_error) outcome \<times> 's) option"
where
  "derp_write_all lib buf s =
     (if buf \<noteq> [] then
       (case tls_write lib buf s of (r, s) \<Rightarrow>
          if r > 0 then derp_write_all lib (drop (nat r) buf) s
          else if r = want_read lib \<or> r = want_write lib then derp_write_all lib buf s
          else Some (Err (DerpWriteErr r), s))
      else Some (Ok (), s))"

text \<open>A step that may fail, followed by one that uses its result.\<close>

definition derp_bind ::
  "((('a, derp_error) outcome \<times> 's) option) \<Rightarrow> ('a \<Rightarrow> 's \<Rightarrow> (('b, derp_error) outcome \<times> 's) option)
     \<Rightarrow> (('b, derp_error) outcome \<times> 's) option"
where
  "derp_bind m k = Option.bind m (\<lambda>(r, s). case r of
     Ok x \<Rightarrow> k x s | Err e \<Rightarrow> Some (Err e, s) | Panic \<Rightarrow> Some (Panic, s))"

section \<open>Frames\<close>

definition derp_read_frame :: "'s tls \<Rightarrow> 's \<Rightarrow> ((u8 \<times> bytes, derp_error) outcome \<times> 's) option" where
  "derp_read_frame lib s =
     derp_bind (derp_read_exact lib 5 [] s) (\<lambda>hdr s.
       let len = unat (get32 1 hdr) in
       if len > MAX_FRAME then Some (Err (DerpTooLarge len), s)
       else derp_bind (if len > 0 then derp_read_exact lib len [] s else Some (Ok [], s)) (\<lambda>payload s.
         Some (Ok (hdr ! 0, payload), s)))"

text \<open>The frame is read into the buffer of the caller, which it replaces.\<close>

definition read_frame_into :: "'s tls \<Rightarrow> bytes \<Rightarrow> 's \<Rightarrow> ((u8 \<times> bytes, derp_error) outcome \<times> 's) option" where
  "read_frame_into lib payload s =
     derp_bind (derp_read_exact lib 5 [] s) (\<lambda>hdr s.
       let len = unat (get32 1 hdr) in
       if len > MAX_FRAME then Some (Err (DerpTooLarge len), s)
       else
        (let payload = replicate len 0 in
         derp_bind (if len > 0 then derp_read_exact lib (length payload) [] s else Some (Ok payload, s)) (\<lambda>payload s.
           Some (Ok (hdr ! 0, payload), s))))"

definition read_frame_timeout ::
  "'s tls \<Rightarrow> bytes \<Rightarrow> 's \<Rightarrow> (((u8 \<times> bytes) option, derp_error) outcome \<times> 's) option"
where
  "read_frame_timeout lib payload s =
     (let read = (\<lambda>s. derp_bind (read_frame_into lib payload s) (\<lambda>f s. Some (Ok (Some f), s))) in
      if tls_avail lib s > 0 then read s
      else case tls_poll lib s of
        None \<Rightarrow> read s
      | Some (pr, s) \<Rightarrow>
          if pr = 0 then Some (Ok None, s)
          else if pr < 0 then Some (Err DerpPoll, s)
          else read s)"

definition derp_write_frame :: "'s tls \<Rightarrow> u8 \<Rightarrow> bytes \<Rightarrow> 's \<Rightarrow> ((unit, derp_error) outcome \<times> 's) option" where
  "derp_write_frame lib typ payload s =
     (let hdr = put 1 (be32 (word_of_nat (length payload))) ((replicate 5 0)[0 := typ]) in
      derp_bind (derp_write_all lib hdr s) (\<lambda>x s.
        if payload \<noteq> [] then derp_write_all lib payload s else Some (Ok (), s)))"

definition send_packet :: "'s tls \<Rightarrow> bytes \<Rightarrow> bytes \<Rightarrow> 's \<Rightarrow> ((unit, derp_error) outcome \<times> 's) option" where
  "send_packet lib dst_node_pub pkt s = derp_write_frame lib FRAME_SEND_PACKET (dst_node_pub @ pkt) s"

section \<open>Connecting\<close>

definition derp_request :: "string \<Rightarrow> bytes" where
  "derp_request host = of_text
     (''GET /derp HTTP/1.1'' @ crlf @ ''Host: '' @ host @ crlf @ ''Connection: Upgrade'' @ crlf
      @ ''Upgrade: DERP'' @ crlf @ crlf)"

partial_function (option) derp_upgrade_loop ::
  "'s tls \<Rightarrow> bytes \<Rightarrow> 's \<Rightarrow> ((bytes, derp_error) outcome \<times> 's) option"
where
  "derp_upgrade_loop lib head s =
     Option.bind (tls_read_some lib 1 s) (\<lambda>(r, s). case r of
       Ok got \<Rightarrow>
         if got = [] then Some (Err DerpUpgradeClosed, s)
         else
          (let head = head @ [got ! 0] in
           if drop (length head - 4) head = [0x0D, 0x0A, 0x0D, 0x0A] \<and> length head \<ge> 4 then Some (Ok head, s)
           else if length head > 4096 then Some (Err DerpUpgradeTooLarge, s)
           else derp_upgrade_loop lib head s)
     | Err e \<Rightarrow> Some (Err e, s)
     | Panic \<Rightarrow> Some (Panic, s))"

definition http_upgrade :: "'s tls \<Rightarrow> string \<Rightarrow> 's \<Rightarrow> ((unit, derp_error) outcome \<times> 's) option" where
  "http_upgrade lib host s =
     derp_bind (derp_write_all lib (derp_request host) s) (\<lambda>x s.
     derp_bind (derp_upgrade_loop lib [] s) (\<lambda>head s.
       let line = takeWhile (\<lambda>c. c \<noteq> CHR 0x0A) (from_utf8_lossy (to_text head)) in
       if find_bytes line '' 101 '' = None then Some (Err (DerpUpgradeFailed (trim line)), s)
       else Some (Ok (), s)))"

definition read_server_key :: "'s tls \<Rightarrow> 's \<Rightarrow> ((bytes, derp_error) outcome \<times> 's) option" where
  "read_server_key lib s =
     derp_bind (derp_read_frame lib s) (\<lambda>(typ, payload) s.
       if typ \<noteq> FRAME_SERVER_KEY then Some (Err (DerpKeyType typ), s)
       else if length payload < length DERP_MAGIC + 32 \<or> take (length DERP_MAGIC) payload \<noteq> DERP_MAGIC
       then Some (Err (DerpKeyFrame (length payload)), s)
       else Some (Ok (cut (length DERP_MAGIC) (length DERP_MAGIC + 32) payload), s))"

definition send_client_info ::
  "'s tls \<Rightarrow> box_seal \<Rightarrow> bytes \<Rightarrow> bytes \<Rightarrow> bytes \<Rightarrow> bytes \<Rightarrow> 's \<Rightarrow> ((unit, derp_error) outcome \<times> 's) option"
where
  "send_client_info lib bx nbytes node_priv node_pub server_pub s =
     (case bx server_pub node_priv nbytes (of_text (''{'' @ [CHR 0x22] @ ''version'' @ [CHR 0x22] @ '':2}'')) of
        None \<Rightarrow> Some (Err DerpSeal, s)
      | Some ct \<Rightarrow> derp_write_frame lib FRAME_CLIENT_INFO (node_pub @ nbytes @ ct) s)"

definition derp_connect ::
  "'s tls \<Rightarrow> box_seal \<Rightarrow> bytes \<Rightarrow> string \<Rightarrow> bytes \<Rightarrow> bytes \<Rightarrow> 's \<Rightarrow> ((unit, derp_error) outcome \<times> 's) option"
where
  "derp_connect lib bx nbytes host node_priv node_pub s =
     derp_bind (http_upgrade lib host s) (\<lambda>x s.
     derp_bind (read_server_key lib s) (\<lambda>server_pub s.
       send_client_info lib bx nbytes node_priv node_pub server_pub s))"

section \<open>The peers behind the relay\<close>

record derp_peer =
  dr_tun :: tunnel
  dr_last_ms :: u64
  dr_tcp :: tcp_server

record peer_dir =
  pd_node_pub :: bytes
  pd_disco_pub :: bytes
  pd_endpoints :: "socket_addr list"

record upgrade_cfg =
  up_endpoints :: "socket_addr list"
  up_peers :: "peer_dir list"

record derp_state =
  dr_peers :: "(bytes \<times> derp_peer) list"
  dr_upgraded :: "bytes list"

text \<open>
  What the thread does: a packet to a peer through the relay, a peer for the data plane to
  reach directly, an action for the screen. The results of the sends are ignored.
\<close>

datatype derp_effect = Relay bytes bytes | Ask peer_target | Act tcp_action

definition MAX_PEERS :: nat where "MAX_PEERS = 4"
definition MAX_UPGRADED :: nat where "MAX_UPGRADED = 16"

definition hex8 :: "bytes \<Rightarrow> string" where
  "hex8 b = concat (map (\<lambda>x. [''0123456789abcdef'' ! unat (drop_bit 4 x), ''0123456789abcdef'' ! unat (x AND 15)]) (take 8 b))"

fun encrypt_each :: "prims \<Rightarrow> bytes list \<Rightarrow> tunnel \<Rightarrow> bytes list \<times> tunnel" where
  "encrypt_each P [] t = ([], t)"
| "encrypt_each P (seg # segs) t =
     (let (pkt, t) = wg_encrypt P seg t; (pkts, t) = encrypt_each P segs t in (pkt # pkts, t))"

text \<open>Nothing to read: the retransmission timers of the peers.\<close>

fun tick_peers ::
  "prims \<Rightarrow> u64 \<Rightarrow> (bytes \<times> derp_peer) list \<Rightarrow> (derp_effect list \<times> (bytes \<times> derp_peer) list) option"
where
  "tick_peers P now [] = Some ([], [])"
| "tick_peers P now ((src, p) # ps) =
     Option.bind (srv_tick now (dr_tcp p)) (\<lambda>(segs, srv).
       let (pkts, t) = encrypt_each P segs (dr_tun p) in
       Option.bind (tick_peers P now ps) (\<lambda>(out, ps).
         Some (map (Relay src) pkts @ out, (src, p\<lparr>dr_tun := t, dr_tcp := srv\<rparr>) # ps)))"

definition try_upgrade :: "dp_env \<Rightarrow> identity \<Rightarrow> upgrade_cfg \<Rightarrow> bytes \<Rightarrow> derp_effect list \<Rightarrow> derp_effect list" where
  "try_upgrade v me up src out = (case find (\<lambda>p. pd_node_pub p = src) (up_peers up) of
     None \<Rightarrow> out
   | Some peer \<Rightarrow>
       if pd_endpoints peer = [] \<and> up_endpoints up = [] then out
       else
        (let cmm = call_me_maybe_plaintext (up_endpoints up);
             out = (case disco_seal (dp_seal v) (rand_nonce v (length out)) (id_disco_priv me) (id_disco_pub me)
                      (pd_disco_pub peer) cmm of Ok w \<Rightarrow> out @ [Relay src w] | _ \<Rightarrow> out)
         in out @ [Ask \<lparr>t_name = ''derp:'' @ hex8 src, t_disco_pub = pd_disco_pub peer, t_node_pub = src,
                        t_endpoints = pd_endpoints peer, t_spray = True\<rparr>]))"

text \<open>The first packet of a peer, or of one forgotten, starts an upgrade to a direct path.\<close>

definition note_peer ::
  "dp_env \<Rightarrow> identity \<Rightarrow> upgrade_cfg option \<Rightarrow> bytes \<Rightarrow> derp_effect list \<times> derp_state \<Rightarrow> derp_effect list \<times> derp_state"
where
  "note_peer v me upgrade src r = (let (out, st) = r in
     case upgrade of None \<Rightarrow> (out, st)
     | Some up \<Rightarrow>
        (let seen = (if length (dr_upgraded st) > MAX_UPGRADED then [] else dr_upgraded st) in
         (if src \<in> set seen then out else try_upgrade v me up src out,
          st\<lparr>dr_upgraded := List.insert src seen\<rparr>)))"

definition derp_disco ::
  "dp_env \<Rightarrow> identity \<Rightarrow> upgrade_cfg option \<Rightarrow> bytes \<Rightarrow> bytes \<Rightarrow> derp_effect list \<Rightarrow> derp_effect list"
where
  "derp_disco v me upgrade src pkt out = (case disco_open (dp_open v) (id_disco_priv me) pkt of
     Ok msg \<Rightarrow>
       if msg_type msg = PING then
        (case disco_seal (dp_seal v) (rand_nonce v (length out)) (id_disco_priv me) (id_disco_pub me)
                (sender_disco_pub msg) (pong_plaintext (d_txid msg) (V4 [0, 0, 0, 0] 0)) of
           Ok w \<Rightarrow> out @ [Relay src w] | _ \<Rightarrow> out)
       else if msg_type msg = CALL_ME_MAYBE \<and> d_endpoints msg \<noteq> [] \<and> upgrade \<noteq> None then
         out @ [Ask \<lparr>t_name = ''derp:'' @ hex8 src, t_disco_pub = sender_disco_pub msg, t_node_pub = src,
                     t_endpoints = d_endpoints msg, t_spray = True\<rparr>]
       else out
   | _ \<Rightarrow> out)"

text \<open>The peer that was heard of longest ago, the first of them.\<close>

fun oldest :: "(bytes \<times> derp_peer) list \<Rightarrow> (bytes \<times> derp_peer) option" where
  "oldest [] = None"
| "oldest (x # xs) = (case oldest xs of None \<Rightarrow> Some x
     | Some y \<Rightarrow> if dr_last_ms (snd y) < dr_last_ms (snd x) then Some y else Some x)"

definition evict :: "bytes \<Rightarrow> (bytes \<times> derp_peer) list \<Rightarrow> (bytes \<times> derp_peer) list" where
  "evict src peers =
     (if length peers \<ge> MAX_PEERS \<and> map_of peers src = None
      then (case oldest peers of None \<Rightarrow> peers | Some (old, p) \<Rightarrow> AList.delete old peers) else peers)"

definition derp_init ::
  "dp_env \<Rightarrow> identity \<Rightarrow> bytes \<Rightarrow> bytes \<Rightarrow> derp_effect list \<times> derp_state \<Rightarrow> derp_effect list \<times> derp_state"
where
  "derp_init v me src pkt r = (let (out, st) = r in
     case consume_initiation (dp_prims v) (rand_eph v) (id_node_priv me) (id_node_pub me) pkt (rand_index v) of
       Ok (reply, tun, peer_static) \<Rightarrow>
         (out @ [Relay src reply],
          st\<lparr>dr_peers := AList.update src \<lparr>dr_tun = tun, dr_last_ms = clock_ms v, dr_tcp = dp_server v\<rparr>
                           (evict src (dr_peers st))\<rparr>)
     | _ \<Rightarrow> (out, st))"

definition handle_inner ::
  "dp_env \<Rightarrow> bytes \<Rightarrow> bytes \<Rightarrow> derp_peer \<Rightarrow> (derp_effect list \<times> derp_peer) option"
where
  "handle_inner v src inner p = (case echo_reply_any inner of
     Some reply \<Rightarrow> (let (pkt, t) = wg_encrypt (dp_prims v) reply (dr_tun p) in Some ([Relay src pkt], p\<lparr>dr_tun := t\<rparr>))
   | None \<Rightarrow>
       Option.bind (handle_stream (dp_machine v) (rand_iss v) inner (clock_ms v) (dr_tcp p)) (\<lambda>(segs, srv).
         let (pkts, t) = encrypt_each (dp_prims v) segs (dr_tun p); (action, srv) = take_action srv
         in Some (map (Relay src) pkts @ (case action of None \<Rightarrow> [] | Some a \<Rightarrow> [Act a]),
              p\<lparr>dr_tun := t, dr_tcp := srv\<rparr>)))"

definition derp_transport ::
  "dp_env \<Rightarrow> identity \<Rightarrow> bytes \<Rightarrow> bytes \<Rightarrow> derp_effect list \<times> derp_state \<Rightarrow> (derp_effect list \<times> derp_state) option"
where
  "derp_transport v me src pkt r = (let (out, st) = r in
     case map_of (dr_peers st) src of None \<Rightarrow> Some (out, st)
     | Some p \<Rightarrow>
        (let p = p\<lparr>dr_last_ms := clock_ms v\<rparr>;
             keep = (\<lambda>p. st\<lparr>dr_peers := AList.update src p (dr_peers st)\<rparr>) in
         case wg_decrypt (dp_prims v) pkt (dr_tun p) of
           Ok inner \<Rightarrow>
             if inner \<noteq> [] \<and> src_allowed (id_allowed_srcs me) inner
             then map_option (\<lambda>(sent, p). (out @ sent, keep p)) (handle_inner v src inner p)
             else Some (out, keep p)
         | _ \<Rightarrow> Some (out, keep p)))"

text \<open>One turn of \<open>serve\<close>: nothing arrived in time, or a frame did.\<close>

definition serve_idle :: "dp_env \<Rightarrow> derp_state \<Rightarrow> (derp_effect list \<times> derp_state) option" where
  "serve_idle v st =
     map_option (\<lambda>(out, ps). (out, st\<lparr>dr_peers := ps\<rparr>)) (tick_peers (dp_prims v) (clock_ms v) (dr_peers st))"

definition serve_frame ::
  "dp_env \<Rightarrow> identity \<Rightarrow> upgrade_cfg option \<Rightarrow> u8 \<Rightarrow> bytes \<Rightarrow> derp_state \<Rightarrow> (derp_effect list \<times> derp_state) option"
where
  "serve_frame v me upgrade typ scratch st =
     (if typ \<noteq> FRAME_RECV_PACKET \<or> length scratch \<le> 32 then Some ([], st)
      else
       (let src = take 32 scratch; pkt = drop 32 scratch;
            (out, st) = note_peer v me upgrade src ([], st) in
        if is_disco pkt then Some (derp_disco v me upgrade src pkt out, st)
        else if pkt ! 0 = MSG_INITIATION then Some (derp_init v me src pkt (out, st))
        else if pkt ! 0 = MSG_TRANSPORT then derp_transport v me src pkt (out, st)
        else Some (out, st)))"

end
