(* ===== verification/DerpProps.thy ===== *)
theory DerpProps
  imports Derp DataplaneSafe ConnProps
begin

text \<open>
  The relay: its frames survive any cut into reads and writes, its tables stay bounded while it
  answers whatever arrives, and a peer behind the relay is served as one on a direct path.
\<close>

section \<open>Frames over a connection\<close>

text \<open>
  An ordered connection: \<open>avail\<close> is what can still be read, \<open>sent\<close> what has been written. A read
  with room returns some of what is available, a write takes some of what it is given, or the
  library asks to be called again, at most \<open>stall\<close> times in a row.
\<close>

definition tls_asks :: "'s tls \<Rightarrow> int \<Rightarrow> bool" where
  "tls_asks lib r \<longleftrightarrow> r < 0 \<and> (r = want_read lib \<or> r = want_write lib)"

definition tls_reads :: "'s tls \<Rightarrow> ('s \<Rightarrow> bytes) \<Rightarrow> ('s \<Rightarrow> nat) \<Rightarrow> bool" where
  "tls_reads lib avail stall \<longleftrightarrow> (\<forall>n s. 0 < n \<and> avail s \<noteq> [] \<longrightarrow>
     (case tls_read lib n s of (r, got, s') \<Rightarrow>
        0 < r \<and> nat r \<le> n \<and> take (nat r) got = take (nat r) (avail s) \<and> avail s' = drop (nat r) (avail s)
      \<or> tls_asks lib r \<and> avail s' = avail s \<and> stall s' < stall s))"

definition tls_writes :: "'s tls \<Rightarrow> ('s \<Rightarrow> bytes) \<Rightarrow> ('s \<Rightarrow> nat) \<Rightarrow> bool" where
  "tls_writes lib sent stall \<longleftrightarrow> (\<forall>buf s. buf \<noteq> [] \<longrightarrow>
     (case tls_write lib buf s of (r, s') \<Rightarrow>
        0 < r \<and> nat r \<le> length buf \<and> sent s' = sent s @ take (nat r) buf
      \<or> tls_asks lib r \<and> sent s' = sent s \<and> stall s' < stall s))"

lemma tls_read_some_returns:
  assumes "tls_reads lib avail stall" "0 < n"
  shows "avail s \<noteq> [] \<Longrightarrow> \<exists>k s'. 0 < k \<and> k \<le> n \<and> k \<le> length (avail s)
    \<and> tls_read_some lib n s = Some (Ok (take k (avail s)), s') \<and> avail s' = drop k (avail s)"
proof (induction "stall s" arbitrary: s rule: less_induct)
  case less
  obtain r got s' where r: "tls_read lib n s = (r, got, s')" by (metis prod_cases3)
  with assms less.prems consider
      (bytes) "0 < r" "nat r \<le> n" "take (nat r) got = take (nat r) (avail s)" "avail s' = drop (nat r) (avail s)"
    | (again) "tls_asks lib r" "avail s' = avail s" "stall s' < stall s"
    unfolding tls_reads_def by fastforce
  then show ?case
  proof cases
    case bytes
    define k where "k = min (nat r) (length (avail s))"
    have "0 < k" "k \<le> n" using bytes less.prems by (auto simp: k_def)
    moreover have "take k (avail s) = take (nat r) (avail s)" "drop k (avail s) = drop (nat r) (avail s)"
      by (simp_all add: k_def min_def)
    ultimately show ?thesis
      using r bytes by (intro exI [of _ k] exI [of _ s']) (simp add: tls_read_some.simps k_def)
  next
    case again
    then have "tls_read_some lib n s = tls_read_some lib n s'"
      using r by (subst tls_read_some.simps) (auto simp: tls_asks_def)
    with less.hyps [OF again(3)] less.prems again(2) show ?thesis by simp
  qed
qed

lemma derp_read_exact_returns:
  assumes laws: "tls_reads lib avail stall"
  shows "n \<le> length buf + length (avail s) \<Longrightarrow> length buf \<le> n \<Longrightarrow>
    \<exists>s'. derp_read_exact lib n buf s = Some (Ok (buf @ take (n - length buf) (avail s)), s')
      \<and> avail s' = drop (n - length buf) (avail s)"
proof (induction "n - length buf" arbitrary: buf s rule: less_induct)
  case less
  show ?case
  proof (cases "length buf < n")
    case True
    then have "avail s \<noteq> []" using less.prems by auto
    with tls_read_some_returns [OF laws, of "n - length buf" s] True obtain k s' where
      k: "0 < k" "k \<le> n - length buf" "k \<le> length (avail s)"
        "tls_read_some lib (n - length buf) s = Some (Ok (take k (avail s)), s')" "avail s' = drop k (avail s)" by auto
    define buf' where "buf' = buf @ take k (avail s)"
    have l: "length buf' = length buf + k" using k(3) by (simp add: buf'_def)
    have step: "derp_read_exact lib n buf s = derp_read_exact lib n buf' s'"
      using True k by (subst derp_read_exact.simps) (auto simp: buf'_def)
    have "n - length buf = k + (n - length buf')" using l k(2) True by simp
    then have e: "take (n - length buf) (avail s) = take k (avail s) @ take (n - length buf') (avail s')"
        "drop (n - length buf) (avail s) = drop (n - length buf') (avail s')"
      using k(5) by (simp_all add: take_add add.commute)
    have "\<exists>s''. derp_read_exact lib n buf' s' = Some (Ok (buf' @ take (n - length buf') (avail s')), s'')
        \<and> avail s'' = drop (n - length buf') (avail s')"
      by (rule less.hyps) (use less.prems k l True in auto)
    then show ?thesis by (simp add: step e buf'_def)
  qed (use less.prems in \<open>simp add: derp_read_exact.simps\<close>)
qed

lemma derp_write_step:
  assumes "tls_writes lib sent stall" "buf \<noteq> []"
  shows "\<exists>k s'. 0 < k \<and> k \<le> length buf \<and> derp_write_all lib buf s = derp_write_all lib (drop k buf) s'
    \<and> sent s' = sent s @ take k buf"
proof (induction "stall s" arbitrary: s rule: less_induct)
  case less
  obtain r s' where r: "tls_write lib buf s = (r, s')" by force
  have "case tls_write lib buf s of (r, s') \<Rightarrow>
      0 < r \<and> nat r \<le> length buf \<and> sent s' = sent s @ take (nat r) buf
    \<or> tls_asks lib r \<and> sent s' = sent s \<and> stall s' < stall s"
    by (rule assms(1) [unfolded tls_writes_def, rule_format, OF assms(2)])
  then consider (bytes) "0 < r" "nat r \<le> length buf" "sent s' = sent s @ take (nat r) buf"
    | (again) "tls_asks lib r" "sent s' = sent s" "stall s' < stall s"
    unfolding r prod.case by blast
  then show ?case
  proof cases
    case bytes
    then have "derp_write_all lib buf s = derp_write_all lib (drop (nat r) buf) s'"
      using r assms(2) by (subst (1) derp_write_all.simps) (simp only: prod.case if_True not_False_eq_True)
    with bytes show ?thesis by (intro exI [of _ "nat r"] exI [of _ s']) simp
  next
    case again
    then have "derp_write_all lib buf s = derp_write_all lib buf s'"
      using r assms(2) unfolding tls_asks_def
      by (subst (1) derp_write_all.simps) (auto simp only: prod.case if_True not_False_eq_True not_less_iff_gr_or_eq split: if_splits)
    with less.hyps [OF again(3)] again(2) show ?thesis by simp
  qed
qed

lemma derp_write_all_sends:
  assumes "tls_writes lib sent stall"
  shows "\<exists>s'. derp_write_all lib buf s = Some (Ok (), s') \<and> sent s' = sent s @ buf"
proof (induction "length buf" arbitrary: buf s rule: less_induct)
  case less
  show ?case
  proof (cases "buf = []")
    case False
    from derp_write_step [OF assms False, of s] obtain k s' where
      k: "0 < k" "k \<le> length buf" "derp_write_all lib buf s = derp_write_all lib (drop k buf) s'"
        "sent s' = sent s @ take k buf" by auto
    from less.hyps [of "drop k buf" s'] k False show ?thesis by auto
  qed (simp add: derp_write_all.simps)
qed

text \<open>A frame as it is on the wire.\<close>

definition derp_frame :: "u8 \<times> bytes \<Rightarrow> bytes" where
  "derp_frame f = [fst f] @ be32 (word_of_nat (length (snd f))) @ snd f"

lemma derp_write_frame_sends:
  assumes "tls_writes lib sent stall"
  shows "\<exists>s'. derp_write_frame lib typ payload s = Some (Ok (), s') \<and> sent s' = sent s @ derp_frame (typ, payload)"
proof -
  define hdr where "hdr = put 1 (be32 (word_of_nat (length payload))) ((replicate 5 0)[0 := typ])"
  have hdr: "hdr = [typ] @ be32 (word_of_nat (length payload))"
    by (simp add: hdr_def put_def numeral_eq_Suc)
  obtain s1 where s1: "derp_write_all lib hdr s = Some (Ok (), s1)" "sent s1 = sent s @ hdr"
    using derp_write_all_sends [OF assms] by blast
  obtain s2 where s2: "derp_write_all lib payload s1 = Some (Ok (), s2)" "sent s2 = sent s1 @ payload"
    using derp_write_all_sends [OF assms] by blast
  have "derp_write_frame lib typ payload s = derp_bind (derp_write_all lib hdr s) (\<lambda>x s.
      if payload \<noteq> [] then derp_write_all lib payload s else Some (Ok (), s))"
    unfolding derp_write_frame_def Let_def hdr_def by (rule refl)
  then show ?thesis
    using s1 s2 hdr by (cases "payload = []") (auto simp: derp_bind_def derp_frame_def)
qed

lemma derp_read_frame_reads:
  assumes laws: "tls_reads lib avail stall" and small: "length payload \<le> MAX_FRAME"
    and a: "avail s = derp_frame (typ, payload) @ rest"
  shows "\<exists>s'. derp_read_frame lib s = Some (Ok (typ, payload), s') \<and> avail s' = rest"
proof -
  define hdr where "hdr = [typ] @ be32 (word_of_nat (length payload))"
  have n: "unat (word_of_nat (length payload) :: u32) = length payload"
    using small by (intro unat_word32) (simp add: MAX_FRAME_def)
  have h: "length hdr = 5" "hdr ! 0 = typ" "unat (get32 1 hdr) = length payload"
    using get32_at [of "[typ]" 1 "word_of_nat (length payload)" "[]"] n by (simp_all add: hdr_def)
  have w: "avail s = hdr @ payload @ rest" using a by (simp add: hdr_def derp_frame_def)
  obtain s1 where s1: "derp_read_exact lib 5 [] s = Some (Ok hdr, s1)" "avail s1 = payload @ rest"
    using derp_read_exact_returns [OF laws, of 5 "[]" s] w h(1) by auto
  obtain s2 where s2: "derp_read_exact lib (length payload) [] s1 = Some (Ok payload, s2)" "avail s2 = rest"
    using derp_read_exact_returns [OF laws, of "length payload" "[]" s1] s1(2) by auto
  have "derp_read_exact lib 0 [] s1 = Some (Ok [], s1)" by (simp add: derp_read_exact.simps)
  then show ?thesis
    using s1 s2 h small by (cases "payload = []") (auto simp: derp_read_frame_def derp_bind_def)
qed

text \<open>All the frames of a list, written one after the other, and read so.\<close>

fun relay_write_frames :: "'s tls \<Rightarrow> (u8 \<times> bytes) list \<Rightarrow> 's \<Rightarrow> 's option" where
  "relay_write_frames lib [] s = Some s"
| "relay_write_frames lib (f # fs) s = Option.bind (derp_write_frame lib (fst f) (snd f) s) (\<lambda>(r, s).
     if r = Ok () then relay_write_frames lib fs s else None)"

fun relay_read_frames :: "'s tls \<Rightarrow> nat \<Rightarrow> 's \<Rightarrow> ((u8 \<times> bytes) list \<times> 's) option" where
  "relay_read_frames lib 0 s = Some ([], s)"
| "relay_read_frames lib (Suc n) s = Option.bind (derp_read_frame lib s) (\<lambda>(r, s). case r of
     Ok f \<Rightarrow> map_option (\<lambda>(fs, s). (f # fs, s)) (relay_read_frames lib n s) | _ \<Rightarrow> None)"

lemma write_frames_sends:
  assumes "tls_writes lib sent stall"
  shows "\<exists>s'. relay_write_frames lib fs s = Some s' \<and> sent s' = sent s @ concat (map derp_frame fs)"
proof (induction fs arbitrary: s)
  case (Cons f fs)
  obtain s1 where s1: "derp_write_frame lib (fst f) (snd f) s = Some (Ok (), s1)" "sent s1 = sent s @ derp_frame f"
    using derp_write_frame_sends [OF assms, of "fst f" "snd f" s] by auto
  with Cons.IH [of s1] show ?case by auto
qed simp

lemma read_frames_reads:
  assumes "tls_reads lib avail stall"
  shows "list_all (\<lambda>f. length (snd f) \<le> MAX_FRAME) fs \<Longrightarrow> avail s = concat (map derp_frame fs) @ rest \<Longrightarrow>
    \<exists>s'. relay_read_frames lib (length fs) s = Some (fs, s') \<and> avail s' = rest"
proof (induction fs arbitrary: s)
  case (Cons f fs)
  then obtain s1 where "derp_read_frame lib s = Some (Ok f, s1)" "avail s1 = concat (map derp_frame fs) @ rest"
    using derp_read_frame_reads [OF assms, of "snd f" s "fst f" "concat (map derp_frame fs) @ rest"] by auto
  with Cons show ?case by auto
qed simp

text \<open>
  C36: the frames of the relay. Over connections that cut the bytes anywhere and ask to be
  called again finitely often, the frames one side writes are on the wire in order, and a side
  that receives these bytes reads exactly these frames, if none is over 64 KiB.
\<close>

theorem derp_frames_roundtrip:
  assumes "tls_writes wlib sent stall" "tls_reads rlib avail stall'"
    and "list_all (\<lambda>f. length (snd f) \<le> MAX_FRAME) fs"
  shows "\<exists>w' bs. relay_write_frames wlib fs w = Some w' \<and> sent w' = sent w @ bs
    \<and> (\<forall>r rest. avail r = bs @ rest \<longrightarrow>
         (\<exists>r'. relay_read_frames rlib (length fs) r = Some (fs, r') \<and> avail r' = rest))"
  using write_frames_sends [OF assms(1), of fs w] read_frames_reads [OF assms(2,3)] by blast

text \<open>A connection that moves one byte at a time and asks to be called again before each.\<close>

definition slow_tls :: "(bytes \<times> bool) tls" where
  "slow_tls = \<lparr>tls_read = (\<lambda>n s. case s of (bs, ask) \<Rightarrow>
       if ask then (- 1, [], bs, False) else (1, take 1 bs, drop 1 bs, True)),
     tls_write = (\<lambda>buf s. case s of (bs, ask) \<Rightarrow>
       if ask then (- 1, bs, False) else (1, bs @ take 1 buf, True)),
     tls_avail = (\<lambda>s. 0), tls_poll = (\<lambda>s. None), want_read = - 1, want_write = - 2\<rparr>"

definition stalls :: "bytes \<times> bool \<Rightarrow> nat" where
  "stalls s = (if snd s then 1 else 0)"

lemma slow_tls_laws: "tls_reads slow_tls fst stalls" "tls_writes slow_tls fst stalls"
proof -
  have "length (buf :: bytes) \<ge> 1" if "buf \<noteq> []" for buf using that by (cases buf) auto
  then show "tls_reads slow_tls fst stalls" "tls_writes slow_tls fst stalls"
    by (auto simp: tls_reads_def tls_writes_def slow_tls_def tls_asks_def stalls_def split: prod.split)
qed

theorem derp_frames_roundtrip_witness:
  "\<exists>w' bs r'. relay_write_frames slow_tls [(5, [1, 2, 3]), (6, [])] ([9], True) = Some w' \<and> fst w' = 9 # bs
     \<and> relay_read_frames slow_tls 2 (bs @ [7], False) = Some ([(5, [1, 2, 3]), (6, [])], r') \<and> fst r' = [7]"
proof -
  have small: "list_all (\<lambda>f. length (snd f) \<le> MAX_FRAME) [(5, [1, 2, 3]), (6, [])]" by (simp add: MAX_FRAME_def)
  obtain w' bs where w: "relay_write_frames slow_tls [(5, [1, 2, 3]), (6, [])] ([9], True) = Some w'" "fst w' = fst ([9 :: u8], True) @ bs"
    "\<forall>r rest. fst r = bs @ rest \<longrightarrow>
       (\<exists>r'. relay_read_frames slow_tls (length [(5 :: u8, [1 :: u8, 2, 3]), (6, [])]) r = Some ([(5, [1, 2, 3]), (6, [])], r') \<and> fst r' = rest)"
    using derp_frames_roundtrip [OF slow_tls_laws(2,1) small, of "([9], True)"] by (elim exE conjE)
  from w(3) [rule_format, of "(bs @ [7], False)" "[7]"] w(1,2) show ?thesis
    by (auto simp del: relay_write_frames.simps relay_read_frames.simps simp: numeral_2_eq_2)
qed

section \<open>The tables stay bounded\<close>

definition peers_ok :: "bytes \<Rightarrow> (bytes \<times> derp_peer) list \<Rightarrow> bool" where
  "peers_ok file ps \<longleftrightarrow> distinct (map fst ps) \<and> length ps \<le> MAX_PEERS
     \<and> list_all (\<lambda>sp. server_live file (dr_tcp (snd sp))) ps"

definition derp_ok :: "bytes \<Rightarrow> derp_state \<Rightarrow> bool" where
  "derp_ok file st \<longleftrightarrow> peers_ok file (dr_peers st) \<and> length (dr_upgraded st) \<le> Suc MAX_UPGRADED"

datatype derp_event = Quiet dp_env | Relayed dp_env u8 bytes

fun derp_step ::
  "identity \<Rightarrow> upgrade_cfg option \<Rightarrow> derp_event \<Rightarrow> derp_state \<Rightarrow> (derp_effect list \<times> derp_state) option"
where
  "derp_step me up (Quiet v) st = serve_idle v st"
| "derp_step me up (Relayed v typ payload) st = serve_frame v me up typ payload st"

fun derp_allowed :: "bytes \<Rightarrow> derp_event \<Rightarrow> bool" where
  "derp_allowed file (Quiet v) \<longleftrightarrow> True"
| "derp_allowed file (Relayed v typ payload) \<longleftrightarrow> env_ok file v"

lemma tick_peers_ok:
  "list_all (\<lambda>sp. server_live file (dr_tcp (snd sp))) ps \<Longrightarrow> \<exists>out ps'. tick_peers P now ps = Some (out, ps')
     \<and> map fst ps' = map fst ps \<and> list_all (\<lambda>sp. server_live file (dr_tcp (snd sp))) ps'"
proof (induction ps)
  case (Cons sp ps)
  obtain src p where sp: "sp = (src, p)" by force
  obtain segs srv where "srv_tick now (dr_tcp p) = Some (segs, srv)" "server_live file srv"
    using Cons.prems srv_tick_live [of "file" "dr_tcp p" now] by (auto simp: sp)
  with Cons show ?case by (auto simp: sp split_beta Let_def)
qed simp

lemma oldest_in: "oldest ps = Some sp \<Longrightarrow> sp \<in> set ps"
  by (induction ps arbitrary: sp) (auto split: option.splits if_splits)

lemma oldest_None: "oldest ps = None \<longleftrightarrow> ps = []"
  by (cases ps) (auto split: option.split)

lemma length_delete_in: "k \<in> fst ` set al \<Longrightarrow> length (AList.delete k al) < length al"
  by (auto simp: AList.delete_eq intro: length_filter_less)

lemma length_update_new: "length (AList.update k y al) = (if map_of al k = None then Suc (length al) else length al)"
  by (induction al) auto

lemma set_delete: "set (AList.delete k al) \<subseteq> set al"
  by (simp add: AList.delete_eq)

text \<open>After the eviction there is room for the peer.\<close>

lemma evict_room:
  assumes "length ps \<le> MAX_PEERS"
  shows "length (AList.update src p (evict src ps)) \<le> MAX_PEERS"
proof (cases "length ps \<ge> MAX_PEERS \<and> map_of ps src = None")
  case True
  then have "ps \<noteq> []" by (auto simp: MAX_PEERS_def)
  then obtain old q where o: "oldest ps = Some (old, q)" using oldest_None [of ps] by auto
  then have "old \<in> fst ` set ps" by (metis fst_conv imageI oldest_in)
  from length_delete_in [OF this] have "length (AList.delete old ps) < length ps" .
  then show ?thesis
    using True o assms length_update [of src p "AList.delete old ps"] by (simp add: evict_def)
next
  case False
  then have "evict src ps = ps" by (auto simp: evict_def)
  with False assms show ?thesis by (auto simp: length_update_new)
qed

lemma evict_subset: "set (evict src ps) \<subseteq> set ps"
  by (auto simp: evict_def AList.delete_eq split: option.split)

lemma distinct_evict: "distinct (map fst ps) \<Longrightarrow> distinct (map fst (evict src ps))"
  by (auto simp: evict_def distinct_delete split: option.split)

lemma derp_init_ok:
  assumes "derp_ok file st" "env_ok file v"
  shows "derp_ok file (snd (derp_init v me src pkt (out, st)))"
proof -
  have "peers_ok file (AList.update src p (evict src (dr_peers st)))" if "server_live file (dr_tcp p)" for p
    using that assms(1) evict_room [of "dr_peers st" src p] evict_subset [of src "dr_peers st"]
    by (auto simp: derp_ok_def peers_ok_def distinct_update distinct_evict list_all_iff dest!: in_update)
  with assms show ?thesis
    by (auto simp: derp_init_def derp_ok_def env_ok_def split: outcome.split)
qed

lemma peers_ok_update:
  assumes "peers_ok file ps" "map_of ps src \<noteq> None" "server_live file (dr_tcp p)"
  shows "peers_ok file (AList.update src p ps)"
  using assms by (auto simp: peers_ok_def distinct_update length_update_new list_all_iff dest!: in_update)

lemma handle_inner_ok:
  assumes "server_live file (dr_tcp p)"
  shows "\<exists>out p'. handle_inner v src inner p = Some (out, p') \<and> server_live file (dr_tcp p')"
proof -
  obtain segs srv where h: "handle_stream (dp_machine v) (rand_iss v) inner (clock_ms v) (dr_tcp p) = Some (segs, srv)"
      "server_live file srv"
    using process_live [of "file" "dr_tcp p" "dp_machine v" "rand_iss v" "clock_ms v" False inner] assms
    by (auto simp: handle_stream_def)
  have "server_live file (snd (take_action srv))" using h(2) by (simp add: take_action_def server_live_def routes_ok_def)
  then show ?thesis using h(1) assms by (auto simp: handle_inner_def split_beta Let_def split: option.split)
qed

lemma derp_transport_ok:
  assumes "derp_ok file st"
  shows "\<exists>out' st'. derp_transport v me src pkt (out, st) = Some (out', st') \<and> derp_ok file st'"
proof (cases "map_of (dr_peers st) src")
  case (Some p)
  note in_set = map_of_SomeD [OF Some]
  have keep: "derp_ok file (st\<lparr>dr_peers := AList.update src q (dr_peers st)\<rparr>)" if "server_live file (dr_tcp q)" for q
    using assms Some that by (simp add: derp_ok_def peers_ok_update)
  have p: "server_live file (dr_tcp p)" using assms in_set by (auto simp: derp_ok_def peers_ok_def list_all_iff)
  show ?thesis
  proof (cases "wg_decrypt (dp_prims v) pkt (dr_tun p)")
    case (Ok inner)
    with handle_inner_ok [of "file" "p\<lparr>dr_last_ms := clock_ms v\<rparr>" v src inner] p obtain sent q where
      "handle_inner v src inner (p\<lparr>dr_last_ms := clock_ms v\<rparr>) = Some (sent, q)" "server_live file (dr_tcp q)" by auto
    then show ?thesis using Some Ok keep p by (auto simp: derp_transport_def Let_def)
  qed (use Some keep p in \<open>simp_all add: derp_transport_def Let_def\<close>)
qed (use assms in \<open>simp add: derp_transport_def\<close>)

lemma note_peer_ok:
  "derp_ok file st \<Longrightarrow> derp_ok file (snd (note_peer v me up src (out, st)))"
  "dr_peers (snd (note_peer v me up src (out, st))) = dr_peers st"
  by (auto simp: note_peer_def derp_ok_def Let_def MAX_UPGRADED_def List.insert_def split: option.split)

lemma derp_step_ok:
  assumes "derp_ok file st" "derp_allowed file e"
  shows "\<exists>out st'. derp_step me up e st = Some (out, st') \<and> derp_ok file st'"
proof (cases e)
  case (Quiet v)
  obtain out ps where t: "tick_peers (dp_prims v) (clock_ms v) (dr_peers st) = Some (out, ps)"
      "map fst ps = map fst (dr_peers st)" "list_all (\<lambda>sp. server_live file (dr_tcp (snd sp))) ps"
    using tick_peers_ok [of "file" "dr_peers st" "dp_prims v" "clock_ms v"] assms(1)
    by (auto simp: derp_ok_def peers_ok_def)
  moreover have "length ps = length (dr_peers st)" using t(2) by (metis length_map)
  ultimately show ?thesis using Quiet assms(1) by (simp add: serve_idle_def derp_ok_def peers_ok_def)
next
  case (Relayed v ty payload)
  define src where "src = take 32 payload"
  define pkt where "pkt = drop 32 payload"
  obtain out1 st1 where n: "note_peer v me up src ([], st) = (out1, st1)" by force
  then have s1: "derp_ok file st1" "dr_peers st1 = dr_peers st"
    using note_peer_ok(1) [of "file" st v me up src "[]"] note_peer_ok(2) [of v me up src "[]" st] assms(1) by auto
  have a: "env_ok file v" using assms(2) Relayed by simp
  obtain out2 st2 where i: "derp_init v me src pkt (out1, st1) = (out2, st2)" by force
  with derp_init_ok [OF s1(1) a, of me src pkt out1] have i2: "derp_ok file st2" by simp
  show ?thesis
    using derp_transport_ok [OF s1(1), of v me src pkt out1] assms(1) Relayed n i i2 s1(1)
    by (auto simp: serve_frame_def Let_def src_def pkt_def)
qed

interpretation relay: live_machine "derp_step me up" "\<lambda>e s. derp_allowed file e" "derp_ok file" for me up "file"
  by unfold_locales (rule derp_step_ok)

text \<open>
  C32: from its start, every sequence of frames and quiet periods is served, whatever the frames
  hold, if the routes of the servers that the handshakes create give well-formed replies of less than
  100 MB; and the tables stay bounded: at most four peers behind the relay, each with a sound server and in one slot,
  and at most seventeen keys of peers that were asked to move to a direct path.
\<close>

theorem relay_bounded:
  assumes "list_all (derp_allowed file) es"
  shows "\<exists>out st. run_events (derp_step me up) es \<lparr>dr_peers = [], dr_upgraded = []\<rparr> = Some (out, st)
    \<and> length (dr_peers st) \<le> 4 \<and> distinct (map fst (dr_peers st)) \<and> length (dr_upgraded st) \<le> 17
    \<and> (\<forall>src p. map_of (dr_peers st) src = Some p \<longrightarrow> server_live file (dr_tcp p))"
proof -
  have "derp_ok file \<lparr>dr_peers = [], dr_upgraded = []\<rparr>" by (simp add: derp_ok_def peers_ok_def)
  from relay.run_inv [OF this allowed_run_all [OF assms]] obtain out st where
    r: "run_events (derp_step me up) es \<lparr>dr_peers = [], dr_upgraded = []\<rparr> = Some (out, st)" "derp_ok file st" by blast
  then have "server_live file (dr_tcp p)" if "map_of (dr_peers st) src = Some p" for src p
    using map_of_SomeD [OF that] by (auto simp: derp_ok_def peers_ok_def list_all_iff)
  with r show ?thesis by (auto simp: derp_ok_def peers_ok_def MAX_PEERS_def MAX_UPGRADED_def)
qed

text \<open>A peer makes a handshake over the relay, sends a packet, and falls silent.\<close>

theorem relay_bounded_witness:
  "\<exists>msg hs resp out st. build_initiation toy_prims [5] [6] (wg_pubkey toy_prims [6]) (id_node_pub sample_me) (replicate 12 0) 9 = (msg, hs)
     \<and> run_events (derp_step sample_me None)
         [Relayed sample_dp_env FRAME_RECV_PACKET (replicate 32 1 @ msg),
          Relayed sample_dp_env FRAME_RECV_PACKET (replicate 32 1 @ [4, 0, 0, 0, 7, 0, 0, 0] @ replicate 40 0),
          Quiet sample_dp_env] \<lparr>dr_peers = [], dr_upgraded = []\<rparr> = Some (Relay (replicate 32 1) resp # out, st)
     \<and> length (dr_peers st) \<le> 4"
proof -
  define src :: bytes where "src = replicate 32 1"
  obtain msg hs where b: "build_initiation toy_prims [5] [6] (wg_pubkey toy_prims [6]) (id_node_pub sample_me) (replicate 12 0) 9 = (msg, hs)"
    by force
  have P: "dp_prims sample_dp_env = toy_prims" "rand_eph sample_dp_env = [1]" "rand_index sample_dp_env = 7"
    "id_node_priv sample_me = [3]" "id_node_pub sample_me = wg_pubkey toy_prims [3]"
    by (simp_all add: sample_dp_env_def sample_me_def)
  have b3: "build_initiation toy_prims [5] [6] (wg_pubkey toy_prims [6]) (wg_pubkey toy_prims [3]) (replicate 12 0) 9 = (msg, hs)"
    using b P(5) by simp
  obtain resp rt rest where c: "consume_initiation toy_prims [1] [3] (wg_pubkey toy_prims [3]) msg 7 = Ok (resp, rt, wg_pubkey toy_prims [6])"
      "msg = [MSG_INITIATION, 0, 0, 0] @ le32 9 @ rest"
    by (rule handshake_keys [OF toy_prims_laws _ b3, of "[1]" 7]) auto
  define e2 e3 where "e2 = Relayed sample_dp_env FRAME_RECV_PACKET (src @ [4, 0, 0, 0, 7, 0, 0, 0] @ replicate 40 0)"
    and "e3 = Quiet sample_dp_env"
  obtain st1 where s1: "derp_step sample_me None (Relayed sample_dp_env FRAME_RECV_PACKET (src @ msg)) \<lparr>dr_peers = [], dr_upgraded = []\<rparr>
      = Some ([Relay src resp], st1)"
    using c P by (simp add: Let_def serve_frame_def src_def note_peer_def is_disco_def MAGIC_def MSG_INITIATION_def derp_init_def)
  have "list_all (derp_allowed []) [Relayed sample_dp_env FRAME_RECV_PACKET (src @ msg), e2, e3]"
    by (simp add: sample_env_ok e2_def e3_def)
  from relay_bounded [OF this, of sample_me None] obtain out st where
    "run_events (derp_step sample_me None) [Relayed sample_dp_env FRAME_RECV_PACKET (src @ msg), e2, e3]
      \<lparr>dr_peers = [], dr_upgraded = []\<rparr> = Some (out, st)" "length (dr_peers st) \<le> 4" by blast
  moreover from this(1) s1 obtain out' where "out = Relay src resp # out'"
    by (auto simp del: derp_step.simps split: bind_splits)
  ultimately show ?thesis using b unfolding e2_def e3_def src_def by blast
qed

section \<open>The relay and the direct path\<close>

text \<open>What a datagram of the data plane is on the relay.\<close>

fun as_relay :: "bytes \<Rightarrow> effect \<Rightarrow> derp_effect list" where
  "as_relay src (Sent pkt addr) = [Relay src pkt]"
| "as_relay src (Dispatch a) = [Act a]"
| "as_relay src (Reinject p) = []"

lemma encrypt_to_each:
  "concat (map (as_relay src) (fst (encrypt_to P addr segs t))) = map (Relay src) (fst (encrypt_each P segs t))"
  "snd (encrypt_to P addr segs t) = snd (encrypt_each P segs t)"
  by (induction segs arbitrary: t) (simp_all add: split_beta Let_def)

text \<open>
  C31: the relay serves as the direct path does. A transport packet from a peer behind the
  relay has the same replies, the same actions and the same effect on the tunnel and its server as
  the packet has on the direct path, when the tunnel and the server are the same and the data
  plane has no outbound request and no multicast partner in this peer.
\<close>

theorem relay_as_direct:
  assumes "map_of (tunnels st) (get32le 4 pkt) = Some e" "outbound st = None" "e_node e \<noteq> mdns_partner st"
    and "map_of (dr_peers ds) src = Some p" "dr_tun p = e_tun e" "dr_tcp p = e_tcp e"
  shows "map_option (\<lambda>(out, st'). (concat (map (as_relay src) out),
            map_option (\<lambda>e. (e_tun e, e_tcp e)) (map_of (tunnels st') (get32le 4 pkt))))
          (handle_wg_transport v me pkt addr ([], st))
    = map_option (\<lambda>(out, ds'). (out, map_option (\<lambda>p. (dr_tun p, dr_tcp p)) (map_of (dr_peers ds') src)))
          (derp_transport v me src pkt ([], ds))"
proof (cases "wg_decrypt (dp_prims v) pkt (e_tun e)")
  case (Ok inner)
  define k where "k = get32le 4 pkt"
  define st1 where "st1 = st\<lparr>tunnels := AList.map_entry k (e_addr_update (\<lambda>_. addr)) (tunnels st)\<rparr>"
  have e1: "map_of (tunnels st1) k = Some (e\<lparr>e_addr := addr\<rparr>)" using assms(1) by (simp add: st1_def k_def)
  have n: "\<not> length pkt < 16" using Ok by (auto simp: wg_decrypt_def split: if_splits)
  have d: "deliver_inner v k (e_node e) inner addr ([], st1) = (case echo_reply_any inner of
      Some reply \<Rightarrow> Some (send_inner v k addr [reply] ([], st1)) | None \<Rightarrow> serve_http v k inner addr ([], st1))"
    using assms(2,3) unfolding st1_def by (simp add: deliver_inner_def is_target_def)
  show ?thesis
  proof (cases "inner = [] \<or> \<not> src_allowed (id_allowed_srcs me) inner")
    case True
    then show ?thesis
      using assms Ok n by (auto simp: handle_wg_transport_def handle_decrypted_def derp_transport_def Let_def update_conv')
  next
    case False
    then have "handle_wg_transport v me pkt addr ([], st) = deliver_inner v k (e_node e) inner addr ([], st1)"
      using assms(1) Ok n by (simp add: handle_wg_transport_def handle_decrypted_def Let_def st1_def k_def)
    moreover have "derp_transport v me src pkt ([], ds) = map_option (\<lambda>(sent, p).
        (sent, ds\<lparr>dr_peers := AList.update src p (dr_peers ds)\<rparr>)) (handle_inner v src inner (p\<lparr>dr_last_ms := clock_ms v\<rparr>))"
      using False assms(4,5) Ok by (simp add: derp_transport_def Let_def)
    ultimately show ?thesis
      using e1 d assms(5,6)
      by (auto simp: encrypt_to_each handle_inner_def send_inner_def serve_http_def split_beta Let_def k_def update_conv' wg_encrypt_def
          split: option.split bind_splits)
  qed
qed (use assms in \<open>auto simp: handle_wg_transport_def derp_transport_def Let_def wg_decrypt_def update_conv'\<close>)

definition sample_behind :: derp_state where
  "sample_behind = \<lparr>dr_peers = [([1], \<lparr>dr_tun = e_tun (sample_entry 2 1 8 7), dr_last_ms = 0, dr_tcp = server_new\<rparr>)],
     dr_upgraded = []\<rparr>"

definition sample_direct :: dp_state where
  "sample_direct = (dp_new None [] False [])\<lparr>tunnels := [(7, (sample_entry 2 1 8 7)\<lparr>e_node := [5]\<rparr>)]\<rparr>"

theorem relay_as_direct_witness:
  "map_option (\<lambda>(out, st'). (concat (map (as_relay [1]) out),
       map_option (\<lambda>e. (e_tun e, e_tcp e)) (map_of (tunnels st') (get32le 4 ([4, 0, 0, 0, 7, 0, 0, 0] @ replicate 40 0)))))
     (handle_wg_transport sample_dp_env sample_me ([4, 0, 0, 0, 7, 0, 0, 0] @ replicate 40 0) (V4 [9, 9, 9, 9] 9) ([], sample_direct))
   = map_option (\<lambda>(out, ds'). (out, map_option (\<lambda>p. (dr_tun p, dr_tcp p)) (map_of (dr_peers ds') [1])))
     (derp_transport sample_dp_env sample_me [1] ([4, 0, 0, 0, 7, 0, 0, 0] @ replicate 40 0) ([], sample_behind))"
proof -
  have "get32le 4 ([4, 0, 0, 0, 7, 0, 0, 0] @ replicate 40 0) = 7"
    by (simp add: get32le_def of_le32_def of_be32_def nth_append)
  moreover have "[5] \<noteq> replicate 32 (0 :: u8)" by (auto dest: arg_cong [where f = length])
  ultimately show ?thesis
    by (intro relay_as_direct [where e = "(sample_entry 2 1 8 7)\<lparr>e_node := [5]\<rparr>"
        and p = "\<lparr>dr_tun = e_tun (sample_entry 2 1 8 7), dr_last_ms = 0, dr_tcp = server_new\<rparr>"])
      (simp_all add: sample_direct_def sample_behind_def dp_new_def sample_entry_def)
qed

end
