(* ===== verification/Device.thy ===== *)
theory Device
  imports Eval ControlConn
begin

text \<open>
  The capabilities of the device: \<open>src/net.rs\<close> (the only way a program reaches the network),
  \<open>src/display.rs\<close>, \<open>src/actuator.rs\<close>, the command queue of \<open>src/ui.rs\<close> and the job counters
  of \<open>src/jobcount.rs\<close>. The functions of ESP-IDF are a record of parameters on a state of their
  own; the constants of \<open>config.rs\<close>, which the user writes, are parameters too.
\<close>

section \<open>The world of a program\<close>

text \<open>
  The state of \<open>src/device_llm.rs\<close>: the flag and the last text under the lock, the prompts on
  the channel, and whether the worker that reads them was started.
\<close>

record gen_state =
  g_running :: bool
  g_result :: "string option"
  g_queue :: "string list"
  g_worker :: bool

datatype ui_command =
  UiLedOn | UiLedOff | UiLedColor u8 u8 u8 | UiLedFlash | UiBacklightOn | UiBacklightOff | UiFlash
| UiText string | UiDefaultScreen | UiStatus string string bool

text \<open>
  \<open>w_esp\<close> is the state outside, \<open>w_ui\<close> what was sent to the screen thread, \<open>w_timers\<close> the
  threads that will send \<open>DefaultScreen\<close>, with their delay in seconds, and \<open>w_opened\<close> the URLs
  \<open>esp_http_client_open\<close> was called with.
\<close>

record 'h world =
  w_esp :: 'h
  w_ui :: "ui_command list"
  w_revert :: u32
  w_timers :: "u32 list"
  w_jobs :: "int list"
  w_opened :: "string list"
  w_gen :: gen_state

text \<open>
  \<open>esp_read n\<close> gives the bytes \<open>esp_http_client_read\<close> put into a buffer of \<open>n\<close> bytes, none
  when it returned zero or an error.
\<close>

record 'h esp =
  fetch_allow_hosts :: "string list"
  display_allow :: bool
  display_revert_seconds :: u32
  esp_client_init :: "string \<Rightarrow> 'h \<Rightarrow> bool \<times> 'h"
  esp_client_open :: "'h \<Rightarrow> bool \<times> 'h"
  esp_read :: "nat \<Rightarrow> 'h \<Rightarrow> bytes \<times> 'h"
  esp_cleanup :: "'h \<Rightarrow> 'h"
  esp_timer :: "'h \<Rightarrow> int \<times> 'h"
  esp_free_heap :: "'h \<Rightarrow> u32 \<times> 'h"
  esp_min_heap :: "'h \<Rightarrow> u32 \<times> 'h"
  esp_largest_block :: "'h \<Rightarrow> u32 \<times> 'h"

section \<open>Network\<close>

definition MAX_BUFFER :: nat where "MAX_BUFFER = 16 * 1024"
definition CHUNK :: nat where "CHUNK = 512"

definition ends_with :: "string \<Rightarrow> string \<Rightarrow> bool" where
  "ends_with s suffix \<longleftrightarrow> length suffix \<le> length s \<and> drop (length s - length suffix) s = suffix"

text \<open>The second piece of a split, or the whole text when there is only one.\<close>

definition after_scheme :: "string \<Rightarrow> string" where
  "after_scheme url = (case find_bytes url ''://'' of
     None \<Rightarrow> url
   | Some i \<Rightarrow> (let rest = drop (i + 3) url in
       case find_bytes rest ''://'' of None \<Rightarrow> rest | Some j \<Rightarrow> take j rest))"

definition fetch_host :: "string \<Rightarrow> string" where
  "fetch_host url = takeWhile (\<lambda>c. c \<noteq> CHR ''/'' \<and> c \<noteq> CHR '':'') (after_scheme url)"

definition host_allowed :: "string list \<Rightarrow> string \<Rightarrow> bool" where
  "host_allowed hosts host \<longleftrightarrow> list_ex (\<lambda>h. host = h \<or> ends_with host (CHR ''.'' # h)) hosts"

definition check_allowed :: "'h esp \<Rightarrow> string \<Rightarrow> dsl_error + unit" where
  "check_allowed dev url =
     (if host_allowed (fetch_allow_hosts dev) (fetch_host url) then Inr ()
      else Inl (NetErr (''host `'' @ fetch_host url @ ''` not in allowlist'')))"

text \<open>
  The read loop. Both closures the device gives it append the block to a buffer and stop once
  the buffer is over its bound, so the loop ends.
\<close>

function read_blocks :: "'h esp \<Rightarrow> (bytes \<Rightarrow> bool) \<Rightarrow> bytes \<Rightarrow> 'h \<Rightarrow> bytes \<times> 'h" where
  "read_blocks dev stop acc h =
     (case esp_read dev CHUNK h of (got, h) \<Rightarrow>
        if take CHUNK got = [] then (acc, h)
        else let acc = acc @ take CHUNK got in
          if stop acc \<or> length acc > MAX_BUFFER then (acc, h) else read_blocks dev stop acc h)"
  by pat_completeness auto
termination
  by (relation "measure (\<lambda>(dev, stop, acc, h). Suc MAX_BUFFER - length acc)")
     (auto simp: CHUNK_def intro!: diff_less_mono2)

declare read_blocks.simps [simp del]

text \<open>The permit that bounds the sessions to one at a time changes no result and is left out.\<close>

definition stream :: "'h esp \<Rightarrow> string \<Rightarrow> (bytes \<Rightarrow> bool) \<Rightarrow> 'h world \<Rightarrow> (dsl_error + bytes) \<times> 'h world" where
  "stream dev url stop w = (case check_allowed dev url of
     Inl e \<Rightarrow> (Inl e, w)
   | Inr _ \<Rightarrow>
       if CHR 0x00 \<in> set url then (Inl (NetErr ''bad url''), w)
       else
        (case esp_client_init dev url (w_esp w) of (up, h) \<Rightarrow>
           if \<not> up then (Inl (NetErr ''http client init failed''), w\<lparr>w_esp := h\<rparr>)
           else
            (case esp_client_open dev h of (conn, h) \<Rightarrow>
               let w = w\<lparr>w_opened := w_opened w @ [url]\<rparr> in
               if \<not> conn then (Inl (NetErr ''connect failed''), w\<lparr>w_esp := esp_cleanup dev h\<rparr>)
               else (case read_blocks dev stop [] h of (acc, h) \<Rightarrow>
                       (Inr acc, w\<lparr>w_esp := esp_cleanup dev h\<rparr>)))))"

definition device_fetch :: "'h esp \<Rightarrow> string \<Rightarrow> 'h world \<Rightarrow> (dsl_error + string) \<times> 'h world" where
  "device_fetch dev url w = (case stream dev url (\<lambda>acc. False) w of
     (Inl e, w) \<Rightarrow> (Inl e, w)
   | (Inr got, w) \<Rightarrow>
       if length got > MAX_BUFFER then (Inl (NetErr ''response too large for fetch()''), w)
       else (Inr (from_utf8_lossy (to_text got)), w))"

definition device_fetch_extract ::
  "'h esp \<Rightarrow> string \<Rightarrow> (string \<Rightarrow> val option) \<Rightarrow> 'h world \<Rightarrow> (dsl_error + val) \<times> 'h world"
where
  "device_fetch_extract dev url probe w = (case stream dev url (\<lambda>acc. probe (to_text acc) \<noteq> None) w of
     (Inl e, w) \<Rightarrow> (Inl e, w)
   | (Inr acc, w) \<Rightarrow> (case (if acc = [] then None else probe (to_text acc)) of
         Some v \<Rightarrow> (Inr v, w)
       | None \<Rightarrow> (Inl (NetErr (if length acc > MAX_BUFFER then ''field not found within buffer cap''
                               else ''field not found in response'')), w)))"

definition device_net :: "'h esp \<Rightarrow> 'h world net" where
  "device_net dev = \<lparr>net_fetch = device_fetch dev, net_fetch_extract = device_fetch_extract dev\<rparr>"

section \<open>Screen and light\<close>

definition ui_send :: "ui_command \<Rightarrow> 'h world \<Rightarrow> 'h world" where
  "ui_send cmd w = w\<lparr>w_ui := w_ui w @ [cmd]\<rparr>"

definition revert_seconds :: "'h esp \<Rightarrow> 'h world \<Rightarrow> u32" where
  "revert_seconds dev w = (if w_revert w = - 1 then display_revert_seconds dev else w_revert w)"

definition set_revert_seconds :: "u32 \<Rightarrow> 'h world \<Rightarrow> 'h world" where
  "set_revert_seconds secs w = w\<lparr>w_revert := secs\<rparr>"

definition device_show :: "'h esp \<Rightarrow> 'h world display" where
  "device_show dev txt w =
     (if \<not> display_allow dev then (Inl (DisplayErr ''display disabled in config''), w)
      else
       (let w = ui_send (UiText txt) w; revert = revert_seconds dev w
        in (Inr (), if revert > 0 then w\<lparr>w_timers := w_timers w @ [revert]\<rparr> else w)))"

definition device_actuator :: "'h world actuator" where
  "device_actuator =
     \<lparr>act_led = (\<lambda>on color w. (Inr (), ui_send
        (if \<not> on then UiLedOff else case color of Some (r, g, b) \<Rightarrow> UiLedColor r g b | None \<Rightarrow> UiLedOn) w)),
      act_flash = (\<lambda>w. (Inr (), ui_send UiLedFlash w))\<rparr>"

definition dispatch_tcp :: "tcp_action \<Rightarrow> 'h world \<Rightarrow> 'h world" where
  "dispatch_tcp a = ui_send (case a of
     LedOn \<Rightarrow> UiLedOn | LedOff \<Rightarrow> UiLedOff | ScreenOn \<Rightarrow> UiBacklightOn | ScreenOff \<Rightarrow> UiBacklightOff
   | Flash_action \<Rightarrow> UiFlash | Default_action \<Rightarrow> UiDefaultScreen | Text s \<Rightarrow> UiText s)"

section \<open>Job counters\<close>

text \<open>Times are microseconds since boot, which stay far below the range of \<open>i64\<close>.\<close>

definition CAP :: nat where "CAP = 1024"
definition WIN_60MIN_US :: int where "WIN_60MIN_US = 3600000000"

definition record_job :: "int \<Rightarrow> int list \<Rightarrow> int list" where
  "record_job now q =
     (let q = dropWhile (\<lambda>t. t < now - WIN_60MIN_US) (q @ [now])
      in drop (length q - CAP) q)"

definition job_counts :: "int \<Rightarrow> int list \<Rightarrow> nat \<times> nat \<times> nat \<times> nat" where
  "job_counts now q =
     (let within = (\<lambda>d. length (filter (\<lambda>t. now - t \<le> d) q))
      in (within 10000000, within 60000000, within 600000000, within WIN_60MIN_US))"

end
