(* ===== verification/Web.thy ===== *)
theory Web
  imports Device TcpServer Parser
begin

text \<open>
  \<open>src/pyspell_web.rs\<close>: the routes the in-tunnel server hands to its handler, among them
  \<open>/run\<close>, which runs the program of a request on the device, and \<open>/mcp\<close>, and what they use of
  \<open>src/device_llm.rs\<close> and \<open>src/model_host.rs\<close>. A call returns its text and the new world;
  \<open>None\<close> is a panic. The page and the runtime of the browser are assets, the JSON library a
  record of functions.
\<close>

section \<open>Running a program\<close>

definition MAX_CODE :: nat where "MAX_CODE = 1024"
definition MEM_MARGIN :: u32 where "MEM_MARGIN = 40 * 1024"

fun web_show :: "val \<Rightarrow> string" where
  "web_show (VInt n) = show_i64 n"
| "web_show (VFloat x) = show_f64 x"
| "web_show (VBool b) = (if b then ''true'' else ''false'')"
| "web_show (VStr s) = s"
| "web_show (VList l) = ''['' @ join '', '' (map web_show l) @ '']''"

definition sat_add32 :: "u32 \<Rightarrow> u32 \<Rightarrow> u32" where
  "sat_add32 a b = (if unat a + unat b < 2 ^ 32 then a + b else - 1)"

definition clamp :: "int \<Rightarrow> int \<Rightarrow> int \<Rightarrow> int" where
  "clamp lo hi x = max lo (min hi x)"

definition device_env :: "'h esp \<Rightarrow> 'h \<Rightarrow> vec_env \<times> 'h" where
  "device_env dev h =
     (let (free, h) = esp_free_heap dev h; (min_free, h) = esp_min_heap dev h; (uptime_us, h) = esp_timer dev h;
          num = (\<lambda>i. VInt (word_of_int i))
      in (vec_env_set (vec_env_set (vec_env_set (vec_env_set vec_env_new
            ''free_heap'' (num (uint free))) ''min_free_heap'' (num (uint min_free)))
            ''uptime_ms'' (num (uptime_us div 1000))) ''uptime_s'' (num (uptime_us div 1000000)), h))"

definition late :: "'h esp \<Rightarrow> int \<Rightarrow> int \<Rightarrow> 'h world \<Rightarrow> bool \<times> 'h world" where
  "late dev start budget w = (case esp_timer dev (w_esp w) of (now, h) \<Rightarrow> (now - start > budget, w\<lparr>w_esp := h\<rparr>))"

definition job_limits :: "'h esp \<Rightarrow> int \<Rightarrow> int \<Rightarrow> u32 \<Rightarrow> 'h world limits" where
  "job_limits dev start timeout_s max_bytes =
     \<lparr>lim_max_steps = 2000000, lim_max_bytes = max_bytes,
      lim_deadline = Some (late dev start (clamp 1 60 timeout_s * 1000000)),
      lim_net = Some (device_net dev), lim_display = Some (device_show dev),
      lim_actuator = Some device_actuator\<rparr>"

definition record_done :: "'h esp \<Rightarrow> 'h world \<Rightarrow> 'h world" where
  "record_done dev w = (case esp_timer dev (w_esp w) of (now, h) \<Rightarrow>
     w\<lparr>w_esp := h, w_jobs := record_job now (w_jobs w)\<rparr>)"

definition low_memory :: "u32 \<Rightarrow> u32 \<Rightarrow> string" where
  "low_memory max_bytes free = ''error: insufficient memory: job budget '' @ show_nat (unat max_bytes)
     @ '' B + ~'' @ show_nat (unat MEM_MARGIN) @ '' B overhead > '' @ show_nat (unat free)
     @ '' B free (lower mem= or retry)''"

definition run_job ::
  "'h esp \<Rightarrow> target \<Rightarrow> program \<Rightarrow> int \<Rightarrow> u32 \<Rightarrow> 'h world \<Rightarrow> string option \<times> 'h world"
where
  "run_job dev t p timeout_s max_bytes w =
     (let (start, h) = esp_timer dev (w_esp w);
          (env, h) = device_env dev h;
          (r, f) = run_with t p (vec_env_reader env) (job_limits dev start timeout_s max_bytes) (w\<lparr>w_esp := h\<rparr>)
      in case r of
           Ok v \<Rightarrow> (Some (web_show v), record_done dev (f_world f))
         | Err e \<Rightarrow> (Some (''error: '' @ show_error e), record_done dev (f_world f))
         | Panic \<Rightarrow> (None, f_world f))"

text \<open>The parser of the model has fuel, which never runs out.\<close>

definition show_parse_error :: "perr \<Rightarrow> string" where
  "show_parse_error e = (case e of Dsl d \<Rightarrow> show_error d | OutOfFuel \<Rightarrow> [])"

definition eval_program ::
  "'h esp \<Rightarrow> target \<Rightarrow> string \<Rightarrow> lang \<Rightarrow> int \<Rightarrow> int \<Rightarrow> 'h world \<Rightarrow> string option \<times> 'h world"
where
  "eval_program dev t code l timeout_s max_bytes_req w =
     (if code = [] then (Some ''error: empty program'', w)
      else if length code > MAX_CODE then (Some ''error: program too long'', w)
      else
       (let max_bytes = (word_of_int (clamp 1024 262144 max_bytes_req) :: u32);
            (free, h) = esp_free_heap dev (w_esp w); w = w\<lparr>w_esp := h\<rparr>
        in if free < sat_add32 max_bytes MEM_MARGIN then (Some (low_memory max_bytes free), w)
           else case parse t code l of
             Ok p \<Rightarrow> run_job dev t p timeout_s max_bytes w
           | Err e \<Rightarrow> (Some (''error: '' @ show_parse_error e), w)
           | Panic \<Rightarrow> (None, w)))"

definition lang_of :: "string \<Rightarrow> lang" where
  "lang_of s = (if s = ''rs'' \<or> s = ''rust'' then Rust else Python)"

definition int_or :: "int \<Rightarrow> string \<Rightarrow> int" where
  "int_or d s = (case parse_i64 s of Some n \<Rightarrow> sint n | None \<Rightarrow> d)"

definition is_post :: "string \<Rightarrow> bool" where
  "is_post http_method \<longleftrightarrow> to_ascii_lowercase http_method = ''post''"

definition web_run ::
  "'h esp \<Rightarrow> target \<Rightarrow> string \<Rightarrow> string \<Rightarrow> bytes \<Rightarrow> 'h world \<Rightarrow> string option \<times> 'h world"
where
  "web_run dev t http_method query bdy w =
     (let l = lang_of (query_get query ''lang'');
          timeout_s = int_or 10 (query_get query ''timeout'');
          max_bytes = int_or 16384 (query_get query ''mem'');
          w = (case parse_unsigned (2 ^ 32 - 1) (query_get query ''revert'') of
                 Some revert \<Rightarrow> set_revert_seconds (word_of_int revert) w | None \<Rightarrow> w);
          code = (if is_post http_method then trim (from_utf8_lossy (to_text bdy))
                  else url_decode (query_get query ''code''))
      in eval_program dev t code l timeout_s max_bytes w)"

section \<open>The model on the device\<close>

definition MIN_FREE_HEAP :: u32 where "MIN_FREE_HEAP = 50 * 1024"

definition dash :: string where "dash = [CHR 0xE2, CHR 0x80, CHR 0x94]"

definition gen_busy :: string where
  "gen_busy = ''busy: a generation is already running '' @ dash @ '' GET /generate''"

definition gen_low :: "u32 \<Rightarrow> u32 \<Rightarrow> string" where
  "gen_low free largest = ''low memory: free '' @ show_nat (unat free) @ '' B, largest block ''
     @ show_nat (unat largest) @ '' B (need ~'' @ show_nat (unat MIN_FREE_HEAP) @ '' + ''
     @ [CHR 0xE2, CHR 0x89, CHR 0xA5] @ ''18 kB block) '' @ dash
     @ '' try again when idle (Tailscale/a fetch is using the heap)''"

definition gen_started :: string where
  "gen_started = ''started '' @ dash @ '' GET /generate for the result (on-device, ~seconds)''"

text \<open>\<open>start\<close> takes the lock three times; here nothing else runs in between.\<close>

definition llm_start :: "'h esp \<Rightarrow> string \<Rightarrow> 'h world \<Rightarrow> string \<times> 'h world" where
  "llm_start dev prompt w =
     (let (free, h) = esp_free_heap dev (w_esp w); (largest, h) = esp_largest_block dev h;
          w = w\<lparr>w_esp := h\<rparr>; g = w_gen w
      in if g_running g then (gen_busy, w)
         else if free < MIN_FREE_HEAP \<or> largest < 18 * 1024 then (gen_low free largest, w)
         else if \<not> g_worker g then (''error: generation worker is gone'', w\<lparr>w_gen := g\<lparr>g_running := False\<rparr>\<rparr>)
         else (gen_started, w\<lparr>w_gen := g\<lparr>g_running := True, g_queue := g_queue g @ [prompt]\<rparr>\<rparr>))"

definition llm_poll :: "'h world \<Rightarrow> string \<times> 'h world" where
  "llm_poll w =
     (let g = w_gen w in
      if g_running g then (''generating on-device'' @ [CHR 0xE2, CHR 0x80, CHR 0xA6], w)
      else case g_result g of
        Some r \<Rightarrow> (r, w\<lparr>w_gen := g\<lparr>g_result := None\<rparr>\<rparr>)
      | None \<Rightarrow> (''idle '' @ dash @ '' POST a prompt to /generate to run the model on the chip'', w))"

section \<open>The JSON-RPC server\<close>

record 'j serde =
  js_parse :: "bytes \<Rightarrow> 'j option"
  js_null :: 'j
  js_is_null :: "'j \<Rightarrow> bool"
  js_get :: "'j \<Rightarrow> string \<Rightarrow> 'j option"
  js_as_str :: "'j \<Rightarrow> string option"
  js_as_i64 :: "'j \<Rightarrow> int option"
  js_str :: "string \<Rightarrow> 'j"
  js_int :: "int \<Rightarrow> 'j"
  js_bool :: "bool \<Rightarrow> 'j"
  js_obj :: "(string \<times> 'j) list \<Rightarrow> 'j"
  js_arr :: "'j list \<Rightarrow> 'j"
  js_print :: "'j \<Rightarrow> string"

definition jsonrpc_ok :: "'j serde \<Rightarrow> 'j \<Rightarrow> 'j \<Rightarrow> string" where
  "jsonrpc_ok J i r = js_print J (js_obj J [(''jsonrpc'', js_str J ''2.0''), (''id'', i), (''result'', r)])"

definition jsonrpc_err :: "'j serde \<Rightarrow> 'j \<Rightarrow> int \<Rightarrow> string \<Rightarrow> string" where
  "jsonrpc_err J i code message = js_print J (js_obj J [(''jsonrpc'', js_str J ''2.0''), (''id'', i),
     (''error'', js_obj J [(''code'', js_int J code), (''message'', js_str J message)])])"

definition get_str :: "'j serde \<Rightarrow> 'j option \<Rightarrow> string \<Rightarrow> string option" where
  "get_str J v key = Option.bind (Option.bind v (\<lambda>o'. js_get J o' key)) (js_as_str J)"

definition get_i64 :: "'j serde \<Rightarrow> 'j option \<Rightarrow> string \<Rightarrow> int option" where
  "get_i64 J v key = Option.bind (Option.bind v (\<lambda>o'. js_get J o' key)) (js_as_i64 J)"

definition or_else :: "'a \<Rightarrow> 'a option \<Rightarrow> 'a" where
  "or_else d x = (case x of Some v \<Rightarrow> v | None \<Rightarrow> d)"

definition mcp_initialize :: "'j serde \<Rightarrow> 'j \<Rightarrow> 'j" where
  "mcp_initialize J req = js_obj J
     [(''protocolVersion'', js_str J (or_else ''2024-11-05'' (get_str J (js_get J req ''params'') ''protocolVersion''))),
      (''capabilities'', js_obj J [(''tools'', js_obj J [])]),
      (''serverInfo'', js_obj J [(''name'', js_str J ''pyspell-esp32''), (''version'', js_str J ''0.1.0'')])]"

definition q :: string where "q = [CHR 0x22]"

definition mcp_tools :: "'j serde \<Rightarrow> 'j" where
  "mcp_tools J =
     (let field = (\<lambda>ty d. js_obj J [(''type'', js_str J ty), (''description'', js_str J d)])
      in js_obj J [(''tools'', js_arr J [js_obj J
       [(''name'', js_str J ''run_pyspell''),
        (''description'', js_str J (''Compile and run a sandboxed PySpell program (a Python/Rust expression subset) live on this ESP32, ''
           @ ''against live device state. Returns the evaluated value as text. Allowed: arithmetic, comparisons, bool, ternary, ''
           @ ''lists, strings, builtins (len,abs,min,max,sum,round,int,float,str), fetch_json(url,'' @ q @ ''a.b.0.c'' @ q
           @ ''), json_get, and free vars like free_heap, uptime_s. Not allowed: def, loops, imports, assignment.'')),
        (''inputSchema'', js_obj J
           [(''type'', js_str J ''object''),
            (''properties'', js_obj J
               [(''code'', field ''string'' ''PySpell program: let-bindings + one expression, e.g. free_heap > 100000''),
                (''lang'', js_obj J [(''type'', js_str J ''string''), (''enum'', js_arr J [js_str J ''py'', js_str J ''rs'']),
                   (''description'', js_str J ''Syntax, default py'')]),
                (''timeout'', field ''integer'' ''Wall-clock seconds 1-60, default 10''),
                (''mem'', field ''integer'' ''Per-job memory budget in bytes (1024-262144, default 16384). Rejected up front if the device lacks free heap.'')]),
            (''required'', js_arr J [js_str J ''code''])])]])])"

definition mcp_call ::
  "'j serde \<Rightarrow> 'h esp \<Rightarrow> target \<Rightarrow> 'j \<Rightarrow> 'j \<Rightarrow> 'h world \<Rightarrow> string option \<times> 'h world"
where
  "mcp_call J dev t i req w =
     (let params = js_get J req ''params'' in
      if or_else [] (get_str J params ''name'') \<noteq> ''run_pyspell'' then (Some (jsonrpc_err J i (- 32602) ''unknown tool''), w)
      else
       (let args = Option.bind params (\<lambda>p. js_get J p ''arguments'');
            code = or_else [] (get_str J args ''code'');
            l = lang_of (or_else [] (get_str J args ''lang''));
            timeout = or_else 10 (get_i64 J args ''timeout'');
            mem = or_else 16384 (get_i64 J args ''mem'');
            (result, w) = eval_program dev t code l timeout mem w
        in (map_option (\<lambda>r. jsonrpc_ok J i (js_obj J
              [(''content'', js_arr J [js_obj J [(''type'', js_str J ''text''), (''text'', js_str J r)]]),
               (''isError'', js_bool J (take 6 r = ''error:''))])) result, w)))"

definition mcp_handle ::
  "'j serde \<Rightarrow> 'h esp \<Rightarrow> target \<Rightarrow> bytes \<Rightarrow> 'h world \<Rightarrow> string option \<times> 'h world"
where
  "mcp_handle J dev t bdy w = (case js_parse J bdy of
     None \<Rightarrow> (Some (jsonrpc_err J (js_null J) (- 32700) ''parse error''), w)
   | Some req \<Rightarrow>
      (let i = or_else (js_null J) (js_get J req ''id''); m = or_else [] (get_str J (Some req) ''method'') in
       if m = ''initialize'' then (Some (jsonrpc_ok J i (mcp_initialize J req)), w)
       else if m = ''tools/list'' then (Some (jsonrpc_ok J i (mcp_tools J)), w)
       else if m = ''tools/call'' then mcp_call J dev t i req w
       else if js_is_null J i then (Some [], w)
       else (Some (jsonrpc_err J i (- 32601) ''method not found''), w)))"

section \<open>The routes\<close>

text \<open>What is built into the image, and the blobs of the model partition, if one is flashed.\<close>

record assets =
  as_page :: bytes
  as_wasm_js :: bytes
  as_wasm_bg :: bytes
  as_model :: "body_source option"
  as_tokenizer :: "body_source option"
  as_wordmeta :: "body_source option"
  as_embeddings :: "body_source option"

definition CACHE :: string where "CACHE = ''public, max-age=604800''"

definition hosted :: "string \<Rightarrow> body_source option \<Rightarrow> http_reply option" where
  "hosted content_type src = map_option (\<lambda>s. \<lparr>rp_status = 200, rp_content_type = content_type,
     rp_source = s, rp_cache_control = Some CACHE\<rparr>) src"

definition web_generate :: "'h esp \<Rightarrow> string \<Rightarrow> bytes \<Rightarrow> 'h world \<Rightarrow> string \<times> 'h world" where
  "web_generate dev http_method bdy w =
     (if is_post http_method then
       (let prompt = trim (from_utf8_lossy (to_text bdy)) in
        if prompt = [] then (''error: empty prompt'', w) else llm_start dev prompt w)
      else llm_poll w)"

text \<open>\<open>None\<close> is a panic, \<open>Some None\<close> leaves the path to the control panel.\<close>

definition web_route ::
  "assets \<Rightarrow> 'j serde \<Rightarrow> 'h esp \<Rightarrow> target \<Rightarrow> string \<Rightarrow> string \<Rightarrow> string \<Rightarrow> bytes \<Rightarrow> 'h world
     \<Rightarrow> http_reply option option \<times> 'h world"
where
  "web_route A J dev t http_method path query bdy w =
     (let plain = ''text/plain; charset=utf-8''; octets = ''application/octet-stream'';
          reply = (\<lambda>ct (r, w). (map_option (\<lambda>s. Some (ok_owned ct (of_text s))) r, w)) in
      if path = ''/'' then (Some (Some (ok_static ''text/html; charset=utf-8'' (as_page A))), w)
      else if path = ''/run'' then reply plain (web_run dev t http_method query bdy w)
      else if path = ''/generate'' then
        (case web_generate dev http_method bdy w of (out, w) \<Rightarrow> (Some (Some (ok_owned plain (of_text out))), w))
      else if path = ''/mcp'' then reply ''application/json'' (mcp_handle J dev t bdy w)
      else if path = ''/model'' then (Some (hosted octets (as_model A)), w)
      else if path = ''/tokenizer'' then (Some (hosted octets (as_tokenizer A)), w)
      else if path = ''/tinyllm_wasm.js'' then
        (Some (Some (cached CACHE (ok_static ''text/javascript; charset=utf-8'' (as_wasm_js A)))), w)
      else if path = ''/tinyllm_wasm_bg.wasm'' then
        (Some (Some (cached CACHE (ok_static ''application/wasm'' (as_wasm_bg A)))), w)
      else if path = ''/wordmeta'' then (Some (hosted ''application/json'' (as_wordmeta A)), w)
      else if path = ''/embeddings'' then (Some (hosted octets (as_embeddings A)), w)
      else (Some None, w))"

end
