(* ===== verification/EvalWorld.thy ===== *)
theory EvalWorld
  imports EvalSafe
begin

text \<open>
  What a program may do outside: a property of the world that every installed capability keeps
  is kept by the program.
\<close>

definition caps_keep :: "('w \<Rightarrow> bool) \<Rightarrow> 'w frame \<Rightarrow> bool" where
  "caps_keep I f \<longleftrightarrow> (\<forall>x w. I w \<longrightarrow> I (snd (f_env f x w)))
     \<and> (\<forall>d w. f_deadline f = Some d \<longrightarrow> I w \<longrightarrow> I (snd (d w)))
     \<and> (\<forall>n. f_net f = Some n \<longrightarrow> (\<forall>u w. I w \<longrightarrow> I (snd (net_fetch n u w)))
          \<and> (\<forall>u p w. I w \<longrightarrow> I (snd (net_fetch_extract n u p w))))
     \<and> (\<forall>d s w. f_display f = Some d \<longrightarrow> I w \<longrightarrow> I (snd (d s w)))
     \<and> (\<forall>a. f_actuator f = Some a \<longrightarrow> (\<forall>b c w. I w \<longrightarrow> I (snd (act_led a b c w)))
          \<and> (\<forall>w. I w \<longrightarrow> I (snd (act_flash a w))))"

definition world_keeps :: "('w \<Rightarrow> bool) \<Rightarrow> 'w frame \<Rightarrow> 'w frame \<Rightarrow> bool" where
  "world_keeps I f g \<longleftrightarrow> (caps_keep I f \<and> I (f_world f) \<longrightarrow> caps_keep I g \<and> I (f_world g))"

lemma caps_keep_frame [simp]:
  "caps_keep I (f\<lparr>f_world := w\<rparr>) = caps_keep I f" "caps_keep I (f\<lparr>f_budget := b\<rparr>) = caps_keep I f"
  "caps_keep I (f\<lparr>f_mem := m\<rparr>) = caps_keep I f" "caps_keep I (f\<lparr>f_since_check := c\<rparr>) = caps_keep I f"
  "caps_keep I (f\<lparr>f_locals := l\<rparr>) = caps_keep I f"
  by (simp_all add: caps_keep_def)

lemma caps_keepD:
  assumes "caps_keep I f" "I w"
  shows "I (snd (f_env f x w))" "f_deadline f = Some d \<Longrightarrow> I (snd (d w))"
    "f_net f = Some n \<Longrightarrow> I (snd (net_fetch n u w))" "f_net f = Some n \<Longrightarrow> I (snd (net_fetch_extract n u p w))"
    "f_display f = Some e \<Longrightarrow> I (snd (e s w))" "f_actuator f = Some a \<Longrightarrow> I (snd (act_led a b c w))"
    "f_actuator f = Some a \<Longrightarrow> I (snd (act_flash a w))"
  using assms by (simp_all add: caps_keep_def)

lemma keeps_show: "caps_keep I f \<Longrightarrow> I w \<Longrightarrow> I (snd (bi_show (f_display f) vals w))"
  using caps_keepD(5) [of I f w] by (auto simp: bi_show_def split: list.split option.split prod.split sum.split) (metis snd_conv)+

lemma keeps_led: "caps_keep I f \<Longrightarrow> I w \<Longrightarrow> I (snd (bi_led (f_actuator f) vals w))"
  using caps_keepD(6) [of I f w]
  by (auto simp: bi_led_def split: list.split option.split prod.split sum.split outcome.split) (metis snd_conv)+

lemma keeps_flash: "caps_keep I f \<Longrightarrow> I w \<Longrightarrow> I (snd (bi_flash (f_actuator f) vals w))"
  using caps_keepD(7) [of I f w] by (auto simp: bi_flash_def split: list.split option.split prod.split sum.split)

lemma keeps_builtin:
  assumes "caps_keep I f" "I w"
  shows "I (snd (apply_builtin t b vals (f_display f) (f_actuator f) w))"
  using assms keeps_show keeps_led keeps_flash by (cases b) (simp_all add: apply_builtin_def)

interpretation world: frame_relation_lets t "world_keeps I" for t and I :: "'w \<Rightarrow> bool"
proof (unfold_locales, goal_cases)
  case (3 f)
  show ?case using caps_keepD(2) [of I f]
    by (auto simp: world_keeps_def tick_def Let_def split: option.split prod.split) (force+)
next
  case (5 f name)
  show ?case using caps_keepD(1) [of I f "f_world f" name]
    by (auto simp: world_keeps_def read_env_def split_beta)
next
  case (6 b f vals)
  show ?case using keeps_builtin [of I f "f_world f" t b vals]
    by (auto simp: world_keeps_def run_builtin_def split_beta)
next
  case (7 f url)
  show ?case using caps_keepD(3) [of I f "f_world f" _ url]
    by (auto simp: world_keeps_def do_fetch_def split_beta split: option.split)
next
  case (8 f url path)
  show ?case using caps_keepD(4) [of I f "f_world f" _ url]
    by (auto simp: world_keeps_def do_fetch_json_def split_beta split: option.split)
qed (auto simp: world_keeps_def charge_def write_local_def Let_def)

lemma run_keeps_world:
  assumes "caps_keep I (init_frame p env lim w)" "I w"
  shows "I (f_world (snd (run_with t p env lim w)))"
  using world.R_body [of I "init_frame p env lim w" t p] assms
  by (simp add: run_with_def world_keeps_def init_frame_def)

end
