(* ===== verification/Exchange.thy ===== *)
theory Exchange
  imports TcpProps
begin

text \<open>
  The TCP client of \<open>outbound.rs\<close> against the TCP server of \<open>tcp.rs\<close>: a whole exchange over
  a path that loses nothing, from the SYN to the FIN, and the client's reading of the
  server's pieces over one that does.
\<close>

section \<open>The client reads the pieces\<close>

lemma last_flags [simp]:
  "(PSH OR ACK OR FIN) AND FIN \<noteq> 0" "(PSH OR ACK OR FIN) AND SYN = 0"
  by (simp_all add: tcp_flags)

text \<open>An acknowledgement of the client, and its FIN.\<close>

definition ack_of :: "tcp_client \<Rightarrow> bytes \<Rightarrow> bool" where
  "ack_of d p \<longleftrightarrow> (\<exists>sq ack. p = tcp_packet (c_src d) (c_dst d) (c_sport d) (c_dport d) sq ack ACK [])"

lemma client_segment_eq:
  "client_segment c flags payload = tcp_packet (c_src c) (c_dst c) (c_sport c) (c_dport c) (c_snd_nxt c)
     (c_rcv_nxt c) flags payload"
  by (simp add: client_segment_def tcp_packet_def)

lemma client_run_answers:
  assumes "length (c_src d) = 4" "length (c_dst d) = 4" "c_established d" "\<not> c_done d"
    and "our_ip cn = c_dst d" "client_ip cn = c_src d" "client_port cn = c_sport d"
    and "c_rcv_nxt d = iss cn + 1 + word_of_nat k" "k < length w"
  shows "\<exists>acks sq ack. list_all (ack_of d) acks
    \<and> fst (client_run (map (piece_packet cn w) (pieces k (length w))) d)
      = acks @ [tcp_packet (c_src d) (c_dst d) (c_sport d) (c_dport d) sq ack (FIN OR ACK) []]"
  using assms
proof (induction k "length w" arbitrary: d rule: pieces.induct)
  case (1 k)
  define n where "n = min (length w - k) MSS"
  define x where "x = take n (drop k w)"
  define f where "f = (if k + n = length w then PSH OR ACK OR FIN else PSH OR ACK)"
  have n: "0 < n" "k + n \<le> length w" "n \<le> 512" using 1(10) by (auto simp: n_def MSS_def)
  have x: "length x = n" "x \<noteq> []" using n by (auto simp: x_def)
  have pk: "on_inner (piece_packet cn w (k, n)) d = client_segment_in (c_rcv_nxt d) f x d"
    using 1(2-10) n x by (simp add: piece_packet_def on_inner_packet f_def flip: x_def)
  have pc: "pieces k (length w) = (k, n) # pieces (k + n) (length w)"
    using 1(10) by (simp add: pieces.simps [of k] Let_def n_def)
  obtain o1 d1 where o1: "client_data (c_rcv_nxt d) x d = (o1, d1)" by force
  have d1: "c_src d1 = c_src d" "c_dst d1 = c_dst d" "c_sport d1 = c_sport d" "c_dport d1 = c_dport d"
      "c_established d1" "\<not> c_done d1" "c_rcv_nxt d1 = iss cn + 1 + word_of_nat (k + n)" "o1 = [client_segment d1 ACK []]"
    using 1(2-10) x o1 by (auto simp: client_data_def Let_def)
  have a: "ack_of d1 = ack_of d" "ack_of d (client_segment d1 ACK [])"
    by (auto simp: fun_eq_iff ack_of_def d1(1-4) client_segment_eq)
  show ?case
  proof (cases "k + n < length w")
    case True
    then have "on_inner (piece_packet cn w (k, n)) d = (o1, d1)"
      by (simp add: pk f_def client_segment_in_def client_fin_def o1)
    moreover obtain acks sq ack where "list_all (ack_of d) acks"
      "fst (client_run (map (piece_packet cn w) (pieces (k + n) (length w))) d1)
        = acks @ [tcp_packet (c_src d) (c_dst d) (c_sport d) (c_dport d) sq ack (FIN OR ACK) []]"
      using 1(1) [OF 1(10) n_def _ _ _ _ _ _ _ d1(7) True] 1(2-10) d1 a by auto
    ultimately show ?thesis
      using a d1(8) by (intro exI [of _ "client_segment d1 ACK [] # acks"]) (auto simp: pc split_beta)
  next
    case False
    then have kn: "k + n = length w" using n by simp
    then have "on_inner (piece_packet cn w (k, n)) d = (o1 @ fst (client_fin f d1), snd (client_fin f d1))" "f AND FIN \<noteq> 0"
      by (simp_all add: pk f_def client_segment_in_def o1 split_beta)
    moreover have "pieces (length w) (length w) = []" by (simp add: pieces.simps)
    moreover define d2 where "d2 = d1\<lparr>c_rcv_nxt := c_rcv_nxt d1 + 1\<rparr>"
    moreover have "ack_of d (client_segment d2 ACK [])" by (auto simp: ack_of_def d2_def d1(1-4) client_segment_eq)
    moreover have "client_segment d2 (FIN OR ACK) [] = tcp_packet (c_src d) (c_dst d) (c_sport d) (c_dport d)
        (c_snd_nxt d2) (c_rcv_nxt d2) (FIN OR ACK) []"
      by (simp add: client_segment_eq d2_def d1(1-4))
    ultimately show ?thesis using kn a d1(8)
      by (intro exI [of _ "[client_segment d1 ACK [], client_segment d2 ACK []]"]) (auto simp: pc client_fin_def Let_def)
  qed
qed

lemma client_run_pieces:
  assumes "length (c_src d) = 4" "length (c_dst d) = 4" "c_established d" "\<not> c_done d"
    and "our_ip cn = c_dst d" "client_ip cn = c_src d" "client_port cn = c_sport d"
    and "c_rcv_nxt d = iss cn + 1 + word_of_nat k" "k < length w"
  shows "c_response (snd (client_run (map (piece_packet cn w) (pieces k (length w))) d)) = c_response d @ drop k w
       \<and> c_done (snd (client_run (map (piece_packet cn w) (pieces k (length w))) d))"
  using assms
proof (induction k "length w" arbitrary: d rule: pieces.induct)
  case (1 k)
  define n where "n = min (length w - k) MSS"
  define x where "x = take n (drop k w)"
  define f where "f = (if k + n = length w then PSH OR ACK OR FIN else PSH OR ACK)"
  have n: "0 < n" "k + n \<le> length w" "n \<le> 512" using 1(10) by (auto simp: n_def MSS_def)
  have x: "length x = n" "x \<noteq> []" using n by (auto simp: x_def)
  have pk: "on_inner (piece_packet cn w (k, n)) d = client_segment_in (c_rcv_nxt d) f x d"
    using 1(2-10) n x by (simp add: piece_packet_def on_inner_packet f_def flip: x_def)
  have pc: "pieces k (length w) = (k, n) # pieces (k + n) (length w)"
    using 1(10) by (simp add: pieces.simps [of k] Let_def n_def)
  define d1 where "d1 = snd (client_data (c_rcv_nxt d) x d)"
  have d1: "c_src d1 = c_src d" "c_dst d1 = c_dst d" "c_sport d1 = c_sport d" "c_established d1" "\<not> c_done d1"
      "c_rcv_nxt d1 = iss cn + 1 + word_of_nat (k + n)" "c_response d1 = c_response d @ x"
    using 1(2-10) x by (simp_all add: d1_def client_data_def Let_def)
  have dr: "drop k w = x @ drop (k + n) w" by (simp add: x_def) (metis append_take_drop_id drop_drop add.commute)
  show ?case
  proof (cases "k + n < length w")
    case True
    then have "snd (on_inner (piece_packet cn w (k, n)) d) = d1"
      by (simp add: pk f_def client_segment_in_def client_fin_def d1_def split_beta)
    with 1(1) [OF 1(10) n_def _ _ _ _ _ _ _ d1(6) True] 1(2-10) d1 dr show ?thesis
      by (simp add: pc split_beta)
  next
    case False
    then have "k + n = length w" using n by simp
    then have "snd (on_inner (piece_packet cn w (k, n)) d) = snd (client_fin f d1)" "f AND FIN \<noteq> 0"
      by (simp_all add: pk f_def client_segment_in_def d1_def split_beta)
    moreover have "pieces (length w) (length w) = []" by (simp add: pieces.simps)
    ultimately show ?thesis using \<open>k + n = length w\<close> d1(7) dr
      by (simp add: pc split_beta client_fin_def Let_def)
  qed
qed

section \<open>What the server makes of the client's packets\<close>

lemma srv_parse_packet:
  assumes "length src = 4" "length dst = 4" "40 + length payload < 65536"
  shows "srv_parse (tcp_packet src dst sport HTTP_PORT sq ack flags payload) =
    Some \<lparr>in_src_ip = src, in_dst_ip = dst, in_sport = sport, in_seq = sq, in_ack = ack, in_flags = flags,
          in_win = 64240, in_payload = payload\<rparr>"
  using tcp_packet_fields [OF assms, of sport HTTP_PORT sq ack flags]
    tcp_segment_fields [of src dst sport HTTP_PORT sq ack flags payload]
  by (simp add: srv_parse_def Let_def)

text \<open>The connection after the SYN, after the acknowledgement, and with a request staged.\<close>

definition opened :: "u32 \<Rightarrow> bytes \<Rightarrow> bytes \<Rightarrow> u16 \<Rightarrow> u32 \<Rightarrow> conn" where
  "opened rand client ours port sq = default_conn\<lparr>active := True, client_ip := client, our_ip := ours,
     client_port := port, rcv_nxt := sq + 1, iss := rand, snd_una := rand, snd_nxt := rand + 1,
     peer_win := 64240, rto_ms := RTO_BASE_MS, opened_ms := 0\<rparr>"

definition acknowledged :: "conn \<Rightarrow> conn" where
  "acknowledged c = c\<lparr>snd_una := iss c + 1\<rparr>"

lemma handle_syn:
  assumes "length src = 4" "length dst = 4"
  shows "handle t rand (tcp_packet src dst sport HTTP_PORT sq ack SYN []) s =
    Some ([tcp_packet dst src HTTP_PORT sport rand (sq + 1) (SYN OR ACK) []],
          s\<lparr>sv_conn := opened rand src dst sport sq\<rparr>)"
  using assms
  by (simp add: handle_def process_def srv_parse_packet accept_syn_def Let_def srv_segment_eq opened_def
      default_conn_def)

lemma process_ack_opened:
  assumes "in_flags p AND ACK \<noteq> 0" "in_ack p = rand + 1" "in_win p = 64240"
  shows "process_ack p (opened rand src dst sport sq) = acknowledged (opened rand src dst sport sq)"
    "process_ack p (acknowledged (opened rand src dst sport sq)) = acknowledged (opened rand src dst sport sq)"
  using assms
  by (simp_all add: process_ack_def Let_def seq_lt_def opened_def acknowledged_def default_conn_def)

lemma handle_ack:
  assumes "length src = 4" "length dst = 4"
  shows "handle t r (tcp_packet src dst sport HTTP_PORT (sq + 1) (rand + 1) ACK []) (s\<lparr>sv_conn := opened rand src dst sport sq\<rparr>)
    = Some ([], s\<lparr>sv_conn := acknowledged (opened rand src dst sport sq)\<rparr>)"
proof -
  have a: "active (opened rand src dst sport sq)" "client_ip (opened rand src dst sport sq) = src"
    "client_port (opened rand src dst sport sq) = sport" "resp (acknowledged (opened rand src dst sport sq)) = None"
    by (simp_all add: opened_def acknowledged_def default_conn_def)
  have "ACK AND SYN = 0" "ACK AND RST = 0" "ACK AND FIN = 0" "ACK AND ACK \<noteq> 0" by (simp_all add: tcp_flags)
  then show ?thesis
    using assms a
    by (simp add: handle_def process_def srv_parse_packet process_segment_def Let_def process_ack_opened
        pump_server_def pump_none)
qed

definition requested :: "u32 \<Rightarrow> bytes \<Rightarrow> bytes \<Rightarrow> u16 \<Rightarrow> u32 \<Rightarrow> bytes \<Rightarrow> resp_state \<Rightarrow> conn" where
  "requested rand client ours port sq request r =
     (acknowledged (opened rand client ours port sq))
       \<lparr>rcv_nxt := sq + 1 + word_of_nat (length request), resp := Some r\<rparr>"

lemma route_request_cong:
  "sv_handler s = sv_handler s' \<Longrightarrow> our_ip (sv_conn s) = our_ip (sv_conn s') \<Longrightarrow>
   fst (route_request req s) = fst (route_request req s')"
  by (simp add: route_request_def Let_def split_beta split: option.split)

lemma requested_ok:
  assumes "length src = 4" "length dst = 4" "resp_ok file r"
  shows "conn_ok file (requested rand src dst sport sq request r)"
  using assms by (simp add: conn_ok_def conn_seq_def dist_def requested_def acknowledged_def opened_def default_conn_def)

lemma pump_requested:
  fixes src dst request :: bytes and rand sq :: u32 and sport :: u16
  assumes "length src = 4" "length dst = 4" "resp_ok file r" "0 < total_len r" "2 ^ 31 \<le> window"
  defines "c \<equiv> requested rand src dst sport sq request r"
  shows "pump now window c = Some (map (piece_packet c (wire file r)) (pieces 0 (total_len r)), pumped now (total_len r) r c)"
proof -
  have ok: "conn_ok file c" using assms requested_ok by (simp add: c_def)
  have d: "dist c (snd_una c) = 1" "dist c (snd_nxt c) = 1"
    by (simp_all add: dist_def c_def requested_def acknowledged_def opened_def)
  have r: "resp c = Some r" by (simp add: c_def requested_def)
  have "send_edge window r c = total_len r"
    using assms(3,5) by (simp add: send_edge_def d resp_ok_def)
  with pump_result [OF ok r, of now window] assms(4) show ?thesis by (simp add: d)
qed

text \<open>The response a server stages for a request of a connection.\<close>

definition staged :: "target \<Rightarrow> bytes \<Rightarrow> conn \<Rightarrow> tcp_server \<Rightarrow> resp_state" where
  "staged t request c s = response_for t request (fst (route_request request (s\<lparr>sv_conn := c\<rparr>)))"

lemma staged_ok:
  assumes "routes_ok file s"
  shows "resp_ok file (staged t request c s)"
proof -
  have "routes_ok file (s\<lparr>sv_conn := c\<rparr>)" using assms by (simp add: routes_ok_def)
  then show "resp_ok file (staged t request c s)"
    by (simp add: staged_def response_for_ok route_request_ok)
qed

lemma staged_pos: "0 < total_len (staged t request c s)"
proof -
  have "0 < length (render_headers t st ct b n m cc)" for st ct b n m cc
    by (simp add: render_headers_def Let_def crlf_def)
  then show ?thesis by (simp add: staged_def response_for_def Let_def split: prod.split)
qed

lemma handle_request:
  fixes src dst request :: bytes and rand sq :: u32 and sport :: u16
  assumes "length src = 4" "length dst = 4" "request \<noteq> []" "40 + length request < 65536"
    and "resp_ok file (staged t request (opened rand src dst sport sq) s)" "2 ^ 31 \<le> usize_max t"
  defines "c \<equiv> opened rand src dst sport sq"
  defines "r \<equiv> staged t request c s"
  shows "\<exists>s'. handle t x (tcp_packet src dst sport HTTP_PORT (sq + 1) (rand + 1) (PSH OR ACK) request)
        (s\<lparr>sv_conn := acknowledged c\<rparr>)
    = Some (map (piece_packet (requested rand src dst sport sq request r) (wire file r)) (pieces 0 (length (wire file r))), s')
    \<and> sv_conn s' = pumped 0 (total_len r) r (requested rand src dst sport sq request r)"
proof -
  define p where "p = \<lparr>in_src_ip = src, in_dst_ip = dst, in_sport = sport, in_seq = sq + 1, in_ack = rand + 1,
      in_flags = PSH OR ACK, in_win = 64240, in_payload = request\<rparr>"
  define s2 where "s2 = s\<lparr>sv_conn := (acknowledged c)\<lparr>rcv_nxt := sq + 1 + word_of_nat (length request)\<rparr>\<rparr>"
  define q where "q = requested rand src dst sport sq request r"
  have ok: "resp_ok file r" "0 < total_len r" using assms(5) staged_pos by (simp_all add: r_def c_def)
  have fl: "(PSH OR ACK) AND SYN = 0" "(PSH OR ACK) AND RST = 0" "(PSH OR ACK) AND ACK \<noteq> 0"
    by (simp_all add: tcp_flags)
  have a: "active (acknowledged c)" "client_ip (acknowledged c) = src" "client_port (acknowledged c) = sport"
    "resp (acknowledged c) = None"
    by (simp_all add: c_def opened_def acknowledged_def default_conn_def)
  have pa: "process_ack p (acknowledged c) = acknowledged c"
    unfolding c_def by (rule process_ack_opened(2)) (simp_all add: p_def fl)
  have "sv_handler s2 = sv_handler (s\<lparr>sv_conn := c\<rparr>)" "our_ip (sv_conn s2) = our_ip (sv_conn (s\<lparr>sv_conn := c\<rparr>))"
    by (simp_all add: s2_def acknowledged_def)
  from route_request_cong [OF this] have "fst (route_request request s2) = fst (route_request request (s\<lparr>sv_conn := c\<rparr>))" .
  then have br: "sv_conn (build_response t request s2) = q"
    by (simp add: build_response_resp s2_def q_def requested_def r_def staged_def c_def)
  have "process_segment t 0 True p (s\<lparr>sv_conn := acknowledged c\<rparr>)
      = pump_server 0 (usize_max t) (build_response t request s2)"
    by (simp add: process_segment_def Let_def pa process_window_def a assms(3) s2_def p_def)
       (simp add: p_def [symmetric] pa a assms(3))
  also have "\<dots> = Some (map (piece_packet q (wire file r)) (pieces 0 (total_len r)),
      (build_response t request s2)\<lparr>sv_conn := pumped 0 (total_len r) r q\<rparr>)"
    using pump_requested [OF assms(1,2) ok assms(6), of 0 rand sport sq request]
    by (simp add: pump_server_def br flip: q_def)
  finally have "process_segment t 0 True p (s\<lparr>sv_conn := acknowledged c\<rparr>)
      = Some (map (piece_packet q (wire file r)) (pieces 0 (length (wire file r))),
              (build_response t request s2)\<lparr>sv_conn := pumped 0 (total_len r) r q\<rparr>)"
    using ok by (simp add: length_wire)
  moreover have "in_flags p = PSH OR ACK" "in_src_ip p = src" "in_sport p = sport" by (simp_all add: p_def)
  ultimately show ?thesis
    using assms(1,2,4) a fl by (simp add: handle_def process_def srv_parse_packet flip: p_def q_def)
qed

section \<open>The exchange\<close>

text \<open>
  Each side is fed the packets of the other: the SYN, the SYN-ACK, the acknowledgement with
  the request, and the pieces of the response.
\<close>

fun handle_all :: "target \<Rightarrow> u32 \<Rightarrow> bytes list \<Rightarrow> tcp_server \<Rightarrow> (bytes list \<times> tcp_server) option" where
  "handle_all t x [] s = Some ([], s)"
| "handle_all t x (p # ps) s = Option.bind (handle t x p s) (\<lambda>(o1, s1).
     Option.bind (handle_all t x ps s1) (\<lambda>(o2, s2). Some (o1 @ o2, s2)))"

definition exchange ::
  "target \<Rightarrow> u32 \<Rightarrow> u32 \<Rightarrow> bytes \<Rightarrow> bytes \<Rightarrow> u16 \<Rightarrow> bytes \<Rightarrow> tcp_server \<Rightarrow> tcp_client option"
where
  "exchange t xc xs src dst sport request s =
     (let (syn, c) = client_open (client_new xc src dst sport HTTP_PORT request) in
      Option.bind (handle t xs syn s) (\<lambda>(o1, s1).
      let (o2, c) = client_run o1 c in
      Option.bind (handle_all t xs o2 s1) (\<lambda>(o3, s2).
      Some (snd (client_run o3 c)))))"

text \<open>The exchange, for a server whose staged response is well formed.\<close>

lemma exchange_staged:
  fixes src dst request :: bytes and xc xs :: u32 and sport :: u16
  assumes "length src = 4" "length dst = 4" "request \<noteq> []" "40 + length request < 65536"
    and "2 ^ 31 \<le> usize_max t"
  defines "sq \<equiv> c_snd_nxt (client_new xc src dst sport HTTP_PORT request)"
  assumes staged: "resp_ok file (staged t request (opened xs src dst sport sq) s)"
  shows "\<exists>c. exchange t xc xs src dst sport request s = Some c \<and> c_done c
       \<and> c_response c = wire file (staged t request (opened xs src dst sport sq) s)"
proof -
  define c0 where "c0 = client_new xc src dst sport HTTP_PORT request"
  define c1 where "c1 = c0\<lparr>c_snd_nxt := sq + 1\<rparr>"
  define r where "r = staged t request (opened xs src dst sport sq) s"
  define w where "w = wire file r"
  define o1 where "o1 = tcp_packet dst src HTTP_PORT sport xs (sq + 1) (SYN OR ACK) []"
  define c2 where "c2 = c1\<lparr>c_rcv_nxt := xs + 1, c_established := True, c_snd_nxt := sq + 1 + word_of_nat (length request)\<rparr>"
  define a where "a = tcp_packet src dst sport HTTP_PORT (sq + 1) (xs + 1) ACK []"
  define q where "q = tcp_packet src dst sport HTTP_PORT (sq + 1) (xs + 1) (PSH OR ACK) request"
  have f: "c_src c0 = src" "c_dst c0 = dst" "c_sport c0 = sport" "c_dport c0 = HTTP_PORT" "c_snd_nxt c0 = sq"
    "c_request c0 = request" "c_response c0 = []" "\<not> c_done c0" "\<not> c_established c0" "c_rcv_nxt c0 = 0"
    by (simp_all add: c0_def client_new_def Let_def sq_def)
  have opn: "client_open c0 = (tcp_packet src dst sport HTTP_PORT sq 0 SYN [], c1)"
    by (simp add: client_open_def client_segment_eq f c1_def)
  have run1: "client_run [o1] c1 = ([a, q], c2)"
    using assms(1,2)
    by (simp add: o1_def on_inner_packet c1_def f client_segment_in_def Let_def split_beta a_def q_def c2_def
        client_segment_eq)
  obtain s' where rq: "handle t xs q (s\<lparr>sv_conn := acknowledged (opened xs src dst sport sq)\<rparr>)
      = Some (map (piece_packet (requested xs src dst sport sq request r) w) (pieces 0 (length w)), s')"
    using handle_request [OF assms(1-4) staged assms(5), of xs] by (auto simp: q_def r_def w_def)
  have ha: "handle_all t xs [a, q] (s\<lparr>sv_conn := opened xs src dst sport sq\<rparr>)
      = Some (map (piece_packet (requested xs src dst sport sq request r) w) (pieces 0 (length w)), s')"
    using handle_ack [OF assms(1,2), of t xs sport sq xs s] rq by (simp add: a_def)
  have ex: "exchange t xc xs src dst sport request s
      = Some (snd (client_run (map (piece_packet (requested xs src dst sport sq request r) w) (pieces 0 (length w))) c2))"
    using handle_syn [OF assms(1,2), of t xs sport sq 0 s] run1 ha
    by (simp add: exchange_def opn [unfolded c0_def] o1_def [symmetric] split_beta)
  have "0 < length w" using staged staged_pos by (simp add: w_def r_def length_wire)
  then have "c_response (snd (client_run (map (piece_packet (requested xs src dst sport sq request r) w)
        (pieces 0 (length w))) c2)) = c_response c2 @ drop 0 w
     \<and> c_done (snd (client_run (map (piece_packet (requested xs src dst sport sq request r) w) (pieces 0 (length w))) c2))"
    by (intro client_run_pieces)
       (simp_all add: c2_def c1_def f assms requested_def acknowledged_def opened_def)
  then show ?thesis using ex by (simp add: c2_def c1_def f w_def r_def)
qed

text \<open>
  The whole of it: the server is fed what the client answers to the pieces, its acknowledgements and
  its FIN, and the client what the server answers to these. The result is the last packets of the client,
  and the two sides.
\<close>

definition full_exchange ::
  "target \<Rightarrow> u32 \<Rightarrow> u32 \<Rightarrow> bytes \<Rightarrow> bytes \<Rightarrow> u16 \<Rightarrow> bytes \<Rightarrow> tcp_server \<Rightarrow> (bytes list \<times> tcp_client \<times> tcp_server) option"
where
  "full_exchange t xc xs src dst sport request s =
     (let (syn, c) = client_open (client_new xc src dst sport HTTP_PORT request) in
      Option.bind (handle t xs syn s) (\<lambda>(o1, s).
      let (o2, c) = client_run o1 c in
      Option.bind (handle_all t xs o2 s) (\<lambda>(o3, s).
      let (o4, c) = client_run o3 c in
      Option.bind (handle_all t xs o4 s) (\<lambda>(o5, s).
      let (o6, c) = client_run o5 c in Some (o6, c, s)))))"

text \<open>A connection with everything sent, of which less and less is unacknowledged.\<close>

definition finishing :: "bytes \<Rightarrow> bytes \<Rightarrow> bytes \<Rightarrow> u16 \<Rightarrow> nat \<Rightarrow> tcp_server \<Rightarrow> bool" where
  "finishing file client ours port len s \<longleftrightarrow> conn_ok file (sv_conn s) \<and> active (sv_conn s)
     \<and> client_ip (sv_conn s) = client \<and> our_ip (sv_conn s) = ours \<and> client_port (sv_conn s) = port
     \<and> len < dist (sv_conn s) (snd_nxt (sv_conn s)) \<and> resp_total (sv_conn s) \<le> len"

lemma handle_late_ack:
  assumes "length src = 4" "length dst = 4" "finishing file src dst sport m s"
  shows "\<exists>s'. handle t x (tcp_packet src dst sport HTTP_PORT sq ack ACK []) s = Some ([], s') \<and> finishing file src dst sport m s'"
proof -
  define p where "p = \<lparr>in_src_ip = src, in_dst_ip = dst, in_sport = sport, in_seq = sq, in_ack = ack,
      in_flags = ACK, in_win = 64240, in_payload = []\<rparr>"
  define c where "c = process_ack p (sv_conn s)"
  have ok: "conn_ok file c" using assms(3) process_ack_ok by (simp add: c_def finishing_def)
  have d: "dist c y = dist (sv_conn s) y" for y by (simp add: c_def dist_def)
  have tot: "resp_total c \<le> m"
    using assms(3) process_ack_resp [of p "sv_conn s"] by (auto simp: c_def finishing_def resp_total_def)
  have f: "finishing file src dst sport m (s\<lparr>sv_conn := c\<rparr>)"
    using assms(3) ok tot by (simp add: finishing_def d) (simp add: c_def)
  have "pump 0 window c = Some ([], c)" for window
  proof (cases "resp c")
    case (Some r)
    have "send_edge window r c \<le> total_len r" by (simp add: send_edge_def)
    moreover have "total_len r < dist c (snd_nxt c)" using tot f Some by (simp add: finishing_def resp_total_def)
    ultimately have "\<not> dist c (snd_nxt c) - 1 < send_edge window r c" by linarith
    then show ?thesis using pump_result [OF ok Some, of 0 window] by simp
  qed (rule pump_none)
  moreover have "ACK AND SYN = 0" "ACK AND RST = 0" "ACK AND FIN = 0" by (simp_all add: tcp_flags)
  ultimately have "handle t x (tcp_packet src dst sport HTTP_PORT sq ack ACK []) s = Some ([], s\<lparr>sv_conn := c\<rparr>)"
    using assms by (simp add: handle_def process_def srv_parse_packet process_segment_def Let_def pump_server_def
        finishing_def p_def c_def)
  with f show ?thesis by blast
qed

lemma handle_late_fin:
  assumes "length src = 4" "length dst = 4" "finishing file src dst sport m s"
  shows "\<exists>out. handle t x (tcp_packet src dst sport HTTP_PORT sq ack (FIN OR ACK) []) s = Some (out, s\<lparr>sv_conn := default_conn\<rparr>)"
proof -
  have "(FIN OR ACK) AND SYN = 0" "(FIN OR ACK) AND RST = 0" "(FIN OR ACK) AND FIN \<noteq> 0" by (simp_all add: tcp_flags)
  then show ?thesis
    using assms by (simp add: handle_def process_def srv_parse_packet process_segment_def Let_def finishing_def)
qed

lemma handle_all_late:
  assumes "length (c_src d) = 4" "length (c_dst d) = 4" "c_dport d = HTTP_PORT"
  shows "list_all (ack_of d) acks \<Longrightarrow> finishing file (c_src d) (c_dst d) (c_sport d) m s \<Longrightarrow>
    \<exists>out s'. handle_all t x (acks @ [tcp_packet (c_src d) (c_dst d) (c_sport d) HTTP_PORT sq ack (FIN OR ACK) []]) s
      = Some (out, s') \<and> sv_conn s' = default_conn"
proof (induction acks arbitrary: s)
  case Nil
  then show ?case using handle_late_fin [OF assms(1,2) Nil(2), of t x sq ack] by auto
next
  case (Cons p ps)
  then obtain sq' ack' where "p = tcp_packet (c_src d) (c_dst d) (c_sport d) HTTP_PORT sq' ack' ACK []"
    using assms(3) by (auto simp: ack_of_def)
  with handle_late_ack [OF assms(1,2) Cons.prems(2), of t x sq' ack'] Cons show ?case by fastforce
qed

lemma client_run_done: "c_done c \<Longrightarrow> client_run ps c = ([], c)"
  by (induction ps) (simp_all add: on_inner_def)

lemma pumped_finishing:
  assumes "length src = 4" "length dst = 4" "resp_ok file r" "0 < total_len r"
    and "sv_conn s = pumped 0 (total_len r) r (requested rand src dst sport sq request r)"
  shows "finishing file src dst sport (total_len r) s"
proof -
  define c where "c = requested rand src dst sport sq request r"
  have ok: "conn_ok file c" "resp c = Some r" using requested_ok [OF assms(1-3)] by (simp_all add: c_def requested_def)
  have "dist c (snd_nxt c) = 1" by (simp add: c_def dist_def requested_def acknowledged_def opened_def)
  then have lt: "dist c (snd_nxt c) - 1 < total_len r" using assms(4) by simp
  have p: "sv_conn s = pumped 0 (total_len r) r c" using assms(5) by (simp add: c_def)
  have i: "dist (pumped 0 (total_len r) r c) y = dist c y" for y by (simp add: dist_def pumped_def)
  from pumped_ok [OF ok lt order_refl, of 0] show ?thesis
    by (simp add: finishing_def p i) (simp add: pumped_def resp_total_def c_def requested_def acknowledged_def opened_def)
qed

lemma full_exchange_staged:
  fixes src dst request :: bytes and xc xs :: u32 and sport :: u16
  assumes "length src = 4" "length dst = 4" "request \<noteq> []" "40 + length request < 65536"
    and "2 ^ 31 \<le> usize_max t"
  defines "sq \<equiv> c_snd_nxt (client_new xc src dst sport HTTP_PORT request)"
  assumes staged: "resp_ok file (staged t request (opened xs src dst sport sq) s)"
  shows "\<exists>c s'. full_exchange t xc xs src dst sport request s = Some ([], c, s') \<and> c_done c
       \<and> c_response c = wire file (staged t request (opened xs src dst sport sq) s) \<and> sv_conn s' = default_conn"
proof -
  define c0 where "c0 = client_new xc src dst sport HTTP_PORT request"
  define c1 where "c1 = c0\<lparr>c_snd_nxt := sq + 1\<rparr>"
  define r where "r = staged t request (opened xs src dst sport sq) s"
  define w where "w = wire file r"
  define o1 where "o1 = tcp_packet dst src HTTP_PORT sport xs (sq + 1) (SYN OR ACK) []"
  define c2 where "c2 = c1\<lparr>c_rcv_nxt := xs + 1, c_established := True, c_snd_nxt := sq + 1 + word_of_nat (length request)\<rparr>"
  define a where "a = tcp_packet src dst sport HTTP_PORT (sq + 1) (xs + 1) ACK []"
  define q where "q = tcp_packet src dst sport HTTP_PORT (sq + 1) (xs + 1) (PSH OR ACK) request"
  define ps where "ps = map (piece_packet (requested xs src dst sport sq request r) w) (pieces 0 (length w))"
  have f: "c_src c0 = src" "c_dst c0 = dst" "c_sport c0 = sport" "c_dport c0 = HTTP_PORT" "c_snd_nxt c0 = sq"
    "c_request c0 = request" "c_response c0 = []" "\<not> c_done c0" "\<not> c_established c0" "c_rcv_nxt c0 = 0"
    by (simp_all add: c0_def client_new_def Let_def sq_def)
  have f2: "c_src c2 = src" "c_dst c2 = dst" "c_sport c2 = sport" "c_dport c2 = HTTP_PORT" "c_response c2 = []"
    by (simp_all add: c2_def c1_def f)
  have opn: "client_open c0 = (tcp_packet src dst sport HTTP_PORT sq 0 SYN [], c1)"
    by (simp add: client_open_def client_segment_eq f c1_def)
  have run1: "client_run [o1] c1 = ([a, q], c2)"
    using assms(1,2)
    by (simp add: o1_def on_inner_packet c1_def f client_segment_in_def Let_def split_beta a_def q_def c2_def
        client_segment_eq)
  have rok: "resp_ok file r" "0 < total_len r" using staged staged_pos by (simp_all add: r_def)
  obtain s2 where rq: "handle t xs q (s\<lparr>sv_conn := acknowledged (opened xs src dst sport sq)\<rparr>) = Some (ps, s2)"
      "sv_conn s2 = pumped 0 (total_len r) r (requested xs src dst sport sq request r)"
    using handle_request [OF assms(1-4) staged assms(5), of xs] by (auto simp: q_def r_def w_def ps_def)
  have ha: "handle_all t xs [a, q] (s\<lparr>sv_conn := opened xs src dst sport sq\<rparr>) = Some (ps, s2)"
    using handle_ack [OF assms(1,2), of t xs sport sq xs s] rq by (simp add: a_def)
  have w: "0 < length w" using rok by (simp add: w_def length_wire)
  have side: "length (c_src c2) = 4" "length (c_dst c2) = 4" "c_established c2" "\<not> c_done c2"
      "our_ip (requested xs src dst sport sq request r) = c_dst c2" "client_ip (requested xs src dst sport sq request r) = c_src c2"
      "client_port (requested xs src dst sport sq request r) = c_sport c2"
      "c_rcv_nxt c2 = iss (requested xs src dst sport sq request r) + 1 + word_of_nat 0"
    by (simp_all add: c2_def c1_def f assms requested_def acknowledged_def opened_def)
  obtain o4 c3 where run2: "client_run ps c2 = (o4, c3)" by force
  have c3: "c_response c3 = w" "c_done c3"
    using client_run_pieces [OF side w] run2 by (simp_all add: ps_def f2)
  obtain acks sq' ack where o4: "list_all (ack_of c2) acks" "o4 = acks @ [tcp_packet src dst sport HTTP_PORT sq' ack (FIN OR ACK) []]"
    using client_run_answers [OF side w] run2 by (auto simp: ps_def f2)
  have fin: "finishing file (c_src c2) (c_dst c2) (c_sport c2) (total_len r) s2"
    using pumped_finishing [OF assms(1,2) rok rq(2)] by (simp add: f2)
  obtain o5 s3 where h3: "handle_all t xs o4 s2 = Some (o5, s3)" "sv_conn s3 = default_conn"
    using handle_all_late [OF side(1,2) f2(4) o4(1) fin, of t xs sq' ack] by (auto simp: o4(2) f2)
  have "full_exchange t xc xs src dst sport request s = Some ([], c3, s3)"
    using handle_syn [OF assms(1,2), of t xs sport sq 0 s] run1 ha run2 h3(1) client_run_done [OF c3(2)]
    by (simp add: full_exchange_def opn [unfolded c0_def] o1_def [symmetric])
  with c3 h3(2) show ?thesis by (simp add: w_def r_def)
qed

text \<open>
  C9: a whole exchange. A client opens a connection to a server, over a path that delivers
  every packet in order, and sends a request that fits a segment; the server's routes give well-formed
  replies of less than 100 MB. The client ends with the transfer complete and with exactly the response
  the server has staged for that request, headers and body; the server, which has been fed all the
  acknowledgements and the FIN of the client, ends with the connection closed and ready for the next
  one; and neither side has anything left to say.
\<close>

theorem exchange_delivers:
  fixes src dst request :: bytes and xc xs :: u32 and sport :: u16
  assumes "length src = 4" "length dst = 4" "request \<noteq> []" "40 + length request < 65536"
    and "routes_ok file s" "2 ^ 31 \<le> usize_max t"
  defines "sq \<equiv> c_snd_nxt (client_new xc src dst sport HTTP_PORT request)"
  shows "\<exists>c s'. full_exchange t xc xs src dst sport request s = Some ([], c, s') \<and> c_done c
       \<and> c_response c = wire file (staged t request (opened xs src dst sport sq) s) \<and> sv_conn s' = default_conn"
  unfolding sq_def by (rule full_exchange_staged [OF assms(1-4,6) staged_ok [OF assms(5)]])

theorem exchange_delivers_witness:
  "\<exists>c s'. full_exchange host_target 5 7 [10, 0, 0, 1] [10, 0, 0, 2] 40000 [71] server_new = Some ([], c, s') \<and> c_done c
     \<and> sv_conn s' = default_conn"
  using exchange_delivers [of "[10, 0, 0, 1]" "[10, 0, 0, 2]" "[71]" "[]" server_new host_target 5 7 40000]
  by (auto simp: routes_ok_def server_new_def usize_max_def)

section \<open>Over a path that loses and reorders\<close>

lemma piece_packet_sends:
  assumes "length (our_ip cn) = 4" "length (client_ip cn) = 4" "k + n \<le> length w" "n \<le> MSS"
  shows "sends_pieces w (iss cn) (piece_packet cn w (k, n))"
proof -
  have "40 + length (take n (drop k w)) < 65536" using assms(4) by (simp add: MSS_def)
  with assms show ?thesis
    by (auto simp: piece_packet_def sends_pieces_def client_parse_packet piece_of_def min_def intro!: exI [of _ k])
qed

text \<open>
  Whichever pieces of a response arrive, lost, repeated or out of order, and whatever
  window the server cut them for, the client that has read the start of the response still
  has: what it stores is never out of order and never another response.
\<close>

theorem pieces_read_in_order:
  assumes "length (our_ip cn) = 4" "length (client_ip cn) = 4" "length w < 2 ^ 32"
    and "list_all (\<lambda>(k, n). k + n \<le> length w \<and> n \<le> MSS) arrived"
    and "reads_prefix w (iss cn) c"
  shows "reads_prefix w (iss cn) (snd (client_run (map (piece_packet cn w) arrived) c))"
proof -
  have "list_all (sends_pieces w (iss cn)) (map (piece_packet cn w) arrived)"
    using assms(4) piece_packet_sends [OF assms(1,2)] by (auto simp: list_all_iff)
  with assms(3,5) show ?thesis by (intro client_run_reads)
qed

theorem pieces_read_in_order_witness:
  "reads_prefix [1, 2, 3] 1000 (snd (client_run
     (map (piece_packet (default_conn\<lparr>iss := 1000\<rparr>) [1, 2, 3]) [(1, 2), (0, 1), (1, 2)]) sample_client))"
  using pieces_read_in_order [of "default_conn\<lparr>iss := 1000\<rparr>" "[1, 2, 3]" "[(1, 2), (0, 1), (1, 2)]" sample_client]
  by (simp add: default_conn_def reads_prefix_def MSS_def)

end
