(* ===== verification/WebProps.thy ===== *)
theory WebProps
  imports Web EvalWorld Exchange ParserFacts
begin

text \<open>
  The properties of the web routes: what a request can and cannot make the device do, and a
  program that runs over the tunnel.
\<close>

section \<open>What is fetched\<close>

text \<open>
  The host of a URL as RFC 3986 reads it: the authority is what stands between \<open>://\<close> and the
  first slash, question mark or hash, and the host is the authority without a user part and a
  port. A plain URL has a scheme, no user part, no bracketed address, and an authority that ends
  with a slash or with the URL.
\<close>

definition url_rest :: "string \<Rightarrow> string" where
  "url_rest u = drop 3 (dropWhile (\<lambda>c. c \<noteq> CHR '':'') u)"

definition ends_authority :: "char \<Rightarrow> bool" where
  "ends_authority c \<longleftrightarrow> c = CHR ''/'' \<or> c = CHR ''?'' \<or> c = CHR ''#''"

definition url_authority :: "string \<Rightarrow> string" where
  "url_authority u = takeWhile (\<lambda>c. \<not> ends_authority c) (url_rest u)"

definition url_host :: "string \<Rightarrow> string" where
  "url_host u = takeWhile (\<lambda>c. c \<noteq> CHR '':'') (rev (takeWhile (\<lambda>c. c \<noteq> CHR ''@'') (rev (url_authority u))))"

definition plain_url :: "string \<Rightarrow> bool" where
  "plain_url u \<longleftrightarrow> take 3 (dropWhile (\<lambda>c. c \<noteq> CHR '':'') u) = ''://''
     \<and> CHR ''@'' \<notin> set (url_authority u) \<and> CHR ''['' \<notin> set (url_authority u)
     \<and> (case drop (length (url_authority u)) (url_rest u) of [] \<Rightarrow> True | c # _ \<Rightarrow> c = CHR ''/'')"

text \<open>A host the configuration names, or one below it.\<close>

definition listed_host :: "string list \<Rightarrow> string \<Rightarrow> bool" where
  "listed_host hosts h \<longleftrightarrow> list_ex (\<lambda>a. h = a \<or> (\<exists>sub. h = sub @ CHR ''.'' # a)) hosts"

lemma listed_host_iff: "listed_host hosts h \<longleftrightarrow> host_allowed hosts h"
proof -
  have "(\<exists>sub. h = sub @ CHR ''.'' # a) \<longleftrightarrow> ends_with h (CHR ''.'' # a)" for a
  proof
    assume "ends_with h (CHR ''.'' # a)"
    then have "h = take (length h - length (CHR ''.'' # a)) h @ CHR ''.'' # a"
      by (metis append_take_drop_id ends_with_def)
    then show "\<exists>sub. h = sub @ CHR ''.'' # a" by blast
  qed (auto simp: ends_with_def)
  then show ?thesis by (simp add: listed_host_def host_allowed_def)
qed

lemma find_scheme:
  "take 3 (dropWhile (\<lambda>c. c \<noteq> CHR '':'') u) = ''://'' \<Longrightarrow>
    \<exists>i. find_bytes u ''://'' = Some i \<and> drop (i + 3) u = url_rest u"
proof (induction u)
  case (Cons c u)
  show ?case
  proof (cases "c = CHR '':''")
    case True
    then have "take 2 u = ''//''" "take (Suc (Suc 0)) u = ''//''" using Cons.prems by (simp_all add: numeral_2_eq_2)
    with True show ?thesis by (simp add: url_rest_def)
  next
    case False
    then obtain i where "find_bytes u ''://'' = Some i" "drop (i + 3) u = url_rest u"
      using Cons by auto
    then have "find_bytes (c # u) ''://'' = Some (Suc i) \<and> drop (Suc i + 3) (c # u) = url_rest (c # u)"
      using False by (simp add: url_rest_def eval_nat_numeral)
    then show ?thesis by blast
  qed
qed simp

lemma cut_keeps_host:
  "find_bytes s ''://'' = Some j \<Longrightarrow>
    takeWhile (\<lambda>c. c \<noteq> CHR ''/'' \<and> c \<noteq> CHR '':'') (take j s) = takeWhile (\<lambda>c. c \<noteq> CHR ''/'' \<and> c \<noteq> CHR '':'') s"
  by (induction s arbitrary: j) (auto split: if_splits)

lemma takeWhile_until:
  assumes "case drop (length (takeWhile P s)) s of [] \<Rightarrow> True | c # _ \<Rightarrow> c = e" "\<not> P e" "e \<noteq> d"
  shows "takeWhile (\<lambda>c. c \<noteq> e \<and> c \<noteq> d) s = takeWhile (\<lambda>c. c \<noteq> d) (takeWhile P s)"
  using assms by (induction s) auto

lemma plain_host:
  assumes "plain_url u"
  shows "fetch_host u = url_host u"
proof -
  let ?host = "takeWhile (\<lambda>c. c \<noteq> CHR ''/'' \<and> c \<noteq> CHR '':'')"
  obtain i where "find_bytes u ''://'' = Some i" "drop (i + 3) u = url_rest u"
    using find_scheme assms by (auto simp: plain_url_def)
  then have "fetch_host u = ?host (url_rest u)"
    by (auto simp: fetch_host_def after_scheme_def cut_keeps_host Let_def split: option.split)
  moreover have "url_host u = takeWhile (\<lambda>c. c \<noteq> CHR '':'') (url_authority u)"
  proof -
    have "takeWhile (\<lambda>c. c \<noteq> CHR ''@'') (rev (url_authority u)) = rev (url_authority u)"
      using assms by (auto simp: plain_url_def takeWhile_eq_all_conv)
    then show ?thesis unfolding url_host_def by (simp only: rev_rev_ident)
  qed
  moreover have "?host (url_rest u) = takeWhile (\<lambda>c. c \<noteq> CHR '':'') (url_authority u)"
    unfolding url_authority_def
    by (rule takeWhile_until) (use assms in \<open>auto simp: plain_url_def url_authority_def ends_authority_def\<close>)
  ultimately show ?thesis by simp
qed

definition opened_allowed :: "'h esp \<Rightarrow> 'h world \<Rightarrow> bool" where
  "opened_allowed dev w \<longleftrightarrow>
     list_all (\<lambda>u. plain_url u \<longrightarrow> listed_host (fetch_allow_hosts dev) (url_host u)) (w_opened w)"

lemma opened_allowed_cong [simp]:
  "opened_allowed dev (w\<lparr>w_esp := h\<rparr>) = opened_allowed dev w" "opened_allowed dev (w\<lparr>w_ui := u\<rparr>) = opened_allowed dev w"
  "opened_allowed dev (w\<lparr>w_timers := ts\<rparr>) = opened_allowed dev w" "opened_allowed dev (w\<lparr>w_jobs := js\<rparr>) = opened_allowed dev w"
  "opened_allowed dev (w\<lparr>w_revert := r\<rparr>) = opened_allowed dev w" "opened_allowed dev (w\<lparr>w_gen := g\<rparr>) = opened_allowed dev w"
  by (simp_all add: opened_allowed_def)

lemma stream_allowed: "opened_allowed dev w \<Longrightarrow> opened_allowed dev (snd (stream dev url stop w))"
  by (auto simp: stream_def check_allowed_def Let_def opened_allowed_def listed_host_iff simp flip: plain_host split: prod.split)

lemma net_allowed:
  assumes "opened_allowed dev w"
  shows "opened_allowed dev (snd (device_fetch dev url w))" "opened_allowed dev (snd (device_fetch_extract dev url probe w))"
  using stream_allowed [OF assms, of url]
  by (auto simp: device_fetch_def device_fetch_extract_def split: prod.split sum.split option.split)
     (metis snd_conv)+

lemma caps_allowed:
  "caps_keep (opened_allowed dev) (init_frame p (vec_env_reader env) (job_limits dev start timeout_s max_bytes) w)"
  by (auto simp: caps_keep_def init_frame_def job_limits_def vec_env_reader_def late_def device_net_def net_allowed
      device_show_def device_actuator_def ui_send_def Let_def split: prod.split)

lemma run_job_allowed:
  assumes "opened_allowed dev w"
  shows "opened_allowed dev (snd (run_job dev t p timeout_s max_bytes w))"
proof -
  obtain start h1 where s: "esp_timer dev (w_esp w) = (start, h1)" by force
  obtain env h2 where e: "device_env dev h1 = (env, h2)" by force
  obtain r f where r: "run_with t p (vec_env_reader env) (job_limits dev start timeout_s max_bytes) (w\<lparr>w_esp := h2\<rparr>) = (r, f)"
    by force
  have "opened_allowed dev (f_world f)"
    using run_keeps_world [OF caps_allowed, of dev "w\<lparr>w_esp := h2\<rparr>" t p env start timeout_s max_bytes] assms r by simp
  then show ?thesis
    using s e r by (auto simp: run_job_def record_done_def split: outcome.split prod.split)
qed

lemma eval_program_allowed:
  "opened_allowed dev w \<Longrightarrow> opened_allowed dev (snd (eval_program dev t code l timeout_s mem w))"
  by (auto simp: eval_program_def Let_def run_job_allowed split: outcome.split prod.split)

lemma web_run_allowed: "opened_allowed dev w \<Longrightarrow> opened_allowed dev (snd (web_run dev t m query bdy w))"
  by (auto simp: web_run_def Let_def set_revert_seconds_def intro!: eval_program_allowed split: option.split)

lemma mcp_allowed: "opened_allowed dev w \<Longrightarrow> opened_allowed dev (snd (mcp_handle J dev t bdy w))"
  by (auto simp: mcp_handle_def mcp_call_def Let_def split_beta eval_program_allowed split: option.split)

lemma generate_allowed: "opened_allowed dev w \<Longrightarrow> opened_allowed dev (snd (web_generate dev m bdy w))"
  by (auto simp: web_generate_def llm_start_def llm_poll_def Let_def split_beta split: option.split)


text \<open>
  The allowlist takes everything up to the first slash or colon for the host: a URL of any
  host at all passes when a query that ends in an allowed host follows the host directly.
\<close>

theorem allowlist_bypassed:
  assumes "h \<in> set (fetch_allow_hosts dev)" "list_all (\<lambda>c. c \<notin> set ''/:?#@'') evil"
    and "CHR ''/'' \<notin> set h" "CHR '':'' \<notin> set h"
  shows "check_allowed dev (''https://'' @ evil @ ''?.'' @ h) = Inr ()"
    and "url_host (''https://'' @ evil @ ''?.'' @ h) = evil"
proof -
  have evil: "CHR ''/'' \<notin> set evil" "CHR '':'' \<notin> set evil" "CHR ''?'' \<notin> set evil"
      "CHR ''#'' \<notin> set evil" "CHR ''@'' \<notin> set evil"
    using assms(2) by (auto simp: list_all_iff)
  have none: "find_bytes xs ''://'' = None" if "CHR '':'' \<notin> set xs" for xs
    using that by (induction xs) auto
  have "after_scheme (''https://'' @ evil @ ''?.'' @ h) = evil @ ''?.'' @ h"
    using assms(4) evil none [of "evil @ ''?.'' @ h"] by (simp add: after_scheme_def)
  then have "fetch_host (''https://'' @ evil @ ''?.'' @ h) = evil @ ''?.'' @ h"
    using assms(3,4) evil by (auto simp: fetch_host_def intro!: takeWhile_eq_all_conv [THEN iffD2])
  moreover have "ends_with (evil @ ''?.'' @ h) (CHR ''.'' # h)" by (simp add: ends_with_def)
  ultimately show "check_allowed dev (''https://'' @ evil @ ''?.'' @ h) = Inr ()"
    using assms(1) by (auto simp: check_allowed_def host_allowed_def list_ex_iff)
  have "\<And>x. x \<in> set evil \<Longrightarrow> \<not> ends_authority x" using evil by (auto simp: ends_authority_def)
  then have "url_authority (''https://'' @ evil @ ''?.'' @ h) = evil"
    by (simp add: url_authority_def url_rest_def takeWhile_append2 ends_authority_def)
  moreover have "takeWhile (\<lambda>c. c \<noteq> CHR ''@'') (rev evil) = rev evil" "takeWhile (\<lambda>c. c \<noteq> CHR '':'') evil = evil"
    using evil by (auto simp: takeWhile_eq_all_conv)
  ultimately show "url_host (''https://'' @ evil @ ''?.'' @ h) = evil" unfolding url_host_def by (simp only: rev_rev_ident)
qed

section \<open>No request panics\<close>

lemma run_job_no_panic:
  assumes "\<not> overflow_checks t" "wf_program p" "const_divisors_program p"
  shows "fst (run_job dev t p timeout_s max_bytes w) \<noteq> None"
proof -
  obtain start h1 where s: "esp_timer dev (w_esp w) = (start, h1)" by force
  obtain env h2 where e: "device_env dev h1 = (env, h2)" by force
  show ?thesis
    using no_panic_run [OF assms, of "vec_env_reader env" "job_limits dev start timeout_s max_bytes" "w\<lparr>w_esp := h2\<rparr>"] s e
    by (auto simp: run_job_def split_beta split: outcome.split)
qed

text \<open>
  The program a request carries: the body of a post to \<open>/run\<close>, the query of a get, and the
  argument of a tool call to \<open>/mcp\<close>.
\<close>

definition call_args :: "'j serde \<Rightarrow> bytes \<Rightarrow> 'j option" where
  "call_args J bdy =
     Option.bind (Option.bind (js_parse J bdy) (\<lambda>req. js_get J req ''params'')) (\<lambda>p. js_get J p ''arguments'')"

definition request_code :: "'j serde \<Rightarrow> string \<Rightarrow> string \<Rightarrow> string \<Rightarrow> bytes \<Rightarrow> string" where
  "request_code J m path query bdy =
     (if path = ''/mcp'' then or_else [] (get_str J (call_args J bdy) ''code'')
      else if is_post m then trim (from_utf8_lossy (to_text bdy)) else url_decode (query_get query ''code''))"

definition request_lang :: "'j serde \<Rightarrow> string \<Rightarrow> string \<Rightarrow> bytes \<Rightarrow> lang" where
  "request_lang J path query bdy =
     lang_of (if path = ''/mcp'' then or_else [] (get_str J (call_args J bdy) ''lang'') else query_get query ''lang'')"

lemma eval_program_no_panic:
  assumes "\<not> overflow_checks t" "list_all is_ascii code" "\<And>p. parse t code l = Ok p \<Longrightarrow> const_divisors_program p"
  shows "fst (eval_program dev t code l s b w) \<noteq> None"
proof -
  have "parse t code l \<noteq> Panic" if "length code \<le> MAX_CODE"
    using that assms(2) by (intro parse_no_panic) (simp_all add: MAX_CODE_def)
  then show ?thesis
    using assms(1,3) run_job_no_panic parse_wf [of code t l]
    by (auto simp: eval_program_def Let_def MAX_CODE_def split_beta not_less split: outcome.split)
qed


section \<open>A program over the tunnel\<close>

text \<open>The handler of the server, in a state of the device, and a request to \<open>/run\<close>.\<close>

definition web_handler ::
  "assets \<Rightarrow> 'j serde \<Rightarrow> 'h esp \<Rightarrow> target \<Rightarrow> 'h world \<Rightarrow> route_fn"
where
  "web_handler A J dev t w m path query bdy =
     (case fst (web_route A J dev t m path query bdy w) of Some r \<Rightarrow> r | None \<Rightarrow> None)"

definition run_request :: "string \<Rightarrow> bytes" where
  "run_request code = of_text (''POST /run HTTP/1.1'' @ crlf @ crlf @ code)"

lemma run_request_eq:
  "run_request code = of_text (''POST /run HTTP/1.1'' @ [CHR 0x0D, CHR 0x0A, CHR 0x0D, CHR 0x0A]) @ of_text code"
  by (simp add: run_request_def crlf_def flip: of_text_append)

lemma http_body_skip:
  "b \<noteq> 0x0D \<Longrightarrow> http_body (b # bs) = http_body bs"
  by (cases bs) simp_all

lemma run_request_body: "http_body (run_request code) = of_text code"
  by (simp add: run_request_eq of_text_def http_body_skip)

lemma run_request_line: "first_line (run_request code) = ''POST /run HTTP/1.1''"
proof -
  have "takeWhile (\<lambda>b. b \<noteq> 0x0D \<and> b \<noteq> 0x0A) (run_request code) = of_text ''POST /run HTTP/1.1''"
    by (simp add: run_request_eq of_text_def)
  moreover have "valid_utf8 ''POST /run HTTP/1.1''" by code_simp
  ultimately show ?thesis by (simp only: first_line_def Let_def to_text_of_text if_True)
qed

lemma split_crlf_single: "CHR 0x0D \<notin> set s \<Longrightarrow> split_crlf s = [s]"
  by (induction s) auto

lemma run_request_range:
  assumes "CHR 0x0D \<notin> set code" "range_spec [code] = None"
  shows "parse_range t (run_request code) n = Ok None"
proof -
  have "to_text (run_request code) = ''POST /run HTTP/1.1'' @ crlf @ crlf @ code"
    unfolding run_request_def by (rule to_text_of_text)
  moreover have "split_crlf (''POST /run HTTP/1.1'' @ crlf @ crlf @ code) = [''POST /run HTTP/1.1'', [], code]"
    using split_crlf_single [OF assms(1)] by (simp add: crlf_def)
  ultimately show ?thesis
    using assms(2) by (simp add: parse_range_def)
qed

lemma web_run_post:
  assumes "valid_utf8 code" "trim code = code" "code \<noteq> []" "length code \<le> MAX_CODE"
    and "parse t code Python = Ok p" "esp_free_heap dev (w_esp w) = (free, h)" "57344 \<le> free"
  shows "web_run dev t ''POST'' [] (of_text code) w = run_job dev t p 10 16384 (w\<lparr>w_esp := h\<rparr>)"
proof -
  have "is_post ''POST''" by code_simp
  moreover have "query_get [] k = []" if "k \<noteq> []" for k using that by (simp add: query_get_def)
  moreover have "lang_of [] = Python" "int_or d [] = d" "parse_unsigned (2 ^ 32 - 1) [] = None" for d
    by (simp_all add: lang_of_def int_or_def parse_i64_def parse_signed_def parse_unsigned_def bounded_def)
  moreover have "sat_add32 (word_of_int (clamp 1024 262144 16384)) MEM_MARGIN = 57344"
    by (simp add: sat_add32_def clamp_def MEM_MARGIN_def)
  moreover have "\<not> free < 57344" using assms(7) by simp
  ultimately show ?thesis
    using assms by (simp add: web_run_def eval_program_def from_utf8_lossy_id clamp_def)
qed

text \<open>
  C15: A program run over the tunnel. A client opens a connection to the device, over a path that
  delivers every packet, and posts a program to \<open>/run\<close>; it ends with the transfer complete and
  with a response whose body is the text of what the program evaluates to on the device.
\<close>

theorem run_over_tunnel:
  fixes src dst :: bytes and xc xs :: u32 and sport :: u16
  assumes "length src = 4" "length dst = 4" "2 ^ 31 \<le> usize_max t"
    and "valid_utf8 code" "trim code = code" "code \<noteq> []" "length code \<le> MAX_CODE"
    and "CHR 0x0D \<notin> set code" "range_spec [code] = None"
    and "parse t code Python = Ok p"
    and "esp_free_heap dev (w_esp w) = (free, h)" "57344 \<le> free"
    and "fst (run_job dev t p 10 16384 (w\<lparr>w_esp := h\<rparr>)) = Some out" "length out < 10 ^ 7"
  shows "\<exists>c. exchange t xc xs src dst sport (run_request code) (with_handler (web_handler A J dev t w)) = Some c
       \<and> c_done c
       \<and> c_response c = render_headers t 200 ''text/plain; charset=utf-8'' 0 (length out) (length out) None @ of_text out"
proof -
  let ?req = "run_request code" and ?s = "with_handler (web_handler A J dev t w)"
  define sq where "sq = c_snd_nxt (client_new xc src dst sport HTTP_PORT ?req)"
  define rp where "rp = ok_owned ''text/plain; charset=utf-8'' (of_text out)"
  define r where "r = staged t ?req (opened xs src dst sport sq) ?s"
  have "web_handler A J dev t w ''POST'' ''/run'' [] (of_text code) = Some rp"
    using web_run_post [OF assms(4-7,10-12)] assms(13)
    by (simp add: web_handler_def web_route_def split_beta rp_def)
  moreover have "split_on CHR '' '' ''POST /run HTTP/1.1'' = [''POST'', ''/run'', ''HTTP/1.1'']"
    "split_once CHR ''?'' ''/run'' = None" by simp_all
  ultimately have "fst (route_request ?req (?s\<lparr>sv_conn := c\<rparr>)) = rp" for c
    by (simp add: route_request_def run_request_line run_request_body with_handler_def)
  then have r: "r = response_for t ?req rp" by (simp add: r_def staged_def)
  have "reply_ok [] rp" using assms(14) by (simp add: reply_ok_def rp_def ok_owned_def)
  then have ok: "resp_ok [] r" by (simp add: r response_for_ok)
  have "wire [] r = render_headers t 200 ''text/plain; charset=utf-8'' 0 (length out) (length out) None @ of_text out"
    using run_request_range [OF assms(8,9)] by (simp add: r response_for_def wire_def rp_def ok_owned_def Let_def)
  moreover have "length ?req = 22 + length code" by (simp add: run_request_def crlf_def)
  then have "?req \<noteq> []" "40 + length ?req < 65536"
    using assms(7) by (auto simp: MAX_CODE_def)
  ultimately show ?thesis
    using exchange_staged [OF assms(1,2) _ _ assms(3), of ?req "[]" xs sport xc ?s] ok
    by (simp add: r_def sq_def)
qed

text \<open>A device that has been up for 90 seconds, whose allowlist is one host.\<close>

definition sample_dev :: "unit esp" where
  "sample_dev = \<lparr>fetch_allow_hosts = [''api.example''], display_allow = True, display_revert_seconds = 0,
     esp_client_init = \<lambda>u h. (True, h), esp_client_open = \<lambda>h. (True, h), esp_read = \<lambda>n h. ([], h),
     esp_cleanup = \<lambda>h. h, esp_timer = \<lambda>h. (90000000, h), esp_free_heap = \<lambda>h. (60000, h),
     esp_min_heap = \<lambda>h. (50000, h), esp_largest_block = \<lambda>h. (20000, h)\<rparr>"

definition sample_world :: "unit world" where
  "sample_world = \<lparr>w_esp = (), w_ui = [], w_revert = 0, w_timers = [], w_jobs = [], w_opened = [],
     w_gen = \<lparr>g_running = False, g_result = None, g_queue = [], g_worker = True\<rparr>\<rparr>"

definition sample_fetch :: string where
  "sample_fetch = ''fetch_json('' @ q @ ''http://api.example/t'' @ q @ '', '' @ q @ ''a'' @ q @ '')''"

lemma sample_up: "parse host_target ''uptime_s'' Python
    = Ok \<lparr>body = [], ret = EVar ''uptime_s'', n_locals = 0, max_steps = DEFAULT_MAX_STEPS\<rparr>"
  by code_simp

lemma sample_job: "fst (run_job sample_dev host_target \<lparr>body = [], ret = EVar ''uptime_s'', n_locals = 0,
    max_steps = DEFAULT_MAX_STEPS\<rparr> 10 16384 (sample_world\<lparr>w_esp := ()\<rparr>)) = Some ''90''"
  by code_simp

theorem run_over_tunnel_witness:
  "\<forall>A (J :: unit serde). \<exists>c. exchange host_target 5 7 [10, 0, 0, 1] [10, 0, 0, 2] 40000 (run_request ''uptime_s'')
     (with_handler (web_handler A J sample_dev host_target sample_world)) = Some c
   \<and> c_done c \<and> c_response c = render_headers host_target 200 ''text/plain; charset=utf-8'' 0
     (length ''90'') (length ''90'') None @ of_text ''90''"
proof (intro allI)
  fix A and J :: "unit serde"
  have "valid_utf8 ''uptime_s''" "trim ''uptime_s'' = ''uptime_s''" by code_simp+
  moreover have "esp_free_heap sample_dev (w_esp sample_world) = (60000, ())" by (simp add: sample_dev_def)
  ultimately show "\<exists>c. exchange host_target 5 7 [10, 0, 0, 1] [10, 0, 0, 2] 40000 (run_request ''uptime_s'')
     (with_handler (web_handler A J sample_dev host_target sample_world)) = Some c
   \<and> c_done c \<and> c_response c = render_headers host_target 200 ''text/plain; charset=utf-8'' 0
     (length ''90'') (length ''90'') None @ of_text ''90''"
    by (intro run_over_tunnel [OF _ _ _ _ _ _ _ _ _ sample_up _ _ sample_job, where free = 60000])
       (simp_all add: usize_max_def MAX_CODE_def word_le_nat_alt)
qed


theorem allowlist_bypassed_witness:
  "check_allowed sample_dev ''https://evil.com?.api.example'' = Inr () \<and> url_host ''https://evil.com?.api.example'' = ''evil.com''"
  using allowlist_bypassed [of "''api.example''" sample_dev "''evil.com''"] by (simp add: sample_dev_def)

text \<open>The JSON of a tool call, and a library that reads just that.\<close>

definition sample_serde :: "string serde" where
  "sample_serde = \<lparr>js_parse = \<lambda>bs. Some (to_text bs), js_null = [], js_is_null = (\<lambda>j. j = []),
     js_get = (\<lambda>j k. if k = ''method'' then Some ''tools/call'' else if k = ''name'' then Some ''run_pyspell''
       else if k = ''lang'' then Some ''py'' else Some j),
     js_as_str = Some, js_as_i64 = (\<lambda>j. None), js_str = (\<lambda>s. s), js_int = (\<lambda>i. []), js_bool = (\<lambda>b. []),
     js_obj = (\<lambda>l. concat (map snd l)), js_arr = concat, js_print = (\<lambda>j. j)\<rparr>"


end
