(* ===== verification/Arrays.thy ===== *)
theory Arrays
  imports Bytes Floats
begin

text \<open>
  Indexed buffers: reads, writes and slices that panic out of range, loops over them that stop
  at a panic, and the arithmetic of \<open>usize\<close> in a build without overflow checks. \<open>returns P r\<close>
  says that a call returns a value in \<open>P\<close>; its rules prove that the loops of the inference
  engine do.
\<close>

section \<open>Access and loops\<close>

definition idx :: "'a list \<Rightarrow> nat \<Rightarrow> ('a, 'e) outcome" where
  "idx xs i = (if i < length xs then Ok (xs ! i) else Panic)"

definition upd :: "'a list \<Rightarrow> nat \<Rightarrow> 'a \<Rightarrow> ('a list, 'e) outcome" where
  "upd xs i v = (if i < length xs then Ok (xs[i := v]) else Panic)"

definition slice :: "nat \<Rightarrow> nat \<Rightarrow> 'a list \<Rightarrow> ('a list, 'e) outcome" where
  "slice i j xs = (if i \<le> j \<and> j \<le> length xs then Ok (cut i j xs) else Panic)"

fun foldR :: "('s \<Rightarrow> 'a \<Rightarrow> ('s, 'e) outcome) \<Rightarrow> 's \<Rightarrow> 'a list \<Rightarrow> ('s, 'e) outcome" where
  "foldR f s [] = Ok s"
| "foldR f s (x # xs) = bindR (f s x) (\<lambda>s. foldR f s xs)"

fun mapR :: "('a \<Rightarrow> ('b, 'e) outcome) \<Rightarrow> 'a list \<Rightarrow> ('b list, 'e) outcome" where
  "mapR f [] = Ok []"
| "mapR f (x # xs) = bindR (f x) (\<lambda>y. bindR (mapR f xs) (\<lambda>ys. Ok (y # ys)))"

lemma foldR_cong [fundef_cong]:
  "xs = xs' \<Longrightarrow> s = s' \<Longrightarrow> (\<And>a x. x \<in> set xs' \<Longrightarrow> f a x = f' a x) \<Longrightarrow> foldR f s xs = foldR f' s' xs'"
  by (induction xs arbitrary: s s' xs') (auto simp: bindR_def split: outcome.split)

lemma foldR_append: "foldR f s (xs @ ys) = bindR (foldR f s xs) (\<lambda>s. foldR f s ys)"
  by (induction xs arbitrary: s) (auto simp: bindR_def split: outcome.split)

lemma foldR_inv:
  assumes "foldR f s xs = Ok s'" "P s" "\<And>s x s'. P s \<Longrightarrow> x \<in> set xs \<Longrightarrow> f s x = Ok s' \<Longrightarrow> P s'"
  shows "P s'"
  using assms
proof (induction xs arbitrary: s)
  case (Cons x xs)
  from Cons.prems(1) have "bindR (f s x) (\<lambda>s. foldR f s xs) = Ok s'" by simp
  then obtain s1 where s1: "f s x = Ok s1" "foldR f s1 xs = Ok s'" unfolding bindR_eq_Ok by blast
  have "P s1" by (rule Cons.prems(3) [OF Cons.prems(2) _ s1(1)]) simp
  show ?case by (rule Cons.IH [OF s1(2) \<open>P s1\<close>], rule Cons.prems(3)) simp_all
qed simp

lemma mapR_length: "mapR f xs = Ok ys \<Longrightarrow> length ys = length xs"
  by (induction xs arbitrary: ys) (auto simp: bindR_eq_Ok)

lemma mapR_nth: "mapR f xs = Ok ys \<Longrightarrow> i < length xs \<Longrightarrow> f (xs ! i) = Ok (ys ! i)"
  by (induction xs arbitrary: ys i) (auto simp: bindR_eq_Ok nth_Cons split: nat.split)

text \<open>A wrapping \<open>usize\<close>, and the sums and products that fit.\<close>

definition usz :: "target \<Rightarrow> nat \<Rightarrow> nat" where
  "usz t n = n mod 2 ^ usize_bits t"

lemma usz_fits: "n \<le> usize_max t \<Longrightarrow> usz t n = n"
proof -
  assume "n \<le> usize_max t"
  moreover have "(0 :: nat) < 2 ^ usize_bits t" by simp
  ultimately have "n < 2 ^ usize_bits t" unfolding usize_max_def by linarith
  then show ?thesis by (simp add: usz_def)
qed

section \<open>Calls that return\<close>

named_theorems returning \<open>rules for calls that return\<close>

definition returns :: "('a \<Rightarrow> bool) \<Rightarrow> ('a, 'e) outcome \<Rightarrow> bool" where
  "returns P r \<longleftrightarrow> (\<exists>v. r = Ok v \<and> P v)"

lemma returnsE: "returns P r \<Longrightarrow> (\<And>v. r = Ok v \<Longrightarrow> P v \<Longrightarrow> R) \<Longrightarrow> R"
  by (auto simp: returns_def)

lemma returnsD: "returns P r \<Longrightarrow> r = Ok v \<Longrightarrow> P v"
  by (auto simp: returns_def)

lemma returns_mono: "returns P r \<Longrightarrow> (\<And>v. P v \<Longrightarrow> Q v) \<Longrightarrow> returns Q r"
  by (auto simp: returns_def)

lemma returns_Ok [returning]: "P v \<Longrightarrow> returns P (Ok v)"
  by (simp add: returns_def)

lemma returns_bind: "returns Q r \<Longrightarrow> (\<And>v. Q v \<Longrightarrow> returns P (k v)) \<Longrightarrow> returns P (bindR r k)"
  by (auto simp: returns_def)

lemma returns_idx: "i < length xs \<Longrightarrow> returns (\<lambda>v. v = xs ! i) (idx xs i)"
  by (simp add: returns_def idx_def)

lemma returns_idx_any: "i < length xs \<Longrightarrow> returns (\<lambda>v. True) (idx xs i)"
  by (simp add: returns_def idx_def)

lemma returns_upd: "i < length xs \<Longrightarrow> returns (\<lambda>v. length v = length xs) (upd xs i x)"
  by (simp add: returns_def upd_def)

lemma returns_slice: "i \<le> j \<Longrightarrow> j \<le> length xs \<Longrightarrow> returns (\<lambda>v. length v = j - i) (slice i j xs)"
  by (simp add: returns_def slice_def)

lemma returns_foldR:
  assumes "P s" "\<And>s x. P s \<Longrightarrow> x \<in> set xs \<Longrightarrow> returns P (f s x)"
  shows "returns P (foldR f s xs)"
  using assms by (induction xs arbitrary: s) (auto intro!: returns_Ok elim!: returnsE intro: returns_bind)

lemma returns_mapR:
  assumes "\<And>x. x \<in> set xs \<Longrightarrow> returns P (f x)"
  shows "returns (\<lambda>ys. length ys = length xs \<and> list_all P ys) (mapR f xs)"
  using assms
proof (induction xs)
  case (Cons x xs)
  then have "returns P (f x)" "returns (\<lambda>ys. length ys = length xs \<and> list_all P ys) (mapR f xs)" by simp_all
  then show ?case by (auto simp: returns_def)
qed (simp add: returns_def)

lemma returns_mapR_length:
  "(\<And>x. x \<in> set xs \<Longrightarrow> returns (\<lambda>v. True) (f x)) \<Longrightarrow> returns (\<lambda>ys. length ys = length xs) (mapR f xs)"
  by (rule returns_mono, rule returns_mapR [where P = "\<lambda>v. True"]) auto

section \<open>Single precision\<close>

abbreviation "f32_add \<equiv> fadd binary32"
abbreviation "f32_sub \<equiv> fsub binary32"
abbreviation "f32_mul \<equiv> fmul binary32"
abbreviation "f32_div \<equiv> fdiv binary32"
abbreviation "f32_of \<equiv> f_of_int binary32"
abbreviation "f32_zero \<equiv> fzero binary32"

definition f32_of_bits :: "u32 \<Rightarrow> fl" where
  "f32_of_bits w =
     (let s = bit w 31; e = uint (drop_bit 23 w AND 0xFF); m = uint (w AND 0x7FFFFF) in
      if e = 255 then (if m = 0 then FInf s else FNaN)
      else if e = 0 then FFin s m (- 149)
      else FFin s (m + 2 ^ 23) (e - 150))"

text \<open>Every NaN is written as the quiet one.\<close>

fun f32_to_bits :: "fl \<Rightarrow> u32" where
  "f32_to_bits FNaN = 0x7FC00000"
| "f32_to_bits (FInf s) = (if s then 0xFF800000 else 0x7F800000)"
| "f32_to_bits (FFin s m e) = word_of_int ((if s then 2 ^ 31 else 0)
     + (if m < 2 ^ 23 then m else (e + 150) * 2 ^ 23 + (m - 2 ^ 23)))"

end
