(* ===== verification/Checkpoint.thy ===== *)
theory Checkpoint
  imports Arrays
begin

text \<open>
  \<open>tinyllm/src/format.rs\<close>: the reader of the checkpoint format, which validates the header and
  computes the offsets of the tensors, the views of a tensor, and the writer of the host
  tools. A \<open>usize\<close> wraps at the width of the target, as in a build without overflow checks.
\<close>

section \<open>Configuration\<close>

definition CKPT_MAGIC :: u32 where "CKPT_MAGIC = 0x616b3432"
definition CKPT_VERSION :: u32 where "CKPT_VERSION = 2"
definition HEADER_BYTES :: nat where "HEADER_BYTES = 256"

record config =
  dim :: nat
  hidden_dim :: nat
  n_layers :: nat
  n_heads :: nat
  n_kv_heads :: nat
  vocab_size :: nat
  seq_len :: nat
  group_size :: nat
  shared_classifier :: bool

definition head_size :: "config \<Rightarrow> nat" where
  "head_size c = dim c div n_heads c"

definition kv_dim :: "target \<Rightarrow> config \<Rightarrow> nat" where
  "kv_dim t c = usz t (dim c * n_kv_heads c) div n_heads c"

datatype model_error = TooShort | BadMagic u32 | BadVersion u32 | BadConfig | ModelTruncated

section \<open>Tensors\<close>

text \<open>\<open>rd_f32\<close>, which panics past the end; \<open>rd_i32\<close> is only used on the header.\<close>

definition rd_f32 :: "bytes \<Rightarrow> nat \<Rightarrow> (fl, 'e) outcome" where
  "rd_f32 buf off = (if off + 4 \<le> length buf then Ok (f32_of_bits (get32le off buf)) else Panic)"

record qtensor =
  qt_q :: bytes
  qt_s :: bytes

definition qi :: "qtensor \<Rightarrow> nat \<Rightarrow> (int, 'e) outcome" where
  "qi w i = bindR (idx (qt_q w) i) (\<lambda>b. Ok (sint b))"

definition qscale :: "qtensor \<Rightarrow> nat \<Rightarrow> (fl, 'e) outcome" where
  "qscale w g = rd_f32 (qt_s w) (g * 4)"

record qgroup =
  qg_base :: nat
  qg_count :: nat
  qg_size :: nat
  qg_gs :: nat

definition stride :: "target \<Rightarrow> qgroup \<Rightarrow> nat" where
  "stride t g = usz t (qg_size g + usz t (qg_size g div qg_gs g * 4))"

definition qg_total :: "target \<Rightarrow> qgroup \<Rightarrow> nat" where
  "qg_total t g = usz t (stride t g * qg_count g)"

definition tensor :: "target \<Rightarrow> qgroup \<Rightarrow> bytes \<Rightarrow> nat \<Rightarrow> (qtensor, 'e) outcome" where
  "tensor t g buf l =
     (let off = usz t (qg_base g + usz t (l * stride t g)); s_off = usz t (off + qg_size g)
      in bindR (slice off (usz t (off + qg_size g)) buf) (\<lambda>qs.
         bindR (slice s_off (usz t (s_off + usz t (qg_size g div qg_gs g * 4))) buf) (\<lambda>ss.
         Ok \<lparr>qt_q = qs, qt_s = ss\<rparr>)))"

section \<open>The model\<close>

record model =
  m_config :: config
  m_buf :: bytes
  m_rms_att :: nat
  m_rms_ffn :: nat
  m_rms_final :: nat
  m_q_tokens :: qgroup
  m_wq :: qgroup
  m_wk :: qgroup
  m_wv :: qgroup
  m_wo :: qgroup
  m_w1 :: qgroup
  m_w2 :: qgroup
  m_w3 :: qgroup
  m_wcls :: qgroup

definition rd_i32 :: "bytes \<Rightarrow> nat \<Rightarrow> int" where
  "rd_i32 buf off = sint (get32le off buf)"

definition take_group :: "target \<Rightarrow> nat \<Rightarrow> nat \<Rightarrow> nat \<Rightarrow> nat \<Rightarrow> qgroup \<times> nat" where
  "take_group t gs count size_each off =
     (let g = \<lparr>qg_base = off, qg_count = count, qg_size = size_each, qg_gs = gs\<rparr>
      in (g, usz t (off + qg_total t g)))"

text \<open>The lengths a group of scales has to divide.\<close>

definition tensor_lens :: "target \<Rightarrow> config \<Rightarrow> nat list" where
  "tensor_lens t c =
     [usz t (vocab_size c * dim c), usz t (dim c * dim c), usz t (dim c * kv_dim t c),
      usz t (dim c * kv_dim t c), usz t (dim c * dim c), usz t (dim c * hidden_dim c),
      usz t (hidden_dim c * dim c), usz t (dim c * hidden_dim c)]"

text \<open>The offsets of the payload, and the end of the last tensor.\<close>

definition lay_out :: "target \<Rightarrow> config \<Rightarrow> bytes \<Rightarrow> model \<times> nat" where
  "lay_out t c buf =
     (let gs = group_size c; nl = n_layers c; kv = kv_dim t c;
          off = HEADER_BYTES; rms_att = off;
          off = usz t (off + usz t (usz t (nl * dim c) * 4)); rms_ffn = off;
          off = usz t (off + usz t (usz t (nl * dim c) * 4)); rms_final = off;
          off = usz t (off + usz t (dim c * 4));
          (q_tokens, off) = take_group t gs 1 (usz t (vocab_size c * dim c)) off;
          (wq, off) = take_group t gs nl (usz t (dim c * dim c)) off;
          (wk, off) = take_group t gs nl (usz t (dim c * kv)) off;
          (wv, off) = take_group t gs nl (usz t (dim c * kv)) off;
          (wo, off) = take_group t gs nl (usz t (dim c * dim c)) off;
          (w1, off) = take_group t gs nl (usz t (dim c * hidden_dim c)) off;
          (w2, off) = take_group t gs nl (usz t (hidden_dim c * dim c)) off;
          (w3, off) = take_group t gs nl (usz t (dim c * hidden_dim c)) off;
          (wcls, off) = (if shared_classifier c then (q_tokens, off)
                         else take_group t gs 1 (usz t (dim c * vocab_size c)) off)
      in (\<lparr>m_config = c, m_buf = buf, m_rms_att = rms_att, m_rms_ffn = rms_ffn, m_rms_final = rms_final,
           m_q_tokens = q_tokens, m_wq = wq, m_wk = wk, m_wv = wv, m_wo = wo, m_w1 = w1, m_w2 = w2,
           m_w3 = w3, m_wcls = wcls\<rparr>, off))"

definition model_parse :: "target \<Rightarrow> bytes \<Rightarrow> (model, model_error) outcome" where
  "model_parse t buf =
     (if length buf < HEADER_BYTES then Err TooShort
      else if get32le 0 buf \<noteq> CKPT_MAGIC then Err (BadMagic (get32le 0 buf))
      else if get32le 4 buf \<noteq> CKPT_VERSION then Err (BadVersion (get32le 4 buf))
      else
       (let fields = map (rd_i32 buf) [8, 12, 16, 20, 24, 28, 32, 37] in
        if list_ex (\<lambda>v. v \<le> 0) fields then Err BadConfig
        else
         (let v = map nat fields;
              c = \<lparr>dim = v ! 0, hidden_dim = v ! 1, n_layers = v ! 2, n_heads = v ! 3, n_kv_heads = v ! 4,
                   vocab_size = v ! 5, seq_len = v ! 6, group_size = v ! 7, shared_classifier = buf ! 36 \<noteq> 0\<rparr>
          in if dim c mod n_heads c \<noteq> 0 then Err BadConfig
             else if list_ex (\<lambda>len. len = 0 \<or> len mod group_size c \<noteq> 0) (tensor_lens t c) then Err BadConfig
             else (case lay_out t c buf of (m, off) \<Rightarrow>
                     if off > length buf then Err ModelTruncated else Ok m))))"

text \<open>The rows of the norm weights.\<close>

definition rms_att_row :: "target \<Rightarrow> model \<Rightarrow> nat \<Rightarrow> (bytes, 'e) outcome" where
  "rms_att_row t m l =
     (let o' = usz t (m_rms_att m + usz t (usz t (l * dim (m_config m)) * 4))
      in slice o' (usz t (o' + usz t (dim (m_config m) * 4))) (m_buf m))"

definition rms_ffn_row :: "target \<Rightarrow> model \<Rightarrow> nat \<Rightarrow> (bytes, 'e) outcome" where
  "rms_ffn_row t m l =
     (let o' = usz t (m_rms_ffn m + usz t (usz t (l * dim (m_config m)) * 4))
      in slice o' (usz t (o' + usz t (dim (m_config m) * 4))) (m_buf m))"

definition rms_final_row :: "target \<Rightarrow> model \<Rightarrow> (bytes, 'e) outcome" where
  "rms_final_row t m = slice (m_rms_final m) (usz t (m_rms_final m + usz t (dim (m_config m) * 4))) (m_buf m)"

definition embed_row :: "target \<Rightarrow> model \<Rightarrow> nat \<Rightarrow> fl list \<Rightarrow> (fl list, 'e) outcome" where
  "embed_row t m token out =
     bindR (tensor t (m_q_tokens m) (m_buf m) 0) (\<lambda>w.
       foldR (\<lambda>out i.
         let k = usz t (usz t (token * dim (m_config m)) + i) in
         bindR (qi w k) (\<lambda>a. bindR (qscale w (k div group_size (m_config m))) (\<lambda>s.
         upd out i (f32_mul (f32_of a) s)))) out [0..<dim (m_config m)])"

end
