(* ===== verification/Kernels.thy ===== *)
theory Kernels
  imports Checkpoint
begin

text \<open>
  \<open>tinyllm/src/math.rs\<close>: the numeric primitives of the inference engine, in single precision.
  The functions of the crate \<open>libm\<close> are a record of parameters. An index is a natural number:
  it is below the length of a buffer, or the access panics, unless a product of two
  dimensions wraps.
\<close>

record libm =
  lm_sqrt :: "fl \<Rightarrow> fl"
  lm_exp :: "fl \<Rightarrow> fl"
  lm_pow :: "fl \<Rightarrow> fl \<Rightarrow> fl"
  lm_cos :: "fl \<Rightarrow> fl"
  lm_sin :: "fl \<Rightarrow> fl"
  lm_fabs :: "fl \<Rightarrow> fl"
  lm_round :: "fl \<Rightarrow> fl"

definition f32_one :: fl where "f32_one = f32_of 1"

text \<open>A division of \<open>usize\<close>, which panics at zero.\<close>

definition div_usize :: "nat \<Rightarrow> nat \<Rightarrow> (nat, 'e) outcome" where
  "div_usize a b = (if b = 0 then Panic else Ok (a div b))"

text \<open>
  The indices of a loop \<open>i = 0; while i < n; i += k\<close>. The loop of the code does not end for
  \<open>k = 0\<close>; every caller has quantized with the same \<open>k\<close> before, which panics then.
\<close>

definition steps :: "nat \<Rightarrow> nat \<Rightarrow> nat list" where
  "steps n k = map (\<lambda>b. b * k) [0..<(n + k - 1) div k]"

section \<open>Norm, softmax, SiLU\<close>

definition rms_scale :: "libm \<Rightarrow> fl list \<Rightarrow> fl" where
  "rms_scale lm xs =
     (let ss = foldl (\<lambda>ss v. f32_add ss (f32_mul v v)) f32_zero xs;
          ss = f32_add (f32_div ss (f32_of (int (length xs)))) (of_decimal binary32 False 1 (- 5))
      in f32_div f32_one (lm_sqrt lm ss))"

definition rmsnorm :: "libm \<Rightarrow> fl list \<Rightarrow> fl list \<Rightarrow> bytes \<Rightarrow> (fl list, 'e) outcome" where
  "rmsnorm lm out xs weight_bytes =
     foldR (\<lambda>out i.
       bindR (rd_f32 weight_bytes (i * 4)) (\<lambda>w.
       bindR (idx xs i) (\<lambda>v.
       upd out i (f32_mul w (f32_mul (rms_scale lm xs) v))))) out [0..<length xs]"

definition softmax :: "libm \<Rightarrow> fl list \<Rightarrow> fl list" where
  "softmax lm xs = (case xs of [] \<Rightarrow> [] | x0 # _ \<Rightarrow>
     (let top = foldl (\<lambda>top v. if flt top v then v else top) x0 xs;
          es = map (\<lambda>v. lm_exp lm (f32_sub v top)) xs;
          total = foldl f32_add f32_zero es
      in if flt f32_zero total then map (\<lambda>v. f32_div v total) es else es))"

definition silu :: "libm \<Rightarrow> fl \<Rightarrow> fl" where
  "silu lm x = f32_mul x (f32_div f32_one (f32_add f32_one (lm_exp lm (fneg x))))"

section \<open>Quantization\<close>

definition Q_MAX :: fl where "Q_MAX = f32_of 127"

definition group_scale :: "libm \<Rightarrow> fl list \<Rightarrow> nat \<Rightarrow> nat \<Rightarrow> (fl, 'e) outcome" where
  "group_scale lm xs base gs =
     bindR (foldR (\<lambda>wmax k. bindR (idx xs (base + k)) (\<lambda>v.
       Ok (if flt wmax (lm_fabs lm v) then lm_fabs lm v else wmax))) f32_zero [0..<gs])
     (\<lambda>wmax. Ok (f32_div wmax Q_MAX))"

definition quant_value :: "libm \<Rightarrow> fl \<Rightarrow> fl \<Rightarrow> u8" where
  "quant_value lm scale v =
     word_of_int (f_trunc (- 128) 127
       (if \<not> feq scale f32_zero then lm_round lm (f32_div v scale) else f32_zero))"

definition quantize ::
  "libm \<Rightarrow> u8 list \<Rightarrow> fl list \<Rightarrow> fl list \<Rightarrow> nat \<Rightarrow> (u8 list \<times> fl list, 'e) outcome"
where
  "quantize lm qs ss xs gs =
     bindR (div_usize (length xs) gs) (\<lambda>groups. foldR (\<lambda>(qs, ss) g.
       bindR (group_scale lm xs (g * gs) gs) (\<lambda>scale.
       bindR (upd ss g scale) (\<lambda>ss.
       bindR (foldR (\<lambda>qs k. bindR (idx xs (g * gs + k)) (\<lambda>v.
                upd qs (g * gs + k) (quant_value lm scale v))) qs [0..<gs]) (\<lambda>qs.
       Ok (qs, ss))))) (qs, ss) [0..<groups])"

section \<open>Matrix times vector\<close>

definition dot_group :: "u8 list \<Rightarrow> qtensor \<Rightarrow> nat \<Rightarrow> nat \<Rightarrow> nat \<Rightarrow> (u32, 'e) outcome" where
  "dot_group xq w row j gs =
     foldR (\<lambda>ival k. bindR (idx xq (j + k)) (\<lambda>a. bindR (qi w (row + j + k)) (\<lambda>b.
       Ok (ival + word_of_int (sint a * b))))) 0 [0..<gs]"

definition matmul_row :: "u8 list \<Rightarrow> fl list \<Rightarrow> qtensor \<Rightarrow> nat \<Rightarrow> nat \<Rightarrow> nat \<Rightarrow> (fl, 'e) outcome" where
  "matmul_row xq xs w n gs i =
     foldR (\<lambda>acc j.
       bindR (dot_group xq w (i * n) j gs) (\<lambda>ival.
       bindR (qscale w ((i * n + j) div gs)) (\<lambda>s.
       bindR (idx xs (j div gs)) (\<lambda>v.
       Ok (f32_add acc (f32_mul (f32_mul (f32_of (sint ival)) s) v)))))) f32_zero (steps n gs)"

definition matmul ::
  "fl list \<Rightarrow> u8 list \<Rightarrow> fl list \<Rightarrow> qtensor \<Rightarrow> nat \<Rightarrow> nat \<Rightarrow> nat \<Rightarrow> (fl list, 'e) outcome"
where
  "matmul out xq xs w n d gs =
     foldR (\<lambda>out i. bindR (matmul_row xq xs w n gs i) (upd out i)) out [0..<d]"

section \<open>Quantizing to bytes\<close>

definition bytes_step ::
  "libm \<Rightarrow> fl list \<Rightarrow> nat \<Rightarrow> bytes \<times> fl list \<Rightarrow> nat \<Rightarrow> (bytes \<times> fl list, 'e) outcome"
where
  "bytes_step lm xs gs r g =
     bindR (group_scale lm xs (g * gs) gs) (\<lambda>scale.
     bindR (mapR (\<lambda>k. bindR (idx xs (g * gs + k)) (\<lambda>v. Ok (quant_value lm scale v))) [0..<gs]) (\<lambda>qs.
     Ok (fst r @ qs, snd r @ [scale])))"

definition quantize_to_bytes :: "libm \<Rightarrow> fl list \<Rightarrow> nat \<Rightarrow> (bytes, 'e) outcome" where
  "quantize_to_bytes lm xs gs =
     bindR (div_usize (length xs) gs) (\<lambda>groups.
     bindR (foldR (bytes_step lm xs gs) ([], []) [0..<groups]) (\<lambda>(out, scales).
     Ok (out @ concat (map (\<lambda>s. le32 (f32_to_bits s)) scales))))"

end
