(* ===== verification/Llm.thy ===== *)
theory Llm
  imports Kernels
begin

text \<open>
  \<open>tinyllm/src/model.rs\<close>: the buffers of a sequence with the cache of keys and values, in single
  precision or quantized to 8 bits, and one step of the transformer. An access out of range
  panics.
\<close>

section \<open>Buffers\<close>

record run_state =
  rs_x :: "fl list"
  rs_xb :: "fl list"
  rs_xb2 :: "fl list"
  rs_hb :: "fl list"
  rs_hb2 :: "fl list"
  rs_xq_q :: "u8 list"
  rs_xq_s :: "fl list"
  rs_hq_q :: "u8 list"
  rs_hq_s :: "fl list"
  rs_q :: "fl list"
  rs_k :: "fl list"
  rs_v :: "fl list"
  rs_att :: "fl list"
  rs_logits :: "fl list"
  rs_ctx :: nat
  rs_int8 :: bool
  rs_key_cache :: "fl list"
  rs_value_cache :: "fl list"
  rs_key_q :: "u8 list"
  rs_val_q :: "u8 list"
  rs_key_s :: "fl list"
  rs_val_s :: "fl list"

definition zf :: "nat \<Rightarrow> fl list" where "zf n = replicate n f32_zero"
definition zi :: "nat \<Rightarrow> u8 list" where "zi n = replicate n 0"

text \<open>
  \<open>room k n\<close> says whether the heap has room for the \<open>k\<close>-th allocation of a run, of \<open>n\<close> bytes;
  the first that fails ends the construction.
\<close>

definition try_with_cache :: "target \<Rightarrow> (nat \<Rightarrow> nat \<Rightarrow> bool) \<Rightarrow> config \<Rightarrow> nat \<Rightarrow> bool \<Rightarrow> run_state option" where
  "try_with_cache t room c ctx int8 =
     (let kv = kv_dim t c; gs = group_size c; cache = usz t (usz t (n_layers c * ctx) * kv);
          scales = usz t (usz t (n_layers c * ctx) * n_kv_heads c);
          att = usz t (n_heads c * ctx);
          floats = [dim c, dim c, dim c, hidden_dim c, hidden_dim c]; f = map (\<lambda>n. 4 * n);
          sizes = f floats @ [dim c, 4 * (dim c div gs), hidden_dim c, 4 * (hidden_dim c div gs),
            4 * dim c, 4 * kv, 4 * kv, 4 * att, 4 * vocab_size c,
            if int8 then 0 else 4 * cache, if int8 then 0 else 4 * cache,
            if int8 then cache else 0, if int8 then cache else 0,
            if int8 then 4 * scales else 0, if int8 then 4 * scales else 0]
      in if \<not> list_all (\<lambda>k. room k (sizes ! k)) [0..<length sizes] then None
         else Some \<lparr>rs_x = zf (dim c), rs_xb = zf (dim c), rs_xb2 = zf (dim c), rs_hb = zf (hidden_dim c),
           rs_hb2 = zf (hidden_dim c), rs_xq_q = zi (dim c), rs_xq_s = zf (dim c div gs),
           rs_hq_q = zi (hidden_dim c), rs_hq_s = zf (hidden_dim c div gs), rs_q = zf (dim c),
           rs_k = zf kv, rs_v = zf kv, rs_att = zf att, rs_logits = zf (vocab_size c),
           rs_ctx = ctx, rs_int8 = int8,
           rs_key_cache = zf (if int8 then 0 else cache), rs_value_cache = zf (if int8 then 0 else cache),
           rs_key_q = zi (if int8 then cache else 0), rs_val_q = zi (if int8 then cache else 0),
           rs_key_s = zf (if int8 then scales else 0), rs_val_s = zf (if int8 then scales else 0)\<rparr>)"

definition try_new_int8 :: "target \<Rightarrow> (nat \<Rightarrow> nat \<Rightarrow> bool) \<Rightarrow> config \<Rightarrow> nat \<Rightarrow> run_state option" where
  "try_new_int8 t room c max_ctx = try_with_cache t room c (min max_ctx (seq_len c)) True"

text \<open>\<open>new\<close> and \<open>new_int8\<close> panic when the heap is full.\<close>

definition run_state_new :: "target \<Rightarrow> (nat \<Rightarrow> nat \<Rightarrow> bool) \<Rightarrow> config \<Rightarrow> (run_state, 'e) outcome" where
  "run_state_new t room c = (case try_with_cache t room c (seq_len c) False of Some s \<Rightarrow> Ok s | None \<Rightarrow> Panic)"

definition new_int8 :: "target \<Rightarrow> (nat \<Rightarrow> nat \<Rightarrow> bool) \<Rightarrow> config \<Rightarrow> nat \<Rightarrow> (run_state, 'e) outcome" where
  "new_int8 t room c max_ctx = (case try_new_int8 t room c max_ctx of Some s \<Rightarrow> Ok s | None \<Rightarrow> Panic)"

definition heap_bytes :: "run_state \<Rightarrow> nat" where
  "heap_bytes s =
     (length (rs_x s) + length (rs_xb s) + length (rs_xb2 s) + length (rs_hb s) + length (rs_hb2 s)
      + length (rs_xq_s s) + length (rs_hq_s s) + length (rs_q s) + length (rs_k s) + length (rs_v s)
      + length (rs_att s) + length (rs_logits s) + length (rs_key_cache s) + length (rs_value_cache s)
      + length (rs_key_s s) + length (rs_val_s s)) * 4
     + length (rs_xq_q s) + length (rs_hq_q s) + length (rs_key_q s) + length (rs_val_q s)"

section \<open>Projections\<close>

text \<open>Norm and quantize the residual stream into \<open>xb\<close> and \<open>xq\<close>.\<close>

definition quantize_xb :: "libm \<Rightarrow> nat \<Rightarrow> run_state \<Rightarrow> (run_state, 'e) outcome" where
  "quantize_xb lm gs s = bindR (quantize lm (rs_xq_q s) (rs_xq_s s) (rs_xb s) gs) (\<lambda>(qs, ss).
     Ok (s\<lparr>rs_xq_q := qs, rs_xq_s := ss\<rparr>))"

definition norm_xb :: "libm \<Rightarrow> nat \<Rightarrow> bytes \<Rightarrow> run_state \<Rightarrow> (run_state, 'e) outcome" where
  "norm_xb lm gs w s = bindR (rmsnorm lm (rs_xb s) (rs_x s) w) (\<lambda>xb. quantize_xb lm gs (s\<lparr>rs_xb := xb\<rparr>))"

definition project_qkv ::
  "target \<Rightarrow> libm \<Rightarrow> model \<Rightarrow> nat \<Rightarrow> run_state \<Rightarrow> (run_state, 'e) outcome"
where
  "project_qkv t lm m l s =
     (let c = m_config m; gs = group_size c; mul = (\<lambda>s out g d. bindR (tensor t g (m_buf m) l) (\<lambda>w.
            matmul out (rs_xq_q s) (rs_xq_s s) w (dim c) d gs)) in
      bindR (rms_att_row t m l) (\<lambda>w.
      bindR (norm_xb lm gs w s) (\<lambda>s.
      bindR (mul s (rs_q s) (m_wq m) (dim c)) (\<lambda>qs.
      bindR (mul s (rs_k s) (m_wk m) (kv_dim t c)) (\<lambda>ks.
      bindR (mul s (rs_v s) (m_wv m) (kv_dim t c)) (\<lambda>vs.
      Ok (s\<lparr>rs_q := qs, rs_k := ks, rs_v := vs\<rparr>)))))))"

section \<open>Rotary positions\<close>

definition rotate :: "fl \<Rightarrow> fl \<Rightarrow> nat \<Rightarrow> fl list \<Rightarrow> (fl list, 'e) outcome" where
  "rotate fcr fci i xs =
     bindR (idx xs i) (\<lambda>v0. bindR (idx xs (i + 1)) (\<lambda>v1.
     bindR (upd xs i (f32_sub (f32_mul v0 fcr) (f32_mul v1 fci))) (\<lambda>xs.
     upd xs (i + 1) (f32_add (f32_mul v0 fci) (f32_mul v1 fcr)))))"

definition rope :: "target \<Rightarrow> libm \<Rightarrow> config \<Rightarrow> nat \<Rightarrow> run_state \<Rightarrow> (run_state, 'e) outcome" where
  "rope t lm c pos s =
     foldR (\<lambda>s i.
       let head_dim = f32_of (int (i mod head_size c));
           freq = f32_div f32_one (lm_pow lm (f32_of 10000) (f32_div head_dim (f32_of (int (head_size c)))));
           v = f32_mul (f32_of (int pos)) freq; fcr = lm_cos lm v; fci = lm_sin lm v
       in bindR (rotate fcr fci i (rs_q s)) (\<lambda>qs.
          bindR (if i < kv_dim t c then rotate fcr fci i (rs_k s) else Ok (rs_k s)) (\<lambda>ks.
          Ok (s\<lparr>rs_q := qs, rs_k := ks\<rparr>)))) s (steps (dim c) 2)"

section \<open>The cache\<close>

text \<open>\<open>xs[i..j].copy_from_slice(ys)\<close>, and a quantization into two slices.\<close>

definition copy_slice :: "nat \<Rightarrow> nat \<Rightarrow> 'a list \<Rightarrow> 'a list \<Rightarrow> ('a list, 'e) outcome" where
  "copy_slice i j ys xs = bindR (slice i j xs) (\<lambda>old. if length old = length ys then Ok (put i ys xs) else Panic)"

definition quantize_slice ::
  "libm \<Rightarrow> nat \<Rightarrow> nat \<Rightarrow> nat \<Rightarrow> nat \<Rightarrow> fl list \<Rightarrow> nat \<Rightarrow> u8 list \<Rightarrow> fl list \<Rightarrow> (u8 list \<times> fl list, 'e) outcome"
where
  "quantize_slice lm row n si ns xs gs qs ss =
     bindR (slice row (row + n) qs) (\<lambda>q0. bindR (slice si (si + ns) ss) (\<lambda>s0.
     bindR (quantize lm q0 s0 xs gs) (\<lambda>(q1, s1). Ok (put row q1 qs, put si s1 ss))))"

definition store_kv :: "target \<Rightarrow> libm \<Rightarrow> config \<Rightarrow> nat \<Rightarrow> nat \<Rightarrow> run_state \<Rightarrow> (run_state, 'e) outcome" where
  "store_kv t lm c l pos s =
     (let kv = kv_dim t c; row = l * rs_ctx s * kv + pos * kv; nkv = n_kv_heads c;
          si = (l * rs_ctx s + pos) * nkv in
      bindR (slice 0 kv (rs_k s)) (\<lambda>ks. bindR (slice 0 kv (rs_v s)) (\<lambda>vs.
      if rs_int8 s then
        bindR (quantize_slice lm row kv si nkv ks (head_size c) (rs_key_q s) (rs_key_s s)) (\<lambda>(kq, kss).
        bindR (quantize_slice lm row kv si nkv vs (head_size c) (rs_val_q s) (rs_val_s s)) (\<lambda>(vq, vss).
        Ok (s\<lparr>rs_key_q := kq, rs_key_s := kss, rs_val_q := vq, rs_val_s := vss\<rparr>)))
      else
        bindR (copy_slice row (row + kv) ks (rs_key_cache s)) (\<lambda>kc.
        bindR (copy_slice row (row + kv) vs (rs_value_cache s)) (\<lambda>vc.
        Ok (s\<lparr>rs_key_cache := kc, rs_value_cache := vc\<rparr>))))))"

section \<open>Attention\<close>

text \<open>One product with a cached number: \<open>a * cached\<close>, or \<open>a * quantized * scale\<close>.\<close>

definition cached_scale :: "bool \<Rightarrow> fl list \<Rightarrow> nat \<Rightarrow> (fl, 'e) outcome" where
  "cached_scale int8 ss i = (if int8 then idx ss i else Ok f32_zero)"

definition cached_term :: "bool \<Rightarrow> fl list \<Rightarrow> u8 list \<Rightarrow> fl \<Rightarrow> fl \<Rightarrow> nat \<Rightarrow> (fl, 'e) outcome" where
  "cached_term int8 cf cq cs a k =
     (if int8 then bindR (idx cq k) (\<lambda>b. Ok (f32_mul (f32_mul a (f32_of (sint b))) cs))
      else bindR (idx cf k) (\<lambda>b. Ok (f32_mul a b)))"

definition attn_score :: "config \<Rightarrow> nat \<Rightarrow> nat \<Rightarrow> nat \<Rightarrow> run_state \<Rightarrow> nat \<Rightarrow> nat \<Rightarrow> (fl, 'e) outcome" where
  "attn_score c kv l g s h u =
     (let hs = head_size c; koff = l * rs_ctx s * kv + u * kv + g * hs in
      bindR (cached_scale (rs_int8 s) (rs_key_s s) ((l * rs_ctx s + u) * n_kv_heads c + g)) (\<lambda>cs.
      foldR (\<lambda>score j.
        bindR (idx (rs_q s) (h * hs + j)) (\<lambda>a.
        bindR (cached_term (rs_int8 s) (rs_key_cache s) (rs_key_q s) cs a (koff + j)) (\<lambda>p.
        Ok (f32_add score p)))) f32_zero [0..<hs]))"

definition attn_value ::
  "config \<Rightarrow> nat \<Rightarrow> nat \<Rightarrow> nat \<Rightarrow> run_state \<Rightarrow> nat \<Rightarrow> fl list \<Rightarrow> nat \<Rightarrow> (fl list, 'e) outcome"
where
  "attn_value c kv l g s h xb u =
     (let hs = head_size c; voff = l * rs_ctx s * kv + u * kv + g * hs in
      bindR (idx (rs_att s) (h * rs_ctx s + u)) (\<lambda>a.
      bindR (cached_scale (rs_int8 s) (rs_val_s s) ((l * rs_ctx s + u) * n_kv_heads c + g)) (\<lambda>cs.
      foldR (\<lambda>xb j.
        bindR (cached_term (rs_int8 s) (rs_value_cache s) (rs_val_q s) cs a (voff + j)) (\<lambda>p.
        bindR (idx xb (h * hs + j)) (\<lambda>v. upd xb (h * hs + j) (f32_add v p)))) xb [0..<hs])))"

definition attn_weights ::
  "libm \<Rightarrow> config \<Rightarrow> nat \<Rightarrow> nat \<Rightarrow> nat \<Rightarrow> nat \<Rightarrow> run_state \<Rightarrow> nat \<Rightarrow> (fl list, 'e) outcome"
where
  "attn_weights lm c kv l pos g s h =
     (let aoff = h * rs_ctx s; scale = f32_div f32_one (lm_sqrt lm (f32_of (int (head_size c)))) in
      bindR (foldR (\<lambda>att u. bindR (attn_score c kv l g s h u) (\<lambda>sc. upd att (aoff + u) (f32_mul sc scale)))
               (rs_att s) [0..<pos + 1]) (\<lambda>att.
      bindR (slice aoff (aoff + pos + 1) att) (\<lambda>ws. Ok (put aoff (softmax lm ws) att))))"

definition attend_head ::
  "target \<Rightarrow> libm \<Rightarrow> config \<Rightarrow> nat \<Rightarrow> nat \<Rightarrow> nat \<Rightarrow> run_state \<Rightarrow> nat \<Rightarrow> (run_state, 'e) outcome"
where
  "attend_head t lm c l pos kv_mul s h =
     (let kv = kv_dim t c; hs = head_size c in
      bindR (div_usize h kv_mul) (\<lambda>g.
      bindR (attn_weights lm c kv l pos g s h) (\<lambda>att.
      let s = s\<lparr>rs_att := att\<rparr> in
      bindR (foldR (\<lambda>xb j. upd xb (h * hs + j) f32_zero) (rs_xb s) [0..<hs]) (\<lambda>xb.
      bindR (foldR (attn_value c kv l g s h) xb [0..<pos + 1]) (\<lambda>xb.
      Ok (s\<lparr>rs_xb := xb\<rparr>))))))"

section \<open>One step\<close>

definition add_into :: "fl list \<Rightarrow> fl list \<Rightarrow> nat \<Rightarrow> (fl list, 'e) outcome" where
  "add_into xs ys n = foldR (\<lambda>xs i. bindR (idx xs i) (\<lambda>a. bindR (idx ys i) (\<lambda>b. upd xs i (f32_add a b)))) xs [0..<n]"

definition project_out :: "target \<Rightarrow> libm \<Rightarrow> model \<Rightarrow> nat \<Rightarrow> run_state \<Rightarrow> (run_state, 'e) outcome" where
  "project_out t lm m l s =
     (let c = m_config m; gs = group_size c in
      bindR (quantize_xb lm gs s) (\<lambda>s.
      bindR (tensor t (m_wo m) (m_buf m) l) (\<lambda>w.
      bindR (matmul (rs_xb2 s) (rs_xq_q s) (rs_xq_s s) w (dim c) (dim c) gs) (\<lambda>xb2.
      bindR (add_into (rs_x s) xb2 (dim c)) (\<lambda>xs.
      Ok (s\<lparr>rs_xb2 := xb2, rs_x := xs\<rparr>))))))"

definition gate :: "libm \<Rightarrow> fl list \<Rightarrow> fl list \<Rightarrow> nat \<Rightarrow> (fl list, 'e) outcome" where
  "gate lm hb hb2 n = foldR (\<lambda>hb i. bindR (idx hb i) (\<lambda>a. bindR (idx hb2 i) (\<lambda>b.
     upd hb i (f32_mul (silu lm a) b)))) hb [0..<n]"

definition feed_forward :: "target \<Rightarrow> libm \<Rightarrow> model \<Rightarrow> nat \<Rightarrow> run_state \<Rightarrow> (run_state, 'e) outcome" where
  "feed_forward t lm m l s =
     (let c = m_config m; gs = group_size c; n = hidden_dim c in
      bindR (rms_ffn_row t m l) (\<lambda>w.
      bindR (norm_xb lm gs w s) (\<lambda>s.
      bindR (tensor t (m_w1 m) (m_buf m) l) (\<lambda>w1.
      bindR (matmul (rs_hb s) (rs_xq_q s) (rs_xq_s s) w1 (dim c) n gs) (\<lambda>hb.
      bindR (tensor t (m_w3 m) (m_buf m) l) (\<lambda>w3.
      bindR (matmul (rs_hb2 s) (rs_xq_q s) (rs_xq_s s) w3 (dim c) n gs) (\<lambda>hb2.
      bindR (gate lm hb hb2 n) (\<lambda>hb.
      bindR (quantize lm (rs_hq_q s) (rs_hq_s s) hb gs) (\<lambda>(hq, hss).
      bindR (tensor t (m_w2 m) (m_buf m) l) (\<lambda>w2.
      bindR (matmul (rs_xb s) hq hss w2 n (dim c) gs) (\<lambda>xb.
      bindR (add_into (rs_x s) xb (dim c)) (\<lambda>xs.
      Ok (s\<lparr>rs_hb := hb, rs_hb2 := hb2, rs_hq_q := hq, rs_hq_s := hss, rs_xb := xb, rs_x := xs\<rparr>)))))))))))))"

definition layer ::
  "target \<Rightarrow> libm \<Rightarrow> model \<Rightarrow> nat \<Rightarrow> nat \<Rightarrow> run_state \<Rightarrow> nat \<Rightarrow> (run_state, 'e) outcome"
where
  "layer t lm m kv_mul pos s l =
     (let c = m_config m in
      bindR (project_qkv t lm m l s) (\<lambda>s.
      bindR (rope t lm c pos s) (\<lambda>s.
      bindR (store_kv t lm c l pos s) (\<lambda>s.
      bindR (foldR (attend_head t lm c l pos kv_mul) s [0..<n_heads c]) (\<lambda>s.
      bindR (project_out t lm m l s) (\<lambda>s.
      feed_forward t lm m l s))))))"

definition classify :: "target \<Rightarrow> libm \<Rightarrow> model \<Rightarrow> run_state \<Rightarrow> (run_state, 'e) outcome" where
  "classify t lm m s =
     (let c = m_config m; gs = group_size c in
      if length (rs_xb s) \<noteq> length (rs_x s) then Panic
      else
       (let s = s\<lparr>rs_xb := rs_x s\<rparr> in
        bindR (rms_final_row t m) (\<lambda>w.
        bindR (rmsnorm lm (rs_x s) (rs_xb s) w) (\<lambda>xs.
        bindR (quantize lm (rs_xq_q s) (rs_xq_s s) xs gs) (\<lambda>(qs, ss).
        bindR (tensor t (m_wcls m) (m_buf m) 0) (\<lambda>w.
        bindR (matmul (rs_logits s) qs ss w (dim c) (vocab_size c) gs) (\<lambda>out.
        Ok (s\<lparr>rs_x := xs, rs_xq_q := qs, rs_xq_s := ss, rs_logits := out\<rparr>))))))))"

definition forward :: "target \<Rightarrow> libm \<Rightarrow> model \<Rightarrow> run_state \<Rightarrow> nat \<Rightarrow> nat \<Rightarrow> (run_state, 'e) outcome" where
  "forward t lm m s token pos =
     (let c = m_config m in
      bindR (div_usize (n_heads c) (n_kv_heads c)) (\<lambda>kv_mul.
      bindR (embed_row t m token (rs_x s)) (\<lambda>xs.
      bindR (foldR (layer t lm m kv_mul pos) (s\<lparr>rs_x := xs\<rparr>) [0..<n_layers c]) (\<lambda>s.
      classify t lm m s))))"

end
