(* ===== verification/Sampler.thy ===== *)
theory Sampler
  imports Kernels Http
begin

text \<open>
  \<open>tinyllm/src/sampler.rs\<close>: the greedy choice, the xorshift generator and sampling from the whole
  distribution or its nucleus. \<open>sort_unstable_by\<close> is a parameter, since it leaves the order of
  equal elements open.
\<close>

record sampler =
  sm_temperature :: fl
  sm_topp :: fl
  sm_rng :: u64

type_synonym sorter = "(nat \<times> fl) list \<Rightarrow> (nat \<times> fl) list"

definition sampler_new :: "fl \<Rightarrow> fl \<Rightarrow> u64 \<Rightarrow> sampler" where
  "sampler_new temperature topp seed =
     \<lparr>sm_temperature = temperature, sm_topp = topp, sm_rng = (if seed = 0 then 1 else seed)\<rparr>"

definition xorshift :: "u64 \<Rightarrow> u64" where
  "xorshift r =
     (let r = r XOR drop_bit 12 r; r = r XOR push_bit 25 r in r XOR drop_bit 27 r)"

definition random_u32 :: "sampler \<Rightarrow> u32 \<times> sampler" where
  "random_u32 s = (let r = xorshift (sm_rng s) in
     (ucast (drop_bit 32 (r * 0x2545F4914F6CDD1D)), s\<lparr>sm_rng := r\<rparr>))"

definition random_f32 :: "sampler \<Rightarrow> fl \<times> sampler" where
  "random_f32 s = (case random_u32 s of (u, s) \<Rightarrow>
     (f32_div (f32_of (uint (drop_bit 8 u))) (f32_of 16777216), s))"

definition argmax :: "fl list \<Rightarrow> nat" where
  "argmax v = fst (foldl (\<lambda>(best, best_v) (i, x). if flt best_v x then (i, x) else (best, best_v))
     (0, FInf True) (zip [0..<length v] v))"

text \<open>The first entry at which the running sum passes the coin.\<close>

fun pick :: "fl \<Rightarrow> fl \<Rightarrow> (nat \<times> fl) list \<Rightarrow> nat option" where
  "pick coin cdf [] = None"
| "pick coin cdf ((i, p) # ps) =
     (let cdf = f32_add cdf p in if flt coin cdf then Some i else pick coin cdf ps)"

definition sample_mult :: "target \<Rightarrow> fl list \<Rightarrow> fl \<Rightarrow> nat" where
  "sample_mult t probs coin = (case pick coin f32_zero (zip [0..<length probs] probs) of
     Some i \<Rightarrow> i | None \<Rightarrow> usize_sub t (length probs) 1)"

text \<open>The cumulative sum up to the entry that passes \<open>topp\<close>, and the place of that entry.\<close>

fun nucleus :: "fl \<Rightarrow> nat \<Rightarrow> fl \<Rightarrow> (nat \<times> fl) list \<Rightarrow> nat \<Rightarrow> fl \<times> nat" where
  "nucleus topp i acc [] k = (acc, k)"
| "nucleus topp i acc ((j, p) # ps) k =
     (let acc = f32_add acc p in if flt topp acc then (acc, i) else nucleus topp (i + 1) acc ps k)"

definition topp_cutoff :: "fl \<Rightarrow> nat \<Rightarrow> fl" where
  "topp_cutoff topp n = f32_div (f32_sub f32_one topp) (f32_sub (f32_of (int n)) f32_one)"

definition sample_topp :: "sorter \<Rightarrow> fl \<Rightarrow> fl list \<Rightarrow> fl \<Rightarrow> (nat, 'e) outcome" where
  "sample_topp srt topp probs coin =
     (let cutoff = topp_cutoff topp (length probs);
          probindex = srt (filter (\<lambda>(i, p). fle cutoff p) (zip [0..<length probs] probs));
          (cumulative, k) = nucleus topp 0 f32_zero probindex (length probindex - 1);
          r = f32_mul coin cumulative
      in if k \<ge> length probindex then Panic
         else Ok (case pick r f32_zero (take (k + 1) probindex) of
                    Some i \<Rightarrow> i | None \<Rightarrow> fst (probindex ! k)))"

definition sample :: "target \<Rightarrow> libm \<Rightarrow> sorter \<Rightarrow> fl list \<Rightarrow> sampler \<Rightarrow> (nat \<times> sampler, 'e) outcome" where
  "sample t lm srt logits s =
     (if feq (sm_temperature s) f32_zero then Ok (argmax logits, s)
      else
       (let probs = softmax lm (map (\<lambda>v. f32_div v (sm_temperature s)) logits);
            (coin, s) = random_f32 s
        in if fle (sm_topp s) f32_zero \<or> fle f32_one (sm_topp s) then Ok (sample_mult t probs coin, s)
           else bindR (sample_topp srt (sm_topp s) probs coin) (\<lambda>i. Ok (i, s))))"

end
