(* ===== verification/Tokenizer.thy ===== *)
theory Tokenizer
  imports Arrays
begin

text \<open>
  \<open>tinyllm/src/tokenizer.rs\<close>: the reader of the vocabulary, the byte-pair encoder and the
  decoder. A text is well-formed UTF-8; the search for the best merge reads the vocabulary by
  token and panics on a token outside it.
\<close>

section \<open>The vocabulary\<close>

definition BOS :: nat where "BOS = 1"
definition EOS :: nat where "EOS = 2"

datatype tokenizer_error = TokTruncated | VocabMismatch

record tokenizer =
  tk_vocab :: "bytes list"
  tk_scores :: "fl list"

definition get_range :: "nat \<Rightarrow> nat \<Rightarrow> 'a list \<Rightarrow> 'a list option" where
  "get_range i j xs = (if i \<le> j \<and> j \<le> length xs then Some (cut i j xs) else None)"

definition tok_u32 :: "bytes \<Rightarrow> nat \<Rightarrow> (u32, tokenizer_error) outcome" where
  "tok_u32 buf off = ok_or (map_option (\<lambda>b. get32le 0 b) (get_range off (off + 4) buf)) TokTruncated"

text \<open>The length is a signed number cast to \<open>usize\<close>.\<close>

definition as_usize :: "target \<Rightarrow> u32 \<Rightarrow> nat" where
  "as_usize t w = nat (sint w mod 2 ^ usize_bits t)"

fun read_vocab :: "target \<Rightarrow> nat \<Rightarrow> bytes \<Rightarrow> nat \<Rightarrow> ((bytes \<times> fl) list, tokenizer_error) outcome" where
  "read_vocab t 0 buf off = Ok []"
| "read_vocab t (Suc n) buf off =
     bindR (tok_u32 buf off) (\<lambda>score.
     bindR (tok_u32 buf (off + 4)) (\<lambda>w.
     let off = off + 8; stop = usz t (off + as_usize t w) in
     bindR (ok_or (get_range off stop buf) TokTruncated) (\<lambda>piece.
     bindR (read_vocab t n buf stop) (\<lambda>rest. Ok ((piece, f32_of_bits score) # rest)))))"

definition tokenizer_from_bytes :: "target \<Rightarrow> bytes \<Rightarrow> nat \<Rightarrow> (tokenizer, tokenizer_error) outcome" where
  "tokenizer_from_bytes t buf vocab_size =
     bindR (tok_u32 buf 0) (\<lambda>max_len.
     bindR (read_vocab t vocab_size buf 4) (\<lambda>entries.
     if length entries \<noteq> vocab_size then Err VocabMismatch
     else Ok \<lparr>tk_vocab = map fst entries, tk_scores = map snd entries\<rparr>))"

text \<open>The first position of a value.\<close>

fun position :: "'a \<Rightarrow> 'a list \<Rightarrow> nat option" where
  "position v [] = None"
| "position v (x # xs) = (if x = v then Some 0 else map_option Suc (position v xs))"

definition find_token :: "tokenizer \<Rightarrow> bytes \<Rightarrow> nat option" where
  "find_token tk s = position s (tk_vocab tk)"

section \<open>Encoding\<close>

definition byte_token :: "tokenizer \<Rightarrow> u8 \<Rightarrow> nat" where
  "byte_token tk b = (if unat b + 3 < length (tk_vocab tk) then unat b + 3 else 0)"

definition char_tokens :: "tokenizer \<Rightarrow> string \<Rightarrow> nat list" where
  "char_tokens tk ch = (case find_token tk (of_text ch) of
     Some i \<Rightarrow> [i] | None \<Rightarrow> map (byte_token tk) (of_text ch))"

definition space_tokens :: "tokenizer \<Rightarrow> string \<Rightarrow> nat list" where
  "space_tokens tk txt = (if txt = [] then [] else case find_token tk (of_text '' '') of Some i \<Rightarrow> [i] | None \<Rightarrow> [])"

text \<open>One pair against the best so far: its score, and the merged token with its place.\<close>

definition try_pair ::
  "tokenizer \<Rightarrow> nat list \<Rightarrow> fl \<times> (nat \<times> nat) option \<Rightarrow> nat \<Rightarrow> (fl \<times> (nat \<times> nat) option, 'e) outcome"
where
  "try_pair tk tokens best i =
     bindR (idx (tk_vocab tk) (tokens ! i)) (\<lambda>a.
     bindR (idx (tk_vocab tk) (tokens ! (i + 1))) (\<lambda>b.
     case find_token tk (a @ b) of
       None \<Rightarrow> Ok best
     | Some j \<Rightarrow> bindR (idx (tk_scores tk) j) (\<lambda>score.
         Ok (if flt (fst best) score then (score, Some (j, i)) else best))))"

definition best_pair :: "tokenizer \<Rightarrow> nat list \<Rightarrow> ((nat \<times> nat) option, 'e) outcome" where
  "best_pair tk tokens =
     bindR (foldR (try_pair tk tokens) (FInf True, None) [0..<length tokens - 1]) (\<lambda>best. Ok (snd best))"

lemma best_pair_place:
  assumes "(best_pair tk tokens :: (_, 'e) outcome) = Ok (Some (j, i))"
  shows "i + 1 < length tokens"
proof -
  obtain sc where f: "(foldR (try_pair tk tokens) (FInf True, None) [0..<length tokens - 1] :: (_, 'e) outcome)
      = Ok (sc, Some (j, i))"
    using assms by (auto simp: best_pair_def bindR_eq_Ok)
  have "case snd (sc, Some (j, i)) of None \<Rightarrow> True | Some (j, i) \<Rightarrow> i < length tokens - 1"
    by (rule foldR_inv [OF f]) (auto simp: try_pair_def bindR_eq_Ok split: option.splits if_splits)
  then show ?thesis by simp
qed

function merge_loop :: "tokenizer \<Rightarrow> nat list \<Rightarrow> (nat list, 'e) outcome" where
  "merge_loop tk tokens = bindR (best_pair tk tokens) (\<lambda>best. case best of
     None \<Rightarrow> Ok tokens
   | Some (j, i) \<Rightarrow> merge_loop tk (take i tokens @ j # drop (i + 2) tokens))"
  by pat_completeness auto
termination
  by (relation "measure (\<lambda>(tk, tokens). length tokens)") (auto dest!: best_pair_place)

declare merge_loop.simps [simp del]

definition encode :: "tokenizer \<Rightarrow> string \<Rightarrow> bool \<Rightarrow> bool \<Rightarrow> (nat list, 'e) outcome" where
  "encode tk txt bos eos =
     bindR (merge_loop tk ((if bos then [BOS] else []) @ space_tokens tk txt
                           @ concat (map (char_tokens tk) (utf8_chars txt)))) (\<lambda>tokens.
     Ok (if eos then tokens @ [EOS] else tokens))"

section \<open>Decoding\<close>

definition token_hex :: "u8 \<Rightarrow> u8 option" where
  "token_hex c =
     (if 48 \<le> c \<and> c \<le> 57 then Some (c - 48)
      else if 97 \<le> c \<and> c \<le> 102 then Some (c - 97 + 10)
      else if 65 \<le> c \<and> c \<le> 70 then Some (c - 65 + 10) else None)"

definition parse_hex_byte :: "bytes \<Rightarrow> u8 option" where
  "parse_hex_byte p =
     (if length p = 6 \<and> take 3 p = of_text ''<0x'' \<and> p ! 5 = 62
      then Option.bind (token_hex (p ! 3)) (\<lambda>hi. Option.bind (token_hex (p ! 4)) (\<lambda>lo.
        Some (push_bit 4 hi OR lo)))
      else None)"

definition decode :: "tokenizer \<Rightarrow> nat \<Rightarrow> nat \<Rightarrow> bytes" where
  "decode tk prev token =
     (if token \<ge> length (tk_vocab tk) then []
      else
       (let piece = tk_vocab tk ! token;
            p = (if prev = BOS \<and> piece \<noteq> [] \<and> hd piece = 32 then tl piece else piece)
        in case parse_hex_byte p of Some b \<Rightarrow> [b] | None \<Rightarrow> p))"

end
