(* ===== verification/DeviceLlm.thy ===== *)
theory DeviceLlm
  imports Llm Sampler Tokenizer Web
begin

text \<open>
  \<open>src/device_llm.rs\<close>: the job of the worker thread, which prepares the context of a prompt and
  runs the greedy loop over the model in flash, and the threads around the flag and the result
  under the lock: callers that start and poll, and the worker that takes the prompts off its
  channel.
\<close>

section \<open>Preparing\<close>

definition MAX_CTX :: nat where "MAX_CTX = 32"
definition MAX_NEW :: nat where "MAX_NEW = 24"

text \<open>The blobs of the model partition: the mapped weights, and the copied tokenizer.\<close>

record llm_image =
  im_model :: "bytes option"
  im_tok :: "bytes option"

record prepared =
  pr_model :: bytes
  pr_tok :: tokenizer
  pr_state :: run_state
  pr_tokens :: "nat list"
  pr_vocab :: nat

definition hex_u32 :: "u32 \<Rightarrow> string" where
  "hex_u32 w = concat (map (\<lambda>b. [''0123456789abcdef'' ! unat (drop_bit 4 b), ''0123456789abcdef'' ! unat (b AND 15)]) (be32 w))"

fun show_model_error :: "model_error \<Rightarrow> string" where
  "show_model_error TooShort = ''checkpoint shorter than the 256-byte header''"
| "show_model_error (BadMagic m) = ''bad magic 0x'' @ hex_u32 m @ '' (expected 0x616b3432 '' @ [CHR 0x27] @ ''ak42''
     @ [CHR 0x27] @ '')''"
| "show_model_error (BadVersion v) = ''unsupported version '' @ show_int (sint v) @ '' (expected 2)''"
| "show_model_error BadConfig = ''invalid config (zero dim or group_size mismatch)''"
| "show_model_error ModelTruncated = ''checkpoint truncated: tensors exceed buffer''"

definition low_cache :: "u32 \<Rightarrow> u32 \<Rightarrow> string" where
  "low_cache free largest = ''low memory: can'' @ [CHR 0x27] @ ''t allocate the int8 KV cache (free '' @ show_nat (unat free)
     @ '' B, largest block '' @ show_nat (unat largest) @ '' B) '' @ dash @ '' try again when idle''"

text \<open>\<open>free\<close> and \<open>largest\<close> are what the heap reports when the cache does not fit.\<close>

definition prepare ::
  "target \<Rightarrow> (nat \<Rightarrow> nat \<Rightarrow> bool) \<Rightarrow> u32 \<Rightarrow> u32 \<Rightarrow> llm_image \<Rightarrow> string \<Rightarrow> (prepared, string) outcome"
where
  "prepare t room free largest img prompt =
     bindR (ok_or (im_model img) ''error: no model image flashed'') (\<lambda>mb.
     bindR (ok_or (im_tok img) ''error: no tokenizer'') (\<lambda>tb.
     case model_parse t mb of
       Err e \<Rightarrow> Err (''error: model parse '' @ show_model_error e)
     | Panic \<Rightarrow> Panic
     | Ok m \<Rightarrow>
        (case tokenizer_from_bytes t tb (vocab_size (m_config m)) of
           Err e \<Rightarrow> Err ''error: tokenizer parse''
         | Panic \<Rightarrow> Panic
         | Ok tk \<Rightarrow>
            bindR (encode tk prompt True False) (\<lambda>tokens.
            if tokens = [] then Err ''error: empty prompt''
            else case try_new_int8 t room (m_config m) MAX_CTX of
              None \<Rightarrow> Err (low_cache free largest)
            | Some s \<Rightarrow> Ok \<lparr>pr_model = mb, pr_tok = tk, pr_state = s, pr_tokens = tokens,
                           pr_vocab = vocab_size (m_config m)\<rparr>))))"

section \<open>The loop\<close>

function gen_loop ::
  "target \<Rightarrow> libm \<Rightarrow> sorter \<Rightarrow> model \<Rightarrow> tokenizer \<Rightarrow> nat list \<Rightarrow> nat \<Rightarrow> run_state \<Rightarrow> sampler \<Rightarrow> nat \<Rightarrow> nat
     \<Rightarrow> string \<Rightarrow> (string, 'e) outcome"
where
  "gen_loop t lm srt m tk prompt lim s sampler token pos out =
     (if pos < lim then
        bindR (forward t lm m s token pos) (\<lambda>s.
        bindR (if pos + 1 < length prompt then Ok (prompt ! (pos + 1), sampler)
               else sample t lm srt (rs_logits s) sampler) (\<lambda>(next, sampler).
        if next = BOS \<or> next = EOS then Ok out
        else gen_loop t lm srt m tk prompt lim s sampler next (pos + 1)
               (if pos + 1 \<ge> length prompt then out @ from_utf8_lossy (to_text (decode tk token next)) else out)))
      else Ok out)"
  by pat_completeness auto
termination
  by (relation "measure (\<lambda>(t, lm, srt, m, tk, prompt, lim, s, sampler, token, pos, out). lim - pos)") auto

declare gen_loop.simps [simp del]

definition run_loop :: "target \<Rightarrow> libm \<Rightarrow> sorter \<Rightarrow> prepared \<Rightarrow> (string, 'e) outcome" where
  "run_loop t lm srt p = (case model_parse t (pr_model p) of
     Err e \<Rightarrow> Ok (''error: model parse '' @ show_model_error e)
   | Panic \<Rightarrow> Panic
   | Ok m \<Rightarrow>
      bindR (idx (pr_tokens p) 0) (\<lambda>token.
      bindR (gen_loop t lm srt m (pr_tok p) (pr_tokens p) (min (length (pr_tokens p) + MAX_NEW) MAX_CTX)
               (pr_state p) (sampler_new f32_zero (of_decimal binary32 False 9 (- 1)) 1) token 0 []) (\<lambda>out.
      Ok (if out = [] then ''(no output)'' else out))))"

definition worker_job ::
  "target \<Rightarrow> libm \<Rightarrow> sorter \<Rightarrow> (nat \<Rightarrow> nat \<Rightarrow> bool) \<Rightarrow> u32 \<Rightarrow> u32 \<Rightarrow> llm_image \<Rightarrow> string \<Rightarrow> (string, unit) outcome"
where
  "worker_job t lm srt room free largest img prompt = (case prepare t room free largest img prompt of
     Ok p \<Rightarrow> run_loop t lm srt p | Err e \<Rightarrow> Ok e | Panic \<Rightarrow> Panic)"

section \<open>The threads\<close>

text \<open>
  A caller of \<open>start\<close> is idle, or has read the flag as clear, or has set it and not yet sent its
  prompt. The worker waits for a prompt or works on one. Every step is one critical section or
  one operation of the channel, and \<open>answer p\<close> is what the worker makes of \<open>p\<close>.
\<close>

datatype caller = Idle | Checked string | Claimed string

record gen_sys =
  gs_flag :: bool
  gs_result :: "string option"
  gs_queue :: "string list"
  gs_work :: "string option"
  gs_callers :: "caller list"

inductive gen_step :: "(string \<Rightarrow> string) \<Rightarrow> gen_sys \<Rightarrow> gen_sys \<Rightarrow> bool" for answer where
  check: "i < length (gs_callers y) \<Longrightarrow> gs_callers y ! i = Idle \<Longrightarrow> \<not> gs_flag y \<Longrightarrow>
    gen_step answer y (y\<lparr>gs_callers := (gs_callers y)[i := Checked p]\<rparr>)"
| refuse: "i < length (gs_callers y) \<Longrightarrow> gs_callers y ! i = Checked p \<Longrightarrow>
    gen_step answer y (y\<lparr>gs_callers := (gs_callers y)[i := Idle]\<rparr>)"
| claim: "i < length (gs_callers y) \<Longrightarrow> gs_callers y ! i = Checked p \<Longrightarrow>
    gen_step answer y (y\<lparr>gs_flag := True, gs_callers := (gs_callers y)[i := Claimed p]\<rparr>)"
| send: "i < length (gs_callers y) \<Longrightarrow> gs_callers y ! i = Claimed p \<Longrightarrow>
    gen_step answer y (y\<lparr>gs_queue := gs_queue y @ [p], gs_callers := (gs_callers y)[i := Idle]\<rparr>)"
| recv: "gs_work y = None \<Longrightarrow> gs_queue y = p # ps \<Longrightarrow>
    gen_step answer y (y\<lparr>gs_queue := ps, gs_work := Some p\<rparr>)"
| finish: "gs_work y = Some p \<Longrightarrow>
    gen_step answer y (y\<lparr>gs_work := None, gs_result := Some (answer p), gs_flag := False\<rparr>)"
| poll: "\<not> gs_flag y \<Longrightarrow> gen_step answer y (y\<lparr>gs_result := None\<rparr>)"

definition gen_start :: "nat \<Rightarrow> gen_sys" where
  "gen_start n = \<lparr>gs_flag = False, gs_result = None, gs_queue = [], gs_work = None, gs_callers = replicate n Idle\<rparr>"

inductive gen_reach :: "(string \<Rightarrow> string) \<Rightarrow> nat \<Rightarrow> gen_sys \<Rightarrow> bool" for answer n where
  start: "gen_reach answer n (gen_start n)"
| step: "gen_reach answer n y \<Longrightarrow> gen_step answer y z \<Longrightarrow> gen_reach answer n z"

inductive_cases gen_stepE: "gen_step answer y z"

end
