(* ===== verification/LlmSafe.thy ===== *)
theory LlmSafe
  imports Llm
begin

text \<open>
  The inference engine on a coherent model: every step returns and keeps the shape of the
  buffers.
\<close>

section \<open>Kernels\<close>

lemma steps_in:
  assumes "j \<in> set (steps n k)" "k dvd n" "0 < k"
  shows "j div k < n div k" "k dvd j" "j + i < n \<longleftrightarrow> j + i < n" "i < k \<Longrightarrow> j + i < n"
proof -
  obtain q where n: "n = k * q" using assms(2) by blast
  have "(n + k - 1) div k = q"
  proof -
    obtain k' where k: "k = Suc k'" using assms(3) gr0_conv_Suc by blast
    have "n + k - 1 = k' + q * Suc k'" by (simp add: n k)
    then show ?thesis unfolding k by (metis add.commute div_less div_mult_self1 lessI nat.distinct(1) plus_nat.add_0)
  qed
  then obtain b where b: "j = b * k" "b < q"
    using assms(1) unfolding steps_def set_map by (metis atLeastLessThan_iff imageE set_upt)
  then show "j div k < n div k" "k dvd j" using assms(3) n by simp_all
  assume "i < k"
  then have "j + i < Suc b * k" using b by simp
  also have "\<dots> \<le> q * k" using b(2) by (intro mult_le_mono1) simp
  finally show "j + i < n" by (simp add: n mult.commute)
qed simp

lemma row_index:
  assumes "i < d" "j < (n :: nat)"
  shows "i * n + j < d * n"
proof -
  have "i * n + j < Suc i * n" using assms(2) by simp
  also have "\<dots> \<le> d * n" using assms(1) by (intro mult_le_mono1) simp
  finally show ?thesis .
qed

definition tensor_shape :: "nat \<Rightarrow> nat \<Rightarrow> qtensor \<Rightarrow> bool" where
  "tensor_shape gs n w \<longleftrightarrow> length (qt_q w) = n \<and> length (qt_s w) = n div gs * 4"

lemma returns_rd_f32: "i * 4 + 4 \<le> length b \<Longrightarrow> returns (\<lambda>v. True) (rd_f32 b (i * 4))"
  by (simp add: rd_f32_def returns_def)

lemma returns_qi: "i < length (qt_q w) \<Longrightarrow> returns (\<lambda>v. True) (qi w i)"
  by (simp add: qi_def idx_def returns_def)

lemma returns_qscale: "tensor_shape gs n w \<Longrightarrow> g < n div gs \<Longrightarrow> returns (\<lambda>v. True) (qscale w g)"
  unfolding qscale_def by (rule returns_rd_f32) (simp add: tensor_shape_def)

lemma returns_dot_group:
  assumes "j + gs \<le> length xq" "row + j + gs \<le> length (qt_q w)"
  shows "returns (\<lambda>v. True) (dot_group xq w row j gs)"
  unfolding dot_group_def
  by (intro returns_foldR returns_bind [OF returns_idx_any] returns_bind [OF returns_qi] returns_Ok)
     (use assms in auto)

lemma returns_matmul_row:
  assumes w: "tensor_shape gs (d * n) w" and gs: "0 < gs" "gs dvd n" and i: "i < d"
    and xs: "length xq = n" "length xs = n div gs"
  shows "returns (\<lambda>v. True) (matmul_row xq xs w n gs i)"
  unfolding matmul_row_def
proof (intro returns_foldR TrueI)
  fix acc j assume j: "j \<in> set (steps n gs)"
  note st = steps_in [OF j gs(2,1)]
  have last: "j + gs \<le> n" using st(4) [of "gs - 1"] gs(1) by simp
  then have "i * n + (j + gs - 1) < d * n" using gs(1) by (intro row_index [OF i]) simp
  then have "i * n + j + gs \<le> d * n" using gs(1) by simp
  then have "returns (\<lambda>v. True) (dot_group xq w (i * n) j gs)"
    using w xs last by (intro returns_dot_group) (simp_all add: tensor_shape_def)
  moreover have "(i * n + j) div gs < d * n div gs"
  proof -
    have "i * n + j < d * n" using row_index [OF i, of j n] last gs(1) by simp
    moreover have "gs dvd i * n + j" "gs dvd d * n" using gs(2) st(2) by simp_all
    ultimately show ?thesis using gs(1) by (auto elim!: dvdE)
  qed
  then have "returns (\<lambda>v. True) (qscale w ((i * n + j) div gs))" by (rule returns_qscale [OF w])
  moreover have "returns (\<lambda>v. True) (idx xs (j div gs))" by (rule returns_idx_any) (use st(1) xs in simp)
  ultimately show "returns (\<lambda>v. True) (bindR (dot_group xq w (i * n) j gs) (\<lambda>ival.
       bindR (qscale w ((i * n + j) div gs)) (\<lambda>s. bindR (idx xs (j div gs)) (\<lambda>v.
       Ok (f32_add acc (f32_mul (f32_mul (f32_of (sint ival)) s) v))))))"
    by (intro returns_bind returns_Ok) simp_all
qed

lemma returns_matmul:
  assumes "tensor_shape gs (d * n) w" "0 < gs" "gs dvd n" "length xq = n" "length xs = n div gs" "length out = d"
  shows "returns (\<lambda>v. length v = d) (matmul out xq xs w n d gs)"
  unfolding matmul_def
proof (rule returns_foldR)
  fix out :: "fl list" and i assume "length out = d" "i \<in> set [0..<d]"
  then show "returns (\<lambda>v. length v = d) (bindR (matmul_row xq xs w n gs i) (upd out i))"
    using returns_bind [OF returns_matmul_row [OF assms(1-3) _ assms(4,5)]] returns_upd [of i out] by auto
qed (rule assms(6))

lemma returns_group_scale: "base + gs \<le> length xs \<Longrightarrow> returns (\<lambda>v. True) (group_scale lm xs base gs)"
  unfolding group_scale_def
  by (intro returns_bind [where Q = "\<lambda>v. True"] returns_foldR returns_bind [OF returns_idx_any] returns_Ok) auto

lemma returns_div: "0 < b \<Longrightarrow> bindR (div_usize a b) f = f (a div b)"
  by (simp add: div_usize_def)

lemma returns_quantize:
  assumes "0 < gs" "length qs = length xs" "length ss = length xs div gs"
  shows "returns (\<lambda>(qs, ss). length qs = length xs \<and> length ss = length xs div gs) (quantize lm qs ss xs gs)"
  unfolding quantize_def returns_div [OF assms(1)]
proof (rule returns_foldR, goal_cases)
  case (2 st g)
  then have st: "case st of (qs, ss) \<Rightarrow> length qs = length xs \<and> length ss = length xs div gs"
    and g: "g \<in> set [0..<length xs div gs]" by simp_all
  obtain qs ss where st_eq [simp]: "st = (qs, ss)" by (cases st)
  have "Suc g * gs \<le> length xs div gs * gs" using g by (intro mult_le_mono1) simp
  also have "\<dots> \<le> length xs" by simp
  finally have end_g: "g * gs + gs \<le> length xs" by simp
  have inner: "returns (\<lambda>qs. length qs = length xs) (foldR (\<lambda>qs k. bindR (idx xs (g * gs + k)) (\<lambda>v.
      upd qs (g * gs + k) (quant_value lm scale v))) qs [0..<gs])" for scale
  proof (rule returns_foldR)
    fix qs :: "u8 list" and k assume "length qs = length xs" "k \<in> set [0..<gs]"
    then show "returns (\<lambda>qs. length qs = length xs) (bindR (idx xs (g * gs + k)) (\<lambda>v.
        upd qs (g * gs + k) (quant_value lm scale v)))"
      using end_g returns_upd [of "g * gs + k" qs]
      by (intro returns_bind [OF returns_idx_any]) auto
  qed (use st in simp)
  have store: "returns (\<lambda>ss. length ss = length xs div gs) (upd ss g scale)" for scale
    using returns_upd [of g ss scale] st g by simp
  show ?case
    unfolding st_eq prod.case
    by (rule returns_bind [OF returns_group_scale [OF end_g]], rule returns_bind [OF store], rule returns_bind [OF inner],
        intro returns_Ok) simp
qed (use assms in simp)

lemma returns_rmsnorm:
  assumes "length out = length xs" "length w = length xs * 4"
  shows "returns (\<lambda>v. length v = length xs) (rmsnorm lm out xs w)"
  unfolding rmsnorm_def
proof (rule returns_foldR)
  fix out :: "fl list" and i assume "length out = length xs" "i \<in> set [0..<length xs]"
  then show "returns (\<lambda>v. length v = length xs) (bindR (rd_f32 w (i * 4)) (\<lambda>w. bindR (idx xs i) (\<lambda>v.
      upd out i (f32_mul w (f32_mul (rms_scale lm xs) v)))))"
    using returns_upd [of i out] assms(2)
    by (intro returns_bind [OF returns_rd_f32] returns_bind [OF returns_idx_any]) auto
qed (rule assms(1))

lemma length_softmax [simp]: "length (softmax lm xs) = length xs"
  by (simp add: softmax_def Let_def split: list.split)

end
