(* ===== verification/LlmStep.thy ===== *)
theory LlmStep
  imports LlmSafe
begin

text \<open>
  The step of the transformer on a coherent model: it returns, and the buffers keep their
  shape.
\<close>

section \<open>Coherent models\<close>

definition coherent :: "target \<Rightarrow> config \<Rightarrow> bool" where
  "coherent t c \<longleftrightarrow> 0 < dim c \<and> 0 < hidden_dim c \<and> 0 < n_heads c \<and> 0 < n_kv_heads c \<and> 0 < group_size c
     \<and> n_heads c dvd dim c \<and> n_kv_heads c dvd n_heads c \<and> even (head_size c)
     \<and> group_size c dvd dim c \<and> group_size c dvd hidden_dim c \<and> dim c * n_kv_heads c \<le> usize_max t"

definition shaped :: "target \<Rightarrow> config \<Rightarrow> nat \<Rightarrow> run_state \<Rightarrow> bool" where
  "shaped t c n s \<longleftrightarrow>
     (let gs = group_size c; kv = kv_dim t c in
      length (rs_x s) = dim c \<and> length (rs_xb s) = dim c \<and> length (rs_xb2 s) = dim c
      \<and> length (rs_hb s) = hidden_dim c \<and> length (rs_hb2 s) = hidden_dim c
      \<and> length (rs_xq_q s) = dim c \<and> length (rs_xq_s s) = dim c div gs
      \<and> length (rs_hq_q s) = hidden_dim c \<and> length (rs_hq_s s) = hidden_dim c div gs
      \<and> length (rs_q s) = dim c \<and> length (rs_k s) = kv \<and> length (rs_v s) = kv
      \<and> length (rs_att s) = n_heads c * n \<and> length (rs_logits s) = vocab_size c \<and> rs_ctx s = n
      \<and> (if rs_int8 s
          then length (rs_key_q s) = n_layers c * n * kv \<and> length (rs_val_q s) = n_layers c * n * kv
            \<and> length (rs_key_s s) = n_layers c * n * n_kv_heads c \<and> length (rs_val_s s) = n_layers c * n * n_kv_heads c
          else length (rs_key_cache s) = n_layers c * n * kv \<and> length (rs_value_cache s) = n_layers c * n * kv))"

text \<open>What reading the model gives, layer by layer.\<close>

definition group_ok :: "target \<Rightarrow> model \<Rightarrow> qgroup \<Rightarrow> nat \<Rightarrow> nat \<Rightarrow> bool" where
  "group_ok t m g n size' \<longleftrightarrow> (\<forall>l < n. case tensor t g (m_buf m) l :: (qtensor, unit) outcome of
     Ok w \<Rightarrow> tensor_shape (group_size (m_config m)) size' w | _ \<Rightarrow> False)"

definition row_ok :: "nat \<Rightarrow> (bytes, unit) outcome \<Rightarrow> bool" where
  "row_ok n r \<longleftrightarrow> (case r of Ok w \<Rightarrow> length w = n * 4 | _ \<Rightarrow> False)"

definition model_ok :: "target \<Rightarrow> model \<Rightarrow> bool" where
  "model_ok t m \<longleftrightarrow>
     (let c = m_config m; kv = kv_dim t c; nl = n_layers c in
      coherent t c \<and> vocab_size c * dim c \<le> usize_max t
      \<and> group_ok t m (m_q_tokens m) 1 (vocab_size c * dim c) \<and> group_ok t m (m_wcls m) 1 (vocab_size c * dim c)
      \<and> group_ok t m (m_wq m) nl (dim c * dim c) \<and> group_ok t m (m_wo m) nl (dim c * dim c)
      \<and> group_ok t m (m_wk m) nl (kv * dim c) \<and> group_ok t m (m_wv m) nl (kv * dim c)
      \<and> group_ok t m (m_w1 m) nl (hidden_dim c * dim c) \<and> group_ok t m (m_w3 m) nl (hidden_dim c * dim c)
      \<and> group_ok t m (m_w2 m) nl (dim c * hidden_dim c)
      \<and> (\<forall>l < nl. row_ok (dim c) (rms_att_row t m l) \<and> row_ok (dim c) (rms_ffn_row t m l))
      \<and> row_ok (dim c) (rms_final_row t m))"

lemma head_size_dim: "coherent t c \<Longrightarrow> n_heads c * head_size c = dim c"
  by (simp add: coherent_def head_size_def)

lemma kv_dim_eq: "coherent t c \<Longrightarrow> kv_dim t c = n_kv_heads c * head_size c"
proof -
  assume c: "coherent t c"
  then have "dim c * n_kv_heads c = n_heads c * (n_kv_heads c * head_size c)" "0 < n_heads c"
    using head_size_dim [OF c, symmetric] by (simp_all add: coherent_def)
  then show ?thesis using c by (simp add: kv_dim_def usz_fits coherent_def)
qed

lemma slice_outcome: "(slice i j xs :: (_, 'e) outcome) = Ok v \<longleftrightarrow> (slice i j xs :: (_, 'f) outcome) = Ok v"
  by (simp add: slice_def)

lemma returns_tensor:
  assumes "group_ok t m g n k" "l < n"
  shows "returns (tensor_shape (group_size (m_config m)) k) (tensor t g (m_buf m) l)"
  using assms by (auto simp: group_ok_def tensor_def Let_def returns_def slice_def bindR_def split: if_splits)

lemma returns_row:
  assumes "row_ok n (slice i j (m_buf m))"
  shows "returns (\<lambda>w. length w = n * 4) (slice i j (m_buf m))"
  using assms by (auto simp: row_ok_def returns_def slice_def split: if_splits)

lemma returns_rms_att: "row_ok n (rms_att_row t m l) \<Longrightarrow> returns (\<lambda>w. length w = n * 4) (rms_att_row t m l)"
  and returns_rms_ffn: "row_ok n (rms_ffn_row t m l) \<Longrightarrow> returns (\<lambda>w. length w = n * 4) (rms_ffn_row t m l)"
  and returns_rms_final: "row_ok n (rms_final_row t m) \<Longrightarrow> returns (\<lambda>w. length w = n * 4) (rms_final_row t m)"
  by (simp_all add: rms_att_row_def rms_ffn_row_def rms_final_row_def Let_def returns_row)

section \<open>Projections\<close>

lemma returns_norm_xb:
  assumes "shaped t c n s" "length w = dim c * 4" "0 < group_size c"
  shows "returns (shaped t c n) (norm_xb lm (group_size c) w s)"
proof -
  have sh: "length (rs_xb s) = length (rs_x s)" "length w = length (rs_x s) * 4"
    using assms by (simp_all add: shaped_def Let_def)
  have "returns (shaped t c n) (quantize_xb lm (group_size c) (s\<lparr>rs_xb := xb\<rparr>))" if "length xb = length (rs_x s)" for xb
    unfolding quantize_xb_def
    by (rule returns_bind [OF returns_quantize [OF assms(3)]]) (use assms(1) that in \<open>auto simp: shaped_def Let_def intro!: returns_Ok\<close>)
  then show ?thesis
    unfolding norm_xb_def by (rule returns_bind [OF returns_rmsnorm [OF sh]])
qed

lemma returns_quantize_xb:
  assumes "shaped t c n s" "0 < group_size c"
  shows "returns (shaped t c n) (quantize_xb lm (group_size c) s)"
  unfolding quantize_xb_def
  by (rule returns_bind [OF returns_quantize [OF assms(2)]]) (use assms(1) in \<open>auto simp: shaped_def Let_def intro!: returns_Ok\<close>)

lemma returns_mul:
  assumes "group_ok t m g k (d * i)" "l < k" "0 < group_size (m_config m)" "group_size (m_config m) dvd i"
    and "length xq = i" "length xs = i div group_size (m_config m)" "length out = d"
  shows "returns (\<lambda>v. length v = d) (bindR (tensor t g (m_buf m) l) (\<lambda>w. matmul out xq xs w i d (group_size (m_config m))))"
  by (rule returns_bind [OF returns_tensor [OF assms(1,2)]], rule returns_matmul) (use assms in auto)

text \<open>The lengths of a shaped state, and the updates that keep the shape.\<close>

lemma shaped_lengths:
  assumes "shaped t c n s"
  shows "length (rs_x s) = dim c" "length (rs_xb s) = dim c" "length (rs_xb2 s) = dim c"
    "length (rs_hb s) = hidden_dim c" "length (rs_hb2 s) = hidden_dim c" "length (rs_xq_q s) = dim c"
    "length (rs_xq_s s) = dim c div group_size c" "length (rs_hq_q s) = hidden_dim c"
    "length (rs_hq_s s) = hidden_dim c div group_size c" "length (rs_q s) = dim c"
    "length (rs_k s) = kv_dim t c" "length (rs_v s) = kv_dim t c" "length (rs_att s) = n_heads c * n"
    "length (rs_logits s) = vocab_size c" "rs_ctx s = n"
  using assms by (simp_all add: shaped_def Let_def)

lemma shaped_update:
  assumes "shaped t c n s"
  shows "length v = dim c \<Longrightarrow> shaped t c n (s\<lparr>rs_x := v\<rparr>)" "length v = dim c \<Longrightarrow> shaped t c n (s\<lparr>rs_xb := v\<rparr>)"
    "length v = dim c \<Longrightarrow> shaped t c n (s\<lparr>rs_xb2 := v\<rparr>)" "length v = hidden_dim c \<Longrightarrow> shaped t c n (s\<lparr>rs_hb := v\<rparr>)"
    "length v = hidden_dim c \<Longrightarrow> shaped t c n (s\<lparr>rs_hb2 := v\<rparr>)" "length v = dim c \<Longrightarrow> shaped t c n (s\<lparr>rs_q := v\<rparr>)"
    "length v = kv_dim t c \<Longrightarrow> shaped t c n (s\<lparr>rs_k := v\<rparr>)" "length v = kv_dim t c \<Longrightarrow> shaped t c n (s\<lparr>rs_v := v\<rparr>)"
    "length v = n_heads c * n \<Longrightarrow> shaped t c n (s\<lparr>rs_att := v\<rparr>)"
    "length v = vocab_size c \<Longrightarrow> shaped t c n (s\<lparr>rs_logits := v\<rparr>)"
    "length b = dim c \<Longrightarrow> shaped t c n (s\<lparr>rs_xq_q := b\<rparr>)"
    "length v = dim c div group_size c \<Longrightarrow> shaped t c n (s\<lparr>rs_xq_s := v\<rparr>)"
    "length b = hidden_dim c \<Longrightarrow> shaped t c n (s\<lparr>rs_hq_q := b\<rparr>)"
    "length v = hidden_dim c div group_size c \<Longrightarrow> shaped t c n (s\<lparr>rs_hq_s := v\<rparr>)"
  using assms by (simp_all add: shaped_def Let_def)

lemma returns_project_qkv:
  assumes m: "model_ok t m" and s: "shaped t (m_config m) n s" and l: "l < n_layers (m_config m)"
  shows "returns (shaped t (m_config m) n) (project_qkv t lm m l s)"
proof -
  let ?c = "m_config m"
  have gs: "0 < group_size ?c" "group_size ?c dvd dim ?c" using m by (simp_all add: model_ok_def coherent_def Let_def)
  have g: "group_ok t m (m_wq m) (n_layers ?c) (dim ?c * dim ?c)" "group_ok t m (m_wk m) (n_layers ?c) (kv_dim t ?c * dim ?c)"
    "group_ok t m (m_wv m) (n_layers ?c) (kv_dim t ?c * dim ?c)" "row_ok (dim ?c) (rms_att_row t m l)"
    using m l by (simp_all add: model_ok_def Let_def)
  have mul: "returns (\<lambda>v. length v = d) (bindR (tensor t g (m_buf m) l) (\<lambda>w.
      matmul out (rs_xq_q s) (rs_xq_s s) w (dim ?c) d (group_size ?c)))"
    if "shaped t ?c n s" "group_ok t m g (n_layers ?c) (d * dim ?c)" "length out = d" for s g d out
    using that shaped_lengths [OF that(1)] by (intro returns_mul [OF that(2) l gs]) simp_all
  show ?thesis
    unfolding project_qkv_def Let_def
  proof (rule returns_bind [OF returns_rms_att [OF g(4)]], rule returns_bind [OF returns_norm_xb [OF s _ gs(1)]], assumption,
      goal_cases)
    case (1 w s)
    note len = shaped_lengths [OF 1(2)]
    show ?case
      by (rule returns_bind [OF mul [OF 1(2) g(1) len(10)]], rule returns_bind [OF mul [OF 1(2) g(2) len(11)]],
          rule returns_bind [OF mul [OF 1(2) g(3) len(12)]], intro returns_Ok shaped_update 1(2)) simp_all
  qed
qed

section \<open>Positions\<close>

lemma returns_rotate:
  assumes "i + 1 < length xs" "length xs = n"
  shows "returns (\<lambda>v. length v = n) (rotate fcr fci i xs)"
proof -
  have up: "returns (\<lambda>v. length v = n) (upd ys j x)" if "length ys = n" "j < n" for ys :: "fl list" and j x
    using returns_upd [of j ys x] that by simp
  have i: "i < length xs" "i < n" "i + 1 < n" using assms by simp_all
  show ?thesis
    unfolding rotate_def
    by (rule returns_bind [OF returns_idx_any [OF i(1)]], rule returns_bind [OF returns_idx_any [OF assms(1)]],
        rule returns_bind [OF up [OF assms(2) i(2)]], rule up [OF _ i(3)])
qed

lemma returns_rope:
  assumes c: "coherent t c" and s: "shaped t c n s"
  shows "returns (shaped t c n) (rope t lm c pos s)"
  unfolding rope_def
proof (rule returns_foldR, goal_cases)
  case (2 s i)
  note len = shaped_lengths [OF 2(1)]
  have ev: "even (dim c)" "even (kv_dim t c)"
    using head_size_dim [OF c, symmetric] kv_dim_eq [OF c] c by (simp_all add: coherent_def)
  have i: "even i" "i + 1 < dim c" using steps_in(2) [OF 2(2)] steps_in(4) [OF 2(2), of 1] ev by auto
  then have kv: "i + 1 < kv_dim t c" if "i < kv_dim t c" using that i(1) ev(2) by presburger
  have q: "returns (\<lambda>v. length v = dim c) (rotate a b i (rs_q s))" for a b
    using i len by (intro returns_rotate) simp_all
  have k: "returns (\<lambda>v. length v = kv_dim t c) (if i < kv_dim t c then rotate a b i (rs_k s) else Ok (rs_k s))" for a b
    using kv len by (auto intro!: returns_rotate returns_Ok)
  show ?case
    unfolding Let_def
    by (rule returns_bind [OF q], rule returns_bind [OF k], intro returns_Ok shaped_update 2(1))
qed (rule s)

section \<open>The cache\<close>

lemma cache_index:
  assumes "l < k" "u < (n :: nat)" "r < m"
  shows "l * n * m + u * m + r < k * n * m"
proof -
  have "l * n + u < k * n" using row_index [OF assms(1,2)] .
  from row_index [OF this assms(3)] show ?thesis by (simp add: algebra_simps)
qed

lemma cache_row:
  assumes "l < k" "u < (n :: nat)"
  shows "l * n * m + u * m + m \<le> k * n * m"
proof (cases m)
  case (Suc m')
  have "m - 1 < m" using Suc by simp
  from cache_index [OF assms this] show ?thesis using Suc by linarith
qed simp

lemma returns_copy_slice:
  assumes "i + length ys = j" "j \<le> length xs" "length xs = n"
  shows "returns (\<lambda>v. length v = n) (copy_slice i j ys xs)"
  using assms by (simp add: copy_slice_def slice_def returns_def)

lemma returns_quantize_slice:
  assumes gs: "0 < gs" and "length xs = k" "k div gs = ns" "row + k \<le> length qs" "si + ns \<le> length ss" "length qs = a" "length ss = b"
  shows "returns (\<lambda>(qs, ss). length qs = a \<and> length ss = b) (quantize_slice lm row k si ns xs gs qs ss)"
proof -
  have r: "row \<le> row + k" "si \<le> si + ns" by simp_all
  show ?thesis
    unfolding quantize_slice_def
  proof (rule returns_bind [OF returns_slice [OF r(1) assms(4)]], rule returns_bind [OF returns_slice [OF r(2) assms(5)]],
      goal_cases)
    case (1 q0 s0)
    then have "length q0 = length xs" "length s0 = length xs div gs" using assms by simp_all
    from returns_quantize [OF gs this, of lm] show ?case
      by (rule returns_bind) (use assms in \<open>auto intro!: returns_Ok\<close>)
  qed
qed

lemma returns_store_kv:
  assumes c: "coherent t c" and s: "shaped t c n s" and l: "l < n_layers c" and pos: "pos < n"
  shows "returns (shaped t c n) (store_kv t lm c l pos s)"
proof -
  let ?kv = "kv_dim t c" and ?L = "n_layers c"
  let ?row = "l * rs_ctx s * ?kv + pos * ?kv"
  let ?si = "(l * rs_ctx s + pos) * n_kv_heads c"
  note len = shaped_lengths [OF s]
  have row: "?row + ?kv \<le> ?L * n * ?kv" using cache_row [OF l pos] len(15) by simp
  have si: "?si + n_kv_heads c \<le> ?L * n * n_kv_heads c"
    using cache_row [OF l pos, of "n_kv_heads c"] len(15) by (simp add: algebra_simps)
  have hs: "0 < head_size c" and per: "?kv div head_size c = n_kv_heads c"
  proof -
    show "0 < head_size c" using head_size_dim [OF c] c by (cases "head_size c") (auto simp: coherent_def)
    then show "?kv div head_size c = n_kv_heads c" by (simp add: kv_dim_eq [OF c])
  qed
  have sl: "returns (\<lambda>v. length v = ?kv) (slice 0 ?kv xs)" if "length xs = ?kv" for xs :: "fl list"
    using that returns_slice [of 0 ?kv xs] by simp
  show ?thesis
    unfolding store_kv_def Let_def
  proof (rule returns_bind [OF sl [OF len(11)]], rule returns_bind [OF sl [OF len(12)]], goal_cases)
    case (1 ks vs)
    show ?case
    proof (cases "rs_int8 s")
      case True
      then have cl: "length (rs_key_q s) = ?L * n * ?kv" "length (rs_val_q s) = ?L * n * ?kv"
        "length (rs_key_s s) = ?L * n * n_kv_heads c" "length (rs_val_s s) = ?L * n * n_kv_heads c"
        using s by (simp_all add: shaped_def Let_def)
      have q: "returns (\<lambda>(qs, ss). length qs = ?L * n * ?kv \<and> length ss = ?L * n * n_kv_heads c)
          (quantize_slice lm ?row ?kv ?si (n_kv_heads c) xs (head_size c) qs ss)"
        if "length xs = ?kv" "length qs = ?L * n * ?kv" "length ss = ?L * n * n_kv_heads c" for xs qs ss
        using that row si by (intro returns_quantize_slice hs per) simp_all
      show ?thesis
        unfolding if_P [OF True]
        by (rule returns_bind [OF q [OF 1(1) cl(1,3)]], clarify, rule returns_bind [OF q [OF 1(2) cl(2,4)]])
           (use s True in \<open>auto simp: shaped_def Let_def intro!: returns_Ok\<close>)
    next
      case False
      then have cl: "length (rs_key_cache s) = ?L * n * ?kv" "length (rs_value_cache s) = ?L * n * ?kv"
        using s by (simp_all add: shaped_def Let_def)
      have q: "returns (\<lambda>v. length v = ?L * n * ?kv) (copy_slice ?row (?row + ?kv) ys xs)"
        if "length ys = ?kv" "length xs = ?L * n * ?kv" for ys xs :: "fl list"
        using that row by (intro returns_copy_slice) simp_all
      show ?thesis
        unfolding if_not_P [OF False]
        by (rule returns_bind [OF q [OF 1(1) cl(1)]], rule returns_bind [OF q [OF 1(2) cl(2)]])
           (use s False in \<open>auto simp: shaped_def Let_def intro!: returns_Ok\<close>)
    qed
  qed
qed

section \<open>Attention\<close>

text \<open>A place of the cache of layer \<open>l\<close>, position \<open>u\<close> and head group \<open>g\<close>.\<close>

lemma returns_cached:
  assumes "shaped t c n s" "coherent t c" "l < n_layers c" "u < n" "g < n_kv_heads c" "j < head_size c"
  defines "k \<equiv> l * rs_ctx s * kv_dim t c + u * kv_dim t c + g * head_size c + j"
  shows "returns (\<lambda>v. True) (cached_term (rs_int8 s) (rs_key_cache s) (rs_key_q s) cs a k)"
    "returns (\<lambda>v. True) (cached_term (rs_int8 s) (rs_value_cache s) (rs_val_q s) cs a k)"
proof -
  have "g * head_size c + j < kv_dim t c"
    using row_index [OF assms(5,6)] by (simp add: kv_dim_eq [OF assms(2)])
  from cache_index [OF assms(3,4) this] have "k < n_layers c * n * kv_dim t c"
    using shaped_lengths(15) [OF assms(1)] by (simp add: k_def add.assoc)
  then show "returns (\<lambda>v. True) (cached_term (rs_int8 s) (rs_key_cache s) (rs_key_q s) cs a k)"
    "returns (\<lambda>v. True) (cached_term (rs_int8 s) (rs_value_cache s) (rs_val_q s) cs a k)"
    using assms(1) by (auto simp: cached_term_def shaped_def Let_def idx_def returns_def split: if_splits)
qed

lemma returns_cached_scale:
  assumes "shaped t c n s" "l < n_layers c" "u < n" "g < n_kv_heads c"
  shows "returns (\<lambda>v. True) (cached_scale (rs_int8 s) (rs_key_s s) ((l * rs_ctx s + u) * n_kv_heads c + g))"
    "returns (\<lambda>v. True) (cached_scale (rs_int8 s) (rs_val_s s) ((l * rs_ctx s + u) * n_kv_heads c + g))"
proof -
  have "(l * rs_ctx s + u) * n_kv_heads c + g < n_layers c * n * n_kv_heads c"
    using row_index [OF row_index [OF assms(2,3)] assms(4)] shaped_lengths(15) [OF assms(1)] by simp
  then show "returns (\<lambda>v. True) (cached_scale (rs_int8 s) (rs_key_s s) ((l * rs_ctx s + u) * n_kv_heads c + g))"
    "returns (\<lambda>v. True) (cached_scale (rs_int8 s) (rs_val_s s) ((l * rs_ctx s + u) * n_kv_heads c + g))"
    using assms(1) by (auto simp: cached_scale_def shaped_def Let_def idx_def returns_def split: if_splits)
qed

lemma head_index:
  assumes "coherent t c" "h < n_heads c" "j < head_size c"
  shows "h * head_size c + j < dim c"
  using row_index [OF assms(2,3)] head_size_dim [OF assms(1)] by simp

lemma returns_attn_score:
  assumes "shaped t c n s" "coherent t c" "l < n_layers c" "u < n" "g < n_kv_heads c" "h < n_heads c"
  shows "returns (\<lambda>v. True) (attn_score c (kv_dim t c) l g s h u)"
  unfolding attn_score_def Let_def
proof (rule returns_bind [OF returns_cached_scale(1) [OF assms(1,3,4,5)]], rule returns_foldR, simp, goal_cases)
  case (1 cs score j)
  have j: "j < head_size c" using 1(3) by simp
  have i: "h * head_size c + j < length (rs_q s)"
    using head_index [OF assms(2,6) j] shaped_lengths(10) [OF assms(1)] by simp
  show ?case
    by (rule returns_bind [OF returns_idx_any [OF i]], rule returns_bind [OF returns_cached(1) [OF assms(1-5) j]],
        intro returns_Ok TrueI)
qed

lemma returns_attn_value:
  assumes "shaped t c n s" "coherent t c" "l < n_layers c" "u < n" "g < n_kv_heads c" "h < n_heads c"
    and "length xb = dim c"
  shows "returns (\<lambda>v. length v = dim c) (attn_value c (kv_dim t c) l g s h xb u)"
proof -
  have a: "h * rs_ctx s + u < length (rs_att s)"
    using row_index [OF assms(6,4)] shaped_lengths(13,15) [OF assms(1)] by simp
  show ?thesis
    unfolding attn_value_def Let_def
  proof (rule returns_bind [OF returns_idx_any [OF a]], rule returns_bind [OF returns_cached_scale(2) [OF assms(1,3,4,5)]],
      rule returns_foldR, rule assms(7), goal_cases)
    case (1 a cs xb j)
    have j: "j < head_size c" using 1(4) by simp
    have i: "h * head_size c + j < length xb" using head_index [OF assms(2,6) j] 1(3) by simp
    show ?case
      by (rule returns_bind [OF returns_cached(2) [OF assms(1-5) j]], rule returns_bind [OF returns_idx_any [OF i]],
          rule returns_mono [OF returns_upd [OF i]]) (simp add: 1(3))
  qed
qed

lemma returns_attn_weights:
  assumes "shaped t c n s" "coherent t c" "l < n_layers c" "pos < n" "g < n_kv_heads c" "h < n_heads c"
  shows "returns (\<lambda>v. length v = n_heads c * n) (attn_weights lm c (kv_dim t c) l pos g s h)"
proof -
  note len = shaped_lengths [OF assms(1)]
  have h: "h * rs_ctx s + u < n_heads c * n" if "u < n" for u
    using row_index [OF assms(6) that] len(15) by simp
  then have room: "h * rs_ctx s + pos + 1 \<le> n_heads c * n" using assms(4) by fastforce
  have loop: "returns (\<lambda>v. length v = n_heads c * n) (foldR (\<lambda>att u. bindR (attn_score c (kv_dim t c) l g s h u)
      (\<lambda>sc. upd att (h * rs_ctx s + u) (f32_mul sc scale))) (rs_att s) [0..<pos + 1])" for scale
  proof (rule returns_foldR, rule len(13), goal_cases)
    case (1 att u)
    then have u: "u < n" using assms(4) by auto
    have i: "h * rs_ctx s + u < length att" using h [OF u] 1(1) by simp
    show ?case
      by (rule returns_bind [OF returns_attn_score [OF assms(1-3) u assms(5,6)]],
          rule returns_mono [OF returns_upd [OF i]]) (simp add: 1(1))
  qed
  show ?thesis
    unfolding attn_weights_def Let_def
  proof (rule returns_bind [OF loop], goal_cases)
    case (1 att)
    have r: "h * rs_ctx s \<le> h * rs_ctx s + pos + 1" "h * rs_ctx s + pos + 1 \<le> length att" using room 1 by simp_all
    show ?case
      by (rule returns_bind [OF returns_slice [OF r]], rule returns_Ok) (use r 1 in simp)
  qed
qed

lemma returns_attend_head:
  assumes "shaped t c n s" "coherent t c" "l < n_layers c" "pos < n" "h < n_heads c"
  shows "returns (shaped t c n) (attend_head t lm c l pos (n_heads c div n_kv_heads c) s h)"
proof -
  let ?mul = "n_heads c div n_kv_heads c"
  have nh: "n_kv_heads c * ?mul = n_heads c" "0 < n_heads c" using assms(2) by (simp_all add: coherent_def)
  then have mul: "0 < ?mul" by (cases ?mul) auto
  have g: "h div ?mul < n_kv_heads c" using assms(5) nh by (metis div_less_iff_less_mult mul mult.commute)
  have d: "returns (\<lambda>v. v = h div ?mul) (div_usize h ?mul)" using mul by (simp add: div_usize_def returns_def)
  show ?thesis
    unfolding attend_head_def Let_def
  proof (rule returns_bind [OF d], goal_cases)
    case (1 g')
    show ?case
      unfolding 1
    proof (rule returns_bind [OF returns_attn_weights [OF assms(1-4) g assms(5)]], goal_cases)
      case (1 att)
      let ?s = "s\<lparr>rs_att := att\<rparr>"
      have s: "shaped t c n ?s" by (rule shaped_update(9) [OF assms(1) 1])
      have zero: "returns (\<lambda>v. length v = dim c) (foldR (\<lambda>xb j. upd xb (h * head_size c + j) f32_zero) (rs_xb ?s) [0..<head_size c])"
      proof (rule returns_foldR, rule shaped_lengths(2) [OF s], goal_cases)
        case (1 xb j)
        then have i: "h * head_size c + j < length xb" using head_index [OF assms(2,5)] by simp
        show ?case by (rule returns_mono [OF returns_upd [OF i]]) (simp add: 1(1))
      qed
      have add: "returns (\<lambda>v. length v = dim c) (foldR (attn_value c (kv_dim t c) l (h div ?mul) ?s h) xb [0..<pos + 1])"
        if "length xb = dim c" for xb
        by (rule returns_foldR, rule that, rule returns_attn_value [OF s assms(2,3) _ g assms(5)])
           (use assms(4) in auto)
      show ?case
        by (rule returns_bind [OF zero], rule returns_bind [OF add], assumption, rule returns_Ok)
           (rule shaped_update(2) [OF s])
    qed
  qed
qed

section \<open>The step\<close>

lemma returns_add_into:
  assumes "length xs = n" "length ys = n"
  shows "returns (\<lambda>v. length v = n) (add_into xs ys n)"
  unfolding add_into_def
proof (rule returns_foldR, rule assms(1), goal_cases)
  case (1 xs i)
  then have i: "i < length xs" "i < length ys" using assms(2) by simp_all
  show ?case
    by (rule returns_bind [OF returns_idx_any [OF i(1)]], rule returns_bind [OF returns_idx_any [OF i(2)]],
        rule returns_mono [OF returns_upd [OF i(1)]]) (simp add: 1(1))
qed

lemma returns_gate:
  assumes "length hb = n" "length hb2 = n"
  shows "returns (\<lambda>v. length v = n) (gate lm hb hb2 n)"
  unfolding gate_def
proof (rule returns_foldR, rule assms(1), goal_cases)
  case (1 hb i)
  then have i: "i < length hb" "i < length hb2" using assms(2) by simp_all
  show ?case
    by (rule returns_bind [OF returns_idx_any [OF i(1)]], rule returns_bind [OF returns_idx_any [OF i(2)]],
        rule returns_mono [OF returns_upd [OF i(1)]]) (simp add: 1(1))
qed

lemma model_okD:
  assumes "model_ok t m"
  defines "c \<equiv> m_config m"
  shows "coherent t c" "0 < group_size c" "group_size c dvd dim c" "group_size c dvd hidden_dim c"
    "group_ok t m (m_q_tokens m) 1 (vocab_size c * dim c)" "group_ok t m (m_wcls m) 1 (vocab_size c * dim c)"
    "group_ok t m (m_wo m) (n_layers c) (dim c * dim c)" "group_ok t m (m_w1 m) (n_layers c) (hidden_dim c * dim c)"
    "group_ok t m (m_w3 m) (n_layers c) (hidden_dim c * dim c)" "group_ok t m (m_w2 m) (n_layers c) (dim c * hidden_dim c)"
    "l < n_layers c \<Longrightarrow> row_ok (dim c) (rms_ffn_row t m l)" "row_ok (dim c) (rms_final_row t m)"
    "vocab_size c * dim c \<le> usize_max t"
  using assms by (simp_all add: model_ok_def coherent_def Let_def)

lemma returns_project_out:
  assumes m: "model_ok t m" and s: "shaped t (m_config m) n s" and l: "l < n_layers (m_config m)"
  shows "returns (shaped t (m_config m) n) (project_out t lm m l s)"
  unfolding project_out_def Let_def
proof (rule returns_bind [OF returns_quantize_xb [OF s model_okD(2) [OF m]]], goal_cases)
  case (1 s)
  note len = shaped_lengths [OF 1]
  note ok = model_okD [OF m]
  show ?case
  proof (rule returns_bind [OF returns_tensor [OF ok(7) l]], rule returns_bind [OF returns_matmul [OF _ ok(2,3)]],
      assumption, rule len(6), rule len(7), rule len(3), goal_cases)
    case (1 w xb2)
    show ?case
      by (rule returns_bind [OF returns_add_into [OF len(1) 1(2)]], intro returns_Ok shaped_update \<open>shaped t (m_config m) n s\<close>)
         (use 1 in simp_all)
  qed
qed

lemma returns_feed_forward:
  assumes m: "model_ok t m" and s: "shaped t (m_config m) n s" and l: "l < n_layers (m_config m)"
  shows "returns (shaped t (m_config m) n) (feed_forward t lm m l s)"
  unfolding feed_forward_def Let_def
proof (rule returns_bind [OF returns_rms_ffn [OF model_okD(11) [OF m l]]], rule returns_bind [OF returns_norm_xb [OF s _ model_okD(2) [OF m]]],
    assumption, goal_cases)
  case (1 w s)
  note s = 1(2)
  note len = shaped_lengths [OF s]
  note ok = model_okD [OF m]
  show ?case
  proof (rule returns_bind [OF returns_tensor [OF ok(8) l]], rule returns_bind [OF returns_matmul [OF _ ok(2,3)]],
      assumption, rule len(6), rule len(7), rule len(4),
      rule returns_bind [OF returns_tensor [OF ok(9) l]], rule returns_bind [OF returns_matmul [OF _ ok(2,3)]],
      assumption, rule len(6), rule len(7), rule len(5), rule returns_bind [OF returns_gate], assumption, assumption, goal_cases)
    case (1 w1 hb w3 hb2 hb')
    have q: "length (rs_hq_q s) = length hb'" "length (rs_hq_s s) = length hb' div group_size (m_config m)"
      using len 1(5) by simp_all
    show ?case
    proof (rule returns_bind [OF returns_quantize [OF ok(2) q]], clarify, rule returns_bind [OF returns_tensor [OF ok(10) l]],
        rule returns_bind [OF returns_matmul [OF _ ok(2,4)]], assumption, goal_cases)
      case (4 hq hss w2 xb)
      show ?case
        by (rule returns_bind [OF returns_add_into [OF len(1) 4(4)]], intro returns_Ok shaped_update s)
           (use 1 4 in simp_all)
    qed (use 1(5) len(2) in simp_all)
  qed
qed

lemma returns_layer:
  assumes m: "model_ok t m" and s: "shaped t (m_config m) n s" and l: "l < n_layers (m_config m)" and pos: "pos < n"
  shows "returns (shaped t (m_config m) n)
    (layer t lm m (n_heads (m_config m) div n_kv_heads (m_config m)) pos s l)"
proof -
  note c = model_okD(1) [OF m]
  have heads: "returns (shaped t (m_config m) n) (foldR (attend_head t lm (m_config m) l pos
      (n_heads (m_config m) div n_kv_heads (m_config m))) s [0..<n_heads (m_config m)])"
    if "shaped t (m_config m) n s" for s
    by (rule returns_foldR, rule that, rule returns_attend_head [OF _ c l pos]) simp_all
  show ?thesis
    unfolding layer_def Let_def
    by (rule returns_bind [OF returns_project_qkv [OF m s l]], rule returns_bind [OF returns_rope [OF c]], assumption,
        rule returns_bind [OF returns_store_kv [OF c _ l pos]], assumption, rule returns_bind [OF heads], assumption,
        rule returns_bind [OF returns_project_out [OF m _ l]], assumption, rule returns_feed_forward [OF m _ l])
qed

lemma returns_embed_row:
  assumes m: "model_ok t m" and token: "token < vocab_size (m_config m)" and out: "length out = dim (m_config m)"
  shows "returns (\<lambda>v. length v = dim (m_config m)) (embed_row t m token out)"
  unfolding embed_row_def
proof (rule returns_bind [OF returns_tensor [OF model_okD(5) [OF m]]], simp, rule returns_foldR, rule out, goal_cases)
  case (1 w out i)
  let ?c = "m_config m"
  note ok = model_okD [OF m]
  have i: "i < length out" "i < dim ?c" using 1(2,3) by simp_all
  have k: "token * dim ?c + i < vocab_size ?c * dim ?c" by (rule row_index [OF token i(2)])
  then have u: "usz t (usz t (token * dim ?c) + i) = token * dim ?c + i" using ok(13) by (simp add: usz_fits)
  have q: "token * dim ?c + i < length (qt_q w)" using 1(1) k by (simp add: tensor_shape_def)
  have "(token * dim ?c + i) div group_size ?c < vocab_size ?c * dim ?c div group_size ?c"
  proof -
    obtain b where b: "vocab_size ?c * dim ?c = group_size ?c * b" using ok(3) by (metis dvdE dvd_mult)
    then show ?thesis using k ok(2) by (simp add: less_mult_imp_div_less mult.commute)
  qed
  note s = returns_qscale [OF 1(1) this]
  show ?case
    unfolding Let_def u
    by (rule returns_bind [OF returns_qi [OF q]], rule returns_bind [OF s], rule returns_mono [OF returns_upd [OF i(1)]])
       (simp add: 1(2))
qed

lemma returns_classify:
  assumes m: "model_ok t m" and s: "shaped t (m_config m) n s"
  shows "returns (shaped t (m_config m) n) (classify t lm m s)"
proof -
  note len = shaped_lengths [OF s]
  note ok = model_okD [OF m]
  have eq: "\<not> length (rs_xb s) \<noteq> length (rs_x s)" using len by simp
  let ?s = "s\<lparr>rs_xb := rs_x s\<rparr>"
  have s': "shaped t (m_config m) n ?s" by (rule shaped_update(2) [OF s len(1)])
  have r: "length (rs_x ?s) = length (rs_xb ?s)" by simp
  show ?thesis
    unfolding classify_def Let_def if_not_P [OF eq]
  proof (rule returns_bind [OF returns_rms_final [OF ok(12)]], rule returns_bind [OF returns_rmsnorm [OF r]], goal_cases)
    case (2 w xs)
    then have xs: "length xs = dim (m_config m)" using len by simp
    have q: "length (rs_xq_q ?s) = length xs" "length (rs_xq_s ?s) = length xs div group_size (m_config m)"
      using xs len by simp_all
    show ?case
    proof (rule returns_bind [OF returns_quantize [OF ok(2) q]], clarify, rule returns_bind [OF returns_tensor [OF ok(6)]],
        simp, rule returns_bind [OF returns_matmul [OF _ ok(2,3)]], assumption, goal_cases)
      case (4 qs ss w out)
      show ?case by (intro returns_Ok shaped_update s') (use 4 xs in simp_all)
    qed (use xs len in simp_all)
  qed (use len in simp)
qed

lemma returns_forward:
  assumes m: "model_ok t m" and s: "shaped t (m_config m) n s"
    and token: "token < vocab_size (m_config m)" and pos: "pos < n"
  shows "returns (shaped t (m_config m) n) (forward t lm m s token pos)"
proof -
  let ?c = "m_config m"
  have d: "returns (\<lambda>v. v = n_heads ?c div n_kv_heads ?c) (div_usize (n_heads ?c) (n_kv_heads ?c))"
    using model_okD(1) [OF m] by (simp add: div_usize_def returns_def coherent_def)
  have layers: "returns (shaped t ?c n) (foldR (layer t lm m (n_heads ?c div n_kv_heads ?c) pos) s [0..<n_layers ?c])"
    if "shaped t ?c n s" for s
    by (rule returns_foldR, rule that, rule returns_layer [OF m _ _ pos]) simp_all
  show ?thesis
    unfolding forward_def Let_def
  proof (rule returns_bind [OF d], rule returns_bind [OF returns_embed_row [OF m token shaped_lengths(1) [OF s]]], goal_cases)
    case (1 kv_mul xs)
    show ?case
      unfolding 1(1)
      by (rule returns_bind [OF layers], rule shaped_update(1) [OF s 1(2)], rule returns_classify [OF m])
  qed
qed

end
