(* ===== verification/CheckpointProps.thy ===== *)
theory CheckpointProps
  imports LlmStep
begin

text \<open>
  A checkpoint that parses gives a model whose tensors lie inside the buffer, when no size
  wraps.
\<close>

section \<open>Sizes\<close>

definition tensor_bytes :: "nat \<Rightarrow> nat \<Rightarrow> nat" where
  "tensor_bytes gs n = n + n div gs * 4"

text \<open>The end of the payload, computed without wrapping.\<close>

definition payload_end :: "config \<Rightarrow> nat \<Rightarrow> nat" where
  "payload_end c kv =
     (let tb = tensor_bytes (group_size c); nl = n_layers c in
      HEADER_BYTES + 2 * (nl * dim c * 4) + dim c * 4 + tb (vocab_size c * dim c)
      + nl * tb (dim c * dim c) + nl * tb (dim c * kv) + nl * tb (dim c * kv) + nl * tb (dim c * dim c)
      + nl * tb (dim c * hidden_dim c) + nl * tb (hidden_dim c * dim c) + nl * tb (dim c * hidden_dim c)
      + (if shared_classifier c then 0 else tb (dim c * vocab_size c)))"

lemma le_tensor_bytes: "n \<le> tensor_bytes gs n"
  by (simp add: tensor_bytes_def)

lemma take_group_fits:
  assumes "0 < count" "off + count * tensor_bytes gs n \<le> usize_max t"
  shows "take_group t gs count n off =
    (\<lparr>qg_base = off, qg_count = count, qg_size = n, qg_gs = gs\<rparr>, off + count * tensor_bytes gs n)"
    "stride t \<lparr>qg_base = off, qg_count = count, qg_size = n, qg_gs = gs\<rparr> = tensor_bytes gs n"
proof -
  have "tensor_bytes gs n \<le> count * tensor_bytes gs n" using assms(1) by simp
  then have "tensor_bytes gs n \<le> usize_max t" using assms(2) by linarith
  then show st: "stride t \<lparr>qg_base = off, qg_count = count, qg_size = n, qg_gs = gs\<rparr> = tensor_bytes gs n"
    by (simp add: stride_def tensor_bytes_def usz_fits)
  then show "take_group t gs count n off =
    (\<lparr>qg_base = off, qg_count = count, qg_size = n, qg_gs = gs\<rparr>, off + count * tensor_bytes gs n)"
    using assms by (simp add: take_group_def Let_def qg_total_def usz_fits mult.commute)
qed

lemma tensor_at:
  assumes "0 < k" "off + k * tensor_bytes gs n \<le> usize_max t" "off + k * tensor_bytes gs n \<le> length buf" "l < k"
  defines "p \<equiv> off + l * tensor_bytes gs n"
  shows "tensor t \<lparr>qg_base = off, qg_count = k, qg_size = n, qg_gs = gs\<rparr> buf l =
    Ok \<lparr>qt_q = cut p (p + n) buf, qt_s = cut (p + n) (p + tensor_bytes gs n) buf\<rparr>"
proof -
  have "Suc l * tensor_bytes gs n \<le> k * tensor_bytes gs n" using assms(4) by (intro mult_le_mono1) simp
  then have p: "p + tensor_bytes gs n \<le> usize_max t" "p + tensor_bytes gs n \<le> length buf"
    using assms(2,3) by (simp_all add: p_def)
  have u: "usz t (l * tensor_bytes gs n) = l * tensor_bytes gs n" "usz t p = p" "usz t (p + n) = p + n"
    "usz t (n div gs * 4) = n div gs * 4" "usz t (p + n + n div gs * 4) = p + tensor_bytes gs n"
    using p by (simp_all add: p_def tensor_bytes_def usz_fits)
  show ?thesis
    using p u take_group_fits(2) [OF assms(1,2)]
    by (simp add: tensor_def Let_def slice_def flip: p_def) (simp add: tensor_bytes_def)
qed

lemma group_ok_at:
  assumes "0 < k" "off + k * tensor_bytes gs n \<le> usize_max t" "off + k * tensor_bytes gs n \<le> length (m_buf m)"
    and "group_size (m_config m) = gs"
  shows "group_ok t m \<lparr>qg_base = off, qg_count = k, qg_size = n, qg_gs = gs\<rparr> k n"
  unfolding group_ok_def
proof (intro allI impI)
  fix l assume l: "l < k"
  then have "Suc l * tensor_bytes gs n \<le> k * tensor_bytes gs n" by (intro mult_le_mono1) simp
  then have "off + l * tensor_bytes gs n + tensor_bytes gs n \<le> length (m_buf m)" using assms(3) by simp
  then show "case tensor t \<lparr>qg_base = off, qg_count = k, qg_size = n, qg_gs = gs\<rparr> (m_buf m) l :: (qtensor, unit) outcome of
      Ok w \<Rightarrow> tensor_shape (group_size (m_config m)) n w | _ \<Rightarrow> False"
    by (simp add: tensor_at [OF assms(1-3) l] assms(4) tensor_shape_def) (simp add: tensor_bytes_def)
qed

section \<open>The layout\<close>

text \<open>The places of the tensors, one after the other.\<close>

definition place :: "config \<Rightarrow> nat \<Rightarrow> nat \<Rightarrow> nat" where
  "place c kv i =
     (let tb = tensor_bytes (group_size c); nl = n_layers c in
      foldl (+) (HEADER_BYTES + 2 * (nl * dim c * 4) + dim c * 4)
        (take i [tb (vocab_size c * dim c), nl * tb (dim c * dim c), nl * tb (dim c * kv), nl * tb (dim c * kv),
                 nl * tb (dim c * dim c), nl * tb (dim c * hidden_dim c), nl * tb (hidden_dim c * dim c),
                 nl * tb (dim c * hidden_dim c)]))"

lemma place_simps:
  "place c kv 0 = HEADER_BYTES + 2 * (n_layers c * dim c * 4) + dim c * 4"
  "place c kv (Suc 0) = place c kv 0 + tensor_bytes (group_size c) (vocab_size c * dim c)"
  "place c kv 2 = place c kv (Suc 0) + n_layers c * tensor_bytes (group_size c) (dim c * dim c)"
  "place c kv 3 = place c kv 2 + n_layers c * tensor_bytes (group_size c) (dim c * kv)"
  "place c kv 4 = place c kv 3 + n_layers c * tensor_bytes (group_size c) (dim c * kv)"
  "place c kv 5 = place c kv 4 + n_layers c * tensor_bytes (group_size c) (dim c * dim c)"
  "place c kv 6 = place c kv 5 + n_layers c * tensor_bytes (group_size c) (dim c * hidden_dim c)"
  "place c kv 7 = place c kv 6 + n_layers c * tensor_bytes (group_size c) (hidden_dim c * dim c)"
  "place c kv 8 = place c kv 7 + n_layers c * tensor_bytes (group_size c) (dim c * hidden_dim c)"
  "payload_end c kv = place c kv 8 + (if shared_classifier c then 0 else tensor_bytes (group_size c) (dim c * vocab_size c))"
  by (simp_all add: place_def payload_end_def Let_def numeral_eq_Suc)

definition group_at :: "config \<Rightarrow> nat \<Rightarrow> nat \<Rightarrow> nat \<Rightarrow> qgroup" where
  "group_at c k off n = \<lparr>qg_base = off, qg_count = k, qg_size = n, qg_gs = group_size c\<rparr>"

definition plain_model :: "config \<Rightarrow> nat \<Rightarrow> bytes \<Rightarrow> model" where
  "plain_model c kv buf =
     (let nl = n_layers c; q = group_at c 1 (place c kv 0) (vocab_size c * dim c) in
      \<lparr>m_config = c, m_buf = buf, m_rms_att = HEADER_BYTES, m_rms_ffn = HEADER_BYTES + nl * dim c * 4,
       m_rms_final = HEADER_BYTES + 2 * (nl * dim c * 4), m_q_tokens = q,
       m_wq = group_at c nl (place c kv (Suc 0)) (dim c * dim c), m_wk = group_at c nl (place c kv 2) (dim c * kv),
       m_wv = group_at c nl (place c kv 3) (dim c * kv), m_wo = group_at c nl (place c kv 4) (dim c * dim c),
       m_w1 = group_at c nl (place c kv 5) (dim c * hidden_dim c), m_w2 = group_at c nl (place c kv 6) (hidden_dim c * dim c),
       m_w3 = group_at c nl (place c kv 7) (dim c * hidden_dim c),
       m_wcls = (if shared_classifier c then q else group_at c 1 (place c kv 8) (dim c * vocab_size c))\<rparr>)"

lemma layout_sizes:
  assumes "payload_end c kv \<le> usize_max t" "0 < n_layers c"
  shows "usz t (vocab_size c * dim c) = vocab_size c * dim c" "usz t (dim c * dim c) = dim c * dim c"
    "usz t (dim c * kv) = dim c * kv" "usz t (dim c * hidden_dim c) = dim c * hidden_dim c"
    "usz t (hidden_dim c * dim c) = hidden_dim c * dim c" "usz t (dim c * vocab_size c) = dim c * vocab_size c"
proof -
  let ?tb = "tensor_bytes (group_size c)"
  have per: "x \<le> n_layers c * ?tb x" for x
    using assms(2) le_tensor_bytes [of x "group_size c"] by (metis le_trans mult_le_mono1 nat_mult_1 Suc_leI One_nat_def)
  note pl = place_simps [of c kv]
  have b: "place c kv 8 \<le> usize_max t" using assms(1) pl(10) by linarith
  have le8: "?tb (vocab_size c * dim c) \<le> place c kv 8" "n_layers c * ?tb (dim c * dim c) \<le> place c kv 8"
    "n_layers c * ?tb (dim c * kv) \<le> place c kv 8" "n_layers c * ?tb (dim c * hidden_dim c) \<le> place c kv 8"
    "n_layers c * ?tb (hidden_dim c * dim c) \<le> place c kv 8"
    using pl(2-9) by linarith+
  show v: "usz t (vocab_size c * dim c) = vocab_size c * dim c" "usz t (dim c * dim c) = dim c * dim c"
    "usz t (dim c * kv) = dim c * kv" "usz t (dim c * hidden_dim c) = dim c * hidden_dim c"
    "usz t (hidden_dim c * dim c) = hidden_dim c * dim c"
    by (rule usz_fits; use b le8 per le_tensor_bytes in \<open>meson le_trans\<close>)+
  then show "usz t (dim c * vocab_size c) = dim c * vocab_size c" by (simp add: mult.commute)
qed

lemma lay_out_plain:
  assumes "payload_end c (kv_dim t c) \<le> usize_max t" "0 < n_layers c"
  shows "lay_out t c buf = (plain_model c (kv_dim t c) buf, payload_end c (kv_dim t c))"
proof -
  let ?kv = "kv_dim t c" and ?tb = "tensor_bytes (group_size c)"
  note pl = place_simps [of c ?kv]
  have b: "place c ?kv 8 \<le> usize_max t" using assms(1) pl(10) by linarith
  define a where "a = n_layers c * dim c * 4"
  have le: "n_layers c * dim c \<le> a" "place c ?kv 0 = HEADER_BYTES + 2 * a + dim c * 4"
    using pl(1) by (simp_all add: a_def)
  have b0: "place c ?kv 0 \<le> usize_max t" using b pl(2-9) by linarith
  have u: "usz t (n_layers c * dim c) = n_layers c * dim c" "usz t a = a"
    "usz t (HEADER_BYTES + a) = HEADER_BYTES + a" "usz t (HEADER_BYTES + a + a) = HEADER_BYTES + 2 * a"
    "usz t (dim c * 4) = dim c * 4" "usz t (HEADER_BYTES + 2 * a + dim c * 4) = place c ?kv 0"
    using b0 le by (simp_all add: usz_fits)
  note v = layout_sizes [OF assms]
  have g: "take_group t (group_size c) k n off = (group_at c k off n, off + k * ?tb n)"
    if "0 < k" "off + k * ?tb n \<le> usize_max t" for k n off
    using take_group_fits(1) [OF that] by (simp add: group_at_def)
  have step: "take_group t (group_size c) k n (place c ?kv i) = (group_at c k (place c ?kv i) n, place c ?kv j)"
    if "0 < k" "place c ?kv j = place c ?kv i + k * ?tb n" "place c ?kv j \<le> usize_max t" for k n i j
    using g [of k "place c ?kv i" n] that by simp
  have p: "place c ?kv (Suc 0) \<le> usize_max t" "place c ?kv 2 \<le> usize_max t" "place c ?kv 3 \<le> usize_max t"
    "place c ?kv 4 \<le> usize_max t" "place c ?kv 5 \<le> usize_max t" "place c ?kv 6 \<le> usize_max t"
    "place c ?kv 7 \<le> usize_max t"
    using b pl(3-9) by linarith+
  have one: "place c ?kv (Suc 0) = place c ?kv 0 + 1 * ?tb (vocab_size c * dim c)" using pl(2) by simp
  have steps: "take_group t (group_size c) 1 (vocab_size c * dim c) (place c ?kv 0)
      = (group_at c 1 (place c ?kv 0) (vocab_size c * dim c), place c ?kv (Suc 0))"
    "take_group t (group_size c) (n_layers c) (dim c * dim c) (place c ?kv (Suc 0))
      = (group_at c (n_layers c) (place c ?kv (Suc 0)) (dim c * dim c), place c ?kv 2)"
    "take_group t (group_size c) (n_layers c) (dim c * ?kv) (place c ?kv 2)
      = (group_at c (n_layers c) (place c ?kv 2) (dim c * ?kv), place c ?kv 3)"
    "take_group t (group_size c) (n_layers c) (dim c * ?kv) (place c ?kv 3)
      = (group_at c (n_layers c) (place c ?kv 3) (dim c * ?kv), place c ?kv 4)"
    "take_group t (group_size c) (n_layers c) (dim c * dim c) (place c ?kv 4)
      = (group_at c (n_layers c) (place c ?kv 4) (dim c * dim c), place c ?kv 5)"
    "take_group t (group_size c) (n_layers c) (dim c * hidden_dim c) (place c ?kv 5)
      = (group_at c (n_layers c) (place c ?kv 5) (dim c * hidden_dim c), place c ?kv 6)"
    "take_group t (group_size c) (n_layers c) (hidden_dim c * dim c) (place c ?kv 6)
      = (group_at c (n_layers c) (place c ?kv 6) (hidden_dim c * dim c), place c ?kv 7)"
    "take_group t (group_size c) (n_layers c) (dim c * hidden_dim c) (place c ?kv 7)
      = (group_at c (n_layers c) (place c ?kv 7) (dim c * hidden_dim c), place c ?kv 8)"
    by (rule step [OF _ one p(1)], simp) (rule step [OF assms(2) pl(3) p(2)] step [OF assms(2) pl(4) p(3)]
      step [OF assms(2) pl(5) p(4)] step [OF assms(2) pl(6) p(5)] step [OF assms(2) pl(7) p(6)]
      step [OF assms(2) pl(8) p(7)] step [OF assms(2) pl(9) b])+
  have last: "take_group t (group_size c) 1 (dim c * vocab_size c) (place c ?kv 8)
      = (group_at c 1 (place c ?kv 8) (dim c * vocab_size c), payload_end c ?kv)" if "\<not> shared_classifier c"
    using g [of 1 "place c ?kv 8" "dim c * vocab_size c"] assms(1) pl(10) that by simp
  have shared: "payload_end c ?kv = place c ?kv 8" if "shared_classifier c" using pl(10) that by simp
  show ?thesis
    unfolding lay_out_def Let_def plain_model_def a_def [symmetric]
    by (cases "shared_classifier c") (simp_all add: u v steps last shared a_def [symmetric] del: One_nat_def)
qed

section \<open>What parses\<close>

lemma model_parse_Ok:
  assumes "model_parse t buf = Ok m"
  defines "c \<equiv> m_config m"
  assumes fits: "payload_end c (kv_dim t c) \<le> usize_max t"
  shows "m = plain_model c (kv_dim t c) buf" "payload_end c (kv_dim t c) \<le> length buf" "0 < n_layers c"
proof -
  obtain d where d: "lay_out t d buf = (m, snd (lay_out t d buf))" "snd (lay_out t d buf) \<le> length buf" "0 < n_layers d"
  proof -
    define v where "v = map nat (map (rd_i32 buf) [8, 12, 16, 20, 24, 28, 32, 37])"
    define d where "d = \<lparr>dim = v ! 0, hidden_dim = v ! 1, n_layers = v ! 2, n_heads = v ! 3, n_kv_heads = v ! 4,
      vocab_size = v ! 5, seq_len = v ! 6, group_size = v ! 7, shared_classifier = buf ! 36 \<noteq> 0\<rparr>"
    have "\<not> list_ex (\<lambda>v. v \<le> 0) (map (rd_i32 buf) [8, 12, 16, 20, 24, 28, 32, 37])"
      "(case lay_out t d buf of (m, off) \<Rightarrow> if off > length buf then Err ModelTruncated else Ok m) = Ok m"
      using assms(1) unfolding model_parse_def Let_def v_def [symmetric] d_def [symmetric] by (simp_all split: if_splits)
    moreover from this(1) have "0 < n_layers d" by (simp add: d_def v_def)
    ultimately show ?thesis by (intro that [of d]) (auto split: if_splits prod.splits)
  qed
  have "m_config (fst (lay_out t d buf)) = d" by (simp add: lay_out_def Let_def split: prod.split)
  then have "d = c" using d(1) by (metis c_def fst_conv)
  with lay_out_plain [OF fits, of buf] d show "m = plain_model c (kv_dim t c) buf"
    "payload_end c (kv_dim t c) \<le> length buf" "0 < n_layers c" by simp_all
qed

lemma plain_model_ok:
  assumes c: "coherent t c" and fits: "payload_end c (kv_dim t c) \<le> usize_max t"
    and len: "payload_end c (kv_dim t c) \<le> length buf" and nl: "0 < n_layers c"
  shows "model_ok t (plain_model c (kv_dim t c) buf)"
proof -
  let ?kv = "kv_dim t c" and ?tb = "tensor_bytes (group_size c)" and ?m = "plain_model c (kv_dim t c) buf"
  note pl = place_simps [of c ?kv]
  have sel: "m_config ?m = c" "m_buf ?m = buf" by (simp_all add: plain_model_def Let_def)
  have b: "place c ?kv 8 \<le> usize_max t" "place c ?kv 8 \<le> length buf" using fits len pl(10) by linarith+
  have grp: "group_ok t ?m (group_at c k (place c ?kv i) n) k n"
    if "0 < k" "place c ?kv j = place c ?kv i + k * ?tb n" "place c ?kv j \<le> place c ?kv 8" for k n i j
    unfolding group_at_def using that b by (intro group_ok_at) (simp_all add: sel)
  have p: "place c ?kv (Suc 0) \<le> place c ?kv 8" "place c ?kv 2 \<le> place c ?kv 8" "place c ?kv 3 \<le> place c ?kv 8"
    "place c ?kv 4 \<le> place c ?kv 8" "place c ?kv 5 \<le> place c ?kv 8" "place c ?kv 6 \<le> place c ?kv 8"
    "place c ?kv 7 \<le> place c ?kv 8" "place c ?kv 8 \<le> place c ?kv 8" "place c ?kv 0 \<le> place c ?kv 8"
    using pl(2-9) by linarith+
  have one: "place c ?kv (Suc 0) = place c ?kv 0 + 1 * ?tb (vocab_size c * dim c)" using pl(2) by simp
  have q: "group_ok t ?m (m_q_tokens ?m) 1 (vocab_size c * dim c)"
    using grp [OF _ one p(1)] by (simp add: plain_model_def Let_def)
  have wcls: "group_ok t ?m (m_wcls ?m) 1 (vocab_size c * dim c)"
  proof (cases "shared_classifier c")
    case True
    then show ?thesis using q by (simp add: plain_model_def Let_def)
  next
    case False
    then have "group_ok t ?m (group_at c 1 (place c ?kv 8) (dim c * vocab_size c)) 1 (dim c * vocab_size c)"
      unfolding group_at_def using fits len pl(10) by (intro group_ok_at) (simp_all add: sel)
    with False show ?thesis by (simp add: plain_model_def Let_def mult.commute)
  qed
  note g = grp [OF nl pl(3) p(2)] grp [OF nl pl(4) p(3)] grp [OF nl pl(5) p(4)] grp [OF nl pl(6) p(5)]
    grp [OF nl pl(7) p(6)] grp [OF nl pl(8) p(7)] grp [OF nl pl(9) p(8)]
  define a where "a = n_layers c * dim c * 4"
  have pa: "HEADER_BYTES + 2 * a + dim c * 4 \<le> usize_max t" "HEADER_BYTES + 2 * a + dim c * 4 \<le> length buf"
    using p(9) b pl(1) by (simp_all add: a_def)
  have row: "usz t (l * dim c) = l * dim c" "usz t (l * dim c * 4) = l * dim c * 4" "l * dim c * 4 + dim c * 4 \<le> a"
    if "l < n_layers c" for l
  proof -
    have "Suc l * (dim c * 4) \<le> n_layers c * (dim c * 4)" using that by (intro mult_le_mono1) simp
    then show r: "l * dim c * 4 + dim c * 4 \<le> a" by (simp add: a_def)
    show "usz t (l * dim c) = l * dim c" "usz t (l * dim c * 4) = l * dim c * 4"
      using r pa(1) by (simp_all add: usz_fits)
  qed
  have four: "usz t (dim c * 4) = dim c * 4" using pa(1) by (simp add: usz_fits)
  have base: "m_rms_att ?m = HEADER_BYTES" "m_rms_ffn ?m = HEADER_BYTES + a" "m_rms_final ?m = HEADER_BYTES + 2 * a"
    unfolding plain_model_def Let_def a_def by simp_all
  have sl: "row_ok (dim c) (slice o' (usz t (o' + dim c * 4)) buf)" if "o' + dim c * 4 \<le> HEADER_BYTES + 2 * a + dim c * 4" for o'
    using that pa by (simp add: usz_fits row_ok_def slice_def)
  have rows: "row_ok (dim c) (rms_att_row t ?m l)" "row_ok (dim c) (rms_ffn_row t ?m l)" if "l < n_layers c" for l
  proof -
    note r = row [OF that]
    have u: "usz t (HEADER_BYTES + l * dim c * 4) = HEADER_BYTES + l * dim c * 4"
      "usz t (HEADER_BYTES + a + l * dim c * 4) = HEADER_BYTES + a + l * dim c * 4"
      using r(3) pa(1) by (simp_all add: usz_fits)
    show "row_ok (dim c) (rms_att_row t ?m l)" "row_ok (dim c) (rms_ffn_row t ?m l)"
      using r(3) unfolding rms_att_row_def rms_ffn_row_def Let_def sel base r(1,2) four u by (intro sl; linarith)+
  qed
  have final: "row_ok (dim c) (rms_final_row t ?m)"
    unfolding rms_final_row_def sel base four by (rule sl) simp
  have v: "vocab_size c * dim c \<le> usize_max t"
    using p(1) b(1) one le_tensor_bytes [of "vocab_size c * dim c" "group_size c"] by linarith
  show ?thesis
    unfolding model_ok_def Let_def sel using c q wcls g rows final v
    by (simp add: plain_model_def Let_def mult.commute)
qed

lemma parse_model_ok:
  assumes "model_parse t buf = Ok m" "coherent t (m_config m)"
    and "payload_end (m_config m) (kv_dim t (m_config m)) \<le> usize_max t"
  shows "model_ok t m"
  using plain_model_ok [OF assms(2,3)] model_parse_Ok [OF assms(1,3)] by metis

end
