(* ===== verification/CheckpointWrite.thy ===== *)
theory CheckpointWrite
  imports CheckpointProps
begin

text \<open>
  The writer of a checkpoint in \<open>format.rs\<close>, and that what it writes parses to the configuration
  and the quantised tensors it was given.
\<close>

section \<open>The writer\<close>

text \<open>The arguments of \<open>write_v2\<close> after the configuration.\<close>

record weights =
  ws_rms_att :: "fl list"
  ws_rms_ffn :: "fl list"
  ws_rms_final :: "fl list"
  ws_q_tokens :: "fl list"
  ws_wq :: "fl list list"
  ws_wk :: "fl list list"
  ws_wv :: "fl list list"
  ws_wo :: "fl list list"
  ws_w1 :: "fl list list"
  ws_w2 :: "fl list list"
  ws_w3 :: "fl list list"
  ws_wcls :: "fl list option"

definition put_f32 :: "fl list \<Rightarrow> bytes" where
  "put_f32 xs = concat (map (\<lambda>x. le32 (f32_to_bits x)) xs)"

definition write_header :: "config \<Rightarrow> bytes" where
  "write_header c =
     (let out = le32 CKPT_MAGIC @ le32 CKPT_VERSION
            @ concat (map (\<lambda>v. le32 (word_of_nat v))
                [dim c, hidden_dim c, n_layers c, n_heads c, n_kv_heads c, vocab_size c, seq_len c])
            @ [if shared_classifier c then 1 else 0] @ le32 (word_of_nat (group_size c))
      in take HEADER_BYTES (out @ replicate (HEADER_BYTES - length out) 0))"

definition write_v2 :: "libm \<Rightarrow> config \<Rightarrow> weights \<Rightarrow> (bytes, 'e) outcome" where
  "write_v2 lm c w =
     bindR (quantize_to_bytes lm (ws_q_tokens w) (group_size c)) (\<lambda>qt.
     bindR (mapR (mapR (\<lambda>xs. quantize_to_bytes lm xs (group_size c)))
              [ws_wq w, ws_wk w, ws_wv w, ws_wo w, ws_w1 w, ws_w2 w, ws_w3 w]) (\<lambda>groups.
     bindR (case ws_wcls w of None \<Rightarrow> Ok [] | Some xs \<Rightarrow> quantize_to_bytes lm xs (group_size c)) (\<lambda>cls.
     Ok (write_header c @ put_f32 (ws_rms_att w) @ put_f32 (ws_rms_ffn w) @ put_f32 (ws_rms_final w)
         @ qt @ concat (map concat groups) @ cls))))"

section \<open>The header\<close>

lemma sint_field: "n < 2 ^ 31 \<Longrightarrow> sint (word_of_nat n :: u32) = int n"
  by (simp add: sint_uint unsigned_of_nat take_bit_nat_eq_self signed_take_bit_int_eq_self)

definition fields_fit :: "config \<Rightarrow> bool" where
  "fields_fit c \<longleftrightarrow> list_all (\<lambda>v. 0 < v \<and> v < 2 ^ 31)
     [dim c, hidden_dim c, n_layers c, n_heads c, n_kv_heads c, vocab_size c, seq_len c, group_size c]"

lemma write_header_bytes:
  "write_header c = le32 CKPT_MAGIC @ le32 CKPT_VERSION @ le32 (word_of_nat (dim c)) @ le32 (word_of_nat (hidden_dim c))
     @ le32 (word_of_nat (n_layers c)) @ le32 (word_of_nat (n_heads c)) @ le32 (word_of_nat (n_kv_heads c))
     @ le32 (word_of_nat (vocab_size c)) @ le32 (word_of_nat (seq_len c)) @ [if shared_classifier c then 1 else 0]
     @ le32 (word_of_nat (group_size c)) @ replicate 215 0"
  by (simp add: write_header_def Let_def HEADER_BYTES_def)

lemma parse_written:
  assumes fit: "fields_fit c" and heads: "dim c mod n_heads c = 0"
    and lens: "\<not> list_ex (\<lambda>len. len = 0 \<or> len mod group_size c \<noteq> 0) (tensor_lens t c)"
    and wrap: "payload_end c (kv_dim t c) \<le> usize_max t"
  shows "model_parse t (write_header c @ rest) =
    (if payload_end c (kv_dim t c) \<le> length (write_header c @ rest)
     then Ok (plain_model c (kv_dim t c) (write_header c @ rest)) else Err ModelTruncated)"
proof -
  let ?b = "write_header c @ rest"
  note bytes = write_header_bytes [of c]
  have words: "get32le 0 ?b = CKPT_MAGIC" "get32le 4 ?b = CKPT_VERSION" "get32le 8 ?b = word_of_nat (dim c)"
    "get32le 12 ?b = word_of_nat (hidden_dim c)" "get32le 16 ?b = word_of_nat (n_layers c)"
    "get32le 20 ?b = word_of_nat (n_heads c)" "get32le 24 ?b = word_of_nat (n_kv_heads c)"
    "get32le 28 ?b = word_of_nat (vocab_size c)" "get32le 32 ?b = word_of_nat (seq_len c)"
    "get32le 37 ?b = word_of_nat (group_size c)"
    unfolding bytes by (simp_all add: get32le_def nth_append) (simp_all add: le32_def be32_def of_le32_def)
  have b: "?b ! 36 = (if shared_classifier c then 1 else 0)" "\<not> length ?b < HEADER_BYTES"
    unfolding bytes by (simp_all add: nth_append HEADER_BYTES_def)
  have nums: "map (rd_i32 ?b) [8, 12, 16, 20, 24, 28, 32, 37]
      = map int [dim c, hidden_dim c, n_layers c, n_heads c, n_kv_heads c, vocab_size c, seq_len c, group_size c]"
    using fit by (simp add: rd_i32_def words sint_field fields_fit_def)
  have pos: "\<not> list_ex (\<lambda>v. v \<le> 0)
      (map int [dim c, hidden_dim c, n_layers c, n_heads c, n_kv_heads c, vocab_size c, seq_len c, group_size c])"
    using fit by (simp add: fields_fit_def)
  have nl: "0 < n_layers c" using fit by (simp add: fields_fit_def)
  have c: "\<lparr>dim = dim c, hidden_dim = hidden_dim c, n_layers = n_layers c, n_heads = n_heads c,
      n_kv_heads = n_kv_heads c, vocab_size = vocab_size c, seq_len = seq_len c, group_size = group_size c,
      shared_classifier = shared_classifier c\<rparr> = c" by simp
  have sh: "(?b ! 36 \<noteq> 0) = shared_classifier c" using b(1) by simp
  show ?thesis
    unfolding model_parse_def nums Let_def if_not_P [OF pos] if_not_P [OF b(2)] words(1,2) sh
    using heads lens lay_out_plain [OF wrap nl] by (simp add: c)
qed

section \<open>The payload\<close>

text \<open>What the writer makes of a tensor: its values, and its scales.\<close>

definition stored :: "libm \<Rightarrow> nat \<Rightarrow> fl list \<Rightarrow> qtensor \<Rightarrow> bool" where
  "stored lm gs xs w \<longleftrightarrow> (quantize_to_bytes lm xs gs :: (_, unit) outcome) = Ok (qt_q w @ qt_s w) \<and> length (qt_q w) = length xs"

definition held :: "target \<Rightarrow> libm \<Rightarrow> model \<Rightarrow> qgroup \<Rightarrow> fl list list \<Rightarrow> bool" where
  "held t lm m g xss \<longleftrightarrow> (\<forall>l < length xss. \<exists>w. (tensor t g (m_buf m) l :: (_, unit) outcome) = Ok w
     \<and> stored lm (group_size (m_config m)) (xss ! l) w)"

definition weights_fit :: "config \<Rightarrow> nat \<Rightarrow> weights \<Rightarrow> bool" where
  "weights_fit c kv w \<longleftrightarrow>
     (let sized = (\<lambda>n xss. length xss = n_layers c \<and> list_all (\<lambda>xs. length xs = n) xss) in
      length (ws_rms_att w) = n_layers c * dim c \<and> length (ws_rms_ffn w) = n_layers c * dim c
      \<and> length (ws_rms_final w) = dim c \<and> length (ws_q_tokens w) = vocab_size c * dim c
      \<and> sized (dim c * dim c) (ws_wq w) \<and> sized (dim c * kv) (ws_wk w) \<and> sized (dim c * kv) (ws_wv w)
      \<and> sized (dim c * dim c) (ws_wo w) \<and> sized (dim c * hidden_dim c) (ws_w1 w)
      \<and> sized (hidden_dim c * dim c) (ws_w2 w) \<and> sized (dim c * hidden_dim c) (ws_w3 w)
      \<and> map_option length (ws_wcls w) = (if shared_classifier c then None else Some (dim c * vocab_size c)))"

lemma length_put_f32 [simp]: "length (put_f32 xs) = 4 * length xs"
  by (induction xs) (simp_all add: put_f32_def)

lemma length_groups: "list_all (\<lambda>x. length x = n) xs \<Longrightarrow> length (concat xs) = length xs * n"
  by (induction xs) simp_all

lemma cut_group:
  assumes "list_all (\<lambda>x. length x = n) xs" "l < length xs" "length pre = off"
  shows "cut (off + l * n) (off + l * n + n) (pre @ concat xs @ post) = xs ! l"
proof -
  have s: "xs = take l xs @ xs ! l # drop (Suc l) xs" by (rule id_take_nth_drop [OF assms(2)])
  have "length (concat (take l xs)) = l * n"
    using length_groups [of n "take l xs"] assms(1,2) by (simp add: list_all_length)
  moreover have "length (xs ! l) = n" using assms(1,2) by (simp add: list_all_length)
  ultimately have "cut (off + l * n) (off + l * n + n) ((pre @ concat (take l xs)) @ xs ! l @ (concat (drop (Suc l) xs) @ post)) = xs ! l"
    using assms(3) by (intro cut_at) simp_all
  moreover have "concat xs = concat (take l xs) @ xs ! l @ concat (drop (Suc l) xs)"
    by (subst s) (simp only: concat_append concat.simps append_assoc)
  ultimately show ?thesis by (simp only: append_assoc)
qed

lemma cut_twice: "i \<le> k \<Longrightarrow> k \<le> j \<Longrightarrow> cut i k xs @ cut k j xs = cut i j xs"
  using take_add [of "k - i" "j - k" "drop i xs"] by (simp add: cut_def drop_take)

lemma bytes_steps:
  "(foldR (bytes_step lm xs gs) ([], []) [0..<n] :: (_, 'e) outcome) = Ok (out, ss) \<Longrightarrow> length out = n * gs \<and> length ss = n"
proof (induction n arbitrary: out ss)
  case (Suc n)
  from Suc.prems obtain o1 s1 where s: "(foldR (bytes_step lm xs gs) ([], []) [0..<n] :: (_, 'e) outcome) = Ok (o1, s1)"
    "(bytes_step lm xs gs (o1, s1) n :: (_, 'e) outcome) = Ok (out, ss)"
    by (auto simp: foldR_append bindR_eq_Ok)
  from s(2) obtain sc qs where "(mapR (\<lambda>k. bindR (idx xs (n * gs + k)) (\<lambda>v. Ok (quant_value lm sc v))) [0..<gs] :: (_, 'e) outcome) = Ok qs"
    "out = o1 @ qs" "ss = s1 @ [sc]"
    unfolding bytes_step_def bindR_eq_Ok by auto
  then show ?case using Suc.IH [OF s(1)] mapR_length by fastforce
qed simp

lemma quantize_bytes:
  assumes "(quantize_to_bytes lm xs gs :: (_, 'e) outcome) = Ok b" "gs dvd length xs"
  shows "length b = tensor_bytes gs (length xs)"
proof -
  have scale4: "length (concat (map (\<lambda>s. le32 (f32_to_bits s)) ss)) = length ss * 4" for ss :: "fl list"
    by (induction ss) simp_all
  obtain r where r: "(foldR (bytes_step lm xs gs) ([], []) [0..<length xs div gs] :: (_, 'e) outcome) = Ok r"
    "b = fst r @ concat (map (\<lambda>s. le32 (f32_to_bits s)) (snd r))"
    using assms(1) unfolding quantize_to_bytes_def div_usize_def bindR_eq_Ok by (auto split: prod.splits if_splits)
  have "length (fst r) = length xs div gs * gs \<and> length (snd r) = length xs div gs"
    using r(1) by (intro bytes_steps) simp
  with r(2) assms(2) show ?thesis
    by (simp add: scale4 tensor_bytes_def)
qed

lemma stored_cut:
  assumes "(quantize_to_bytes lm xs gs :: (_, unit) outcome) = Ok b" "gs dvd length xs"
    and "cut p (p + tensor_bytes gs n) buf = b" "p + tensor_bytes gs n \<le> length buf" "length xs = n"
  shows "stored lm gs xs \<lparr>qt_q = cut p (p + n) buf, qt_s = cut (p + n) (p + tensor_bytes gs n) buf\<rparr>"
  using assms cut_twice [of p "p + n" "p + tensor_bytes gs n" buf] by (simp add: stored_def tensor_bytes_def)

lemma held_group:
  assumes q: "(mapR (\<lambda>xs. quantize_to_bytes lm xs gs) xss :: (_, unit) outcome) = Ok bs"
    and xs: "list_all (\<lambda>xs. length xs = n) xss" "gs dvd n" and buf: "m_buf m = pre @ concat bs @ post"
    and off: "length pre = off" "off + length xss * tensor_bytes gs n \<le> usize_max t" and gs: "group_size (m_config m) = gs"
  shows "held t lm m \<lparr>qg_base = off, qg_count = length xss, qg_size = n, qg_gs = gs\<rparr> xss"
  unfolding held_def gs
proof (intro allI impI)
  fix l assume l: "l < length xss"
  have one: "(quantize_to_bytes lm (xss ! i) gs :: (_, unit) outcome) = Ok (bs ! i)" "length (xss ! i) = n" if "i < length xss" for i
    using mapR_nth [OF q that] xs(1) that by (simp_all add: list_all_length)
  have lb: "length bs = length xss" using mapR_length [OF q] .
  have "list_all (\<lambda>b. length b = tensor_bytes gs n) bs"
    using one quantize_bytes [OF one(1)] xs(2) by (simp add: list_all_length lb)
  note sz = this cut_group [OF this _ off(1), of l post] length_groups [OF this]
  have "Suc l * tensor_bytes gs n \<le> length xss * tensor_bytes gs n" using l by (intro mult_le_mono1) simp
  then have len: "off + length xss * tensor_bytes gs n \<le> length (m_buf m)"
    "off + l * tensor_bytes gs n + tensor_bytes gs n \<le> length (m_buf m)"
    using sz(3) by (simp_all add: buf off(1) lb)
  have "0 < length xss" using l by (cases xss) simp_all
  from tensor_at [OF this off(2) len(1) l] stored_cut [OF one(1) [OF l] _ _ len(2) one(2) [OF l]]
  show "\<exists>w. (tensor t \<lparr>qg_base = off, qg_count = length xss, qg_size = n, qg_gs = gs\<rparr> (m_buf m) l :: (_, unit) outcome) = Ok w
      \<and> stored lm gs (xss ! l) w"
    using sz(2) l xs(2) one(2) [OF l] by (auto simp: buf lb)
qed

text \<open>The tensors of a model, with the arrays they were written from.\<close>

definition groups_of :: "model \<Rightarrow> weights \<Rightarrow> (qgroup \<times> fl list list) list" where
  "groups_of m w = [(m_q_tokens m, [ws_q_tokens w]), (m_wq m, ws_wq w), (m_wk m, ws_wk w), (m_wv m, ws_wv w),
     (m_wo m, ws_wo w), (m_w1 m, ws_w1 w), (m_w2 m, ws_w2 w), (m_w3 m, ws_w3 w),
     (m_wcls m, [case ws_wcls w of None \<Rightarrow> ws_q_tokens w | Some xs \<Rightarrow> xs])]"

lemma group_bytes:
  assumes "(mapR (\<lambda>xs. quantize_to_bytes lm xs gs) xss :: (_, 'e) outcome) = Ok bs" "length xss = k" "gs dvd n"
    "list_all (\<lambda>xs. length xs = n) xss"
  shows "length (concat bs) = k * tensor_bytes gs n"
proof -
  have "list_all (\<lambda>b. length b = tensor_bytes gs n) bs"
    using quantize_bytes [OF mapR_nth [OF assms(1)]] assms(3,4) mapR_length [OF assms(1)] by (simp add: list_all_length)
  with length_groups [OF this] show ?thesis using assms(2) mapR_length [OF assms(1)] by simp
qed

text \<open>The bytes of the writer, group by group.\<close>

lemma write_v2_Ok:
  assumes "(write_v2 lm c w :: (_, unit) outcome) = Ok buf"
  obtains qt gq gk gv go g1 g2 g3 cls where
    "(mapR (\<lambda>xs. quantize_to_bytes lm xs (group_size c)) [ws_q_tokens w] :: (_, unit) outcome) = Ok [qt]"
    "(mapR (\<lambda>xs. quantize_to_bytes lm xs (group_size c)) (ws_wq w) :: (_, unit) outcome) = Ok gq"
    "(mapR (\<lambda>xs. quantize_to_bytes lm xs (group_size c)) (ws_wk w) :: (_, unit) outcome) = Ok gk"
    "(mapR (\<lambda>xs. quantize_to_bytes lm xs (group_size c)) (ws_wv w) :: (_, unit) outcome) = Ok gv"
    "(mapR (\<lambda>xs. quantize_to_bytes lm xs (group_size c)) (ws_wo w) :: (_, unit) outcome) = Ok go"
    "(mapR (\<lambda>xs. quantize_to_bytes lm xs (group_size c)) (ws_w1 w) :: (_, unit) outcome) = Ok g1"
    "(mapR (\<lambda>xs. quantize_to_bytes lm xs (group_size c)) (ws_w2 w) :: (_, unit) outcome) = Ok g2"
    "(mapR (\<lambda>xs. quantize_to_bytes lm xs (group_size c)) (ws_w3 w) :: (_, unit) outcome) = Ok g3"
    "(mapR (\<lambda>xs. quantize_to_bytes lm xs (group_size c)) (case ws_wcls w of None \<Rightarrow> [] | Some xs \<Rightarrow> [xs])
       :: (_, unit) outcome) = Ok cls"
    "buf = (write_header c @ put_f32 (ws_rms_att w) @ put_f32 (ws_rms_ffn w) @ put_f32 (ws_rms_final w))
       @ qt @ concat gq @ concat gk @ concat gv @ concat go @ concat g1 @ concat g2 @ concat g3 @ concat cls"
proof -
  have cls: "\<exists>cls'. (mapR (\<lambda>xs. quantize_to_bytes lm xs (group_size c)) (case ws_wcls w of None \<Rightarrow> [] | Some xs \<Rightarrow> [xs])
       :: (_, unit) outcome) = Ok cls' \<and> concat cls' = cls"
    if "(case ws_wcls w of None \<Rightarrow> Ok [] | Some xs \<Rightarrow> quantize_to_bytes lm xs (group_size c)) = (Ok cls :: (_, unit) outcome)" for cls
    using that by (cases "ws_wcls w") auto
  from assms show thesis
    unfolding write_v2_def bindR_eq_Ok
    by (elim exE conjE) (auto simp: bindR_eq_Ok dest!: cls intro!: that)
qed

lemma held_at:
  assumes "(mapR (\<lambda>xs. quantize_to_bytes lm xs (group_size c)) xss :: (_, unit) outcome) = Ok bs"
    and "length xss = k" "group_size c dvd n" "list_all (\<lambda>xs. length xs = n) xss" "buf = pre @ concat bs @ post"
    and "place c kv i = length pre" "length pre + k * tensor_bytes (group_size c) n \<le> usize_max t"
  shows "held t lm (plain_model c kv buf) (group_at c k (place c kv i) n) xss"
  unfolding group_at_def assms(2) [symmetric]
  by (rule held_group [OF assms(1,4,3) _ _ _]) (use assms in \<open>simp_all add: plain_model_def Let_def\<close>)

lemma written_held:
  assumes fit: "fields_fit c" and lens: "\<not> list_ex (\<lambda>len. len = 0 \<or> len mod group_size c \<noteq> 0) (tensor_lens t c)"
    and wrap: "payload_end c (kv_dim t c) \<le> usize_max t"
    and w: "weights_fit c (kv_dim t c) w" and wr: "(write_v2 lm c w :: (_, unit) outcome) = Ok buf"
  shows "length buf = payload_end c (kv_dim t c)"
    "list_all (\<lambda>(g, xss). held t lm (plain_model c (kv_dim t c) buf) g xss) (groups_of (plain_model c (kv_dim t c) buf) w)"
proof -
  let ?kv = "kv_dim t c" and ?gs = "group_size c" and ?nl = "n_layers c" and ?m = "plain_model c (kv_dim t c) buf"
  let ?h = "write_header c @ put_f32 (ws_rms_att w) @ put_f32 (ws_rms_ffn w) @ put_f32 (ws_rms_final w)"
  have nl: "0 < ?nl" using fit by (simp add: fields_fit_def)
  note u = layout_sizes [OF wrap nl] and pl = place_simps [of c ?kv]
  have dv: "?gs dvd vocab_size c * dim c" "?gs dvd dim c * dim c" "?gs dvd dim c * ?kv"
    "?gs dvd dim c * hidden_dim c" "?gs dvd hidden_dim c * dim c" "?gs dvd dim c * vocab_size c"
    using lens by (simp_all add: tensor_lens_def u mod_eq_0_iff_dvd mult.commute)
  note W = w [unfolded weights_fit_def Let_def]
  obtain qt gq gk gv go g1 g2 g3 cls where g:
    "(mapR (\<lambda>xs. quantize_to_bytes lm xs ?gs) [ws_q_tokens w] :: (_, unit) outcome) = Ok [qt]"
    "(mapR (\<lambda>xs. quantize_to_bytes lm xs ?gs) (ws_wq w) :: (_, unit) outcome) = Ok gq"
    "(mapR (\<lambda>xs. quantize_to_bytes lm xs ?gs) (ws_wk w) :: (_, unit) outcome) = Ok gk"
    "(mapR (\<lambda>xs. quantize_to_bytes lm xs ?gs) (ws_wv w) :: (_, unit) outcome) = Ok gv"
    "(mapR (\<lambda>xs. quantize_to_bytes lm xs ?gs) (ws_wo w) :: (_, unit) outcome) = Ok go"
    "(mapR (\<lambda>xs. quantize_to_bytes lm xs ?gs) (ws_w1 w) :: (_, unit) outcome) = Ok g1"
    "(mapR (\<lambda>xs. quantize_to_bytes lm xs ?gs) (ws_w2 w) :: (_, unit) outcome) = Ok g2"
    "(mapR (\<lambda>xs. quantize_to_bytes lm xs ?gs) (ws_w3 w) :: (_, unit) outcome) = Ok g3"
    "(mapR (\<lambda>xs. quantize_to_bytes lm xs ?gs) (case ws_wcls w of None \<Rightarrow> [] | Some xs \<Rightarrow> [xs]) :: (_, unit) outcome) = Ok cls"
    and buf: "buf = ?h @ qt @ concat gq @ concat gk @ concat gv @ concat go @ concat g1 @ concat g2 @ concat g3 @ concat cls"
    using write_v2_Ok [OF wr] by blast
  have ln: "length (ws_wq w) = ?nl" "length (ws_wk w) = ?nl" "length (ws_wv w) = ?nl" "length (ws_wo w) = ?nl"
    "length (ws_w1 w) = ?nl" "length (ws_w2 w) = ?nl" "length (ws_w3 w) = ?nl" using W by simp_all
  have sz: "list_all (\<lambda>xs. length xs = vocab_size c * dim c) [ws_q_tokens w]"
    "list_all (\<lambda>xs. length xs = dim c * dim c) (ws_wq w)" "list_all (\<lambda>xs. length xs = dim c * ?kv) (ws_wk w)"
    "list_all (\<lambda>xs. length xs = dim c * ?kv) (ws_wv w)" "list_all (\<lambda>xs. length xs = dim c * dim c) (ws_wo w)"
    "list_all (\<lambda>xs. length xs = dim c * hidden_dim c) (ws_w1 w)" "list_all (\<lambda>xs. length xs = hidden_dim c * dim c) (ws_w2 w)"
    "list_all (\<lambda>xs. length xs = dim c * hidden_dim c) (ws_w3 w)"
    using W by simp_all
  have cl: "list_all (\<lambda>xs. length xs = dim c * vocab_size c) (case ws_wcls w of None \<Rightarrow> [] | Some xs \<Rightarrow> [xs])"
    using W by (auto split: option.splits if_splits)
  have h: "length ?h = place c ?kv 0"
    using W by (simp add: write_header_bytes place_def Let_def HEADER_BYTES_def algebra_simps)
  have L: "length qt = tensor_bytes ?gs (vocab_size c * dim c)"
    using group_bytes [OF g(1) refl dv(1) sz(1)] by simp
  note l = group_bytes [OF g(2) ln(1) dv(2) sz(2)] group_bytes [OF g(3) ln(2) dv(3) sz(3)]
    group_bytes [OF g(4) ln(3) dv(3) sz(4)] group_bytes [OF g(5) ln(4) dv(2) sz(5)]
    group_bytes [OF g(6) ln(5) dv(4) sz(6)] group_bytes [OF g(7) ln(6) dv(5) sz(7)]
    group_bytes [OF g(8) ln(7) dv(4) sz(8)]
  have lc: "length (concat cls) = (if shared_classifier c then 0 else tensor_bytes ?gs (dim c * vocab_size c))"
    using group_bytes [OF g(9) refl dv(6) cl] W by (simp split: option.splits if_splits)
  have p: "place c ?kv (Suc 0) = length (?h @ qt)" "place c ?kv 2 = length (?h @ qt @ concat gq)"
    "place c ?kv 3 = length (?h @ qt @ concat gq @ concat gk)"
    "place c ?kv 4 = length (?h @ qt @ concat gq @ concat gk @ concat gv)"
    "place c ?kv 5 = length (?h @ qt @ concat gq @ concat gk @ concat gv @ concat go)"
    "place c ?kv 6 = length (?h @ qt @ concat gq @ concat gk @ concat gv @ concat go @ concat g1)"
    "place c ?kv 7 = length (?h @ qt @ concat gq @ concat gk @ concat gv @ concat go @ concat g1 @ concat g2)"
    "place c ?kv 8 = length (?h @ qt @ concat gq @ concat gk @ concat gv @ concat go @ concat g1 @ concat g2 @ concat g3)"
    unfolding length_append [of ?h] h pl(2-9) by (simp_all add: L l)
  show "length buf = payload_end c ?kv"
    unfolding buf pl(10) p(8) by (simp add: lc)
  have b: "place c ?kv 8 \<le> usize_max t" using wrap pl(10) by linarith
  have le: "length (?h @ qt) + ?nl * tensor_bytes ?gs (dim c * dim c) \<le> usize_max t"
    "length (?h @ qt @ concat gq) + ?nl * tensor_bytes ?gs (dim c * ?kv) \<le> usize_max t"
    "length (?h @ qt @ concat gq @ concat gk) + ?nl * tensor_bytes ?gs (dim c * ?kv) \<le> usize_max t"
    "length (?h @ qt @ concat gq @ concat gk @ concat gv) + ?nl * tensor_bytes ?gs (dim c * dim c) \<le> usize_max t"
    "length (?h @ qt @ concat gq @ concat gk @ concat gv @ concat go) + ?nl * tensor_bytes ?gs (dim c * hidden_dim c) \<le> usize_max t"
    "length (?h @ qt @ concat gq @ concat gk @ concat gv @ concat go @ concat g1) + ?nl * tensor_bytes ?gs (hidden_dim c * dim c) \<le> usize_max t"
    "length (?h @ qt @ concat gq @ concat gk @ concat gv @ concat go @ concat g1 @ concat g2) + ?nl * tensor_bytes ?gs (dim c * hidden_dim c) \<le> usize_max t"
    "length ?h + 1 * tensor_bytes ?gs (vocab_size c * dim c) \<le> usize_max t"
    using b pl(2-9) unfolding p [symmetric] h by linarith+
  have eq: "buf = (?h @ qt) @ concat gq @ concat gk @ concat gv @ concat go @ concat g1 @ concat g2 @ concat g3 @ concat cls"
    "buf = (?h @ qt @ concat gq) @ concat gk @ concat gv @ concat go @ concat g1 @ concat g2 @ concat g3 @ concat cls"
    "buf = (?h @ qt @ concat gq @ concat gk) @ concat gv @ concat go @ concat g1 @ concat g2 @ concat g3 @ concat cls"
    "buf = (?h @ qt @ concat gq @ concat gk @ concat gv) @ concat go @ concat g1 @ concat g2 @ concat g3 @ concat cls"
    "buf = (?h @ qt @ concat gq @ concat gk @ concat gv @ concat go) @ concat g1 @ concat g2 @ concat g3 @ concat cls"
    "buf = (?h @ qt @ concat gq @ concat gk @ concat gv @ concat go @ concat g1) @ concat g2 @ concat g3 @ concat cls"
    "buf = (?h @ qt @ concat gq @ concat gk @ concat gv @ concat go @ concat g1 @ concat g2) @ concat g3 @ concat cls"
    "buf = (?h @ qt @ concat gq @ concat gk @ concat gv @ concat go @ concat g1 @ concat g2 @ concat g3) @ concat cls @ []"
    by (simp_all add: buf)
  have q: "held t lm ?m (group_at c 1 (place c ?kv 0) (vocab_size c * dim c)) [ws_q_tokens w]"
    by (rule held_at [OF g(1) _ dv(1) sz(1) _ h [symmetric] le(8)]) (simp_all add: buf)
  note held = held_at [OF g(2) ln(1) dv(2) sz(2) eq(1) p(1) le(1)] held_at [OF g(3) ln(2) dv(3) sz(3) eq(2) p(2) le(2)]
    held_at [OF g(4) ln(3) dv(3) sz(4) eq(3) p(3) le(3)] held_at [OF g(5) ln(4) dv(2) sz(5) eq(4) p(4) le(4)]
    held_at [OF g(6) ln(5) dv(4) sz(6) eq(5) p(5) le(5)] held_at [OF g(7) ln(6) dv(5) sz(7) eq(6) p(6) le(6)]
    held_at [OF g(8) ln(7) dv(4) sz(8) eq(7) p(7) le(7)]
  have cls: "held t lm ?m (m_wcls ?m) [case ws_wcls w of None \<Rightarrow> ws_q_tokens w | Some xs \<Rightarrow> xs]"
  proof (cases "shared_classifier c")
    case True
    then show ?thesis using W q by (simp add: plain_model_def Let_def)
  next
    case False
    then obtain xs where xs: "ws_wcls w = Some xs" using W by auto
    have "held t lm ?m (group_at c 1 (place c ?kv 8) (dim c * vocab_size c)) [xs]"
      by (rule held_at [OF _ _ dv(6) _ eq(8) p(8)]) (use g(9) cl xs wrap pl(10) p(8) False in simp_all)
    with False xs show ?thesis by (simp add: plain_model_def Let_def)
  qed
  show "list_all (\<lambda>(g, xss). held t lm ?m g xss) (groups_of ?m w)"
    using q held cls by (simp add: groups_of_def) (simp add: plain_model_def Let_def)
qed

section \<open>The round trip\<close>

lemma write_returns:
  assumes gs: "0 < group_size c"
  shows "\<exists>buf. (write_v2 lm c w :: (_, unit) outcome) = Ok buf"
proof -
  have step: "returns (\<lambda>r. True) (bytes_step lm xs gs r g)" if "g < length xs div gs" for xs gs r g
  proof -
    have "Suc g * gs \<le> length xs div gs * gs" using that by (intro mult_le_mono1) simp
    also have "\<dots> \<le> length xs" by simp
    finally have g: "g * gs + gs \<le> length xs" by simp
    then have "returns (\<lambda>ys. length ys = gs)
        (mapR (\<lambda>k. bindR (idx xs (g * gs + k)) (\<lambda>v. Ok (quant_value lm sc v))) [0..<gs])" for sc
      by (intro returns_mono [OF returns_mapR_length] returns_bind [OF returns_idx_any] returns_Ok) auto
    then show ?thesis
      unfolding bytes_step_def by (rule returns_bind [OF returns_group_scale [OF g] returns_bind]) (intro returns_Ok TrueI)
  qed
  have q: "returns (\<lambda>b. True) (quantize_to_bytes lm xs (group_size c))" for xs
    unfolding quantize_to_bytes_def returns_div [OF gs]
    by (rule returns_bind [where Q = "\<lambda>r. True"], rule returns_foldR, simp, rule step, simp)
       (auto intro: returns_Ok split: prod.split)
  then have qs: "returns (\<lambda>ys. True) (mapR (\<lambda>xs. quantize_to_bytes lm xs (group_size c)) xss)" for xss
    by (intro returns_mono [OF returns_mapR_length]) auto
  have "returns (\<lambda>b. True) (write_v2 lm c w)"
    unfolding write_v2_def
    by (rule returns_bind [OF q], rule returns_bind [OF returns_mono [OF returns_mapR_length]], rule qs, simp,
        rule returns_bind [where Q = "\<lambda>r. True"])
       (auto intro: returns_Ok q split: option.split)
  then show ?thesis by (auto simp: returns_def)
qed

text \<open>The configurations a reader accepts.\<close>

definition writable :: "target \<Rightarrow> config \<Rightarrow> bool" where
  "writable t c \<longleftrightarrow> fields_fit c \<and> dim c mod n_heads c = 0
     \<and> \<not> list_ex (\<lambda>len. len = 0 \<or> len mod group_size c \<noteq> 0) (tensor_lens t c)
     \<and> payload_end c (kv_dim t c) \<le> usize_max t"

lemma written_parses:
  assumes "writable t c" "weights_fit c (kv_dim t c) w" "(write_v2 lm c w :: (_, unit) outcome) = Ok buf"
  shows "model_parse t buf = Ok (plain_model c (kv_dim t c) buf)"
    "k < length buf \<Longrightarrow> model_parse t (take k buf) = Err (if k < HEADER_BYTES then TooShort else ModelTruncated)"
proof -
  note c = assms(1) [unfolded writable_def]
  have len: "length buf = payload_end c (kv_dim t c)" using written_held(1) assms c by blast
  obtain rest where buf: "buf = write_header c @ rest"
    using assms(3) by (auto simp: write_v2_def bindR_eq_Ok)
  show "model_parse t buf = Ok (plain_model c (kv_dim t c) buf)"
    using parse_written [of c t rest] c len by (simp add: buf)
  assume k: "k < length buf"
  show "model_parse t (take k buf) = Err (if k < HEADER_BYTES then TooShort else ModelTruncated)"
  proof (cases "k < HEADER_BYTES")
    case True
    then have "length (take k buf) < HEADER_BYTES" using k by simp
    then show ?thesis using True unfolding model_parse_def by (simp only: if_True)
  next
    case False
    have h: "length (write_header c) = HEADER_BYTES" by (simp add: write_header_bytes HEADER_BYTES_def)
    then have "take k buf = write_header c @ take (k - HEADER_BYTES) rest" using False by (simp add: buf)
    then show ?thesis using parse_written [of c t "take (k - HEADER_BYTES) rest"] c len k False
      by (simp add: buf h)
  qed
qed

text \<open>
  C18: what the writer writes reads back. For a configuration whose fields are positive and fit
  their width, whose heads divide the dimension, whose tensors are whole groups and whose sizes
  do not wrap, and for arrays of those sizes, the writer returns a checkpoint that parses to the
  same configuration, in which every tensor of every layer is the quantised array it was given;
  every proper prefix of the checkpoint is refused.
\<close>

theorem checkpoint_roundtrip:
  assumes "writable t c" "weights_fit c (kv_dim t c) w"
  shows "\<exists>buf m. (write_v2 lm c w :: (bytes, unit) outcome) = Ok buf \<and> model_parse t buf = Ok m \<and> m_config m = c
     \<and> list_all (\<lambda>(g, xss). held t lm m g xss) (groups_of m w)
     \<and> (\<forall>k < length buf. model_parse t (take k buf) = Err (if k < HEADER_BYTES then TooShort else ModelTruncated))"
proof -
  obtain buf where buf: "(write_v2 lm c w :: (bytes, unit) outcome) = Ok buf"
    using write_returns [of c] assms(1) by (auto simp: writable_def fields_fit_def)
  have "m_config (plain_model c (kv_dim t c) buf) = c" by (simp add: plain_model_def Let_def)
  with buf written_parses [OF assms buf] written_held(2) [OF _ _ _ assms(2) buf] assms(1)
  show ?thesis by (intro exI [of _ buf] exI [of _ "plain_model c (kv_dim t c) buf"]) (simp add: writable_def)
qed

text \<open>A checkpoint of one layer with two dimensions.\<close>

definition tiny_config :: config where
  "tiny_config = \<lparr>dim = 2, hidden_dim = 2, n_layers = 1, n_heads = 1, n_kv_heads = 1, vocab_size = 2, seq_len = 32,
     group_size = 2, shared_classifier = True\<rparr>"

definition tiny_weights :: weights where
  "tiny_weights = (let z = [f32_zero, f32_zero]; zz = [z @ z] in
     \<lparr>ws_rms_att = z, ws_rms_ffn = z, ws_rms_final = z, ws_q_tokens = z @ z, ws_wq = zz, ws_wk = zz, ws_wv = zz,
      ws_wo = zz, ws_w1 = zz, ws_w2 = zz, ws_w3 = zz, ws_wcls = None\<rparr>)"

lemma tiny_fits:
  "kv_dim host_target tiny_config = 2" "writable host_target tiny_config" "weights_fit tiny_config 2 tiny_weights"
proof -
  have kv: "kv_dim host_target tiny_config = 2" by (simp add: kv_dim_def tiny_config_def usz_def host_target_def)
  show "kv_dim host_target tiny_config = 2" by (fact kv)
  show "writable host_target tiny_config" unfolding writable_def kv
    by (simp add: fields_fit_def tiny_config_def tensor_lens_def kv_dim_def usz_def usize_max_def host_target_def
        payload_end_def tensor_bytes_def HEADER_BYTES_def)
  show "weights_fit tiny_config 2 tiny_weights"
    by (simp add: weights_fit_def tiny_config_def tiny_weights_def Let_def)
qed

theorem checkpoint_roundtrip_witness:
  "\<forall>lm. \<exists>buf m. (write_v2 lm tiny_config tiny_weights :: (bytes, unit) outcome) = Ok buf
     \<and> model_parse host_target buf = Ok m \<and> m_config m = tiny_config
     \<and> list_all (\<lambda>(g, xss). held host_target lm m g xss) (groups_of m tiny_weights)"
proof
  fix lm
  show "\<exists>buf m. (write_v2 lm tiny_config tiny_weights :: (bytes, unit) outcome) = Ok buf
     \<and> model_parse host_target buf = Ok m \<and> m_config m = tiny_config
     \<and> list_all (\<lambda>(g, xss). held host_target lm m g xss) (groups_of m tiny_weights)"
    using checkpoint_roundtrip [of host_target tiny_config tiny_weights lm] tiny_fits by auto
qed

end
