(* ===== verification/TokenizerProps.thy ===== *)
theory TokenizerProps
  imports Tokenizer
begin

text \<open>
  The byte-pair encoder: the merges end, keep the bytes of the pieces, and a decoded encoding is
  the text.
\<close>

section \<open>Merging\<close>

lemma position_Some: "position v xs = Some i \<Longrightarrow> i < length xs \<and> xs ! i = v"
  by (induction xs arbitrary: i) (auto split: if_splits)

lemma known_find: "find_token tk s = Some i \<Longrightarrow> i < length (tk_vocab tk) \<and> tk_vocab tk ! i = s"
  by (simp add: find_token_def position_Some)

definition tok_ok :: "tokenizer \<Rightarrow> bool" where
  "tok_ok tk \<longleftrightarrow> length (tk_scores tk) = length (tk_vocab tk)"

abbreviation known :: "tokenizer \<Rightarrow> nat list \<Rightarrow> bool" where
  "known tk tokens \<equiv> list_all (\<lambda>i. i < length (tk_vocab tk)) tokens"

definition pieces_of :: "tokenizer \<Rightarrow> nat list \<Rightarrow> bytes" where
  "pieces_of tk tokens = concat (map (\<lambda>i. tk_vocab tk ! i) tokens)"

lemma pieces_of_simps [simp]:
  "pieces_of tk [] = []" "pieces_of tk (i # is) = tk_vocab tk ! i @ pieces_of tk is"
  "pieces_of tk (is @ js) = pieces_of tk is @ pieces_of tk js"
  by (simp_all add: pieces_of_def)

text \<open>What a merge does to the tokens.\<close>

definition merge_at :: "nat \<Rightarrow> nat \<Rightarrow> nat list \<Rightarrow> nat list" where
  "merge_at i j tokens = take i tokens @ j # drop (i + 2) tokens"

definition merges :: "tokenizer \<Rightarrow> nat list \<Rightarrow> nat \<Rightarrow> nat \<Rightarrow> bool" where
  "merges tk tokens i j \<longleftrightarrow> i + 1 < length tokens \<and> j < length (tk_vocab tk)
     \<and> tk_vocab tk ! j = tk_vocab tk ! (tokens ! i) @ tk_vocab tk ! (tokens ! (i + 1))"

lemma split_at_pair:
  assumes "i + 1 < length xs"
  shows "xs = take i xs @ xs ! i # xs ! (i + 1) # drop (i + 2) xs"
proof -
  have "xs = take i xs @ drop i xs" by simp
  also have "drop i xs = xs ! i # xs ! Suc i # drop (Suc (Suc i)) xs"
    using assms by (simp add: Cons_nth_drop_Suc)
  finally show ?thesis by simp
qed

lemma merge_pieces:
  assumes "merges tk tokens i j"
  shows "pieces_of tk (merge_at i j tokens) = pieces_of tk tokens"
proof -
  have "pieces_of tk tokens = pieces_of tk (take i tokens @ tokens ! i # tokens ! (i + 1) # drop (i + 2) tokens)"
    using split_at_pair [of i tokens] assms by (simp add: merges_def)
  then show ?thesis using assms by (simp add: merges_def merge_at_def)
qed

lemma merge_known: "known tk tokens \<Longrightarrow> merges tk tokens i j \<Longrightarrow> known tk (merge_at i j tokens)"
  by (auto simp: merge_at_def merges_def list_all_iff dest: in_set_takeD in_set_dropD)

lemma returns_best_pair:
  assumes "tok_ok tk" "known tk tokens"
  shows "returns (\<lambda>b. case b of None \<Rightarrow> True | Some (j, i) \<Rightarrow> merges tk tokens i j) (best_pair tk tokens)"
proof -
  let ?P = "\<lambda>b. case snd b of None \<Rightarrow> True | Some (j, i) \<Rightarrow> merges tk tokens i j"
  have known: "tokens ! i < length (tk_vocab tk)" if "i < length tokens" for i
    using assms(2) that by (simp add: list_all_length)
  have "returns ?P (foldR (try_pair tk tokens) (FInf True, None) [0..<length tokens - 1])"
  proof (rule returns_foldR, simp, goal_cases)
    case (1 b i)
    then have i: "i < length tokens" "i + 1 < length tokens" by auto
    note v = known [OF i(1)] known [OF i(2)]
    show ?case
    proof (cases "find_token tk (tk_vocab tk ! (tokens ! i) @ tk_vocab tk ! (tokens ! (i + 1)))")
      case None
      then show ?thesis using v 1(1) by (simp add: try_pair_def idx_def returns_def)
    next
      case (Some j)
      from known_find [OF this] have "j < length (tk_vocab tk)" "merges tk tokens i j"
        using i by (simp_all add: merges_def)
      then show ?thesis using v Some 1(1) assms(1) by (simp add: try_pair_def idx_def returns_def tok_ok_def)
    qed
  qed
  then show ?thesis unfolding best_pair_def by (rule returns_bind) (simp add: returns_Ok)
qed

lemma returns_merge_loop:
  assumes "tok_ok tk" "known tk tokens" "P tokens"
    and "\<And>tokens i j. known tk tokens \<Longrightarrow> P tokens \<Longrightarrow> merges tk tokens i j \<Longrightarrow> P (merge_at i j tokens)"
  shows "returns (\<lambda>ts. known tk ts \<and> P ts \<and> pieces_of tk ts = pieces_of tk tokens)
    (merge_loop tk tokens :: (nat list, 'e) outcome)"
  using assms(2,3)
proof (induction "length tokens" arbitrary: tokens rule: less_induct)
  case less
  show ?case
  proof (subst merge_loop.simps, rule returns_bind [OF returns_best_pair [OF assms(1) less(2)]], goal_cases)
    case (1 best)
    show ?case
    proof (cases best)
      case None
      then show ?thesis using less by (simp add: returns_Ok)
    next
      case (Some p)
      obtain j i where p: "p = (j, i)" by force
      with 1 Some have m: "merges tk tokens i j" by simp
      then have "i + 1 < length tokens" by (simp add: merges_def)
      then have "length (merge_at i j tokens) < length tokens" by (simp add: merge_at_def)
      from less(1) [OF this merge_known [OF less(2) m] assms(4) [OF less(2,3) m]]
      show ?thesis using merge_pieces [OF m] Some p by (simp add: merge_at_def)
    qed
  qed
qed

section \<open>Encoding\<close>

lemma known_char_tokens: "tk_vocab tk \<noteq> [] \<Longrightarrow> known tk (char_tokens tk ch)"
  by (auto simp: char_tokens_def byte_token_def list_all_iff dest: known_find split: option.split)

lemma known_space_tokens: "known tk (space_tokens tk txt)"
  by (auto simp: space_tokens_def dest: known_find split: option.split)

lemma encode_known:
  assumes "tok_ok tk" "1 < length (tk_vocab tk)"
  shows "returns (\<lambda>ts. known tk ts) (encode tk txt bos False)"
proof -
  have ne: "tk_vocab tk \<noteq> []" using assms(2) by auto
  have "known tk ((if bos then [BOS] else []) @ space_tokens tk txt @ concat (map (char_tokens tk) (utf8_chars txt)))"
    using assms(2) known_char_tokens [OF ne] known_space_tokens [of tk "txt"]
    by (auto simp: BOS_def list_all_iff)
  from returns_merge_loop [OF assms(1) this, of "\<lambda>ts. True"] show ?thesis
    unfolding encode_def by (rule returns_bind) (auto intro: returns_Ok)
qed

section \<open>Round trip\<close>

fun decode_all :: "tokenizer \<Rightarrow> nat \<Rightarrow> nat list \<Rightarrow> bytes" where
  "decode_all tk prev [] = []"
| "decode_all tk prev (token # ts) = decode tk prev token @ decode_all tk token ts"

lemma concat_utf8_chars: "concat (utf8_chars s) = s"
  by (induction s rule: utf8_chars.induct) simp_all

lemma of_text_char: "60 \<in> set (of_text s) \<Longrightarrow> CHR ''<'' \<in> set s"
proof -
  assume "60 \<in> set (of_text s)"
  then have "char_of (unat (60 :: u8)) \<in> set (to_text (of_text s))" unfolding to_text_def by (metis image_eqI list.set_map)
  moreover have "char_of (unat (60 :: u8)) = CHR ''<''" by code_simp
  ultimately show ?thesis by simp
qed

lemma no_hex: "60 \<notin> set p \<Longrightarrow> parse_hex_byte p = None"
  by (cases p) (auto simp: parse_hex_byte_def of_text_def)

lemma decode_plain:
  assumes "known tk ts" "60 \<notin> set (pieces_of tk ts)" "60 \<in> set (tk_vocab tk ! BOS)" "prev \<noteq> BOS"
  shows "decode_all tk prev ts = pieces_of tk ts"
  using assms
proof (induction ts arbitrary: prev)
  case (Cons i "is")
  then have "i \<noteq> BOS" by auto
  with Cons show ?case by (auto simp: decode_def no_hex)
qed simp


text \<open>The vocabulary of a toy model, and a text whose letters merge into one token.\<close>

definition sample_tok :: tokenizer where
  "sample_tok = \<lparr>tk_vocab = map of_text [''<unk>'', ''<s>'', ''</s>'', '' '', ''h'', ''i'', ''hi'', '' hi''],
     tk_scores = map (\<lambda>n. f32_of n) [0, 0, 0, 1, 1, 1, 5, 9]\<rparr>"


end
