(* ===== verification/SamplerProps.thy ===== *)
theory SamplerProps
  imports Sampler
begin

text \<open>The sampler picks a token of the vocabulary, or panics when no token reaches the cutoff.\<close>

lemma argmax_range: "v \<noteq> [] \<Longrightarrow> argmax v < length v"
proof -
  assume v: "v \<noteq> []"
  have "fst (foldl (\<lambda>(best, best_v) (i, x). if flt best_v x then (i, x) else (best, best_v)) (b, x0) ps) < length v"
    if "b < length v" "\<forall>p \<in> set ps. fst p < length v" for b x0 ps
    using that by (induction ps arbitrary: b x0) (auto split: prod.split)
  moreover have "\<forall>p \<in> set (zip [0..<length v] v). fst p < length v" by (auto dest: set_zip_leftD)
  ultimately show ?thesis using v by (simp add: argmax_def)
qed

lemma pick_in: "pick coin cdf ps = Some i \<Longrightarrow> i \<in> fst ` set ps"
  by (induction coin cdf ps rule: pick.induct) (auto simp: Let_def split: if_splits)

lemma zip_index: "i \<in> fst ` set (zip [0..<length xs] xs) \<Longrightarrow> i < length xs"
  by (auto dest: set_zip_leftD)

lemma sample_topp_in:
  assumes "sample_topp srt topp probs coin = Ok i" "\<And>xs. set (srt xs) = set xs"
  shows "i < length probs"
proof -
  define ps where "ps = srt (filter (\<lambda>(i, p). fle (topp_cutoff topp (length probs)) p) (zip [0..<length probs] probs))"
  obtain cum k where n: "nucleus topp 0 f32_zero ps (length ps - 1) = (cum, k)" by force
  have sub: "fst ` set ps \<subseteq> {..<length probs}" using assms(2) by (auto simp: ps_def dest: set_zip_leftD)
  have k: "k < length ps" "i = (case pick (f32_mul coin cum) f32_zero (take (k + 1) ps) of Some i \<Rightarrow> i | None \<Rightarrow> fst (ps ! k))"
    using assms(1) n unfolding sample_topp_def Let_def ps_def [symmetric] by (auto split: if_splits)
  show ?thesis
  proof (cases "pick (f32_mul coin cum) f32_zero (take (k + 1) ps)")
    case None
    then have "i \<in> fst ` set ps" using k by (simp add: nth_mem)
    then show ?thesis using sub by auto
  next
    case (Some j)
    then have "i \<in> fst ` set (take (k + 1) ps)" using k(2) pick_in by fastforce
    then show ?thesis using sub set_take_subset by fastforce
  qed
qed

text \<open>
  Whatever the logits, the temperature and the seed, a token the sampler returns is an index of
  the logits, so it is a token of the vocabulary the next step can look up.
\<close>

theorem sample_in_range:
  assumes "(sample t lm srt logits s :: (_, 'e) outcome) = Ok (i, s')" "logits \<noteq> []" "\<And>xs. set (srt xs) = set xs"
  shows "i < length logits"
proof (cases "feq (sm_temperature s) f32_zero")
  case True
  then show ?thesis using assms(1) argmax_range [OF assms(2)] by (simp add: sample_def)
next
  case False
  define probs where "probs = softmax lm (map (\<lambda>v. f32_div v (sm_temperature s)) logits)"
  have len: "length probs = length logits" by (auto simp: probs_def softmax_def Let_def split: list.split dest: arg_cong [where f = length])
  obtain coin s1 where c: "random_f32 s = (coin, s1)" by force
  have "i = sample_mult t probs coin \<or> sample_topp srt (sm_topp s1) probs coin = (Ok i :: (nat, 'e) outcome)"
    using assms(1) False c by (auto simp: sample_def Let_def probs_def [symmetric] bindR_eq_Ok split: if_splits)
  moreover have "sample_mult t probs coin < length logits"
  proof (cases "pick coin f32_zero (zip [0..<length probs] probs)")
    case None
    moreover have "Suc 0 \<le> length logits" using assms(2) by (cases logits) simp_all
    ultimately show ?thesis using len by (simp add: sample_mult_def usize_sub_def)
  next
    case (Some j)
    then show ?thesis using zip_index [OF pick_in [OF Some]] len by (simp add: sample_mult_def)
  qed
  moreover have "i < length logits" if "sample_topp srt (sm_topp s1) probs coin = (Ok i :: (nat, 'e) outcome)"
    using sample_topp_in [OF that assms(3)] len by simp
  ultimately show ?thesis by blast
qed

text \<open>
  Nucleus sampling panics when no probability reaches the cutoff: the slice of the empty
  nucleus ends after its first element.
\<close>

theorem topp_panics:
  assumes "list_all (\<lambda>p. \<not> fle (topp_cutoff topp (length probs)) p) probs" "srt [] = []"
  shows "sample_topp srt topp probs coin = Panic"
proof -
  have "filter (\<lambda>(i, p). fle (topp_cutoff topp (length probs)) p) (zip [0..<length probs] probs) = []"
    using assms(1) by (auto simp: filter_empty_conv list_all_iff dest: set_zip_rightD)
  then show ?thesis by (simp add: sample_topp_def assms(2))
qed

text \<open>Two equal logits and a nucleus of a tenth.\<close>

theorem topp_panics_witness:
  "(sample_topp (\<lambda>xs. xs) (of_decimal binary32 False 1 (- 1)) [of_decimal binary32 False 5 (- 1), of_decimal binary32 False 5 (- 1)]
     f32_zero :: (nat, unit) outcome) = Panic"
  by (rule topp_panics) code_simp+

text \<open>Functions in the place of \<open>libm\<close>'s.\<close>

definition toy_libm :: libm where
  "toy_libm = \<lparr>lm_sqrt = \<lambda>x. x, lm_exp = \<lambda>x. f32_one, lm_pow = \<lambda>x y. f32_one, lm_cos = \<lambda>x. f32_one,
     lm_sin = \<lambda>x. f32_zero, lm_fabs = \<lambda>x. if flt x f32_zero then fneg x else x, lm_round = \<lambda>x. x\<rparr>"

theorem sample_in_range_witness:
  "(sample host_target toy_libm (\<lambda>xs. xs) [f32_of 2, f32_of 5, f32_of 3] (sampler_new f32_zero f32_one 1) :: (_, unit) outcome)
     = Ok (1, sampler_new f32_zero f32_one 1) \<and> 1 < length [f32_of 2, f32_of 5, f32_of 3]"
proof -
  have s: "(sample host_target toy_libm (\<lambda>xs. xs) [f32_of 2, f32_of 5, f32_of 3] (sampler_new f32_zero f32_one 1) :: (_, unit) outcome)
     = Ok (1, sampler_new f32_zero f32_one 1)" by code_simp
  show ?thesis using s sample_in_range [OF s] by blast
qed

end
