(* ===== verification/DeviceLlmProps.thy ===== *)
theory DeviceLlmProps
  imports DeviceLlm CheckpointWrite TokenizerProps SamplerProps
begin

text \<open>
  A job of the worker on a coherent model ends with a text; a context shorter than the loop's
  bound panics; and the threads around the flag: one job at a time for one caller, two jobs for
  two.
\<close>

section \<open>The job\<close>

lemma try_new_int8_shaped:
  assumes "try_new_int8 t room c n = Some s" and c: "coherent t c" and nl: "0 < n_layers c"
    and fits: "n_layers c * n * dim c \<le> usize_max t"
  shows "shaped t c (min n (seq_len c)) s"
proof -
  define k where "k = min n (seq_len c)"
  have hs: "0 < head_size c" "n_kv_heads c \<le> n_heads c"
    using head_size_dim [OF c] c by (auto simp: coherent_def dvd_imp_le intro: gr0I)
  then have le: "kv_dim t c \<le> dim c" "n_kv_heads c \<le> dim c" "n_heads c \<le> dim c"
    using head_size_dim [OF c, symmetric] by (simp_all add: kv_dim_eq [OF c])
      (metis le_trans mult.right_neutral mult_le_mono2 Suc_leI One_nat_def)+
  have kn: "n_layers c * k \<le> n_layers c * n" by (simp add: k_def)
  have b: "n_layers c * k * x \<le> usize_max t" if "x \<le> dim c" for x
    using mult_le_mono [OF kn that] fits by linarith
  have "n_layers c * k * 1 \<le> usize_max t" using c by (intro b) (simp add: coherent_def)
  then have u0: "usz t (n_layers c * k) = n_layers c * k" by (simp add: usz_fits)
  have "k * n_heads c \<le> n_layers c * k * dim c" using nl le(3) by (intro mult_le_mono) simp_all
  then have "n_heads c * k \<le> usize_max t" using b [OF order.refl] by (simp only: mult.commute [of "n_heads c"])
  then have u1: "usz t (n_heads c * k) = n_heads c * k" by (rule usz_fits)
  have u2: "usz t (n_layers c * k * kv_dim t c) = n_layers c * k * kv_dim t c"
    "usz t (n_layers c * k * n_kv_heads c) = n_layers c * k * n_kv_heads c"
    using b le by (simp_all add: usz_fits)
  show ?thesis
    using assms(1) unfolding try_new_int8_def try_with_cache_def Let_def k_def [symmetric]
    by (auto simp: shaped_def Let_def zf_def zi_def u0 u1 u2 split: if_splits)
qed

lemma feq_zero: "feq f32_zero f32_zero"
  by (simp add: fzero_def)

lemma gen_loop_returns:
  assumes m: "model_ok t m" and n: "lim \<le> n" and v: "0 < vocab_size (m_config m)"
    and prompt: "list_all (\<lambda>i. i < vocab_size (m_config m)) prompt" and temp: "sm_temperature sampler = f32_zero"
    and "shaped t (m_config m) n s" "token < vocab_size (m_config m)"
  shows "returns (\<lambda>out. True) (gen_loop t lm srt m tk prompt lim s sampler token pos out)"
  using assms(6,7)
proof (induction "lim - pos" arbitrary: s token pos out rule: less_induct)
  case less
  show ?case
  proof (cases "pos < lim")
    case False
    then show ?thesis by (subst gen_loop.simps) (simp add: returns_Ok)
  next
    case True
    have pos: "pos < n" using True n by simp
    show ?thesis
      unfolding gen_loop.simps [of t lm srt m tk prompt lim s sampler token pos out] if_P [OF True]
    proof (rule returns_bind [OF returns_forward [OF m less(2,3) pos]], goal_cases)
      case (1 s)
      have nx: "returns (\<lambda>(next, s'). next < vocab_size (m_config m) \<and> s' = sampler)
          (if pos + 1 < length prompt then Ok (prompt ! (pos + 1), sampler) else sample t lm srt (rs_logits s) sampler)"
      proof (cases "pos + 1 < length prompt")
        case True
        then show ?thesis using prompt by (simp add: returns_Ok list_all_length)
      next
        case False
        have "length (rs_logits s) = vocab_size (m_config m)" by (rule shaped_lengths(14) [OF 1])
        moreover from this v have "argmax (rs_logits s) < length (rs_logits s)" by (intro argmax_range) auto
        ultimately show ?thesis using False temp feq_zero by (simp add: sample_def returns_Ok)
      qed
      show ?case
      proof (rule returns_bind [OF nx], clarify, goal_cases)
        case (1 nxt s')
        show ?case
        proof (cases "nxt = BOS \<or> nxt = EOS")
          case False
          then show ?thesis using less(1) [OF _ \<open>shaped t (m_config m) n s\<close> 1] True by simp
        qed (simp add: returns_Ok)
      qed
    qed
  qed
qed

lemma read_vocab_length: "read_vocab t n buf off = Ok entries \<Longrightarrow> length entries = n"
  by (induction n arbitrary: off entries) (auto simp: bindR_eq_Ok Let_def)

lemma tokenizer_ok:
  "tokenizer_from_bytes t buf n = Ok tk \<Longrightarrow> tok_ok tk \<and> length (tk_vocab tk) = n"
  by (auto simp: tokenizer_from_bytes_def bindR_eq_Ok tok_ok_def split: if_splits dest: read_vocab_length)

lemma worker_returns:
  assumes "im_model img = Some mb" "im_tok img = Some tb"
    and "model_parse t mb = Ok m" "coherent t (m_config m)"
    and "payload_end (m_config m) (kv_dim t (m_config m)) \<le> usize_max t"
    and "n_layers (m_config m) * MAX_CTX * dim (m_config m) \<le> usize_max t"
    and "tokenizer_from_bytes t tb (vocab_size (m_config m)) = Ok tk"
    and "1 < vocab_size (m_config m)" "MAX_CTX \<le> seq_len (m_config m)"
  shows "\<exists>out. worker_job t lm srt room free largest img prompt = Ok out"
proof -
  let ?c = "m_config m"
  note ok = parse_model_ok [OF assms(3-5)]
  have tk: "tok_ok tk" "length (tk_vocab tk) = vocab_size ?c" using tokenizer_ok [OF assms(7)] by simp_all
  obtain ts where ts: "(encode tk prompt True False :: (_, string) outcome) = Ok ts" "known tk ts"
    using encode_known [OF tk(1), of prompt True] tk(2) assms(8) by (auto simp: returns_def)
  show ?thesis
  proof (cases "ts = []")
    case True
    then show ?thesis using assms(1-3,7) ts by (simp add: worker_job_def prepare_def)
  next
    case ne: False
    show ?thesis
    proof (cases "try_new_int8 t room ?c MAX_CTX")
      case None
      then show ?thesis using assms(1-3,7) ts ne by (simp add: worker_job_def prepare_def)
    next
      case (Some s)
      have nl: "0 < n_layers ?c" using model_parse_Ok(3) [OF assms(3,5)] .
      have sh: "shaped t ?c MAX_CTX s"
        using try_new_int8_shaped [OF Some assms(4) nl assms(6)] assms(9) by (simp add: min_absorb1)
      have hd: "ts ! 0 < vocab_size ?c" "list_all (\<lambda>i. i < vocab_size ?c) ts"
        using ts(2) ne tk(2) by (simp_all add: list_all_length)
      have loop: "returns (\<lambda>out. True) (gen_loop t lm srt m tk ts (min (length ts + MAX_NEW) MAX_CTX) s
          (sampler_new f32_zero (of_decimal binary32 False 9 (- 1)) 1) (ts ! 0) 0 [])"
        by (rule gen_loop_returns [OF ok _ _ hd(2) _ sh hd(1)]) (use assms(8) in \<open>simp_all add: sampler_new_def\<close>)
      then obtain out where out: "(gen_loop t lm srt m tk ts (min (length ts + MAX_NEW) MAX_CTX) s
          (sampler_new f32_zero (of_decimal binary32 False 9 (- 1)) 1) (ts ! 0) 0 [] :: (_, unit) outcome) = Ok out"
        by (rule returnsE)
      have "prepare t room free largest img prompt = Ok \<lparr>pr_model = mb, pr_tok = tk, pr_state = s, pr_tokens = ts,
          pr_vocab = vocab_size ?c\<rparr>"
        using assms(1-3,7) ts ne Some by (simp add: prepare_def)
      moreover have "(run_loop t lm srt \<lparr>pr_model = mb, pr_tok = tk, pr_state = s, pr_tokens = ts,
          pr_vocab = vocab_size ?c\<rparr> :: (_, unit) outcome) = Ok (if out = [] then ''(no output)'' else out)"
        using assms(3) ne out by (simp add: run_loop_def idx_def)
      ultimately show ?thesis by (simp add: worker_job_def)
    qed
  qed
qed

text \<open>
  A job of the worker ends with a text. When the image holds a checkpoint that parses, whose
  heads, groups and dimensions fit each other and whose sizes do not wrap, with its tokenizer and
  a context of at least 32 positions, then for every prompt, whatever the heap has room for,
  preparing and generating neither panics nor indexes a buffer out of range.
\<close>

theorem worker_answers:
  assumes "im_model img = Some mb" "im_tok img = Some tb"
    and "model_parse t mb = Ok m" "coherent t (m_config m)"
    and "payload_end (m_config m) (kv_dim t (m_config m)) \<le> usize_max t"
    and "n_layers (m_config m) * MAX_CTX * dim (m_config m) \<le> usize_max t"
    and "tokenizer_from_bytes t tb (vocab_size (m_config m)) = Ok tk"
    and "1 < vocab_size (m_config m)" "MAX_CTX \<le> seq_len (m_config m)"
  shows "\<exists>out. worker_job t lm srt room free largest img prompt = Ok out"
  using worker_returns [OF assms] .

section \<open>A short context\<close>

lemma attn_weightsE:
  assumes "(attn_weights lm c kv l pos g s h :: (_, 'e) outcome) = Ok att"
  shows "\<exists>a ws. (slice (h * rs_ctx s) (h * rs_ctx s + pos + 1) a :: (_, 'e) outcome) = Ok ws
    \<and> length a = length (rs_att s) \<and> att = put (h * rs_ctx s) (softmax lm ws) a"
  using assms unfolding attn_weights_def Let_def bindR_eq_Ok
proof (elim exE conjE, goal_cases)
  case (1 a ws)
  have "length a = length (rs_att s)"
    by (rule foldR_inv [OF 1(1)]) (auto simp: bindR_eq_Ok upd_def split: if_splits)
  with 1(2,3) show ?case by blast
qed

lemma attend_head_att:
  assumes "attend_head t lm c l pos kv_mul s h = (Ok s' :: (_, 'e) outcome)"
  shows "length (rs_att s') = length (rs_att s) \<and> rs_ctx s' = rs_ctx s \<and> h * rs_ctx s + pos < length (rs_att s)"
proof -
  obtain g att where w: "attn_weights lm c (kv_dim t c) l pos g s h = (Ok att :: (_, 'e) outcome)"
    "rs_att s' = att" "rs_ctx s' = rs_ctx s"
    using assms by (auto simp: attend_head_def Let_def bindR_eq_Ok)
  from attn_weightsE [OF w(1)] w(2,3) show ?thesis by (auto simp: slice_def split: if_splits)
qed

lemma heads_overrun:
  assumes "0 < n_heads c" "length (rs_att s) = n_heads c * rs_ctx s" "rs_ctx s \<le> pos"
  shows "foldR (attend_head t lm c l pos kv_mul) s [0..<n_heads c] \<noteq> (Ok s' :: (_, 'e) outcome)"
proof
  obtain k where k: "n_heads c = Suc k" using assms(1) gr0_conv_Suc by blast
  assume "foldR (attend_head t lm c l pos kv_mul) s [0..<n_heads c] = (Ok s' :: (_, 'e) outcome)"
  then obtain s1 where s1: "foldR (attend_head t lm c l pos kv_mul) s [0..<k] = (Ok s1 :: (_, 'e) outcome)"
    "attend_head t lm c l pos kv_mul s1 k = (Ok s' :: (_, 'e) outcome)"
    by (auto simp: k foldR_append bindR_eq_Ok)
  have keep: "length (rs_att s1) = length (rs_att s) \<and> rs_ctx s1 = rs_ctx s"
  proof (rule foldR_inv [OF s1(1)])
    fix u h u' assume "length (rs_att u) = length (rs_att s) \<and> rs_ctx u = rs_ctx s"
      and u: "attend_head t lm c l pos kv_mul u h = (Ok u' :: (_, 'e) outcome)"
    then show "length (rs_att u') = length (rs_att s) \<and> rs_ctx u' = rs_ctx s" using conjunct1 [OF attend_head_att [OF u]] conjunct1 [OF conjunct2 [OF attend_head_att [OF u]]] by simp
  qed simp
  have "k * rs_ctx s + pos < n_heads c * rs_ctx s" 
    using conjunct2 [OF conjunct2 [OF attend_head_att [OF s1(2)]]] conjunct1 [OF keep] conjunct2 [OF keep] assms(2)
    by (simp only:)
  then show False using assms(3) by (simp add: k)
qed

lemma store_kv_att:
  assumes "store_kv t lm c l pos s = Ok s'"
  shows "rs_att s' = rs_att s \<and> rs_ctx s' = rs_ctx s"
proof (cases "rs_int8 s")
  case True
  show ?thesis
    using assms unfolding store_kv_def Let_def bindR_eq_Ok if_P [OF True] by (elim exE conjE) (clarsimp simp: bindR_eq_Ok)
next
  case False
  show ?thesis
    using assms unfolding store_kv_def Let_def bindR_eq_Ok if_not_P [OF False] by (elim exE conjE) clarsimp
qed

text \<open>
  A position past the context panics. On a coherent model, a step at a position the cache
  has no room for does not end: the weights of the last head run over their buffer.
\<close>

theorem context_overrun_panics:
  assumes "model_ok t m" "shaped t (m_config m) n s" "0 < n_layers (m_config m)"
    and "token < vocab_size (m_config m)" "n \<le> pos"
  shows "(forward t lm m s token pos :: (run_state, 'e) outcome) \<noteq> Ok s'"
proof
  let ?c = "m_config m" and ?mul = "n_heads (m_config m) div n_kv_heads (m_config m)"
  assume ok: "(forward t lm m s token pos :: (run_state, 'e) outcome) = Ok s'"
  note c = model_okD(1) [OF assms(1)]
  have d: "(div_usize (n_heads ?c) (n_kv_heads ?c) :: (_, 'e) outcome) = Ok ?mul"
    using c by (simp add: div_usize_def coherent_def)
  obtain xs where xs: "(embed_row t m token (rs_x s) :: (_, 'e) outcome) = Ok xs" "length xs = dim ?c"
    using returns_embed_row [OF assms(1,4) shaped_lengths(1) [OF assms(2)]] by (auto simp: returns_def)
  obtain k where k: "n_layers ?c = Suc k" using assms(3) gr0_conv_Suc by blast
  let ?s = "s\<lparr>rs_x := xs\<rparr>"
  have s: "shaped t ?c n ?s" by (rule shaped_update(1) [OF assms(2) xs(2)])
  have "[0..<n_layers ?c] = 0 # map Suc [0..<k]" by (simp add: k upt_conv_Cons map_Suc_upt del: upt_Suc)
  then obtain s1 where "(layer t lm m ?mul pos ?s 0 :: (_, 'e) outcome) = Ok s1"
    using ok d xs(1) by (auto simp: forward_def Let_def bindR_eq_Ok)
  then obtain s2 s3 s4 s5 where l: "(project_qkv t lm m 0 ?s :: (_, 'e) outcome) = Ok s2"
    "(rope t lm ?c pos s2 :: (_, 'e) outcome) = Ok s3" "(store_kv t lm ?c 0 pos s3 :: (_, 'e) outcome) = Ok s4"
    "(foldR (attend_head t lm ?c 0 pos ?mul) s4 [0..<n_heads ?c] :: (_, 'e) outcome) = Ok s5"
    by (auto simp: layer_def Let_def bindR_eq_Ok)
  have s2: "shaped t ?c n s2" by (rule returnsD [OF returns_project_qkv [OF assms(1) s assms(3)] l(1)])
  have "shaped t ?c n s3" by (rule returnsD [OF returns_rope [OF c s2] l(2)])
  from shaped_lengths(13,15) [OF this] store_kv_att [OF l(3)]
  have att: "length (rs_att s4) = n_heads ?c * rs_ctx s4" "rs_ctx s4 \<le> pos" using assms(5) by simp_all
  show False by (rule notE [OF heads_overrun [OF _ att] l(4)]) (use c in \<open>simp add: coherent_def\<close>)
qed

text \<open>The checkpoint of one layer, with a vocabulary of two tokens.\<close>

definition tiny_tok :: bytes where
  "tiny_tok = [3, 0, 0, 0, 0, 0, 0, 0, 1, 0, 0, 0, 60, 0, 0, 0, 0, 3, 0, 0, 0, 60, 115, 62]"

lemma tiny_parse:
  obtains buf m where "model_parse host_target buf = Ok m" "m_config m = tiny_config"
proof -
  obtain buf where buf: "(write_v2 toy_libm tiny_config tiny_weights :: (bytes, unit) outcome) = Ok buf"
    using write_returns [of tiny_config] by (auto simp: tiny_config_def)
  show thesis
    by (rule that [OF written_parses(1) [OF tiny_fits(2) _ buf]]) (simp_all add: tiny_fits plain_model_def Let_def)
qed

lemma tiny_coherent:
  "coherent host_target tiny_config" "payload_end tiny_config (kv_dim host_target tiny_config) \<le> usize_max host_target"
  "n_layers tiny_config * MAX_CTX * dim tiny_config \<le> usize_max host_target" "MAX_CTX \<le> seq_len tiny_config"
  "1 < vocab_size tiny_config" "0 < n_layers tiny_config"
  using tiny_fits(2)
  by (simp_all add: writable_def coherent_def tiny_fits(1) head_size_def)
     (simp_all add: tiny_config_def usize_max_def host_target_def MAX_CTX_def)

lemma tiny_tokenizer: "\<exists>tk. tokenizer_from_bytes host_target tiny_tok 2 = Ok tk"
proof -
  have u: "usz host_target 13 = 13" "usz host_target 24 = 24" by (simp_all add: usz_def host_target_def)
  have w: "as_usize host_target (of_le32 1 0 0 0) = 1" "as_usize host_target (of_le32 3 0 0 0) = 3"
    by (simp_all add: as_usize_def of_le32_def of_be32_def host_target_def)
  show ?thesis
    unfolding tokenizer_from_bytes_def numeral_2_eq_2
    by (simp add: tok_u32_def get_range_def tiny_tok_def cut_def get32le_def w u Let_def)
qed

theorem worker_answers_witness:
  "\<exists>img out. worker_job host_target toy_libm (\<lambda>xs. xs) (\<lambda>k n. True) 60000 20000 img ''hi'' = Ok out
     \<and> im_tok img = Some tiny_tok"
proof -
  obtain buf m where m: "model_parse host_target buf = Ok m" "m_config m = tiny_config" using tiny_parse by blast
  have two: "vocab_size (m_config m) = 2" using m(2) by (simp add: tiny_config_def)
  obtain tk where tk: "tokenizer_from_bytes host_target tiny_tok (vocab_size (m_config m)) = Ok tk"
    using tiny_tokenizer unfolding two by blast
  have "\<exists>out. worker_job host_target toy_libm (\<lambda>xs. xs) (\<lambda>k n. True) 60000 20000
     \<lparr>im_model = Some buf, im_tok = Some tiny_tok\<rparr> ''hi'' = Ok out"
    by (rule worker_answers [OF _ _ m(1) _ _ _ tk]) (use tiny_coherent(5) in \<open>simp_all add: m(2) tiny_coherent\<close>)
  then show ?thesis by (metis llm_image.select_convs(2))
qed

theorem context_overrun_panics_witness:
  "\<exists>m s. m_config m = tiny_config \<and> try_new_int8 host_target (\<lambda>k n. True) (m_config m) 3 = Some s
     \<and> (\<forall>s'. (forward host_target toy_libm m s 1 3 :: (_, unit) outcome) \<noteq> Ok s')"
proof -
  obtain buf m where m: "model_parse host_target buf = Ok m" "m_config m = tiny_config" using tiny_parse by blast
  obtain s where s: "try_new_int8 host_target (\<lambda>k n. True) (m_config m) 3 = Some s"
    by (simp add: try_new_int8_def try_with_cache_def Let_def)
  have ok: "model_ok host_target m" by (rule parse_model_ok [OF m(1)]) (simp_all add: m(2) tiny_coherent)
  have "n_layers tiny_config * 3 * dim tiny_config \<le> usize_max host_target" "min 3 (seq_len tiny_config) = 3"
    by (simp_all add: tiny_config_def usize_max_def host_target_def)
  then have "shaped host_target (m_config m) 3 s"
    using try_new_int8_shaped [OF s] by (simp add: m(2) tiny_coherent)
  then have "(forward host_target toy_libm m s 1 3 :: (_, unit) outcome) \<noteq> Ok s'" for s'
    by (rule context_overrun_panics [OF ok]) (use tiny_coherent(5,6) in \<open>simp_all add: m(2)\<close>)
  then show ?thesis using m(2) s by blast
qed

section \<open>A configuration the reader accepts\<close>

lemma more_kv_heads:
  assumes "0 < n_layers (m_config m)" "0 < n_heads (m_config m)" "n_heads (m_config m) < n_kv_heads (m_config m)"
  shows "(forward t lm m s token pos :: (run_state, 'e) outcome) \<noteq> Ok s'"
proof
  let ?c = "m_config m"
  assume ok: "(forward t lm m s token pos :: (run_state, 'e) outcome) = Ok s'"
  have d: "(div_usize (n_heads ?c) (n_kv_heads ?c) :: (_, 'e) outcome) = Ok 0"
    using assms(3) by (simp add: div_usize_def)
  obtain k j where kj: "n_layers ?c = Suc k" "n_heads ?c = Suc j" using assms(1,2) gr0_conv_Suc by blast
  have up: "[0..<n_layers ?c] = 0 # map Suc [0..<k]" "[0..<n_heads ?c] = 0 # map Suc [0..<j]"
    by (simp_all add: kj upt_conv_Cons map_Suc_upt del: upt_Suc)
  obtain s0 s1 where "(layer t lm m 0 pos s0 0 :: (_, 'e) outcome) = Ok s1"
    using ok d up(1) by (auto simp: forward_def Let_def bindR_eq_Ok)
  then obtain s2 s3 where "(foldR (attend_head t lm ?c 0 pos 0) s2 [0..<n_heads ?c] :: (_, 'e) outcome) = Ok s3"
    by (auto simp: layer_def Let_def bindR_eq_Ok)
  then show False by (simp add: up(2) attend_head_def Let_def div_usize_def)
qed

text \<open>
  The reader accepts checkpoints no step can run: with more heads for keys and values than
  heads, every field is positive and every tensor is whole groups, and the step divides by zero.
\<close>

theorem accepted_config_panics:
  "\<exists>c. writable host_target c \<and> (\<forall>lm w buf m token pos s s'. weights_fit c (kv_dim host_target c) w
     \<longrightarrow> (write_v2 lm c w :: (bytes, unit) outcome) = Ok buf \<longrightarrow> model_parse host_target buf = Ok m
     \<longrightarrow> (forward host_target lm m s token pos :: (run_state, unit) outcome) \<noteq> Ok s')"
proof (intro exI conjI allI impI)
  let ?c = "tiny_config\<lparr>n_kv_heads := 2\<rparr>"
  show wr: "writable host_target ?c"
    by (simp add: writable_def fields_fit_def tiny_config_def tensor_lens_def kv_dim_def usz_def usize_max_def host_target_def
        payload_end_def tensor_bytes_def HEADER_BYTES_def)
  fix lm w buf m token pos s s'
  assume "weights_fit ?c (kv_dim host_target ?c) w" "(write_v2 lm ?c w :: (bytes, unit) outcome) = Ok buf"
    "model_parse host_target buf = Ok m"
  with written_parses(1) [OF wr] have "m_config m = ?c" by (auto simp: plain_model_def Let_def)
  then show "(forward host_target lm m s token pos :: (run_state, unit) outcome) \<noteq> Ok s'"
    by (intro more_kv_heads) (simp_all add: tiny_config_def)
qed

section \<open>The threads\<close>

definition jobs :: "gen_sys \<Rightarrow> nat" where
  "jobs y = length (gs_queue y) + (case gs_work y of None \<Rightarrow> 0 | Some p \<Rightarrow> 1)
     + length (filter (\<lambda>c. case c of Claimed p \<Rightarrow> True | _ \<Rightarrow> False) (gs_callers y))"

definition solo :: "gen_sys \<Rightarrow> bool" where
  "solo y = (case gs_callers y of
      [Idle] \<Rightarrow> length (gs_queue y) + (case gs_work y of None \<Rightarrow> 0 | Some p \<Rightarrow> 1) = (if gs_flag y then 1 else 0)
    | [Checked p] \<Rightarrow> \<not> gs_flag y \<and> gs_queue y = [] \<and> gs_work y = None
    | [Claimed p] \<Rightarrow> gs_flag y \<and> gs_queue y = [] \<and> gs_work y = None
    | _ \<Rightarrow> False)"

lemma soloE:
  assumes "solo y"
  obtains "gs_callers y = [Idle]" "length (gs_queue y) + (case gs_work y of None \<Rightarrow> 0 | Some p \<Rightarrow> 1) = (if gs_flag y then 1 else 0)"
  | p where "gs_callers y = [Checked p]" "\<not> gs_flag y" "gs_queue y = []" "gs_work y = None"
  | p where "gs_callers y = [Claimed p]" "gs_flag y" "gs_queue y = []" "gs_work y = None"
  using assms unfolding solo_def by (auto split: list.splits caller.splits)

lemma single_caller: "gen_reach answer 1 y \<Longrightarrow> solo y"
proof (induction rule: gen_reach.induct)
  case start
  then show ?case by (simp add: gen_start_def solo_def)
next
  case (step y z)
  from step(3) show ?case
  proof (cases rule: soloE)
    case 1
    show ?thesis using step(2)
      by (cases rule: gen_stepE) (use 1 in \<open>auto simp: solo_def split: option.splits if_splits\<close>)
  next
    case 2
    show ?thesis using step(2)
      by (cases rule: gen_stepE) (use 2 in \<open>auto simp: solo_def\<close>)
  next
    case 3
    show ?thesis using step(2)
      by (cases rule: gen_stepE) (use 3 in \<open>auto simp: solo_def\<close>)
  qed
qed

text \<open>
  C28: one generation at a time, with one caller. In every reachable state of the worker and a
  single calling thread, at most one prompt is accepted and not yet answered, and the flag is
  set exactly then.
\<close>

theorem one_job_at_a_time:
  assumes "gen_reach answer 1 y"
  shows "jobs y \<le> 1 \<and> (gs_flag y \<longleftrightarrow> jobs y = 1)"
  by (rule soloE [OF single_caller [OF assms]]) (auto simp: jobs_def split: option.splits if_splits)

theorem one_job_at_a_time_witness:
  "\<forall>answer. \<exists>y. gen_reach answer 1 y \<and> gs_queue y = [''hi''] \<and> jobs y \<le> 1 \<and> (gs_flag y \<longleftrightarrow> jobs y = 1)"
proof
  fix answer
  let ?y0 = "gen_start 1"
  let ?y1 = "?y0\<lparr>gs_callers := (gs_callers ?y0)[0 := Checked ''hi'']\<rparr>"
  let ?y2 = "?y1\<lparr>gs_flag := True, gs_callers := (gs_callers ?y1)[0 := Claimed ''hi'']\<rparr>"
  let ?y3 = "?y2\<lparr>gs_queue := gs_queue ?y2 @ [''hi''], gs_callers := (gs_callers ?y2)[0 := Idle]\<rparr>"
  have "gen_reach answer 1 ?y1"
    by (rule gen_reach.step [OF gen_reach.start gen_step.check]) (simp_all add: gen_start_def)
  then have "gen_reach answer 1 ?y3"
    by (rule gen_reach.step [OF gen_reach.step [OF _ gen_step.claim] gen_step.send]) (simp_all add: gen_start_def)
  then show "\<exists>y. gen_reach answer 1 y \<and> gs_queue y = [''hi''] \<and> jobs y \<le> 1 \<and> (gs_flag y \<longleftrightarrow> jobs y = 1)"
    using one_job_at_a_time [of answer ?y3] by (intro exI [of _ ?y3]) (simp add: gen_start_def)
qed

text \<open>
  With two callers the check and the claim of the flag race: both prompts are accepted, and
  the worker clears the flag after the first answer while the second prompt is still to be run.
\<close>

theorem two_callers_race:
  "\<exists>y z. gen_reach answer 2 y \<and> gs_queue y = [p, q] \<and> gen_reach answer 2 z \<and> \<not> gs_flag z \<and> gs_queue z = [q]
     \<and> gs_result z = Some (answer p)"
proof -
  let ?y0 = "gen_start 2"
  let ?y1 = "?y0\<lparr>gs_callers := (gs_callers ?y0)[0 := Checked p]\<rparr>"
  let ?y2 = "?y1\<lparr>gs_callers := (gs_callers ?y1)[1 := Checked q]\<rparr>"
  let ?y3 = "?y2\<lparr>gs_flag := True, gs_callers := (gs_callers ?y2)[0 := Claimed p]\<rparr>"
  let ?y4 = "?y3\<lparr>gs_flag := True, gs_callers := (gs_callers ?y3)[1 := Claimed q]\<rparr>"
  let ?y5 = "?y4\<lparr>gs_queue := gs_queue ?y4 @ [p], gs_callers := (gs_callers ?y4)[0 := Idle]\<rparr>"
  let ?y6 = "?y5\<lparr>gs_queue := gs_queue ?y5 @ [q], gs_callers := (gs_callers ?y5)[1 := Idle]\<rparr>"
  let ?y7 = "?y6\<lparr>gs_queue := [q], gs_work := Some p\<rparr>"
  let ?y8 = "?y7\<lparr>gs_work := None, gs_result := Some (answer p), gs_flag := False\<rparr>"
  have two: "gs_callers ?y0 = [Idle, Idle]" by (simp add: gen_start_def numeral_2_eq_2)
  have "gen_reach answer 2 ?y2"
    by (rule gen_reach.step [OF gen_reach.step [OF gen_reach.start gen_step.check] gen_step.check])
       (simp_all add: gen_start_def numeral_2_eq_2)
  then have "gen_reach answer 2 ?y4"
    by (rule gen_reach.step [OF gen_reach.step [OF _ gen_step.claim] gen_step.claim]) (simp_all add: two)
  then have y6: "gen_reach answer 2 ?y6"
    by (rule gen_reach.step [OF gen_reach.step [OF _ gen_step.send] gen_step.send]) (simp_all add: two)
  then have "gen_reach answer 2 ?y8"
    by (rule gen_reach.step [OF gen_reach.step [OF _ gen_step.recv] gen_step.finish]) (simp_all add: gen_start_def)
  then show ?thesis using y6 by (intro exI [of _ ?y6] exI [of _ ?y8]) (simp add: gen_start_def)
qed

end
