(* ===== verification/FlashImage.thy ===== *)
theory FlashImage
  imports DeviceLlmProps
begin

text \<open>
  \<open>src/model_host.rs\<close>: the table of contents of the model partition and the windows it describes,
  read by the routes, by the tokenizer and by the memory map; and the packing of an image in
  \<open>examples/gen_toy_model.rs\<close>.
\<close>

section \<open>The partition\<close>

text \<open>
  What the code uses of ESP-IDF: the size of the partition, a read of some bytes at an offset,
  and the mapping of a window; either may fail.
\<close>

record partition =
  pt_size :: nat
  pt_read :: "nat \<Rightarrow> nat \<Rightarrow> bytes option"
  pt_mmap :: "nat \<Rightarrow> nat \<Rightarrow> bytes option"

record toc =
  tok_off :: nat
  tok_len :: nat
  model_off :: nat
  model_len :: nat
  wordmeta_off :: nat
  wordmeta_len :: nat
  embed_off :: nat
  embed_len :: nat

text \<open>A header of 24 bytes is read whatever the version; an image of version 1 uses 16 of them.\<close>

definition load_toc :: "target \<Rightarrow> partition option \<Rightarrow> toc option" where
  "load_toc t part =
     Option.bind part (\<lambda>p.
     Option.bind (pt_read p 0 24) (\<lambda>h.
     if take 4 h \<noteq> of_text ''PSM1'' then None
     else
      (let u = (\<lambda>i. unat (get32le i h));
           version = u 4; tl = u 8; ml = u 12;
           (base, wl, el) = (if version \<ge> 2 then (24, u 16, u 20) else (16, 0, 0));
           m_off = usz t (base + tl); w_off = usz t (m_off + ml); e_off = usz t (w_off + wl)
       in if usz t (e_off + el) > pt_size p then None
          else Some \<lparr>tok_off = base, tok_len = tl, model_off = m_off, model_len = ml,
                 wordmeta_off = w_off, wordmeta_len = wl, embed_off = e_off, embed_len = el\<rparr>)))"

text \<open>A reader over a window of the partition: what it fills in of a buffer.\<close>

definition part_read_at :: "target \<Rightarrow> partition \<Rightarrow> nat \<Rightarrow> nat \<Rightarrow> nat \<Rightarrow> nat \<Rightarrow> bytes" where
  "part_read_at t p base len off room =
     (if off \<ge> len then []
      else let n = min (len - off) room in
        (case pt_read p (usz t (base + off)) n of Some b \<Rightarrow> b | None \<Rightarrow> []))"

definition window :: "target \<Rightarrow> partition \<Rightarrow> nat \<Rightarrow> nat \<Rightarrow> body_source" where
  "window t p base len = Flash (part_read_at t p base len) len"

definition model_source :: "target \<Rightarrow> partition \<Rightarrow> toc option \<Rightarrow> body_source option" where
  "model_source t p c = map_option (\<lambda>c. window t p (model_off c) (model_len c)) c"

definition tokenizer_source :: "target \<Rightarrow> partition \<Rightarrow> toc option \<Rightarrow> body_source option" where
  "tokenizer_source t p c = map_option (\<lambda>c. window t p (tok_off c) (tok_len c)) c"

definition wordmeta_source :: "target \<Rightarrow> partition \<Rightarrow> toc option \<Rightarrow> body_source option" where
  "wordmeta_source t p c = Option.bind c (\<lambda>c.
     if wordmeta_len c = 0 then None else Some (window t p (wordmeta_off c) (wordmeta_len c)))"

definition embeddings_source :: "target \<Rightarrow> partition \<Rightarrow> toc option \<Rightarrow> body_source option" where
  "embeddings_source t p c = Option.bind c (\<lambda>c.
     if embed_len c = 0 then None else Some (window t p (embed_off c) (embed_len c)))"

definition model_mmap :: "partition \<Rightarrow> toc option \<Rightarrow> bytes option" where
  "model_mmap p c = Option.bind c (\<lambda>c. pt_mmap p (model_off c) (model_len c))"

definition tokenizer_bytes :: "partition \<Rightarrow> toc option \<Rightarrow> bytes option" where
  "tokenizer_bytes p c = Option.bind c (\<lambda>c. pt_read p (tok_off c) (tok_len c))"

text \<open>What the worker and the routes get of the partition.\<close>

definition image_of :: "target \<Rightarrow> partition \<Rightarrow> llm_image" where
  "image_of t p = (let c = load_toc t (Some p) in \<lparr>im_model = model_mmap p c, im_tok = tokenizer_bytes p c\<rparr>)"

definition assets_of :: "target \<Rightarrow> partition \<Rightarrow> bytes \<Rightarrow> bytes \<Rightarrow> bytes \<Rightarrow> assets" where
  "assets_of t p page js wasm =
     (let c = load_toc t (Some p) in
      \<lparr>as_page = page, as_wasm_js = js, as_wasm_bg = wasm, as_model = model_source t p c,
       as_tokenizer = tokenizer_source t p c, as_wordmeta = wordmeta_source t p c, as_embeddings = embeddings_source t p c\<rparr>)"

text \<open>The image of version 1, as the generator packs it.\<close>

definition pack_image :: "bytes \<Rightarrow> bytes \<Rightarrow> bytes" where
  "pack_image tokens weights =
     of_text ''PSM1'' @ le32 1 @ le32 (word_of_nat (length tokens)) @ le32 (word_of_nat (length weights)) @ tokens @ weights"

section \<open>What a flashed image serves\<close>

text \<open>The documented behaviour of the driver on a partition whose content is \<open>flash\<close>.\<close>

definition flash_laws :: "partition \<Rightarrow> bytes \<Rightarrow> bool" where
  "flash_laws p flash \<longleftrightarrow> pt_size p = length flash
     \<and> (\<forall>off n. off + n \<le> length flash \<longrightarrow> pt_read p off n = Some (cut off (off + n) flash)
          \<and> pt_mmap p off n = Some (cut off (off + n) flash))"

lemma flash_read:
  assumes "flash_laws p flash" "off + n \<le> length flash"
  shows "pt_read p off n = Some (cut off (off + n) flash)" "pt_mmap p off n = Some (cut off (off + n) flash)"
  using assms unfolding flash_laws_def by blast+

lemma window_reads:
  assumes "flash_laws p flash" "base + len \<le> length flash" "length flash \<le> usize_max t"
  shows "reads_file (cut base (base + len) flash) (window t p base len)"
    "content (cut base (base + len) flash) (window t p base len) = cut base (base + len) flash"
proof -
  have c: "length (cut base (base + len) flash) = len" using assms(2) by (simp add: cut_def)
  have "part_read_at t p base len off room = take room (drop off (cut base (base + len) flash))" for off room
  proof (cases "off < len")
    case True
    let ?n = "min (len - off) room"
    have "base + off + ?n \<le> length flash" using True assms(2) by simp
    moreover from this assms(3) have "usz t (base + off) = base + off" by (intro usz_fits) simp
    ultimately have "part_read_at t p base len off room = cut (base + off) (base + off + ?n) flash"
      using flash_read(1) [OF assms(1)] True by (simp add: part_read_at_def)
    then show ?thesis
      using True by (simp add: cut_def drop_take min_def) (simp add: add.commute)
  qed (simp add: part_read_at_def c)
  then show "reads_file (cut base (base + len) flash) (window t p base len)"
    using c by (simp add: window_def)
  show "content (cut base (base + len) flash) (window t p base len) = cut base (base + len) flash"
    using c by (simp add: window_def)
qed

lemma pack_header:
  assumes "length tokens < 2 ^ 32" "length weights < 2 ^ 32" "24 \<le> length (pack_image tokens weights @ rest)"
  defines "h \<equiv> take 24 (pack_image tokens weights @ rest)"
  shows "take 4 h = of_text ''PSM1''" "get32le 4 h = 1" "unat (get32le 8 h) = length tokens"
    "unat (get32le 12 h) = length weights"
proof -
  define F where "F = pack_image tokens weights @ rest"
  have f: "get32le i h = get32le i (pack_image tokens weights @ rest)" if "i \<le> 12" for i
    using that assms(3) unfolding h_def F_def [symmetric] by (simp add: get32le_def)
  show "take 4 h = of_text ''PSM1''" by (simp add: h_def pack_image_def)
  have "get32le 4 (pack_image tokens weights @ rest) = 1"
    "get32le 8 (pack_image tokens weights @ rest) = word_of_nat (length tokens)"
    "get32le 12 (pack_image tokens weights @ rest) = word_of_nat (length weights)"
    by (simp_all add: pack_image_def get32le_def nth_append) (simp_all add: le32_def be32_def of_le32_def, simp add: of_be32_def)
  then show "get32le 4 h = 1" "unat (get32le 8 h) = length tokens" "unat (get32le 12 h) = length weights"
    using assms(1,2) f [of 4] f [of 8] f [of 12] by (simp_all add: unsigned_of_nat take_bit_nat_eq_self)
qed

lemma pack_cut:
  "cut 16 (16 + length tokens) (pack_image tokens weights @ rest) = tokens"
  "cut (16 + length tokens) (16 + length tokens + length weights) (pack_image tokens weights @ rest) = weights"
  by (simp_all add: pack_image_def cut_def)

lemma packed_toc:
  assumes laws: "flash_laws p (pack_image tokens weights @ rest)"
    and len: "length tokens < 2 ^ 32" "length weights < 2 ^ 32" "24 \<le> length (pack_image tokens weights @ rest)"
    and room: "length (pack_image tokens weights @ rest) \<le> usize_max t"
  shows "load_toc t (Some p) = Some \<lparr>tok_off = 16, tok_len = length tokens, model_off = 16 + length tokens,
    model_len = length weights, wordmeta_off = 16 + length tokens + length weights, wordmeta_len = 0,
    embed_off = 16 + length tokens + length weights, embed_len = 0\<rparr>"
proof -
  have all: "16 + length tokens + length weights \<le> length (pack_image tokens weights @ rest)"
    by (simp add: pack_image_def)
  have u: "usz t (16 + length tokens) = 16 + length tokens"
    "usz t (16 + length tokens + length weights) = 16 + length tokens + length weights"
    using all room by (simp_all add: usz_fits)
  have h: "pt_read p 0 24 = Some (take 24 (pack_image tokens weights @ rest))"
    using flash_read(1) [OF laws, of 0 24] len(3) by (simp add: cut_def)
  have s: "pt_size p = length (pack_image tokens weights @ rest)" using laws by (simp add: flash_laws_def)
  define F where "F = pack_image tokens weights @ rest"
  note ph = pack_header [OF len, folded F_def]
  have "16 + length tokens + length weights \<le> length F" using all by (simp add: F_def)
  then show ?thesis
    using u unfolding load_toc_def by (simp only: Option.bind.simps h [folded F_def] s [folded F_def] ph) (simp add: Let_def ph)
qed

text \<open>
  C40: a flashed image serves its parts. A partition that starts with a packed image is read as a
  table of contents under which the routes serve exactly the packed tokenizer and the packed
  checkpoint, at any offset and in any pieces, the worker gets the same two, and the optional
  parts are absent.
\<close>

theorem image_serves_parts:
  assumes "flash_laws p (pack_image tokens weights @ rest)"
    and "length tokens < 2 ^ 32" "length weights < 2 ^ 32" "24 \<le> length (pack_image tokens weights @ rest)"
    and "length (pack_image tokens weights @ rest) \<le> usize_max t"
  shows "\<exists>ms ts. as_model (assets_of t p page js wasm) = Some ms \<and> reads_file weights ms \<and> content weights ms = weights
    \<and> as_tokenizer (assets_of t p page js wasm) = Some ts \<and> reads_file tokens ts \<and> content tokens ts = tokens
    \<and> as_wordmeta (assets_of t p page js wasm) = None \<and> as_embeddings (assets_of t p page js wasm) = None
    \<and> image_of t p = \<lparr>im_model = Some weights, im_tok = Some tokens\<rparr>"
proof -
  let ?flash = "pack_image tokens weights @ rest"
  have all: "16 + length tokens + length weights \<le> length ?flash" "16 + length tokens \<le> length ?flash"
    by (simp_all add: pack_image_def)
  note c = pack_cut [of tokens weights rest] and toc = packed_toc [OF assms]
  note m = window_reads [OF assms(1) all(1) assms(5)] and k = window_reads [OF assms(1) all(2) assms(5)]
  from m k c have "reads_file weights (window t p (16 + length tokens) (length weights))"
    "content weights (window t p (16 + length tokens) (length weights)) = weights"
    "reads_file tokens (window t p 16 (length tokens))" "content tokens (window t p 16 (length tokens)) = tokens"
    by simp_all
  moreover have "pt_mmap p (16 + length tokens) (length weights) = Some weights" "pt_read p 16 (length tokens) = Some tokens"
    using flash_read [OF assms(1) all(1)] flash_read [OF assms(1) all(2)] c by simp_all
  ultimately show ?thesis
    by (simp add: assets_of_def toc model_source_def tokenizer_source_def wordmeta_source_def embeddings_source_def
        image_of_def model_mmap_def tokenizer_bytes_def Let_def)
qed


text \<open>A partition with some content.\<close>

definition toy_partition :: "bytes \<Rightarrow> partition" where
  "toy_partition flash = \<lparr>pt_size = length flash,
     pt_read = \<lambda>off n. if off + n \<le> length flash then Some (cut off (off + n) flash) else None,
     pt_mmap = \<lambda>off n. if off + n \<le> length flash then Some (cut off (off + n) flash) else None\<rparr>"

lemma toy_partition_laws: "flash_laws (toy_partition flash) flash"
  by (simp add: flash_laws_def toy_partition_def)

theorem image_serves_parts_witness:
  "\<exists>ms. as_model (assets_of host_target (toy_partition (pack_image [1, 2] [3, 4, 5] @ replicate 9 0)) [] [] []) = Some ms
     \<and> content [3, 4, 5] ms = [3, 4, 5]
     \<and> image_of host_target (toy_partition (pack_image [1, 2] [3, 4, 5] @ replicate 9 0)) = \<lparr>im_model = Some [3, 4, 5], im_tok = Some [1, 2]\<rparr>"
  using image_serves_parts [OF toy_partition_laws, of "[1, 2]" "[3, 4, 5]" "replicate 9 0" host_target "[]" "[]" "[]"]
  by (auto simp: pack_image_def usize_max_def host_target_def)

lemma tiny_payload: "payload_end tiny_config 2 = 376"
  by (simp add: payload_end_def tiny_config_def tensor_bytes_def HEADER_BYTES_def)


section \<open>A header that wraps\<close>

text \<open>
  On a device with 32-bit sizes the end of the image is computed with wrapping additions: a
  header that announces a tokenizer of nearly the whole address space is accepted, although its
  window leaves the partition.
\<close>

theorem toc_wraps:
  assumes "usize_bits t = 32"
    and "pt_read p 0 24 = Some (of_text ''PSM1'' @ le32 1 @ le32 0xFFFFFFF0 @ le32 0 @ replicate 8 0)" "pt_size p < 2 ^ 31"
  shows "\<exists>c. load_toc t (Some p) = Some c \<and> pt_size p < tok_off c + tok_len c"
proof -
  let ?h = "of_text ''PSM1'' @ le32 1 @ le32 0xFFFFFFF0 @ le32 0 @ replicate 8 0"
  have w: "get32le 4 ?h = 1" "get32le 8 ?h = 0xFFFFFFF0" "get32le 12 ?h = 0"
    by (simp_all add: get32le_def nth_append) (simp_all add: le32_def be32_def of_le32_def of_be32_def)
  show ?thesis
    using assms(1,3) unfolding load_toc_def by (simp add: assms(2) w usz_def Let_def)
qed

end
