(* ===== verification/LanServer.thy ===== *)
theory LanServer
  imports Web ConnProps Peers
begin

text \<open>
  \<open>src/local_server.rs\<close>: the HTTP server of the LAN, which serves the routes of the device over
  the TCP of the system. A connection is a byte stream; the pool of threads hands every accepted
  connection to \<open>lan_handle\<close>.
\<close>

section \<open>Reading the request\<close>

definition MAX_HEADER :: nat where "MAX_HEADER = 8192"

text \<open>The bytes up to the end of the headers, and where they end; an error closes the connection.\<close>

function read_head :: "'s byte_stream \<Rightarrow> bytes \<Rightarrow> ('s, bytes \<times> nat, unit) comp" where
  "read_head bs buf s = (case bs_read bs 1024 s of
     (Ok got, s) \<Rightarrow>
       (if got = [] then (Err (), s) else if length got > 1024 then (Panic, s)
        else let buf = buf @ got in
          case find_bytes buf header_end of
            Some p \<Rightarrow> (Ok (buf, p), s)
          | None \<Rightarrow> if length buf > MAX_HEADER then (Err (), s) else read_head bs buf s)
   | (Err e, s) \<Rightarrow> (Err (), s)
   | (Panic, s) \<Rightarrow> (Panic, s))"
  by pat_completeness auto
termination
  by (relation "measure (\<lambda>(bs, buf, s). Suc MAX_HEADER - length buf)") (auto intro!: diff_less_mono2)

declare read_head.simps [simp del]

text \<open>The rest of the body; an error ends it where it is.\<close>

function read_body :: "'s byte_stream \<Rightarrow> nat \<Rightarrow> bytes \<Rightarrow> ('s, bytes, unit) comp" where
  "read_body bs n bdy s =
     (if length bdy < n then
       (case bs_read bs 1024 s of
          (Ok got, s) \<Rightarrow>
            (if got = [] then (Ok bdy, s) else if length got > 1024 then (Panic, s)
             else read_body bs n (bdy @ got) s)
        | (Err e, s) \<Rightarrow> (Ok bdy, s)
        | (Panic, s) \<Rightarrow> (Panic, s))
      else (Ok bdy, s))"
  by pat_completeness auto
termination
  by (relation "measure (\<lambda>(bs, n, bdy, s). n - length bdy)") (auto intro!: diff_less_mono2)

declare read_body.simps [simp del]

text \<open>The method, the path, the query and the announced length of the body.\<close>

definition content_length :: "target \<Rightarrow> string list \<Rightarrow> nat" where
  "content_length t lines = foldl (\<lambda>n l. case strip_prefix ''content-length:'' (to_ascii_lowercase l) of
     None \<Rightarrow> n | Some v \<Rightarrow> unwrap_or 0 (parse_usize t (trim v))) 0 lines"

definition parse_head :: "target \<Rightarrow> bytes \<Rightarrow> string \<times> string \<times> string \<times> nat" where
  "parse_head t raw =
     (let lines = split_crlf (from_utf8_lossy (to_text raw));
          parts = split_on CHR '' '' (hd lines);
          http_method = hd parts;
          target = (case tl parts of [] \<Rightarrow> ''/'' | p # _ \<Rightarrow> p);
          (path, query) = (case split_once CHR ''?'' target of Some (p, qs) \<Rightarrow> (p, qs) | None \<Rightarrow> (target, []))
      in (http_method, path, query, content_length t (tl lines)))"

section \<open>Writing the response\<close>

text \<open>\<open>let _ = stream.write_all(..)\<close>: an error is ignored.\<close>

definition put_bytes :: "'s byte_stream \<Rightarrow> bytes \<Rightarrow> ('s, unit, unit) comp" where
  "put_bytes bs d s = (case bs_write bs d s of (Panic, s) \<Rightarrow> (Panic, s) | (_, s) \<Rightarrow> (Ok (), s))"

definition write_full :: "'s byte_stream \<Rightarrow> nat \<Rightarrow> string \<Rightarrow> bytes \<Rightarrow> ('s, unit, unit) comp" where
  "write_full bs status content_type bdy =
     (let reason = (if status = 404 then ''404 Not Found'' else ''200 OK'');
          head = of_text (''HTTP/1.1 '' @ reason @ crlf @ ''Content-Type: '' @ content_type @ crlf
            @ ''Content-Length: '' @ show_nat (length bdy) @ crlf @ ''Connection: close'' @ crlf
            @ ''Access-Control-Allow-Origin: *'' @ crlf @ crlf)
      in bindM (put_bytes bs head) (\<lambda>x. put_bytes bs bdy))"

text \<open>The chunks of a body from an offset, until its end, a read of nothing or an error.\<close>

function send_body :: "'s byte_stream \<Rightarrow> body_source \<Rightarrow> nat \<Rightarrow> nat \<Rightarrow> ('s, nat, unit) comp" where
  "send_body bs src stop off s =
     (if off < stop then
       (let want = min (stop - off) 2048; got = body_read_at src off want in
        if got = [] then (Ok off, s) else if length got > want then (Panic, s)
        else case bs_write bs got s of
          (Ok x, s) \<Rightarrow> send_body bs src stop (off + length got) s
        | (Err e, s) \<Rightarrow> (Ok off, s)
        | (Panic, s) \<Rightarrow> (Panic, s))
      else (Ok off, s))"
  by pat_completeness auto
termination
  by (relation "measure (\<lambda>(bs, src, stop, off, s). stop - off)") (auto intro!: diff_less_mono2)

declare send_body.simps [simp del]

definition not_satisfiable :: "nat \<Rightarrow> bytes" where
  "not_satisfiable whole = of_text (''HTTP/1.1 416 Range Not Satisfiable'' @ crlf
     @ ''Content-Range: bytes */'' @ show_nat whole @ crlf @ ''Content-Length: 0'' @ crlf
     @ ''Connection: close'' @ crlf @ ''Access-Control-Allow-Origin: *'' @ crlf
     @ ''Accept-Ranges: bytes'' @ crlf @ crlf)"

definition reply_head :: "target \<Rightarrow> nat \<Rightarrow> string \<Rightarrow> nat \<Rightarrow> nat \<Rightarrow> nat \<Rightarrow> string option \<Rightarrow> bytes" where
  "reply_head t status content_type base len whole cache_control =
     (let reason = (if status = 206 then ''206 Partial Content'' else ''200 OK'');
          head = ''HTTP/1.1 '' @ reason @ crlf @ ''Content-Type: '' @ content_type @ crlf
            @ ''Content-Length: '' @ show_nat len @ crlf @ ''Connection: close'' @ crlf
            @ ''Access-Control-Allow-Origin: *'' @ crlf @ ''Accept-Ranges: bytes'' @ crlf;
          head = (case cache_control of None \<Rightarrow> head | Some cc \<Rightarrow> head @ ''Cache-Control: '' @ cc @ crlf);
          head = (if status = 206 then head @ ''Content-Range: bytes '' @ show_nat base @ ''-''
                    @ show_nat (usize_sub t (base + len) 1) @ ''/'' @ show_nat whole @ crlf else head)
      in of_text (head @ crlf))"

definition stream_reply :: "target \<Rightarrow> 's byte_stream \<Rightarrow> http_reply \<Rightarrow> bytes \<Rightarrow> ('s, nat, unit) comp" where
  "stream_reply t bs reply req_headers s =
     (let whole = body_total_len (rp_source reply);
          full = (\<lambda>status base len.
            (case bs_write bs (reply_head t status (rp_content_type reply) base len whole (rp_cache_control reply)) s of
               (Ok x, s) \<Rightarrow> bindM (send_body bs (rp_source reply) (base + len) base) (\<lambda>off. returnM (off - base)) s
             | (Err e, s) \<Rightarrow> (Ok 0, s)
             | (Panic, s) \<Rightarrow> (Panic, s)))
      in case parse_range t req_headers whole of
           Ok None \<Rightarrow> full 200 0 whole
         | Ok (Some (a, b)) \<Rightarrow> full 206 a (b - a + 1)
         | _ \<Rightarrow> bindM (put_bytes bs (not_satisfiable whole)) (\<lambda>x. returnM 0) s)"

section \<open>One connection\<close>

definition no_fetch :: string where
  "no_fetch = ''error: fetch_json is not available on the parallel LAN pool (thin stacks); use the in-tunnel server'' @ [CHR 0x0A]"

definition serve_request ::
  "assets \<Rightarrow> 'j serde \<Rightarrow> 'h esp \<Rightarrow> target \<Rightarrow> 's byte_stream \<Rightarrow> bool \<Rightarrow> bytes \<Rightarrow> string \<times> string \<times> string
     \<Rightarrow> bytes \<Rightarrow> 's \<Rightarrow> 'h world \<Rightarrow> (unit, unit) outcome \<times> 's \<times> 'h world"
where
  "serve_request A J dev t bs allow_fetch head req bdy s w =
     (let (http_method, path, query) = req; plain = ''text/plain; charset=utf-8'' in
      if \<not> allow_fetch \<and> path = ''/run'' \<and> find_bytes bdy (of_text ''fetch'') \<noteq> None then
        (case write_full bs 200 plain (of_text no_fetch) s of (r, s) \<Rightarrow> (r, s, w))
      else case web_route A J dev t http_method path query bdy w of
        (None, w) \<Rightarrow> (Panic, s, w)
      | (Some (Some r), w) \<Rightarrow> (case bindM (stream_reply t bs r head) (\<lambda>n. returnM ()) s of (r, s) \<Rightarrow> (r, s, w))
      | (Some None, w) \<Rightarrow> (case write_full bs 404 plain (of_text (''not found'' @ [CHR 0x0A])) s of (r, s) \<Rightarrow> (r, s, w)))"

text \<open>A connection that ends early ends the handler (\<open>Err ()\<close>) without an answer.\<close>

definition lan_handle ::
  "assets \<Rightarrow> 'j serde \<Rightarrow> 'h esp \<Rightarrow> target \<Rightarrow> 's byte_stream \<Rightarrow> bool \<Rightarrow> 's \<Rightarrow> 'h world
     \<Rightarrow> (unit, unit) outcome \<times> 's \<times> 'h world"
where
  "lan_handle A J dev t bs allow_fetch s w =
     (case read_head bs [] s of
        (Ok (buf, p), s) \<Rightarrow>
          (let (http_method, path, query, len) = parse_head t (take p buf) in
           case read_body bs len (drop (p + 4) buf) s of
             (Ok bdy, s) \<Rightarrow> serve_request A J dev t bs allow_fetch (take p buf) (http_method, path, query) bdy s w
           | (Err e, s) \<Rightarrow> (Err (), s, w)
           | (Panic, s) \<Rightarrow> (Panic, s, w))
      | (Err e, s) \<Rightarrow> (Err (), s, w)
      | (Panic, s) \<Rightarrow> (Panic, s, w))"

end
