(* ===== verification/LanProps.thy ===== *)
theory LanProps
  imports LanServer WebProps
begin

text \<open>
  The LAN server and the server in the tunnel answer a request with the same bytes, however the
  network cuts the request.
\<close>

section \<open>Sockets\<close>

text \<open>
  The documented behaviour of a connected socket, in terms of the bytes still to be read and the
  bytes written: a read gives some of what is left, and writing is appending.
\<close>

definition socket_laws :: "'s byte_stream \<Rightarrow> ('s \<Rightarrow> bytes) \<Rightarrow> ('s \<Rightarrow> bytes) \<Rightarrow> bool" where
  "socket_laws bs avail sent \<longleftrightarrow>
     (\<forall>n s. 0 < n \<and> avail s \<noteq> [] \<longrightarrow>
        (\<exists>k s'. 0 < k \<and> k \<le> n \<and> k \<le> length (avail s) \<and> bs_read bs n s = (Ok (take k (avail s)), s')
           \<and> avail s' = drop k (avail s) \<and> sent s' = sent s)) \<and>
     (\<forall>d s. \<exists>s'. bs_write bs d s = (Ok (), s') \<and> avail s' = avail s \<and> sent s' = sent s @ d)"

lemma socket_read:
  assumes "socket_laws bs avail sent" "avail s \<noteq> []" "0 < n"
  obtains k s' where "0 < k" "k \<le> n" "k \<le> length (avail s)" "bs_read bs n s = (Ok (take k (avail s)), s')"
    "avail s' = drop k (avail s)" "sent s' = sent s"
  using assms unfolding socket_laws_def by blast

lemma socket_write:
  assumes "socket_laws bs avail sent"
  obtains s' where "bs_write bs d s = (Ok (), s')" "avail s' = avail s" "sent s' = sent s @ d"
  using assms unfolding socket_laws_def by blast

lemma read_head_socket:
  assumes laws: "socket_laws bs avail sent" and w: "find_bytes w header_end = Some p" "p + 4 \<le> MAX_HEADER"
  shows "buf @ avail s = w \<Longrightarrow> find_bytes buf header_end = None \<Longrightarrow>
    \<exists>buf' s'. read_head bs buf s = (Ok (buf', p), s') \<and> buf' @ avail s' = w \<and> sent s' = sent s \<and> p + 4 \<le> length buf'"
proof (induction "length w - length buf" arbitrary: buf s rule: less_induct)
  case less
  have pw: "p + 4 \<le> length w" using find_bytes_le [OF w(1)] by simp
  have "avail s \<noteq> []" using less.prems w(1) by auto
  with laws obtain k s1 where k: "0 < k" "k \<le> 1024" "k \<le> length (avail s)"
    and r: "bs_read bs 1024 s = (Ok (take k (avail s)), s1)" "avail s1 = drop k (avail s)" "sent s1 = sent s"
    by (rule socket_read [where n = 1024]) simp
  define buf1 where "buf1 = buf @ take k (avail s)"
  have hw: "buf1 @ avail s1 = w" using less.prems(1) by (simp add: buf1_def r)
  have g: "take k (avail s) \<noteq> []" "\<not> length (take k (avail s)) > 1024" using k \<open>avail s \<noteq> []\<close> by simp_all
  show ?case
  proof (cases "p + 4 \<le> length buf1")
    case True
    with find_bytes_append [of p header_end buf1 "avail s1"] hw w(1)
    have "find_bytes buf1 header_end = Some p" by simp
    with r g hw True show ?thesis by (subst read_head.simps) (simp add: buf1_def)
  next
    case False
    have none: "find_bytes buf1 header_end = None"
    proof (rule ccontr)
      assume "find_bytes buf1 header_end \<noteq> None"
      then obtain i where i: "find_bytes buf1 header_end = Some i" by auto
      then have "i + 4 \<le> length buf1" using find_bytes_le by fastforce
      with find_bytes_append [of i header_end buf1 "avail s1"] i hw w(1) False show False by simp
    qed
    have "length w - length buf1 < length w - length buf"
      using k g False pw by (simp add: buf1_def)
    from less.hyps [OF this hw none] obtain b s2 where
      "read_head bs buf1 s1 = (Ok (b, p), s2)" "b @ avail s2 = w" "sent s2 = sent s1" "p + 4 \<le> length b" by blast
    moreover have "\<not> length buf1 > MAX_HEADER" using False w(2) by simp
    ultimately show ?thesis using r g none by (subst read_head.simps) (simp add: buf1_def)
  qed
qed

lemma read_body_socket:
  assumes laws: "socket_laws bs avail sent"
  shows "n \<le> length (bdy @ avail s) \<Longrightarrow>
    \<exists>k s'. read_body bs n bdy s = (Ok (bdy @ take k (avail s)), s') \<and> sent s' = sent s \<and> n \<le> length bdy + k \<and> k \<le> length (avail s)"
proof (induction "n - length bdy" arbitrary: bdy s rule: less_induct)
  case less
  show ?case
  proof (cases "length bdy < n")
    case False
    then show ?thesis by (subst read_body.simps) (auto intro: exI [of _ 0])
  next
    case True
    then have "avail s \<noteq> []" using less.prems by auto
    with laws obtain k s1 where k: "0 < k" "k \<le> 1024" "k \<le> length (avail s)"
      and r: "bs_read bs 1024 s = (Ok (take k (avail s)), s1)" "avail s1 = drop k (avail s)" "sent s1 = sent s"
      by (rule socket_read [where n = 1024]) simp
    have g: "take k (avail s) \<noteq> []" "\<not> length (take k (avail s)) > 1024" using k \<open>avail s \<noteq> []\<close> by simp_all
    have "n - length (bdy @ take k (avail s)) < n - length bdy" "n \<le> length ((bdy @ take k (avail s)) @ avail s1)"
      using True k less.prems by (simp_all add: r)
    from less.hyps [OF this] obtain j s2 where
      "read_body bs n (bdy @ take k (avail s)) s1 = (Ok ((bdy @ take k (avail s)) @ take j (avail s1)), s2)"
      "sent s2 = sent s1" "n \<le> length (bdy @ take k (avail s)) + j" "j \<le> length (avail s1)" by blast
    with r g True k show ?thesis
      by (subst read_body.simps) (auto simp: take_add intro!: exI [of _ "k + j"])
  qed
qed

section \<open>The body\<close>

lemma send_body_socket:
  assumes laws: "socket_laws bs avail sent" and rf: "reads_file file src" and stop: "stop \<le> length (content file src)"
  shows "off \<le> stop \<Longrightarrow> \<exists>s'. send_body bs src stop off s = (Ok stop, s') \<and> sent s' = sent s @ cut off stop (content file src)"
proof (induction "stop - off" arbitrary: off s rule: less_induct)
  case less
  show ?case
  proof (cases "off < stop")
    case False
    with less.prems show ?thesis by (subst send_body.simps) (simp add: cut_def)
  next
    case True
    define n where "n = min (stop - off) 2048"
    define got where "got = body_read_at src off n"
    have got: "got = take n (drop off (content file src))" using body_read_at_file [OF rf] by (simp add: got_def)
    then have len: "length got = n" using stop True by (simp add: n_def)
    have n: "0 < n" "off + n \<le> stop" using True by (simp_all add: n_def)
    obtain s1 where s1: "bs_write bs got s = (Ok (), s1)" "sent s1 = sent s @ got"
      using laws by (rule socket_write)
    have "stop - (off + n) < stop - off" using n True by simp
    from less.hyps [OF this n(2), of s1] obtain s2 where
      s2: "send_body bs src stop (off + n) s1 = (Ok stop, s2)" "sent s2 = sent s1 @ cut (off + n) stop (content file src)" by blast
    have "got @ cut (off + n) stop (content file src) = cut off stop (content file src)"
    proof -
      have "got = cut off (off + n) (content file src)" by (simp add: got cut_def drop_take)
      then show ?thesis using n take_add [of n "stop - (off + n)" "drop off (content file src)"]
        by (simp add: cut_def drop_take add.commute)
    qed
    with True s1 s2 len n show ?thesis
      by (subst send_body.simps) (auto simp: Let_def simp flip: n_def got_def)
  qed
qed

lemma show_status: "show_nat 200 = ''200''" "show_nat 206 = ''206''"
  by code_simp+

lemma reply_head_render:
  "reply_head t 200 ct b n m cc = render_headers t 200 ct b n m cc"
  "reply_head t 206 ct b n m cc = render_headers t 206 ct b n m cc"
  by (simp_all add: reply_head_def render_headers_def http_reason_def show_status)

lemma stream_reply_socket:
  assumes laws: "socket_laws bs avail sent" and rf: "reads_file file (rp_source r)"
    and st: "rp_status r = 200" and range: "parse_range t req (body_total_len (rp_source r)) \<noteq> Err ()"
  shows "\<exists>s' n. stream_reply t bs r req s = (Ok n, s') \<and> sent s' = sent s @ wire file (response_for t req r)"
proof -
  let ?src = "rp_source r" and ?n = "body_total_len (rp_source r)"
  note tl = body_total_len [OF rf]
  have full: "\<exists>s'. bindM (send_body bs ?src (base + len) base) (\<lambda>off. returnM (off - base)) s1 = (Ok len, s')
      \<and> sent s' = sent s1 @ cut base (base + len) (content file ?src)"
    if "base + len \<le> ?n" for base len s1
    using send_body_socket [OF laws rf, of "base + len" base s1] that tl by (auto simp: bindM_apply)
  have out: "\<exists>s' n. (case bs_write bs hd s of
        (Ok x, s) \<Rightarrow> bindM (send_body bs ?src (base + len) base) (\<lambda>off. returnM (off - base)) s
      | (Err e, s) \<Rightarrow> (Ok 0, s) | (Panic, s) \<Rightarrow> (Panic, s)) = (Ok n, s')
      \<and> sent s' = sent s @ hd @ take len (drop base (content file ?src))"
    if "base + len \<le> ?n" for hd base len
  proof -
    obtain s1 where s1: "bs_write bs hd s = (Ok (), s1)" "sent s1 = sent s @ hd" using laws by (rule socket_write)
    from full [OF that, of s1] s1 show ?thesis by (auto simp: cut_def drop_take)
  qed
  show ?thesis
  proof (cases "parse_range t req ?n")
    case (Ok x)
    show ?thesis
    proof (cases x)
      case None
      with Ok out [of 0 ?n] show ?thesis
        by (simp add: stream_reply_def response_for_def wire_def Let_def reply_head_render st)
    next
      case (Some ab)
      then obtain a b where ab: "x = Some (a, b)" by (cases ab) simp
      have in_body: "a \<le> b" "b < ?n" using parse_range_in_body [where t = t and req = req and n = ?n] Ok ab by simp_all
      then have "a + (b - a + 1) \<le> ?n" by simp
      note o = out [OF this, of "reply_head t 206 (rp_content_type r) a (b - a + 1) ?n (rp_cache_control r)"]
      have "stream_reply t bs r req s =
          (case bs_write bs (reply_head t 206 (rp_content_type r) a (b - a + 1) ?n (rp_cache_control r)) s of
             (Ok x, s) \<Rightarrow> bindM (send_body bs ?src (a + (b - a + 1)) a) (\<lambda>off. returnM (off - a)) s
           | (Err e, s) \<Rightarrow> (Ok 0, s) | (Panic, s) \<Rightarrow> (Panic, s))"
        unfolding stream_reply_def Let_def Ok ab by simp
      moreover have "wire file (response_for t req r) = reply_head t 206 (rp_content_type r) a (b - a + 1) ?n (rp_cache_control r)
          @ take (b - a + 1) (drop a (content file ?src))"
        unfolding reply_head_render by (simp add: Ok ab response_for_def wire_def Let_def Suc_diff_le [OF in_body(1)])
      ultimately show ?thesis using o by simp
    qed
  next
    case Panic
    then show ?thesis using parse_range_in_body [where t = t and req = req and n = ?n] by simp
  next
    case (Err e)
    then show ?thesis using range by simp
  qed
qed

section \<open>A request\<close>

text \<open>A well-formed request: a line, header lines, and a body.\<close>

definition plain_line :: "string \<Rightarrow> bool" where
  "plain_line l \<longleftrightarrow> l \<noteq> [] \<and> list_all (\<lambda>c. is_ascii c \<and> c \<noteq> CHR 0x0D \<and> c \<noteq> CHR 0x0A) l"

definition head_text :: "string \<Rightarrow> string list \<Rightarrow> string" where
  "head_text line hs = line @ concat (map (\<lambda>h. crlf @ h) hs)"

definition http_request :: "string \<Rightarrow> string list \<Rightarrow> bytes \<Rightarrow> bytes" where
  "http_request line hs bdy = of_text (head_text line hs) @ header_end @ bdy"

lemma find_skip:
  assumes "0x0D \<notin> set xs"
  shows "find_bytes (xs @ ys) header_end = map_option (\<lambda>n. length xs + n) (find_bytes ys header_end)"
  using assms by (induction xs) (cases "find_bytes ys header_end", auto)+

lemma of_text_set:
  assumes "b \<in> set (of_text s)"
  shows "char_of (unat b) \<in> set s"
proof -
  have "char_of (unat b) \<in> set (to_text (of_text s))" using assms unfolding to_text_def by simp
  then show ?thesis by simp
qed

lemma plain_bytes:
  assumes "plain_line l"
  shows "0x0D \<notin> set (of_text l)" "0x0A \<notin> set (of_text l)"
proof -
  have "char_of (unat (0x0D :: u8)) = CHR 0x0D" "char_of (unat (0x0A :: u8)) = CHR 0x0A" by code_simp+
  then show "0x0D \<notin> set (of_text l)" "0x0A \<notin> set (of_text l)"
    using assms of_text_set [where b = "0x0D" and s = l] of_text_set [where b = "0x0A" and s = l]
    by (auto simp: plain_line_def list_all_iff)
qed

lemma find_line:
  assumes "plain_line h"
  shows "find_bytes (of_text (crlf @ h) @ ys) header_end = map_option (\<lambda>n. 2 + length h + n) (find_bytes ys header_end)"
proof -
  obtain b bs where h: "of_text h = b # bs" "b \<noteq> 0x0D"
    using assms plain_bytes [OF assms] by (cases "of_text h") (auto simp: plain_line_def of_text_def)
  have "of_text (crlf @ h) = 0x0D # 0x0A # of_text h" by (simp add: crlf_def of_text_def)
  moreover have "find_bytes (0x0D # 0x0A # of_text h @ ys) header_end
      = map_option (\<lambda>n. Suc (Suc n)) (find_bytes (of_text h @ ys) header_end)"
    by (simp add: h option.map_comp o_def)
  ultimately show ?thesis
    using find_skip [where xs = "of_text h" and ys = ys] plain_bytes [OF assms] by (simp add: option.map_comp o_def)
qed

lemma request_end:
  assumes "plain_line line" "list_all plain_line hs"
  shows "find_bytes (http_request line hs bdy) header_end = Some (length (head_text line hs))"
proof -
  have "find_bytes (of_text (concat (map (\<lambda>h. crlf @ h) hs)) @ header_end @ bdy) header_end
      = Some (length (concat (map (\<lambda>h. crlf @ h) hs)))"
    using assms(2)
  proof (induction hs)
    case (Cons h hs)
    have "of_text (concat (map (\<lambda>h. crlf @ h) (h # hs))) @ header_end @ bdy
        = of_text (crlf @ h) @ (of_text (concat (map (\<lambda>h. crlf @ h) hs)) @ header_end @ bdy)"
      by simp
    with Cons find_line [of h "of_text (concat (map (\<lambda>h. crlf @ h) hs)) @ header_end @ bdy"]
    show ?case by (simp add: crlf_def del: of_text_append)
  qed (simp add: of_text_def)
  then show ?thesis
    using find_skip [where xs = "of_text line"] plain_bytes [OF assms(1)]
    by (simp add: http_request_def head_text_def)
qed

lemma request_lines:
  assumes "plain_line line" "list_all plain_line hs"
  shows "split_crlf (head_text line hs) = line # hs"
proof -
  have cr: "CHR 0x0D \<notin> set l" if "plain_line l" for l using that by (auto simp: plain_line_def list_all_iff)
  show ?thesis
    using assms
  proof (induction hs arbitrary: line)
    case Nil
    then show ?case using cr split_crlf_single by (simp add: head_text_def)
  next
    case (Cons h hs)
    then show ?case using cr split_crlf_line [of line] by (simp add: head_text_def)
  qed
qed

lemma request_line:
  assumes "plain_line line"
  shows "first_line (http_request line hs bdy) = line"
proof -
  have "list_all is_ascii line" using assms by (auto simp: plain_line_def list_all_iff)
  then have "valid_utf8 line" by (simp add: valid_utf8_def valid_up_to_ascii)
  obtain rest where r: "http_request line hs bdy = of_text line @ 0x0D # rest"
    by (cases hs) (simp_all add: http_request_def head_text_def crlf_def of_text_def)
  have "takeWhile (\<lambda>b. b \<noteq> 0x0D \<and> b \<noteq> 0x0A) (of_text line) = of_text line"
    using plain_bytes [OF assms] by (subst takeWhile_eq_all_conv) auto
  then have "takeWhile (\<lambda>b. b \<noteq> 0x0D \<and> b \<noteq> 0x0A) (http_request line hs bdy) = of_text line"
    by (simp add: r takeWhile_tail)
  then show ?thesis using \<open>valid_utf8 line\<close> by (simp add: first_line_def)
qed

lemma request_body: "find_bytes req header_end = Some p \<Longrightarrow> http_body req = drop (p + 4) req"
proof (induction req arbitrary: p)
  case (Cons x xs)
  have len: "length header_end = 4" by simp
  show ?case
  proof (cases "take 4 (x # xs) = header_end")
    case True
    have "find_bytes (x # xs) header_end = Some 0" by (simp only: find_bytes.simps len True simp_thms if_True)
    then have "p = 0" using Cons.prems by simp
    moreover have "http_body (x # xs) = drop 4 (x # xs)" by (simp only: http_body.simps True simp_thms if_True)
    ultimately show ?thesis by (simp only: add_0)
  next
    case False
    have "find_bytes (x # xs) header_end = map_option Suc (find_bytes xs header_end)"
      by (simp only: find_bytes.simps len False if_False)
    with Cons.prems have "map_option Suc (find_bytes xs header_end) = Some p" by (simp only:)
    then obtain i where i: "find_bytes xs header_end = Some i" "p = Suc i" unfolding map_option_eq_Some by blast
    have "http_body (x # xs) = http_body xs" by (simp only: http_body.simps False if_False)
    with Cons.IH [OF i(1)] have "http_body (x # xs) = drop (i + 4) xs" by (simp only:)
    then show ?thesis unfolding i(2) add_Suc drop_Suc_Cons .
  qed
qed simp

lemma request_rest: "drop (length (head_text line hs) + 4) (http_request line hs bdy) = bdy"
  by (simp add: http_request_def)

lemma head_ascii: "plain_line line \<Longrightarrow> list_all plain_line hs \<Longrightarrow> list_all is_ascii (head_text line hs)"
  by (auto simp: head_text_def plain_line_def list_all_iff crlf_def is_ascii_def byte_def)

section \<open>The two servers\<close>

text \<open>A program the pool refuses: its source has the word \<open>fetch\<close>, and fetching is left to the tunnel.\<close>

definition refused :: "bool \<Rightarrow> string \<Rightarrow> bytes \<Rightarrow> bool" where
  "refused allow_fetch path bdy \<longleftrightarrow>
     \<not> allow_fetch \<and> path = ''/run'' \<and> (\<exists>before after. bdy = before @ of_text ''fetch'' @ after)"

definition refusal :: bytes where
  "refusal = of_text (''HTTP/1.1 200 OK'' @ crlf @ ''Content-Type: text/plain; charset=utf-8'' @ crlf
     @ ''Content-Length: '' @ show_nat (length no_fetch) @ crlf @ ''Connection: close'' @ crlf
     @ ''Access-Control-Allow-Origin: *'' @ crlf @ crlf @ no_fetch)"

lemma refused_iff:
  "refused allow_fetch path bdy \<longleftrightarrow> \<not> allow_fetch \<and> path = ''/run'' \<and> find_bytes bdy (of_text ''fetch'') \<noteq> None"
proof -
  have "(\<exists>before after. bdy = before @ of_text ''fetch'' @ after) \<longleftrightarrow> find_bytes bdy (of_text ''fetch'') \<noteq> None"
  proof
    assume "find_bytes bdy (of_text ''fetch'') \<noteq> None"
    then obtain p where "find_bytes bdy (of_text ''fetch'') = Some p" by blast
    note find_bytes_at [OF this]
    then have "bdy = take p bdy @ of_text ''fetch'' @ drop (length (of_text ''fetch'')) (drop p bdy)"
      by (metis append_take_drop_id)
    then show "\<exists>before after. bdy = before @ of_text ''fetch'' @ after" by blast
  next
    have "find_bytes (before @ nd @ after) nd \<noteq> None" for before nd after :: bytes
    proof (induction before)
      case Nil
      then show ?case by (cases nd; cases after) auto
    qed auto
    then show "\<exists>before after. bdy = before @ of_text ''fetch'' @ after \<Longrightarrow> find_bytes bdy (of_text ''fetch'') \<noteq> None"
      by blast
  qed
  then show ?thesis by (simp add: refused_def)
qed

lemma write_refusal:
  assumes "socket_laws bs avail sent"
  shows "\<exists>s'. write_full bs 200 ''text/plain; charset=utf-8'' (of_text no_fetch) s = (Ok (), s') \<and> sent s' = sent s @ refusal"
proof -
  define hd where "hd = of_text (''HTTP/1.1 '' @ ''200 OK'' @ crlf @ ''Content-Type: '' @ ''text/plain; charset=utf-8'' @ crlf
      @ ''Content-Length: '' @ show_nat (length no_fetch) @ crlf @ ''Connection: close'' @ crlf
      @ ''Access-Control-Allow-Origin: *'' @ crlf @ crlf)"
  obtain s1 where "bs_write bs hd s = (Ok (), s1)" "sent s1 = sent s @ hd" using assms by (rule socket_write)
  moreover obtain s2 where "bs_write bs (of_text no_fetch) s1 = (Ok (), s2)" "sent s2 = sent s1 @ of_text no_fetch"
    using assms by (rule socket_write)
  moreover have "hd @ of_text no_fetch = refusal" by (simp add: hd_def refusal_def flip: of_text_append)
  moreover have "write_full bs 200 ''text/plain; charset=utf-8'' (of_text no_fetch)
      = bindM (put_bytes bs hd) (\<lambda>x. put_bytes bs (of_text no_fetch))"
    by (simp add: write_full_def Let_def hd_def)
  ultimately show ?thesis by (simp only: bindM_apply put_bytes_def outcome.case prod.case) simp
qed


text \<open>A socket with its bytes in two lists, which gives as much as it is asked for.\<close>

definition toy_socket :: "(bytes \<times> bytes) byte_stream" where
  "toy_socket = \<lparr>bs_read = \<lambda>n (a, b). (Ok (take n a), (drop n a, b)), bs_write = \<lambda>d (a, b). (Ok (), (a, b @ d))\<rparr>"

lemma toy_socket_laws: "socket_laws toy_socket fst snd"
  unfolding socket_laws_def
proof (intro conjI allI impI)
  fix n :: nat and s :: "bytes \<times> bytes" assume "0 < n \<and> fst s \<noteq> []"
  then show "\<exists>k s'. 0 < k \<and> k \<le> n \<and> k \<le> length (fst s) \<and> bs_read toy_socket n s = (Ok (take k (fst s)), s')
      \<and> fst s' = drop k (fst s) \<and> snd s' = snd s"
    by (intro exI [of _ "min n (length (fst s))"]) (auto simp: toy_socket_def split_beta min_def)
qed (auto simp: toy_socket_def split_beta)


end
