(* ===== verification/Control.thy ===== *)
theory Control
  imports H2 Peers
begin

text \<open>
  \<open>src/control/mod.rs\<close> and \<open>src/keys.rs\<close>: the identity of the node in its flash store, the
  session with the control server, the requests it makes and what it reads from the answers.
  Outside the crate are the TCP dialler, \<open>serde_json\<close>, the HTTP client of ESP-IDF, the store, the
  random numbers and the curve: functions.
\<close>

section \<open>Keys\<close>

record keypair =
  kp_private :: bytes
  kp_public :: bytes

record node_keys =
  k_machine :: keypair
  k_node :: keypair
  k_disco :: keypair

definition hex_nibble :: "u8 \<Rightarrow> char" where
  "hex_nibble n = ''0123456789abcdef'' ! unat n"

definition hex_lower :: "bytes \<Rightarrow> string" where
  "hex_lower bs = concat (map (\<lambda>b. [hex_nibble (drop_bit 4 b), hex_nibble (b AND 0x0f)]) bs)"

definition public_hex :: "keypair \<Rightarrow> string" where
  "public_hex k = hex_lower (kp_public k)"

text \<open>
  The store with its namespace open: a blob that fits a buffer of 32 bytes, or none, and writing
  one; and 32 random bytes.
\<close>

record 'n nvs =
  nv_get :: "string \<Rightarrow> 'n \<Rightarrow> (bytes option, unit) outcome"
  nv_set :: "string \<Rightarrow> bytes \<Rightarrow> ('n, unit, unit) comp"
  nv_random :: "('n, bytes, unit) comp"

definition from_private :: "(bytes \<Rightarrow> bytes) \<Rightarrow> bytes \<Rightarrow> keypair" where
  "from_private derive priv = \<lparr>kp_private = priv, kp_public = derive priv\<rparr>"

definition load_or_make :: "'n nvs \<Rightarrow> (bytes \<Rightarrow> bytes) \<Rightarrow> string \<Rightarrow> ('n, keypair, unit) comp" where
  "load_or_make nv derive key = (\<lambda>n.
     let make = bindM (nv_random nv) (\<lambda>priv. bindM (nv_set nv key priv) (\<lambda>x. returnM (from_private derive priv)))
     in case nv_get nv key n of
          Err e \<Rightarrow> (Err e, n)
        | Panic \<Rightarrow> (Panic, n)
        | Ok (Some blob) \<Rightarrow> if length blob = 32 then (Ok (from_private derive blob), n) else make n
        | Ok None \<Rightarrow> make n)"

definition load_or_generate :: "'n nvs \<Rightarrow> (bytes \<Rightarrow> bytes) \<Rightarrow> ('n, node_keys, unit) comp" where
  "load_or_generate nv derive =
     bindM (load_or_make nv derive ''k_machine'') (\<lambda>m.
     bindM (load_or_make nv derive ''k_node'') (\<lambda>k.
     bindM (load_or_make nv derive ''k_disco'') (\<lambda>d.
       returnM \<lparr>k_machine = m, k_node = k, k_disco = d\<rparr>)))"

section \<open>Requests\<close>

datatype jvalue =
  JvNull | JvBool bool | JvNum int | JvStr string | JvArr "jvalue list" | JvObj "(string \<times> jvalue) list"

record jtext =
  jt_print :: "jvalue \<Rightarrow> string"
  jt_parse :: "bytes \<Rightarrow> jvalue option"

fun jv_get :: "jvalue \<Rightarrow> string \<Rightarrow> jvalue option" where
  "jv_get (JvObj kvs) k = map_of kvs k"
| "jv_get _ k = None"

fun jv_bool :: "jvalue \<Rightarrow> bool option" where
  "jv_bool (JvBool b) = Some b" | "jv_bool _ = None"

fun jv_str :: "jvalue \<Rightarrow> string option" where
  "jv_str (JvStr s) = Some s" | "jv_str _ = None"

text \<open>The constants of \<open>config.rs\<close>, a file the user writes.\<close>

record control_config =
  cc_host :: string
  cc_ts2021_port :: nat
  cc_key_ver :: nat
  cc_capability :: int
  cc_tags :: "string list"
  cc_device_name :: string
  cc_hostname :: string
  cc_os_name :: string
  cc_os_version :: string
  cc_go_arch :: string
  cc_routes :: "string list"
  cc_exit_node :: bool

definition hostinfo_value :: "control_config \<Rightarrow> jvalue" where
  "hostinfo_value cc =
     (let hi = [(''Hostname'', JvStr (cc_hostname cc)), (''OS'', JvStr (cc_os_name cc)),
            (''OSVersion'', JvStr (cc_os_version cc)), (''GoArch'', JvStr (cc_go_arch cc)),
            (''NetInfo'', JvObj [(''MappingVariesByDestIP'', JvBool False), (''HairPinning'', JvBool False),
               (''WorkingIPv4'', JvBool True), (''WorkingIPv6'', JvBool False), (''PreferredDERP'', JvNum 1),
               (''LinkType'', JvStr ''wired'')]),
            (''InheritTailscaleNetfilter'', JvBool False)];
          hi = (if cc_tags cc \<noteq> [] then hi @ [(''RequestTags'', JvArr (map JvStr (cc_tags cc)))] else hi);
          routes = cc_routes cc @ (if cc_exit_node cc then [''0.0.0.0/0'', ''::/0''] else [])
      in JvObj (if routes \<noteq> [] then hi @ [(''RoutableIPs'', JvArr (map JvStr routes))] else hi))"

definition build_hostinfo_json :: "jtext \<Rightarrow> control_config \<Rightarrow> string" where
  "build_hostinfo_json J cc = jt_print J (hostinfo_value cc)"

definition hostinfo_of :: "jtext \<Rightarrow> control_config \<Rightarrow> jvalue" where
  "hostinfo_of J cc = unwrap_or JvNull (jt_parse J (of_text (build_hostinfo_json J cc)))"

definition build_map_json ::
  "jtext \<Rightarrow> control_config \<Rightarrow> node_keys \<Rightarrow> bool \<Rightarrow> bool \<Rightarrow> bool \<Rightarrow> string list \<Rightarrow> string"
where
  "build_map_json J cc keys stream omit_peers keep_alive endpoints = jt_print J (JvObj
     [(''Version'', JvNum (cc_capability cc)), (''NodeKey'', JvStr (''nodekey:'' @ public_hex (k_node keys))),
      (''DiscoKey'', JvStr (''discokey:'' @ public_hex (k_disco keys))),
      (''Endpoints'', JvArr (map JvStr endpoints)), (''Hostinfo'', hostinfo_of J cc), (''Stream'', JvBool stream),
      (''KeepAlive'', JvBool keep_alive), (''ReadOnly'', JvBool False), (''OmitPeers'', JvBool omit_peers),
      (''Compress'', JvStr [])])"

definition build_register_json :: "jtext \<Rightarrow> control_config \<Rightarrow> node_keys \<Rightarrow> string \<Rightarrow> string" where
  "build_register_json J cc keys auth_key = jt_print J (JvObj
     ([(''Version'', JvNum (cc_capability cc)), (''NodeKey'', JvStr (''nodekey:'' @ public_hex (k_node keys))),
       (''MachineKey'', JvStr (''mkey:'' @ public_hex (k_machine keys))),
       (''DiscoKey'', JvStr (''discokey:'' @ public_hex (k_disco keys))),
       (''Hostinfo'', hostinfo_of J cc), (''Endpoints'', JvArr []), (''Capabilities'', JvArr []),
       (''DeviceName'', JvStr (cc_device_name cc)), (''Ephemeral'', JvBool False)]
      @ (if auth_key \<noteq> [] then [(''Auth'', JvObj [(''AuthKey'', JvStr auth_key)])] else [])))"

section \<open>The session\<close>

datatype control_error =
  CtlNoise noise_error | CtlDial | CtlConn conn_error | CtlRefused string | CtlFrame u8 | CtlH2 h2_error
| CtlJson | CtlKey | CtlHttp

fun lift_error :: "('e \<Rightarrow> 'f) \<Rightarrow> ('a, 'e) outcome \<Rightarrow> ('a, 'f) outcome" where
  "lift_error f (Ok v) = Ok v" | "lift_error f (Err e) = Err (f e)" | "lift_error f Panic = Panic"

definition handshake ::
  "'h snow \<Rightarrow> 's byte_stream \<Rightarrow> (string \<Rightarrow> nat \<Rightarrow> 's option) \<Rightarrow> control_config \<Rightarrow> bytes \<Rightarrow> bytes
     \<Rightarrow> ('s ctl_conn \<times> transport, control_error) outcome"
where
  "handshake sn bs dial cc machine_priv control_pub =
     bindR (lift_error CtlNoise (noise_start sn machine_priv control_pub)) (\<lambda>(hs, framed_init).
     bindR (ok_or (dial (cc_host cc) (cc_ts2021_port cc)) CtlDial) (\<lambda>stream.
     case connect_and_upgrade bs (cc_host cc) (base64_std framed_init) stream of (up, conn) \<Rightarrow>
     bindR (lift_error CtlConn up) (\<lambda>x.
     case conn_read_frame bs conn of (fr, conn) \<Rightarrow>
     bindR (lift_error CtlConn fr) (\<lambda>(typ, payload).
     if typ = NOISE_RESPONSE then
       bindR (lift_error CtlNoise (noise_complete sn payload hs)) (\<lambda>tr. Ok (conn, tr))
     else if typ = MSG_ERROR then Err (CtlRefused (from_utf8_lossy (to_text payload)))
     else Err (CtlFrame typ)))))"

text \<open>\<open>None\<close> is a session whose server never lets it go on.\<close>

definition ctl_connect ::
  "'h snow \<Rightarrow> 's byte_stream \<Rightarrow> aead \<Rightarrow> (string \<Rightarrow> nat \<Rightarrow> 's option) \<Rightarrow> control_config \<Rightarrow> bytes \<Rightarrow> bytes
     \<Rightarrow> ('s h2, control_error) outcome option"
where
  "ctl_connect sn bs ae dial cc machine_priv control_pub =
     (case handshake sn bs dial cc machine_priv control_pub of
        Err e \<Rightarrow> Some (Err e)
      | Panic \<Rightarrow> Some Panic
      | Ok (conn, tr) \<Rightarrow>
          map_option (\<lambda>(r, h). bindR (lift_error CtlH2 r) (\<lambda>early. Ok h)) (h2_start bs ae conn tr (cc_host cc)))"

record register_result =
  rr_status :: nat
  rr_authorized :: bool
  rr_auth_url :: "string option"
  rr_raw :: string

definition register_of :: "jtext \<Rightarrow> nat \<Rightarrow> bytes \<Rightarrow> register_result" where
  "register_of J status resp =
     (let v = unwrap_or JvNull (jt_parse J resp) in
      \<lparr>rr_status = status, rr_authorized = unwrap_or False (Option.bind (jv_get v ''MachineAuthorized'') jv_bool),
       rr_auth_url = Option.bind (Option.bind (jv_get v ''AuthURL'') jv_str) (\<lambda>s. if s = [] then None else Some s),
       rr_raw = from_utf8_lossy (to_text resp)\<rparr>)"

definition register ::
  "'s byte_stream \<Rightarrow> aead \<Rightarrow> jtext \<Rightarrow> control_config \<Rightarrow> node_keys \<Rightarrow> string \<Rightarrow> 's h2
     \<Rightarrow> ((register_result, control_error) outcome \<times> 's h2) option"
where
  "register bs ae J cc keys auth_key h =
     map_option (\<lambda>(r, h). (bindR (lift_error CtlH2 r) (\<lambda>(status, resp). Ok (register_of J status resp)), h))
       (post_json bs ae ''/machine/register'' (of_text (build_register_json J cc keys auth_key)) h)"

definition connect_and_register ::
  "'h snow \<Rightarrow> 's byte_stream \<Rightarrow> aead \<Rightarrow> (string \<Rightarrow> nat \<Rightarrow> 's option) \<Rightarrow> jtext \<Rightarrow> control_config \<Rightarrow> bytes \<Rightarrow> bytes
     \<Rightarrow> node_keys \<Rightarrow> string \<Rightarrow> (register_result, control_error) outcome option"
where
  "connect_and_register sn bs ae dial J cc machine_priv control_pub keys auth_key =
     Option.bind (ctl_connect sn bs ae dial cc machine_priv control_pub) (\<lambda>r.
     case r of
       Ok h \<Rightarrow> map_option fst (register bs ae J cc keys auth_key h)
     | Err e \<Rightarrow> Some (Err e) | Panic \<Rightarrow> Some Panic)"

section \<open>The address\<close>

text \<open>The first \<open>"100.\<close> of some JSON, up to its slash or its closing quote.\<close>

definition scan_tailscale_ip :: "bytes \<Rightarrow> string option" where
  "scan_tailscale_ip raw =
     Option.bind (find_bytes raw (of_text (CHR 0x22 # ''100.''))) (\<lambda>pos.
       let s = to_text (takeWhile (\<lambda>b. b \<noteq> 0x2F \<and> b \<noteq> 0x22) (drop (pos + 1) raw)) in
       if valid_utf8 s \<and> list_all (\<lambda>c. is_digit c \<or> c = CHR ''.'') s \<and> 7 \<le> length s then Some s else None)"

record map_result =
  ma_status :: nat
  ma_ip :: "string option"
  ma_len :: nat

definition fetch_map ::
  "'s byte_stream \<Rightarrow> aead \<Rightarrow> jtext \<Rightarrow> control_config \<Rightarrow> node_keys \<Rightarrow> 's h2
     \<Rightarrow> ((map_result, control_error) outcome \<times> 's h2) option"
where
  "fetch_map bs ae J cc keys h =
     map_option (\<lambda>(r, h). (bindR (lift_error CtlH2 r) (\<lambda>(status, resp).
         Ok \<lparr>ma_status = status, ma_ip = scan_tailscale_ip resp, ma_len = length resp\<rparr>), h))
       (post_json bs ae ''/machine/map'' (of_text (build_map_json J cc keys False False False [])) h)"

section \<open>The streamed map\<close>

record 's body_reader =
  br_sess :: "'s h2"
  br_sid :: u32
  br_buf :: bytes
  br_pos :: nat
  br_eof :: bool
  br_stripped :: bool
  br_ip :: "string option"

definition reader_new :: "'s h2 \<Rightarrow> u32 \<Rightarrow> 's body_reader" where
  "reader_new h sid = \<lparr>br_sess = h, br_sid = sid, br_buf = [], br_pos = 0, br_eof = False, br_stripped = False, br_ip = None\<rparr>"

definition on_chunk :: "bytes \<Rightarrow> bool \<Rightarrow> 's body_reader \<Rightarrow> 's body_reader" where
  "on_chunk chunk fin r =
     r\<lparr>br_eof := fin, br_ip := (case br_ip r of None \<Rightarrow> scan_tailscale_ip chunk | Some ip \<Rightarrow> Some ip), br_buf := chunk,
       br_pos := (if \<not> br_stripped r \<and> length chunk \<ge> 5 \<and> chunk ! 0 \<noteq> 0x7B \<and> chunk ! 4 = 0x7B then 4 else 0),
       br_stripped := True\<rparr>"

text \<open>Pulling chunks until there is a byte to give or the stream has ended.\<close>

partial_function (option) reader_fill ::
  "'s byte_stream \<Rightarrow> aead \<Rightarrow> 's body_reader \<Rightarrow> ((unit, h2_error) outcome \<times> 's body_reader) option"
where
  "reader_fill bs ae r =
     (if br_pos r < length (br_buf r) \<or> br_eof r then Some (Ok (), r)
      else Option.bind (read_response_chunk bs ae (br_sid r) (br_sess r)) (\<lambda>(res, h).
        case res of
          Ok (Some chunk, fin) \<Rightarrow> reader_fill bs ae (on_chunk chunk fin (r\<lparr>br_sess := h\<rparr>))
        | Ok (None, fin) \<Rightarrow> reader_fill bs ae (r\<lparr>br_sess := h, br_eof := fin\<rparr>)
        | Err e \<Rightarrow> Some (Err e, r\<lparr>br_sess := h\<rparr>)
        | Panic \<Rightarrow> Some (Panic, r\<lparr>br_sess := h\<rparr>)))"

definition body_read ::
  "'s byte_stream \<Rightarrow> aead \<Rightarrow> nat \<Rightarrow> 's body_reader \<Rightarrow> ((bytes, h2_error) outcome \<times> 's body_reader) option"
where
  "body_read bs ae room r =
     map_option (\<lambda>(res, r). case res of
         Ok x \<Rightarrow>
           (let n = min room (length (br_buf r) - br_pos r) in
            if length (br_buf r) \<le> br_pos r then (Ok [], r)
            else (Ok (cut (br_pos r) (br_pos r + n) (br_buf r)), r\<lparr>br_pos := br_pos r + n\<rparr>))
       | Err e \<Rightarrow> (Err e, r)
       | Panic \<Rightarrow> (Panic, r)) (reader_fill bs ae r)"

record map_stream =
  ms_peers :: "peer_t list option"
  ms_filter :: "filter_rule list option"

text \<open>The peers and the sources of a streamed map, once the deserializer has read it.\<close>

definition map_peers :: "map_stream \<Rightarrow> peer_info list" where
  "map_peers m = List.map_filter peer_info_of (unwrap_or [] (ms_peers m))"

definition map_allowed :: "string option \<Rightarrow> map_stream \<Rightarrow> cidr list option" where
  "map_allowed ip m =
     Option.bind ip (\<lambda>our.
     Option.bind (ms_filter m) (\<lambda>rules.
     Option.bind (parse_cidr (our @ ''/32'')) (\<lambda>ours. Some (filter_srcs (fst ours) rules))))"

text \<open>
  \<open>serde_json::from_reader\<close> is a parameter: what it makes of a way to read, and the reader after.
\<close>

type_synonym 'r from_reader =
  "(nat \<Rightarrow> 'r \<Rightarrow> ((bytes, h2_error) outcome \<times> 'r) option) \<Rightarrow> 'r \<Rightarrow> (map_stream option \<times> 'r) option"

definition read_map ::
  "'s byte_stream \<Rightarrow> aead \<Rightarrow> 's body_reader from_reader \<Rightarrow> 's h2 \<Rightarrow> u32
     \<Rightarrow> (string option \<times> peer_info list \<times> cidr list option, control_error) outcome option"
where
  "read_map bs ae from_reader h sid =
     map_option (\<lambda>(m, r). bindR (ok_or m CtlJson) (\<lambda>m.
         Ok (br_ip r, map_peers m, map_allowed (br_ip r) m)))
       (from_reader (body_read bs ae) (reader_new h sid))"

definition fetch_peers ::
  "'h snow \<Rightarrow> 's byte_stream \<Rightarrow> aead \<Rightarrow> (string \<Rightarrow> nat \<Rightarrow> 's option) \<Rightarrow> jtext \<Rightarrow> 's body_reader from_reader
     \<Rightarrow> control_config \<Rightarrow> bytes \<Rightarrow> bytes \<Rightarrow> node_keys \<Rightarrow> string list
     \<Rightarrow> (string option \<times> peer_info list \<times> cidr list option, control_error) outcome option"
where
  "fetch_peers sn bs ae dial J from_reader cc machine_priv control_pub keys endpoints =
     Option.bind (ctl_connect sn bs ae dial cc machine_priv control_pub) (\<lambda>r.
     case r of
       Err e \<Rightarrow> Some (Err e) | Panic \<Rightarrow> Some Panic
     | Ok h \<Rightarrow>
        (case post_stream bs ae ''/machine/map'' (of_text (build_map_json J cc keys False False False endpoints)) h of
           (Err e, h) \<Rightarrow> Some (Err (CtlH2 e)) | (Panic, h) \<Rightarrow> Some Panic
         | (Ok sid, h) \<Rightarrow> read_map bs ae from_reader h sid))"

section \<open>Endpoints and the long poll\<close>

definition update_endpoints ::
  "'h snow \<Rightarrow> 's byte_stream \<Rightarrow> aead \<Rightarrow> (string \<Rightarrow> nat \<Rightarrow> 's option) \<Rightarrow> jtext \<Rightarrow> control_config \<Rightarrow> bytes \<Rightarrow> bytes
     \<Rightarrow> node_keys \<Rightarrow> string list \<Rightarrow> (nat, control_error) outcome option"
where
  "update_endpoints sn bs ae dial J cc machine_priv control_pub keys endpoints =
     Option.bind (ctl_connect sn bs ae dial cc machine_priv control_pub) (\<lambda>r.
     case r of
       Err e \<Rightarrow> Some (Err e) | Panic \<Rightarrow> Some Panic
     | Ok h \<Rightarrow> map_option (\<lambda>(r, h). bindR (lift_error CtlH2 r) (\<lambda>(status, resp). Ok status))
         (post_json bs ae ''/machine/map'' (of_text (build_map_json J cc keys False True False endpoints)) h))"

text \<open>Up to \<open>n\<close> chunks, until one has the address.\<close>

fun scan_chunks ::
  "'s byte_stream \<Rightarrow> aead \<Rightarrow> u32 \<Rightarrow> nat \<Rightarrow> 's h2 \<Rightarrow> ((string option, h2_error) outcome \<times> 's h2) option"
where
  "scan_chunks bs ae sid 0 = totalP (returnM None)"
| "scan_chunks bs ae sid (Suc n) = bindP (read_data bs ae sid) (\<lambda>chunk.
     case scan_tailscale_ip chunk of Some ip \<Rightarrow> totalP (returnM (Some ip)) | None \<Rightarrow> scan_chunks bs ae sid n)"

definition stream_map ::
  "'h snow \<Rightarrow> 's byte_stream \<Rightarrow> aead \<Rightarrow> (string \<Rightarrow> nat \<Rightarrow> 's option) \<Rightarrow> jtext \<Rightarrow> control_config \<Rightarrow> bytes \<Rightarrow> bytes
     \<Rightarrow> node_keys \<Rightarrow> string list \<Rightarrow> ('s h2 \<times> u32 \<times> string option, control_error) outcome option"
where
  "stream_map sn bs ae dial J cc machine_priv control_pub keys endpoints =
     Option.bind (ctl_connect sn bs ae dial cc machine_priv control_pub) (\<lambda>r.
     case r of
       Err e \<Rightarrow> Some (Err e) | Panic \<Rightarrow> Some Panic
     | Ok h \<Rightarrow>
        (case post_stream bs ae ''/machine/map'' (of_text (build_map_json J cc keys True True True endpoints)) h of
           (Err e, h) \<Rightarrow> Some (Err (CtlH2 e)) | (Panic, h) \<Rightarrow> Some Panic
         | (Ok sid, h) \<Rightarrow>
             map_option (\<lambda>(r, h). bindR (lift_error CtlH2 r) (\<lambda>ip. Ok (h, sid, ip))) (scan_chunks bs ae sid 4 h)))"

section \<open>The key of the server\<close>

definition hex_decode_32 :: "string \<Rightarrow> bytes option" where
  "hex_decode_32 s = (let s = trim s in if length s \<noteq> 64 then None else hex_bytes s)"

text \<open>The HTTP client: a response to a URL, read in pieces; a failed read is an empty one.\<close>

record 'c http_client =
  hc_open :: "string \<Rightarrow> 'c option"
  hc_read :: "nat \<Rightarrow> 'c \<Rightarrow> bytes \<times> 'c"

function http_get_loop :: "'c http_client \<Rightarrow> bytes \<Rightarrow> 'c \<Rightarrow> (bytes, control_error) outcome" where
  "http_get_loop hc out c =
     (case hc_read hc 512 c of (got, c) \<Rightarrow>
        if got = [] then Ok out else if length got > 512 then Panic
        else let out = out @ got in if length out \<ge> 8192 then Ok out else http_get_loop hc out c)"
  by pat_completeness auto
termination
  by (relation "measure (\<lambda>(hc, out, c). 8192 - length out)") (auto intro!: diff_less_mono2)

declare http_get_loop.simps [simp del]

definition fetch_control_key :: "'c http_client \<Rightarrow> jtext \<Rightarrow> control_config \<Rightarrow> (bytes, control_error) outcome" where
  "fetch_control_key hc J cc =
     bindR (ok_or (hc_open hc (''https://'' @ cc_host cc @ ''/key?v='' @ show_nat (cc_key_ver cc))) CtlHttp) (\<lambda>c.
     bindR (http_get_loop hc [] c) (\<lambda>bdy.
     bindR (ok_or (jt_parse J bdy) CtlJson) (\<lambda>v.
     bindR (ok_or (Option.bind (jv_get v ''publicKey'') jv_str) CtlKey) (\<lambda>pk.
     ok_or (hex_decode_32 (case strip_prefix ''mkey:'' pk of Some h \<Rightarrow> h | None \<Rightarrow> pk)) CtlKey))))"

end
