(* ===== verification/ControlProps.thy ===== *)
theory ControlProps
  imports Control H2Props
begin

text \<open>
  What the control client reads from a streamed map, and what the node keeps and shows of its
  keys: reading the map frame by frame gives what reading it whole would give; a written key is
  read back the same; the keys of a node stay the same from start to start.
\<close>

section \<open>The chunks of a response\<close>

text \<open>The bodies of the data frames of a stream up to its end, or \<open>None\<close> if it is cut.\<close>

fun chunks_of :: "u32 \<Rightarrow> h2_frame list \<Rightarrow> bytes list option" where
  "chunks_of sid [] = None"
| "chunks_of sid (fr # frs) = (case chunk_reading sid fr () of
     None \<Rightarrow> None
   | Some (Inl x) \<Rightarrow> chunks_of sid frs
   | Some (Inr (Some c, fin)) \<Rightarrow> if fin then Some [c] else map_option ((#) c) (chunks_of sid frs)
   | Some (Inr (None, fin)) \<Rightarrow> if fin then Some [] else chunks_of sid frs)"

lemma chunk_reading_some:
  "chunk_reading sid fr () = Some (Inr (Some c, fin)) \<Longrightarrow> c \<noteq> []"
  "chunk_reading sid fr () = Some (Inr (None, fin)) \<Longrightarrow> fin"
  by (auto simp: chunk_reading_def Let_def split: if_splits)

fun chunk_leaves :: "u32 \<Rightarrow> bytes list \<Rightarrow> bytes option \<times> bool \<Rightarrow> h2_frame list \<Rightarrow> bool" where
  "chunk_leaves sid cs (None, fin) left \<longleftrightarrow> fin \<and> cs = []"
| "chunk_leaves sid cs (Some c, fin) left \<longleftrightarrow>
     c \<noteq> [] \<and> (\<exists>cs'. cs = c # cs' \<and> (if fin then cs' = [] else chunks_of sid left = Some cs'))"

lemma chunks_read:
  "chunks_of sid frs = Some cs \<Longrightarrow> list_all frame_wf frs \<Longrightarrow>
   \<exists>v left. read_all (chunk_reading sid) frs () = Some (v, left) \<and> list_all frame_wf left \<and> chunk_leaves sid cs v left"
proof (induction frs)
  case (Cons fr frs)
  obtain r where r: "chunk_reading sid fr () = Some r" using Cons.prems(1) by (cases "chunk_reading sid fr ()") simp_all
  show ?case
  proof (cases r)
    case (Inl x)
    with Cons r show ?thesis by simp
  next
    case (Inr v)
    obtain c fin where v: "v = (c, fin)" by (cases v)
    show ?thesis
    proof (cases c)
      case None
      with chunk_reading_some(2) [of sid fr fin] r Inr v Cons.prems show ?thesis by simp
    next
      case (Some d)
      with chunk_reading_some(1) [of sid fr d fin] r Inr v Cons.prems show ?thesis by (auto split: if_splits)
    qed
  qed
qed simp

lemma read_chunk:
  assumes laws: "stream_laws bs avail" and r: "ready avail ae ns h (concat (map frame_wire frs) @ rest)"
    and c: "chunks_of sid frs = Some cs" and wf: "list_all frame_wf frs"
  obtains h' v left where "read_response_chunk bs ae sid h = Some (Ok v, h')"
    "ready avail ae ns h' (concat (map frame_wire left) @ rest)" "list_all frame_wf left" "chunk_leaves sid cs v left"
proof -
  from chunks_read [OF c wf] obtain v left where
    v: "read_all (chunk_reading sid) frs () = Some (v, left)" "list_all frame_wf left" "chunk_leaves sid cs v left" by blast
  from chunk.loop_reads [OF laws r wf v(1)] obtain h' where
    "read_response_chunk bs ae sid h = Some (Ok v, h')" "ready avail ae ns h' (concat (map frame_wire left) @ rest)"
    by (auto simp: read_response_chunk_def)
  then show thesis using that v(2,3) by blast
qed

section \<open>The reader\<close>

definition first_ip :: "string option \<Rightarrow> bytes list \<Rightarrow> string option" where
  "first_ip ip cs = fold (\<lambda>c ip. case ip of None \<Rightarrow> scan_tailscale_ip c | Some s \<Rightarrow> Some s) cs ip"

fun map_body :: "bool \<Rightarrow> bytes list \<Rightarrow> bytes" where
  "map_body stripped [] = []"
| "map_body stripped (c # cs) = (if stripped then c else strip_wire_prefix c) @ concat cs"

lemma map_body_stripped [simp]: "map_body True cs = concat cs"
  by (cases cs) simp_all

text \<open>A reader that still has the bytes \<open>R\<close> to give and will have seen the address \<open>ip\<close>.\<close>

definition gives ::
  "('s \<Rightarrow> bytes) \<Rightarrow> aead \<Rightarrow> u32 \<Rightarrow> u32 \<Rightarrow> bytes \<Rightarrow> string option \<Rightarrow> 's body_reader \<Rightarrow> bytes \<Rightarrow> bool"
where
  "gives avail ae ns sid rest ip r R \<longleftrightarrow>
     (if br_eof r then R = drop (br_pos r) (br_buf r) \<and> ip = br_ip r
      else br_sid r = sid \<and> (\<exists>frs cs. ready avail ae ns (br_sess r) (concat (map frame_wire frs) @ rest)
        \<and> list_all frame_wf frs \<and> chunks_of sid frs = Some cs
        \<and> R = drop (br_pos r) (br_buf r) @ map_body (br_stripped r) cs \<and> ip = first_ip (br_ip r) cs))"

lemma drop_on_chunk:
  "drop (br_pos (on_chunk c fin r)) c = (if br_stripped r then c else strip_wire_prefix c)"
  by (simp add: on_chunk_def strip_wire_prefix_def)

lemma fill_gives:
  assumes laws: "stream_laws bs avail"
  shows "gives avail ae ns sid rest ip r R \<Longrightarrow>
    \<exists>r'. reader_fill bs ae r = Some (Ok (), r') \<and> gives avail ae ns sid rest ip r' R
       \<and> (br_pos r' < length (br_buf r') \<or> br_eof r')"
proof (cases "br_pos r < length (br_buf r) \<or> br_eof r")
  case True
  then show "gives avail ae ns sid rest ip r R \<Longrightarrow> ?thesis" by (subst reader_fill.simps) simp
next
  case False
  assume g: "gives avail ae ns sid rest ip r R"
  with False obtain frs cs where f: "br_sid r = sid" "ready avail ae ns (br_sess r) (concat (map frame_wire frs) @ rest)"
    "list_all frame_wf frs" "chunks_of sid frs = Some cs" "R = map_body (br_stripped r) cs" "ip = first_ip (br_ip r) cs"
    by (auto simp: gives_def)
  obtain h' v left where v: "read_response_chunk bs ae sid (br_sess r) = Some (Ok v, h')"
    "ready avail ae ns h' (concat (map frame_wire left) @ rest)" "list_all frame_wf left" "chunk_leaves sid cs v left"
    by (rule read_chunk [OF laws f(2,4,3)])
  obtain c fin where cf: "v = (c, fin)" by (cases v)
  show ?thesis
  proof (cases c)
    case None
    define r' where "r' = r\<lparr>br_sess := h', br_eof := True\<rparr>"
    have "reader_fill bs ae r = Some (Ok (), r')"
      using False v(1,4) cf None f(1) by (subst reader_fill.simps, simp, subst reader_fill.simps) (simp add: r'_def)
    moreover have "gives avail ae ns sid rest ip r' R"
      using v(4) cf None f(5,6) False by (simp add: gives_def r'_def first_ip_def)
    ultimately show ?thesis by (auto simp: r'_def)
  next
    case (Some d)
    define r' where "r' = on_chunk d fin (r\<lparr>br_sess := h'\<rparr>)"
    obtain cs' where d: "d \<noteq> []" "cs = d # cs'" "if fin then cs' = [] else chunks_of sid left = Some cs'"
      using v(4) cf Some by auto
    have pos: "br_pos r' < length (br_buf r')" using d(1) by (simp add: r'_def on_chunk_def)
    have "reader_fill bs ae r = Some (Ok (), r')"
      using False v(1) cf Some f(1) pos by (subst reader_fill.simps, simp, subst reader_fill.simps) (simp add: r'_def)
    moreover have "gives avail ae ns sid rest ip r' R"
    proof -
      have R: "drop (br_pos r') (br_buf r') = (if br_stripped r then d else strip_wire_prefix d)"
        using drop_on_chunk [of d fin "r\<lparr>br_sess := h'\<rparr>"] by (simp add: r'_def on_chunk_def)
      have o: "br_sid r' = sid" "br_eof r' = fin" "br_stripped r'" "br_sess r' = h'" "first_ip (br_ip r') cs' = ip"
        using f(1,6) d(2) by (simp_all add: r'_def on_chunk_def first_ip_def)
      show ?thesis unfolding gives_def R using o d(2,3) f(5) v(2,3)
        by (auto simp: first_ip_def)
    qed
    ultimately show ?thesis using pos by blast
  qed
qed

text \<open>One read gives the next bytes, and nothing only at the end.\<close>

lemma read_gives:
  assumes "stream_laws bs avail" "gives avail ae ns sid rest ip r R" "0 < room"
  shows "\<exists>out R' r'. body_read bs ae room r = Some (Ok out, r') \<and> gives avail ae ns sid rest ip r' R'
    \<and> R = out @ R' \<and> length out \<le> room \<and> (out = [] \<longleftrightarrow> R = [])"
proof -
  from fill_gives [OF assms(1,2)] obtain r' where f: "reader_fill bs ae r = Some (Ok (), r')"
    and g: "gives avail ae ns sid rest ip r' R" and p: "br_pos r' < length (br_buf r') \<or> br_eof r'" by blast
  show ?thesis
  proof (cases "br_pos r' < length (br_buf r')")
    case False
    with f g p show ?thesis by (auto simp: body_read_def gives_def Let_def)
  next
    case True
    define n where "n = min room (length (br_buf r') - br_pos r')"
    define out where "out = cut (br_pos r') (br_pos r' + n) (br_buf r')"
    have d: "drop (br_pos r') (br_buf r') = out @ drop (br_pos r' + n) (br_buf r')" "length out = n" "0 < n"
      using True assms(3) append_take_drop_id [of n "drop (br_pos r') (br_buf r')"]
      by (auto simp: out_def cut_def n_def drop_take add.commute)
    have o: "out \<noteq> []" "R \<noteq> []" using d g by (auto simp: gives_def split: if_splits)
    have "body_read bs ae room r = Some (Ok out, r'\<lparr>br_pos := br_pos r' + n\<rparr>)"
      using f True by (simp add: body_read_def out_def n_def Let_def)
    moreover have "\<exists>R'. gives avail ae ns sid rest ip (r'\<lparr>br_pos := br_pos r' + n\<rparr>) R' \<and> R = out @ R'"
      using g d(1) by (auto simp: gives_def split: if_splits)
    ultimately show ?thesis using o d(2) by (auto simp: n_def)
  qed
qed

section \<open>The map\<close>

text \<open>
  What a deserializer over a reader does: for a reader that gives the bytes \<open>R\<close>, in pieces of
  its own choice and nothing only at the end, it is the deserializer of \<open>R\<close>, and one that
  succeeds has read to the end.
\<close>

definition reader_law :: "'r from_reader \<Rightarrow> (bytes \<Rightarrow> map_stream option) \<Rightarrow> bool" where
  "reader_law from_reader parse \<longleftrightarrow> (\<forall>read P r R.
     (\<forall>r R room. 0 < room \<longrightarrow> P r R \<longrightarrow> (\<exists>out R' r'. read room r = Some (Ok out, r') \<and> P r' R'
        \<and> R = out @ R' \<and> length out \<le> room \<and> (out = [] \<longleftrightarrow> R = []))) \<longrightarrow>
     P r R \<longrightarrow> (\<exists>r'. from_reader read r = Some (parse R, r') \<and> (parse R \<noteq> None \<longrightarrow> P r' [])))"

lemma reader_lawD:
  assumes "reader_law from_reader parse" "P r R"
    and "\<And>r R room. 0 < room \<Longrightarrow> P r R \<Longrightarrow> \<exists>out R' r'. read room r = Some (Ok out, r') \<and> P r' R'
      \<and> R = out @ R' \<and> length out \<le> room \<and> (out = [] \<longleftrightarrow> R = [])"
  obtains r' where "from_reader read r = Some (parse R, r')" "parse R \<noteq> None \<Longrightarrow> P r' []"
proof -
  have "\<exists>r'. from_reader read r = Some (parse R, r') \<and> (parse R \<noteq> None \<longrightarrow> P r' [])"
    using assms(2,3)
    by (intro assms(1) [unfolded reader_law_def, THEN spec [of _ read], THEN spec [of _ P], THEN spec [of _ r],
          THEN spec [of _ R], THEN mp, THEN mp]) simp_all
  with that show thesis by blast
qed

lemma chunks_nonempty: "chunks_of sid frs = Some cs \<Longrightarrow> c \<in> set cs \<Longrightarrow> c \<noteq> []"
proof (induction frs arbitrary: cs)
  case (Cons fr frs)
  then obtain r where r: "chunk_reading sid fr () = Some r" by (cases "chunk_reading sid fr ()") simp_all
  show ?case
  proof (cases r)
    case (Inl x)
    with Cons r show ?thesis by simp
  next
    case (Inr v)
    obtain d fin where "v = (d, fin)" by (cases v)
    with Cons r Inr chunk_reading_some [of sid fr] show ?thesis by (cases d) (auto split: if_splits)
  qed
qed simp

lemma gives_end: "gives avail ae ns sid rest ip r [] \<Longrightarrow> br_ip r = ip"
proof (cases "br_eof r")
  case False
  assume "gives avail ae ns sid rest ip r []"
  with False obtain frs cs where c: "chunks_of sid frs = Some cs" "map_body (br_stripped r) cs = []" "ip = first_ip (br_ip r) cs"
    by (auto simp: gives_def)
  with chunks_nonempty [OF c(1)] have "cs = []" by (cases cs) (auto simp: strip_wire_prefix_def split: if_splits)
  with c(3) show ?thesis by (simp add: first_ip_def)
qed (simp add: gives_def)

lemma read_map_reads:
  assumes laws: "stream_laws bs avail" and law: "reader_law from_reader parse"
    and r: "ready avail ae ns h (concat (map frame_wire frs) @ rest)" "list_all frame_wf frs" "chunks_of sid frs = Some cs"
  shows "read_map bs ae from_reader h sid = Some (bindR (ok_or (parse (map_body False cs)) CtlJson) (\<lambda>m.
    Ok (first_ip None cs, map_peers m, map_allowed (first_ip None cs) m)))"
proof -
  have "gives avail ae ns sid rest (first_ip None cs) (reader_new h sid) (map_body False cs)"
    using r by (auto simp: gives_def reader_new_def)
  from reader_lawD [OF law, of "gives avail ae ns sid rest (first_ip None cs)", OF this]
  obtain r' where r': "from_reader (body_read bs ae) (reader_new h sid) = Some (parse (map_body False cs), r')"
    "parse (map_body False cs) \<noteq> None \<Longrightarrow> gives avail ae ns sid rest (first_ip None cs) r' []"
    using read_gives [OF laws, of ae ns sid rest "first_ip None cs"] by blast
  with gives_end [of avail ae ns sid rest "first_ip None cs" r'] show ?thesis
    by (cases "parse (map_body False cs)") (simp_all add: read_map_def)
qed

text \<open>The chunks of a response, whatever frames stand between its own.\<close>

lemma chunks_of_aside: "chunks_of sid (filter (\<lambda>fr. \<not> aside sid fr) frs) = chunks_of sid frs"
proof (induction frs)
  case (Cons fr frs)
  show ?case
  proof (cases "aside sid fr")
    case True
    then have "chunk_reading sid fr () = Some (Inl ())" by (auto simp: aside_def chunk_reading_def Let_def)
    with Cons True show ?thesis by simp
  next
    case False
    then have "chunks_of sid (filter (\<lambda>fr. \<not> aside sid fr) (fr # frs)) =
        chunks_of sid (fr # filter (\<lambda>fr. \<not> aside sid fr) frs)" by (simp del: chunks_of.simps)
    then show ?thesis unfolding chunks_of.simps Cons by simp
  qed
qed simp

lemma chunks_of_response:
  "chunks_of sid (response_frames sid block pieces final) = Some (filter (\<lambda>p. p \<noteq> []) (pieces @ [final]))"
proof -
  have "FL_END_HEADERS AND FL_END_STREAM = 0" by (simp add: FL_END_STREAM_def FL_END_HEADERS_def)
  moreover have "chunks_of sid (map (data_frame sid 0) pieces @ [data_frame sid FL_END_STREAM final])
      = Some (filter (\<lambda>p. p \<noteq> []) (pieces @ [final]))"
    by (induction pieces) (simp_all add: chunk_reading_def data_frame_def frame_types FL_END_STREAM_def)
  ultimately show ?thesis by (simp add: response_frames_def chunk_reading_def frame_types)
qed

lemma first_ip_skip: "first_ip ip (filter (\<lambda>p. p \<noteq> []) cs) = first_ip ip cs"
proof -
  have "find_bytes [] (of_text (CHR 0x22 # ''100.'')) = None" by code_simp
  then show ?thesis
    by (induction cs arbitrary: ip) (auto simp: first_ip_def scan_tailscale_ip_def split: option.split)
qed

lemma map_body_whole:
  assumes "5 \<le> length c"
  shows "map_body False (filter (\<lambda>p. p \<noteq> []) (c # cs)) = strip_wire_prefix (c @ concat cs)"
proof -
  have "concat (filter (\<lambda>p. p \<noteq> []) cs) = concat cs" by (induction cs) auto
  moreover have "c \<noteq> []" using assms by auto
  ultimately show ?thesis using assms by (simp add: strip_wire_prefix_def nth_append)
qed

definition peers_struct :: "map_stream \<Rightarrow> map_resp" where
  "peers_struct m = \<lparr>mr_peers = ms_peers m\<rparr>"

definition filter_struct :: "map_stream \<Rightarrow> filter_resp" where
  "filter_struct m = \<lparr>packet_filter = ms_filter m\<rparr>"

text \<open>What the frames give, with the address that is found frame by frame.\<close>

lemma streamed_map_first_ip:
  assumes laws: "stream_laws bs avail" and law: "reader_law from_reader parse"
    and r: "ready avail ae ns h (concat (map frame_wire frs) @ rest)" "list_all frame_wf frs"
      "filter (\<lambda>fr. \<not> aside ns fr) frs = response_frames ns block pieces final"
    and first: "pieces @ [final] = c # cs" "5 \<le> length c"
  shows "\<exists>h1 h2 raw status. raw = strip_wire_prefix (c @ concat cs) \<and> post_stream bs ae path body h = (Ok ns, h1)
    \<and> post_json bs ae path body h = Some (Ok (status, raw), h2)
    \<and> read_map bs ae from_reader h1 ns = Some (case parse_peers (\<lambda>raw. map_option peers_struct (parse raw)) raw of
        Ok peers \<Rightarrow> Ok (first_ip None (c # cs), peers, Option.bind (first_ip None (c # cs))
          (parse_allowed_srcs (\<lambda>raw. map_option filter_struct (parse raw)) raw))
      | _ \<Rightarrow> Err CtlJson)"
proof -
  define raw where "raw = strip_wire_prefix (concat pieces @ final)"
  have raw: "raw = strip_wire_prefix (c @ concat cs)" using arg_cong [OF first(1), of concat] by (simp add: raw_def)
  obtain h1 where h1: "post_stream bs ae path body h = (Ok ns, h1)"
    "ready avail ae (ns + 2) h1 (concat (map frame_wire frs) @ rest)"
    using post_stream_ready [OF laws r(1)] .
  from post_json_answered [OF laws r, of path body, folded raw_def] obtain h2 status where
    h2: "post_json bs ae path body h = Some (Ok (status, raw), h2)" by blast
  have "chunks_of ns frs = Some (filter (\<lambda>p. p \<noteq> []) (c # cs))"
    using chunks_of_aside [of ns frs] r(3) first(1) chunks_of_response by simp
  from read_map_reads [OF laws law h1(2) r(2) this]
  have "read_map bs ae from_reader h1 ns = Some (bindR (ok_or (parse raw) CtlJson) (\<lambda>m.
      Ok (first_ip None (c # cs), map_peers m, map_allowed (first_ip None (c # cs)) m)))"
    unfolding map_body_whole [OF first(2)] first_ip_skip raw .
  also have "\<dots> = Some (case parse_peers (\<lambda>raw. map_option peers_struct (parse raw)) raw of
        Ok peers \<Rightarrow> Ok (first_ip None (c # cs), peers, Option.bind (first_ip None (c # cs))
          (parse_allowed_srcs (\<lambda>raw. map_option filter_struct (parse raw)) raw))
      | _ \<Rightarrow> Err CtlJson)"
    by (cases "parse raw"; cases "first_ip None (c # cs)")
       (simp_all add: parse_peers_def parse_allowed_srcs_def map_peers_def map_allowed_def peers_struct_def filter_struct_def)
  finally show ?thesis using h1(1) h2 raw by blast
qed

text \<open>Where the first address of a response is found.\<close>

abbreviation address_start :: bytes where
  "address_start \<equiv> of_text (CHR 0x22 # ''100.'')"

lemma find_bytes_first:
  "take (length nd) (drop k w) = nd \<Longrightarrow> k + length nd \<le> length w \<Longrightarrow> \<exists>p\<le>k. find_bytes w nd = Some p"
proof (induction w arbitrary: k)
  case (Cons x w)
  show ?case
  proof (cases "take (length nd) (x # w) = nd")
    case False
    with Cons.prems obtain j where k: "k = Suc j" by (cases k) auto
    with Cons.IH [of j] Cons.prems False show ?thesis by auto
  qed simp
qed auto

lemma find_bytes_part:
  assumes "find_bytes (x @ y @ z) nd = Some p" "nd \<noteq> []"
  shows "length x + length y \<le> p \<Longrightarrow> find_bytes y nd = None"
    "length x \<le> p \<Longrightarrow> p + length nd \<le> length x + length y \<Longrightarrow> find_bytes y nd = Some (p - length x)"
proof -
  have early: "p \<le> length x + q" if "find_bytes y nd = Some q" for q
  proof -
    have "take (length nd) (drop (length x + q) (x @ y @ z)) = nd" "length x + q + length nd \<le> length (x @ y @ z)"
      using find_bytes_at [OF that] find_bytes_le [OF that] by auto
    from find_bytes_first [OF this] assms(1) show ?thesis by auto
  qed
  show "find_bytes y nd = None" if "length x + length y \<le> p"
  proof (rule ccontr)
    assume "find_bytes y nd \<noteq> None"
    then obtain q where q: "find_bytes y nd = Some q" by blast
    have "0 < length nd" using assms(2) by simp
    with early [OF q] find_bytes_le [OF q] that show False by linarith
  qed
  show "find_bytes y nd = Some (p - length x)" if "length x \<le> p" "p + length nd \<le> length x + length y"
  proof -
    have "take (length nd) (drop (p - length x) y) = nd"
      using find_bytes_at [OF assms(1)] that by simp
    moreover have "p - length x + length nd \<le> length y" using that by linarith
    ultimately obtain q where "q \<le> p - length x" "find_bytes y nd = Some q"
      using find_bytes_first [of nd "p - length x" y] by auto
    with early [of q] that show ?thesis by auto
  qed
qed

lemma takeWhile_part: "length (takeWhile P (xs @ ys)) < length xs \<Longrightarrow> takeWhile P xs = takeWhile P (xs @ ys)"
  by (induction xs) auto

text \<open>
  The address is not cut: the frame in which it starts has it up to the slash or the quote behind it.
\<close>

definition address_uncut :: "bytes list \<Rightarrow> bool" where
  "address_uncut cs \<longleftrightarrow> (\<exists>before d after p ip. cs = before @ d # after
     \<and> find_bytes (concat cs) address_start = Some p \<and> scan_tailscale_ip (concat cs) = Some ip
     \<and> length (concat before) \<le> p \<and> p + 1 + length ip < length (concat before) + length d)"

lemma scan_none: "find_bytes c address_start = None \<Longrightarrow> scan_tailscale_ip c = None"
  by (simp add: scan_tailscale_ip_def)

lemma first_ip_uncut:
  assumes "address_uncut cs"
  shows "first_ip None cs = scan_tailscale_ip (concat cs)"
proof -
  obtain before d after p ip where cs: "cs = before @ d # after"
    and p: "find_bytes (concat cs) address_start = Some p" and ip: "scan_tailscale_ip (concat cs) = Some ip"
    and at: "length (concat before) \<le> p" "p + 1 + length ip < length (concat before) + length d"
    using assms by (auto simp: address_uncut_def)
  define q where "q = p - length (concat before)"
  have nd: "address_start \<noteq> []" "length address_start = 5" by (simp_all add: of_text_def)
  have s: "ip = to_text (takeWhile (\<lambda>b. b \<noteq> 0x2F \<and> b \<noteq> 0x22) (drop (p + 1) (concat cs)))" "7 \<le> length ip"
    using ip p by (auto simp: scan_tailscale_ip_def Let_def split: if_splits)
  have w: "concat cs = concat before @ d @ concat after" by (simp add: cs)
  have "find_bytes c address_start = None" if c: "c \<in> set before" for c
  proof -
    obtain x z where b: "before = x @ c # z" using split_list [OF c] by blast
    have "find_bytes (concat x @ c @ (concat z @ d @ concat after)) address_start = Some p" using p by (simp add: cs b)
    moreover have "length (concat x) + length c \<le> p" using at(1) by (simp add: b)
    ultimately show ?thesis by (intro find_bytes_part(1) [OF _ nd(1)])
  qed
  then have "first_ip None before = None"
    unfolding first_ip_def by (induction before) (simp_all add: scan_none)
  then have f: "first_ip None cs = first_ip (scan_tailscale_ip d) after" by (simp add: cs first_ip_def)
  have d: "find_bytes d address_start = Some q"
    using find_bytes_part(2) [of "concat before" d "concat after"] p at s(2) nd w by (simp add: q_def)
  have dr: "drop (p + 1) (concat cs) = drop (q + 1) d @ concat after"
    using at s(2) by (simp add: w q_def Suc_diff_le)
  have "length (takeWhile (\<lambda>b. b \<noteq> 0x2F \<and> b \<noteq> 0x22) (drop (q + 1) d @ concat after)) = length ip"
    using s(1) [unfolded dr] by simp
  then have "takeWhile (\<lambda>b. b \<noteq> 0x2F \<and> b \<noteq> 0x22) (drop (q + 1) d)
      = takeWhile (\<lambda>b. b \<noteq> 0x2F \<and> b \<noteq> 0x22) (drop (p + 1) (concat cs))"
    unfolding dr using at by (intro takeWhile_part) (simp add: q_def)
  then have "scan_tailscale_ip d = scan_tailscale_ip (concat cs)" using d p by (simp add: scan_tailscale_ip_def Let_def)
  then have "scan_tailscale_ip d = Some ip" using ip by simp
  moreover have "first_ip (Some ip) xs = Some ip" for xs by (induction xs) (simp_all add: first_ip_def)
  ultimately show ?thesis using f ip by simp
qed

lemma scan_strip: "scan_tailscale_ip (strip_wire_prefix w) = scan_tailscale_ip w"
proof (cases "5 \<le> length w \<and> w ! 0 \<noteq> 0x7B \<and> w ! 4 = 0x7B")
  case True
  then obtain a b c e r where w: "w = [a, b, c, e] @ 0x7B # r"
    by (auto simp: numeral_eq_Suc Suc_le_length_iff)
  have nd: "address_start = [0x22, 0x31, 0x30, 0x30, 0x2E]" by code_simp
  have skip: "take 5 (x # xs) \<noteq> address_start \<Longrightarrow> find_bytes (x # xs) address_start = map_option Suc (find_bytes xs address_start)"
    for x and xs :: bytes
  proof -
    have "length address_start = 5" by (simp add: nd)
    then show "take 5 (x # xs) \<noteq> address_start \<Longrightarrow> ?thesis" by (simp only: find_bytes.simps if_False)
  qed
  have "find_bytes (a # b # c # e # 0x7B # r) address_start
      = map_option Suc (map_option Suc (map_option Suc (map_option Suc (find_bytes (0x7B # r) address_start))))"
    by (subst skip, simp add: nd)+ (rule refl)
  then have "find_bytes w address_start = map_option (\<lambda>n. n + 4) (find_bytes (0x7B # r) address_start)"
  proof -
    have "(\<lambda>n. n + 4) = (\<lambda>n. Suc (Suc (Suc (Suc n))))" by (simp add: fun_eq_iff)
    then show "?thesis" if "find_bytes (a # b # c # e # 0x7B # r) address_start
        = map_option Suc (map_option Suc (map_option Suc (map_option Suc (find_bytes (0x7B # r) address_start))))"
      unfolding w append_Cons append_Nil that by (simp only: option.map_comp comp_def)
  qed
  moreover have "strip_wire_prefix w = 0x7B # r" using True by (simp add: strip_wire_prefix_def w)
  moreover have "drop (n + 4 + 1) w = drop (n + 1) (0x7B # r)" for n by (simp add: w numeral_eq_Suc)
  ultimately show ?thesis
    by (cases "find_bytes (0x7B # r) address_start") (simp_all add: scan_tailscale_ip_def Let_def)
qed (auto simp: strip_wire_prefix_def)

text \<open>
  An address that is cut is missed, or even cut short; and without an address no filter is applied.
\<close>

lemma cut_address_missed:
  "first_ip None [of_text (''{'' @ [CHR 0x22] @ ''100.6''), of_text (''4.0.9/32'' @ [CHR 0x22] @ ''}'')] = None"
  "first_ip None [of_text (''{'' @ [CHR 0x22] @ ''100.64.0''), of_text (''.9/32'' @ [CHR 0x22] @ ''}'')] = Some ''100.64.0''"
  "map_allowed None m = None"
  by code_simp+

text \<open>Reading to the end of a reader, 1024 bytes at most at a time, and parsing what came.\<close>

partial_function (option) read_to_end ::
  "(nat \<Rightarrow> 'r \<Rightarrow> ((bytes, h2_error) outcome \<times> 'r) option) \<Rightarrow> bytes \<Rightarrow> 'r \<Rightarrow> (bytes option \<times> 'r) option"
where
  "read_to_end read acc r = Option.bind (read 1024 r) (\<lambda>(res, r). case res of
       Ok out \<Rightarrow> if out = [] then Some (Some acc, r) else read_to_end read (acc @ out) r
     | _ \<Rightarrow> Some (None, r))"

definition whole_reader :: "(bytes \<Rightarrow> map_stream option) \<Rightarrow> 'r from_reader" where
  "whole_reader parse read r = map_option (\<lambda>(got, r). (Option.bind got parse, r)) (read_to_end read [] r)"

lemma whole_reader_reads: "reader_law (whole_reader parse) parse"
  unfolding reader_law_def
proof (intro allI impI)
  fix read :: "nat \<Rightarrow> 'a \<Rightarrow> ((bytes, h2_error) outcome \<times> 'a) option" and P r R
  assume step: "\<forall>r R room. 0 < room \<longrightarrow> P r R \<longrightarrow> (\<exists>out R' r'. read room r = Some (Ok out, r') \<and> P r' R'
        \<and> R = out @ R' \<and> length out \<le> room \<and> (out = [] \<longleftrightarrow> R = []))"
  have "P r R \<Longrightarrow> \<exists>r'. read_to_end read acc r = Some (Some (acc @ R), r') \<and> P r' []" for acc
  proof (induction "length R" arbitrary: r R acc rule: less_induct)
    case less
    from step [rule_format, of 1024, OF _ less.prems] obtain out R' r' where
      o: "read 1024 r = Some (Ok out, r')" "P r' R'" "R = out @ R'" "out = [] \<longleftrightarrow> R = []" by auto
    show ?case
    proof (cases "out = []")
      case True
      with o show ?thesis by (subst read_to_end.simps) simp
    next
      case False
      with o have "length R' < length R" by simp
      from less.hyps [OF this o(2), of "acc @ out"] o False show ?thesis by (subst read_to_end.simps) simp
    qed
  qed
  then show "P r R \<Longrightarrow> \<exists>r'. whole_reader parse read r = Some (parse R, r') \<and> (parse R \<noteq> None \<longrightarrow> P r' [])"
    by (fastforce simp: whole_reader_def)
qed

definition sample_map :: bytes where
  "sample_map = of_text (''{'' @ CHR 0x22 # ''A'' @ [CHR 0x22, CHR '':'', CHR 0x22] @ ''100.64.0.9/32'' @ [CHR 0x22])"

definition sample_map_frames :: "h2_frame list" where
  "sample_map_frames = sample_settings # response_frames 1 [0x88] [[22, 0, 0, 0] @ sample_map] (of_text ''}'')"

definition sample_map_parse :: "bytes \<Rightarrow> map_stream option" where
  "sample_map_parse raw =
     (if raw = sample_map @ of_text ''}'' then Some \<lparr>ms_peers = Some [], ms_filter = Some []\<rparr> else None)"

definition sample_map_session :: "bytes h2" where
  "sample_map_session =
     \<lparr>h_conn = \<lparr>cn_stream = concat (map (\<lambda>p. ctl_frame MSG_RECORD (p @ replicate 16 0)) [concat (map frame_wire sample_map_frames)]),
        cn_rx = []\<rparr>, h_tr = sample_transport, h_rx = [], h_next_stream = 1, h_authority = ''control''\<rparr>"


end
