(* ===== verification/KeysProps.thy ===== *)
theory KeysProps
  imports Control
begin

text \<open>
  The keys of the node: as it writes them in its requests a peer reads them back, and they stay
  the same from start to start.
\<close>

section \<open>Written keys\<close>

lemma hex_nibble_char: "unat d < 16 \<Longrightarrow> hex_nibble d = hex_char d"
proof -
  have "\<forall>n < 16. ''0123456789abcdef'' ! n = (char_of (if n < 10 then 48 + n else 87 + n) :: char)" by code_simp
  then show "unat d < 16 \<Longrightarrow> ?thesis" by (simp add: hex_nibble_def hex_char_def)
qed

lemma hex_lower_text: "hex_lower bs = hex_text bs"
  by (induction bs) (simp_all add: hex_lower_def hex_text_def hex_nibble_char nibbles)

lemma hex_char_range: "unat d < 16 \<Longrightarrow> is_ascii (hex_char d) \<and> \<not> is_white [hex_char d]"
proof -
  have "\<forall>n < 16. is_ascii (char_of (if n < 10 then 48 + n else 87 + n :: nat)) \<and>
      \<not> is_white [char_of (if n < 10 then 48 + n else 87 + n :: nat)]" by code_simp
  then show "unat d < 16 \<Longrightarrow> ?thesis" by (simp add: hex_char_def)
qed

lemma hex_text_chars: "c \<in> set (hex_text bs) \<Longrightarrow> is_ascii c \<and> \<not> is_white [c]"
  using hex_char_range nibbles(1,2) by (auto simp: hex_text_def)

lemma trim_hex_text: "trim (hex_text bs) = hex_text bs"
proof (cases "hex_text bs = []")
  case True
  then show ?thesis by (simp add: trim_def)
next
  case False
  with hex_text_chars [of _ bs] show ?thesis by (intro trim_ascii) (auto simp: list_all_iff)
qed

text \<open>
  A public key of the node, as the register and map requests write it after a prefix, is read
  back as the same 32 bytes by the parser of a peer's keys and, without the prefix, by the parser of
  the control server's key.
\<close>

theorem advertised_key_parses:
  assumes "length (kp_public k) = 32"
  shows "parse_keyed_hex (''nodekey:'' @ public_hex k) = Some (kp_public k)
    \<and> parse_keyed_hex (''discokey:'' @ public_hex k) = Some (kp_public k)
    \<and> hex_decode_32 (public_hex k) = Some (kp_public k)"
  using assms parse_keyed_hex_text [OF assms, of "''nodekey''"] parse_keyed_hex_text [OF assms, of "''discokey''"]
  by (simp_all add: public_hex_def hex_lower_text hex_decode_32_def trim_hex_text length_hex_text hex_bytes_text)

theorem advertised_key_parses_witness:
  "parse_keyed_hex (''nodekey:'' @ public_hex \<lparr>kp_private = [], kp_public = replicate 32 0xAF\<rparr>) = Some (replicate 32 0xAF)"
  using advertised_key_parses [of "\<lparr>kp_private = [], kp_public = replicate 32 0xAF\<rparr>"] by simp

section \<open>Kept keys\<close>

text \<open>
  The store: what was written is read, the other names stay as they were, drawing random bytes
  changes none of them, and a random key has 32 bytes.
\<close>

definition nvs_laws :: "'n nvs \<Rightarrow> bool" where
  "nvs_laws nv \<longleftrightarrow>
     (\<forall>key b n n'. nv_set nv key b n = (Ok (), n') \<longrightarrow> length b = 32 \<longrightarrow>
        nv_get nv key n' = Ok (Some b) \<and> (\<forall>k. k \<noteq> key \<longrightarrow> nv_get nv k n' = nv_get nv k n)) \<and>
     (\<forall>n b n'. nv_random nv n = (Ok b, n') \<longrightarrow> length b = 32 \<and> (\<forall>k. nv_get nv k n' = nv_get nv k n))"

text \<open>A key that is in the store: a start takes it and leaves the store alone.\<close>

definition kept :: "'n nvs \<Rightarrow> (bytes \<Rightarrow> bytes) \<Rightarrow> string \<Rightarrow> keypair \<Rightarrow> 'n \<Rightarrow> bool" where
  "kept nv derive key k n \<longleftrightarrow> (\<exists>b. nv_get nv key n = Ok (Some b) \<and> length b = 32 \<and> k = from_private derive b)"

lemma kept_loads: "kept nv derive key k n \<Longrightarrow> load_or_make nv derive key n = (Ok k, n)"
  by (auto simp: kept_def load_or_make_def Let_def)

lemma load_keeps:
  assumes "nvs_laws nv" "load_or_make nv derive key n = (Ok k, n')"
  shows "kept nv derive key k n'" "other \<noteq> key \<Longrightarrow> kept nv derive other k' n \<Longrightarrow> kept nv derive other k' n'"
proof -
  have made: "kept nv derive key k n' \<and> (\<forall>other k'. other \<noteq> key \<longrightarrow> kept nv derive other k' n \<longrightarrow> kept nv derive other k' n')"
    if "bindM (nv_random nv) (\<lambda>priv. bindM (nv_set nv key priv) (\<lambda>x. returnM (from_private derive priv))) n = (Ok k, n')"
    using that assms(1)
    by (fastforce simp: bindM_apply nvs_laws_def kept_def split: prod.splits outcome.splits)
  show "kept nv derive key k n'" "other \<noteq> key \<Longrightarrow> kept nv derive other k' n \<Longrightarrow> kept nv derive other k' n'"
    using assms(2) made by (auto simp: load_or_make_def Let_def kept_def split: outcome.splits option.splits if_splits)
qed

text \<open>
  C38: the identity of the node persists: once a start has loaded or made its three keys, each later
  start gets the same three keys and writes nothing.
\<close>

theorem keys_persist:
  assumes laws: "nvs_laws nv" and start: "load_or_generate nv derive n = (Ok ks, n')"
  shows "load_or_generate nv derive n' = (Ok ks, n')"
proof -
  from start obtain m k d n1 n2 where s: "load_or_make nv derive ''k_machine'' n = (Ok m, n1)"
    "load_or_make nv derive ''k_node'' n1 = (Ok k, n2)" "load_or_make nv derive ''k_disco'' n2 = (Ok d, n')"
    "ks = \<lparr>k_machine = m, k_node = k, k_disco = d\<rparr>"
    by (auto simp: load_or_generate_def bindM_apply split: prod.splits outcome.splits)
  have "kept nv derive ''k_machine'' m n'" "kept nv derive ''k_node'' k n'" "kept nv derive ''k_disco'' d n'"
    by (simp_all add: load_keeps [OF laws s(1)] load_keeps [OF laws s(2)] load_keeps [OF laws s(3)])
  then show ?thesis by (simp add: load_or_generate_def bindM_apply s(4) kept_loads)
qed

definition map_nvs :: "(string \<rightharpoonup> bytes) nvs" where
  "map_nvs = \<lparr>nv_get = (\<lambda>key n. Ok (n key)), nv_set = (\<lambda>key b n. (Ok (), n(key \<mapsto> b))),
     nv_random = (\<lambda>n. (Ok (replicate 32 7), n))\<rparr>"

theorem keys_persist_witness:
  "\<exists>ks n'. load_or_generate map_nvs rev (Map.empty(''k_node'' \<mapsto> replicate 32 1)) = (Ok ks, n')
     \<and> kp_private (k_node ks) = replicate 32 1 \<and> load_or_generate map_nvs rev n' = (Ok ks, n')"
proof -
  have laws: "nvs_laws map_nvs" by (simp add: nvs_laws_def map_nvs_def)
  obtain ks n' where s: "load_or_generate map_nvs rev (Map.empty(''k_node'' \<mapsto> replicate 32 1)) = (Ok ks, n')"
    "kp_private (k_node ks) = replicate 32 1"
    by (simp add: load_or_generate_def load_or_make_def map_nvs_def bindM_apply Let_def from_private_def)
  with keys_persist [OF laws s(1)] show ?thesis by blast
qed

end
