(* ===== verification/Proxy.thy ===== *)
theory Proxy
  imports Exchange ConnProps Peers
begin

text \<open>
  \<open>src/proxy.rs\<close>: one TCP service of the local network for the peers of the tunnel. A connection
  carries one request in one segment; the answer of the service is cut into segments that are all
  sent at once. The dialler of the local network and its stream are parameters, the random initial
  sequence number is an argument.
\<close>

section \<open>Segments\<close>

definition PROXY_MSS :: nat where "PROXY_MSS = 1024"

record proxy_conn =
  px_active :: bool
  px_client_ip :: bytes
  px_our_ip :: bytes
  px_client_port :: u16
  px_rcv_nxt :: u32
  px_snd_nxt :: u32
  px_fetched :: bool

definition proxy_default :: proxy_conn where
  "proxy_default = \<lparr>px_active = False, px_client_ip = replicate 4 0, px_our_ip = replicate 4 0, px_client_port = 0,
     px_rcv_nxt = 0, px_snd_nxt = 0, px_fetched = False\<rparr>"

text \<open>The constants of \<open>config.rs\<close>.\<close>

record proxy_config =
  pc_listen :: u16
  pc_target_ip :: string
  pc_target_port :: u16

definition px_checksum :: "bytes \<Rightarrow> bytes \<Rightarrow> bytes \<Rightarrow> u16" where
  "px_checksum src dst tcp =
     (let ph = replicate 12 0;
          ph = put 4 dst (put 0 src ph);
          ph = ph[9 := PROTO_TCP];
          ph = put 10 (be16 (word_of_nat (length tcp))) ph
      in finish (sum16 tcp (sum16 ph 0)))"

definition px_segment :: "proxy_config \<Rightarrow> proxy_conn \<Rightarrow> u8 \<Rightarrow> bytes \<Rightarrow> bytes" where
  "px_segment cfg c flags payload =
     (let total = 20 + 20 + length payload;
          pkt = replicate total 0;
          pkt = pkt[0 := 0x45];
          pkt = put 2 (be16 (word_of_nat total)) pkt;
          pkt = pkt[6 := 0x40, 8 := 64, 9 := PROTO_TCP];
          pkt = put 16 (px_client_ip c) (put 12 (px_our_ip c) pkt);
          ipsum = checksum (take 20 pkt);
          pkt = put 10 (be16 ipsum) pkt;
          t = drop 20 pkt;
          t = put 2 (be16 (px_client_port c)) (put 0 (be16 (pc_listen cfg)) t);
          t = put 8 (be32 (px_rcv_nxt c)) (put 4 (be32 (px_snd_nxt c)) t);
          t = t[12 := push_bit 4 5, 13 := flags];
          t = put 20 payload (put 14 (be16 64240) t);
          pkt = put 20 t pkt;
          tsum = px_checksum (px_our_ip c) (px_client_ip c) (drop 20 pkt)
      in put 36 (be16 tsum) pkt)"

section \<open>The local network\<close>

text \<open>Everything the service says until it closes, fails or has said more than 64 KiB.\<close>

function lan_read :: "'s byte_stream \<Rightarrow> bytes \<Rightarrow> 's \<Rightarrow> (bytes, unit) outcome" where
  "lan_read bs buf s = (case bs_read bs 1460 s of
     (Ok got, s) \<Rightarrow>
       (if got = [] then Ok buf else if length got > 1460 then Panic
        else let buf = buf @ got in if length buf > 64 * 1024 then Ok buf else lan_read bs buf s)
   | (Err e, s) \<Rightarrow> Ok buf
   | (Panic, s) \<Rightarrow> Panic)"
  by pat_completeness auto
termination
  by (relation "measure (\<lambda>(bs, buf, s). Suc (64 * 1024) - length buf)") (auto intro!: diff_less_mono2)

declare lan_read.simps [simp del]

definition lan_fetch ::
  "'s byte_stream \<Rightarrow> (u32 \<Rightarrow> u16 \<Rightarrow> 's option) \<Rightarrow> proxy_config \<Rightarrow> bytes \<Rightarrow> (bytes, unit) outcome"
where
  "lan_fetch bs dial cfg request = (case parse_ipv4 (pc_target_ip cfg) of
     None \<Rightarrow> Ok []
   | Some ip \<Rightarrow> (case dial ip (pc_target_port cfg) of
       None \<Rightarrow> Ok []
     | Some s \<Rightarrow> (case bs_write bs request s of (Panic, s) \<Rightarrow> Panic | (_, s) \<Rightarrow> lan_read bs [] s)))"

section \<open>A packet from the tunnel\<close>

record proxy_in =
  pn_src :: bytes
  pn_dst :: bytes
  pn_sport :: u16
  pn_dport :: u16
  pn_seq :: u32
  pn_flags :: u8
  pn_payload :: bytes

definition proxy_parse :: "bytes \<Rightarrow> proxy_in option" where
  "proxy_parse inner =
     (if length inner < 20 \<or> drop_bit 4 (inner ! 0) \<noteq> 4 \<or> inner ! 9 \<noteq> PROTO_TCP then None else
      let ihl = ip_ihl inner; total = unat (get16 2 inner) in
      if ihl < 20 \<or> total < ihl + 20 \<or> total > length inner then None else
      let tcp = cut ihl total inner; data_off = unat (drop_bit 4 (tcp ! 12)) * 4 in
      if data_off < 20 \<or> data_off > length tcp then None
      else Some \<lparr>pn_src = cut 12 16 inner, pn_dst = cut 16 20 inner, pn_sport = get16 0 tcp, pn_dport = get16 2 tcp,
        pn_seq = get32 4 tcp, pn_flags = tcp ! 13, pn_payload = drop data_off tcp\<rparr>)"

function proxy_stream :: "proxy_config \<Rightarrow> bytes \<Rightarrow> nat \<Rightarrow> proxy_conn \<Rightarrow> bytes list \<times> proxy_conn" where
  "proxy_stream cfg answer i c =
     (if i < length answer then
        let stop = min (i + PROXY_MSS) (length answer); is_last = (stop = length answer);
            fl = (if is_last then PSH OR ACK OR FIN else PSH OR ACK);
            seg = px_segment cfg c fl (cut i stop answer);
            c = c\<lparr>px_snd_nxt := px_snd_nxt c + word_of_nat (stop - i)\<rparr>;
            c = (if is_last then c\<lparr>px_snd_nxt := px_snd_nxt c + 1\<rparr> else c);
            (out, c) = proxy_stream cfg answer stop c
        in (seg # out, c)
      else ([], c))"
  by pat_completeness auto
termination
  by (relation "measure (\<lambda>(cfg, answer, i, c). length answer - i)") (auto simp: PROXY_MSS_def)

declare proxy_stream.simps [simp del]

definition proxy_request :: "proxy_config \<Rightarrow> (bytes \<Rightarrow> (bytes, unit) outcome) \<Rightarrow> proxy_in \<Rightarrow> proxy_conn
  \<Rightarrow> (bytes list \<times> proxy_conn, unit) outcome"
where
  "proxy_request cfg fetch p c =
     (let c = c\<lparr>px_rcv_nxt := pn_seq p + word_of_nat (length (pn_payload p)), px_fetched := True\<rparr>;
          ack = px_segment cfg c ACK [] in
      bindR (fetch (pn_payload p)) (\<lambda>answer.
        if answer = [] then Ok ([ack, px_segment cfg c (FIN OR ACK) []], c\<lparr>px_snd_nxt := px_snd_nxt c + 1\<rparr>)
        else case proxy_stream cfg answer 0 c of (out, c) \<Rightarrow> Ok (ack # out, c)))"

definition proxy_handle :: "proxy_config \<Rightarrow> (bytes \<Rightarrow> (bytes, unit) outcome) \<Rightarrow> u32 \<Rightarrow> bytes \<Rightarrow> proxy_conn
  \<Rightarrow> (bytes list \<times> proxy_conn, unit) outcome"
where
  "proxy_handle cfg fetch rand inner c = (case proxy_parse inner of
     None \<Rightarrow> Ok ([], c)
   | Some p \<Rightarrow>
      if pn_dport p \<noteq> pc_listen cfg then Ok ([], c)
      else if pn_flags p AND SYN \<noteq> 0 then
        (let c = \<lparr>px_active = True, px_client_ip = pn_src p, px_our_ip = pn_dst p, px_client_port = pn_sport p,
               px_rcv_nxt = pn_seq p + 1, px_snd_nxt = rand, px_fetched = False\<rparr>
         in Ok ([px_segment cfg c (SYN OR ACK) []], c\<lparr>px_snd_nxt := px_snd_nxt c + 1\<rparr>))
      else if \<not> px_active c \<or> pn_src p \<noteq> px_client_ip c \<or> pn_sport p \<noteq> px_client_port c then Ok ([], c)
      else if pn_flags p AND RST \<noteq> 0 then Ok ([], proxy_default)
      else if pn_payload p \<noteq> [] \<and> \<not> px_fetched c then proxy_request cfg fetch p c
      else if pn_flags p AND FIN \<noteq> 0 then
        (let c = c\<lparr>px_rcv_nxt := pn_seq p + 1\<rparr> in Ok ([px_segment cfg c ACK []], proxy_default))
      else Ok ([], c))"

end
