(* ===== verification/ProxyProps.thy ===== *)
theory ProxyProps
  imports Proxy
begin

text \<open>
  A peer that connects to the proxy port with the TCP client of \<open>outbound.rs\<close> gets exactly what the
  local service answered.
\<close>

section \<open>Segments\<close>

lemma px_checksum_eq: "px_checksum src dst tcp = l4_checksum src dst PROTO_TCP tcp"
  by (simp add: px_checksum_def l4_checksum_def pseudo_header4_def Let_def)

lemma px_segment_eq:
  assumes "length (px_our_ip c) = 4" "length (px_client_ip c) = 4"
  shows "px_segment cfg c flags payload =
    tcp_packet (px_our_ip c) (px_client_ip c) (pc_listen cfg) (px_client_port c) (px_snd_nxt c) (px_rcv_nxt c) flags payload"
proof -
  have "px_segment cfg c flags payload =
    (let n = 20 + length payload;
         pkt = put 16 (px_client_ip c) (put 12 (px_our_ip c) ((put 2 (be16 (word_of_nat (20 + n))) ((replicate (20 + n) 0)[0 := 0x45]))
            [6 := 0x40, 8 := 64, 9 := PROTO_TCP]));
         pkt = put 10 (be16 (checksum (take 20 pkt))) pkt;
         t = put 20 payload (put 14 (be16 64240) ((put 8 (be32 (px_rcv_nxt c)) (put 4 (be32 (px_snd_nxt c)) (put 2 (be16 (px_client_port c))
            (put 0 (be16 (pc_listen cfg)) (drop 20 pkt)))))[12 := push_bit 4 5, 13 := flags]));
         pkt = put 20 t pkt
     in put 36 (be16 (l4_checksum (px_our_ip c) (px_client_ip c) PROTO_TCP (drop 20 pkt))) pkt)"
    by (simp add: px_segment_def Let_def px_checksum_eq)
  then show ?thesis using assms by (simp only: packet_in_place)
qed

lemma proxy_parse_packet:
  assumes "length src = 4" "length dst = 4" "40 + length payload < 65536"
  shows "proxy_parse (tcp_packet src dst sport dport sq ack flags payload) =
    Some \<lparr>pn_src = src, pn_dst = dst, pn_sport = sport, pn_dport = dport, pn_seq = sq, pn_flags = flags, pn_payload = payload\<rparr>"
  using tcp_packet_fields [OF assms, of sport dport sq ack flags]
    tcp_segment_fields [of src dst sport dport sq ack flags payload]
  by (simp add: proxy_parse_def Let_def)

section \<open>The answer\<close>

text \<open>The client reads the segments of an answer from wherever they start.\<close>

lemma client_reads_stream:
  assumes "length (px_our_ip c) = 4" "length (px_client_ip c) = 4" "px_client_port c = c_sport d"
    and "c_established d" "\<not> c_done d" "c_rcv_nxt d = px_snd_nxt c" "i < length answer"
  shows "c_response (snd (client_run (fst (proxy_stream cfg answer i c)) d)) = c_response d @ drop i answer
    \<and> c_done (snd (client_run (fst (proxy_stream cfg answer i c)) d))"
  using assms
proof (induction cfg answer i c arbitrary: d rule: proxy_stream.induct)
  case (1 cfg answer i c)
  define stop where "stop = min (i + PROXY_MSS) (length answer)"
  define x where "x = cut i stop answer"
  define fl where "fl = (if stop = length answer then PSH OR ACK OR FIN else PSH OR ACK)"
  define c1 where "c1 = c\<lparr>px_snd_nxt := px_snd_nxt c + word_of_nat (stop - i)\<rparr>"
  define d1 where "d1 = snd (client_data (c_rcv_nxt d) x d)"
  have i: "i < stop" "stop \<le> length answer" "stop \<le> i + 1024" using 1(8) by (auto simp: stop_def PROXY_MSS_def)
  have x: "length x = stop - i" "x \<noteq> []" using i by (auto simp: x_def cut_def)
  have dr: "drop i answer = x @ drop stop answer"
    using i append_take_drop_id [of "stop - i" "drop i answer"] by (simp add: x_def cut_def drop_take)
  have seg: "on_inner (px_segment cfg c fl x) d = client_segment_in (c_rcv_nxt d) fl x d"
    using 1(2-7) x i by (simp add: px_segment_eq on_inner_packet)
  have d1: "c_sport d1 = c_sport d" "c_established d1" "\<not> c_done d1"
    "c_rcv_nxt d1 = px_snd_nxt c1" "c_response d1 = c_response d @ x"
    using 1(2-7) x by (simp_all add: d1_def c1_def client_data_def Let_def)
  show ?case
  proof (cases "stop = length answer")
    case False
    have "snd (on_inner (px_segment cfg c fl x) d) = d1"
      unfolding seg using False by (simp add: fl_def client_segment_in_def client_fin_def d1_def split_beta)
    moreover have "fst (proxy_stream cfg answer i c) = px_segment cfg c fl x # fst (proxy_stream cfg answer stop c1)"
      using 1(8) False by (subst proxy_stream.simps) (simp add: Let_def split_beta fl_def x_def c1_def flip: stop_def)
    moreover have "c_response (snd (client_run (fst (proxy_stream cfg answer stop c1)) d1)) = c_response d1 @ drop stop answer
        \<and> c_done (snd (client_run (fst (proxy_stream cfg answer stop c1)) d1))"
      using 1(1) [OF 1(8) stop_def refl fl_def refl c1_def refl, of d1] 1(2-4) d1 False i
      by (simp add: c1_def)
    ultimately show ?thesis using d1(5) dr by (simp add: split_beta)
  next
    case True
    have "fst (proxy_stream cfg answer i c) = [px_segment cfg c fl x]"
      using 1(8) True by (subst proxy_stream.simps, subst proxy_stream.simps) (simp add: Let_def split_beta fl_def x_def flip: stop_def)
    moreover have "snd (on_inner (px_segment cfg c fl x) d) = snd (client_fin fl d1)" "fl AND FIN \<noteq> 0"
      unfolding seg using True by (simp_all add: fl_def client_segment_in_def d1_def split_beta)
    ultimately show ?thesis using d1(5) dr True by (simp add: split_beta client_fin_def Let_def)
  qed
qed

text \<open>The exchange: the SYN, the SYN-ACK, the acknowledgement with the request, the answer.\<close>

fun proxy_run :: "proxy_config \<Rightarrow> (bytes \<Rightarrow> (bytes, unit) outcome) \<Rightarrow> u32 \<Rightarrow> bytes list \<Rightarrow> proxy_conn
  \<Rightarrow> (bytes list \<times> proxy_conn, unit) outcome"
where
  "proxy_run cfg fetch rand [] c = Ok ([], c)"
| "proxy_run cfg fetch rand (p # ps) c = bindR (proxy_handle cfg fetch rand p c) (\<lambda>(o1, c).
     bindR (proxy_run cfg fetch rand ps c) (\<lambda>(o2, c). Ok (o1 @ o2, c)))"

definition proxy_exchange ::
  "proxy_config \<Rightarrow> (bytes \<Rightarrow> (bytes, unit) outcome) \<Rightarrow> u32 \<Rightarrow> u32 \<Rightarrow> bytes \<Rightarrow> bytes \<Rightarrow> u16 \<Rightarrow> bytes \<Rightarrow> proxy_conn
     \<Rightarrow> (tcp_client, unit) outcome"
where
  "proxy_exchange cfg fetch xc xs src dst sport request c =
     (let (syn, d) = client_open (client_new xc src dst sport (pc_listen cfg) request) in
      bindR (proxy_handle cfg fetch xs syn c) (\<lambda>(o1, c).
      let (o2, d) = client_run o1 d in
      bindR (proxy_run cfg fetch xs o2 c) (\<lambda>(o3, c). Ok (snd (client_run o3 d)))))"

lemma exchange_answer:
  fixes src dst request :: bytes and xc xs :: u32 and sport :: u16
  assumes ips: "length src = 4" "length dst = 4" and rq: "request \<noteq> []" "40 + length request < 65536"
    and fetch: "fetch request = Ok answer"
  shows "\<exists>d. proxy_exchange cfg fetch xc xs src dst sport request c = Ok d \<and> c_done d \<and> c_response d = answer"
proof -
  define L where "L = pc_listen cfg"
  define d0 where "d0 = client_new xc src dst sport L request"
  define sq where "sq = c_snd_nxt d0"
  define d1 where "d1 = d0\<lparr>c_snd_nxt := sq + 1\<rparr>"
  define d2 where "d2 = d1\<lparr>c_rcv_nxt := xs + 1, c_established := True, c_snd_nxt := sq + 1 + word_of_nat (length request)\<rparr>"
  define c1 where "c1 = \<lparr>px_active = True, px_client_ip = src, px_our_ip = dst, px_client_port = sport,
    px_rcv_nxt = sq + 1, px_snd_nxt = xs + 1, px_fetched = False\<rparr>"
  define c2 where "c2 = c1\<lparr>px_rcv_nxt := sq + 1 + word_of_nat (length request), px_fetched := True\<rparr>"
  define o1 where "o1 = tcp_packet dst src L sport xs (sq + 1) (SYN OR ACK) []"
  define a where "a = tcp_packet src dst sport L (sq + 1) (xs + 1) ACK []"
  define r where "r = tcp_packet src dst sport L (sq + 1) (xs + 1) (PSH OR ACK) request"
  define ack where "ack = px_segment cfg c2 ACK []"
  define more where "more = (if answer = [] then [px_segment cfg c2 (FIN OR ACK) []] else fst (proxy_stream cfg answer 0 c2))"
  have f: "c_src d0 = src" "c_dst d0 = dst" "c_sport d0 = sport" "c_dport d0 = L" "c_snd_nxt d0 = sq"
    "c_request d0 = request" "c_response d0 = []" "\<not> c_done d0" "\<not> c_established d0" "c_rcv_nxt d0 = 0"
    by (simp_all add: d0_def client_new_def Let_def sq_def)
  have fl: "ACK AND SYN = 0" "ACK AND RST = 0" "ACK AND FIN = 0" "(PSH OR ACK) AND SYN = 0" "(PSH OR ACK) AND RST = 0"
    by (simp_all add: tcp_flags)
  have opn: "client_open d0 = (tcp_packet src dst sport L sq 0 SYN [], d1)"
    by (simp add: client_open_def client_segment_eq f d1_def)
  have syn: "proxy_handle cfg fetch xs (tcp_packet src dst sport L sq 0 SYN []) c = Ok ([o1], c1)"
    using ips by (simp add: proxy_handle_def proxy_parse_packet px_segment_eq Let_def o1_def c1_def L_def)
  have run1: "client_run [o1] d1 = ([a, r], d2)"
    using ips
    by (simp add: o1_def on_inner_packet d1_def f client_segment_in_def Let_def split_beta a_def r_def d2_def
        client_segment_eq)
  have idle: "proxy_handle cfg fetch xs a c1 = Ok ([], c1)"
    using ips fl by (simp add: proxy_handle_def proxy_parse_packet a_def c1_def L_def)
  have asked: "\<exists>c3. proxy_handle cfg fetch xs r c1 = Ok (ack # more, c3)"
    using ips rq fl fetch
    by (simp add: proxy_handle_def proxy_parse_packet r_def L_def proxy_request_def Let_def ack_def more_def c1_def c2_def
        split: prod.split)
  then obtain c3 where "proxy_run cfg fetch xs [a, r] c1 = Ok (ack # more, c3)" using idle by auto
  then have ex: "proxy_exchange cfg fetch xc xs src dst sport request c = Ok (snd (client_run (ack # more) d2))"
    using opn [unfolded d0_def L_def] syn [unfolded L_def] run1 by (simp add: proxy_exchange_def)
  have d2: "c_sport d2 = sport" "c_established d2" "\<not> c_done d2" "c_rcv_nxt d2 = px_snd_nxt c2" "c_response d2 = []"
    by (simp_all add: d2_def d1_def c2_def c1_def f)
  have c2: "length (px_our_ip c2) = 4" "length (px_client_ip c2) = 4" "px_client_port c2 = sport"
    using ips by (simp_all add: c2_def c1_def)
  have "on_inner ack d2 = ([], d2)"
    using c2 d2 fl by (simp add: ack_def px_segment_eq on_inner_packet client_segment_in_def client_data_def client_fin_def)
  then have run: "snd (client_run (ack # more) d2) = snd (client_run more d2)" by (simp add: split_beta)
  have "c_response (snd (client_run more d2)) = answer \<and> c_done (snd (client_run more d2))"
  proof (cases "answer = []")
    case True
    then show ?thesis using c2 d2
      by (simp add: more_def px_segment_eq on_inner_packet client_segment_in_def client_data_def client_fin_def Let_def)
  next
    case False
    with client_reads_stream [of c2 d2 0 answer cfg] c2 d2 show ?thesis by (simp add: more_def)
  qed
  then show ?thesis using ex run by simp
qed

section \<open>The local service\<close>

text \<open>
  A service that answers: on a fresh connection it says nothing until it has been written a request,
  and then \<open>service request\<close>, which it delivers in pieces of any size before it closes. What it says
  depends on what is written: the request must reach it whole and unchanged.
\<close>

definition delivers :: "'s byte_stream \<Rightarrow> ('s \<Rightarrow> bytes) \<Rightarrow> bool" where
  "delivers bs avail \<longleftrightarrow> (\<forall>n s. 0 < n \<longrightarrow>
     (if avail s = [] then fst (bs_read bs n s) \<in> {Ok [], Err ()}
      else \<exists>k s'. 0 < k \<and> k \<le> n \<and> k \<le> length (avail s) \<and> bs_read bs n s = (Ok (take k (avail s)), s')
           \<and> avail s' = drop k (avail s)))"

definition answers :: "'s byte_stream \<Rightarrow> ('s \<Rightarrow> bytes) \<Rightarrow> (bytes \<Rightarrow> bytes) \<Rightarrow> 's \<Rightarrow> bool" where
  "answers bs avail service s \<longleftrightarrow> avail s = [] \<and> (\<forall>d. \<exists>s'. bs_write bs d s = (Ok (), s') \<and> avail s' = service d)"

lemma lan_reads:
  assumes laws: "delivers bs avail"
  shows "length buf + length (avail s) \<le> 64 * 1024 \<Longrightarrow> lan_read bs buf s = Ok (buf @ avail s)"
proof (induction "length (avail s)" arbitrary: buf s rule: less_induct)
  case less
  show ?case
  proof (cases "avail s = []")
    case True
    then have "fst (bs_read bs 1460 s) \<in> {Ok [], Err ()}"
      using laws [unfolded delivers_def, rule_format, of 1460 s] by simp
    then show ?thesis using True by (subst lan_read.simps) (auto split: prod.splits)
  next
    case False
    have "(0::nat) < 1460" by simp
    with laws False obtain k s' where k: "0 < k" "k \<le> 1460" "k \<le> length (avail s)"
      "bs_read bs 1460 s = (Ok (take k (avail s)), s')" "avail s' = drop k (avail s)"
      unfolding delivers_def by meson
    have "lan_read bs (buf @ take k (avail s)) s' = Ok ((buf @ take k (avail s)) @ avail s')"
      using k less.prems by (intro less.hyps) simp_all
    then show ?thesis using k less.prems False by (subst lan_read.simps) (auto simp: min_def Let_def)
  qed
qed

lemma lan_fetch_answers:
  assumes "delivers bs avail" "parse_ipv4 (pc_target_ip cfg) = Some ip" "dial ip (pc_target_port cfg) = Some s"
    and "answers bs avail service s" "length (service request) \<le> 64 * 1024"
  shows "lan_fetch bs dial cfg request = Ok (service request)"
proof -
  obtain s' where "bs_write bs request s = (Ok (), s')" "avail s' = service request"
    using assms(4) by (auto simp: answers_def)
  then show ?thesis using assms lan_reads [OF assms(1), of "[]" s'] by (simp add: lan_fetch_def)
qed


text \<open>A service that answers with the bytes of the request in reverse, one at a time.\<close>

definition echo_stream :: "bytes byte_stream" where
  "echo_stream = \<lparr>bs_read = (\<lambda>n s. (Ok (take 1 s), drop 1 s)), bs_write = (\<lambda>d s. (Ok (), rev d))\<rparr>"


text \<open>
  A request that arrives in two segments is cut: only the first is taken to the local service, the
  second is dropped without an acknowledgement.
\<close>

lemma proxy_drops_second_segment:
  assumes "length src = 4" "length dst = 4" "40 + length payload < 65536" "px_fetched c" "px_active c"
  shows "proxy_handle cfg fetch rand (tcp_packet src dst sport (pc_listen cfg) sq ack (PSH OR ACK) payload) c = Ok ([], c)"
  using assms by (simp add: proxy_handle_def proxy_parse_packet) (simp add: tcp_flags)

end
