(* ===== verification/Mdns.thy ===== *)
theory Mdns
  imports Dataplane
begin

text \<open>
  \<open>src/mdns.rs\<close>: the reflector between the local network and its partner over the tunnel. A turn of
  its loop sends what the partner has sent on to the local network and then takes one packet from it;
  the socket and the two channels are the arguments and the results of a turn.
\<close>

section \<open>The reflector\<close>

definition MDNS_PORT :: nat where "MDNS_PORT = 5353"
definition MDNS_GROUP :: "nat list" where "MDNS_GROUP = [224, 0, 0, 251]"
definition DEDUP_MAX :: nat where "DEDUP_MAX = 64"

text \<open>FNV-1a.\<close>

definition fnv :: "bytes \<Rightarrow> u64" where
  "fnv data = foldl (\<lambda>h b. (h XOR ucast b) * 0x100000001b3) 0xcbf29ce484222325 data"

definition remember :: "u64 list \<Rightarrow> u64 \<Rightarrow> u64 list" where
  "remember seen h = (if length seen \<ge> DEDUP_MAX then tl seen else seen) @ [h]"

text \<open>What a turn finds: the payloads of the partner, and a packet with its source, or none.\<close>

record mdns_in =
  mi_reinject :: "bytes list"
  mi_captured :: "(bytes \<times> u32) option"

text \<open>The packet to forward to the partner, if any, and the window after it.\<close>

definition mdns_capture :: "u32 \<Rightarrow> (bytes \<times> u32) option \<Rightarrow> u64 list \<Rightarrow> bytes option \<times> u64 list" where
  "mdns_capture lan_ip got seen = (case got of
     None \<Rightarrow> (None, seen)
   | Some (pkt, from_ip) \<Rightarrow>
       if from_ip = lan_ip then (None, seen)
       else if fnv pkt \<in> set seen then (None, seen)
       else (Some pkt, remember seen (fnv pkt)))"

definition mdns_turn :: "u32 \<Rightarrow> mdns_in \<Rightarrow> u64 list \<Rightarrow> bytes list \<times> bytes option \<times> u64 list" where
  "mdns_turn lan_ip i seen =
     (let seen = foldl (\<lambda>seen payload. remember seen (fnv payload)) seen (mi_reinject i);
          (fwd, seen) = mdns_capture lan_ip (mi_captured i) seen
      in (mi_reinject i, fwd, seen))"

text \<open>The loop over some turns: what goes to the local network and what goes to the partner.\<close>

fun mdns_run :: "u32 \<Rightarrow> mdns_in list \<Rightarrow> u64 list \<Rightarrow> bytes list \<times> bytes list \<times> u64 list" where
  "mdns_run lan_ip [] seen = ([], [], seen)"
| "mdns_run lan_ip (i # is) seen =
     (let (sent, fwd, seen) = mdns_turn lan_ip i seen; (sents, fwds, seen) = mdns_run lan_ip is seen
      in (sent @ sents, case_option [] (\<lambda>p. [p]) fwd @ fwds, seen))"

section \<open>No loops\<close>

lemma remember_window: "length seen \<le> DEDUP_MAX \<Longrightarrow> length (remember seen h) \<le> DEDUP_MAX"
  by (auto simp: remember_def DEDUP_MAX_def)

text \<open>A hash that has at most \<open>k\<close> newer ones behind it.\<close>

definition recent :: "nat \<Rightarrow> u64 \<Rightarrow> u64 list \<Rightarrow> bool" where
  "recent k h seen \<longleftrightarrow> (\<exists>a b. seen = a @ h # b \<and> length b \<le> k)"

lemma recent_new: "recent 0 h (remember seen h)"
  by (auto simp: recent_def remember_def)

lemma recent_mono: "recent k h seen \<Longrightarrow> k \<le> k' \<Longrightarrow> recent k' h seen"
  by (fastforce simp: recent_def)

lemma recent_set: "recent k h seen \<Longrightarrow> h \<in> set seen"
  by (auto simp: recent_def)

lemma recent_remember:
  assumes "recent k h seen" "Suc k < DEDUP_MAX"
  shows "recent (Suc k) h (remember seen x)"
proof -
  obtain a b where s: "seen = a @ h # b" "length b \<le> k" using assms(1) by (auto simp: recent_def)
  show ?thesis
  proof (cases "length seen \<ge> DEDUP_MAX")
    case True
    with s assms(2) have "a \<noteq> []" by auto
    then have "remember seen x = tl a @ h # (b @ [x])" using s True by (simp add: remember_def)
    then show ?thesis using s(2) unfolding recent_def by (intro exI [of _ "tl a"] exI [of _ "b @ [x]"]) simp
  next
    case False
    then have "remember seen x = a @ h # (b @ [x])" using s by (simp add: remember_def)
    then show ?thesis using s(2) unfolding recent_def by (intro exI [of _ a] exI [of _ "b @ [x]"]) simp
  qed
qed

lemma recent_reinject:
  "recent k h seen \<Longrightarrow> k + length ps < DEDUP_MAX \<Longrightarrow>
   recent (k + length ps) h (foldl (\<lambda>seen payload. remember seen (fnv payload)) seen ps)"
proof (induction ps arbitrary: k seen)
  case (Cons p ps)
  have "recent (Suc k) h (remember seen (fnv p))" using Cons.prems by (intro recent_remember) simp_all
  from Cons.IH [OF this] Cons.prems(2) show ?case by simp
qed simp

lemma recent_member:
  assumes "p \<in> set ps" "length ps \<le> DEDUP_MAX"
  shows "recent (length ps - 1) (fnv p) (foldl (\<lambda>seen payload. remember seen (fnv payload)) seen ps)"
proof -
  obtain a b where ps: "ps = a @ p # b" using assms(1) by (meson split_list)
  from recent_reinject [OF recent_new, of b "fnv p" "foldl (\<lambda>seen payload. remember seen (fnv payload)) seen a"] assms(2)
  show ?thesis by (auto simp: ps intro: recent_mono)
qed

lemma recent_capture:
  assumes "recent k (fnv p) seen" "Suc k < DEDUP_MAX" "mdns_capture lan_ip got seen = (fwd, seen')"
  shows "fwd \<noteq> Some p \<and> recent (Suc k) (fnv p) seen'"
  using assms recent_set [OF assms(1)] recent_mono [OF assms(1), of "Suc k"] recent_remember [OF assms(1,2)]
  by (auto simp: mdns_capture_def split: option.splits if_splits)

definition turn_cost :: "mdns_in \<Rightarrow> nat" where
  "turn_cost i = length (mi_reinject i) + 1"

lemma recent_run:
  "recent k (fnv p) seen \<Longrightarrow> k + sum_list (map turn_cost is) < DEDUP_MAX \<Longrightarrow> p \<notin> set (fst (snd (mdns_run lan_ip is seen)))"
proof (induction "is" arbitrary: k seen)
  case (Cons i "is")
  define s1 where "s1 = foldl (\<lambda>seen payload. remember seen (fnv payload)) seen (mi_reinject i)"
  obtain fwd s2 where c: "mdns_capture lan_ip (mi_captured i) s1 = (fwd, s2)" by force
  have "recent (k + length (mi_reinject i)) (fnv p) s1"
    using Cons.prems unfolding s1_def by (intro recent_reinject) (simp_all add: turn_cost_def)
  from recent_capture [OF this _ c] Cons.prems(2)
  have f: "fwd \<noteq> Some p" "recent (k + turn_cost i) (fnv p) s2" by (simp_all add: turn_cost_def)
  from Cons.IH [OF f(2)] Cons.prems(2) f(1) c show ?case
    by (auto simp: mdns_turn_def Let_def split_beta s1_def [symmetric] split: option.splits)
qed simp

text \<open>
  C30: what the partner has sent never goes back to it: a payload that a turn sends on to the local
  network is not forwarded in that turn nor in the following ones, whoever repeats it there, as
  long as the turns together have at most 64 payloads and packets.
\<close>

theorem reinjected_not_forwarded:
  assumes "p \<in> set (mi_reinject i)" "sum_list (map turn_cost (i # is)) \<le> DEDUP_MAX"
  shows "p \<notin> set (fst (snd (mdns_run lan_ip (i # is) seen)))"
proof -
  define s1 where "s1 = foldl (\<lambda>seen payload. remember seen (fnv payload)) seen (mi_reinject i)"
  obtain fwd s2 where c: "mdns_capture lan_ip (mi_captured i) s1 = (fwd, s2)" by force
  have l: "0 < length (mi_reinject i)" "length (mi_reinject i) < DEDUP_MAX"
    using assms by (auto simp: turn_cost_def DEDUP_MAX_def)
  have "recent (length (mi_reinject i) - 1) (fnv p) s1"
    using assms(1) l unfolding s1_def by (intro recent_member) simp_all
  from recent_capture [OF this _ c] l have f: "fwd \<noteq> Some p" "recent (length (mi_reinject i)) (fnv p) s2" by simp_all
  have "p \<notin> set (fst (snd (mdns_run lan_ip is s2)))"
    using recent_run [OF f(2), of "is"] assms(2) by (simp add: turn_cost_def)
  with f(1) c show ?thesis by (auto simp: mdns_turn_def Let_def split_beta s1_def [symmetric] split: option.splits)
qed

theorem reinjected_not_forwarded_witness:
  "[7] \<notin> set (fst (snd (mdns_run 9 [\<lparr>mi_reinject = [[7]], mi_captured = Some ([8], 3)\<rparr>, \<lparr>mi_reinject = [], mi_captured = Some ([7], 3)\<rparr>] [])))
   \<and> [8] \<in> set (fst (snd (mdns_run 9 [\<lparr>mi_reinject = [[7]], mi_captured = Some ([8], 3)\<rparr>, \<lparr>mi_reinject = [], mi_captured = Some ([7], 3)\<rparr>] [])))"
proof (rule conjI)
  show "[7] \<notin> set (fst (snd (mdns_run 9 [\<lparr>mi_reinject = [[7]], mi_captured = Some ([8], 3)\<rparr>, \<lparr>mi_reinject = [], mi_captured = Some ([7], 3)\<rparr>] [])))"
    by (rule reinjected_not_forwarded) (simp_all add: turn_cost_def DEDUP_MAX_def)
qed code_simp

end
