(* ===== verification/Bridge.thy ===== *)
theory Bridge
  imports Dataplane Control
begin

text \<open>
  \<open>src/lwip_bridge.rs\<close>: the tunnel as a network interface of the TCP/IP stack of the system. Frames
  for the stack are kept alive until it gives them back; packets from it are queued for the data
  plane; ARP requests are answered with an address of our own making; and a counter in the flash store
  stops a bring-up that keeps crashing. The stack and the driver calls are outside the crate.
\<close>

section \<open>Frames\<close>

definition ETH_HDR :: nat where "ETH_HDR = 14"
definition ETHERTYPE_IP :: u16 where "ETHERTYPE_IP = 0x0800"
definition ETHERTYPE_ARP :: u16 where "ETHERTYPE_ARP = 0x0806"
definition OUR_MAC :: bytes where "OUR_MAC = [0x02, 0x54, 0x53, 0x00, 0x00, 0x01]"
definition PEER_MAC :: bytes where "PEER_MAC = [0x02, 0x54, 0x53, 0x00, 0x00, 0x02]"
definition TX_QUEUE_MAX :: nat where "TX_QUEUE_MAX = 64"

text \<open>
  The statics: the handle of the interface (0 for none), the queue, and the frames lent to the stack
  by their addresses.
\<close>

record bridge =
  br_netif :: nat
  br_tx :: "bytes list"
  br_rx :: "(nat \<times> bytes) list"

text \<open>
  A frame handed to the stack: the address the allocator has given its box is an argument. The last
  component is what the stack receives.
\<close>

definition esp_inject :: "nat \<Rightarrow> bytes \<Rightarrow> bridge \<Rightarrow> bridge \<times> (nat \<times> bytes) list" where
  "esp_inject ptr frame st = (st\<lparr>br_rx := br_rx st @ [(ptr, frame)]\<rparr>, [(ptr, frame)])"

definition swap_remove :: "nat \<Rightarrow> 'a list \<Rightarrow> 'a list" where
  "swap_remove i xs = (if Suc i = length xs then butlast xs else (butlast xs)[i := last xs])"

definition wg_free_rx :: "nat \<Rightarrow> bridge \<Rightarrow> bridge" where
  "wg_free_rx eb st = (case find (\<lambda>i. fst (br_rx st ! i) = eb) [0..<length (br_rx st)] of
     None \<Rightarrow> st
   | Some pos \<Rightarrow> st\<lparr>br_rx := swap_remove pos (br_rx st)\<rparr>)"

definition drain_tx :: "bridge \<Rightarrow> bytes list \<times> bridge" where
  "drain_tx st = (br_tx st, st\<lparr>br_tx := []\<rparr>)"

definition inject_ip :: "nat \<Rightarrow> bytes \<Rightarrow> bridge \<Rightarrow> bridge \<times> (nat \<times> bytes) list" where
  "inject_ip ptr ip_packet st =
     (if br_netif st = 0 \<or> ip_packet = [] then (st, [])
      else esp_inject ptr (OUR_MAC @ PEER_MAC @ be16 ETHERTYPE_IP @ ip_packet) st)"

definition handle_arp :: "nat \<Rightarrow> bytes \<Rightarrow> bridge \<Rightarrow> bridge \<times> (nat \<times> bytes) list" where
  "handle_arp ptr arp st =
     (if length arp < 28 then (st, [])
      else if get16 6 arp \<noteq> 1 then (st, [])
      else
       (let sender_mac = cut 8 14 arp; sender_ip = cut 14 18 arp; target_ip = cut 24 28 arp;
            payload = [0x00, 0x01] @ be16 ETHERTYPE_IP @ [6, 4] @ [0x00, 0x02] @ PEER_MAC @ target_ip @ sender_mac @ sender_ip
        in if br_netif st = 0 then (st, [])
           else esp_inject ptr (sender_mac @ PEER_MAC @ be16 ETHERTYPE_ARP @ payload) st))"

text \<open>The callback of the stack; \<open>None\<close> is a null buffer.\<close>

definition wg_transmit :: "nat \<Rightarrow> bytes option \<Rightarrow> bridge \<Rightarrow> bridge \<times> (nat \<times> bytes) list" where
  "wg_transmit ptr buffer st = (case buffer of
     None \<Rightarrow> (st, [])
   | Some frame \<Rightarrow>
       if length frame < ETH_HDR then (st, [])
       else
        (let ethertype = get16 12 frame in
         if ethertype = ETHERTYPE_ARP then handle_arp ptr (drop ETH_HDR frame) st
         else if ethertype = ETHERTYPE_IP then
           ((if length (br_tx st) < TX_QUEUE_MAX then st\<lparr>br_tx := br_tx st @ [drop ETH_HDR frame]\<rparr> else st), [])
         else (st, [])))"

text \<open>The driver calls of the bring-up: a handle or 0, and two results, of which 0 is success.\<close>

record netif_calls =
  nc_new :: nat
  nc_attach :: int
  nc_set_ip :: int

definition ESP_FAIL :: int where "ESP_FAIL = - 1"

definition bridge_create :: "netif_calls \<Rightarrow> bridge \<Rightarrow> (unit, int) outcome \<times> bridge" where
  "bridge_create calls st =
     (if nc_new calls = 0 then (Err ESP_FAIL, st)
      else if nc_attach calls \<noteq> 0 then (Err (nc_attach calls), st)
      else if nc_set_ip calls \<noteq> 0 then (Err (nc_set_ip calls), st)
      else (Ok (), st\<lparr>br_netif := nc_new calls\<rparr>))"

section \<open>The guard\<close>

definition MAX_TRIES :: u8 where "MAX_TRIES = 2"

definition tries_of :: "'n nvs \<Rightarrow> 'n \<Rightarrow> u8" where
  "tries_of nv n = (case nv_get nv ''tries'' n of Ok (Some (b # _)) \<Rightarrow> b | _ \<Rightarrow> 0)"

definition store_tries :: "'n nvs \<Rightarrow> u8 \<Rightarrow> 'n \<Rightarrow> 'n" where
  "store_tries nv b n = snd (nv_set nv ''tries'' [b] n)"

text \<open>The start of a boot: whether the bring-up is attempted, and the store when it begins.\<close>

definition guard_begin :: "'n nvs \<Rightarrow> 'n \<Rightarrow> bool \<times> 'n" where
  "guard_begin nv n =
     (let tries = tries_of nv n in
      if tries \<ge> MAX_TRIES then (False, store_tries nv 0 n) else (True, store_tries nv (tries + 1) n))"

text \<open>After 30 seconds of an attempted bring-up, whether it succeeded or returned an error.\<close>

definition guard_stable :: "'n nvs \<Rightarrow> 'n \<Rightarrow> 'n" where
  "guard_stable nv n = store_tries nv 0 n"

section \<open>What the stack holds\<close>

text \<open>
  The steps of the threads around the bridge, with the frames the stack holds. The bring-up gives the
  bridge the handle of the interface, without which nothing is injected. The stack is handed the frames
  that are injected, at addresses that no frame it still holds has, and gives them back one by one.
\<close>

datatype bridge_op = CreateOp netif_calls | InjectOp nat bytes | TransmitOp nat "bytes option" | FreeOp nat | DrainOp

definition bridge_do :: "bridge_op \<Rightarrow> bridge \<Rightarrow> bridge \<times> (nat \<times> bytes) list" where
  "bridge_do op st = (case op of
     CreateOp calls \<Rightarrow> (snd (bridge_create calls st), [])
   | InjectOp ptr p \<Rightarrow> inject_ip ptr p st
   | TransmitOp ptr b \<Rightarrow> wg_transmit ptr b st
   | FreeOp eb \<Rightarrow> (wg_free_rx eb st, [])
   | DrainOp \<Rightarrow> (snd (drain_tx st), []))"

fun fresh_op :: "(nat \<times> bytes) list \<Rightarrow> bridge_op \<Rightarrow> bool" where
  "fresh_op rx (InjectOp ptr p) \<longleftrightarrow> ptr \<notin> fst ` set rx"
| "fresh_op rx (TransmitOp ptr b) \<longleftrightarrow> ptr \<notin> fst ` set rx"
| "fresh_op rx _ \<longleftrightarrow> True"

fun given_back :: "bridge_op \<Rightarrow> (nat \<times> bytes) set \<Rightarrow> (nat \<times> bytes) set" where
  "given_back (FreeOp eb) held = {h \<in> held. fst h \<noteq> eb}"
| "given_back _ held = held"

inductive bridge_step :: "bridge \<times> (nat \<times> bytes) set \<Rightarrow> bridge \<times> (nat \<times> bytes) set \<Rightarrow> bool" where
  step: "fresh_op (br_rx st) op \<Longrightarrow> bridge_do op st = (st', got) \<Longrightarrow>
    bridge_step (st, held) (st', given_back op held \<union> set got)"

inductive_cases bridge_stepE: "bridge_step s s'"

definition bridge_start :: "bridge" where
  "bridge_start = \<lparr>br_netif = 0, br_tx = [], br_rx = []\<rparr>"

lemma swap_remove_set:
  "i < length xs \<Longrightarrow> distinct (map fst xs) \<Longrightarrow>
   set (swap_remove i xs) = {x \<in> set xs. fst x \<noteq> fst (xs ! i)} \<and> distinct (map fst (swap_remove i xs))"
proof -
  assume i: "i < length xs" and d: "distinct (map fst xs)"
  obtain ys y where xs: "xs = ys @ [y]" using i by (cases xs rule: rev_cases) auto
  show ?thesis
  proof (cases "i = length ys")
    case True
    with d show ?thesis by (auto simp: xs swap_remove_def image_iff)
  next
    case False
    with i have l: "i < length ys" by (simp add: xs)
    define a z b where "a = take i ys" and "z = ys ! i" and "b = drop (Suc i) ys"
    have ys: "ys = a @ z # b" unfolding a_def z_def b_def using l by (rule id_take_nth_drop)
    have "length a = i" using l by (simp add: a_def)
    then have "swap_remove i xs = a @ y # b" "xs ! i = z" by (auto simp: xs ys swap_remove_def butlast_append)
    then show ?thesis using d by (auto simp: xs ys image_iff)
  qed
qed

lemma wg_free_rx_set:
  assumes "distinct (map fst (br_rx st))"
  shows "set (br_rx (wg_free_rx eb st)) = {x \<in> set (br_rx st). fst x \<noteq> eb} \<and> distinct (map fst (br_rx (wg_free_rx eb st)))"
proof (cases "find (\<lambda>i. fst (br_rx st ! i) = eb) [0..<length (br_rx st)]")
  case None
  then have "\<forall>i<length (br_rx st). fst (br_rx st ! i) \<noteq> eb" by (simp add: find_None_iff)
  then have "\<forall>x\<in>set (br_rx st). fst x \<noteq> eb" by (metis in_set_conv_nth)
  with None assms show ?thesis by (auto simp: wg_free_rx_def)
next
  case (Some i)
  then have "i < length (br_rx st)" "fst (br_rx st ! i) = eb" by (auto simp: find_Some_iff)
  with swap_remove_set [OF this(1) assms] Some show ?thesis by (simp add: wg_free_rx_def)
qed

text \<open>What the stack holds is what the bridge keeps, and the queue is bounded.\<close>

fun bridge_ok :: "bridge \<times> (nat \<times> bytes) set \<Rightarrow> bool" where
  "bridge_ok (st, held) \<longleftrightarrow> set (br_rx st) = held \<and> distinct (map fst (br_rx st)) \<and> length (br_tx st) \<le> TX_QUEUE_MAX"

lemma esp_inject_ok:
  "bridge_ok (st, held) \<Longrightarrow> ptr \<notin> fst ` set (br_rx st) \<Longrightarrow> esp_inject ptr f st = (st', got) \<Longrightarrow> bridge_ok (st', held \<union> set got)"
  by (auto simp: esp_inject_def)

lemma handle_arp_injects: "handle_arp ptr arp st = (st, []) \<or> (\<exists>f. handle_arp ptr arp st = esp_inject ptr f st)"
  by (auto simp: handle_arp_def Let_def)

lemma transmit_ok:
  assumes "bridge_ok (st, held)" "ptr \<notin> fst ` set (br_rx st)" "wg_transmit ptr b st = (st', got)"
  shows "bridge_ok (st', held \<union> set got)"
proof -
  have "wg_transmit ptr b st = (st, []) \<or> (\<exists>f. wg_transmit ptr b st = esp_inject ptr f st)
      \<or> (\<exists>x. length (br_tx st) < TX_QUEUE_MAX \<and> wg_transmit ptr b st = (st\<lparr>br_tx := br_tx st @ [x]\<rparr>, []))"
    using handle_arp_injects [of ptr _ st] by (auto simp: wg_transmit_def Let_def split: option.split)
  then consider "(st', got) = (st, [])" | f where "esp_inject ptr f st = (st', got)"
    | x where "length (br_tx st) < TX_QUEUE_MAX" "(st', got) = (st\<lparr>br_tx := br_tx st @ [x]\<rparr>, [])"
    using assms(3) by auto
  then show ?thesis
  proof cases
    case 2
    then show ?thesis by (rule esp_inject_ok [OF assms(1,2)])
  qed (use assms(1) in auto)
qed

lemma bridge_do_ok:
  assumes "bridge_ok (st, held)" "fresh_op (br_rx st) op" "bridge_do op st = (st', got)"
  shows "bridge_ok (st', given_back op held \<union> set got)"
proof (cases op)
  case (CreateOp calls)
  with assms show ?thesis by (auto simp: bridge_do_def bridge_create_def split: if_splits)
next
  case (InjectOp ptr p)
  with assms esp_inject_ok [OF assms(1)] show ?thesis by (auto simp: bridge_do_def inject_ip_def split: if_splits)
next
  case (TransmitOp ptr b)
  with assms transmit_ok [OF assms(1)] show ?thesis by (simp add: bridge_do_def)
next
  case (FreeOp eb)
  have "bridge_ok (wg_free_rx eb st, {h \<in> held. fst h \<noteq> eb})"
    using assms(1) wg_free_rx_set [of st eb] by (auto simp: wg_free_rx_def split: option.split)
  with assms FreeOp show ?thesis by (simp add: bridge_do_def)
next
  case DrainOp
  with assms show ?thesis by (auto simp: bridge_do_def drain_tx_def)
qed

text \<open>
  C29: in every order of bringing the interface up, injecting, transmitting, giving back and
  draining, when no frame is allocated at the address of one that is still held, each frame the stack
  still holds is kept alive with its bytes and no other is, so that none is freed under it and none is
  leaked; the queue never holds more than 64 packets.
\<close>

theorem held_frames_alive:
  "bridge_step\<^sup>*\<^sup>* (bridge_start, {}) (st, held) \<Longrightarrow>
   set (br_rx st) = held \<and> distinct (map fst (br_rx st)) \<and> length (br_tx st) \<le> 64"
proof -
  have "bridge_step\<^sup>*\<^sup>* s s' \<Longrightarrow> bridge_ok s \<Longrightarrow> bridge_ok s'" for s s'
    by (induction rule: rtranclp_induct) (auto elim!: bridge_stepE dest: bridge_do_ok simp del: bridge_ok.simps)
  moreover have "bridge_ok (bridge_start, {})" by (simp add: bridge_start_def)
  ultimately show "bridge_step\<^sup>*\<^sup>* (bridge_start, {}) (st, held) \<Longrightarrow> ?thesis" by (fastforce simp: TX_QUEUE_MAX_def)
qed

text \<open>
  The interface comes up, two frames are injected, the first is given back, and an ARP request is
  answered with a third.
\<close>

definition sample_arp :: bytes where
  "sample_arp = replicate 12 0 @ [8, 6] @ [0, 1, 8, 0, 6, 4, 0, 1] @ replicate 20 9"

definition sample_calls :: netif_calls where
  "sample_calls = \<lparr>nc_new = 5, nc_attach = 0, nc_set_ip = 0\<rparr>"

fun bridge_run :: "bridge_op list \<Rightarrow> bridge \<times> (nat \<times> bytes) list \<Rightarrow> bridge \<times> (nat \<times> bytes) list" where
  "bridge_run [] s = s"
| "bridge_run (op # ops) (st, held) =
     (let (st', got) = bridge_do op st
      in bridge_run ops (st', (case op of FreeOp eb \<Rightarrow> filter (\<lambda>h. fst h \<noteq> eb) held | _ \<Rightarrow> held) @ got))"

fun fresh_run :: "bridge_op list \<Rightarrow> bridge \<Rightarrow> bool" where
  "fresh_run [] st \<longleftrightarrow> True"
| "fresh_run (op # ops) st \<longleftrightarrow> fresh_op (br_rx st) op \<and> fresh_run ops (fst (bridge_do op st))"

lemma bridge_run_steps:
  "fresh_run ops st \<Longrightarrow> bridge_run ops (st, held) = (st', held') \<Longrightarrow> bridge_step\<^sup>*\<^sup>* (st, set held) (st', set held')"
proof (induction ops arbitrary: st held)
  case (Cons op ops)
  obtain st1 got where d: "bridge_do op st = (st1, got)" by force
  define held1 where "held1 = (case op of FreeOp eb \<Rightarrow> filter (\<lambda>h. fst h \<noteq> eb) held | _ \<Rightarrow> held) @ got"
  have "set held1 = given_back op (set held) \<union> set got" by (cases op) (auto simp: held1_def)
  with Cons.prems(1) d have "bridge_step (st, set held) (st1, set held1)" by (auto intro: bridge_step.step)
  moreover have "bridge_step\<^sup>*\<^sup>* (st1, set held1) (st', set held')"
    using Cons d by (intro Cons.IH) (simp_all add: held1_def)
  ultimately show ?case by (rule converse_rtranclp_into_rtranclp)
qed simp

theorem held_frames_alive_witness:
  "\<exists>st held. bridge_step\<^sup>*\<^sup>* (bridge_start, {}) (st, held) \<and> card held = 2 \<and> set (br_rx st) = held
     \<and> (8, OUR_MAC @ PEER_MAC @ [8, 0, 0x45, 2]) \<in> held"
proof -
  define ops where "ops = [CreateOp sample_calls, InjectOp 7 [0x45, 1], InjectOp 8 [0x45, 2], FreeOp 7, TransmitOp 9 (Some sample_arp)]"
  obtain st held where r: "bridge_run ops (bridge_start, []) = (st, held)" by force
  have f: "fresh_run ops bridge_start"
    by (simp add: ops_def bridge_do_def bridge_create_def sample_calls_def bridge_start_def inject_ip_def esp_inject_def
        wg_free_rx_def swap_remove_def upt_rec)
  have "map fst (snd (bridge_run ops (bridge_start, []))) = [8, 9]
      \<and> (8, OUR_MAC @ PEER_MAC @ [8, 0, 0x45, 2]) \<in> set (snd (bridge_run ops (bridge_start, [])))"
    unfolding ops_def by code_simp
  then have m: "map fst held = [8, 9]" "(8, OUR_MAC @ PEER_MAC @ [8, 0, 0x45, 2]) \<in> set held" by (simp_all add: r)
  have "length held = 2" using arg_cong [OF m(1), of length] by simp
  moreover have "distinct held" using m(1) by (intro distinct_map [of fst held, THEN iffD1, THEN conjunct1]) simp
  ultimately have h: "card (set held) = 2 \<and> (8, OUR_MAC @ PEER_MAC @ [8, 0, 0x45, 2]) \<in> set held"
    using m(2) by (simp add: distinct_card)
  have "bridge_step\<^sup>*\<^sup>* (bridge_start, {}) (st, set held)" using bridge_run_steps [OF f r] by simp
  with held_frames_alive [OF this] h show ?thesis by blast
qed

section \<open>Boots\<close>

text \<open>
  Some boots, each of which survives its first 30 seconds or not: whether each has attempted the
  bring-up, and the store after them.
\<close>

fun guard_boots :: "'n nvs \<Rightarrow> bool list \<Rightarrow> 'n \<Rightarrow> bool list" where
  "guard_boots nv [] n = []"
| "guard_boots nv (survives # bs) n =
     (let (tried, n) = guard_begin nv n; n = (if tried \<and> survives then guard_stable nv n else n)
      in tried # guard_boots nv bs n)"

definition tries_law :: "'n nvs \<Rightarrow> bool" where
  "tries_law nv \<longleftrightarrow> (\<forall>b n. tries_of nv (store_tries nv b n) = b)"

lemma guard_tries: "tries_law nv \<Longrightarrow> tries_of nv (snd (guard_begin nv n)) =
    (if tries_of nv n \<ge> MAX_TRIES then 0 else tries_of nv n + 1)"
  by (simp add: guard_begin_def Let_def tries_law_def)

lemma guard_boots_drop: "\<exists>n'. drop i (guard_boots nv bs n) = guard_boots nv (drop i bs) n'"
proof (induction i arbitrary: bs n)
  case (Suc i)
  then show ?case by (cases bs) (auto simp: Let_def split_beta)
qed auto

lemma length_guard_boots [simp]: "length (guard_boots nv bs n) = length bs"
  by (induction nv bs n rule: guard_boots.induct) (simp_all add: Let_def split_beta)

lemma u8_tries: "\<not> 2 \<le> b \<Longrightarrow> \<not> 2 \<le> b + 1 \<Longrightarrow> 2 \<le> b + 1 + (1 :: u8)"
proof -
  assume "\<not> 2 \<le> b"
  then have "unat b = 0 \<or> unat b = 1" by (auto simp: word_le_nat_alt)
  then have "b = 0 \<or> b = 1" by (metis unat_eq_zero unat_1 word_unat_eq_iff)
  then show "\<not> 2 \<le> b + 1 \<Longrightarrow> ?thesis" by auto
qed

lemma first_boots:
  assumes "tries_law nv" "guard_boots nv (False # False # c # bs) n = x # y # z # ws" "x" "y"
  shows "\<not> z"
proof -
  define n1 where "n1 = snd (guard_begin nv n)"
  define n2 where "n2 = snd (guard_begin nv n1)"
  have g: "fst (guard_begin nv m) \<longleftrightarrow> \<not> 2 \<le> tries_of nv m" for m by (simp add: guard_begin_def Let_def MAX_TRIES_def)
  have "x = fst (guard_begin nv n)" "y = fst (guard_begin nv n1)" "z = fst (guard_begin nv n2)"
    using assms(2) by (auto simp: Let_def split_beta n1_def n2_def)
  moreover have "\<not> 2 \<le> tries_of nv n \<Longrightarrow> tries_of nv n1 = tries_of nv n + 1" "\<not> 2 \<le> tries_of nv n1 \<Longrightarrow> tries_of nv n2 = tries_of nv n1 + 1"
    using guard_tries [OF assms(1)] by (simp_all add: n1_def n2_def MAX_TRIES_def)
  ultimately show ?thesis using assms(3,4) u8_tries [of "tries_of nv n"] by (simp add: g)
qed

text \<open>
  C39: a bring-up that crashes the device stops after two boots: of three boots in a row, when the first
  two have attempted it and crashed, the third does not attempt it.
\<close>

theorem boot_loop_bounded:
  assumes "tries_law nv" "i + 2 < length bs" "guard_boots nv bs n ! i" "\<not> bs ! i" "guard_boots nv bs n ! (i + 1)" "\<not> bs ! (i + 1)"
  shows "\<not> guard_boots nv bs n ! (i + 2)"
proof -
  obtain n' where d: "drop i (guard_boots nv bs n) = guard_boots nv (drop i bs) n'" using guard_boots_drop [of i nv bs n] by blast
  define a b c cs where "a = bs ! i" and "b = bs ! (i + 1)" and "c = bs ! (i + 2)" and "cs = drop (i + 3) bs"
  have bs: "drop i bs = a # b # c # cs"
    using assms(2) Cons_nth_drop_Suc [of i bs] Cons_nth_drop_Suc [of "Suc i" bs] Cons_nth_drop_Suc [of "Suc (Suc i)" bs]
    by (simp add: a_def b_def c_def cs_def numeral_eq_Suc)
  note ab = a_def b_def
  define gs where "gs = guard_boots nv bs n"
  have "length (drop i gs) = Suc (Suc (Suc (length cs)))" using arg_cong [OF bs, of length] by (simp add: gs_def)
  then obtain x y z ws where g: "drop i gs = x # y # z # ws" unfolding length_Suc_conv by blast
  have xyz: "x = gs ! i" "y = gs ! (i + 1)" "z = gs ! (i + 2)"
    using nth_drop [of i gs 0, unfolded g] nth_drop [of i gs 1, unfolded g] nth_drop [of i gs 2, unfolded g] assms(2)
    by (simp_all add: gs_def)
  have "guard_boots nv (False # False # c # cs) n' = x # y # z # ws" using d g bs ab assms(4,6) by (simp add: gs_def)
  from first_boots [OF assms(1) this] xyz assms(3,5) show ?thesis by (simp add: gs_def)
qed

definition tries_nvs :: "u8 nvs" where
  "tries_nvs = \<lparr>nv_get = (\<lambda>k n. Ok (Some [n])), nv_set = (\<lambda>k b n. (Ok (), hd b)), nv_random = (\<lambda>n. (Ok [], n))\<rparr>"

theorem boot_loop_bounded_witness:
  "guard_boots tries_nvs [False, False, False, False] 0 = [True, True, False, True]
   \<and> \<not> guard_boots tries_nvs [False, False, False, False] 0 ! (0 + 2)"
proof (rule conjI)
  show g: "guard_boots tries_nvs [False, False, False, False] 0 = [True, True, False, True]" by code_simp
  have "tries_law tries_nvs" by (simp add: tries_law_def tries_of_def store_tries_def tries_nvs_def)
  then show "\<not> guard_boots tries_nvs [False, False, False, False] 0 ! (0 + 2)"
    by (rule boot_loop_bounded)
       (simp_all add: g del: guard_boots.simps)
qed

end
